(* ===== verification/Prelude.thy ===== *)
theory Prelude
  imports Main "HOL-Library.Sublist" "HOL-Library.Code_Target_Nat"
begin

text \<open>
  What the components share.  A call that may raise returns \<open>'e + 'a\<close>, with \<open>Inl\<close> for the raised
  error; \<open>rbind\<close> sequences such calls.  An operation on a state that may raise is an \<open>act\<close>: the state it
  leaves and its result, with \<open>keeps\<close> for what it preserves.  A Python \<open>str\<close> is the list of its code
  points (\<open>pystr\<close>); the literal \<open>"abc"\<close> of the source is written \<open>u ''abc''\<close>.  The methods \<open>strip\<close>,
  \<open>startswith\<close>, \<open>endswith\<close>, \<open>in\<close>, \<open>count\<close> and \<open>replace\<close> of strings and bytes are defined here with
  the laws the proofs need; the other string methods and dictionaries are in \<open>PyText\<close>, the UTF-8 codec in
  \<open>Utf8\<close>, \<open>splitlines\<close> in \<open>Difflib\<close>.
\<close>

named_theorems pystr_simps "evaluation of string operations"
named_theorems step_defs "definitions of the operations of a component"
named_theorems inv_intros "preservation facts of invariants"

section \<open>Results of calls that may raise\<close>

definition rbind :: "'e + 'a \<Rightarrow> ('a \<Rightarrow> 'e + 'b) \<Rightarrow> 'e + 'b" where
  "rbind m f = (case m of Inl e \<Rightarrow> Inl e | Inr x \<Rightarrow> f x)"

lemma rbind_simps [simp]:
  "rbind (Inl e) f = Inl e"
  "rbind (Inr x) f = f x"
  by (simp_all add: rbind_def)

lemma rbind_Inr_iff: "rbind m f = Inr y \<longleftrightarrow> (\<exists>x. m = Inr x \<and> f x = Inr y)"
  by (cases m) auto

lemma rbind_InrE [elim]:
  assumes "rbind m f = Inr y"
  obtains x where "m = Inr x" and "f x = Inr y"
  using assms by (auto simp: rbind_Inr_iff)

lemma rbind_cong [fundef_cong]:
  "m = m' \<Longrightarrow> (\<And>x. m' = Inr x \<Longrightarrow> f x = g x) \<Longrightarrow> rbind m f = rbind m' g"
  by (cases m') simp_all

text \<open>\<open>require b e\<close> is the guard \<open>if not b: raise e\<close>.\<close>

definition require :: "bool \<Rightarrow> 'e \<Rightarrow> 'e + unit" where
  "require b e = (if b then Inr () else Inl e)"

lemma require_simps [simp]:
  "require True e = Inr ()"
  "require False e = Inl e"
  "require b e = Inr x \<longleftrightarrow> b"
  by (simp_all add: require_def)

lemma rbind_require [simp]:
  "rbind (require b e) f = Inr y \<longleftrightarrow> b \<and> f () = Inr y"
  by (simp add: require_def)

fun map_res :: "('a \<Rightarrow> 'e + 'b) \<Rightarrow> 'a list \<Rightarrow> 'e + 'b list" where
  "map_res f [] = Inr []"
| "map_res f (x # xs) = rbind (f x) (\<lambda>y. rbind (map_res f xs) (\<lambda>ys. Inr (y # ys)))"

lemma map_res_Inr_iff: "map_res f xs = Inr ys \<longleftrightarrow> list_all2 (\<lambda>x y. f x = Inr y) xs ys"
  by (induction xs arbitrary: ys) (auto simp: rbind_Inr_iff list_all2_Cons1)

lemma map_res_all_Inr: "(\<And>x. x \<in> set xs \<Longrightarrow> f x = Inr (g x)) \<Longrightarrow> map_res f xs = Inr (map g xs)"
  by (induction xs) auto

section \<open>Operations on a state that may raise\<close>

text \<open>
  An operation on an object's state returns the state it leaves and either its value or the
  error it raised: as in Python, what it wrote before raising stays written.
\<close>

type_synonym ('s, 'e, 'a) act = "'s \<Rightarrow> 's \<times> ('e + 'a)"

definition ret :: "'a \<Rightarrow> ('s, 'e, 'a) act" where
  "ret x = (\<lambda>s. (s, Inr x))"

definition throw :: "'e \<Rightarrow> ('s, 'e, 'a) act" where
  "throw e = (\<lambda>s. (s, Inl e))"

definition abind :: "('s, 'e, 'a) act \<Rightarrow> ('a \<Rightarrow> ('s, 'e, 'b) act) \<Rightarrow> ('s, 'e, 'b) act" where
  "abind m f = (\<lambda>s. case m s of (s', Inl e) \<Rightarrow> (s', Inl e) | (s', Inr x) \<Rightarrow> f x s')"

definition guard :: "bool \<Rightarrow> 'e \<Rightarrow> ('s, 'e, unit) act" where
  "guard b e = (if b then ret () else throw e)"

definition reads :: "('s \<Rightarrow> 'a) \<Rightarrow> ('s, 'e, 'a) act" where
  "reads f = (\<lambda>s. (s, Inr (f s)))"

definition writes :: "('s \<Rightarrow> 's) \<Rightarrow> ('s, 'e, unit) act" where
  "writes f = (\<lambda>s. (f s, Inr ()))"

lemma act_simps [simp]:
  "ret x s = (s, Inr x)" "throw e s = (s, Inl e)" "reads f s = (s, Inr (f s))" "writes g s = (g s, Inr ())"
  "guard True e' s = (s, Inr ())" "guard False e' s = (s, Inl e')"
  by (simp_all add: ret_def throw_def reads_def writes_def guard_def)

lemma abind_eq: "m s = (s', r) \<Longrightarrow> abind m f s = (case r of Inl e \<Rightarrow> (s', Inl e) | Inr x \<Rightarrow> f x s')"
  by (simp add: abind_def)

lemma abind_simps [simp]:
  "abind (ret x) f = f x" "abind (throw e) f3 = throw e"
  "abind (reads g) f4 s = f4 (g s) s" "abind (writes h) f5 s = f5 () (h s)"
  "abind (abind m f1) f2 = abind m (\<lambda>x. abind (f1 x) f2)"
  by (auto simp: abind_def ret_def throw_def reads_def writes_def fun_eq_iff split: prod.splits sum.splits)

lemma abind_guard [simp]:
  "abind (guard b e') f s = (if b then f () s else (s, Inl e'))"
  by (simp add: abind_def guard_def)

lemma abind_Inr_iff:
  "abind m f s = (s', Inr y) \<longleftrightarrow> (\<exists>s1 x. m s = (s1, Inr x) \<and> f x s1 = (s', Inr y))"
  by (auto simp: abind_def split: prod.splits sum.splits)

text \<open>\<open>keeps R m\<close>: whatever \<open>m\<close> returns or raises, the states before and after are related.\<close>

definition keeps :: "('s \<Rightarrow> 's \<Rightarrow> bool) \<Rightarrow> ('s, 'e, 'a) act \<Rightarrow> bool" where
  "keeps R m \<longleftrightarrow> (\<forall>s. R s (fst (m s)))"

lemma keepsI: "(\<And>s s' r. m s = (s', r) \<Longrightarrow> R s s') \<Longrightarrow> keeps R m"
  by (auto simp: keeps_def) (metis prod.collapse)

lemma keepsD: "keeps R m \<Longrightarrow> m s = (s', r) \<Longrightarrow> R s s'"
  by (auto simp: keeps_def) (metis fst_conv)

lemma keeps_abind [inv_intros]:
  assumes "transp R" and "keeps R m" and "\<And>x. keeps R (f x)"
  shows "keeps R (abind m f)"
proof (rule keepsI)
  fix s s' r assume e: "abind m f s = (s', r)"
  obtain s1 q where m: "m s = (s1, q)" by (cases "m s")
  with assms(2) have "R s s1" by (rule keepsD)
  then show "R s s'"
  proof (cases q)
    case (Inl x)
    with e m \<open>R s s1\<close> show ?thesis by (simp add: abind_eq)
  next
    case (Inr x)
    with e m have "f x s1 = (s', r)" by (simp add: abind_eq)
    with assms(3) have "R s1 s'" by (rule keepsD)
    with \<open>R s s1\<close> assms(1) show ?thesis by (blast dest: transpD)
  qed
qed

lemma keeps_pure [inv_intros]:
  "reflp R \<Longrightarrow> keeps R (ret x)" "reflp R \<Longrightarrow> keeps R (throw e)" "reflp R \<Longrightarrow> keeps R (reads f)"
  "reflp R \<Longrightarrow> keeps R (guard b e')"
  by (auto simp: keeps_def guard_def dest: reflpD)

lemma keeps_if [inv_intros]: "keeps R m \<Longrightarrow> keeps R n \<Longrightarrow> keeps R (if b then m else n)"
  by simp

section \<open>Strings as lists of code points\<close>

type_synonym pychar = nat
type_synonym pystr = "nat list"

definition u :: "string \<Rightarrow> pystr" where
  "u s = map of_char s"

lemma u_eq_iff [simp]: "u s = u t \<longleftrightarrow> s = t"
proof
  assume "u s = u t"
  then show "s = t" unfolding u_def by (rule map_injective) (simp add: inj_on_def)
qed simp

lemma u_Nil [simp]: "u [] = []"
  by (simp add: u_def)

lemma u_eq_Nil_iff [simp]: "u s = [] \<longleftrightarrow> s = []" "[] = u s \<longleftrightarrow> s = []"
  by (auto simp: u_def)

lemma length_u [simp]: "length (u s) = length s"
  by (simp add: u_def)

lemma u_Cons: "u (c # s) = of_char c # u s"
  by (simp add: u_def)

lemma u_append: "u (s @ t) = u s @ u t"
  by (simp add: u_def)

text \<open>\<open>str.isspace\<close> on one code point, as \<open>str.strip()\<close> uses it.\<close>

definition is_space :: "pychar \<Rightarrow> bool" where
  "is_space c \<longleftrightarrow> (9 \<le> c \<and> c \<le> 13) \<or> (28 \<le> c \<and> c \<le> 32) \<or> c = 133 \<or> c = 160 \<or> c = 5760 \<or>
     (8192 \<le> c \<and> c \<le> 8202) \<or> c = 8232 \<or> c = 8233 \<or> c = 8239 \<or> c = 8287 \<or> c = 12288"

definition rstrip :: "pystr \<Rightarrow> pystr" where
  "rstrip s = rev (dropWhile is_space (rev s))"

definition strip :: "pystr \<Rightarrow> pystr" where
  "strip s = rstrip (dropWhile is_space s)"

lemma rstrip_Nil [simp]: "rstrip [] = []"
  by (simp add: rstrip_def)

lemma strip_Nil [simp]: "strip [] = []"
  by (simp add: strip_def)

lemma dropWhile_decomp: "\<exists>a. s = a @ dropWhile P s \<and> (\<forall>c \<in> set a. P c)"
  by (rule exI [of _ "takeWhile P s"]) (auto dest: set_takeWhileD)

lemma rstrip_decomp: "\<exists>b. s = rstrip s @ b \<and> (\<forall>c \<in> set b. is_space c)"
proof -
  obtain a where a: "rev s = a @ dropWhile is_space (rev s)" and sp: "\<forall>c \<in> set a. is_space c"
    using dropWhile_decomp [of "rev s" is_space] by blast
  from a have "rev (rev s) = rev (a @ dropWhile is_space (rev s))" by (rule arg_cong)
  then have "s = rstrip s @ rev a" by (simp only: rstrip_def rev_append rev_rev_ident)
  moreover have "\<forall>c \<in> set (rev a). is_space c" using sp by (simp only: set_rev)
  ultimately show ?thesis by blast
qed

lemma strip_sublist: "\<exists>a b. s = a @ strip s @ b \<and> (\<forall>c \<in> set a \<union> set b. is_space c)"
proof -
  obtain a where a: "s = a @ dropWhile is_space s" "\<forall>c \<in> set a. is_space c"
    using dropWhile_decomp [of s is_space] by blast
  obtain b where b: "dropWhile is_space s = rstrip (dropWhile is_space s) @ b" "\<forall>c \<in> set b. is_space c"
    using rstrip_decomp [of "dropWhile is_space s"] by blast
  from a(1) b(1) have "s = a @ strip s @ b" unfolding strip_def by argo
  with a(2) b(2) show ?thesis by (metis Un_iff)
qed

lemma length_strip [simp]: "length (strip s) \<le> length s"
proof -
  obtain a b where "s = a @ strip s @ b" using strip_sublist [of s] by blast
  then have "length s = length (a @ strip s @ b)" by (rule arg_cong)
  then show ?thesis by simp
qed

lemma set_strip: "set (strip s) \<subseteq> set s"
proof -
  obtain a b where "s = a @ strip s @ b" using strip_sublist [of s] by blast
  then show ?thesis by (metis Un_upper1 Un_upper2 order_trans set_append)
qed

lemma strip_eq_self:
  assumes "s = [] \<or> \<not> is_space (hd s) \<and> \<not> is_space (last s)"
  shows "strip s = s"
proof (cases s)
  case Nil
  then show ?thesis by simp
next
  case (Cons c t)
  with assms have h: "\<not> is_space c" and l: "\<not> is_space (last s)" by auto
  from h Cons have "dropWhile is_space s = s" by simp
  moreover have "dropWhile is_space (rev s) = rev s"
    unfolding dropWhile_eq_self_iff hd_rev using l by blast
  ultimately show ?thesis by (simp add: strip_def rstrip_def)
qed

lemma hd_rstrip: "rstrip s \<noteq> [] \<Longrightarrow> hd (rstrip s) = hd s"
proof -
  assume "rstrip s \<noteq> []"
  moreover obtain b where "s = rstrip s @ b" using rstrip_decomp [of s] by blast
  ultimately show ?thesis by (metis hd_append2)
qed

lemma strip_ends:
  assumes "strip s \<noteq> []"
  shows "\<not> is_space (hd (strip s))" and "\<not> is_space (last (strip s))"
proof -
  let ?d = "dropWhile is_space s"
  from assms have d: "?d \<noteq> []" by (metis rstrip_Nil strip_def)
  from d have "\<not> is_space (hd ?d)" by (rule hd_dropWhile)
  with assms show "\<not> is_space (hd (strip s))" unfolding strip_def by (simp add: hd_rstrip)
  have "last (strip s) = hd (dropWhile is_space (rev ?d))"
    unfolding strip_def rstrip_def by (simp only: last_rev)
  moreover have "dropWhile is_space (rev ?d) \<noteq> []"
    using assms unfolding strip_def rstrip_def by (metis rev.simps(1))
  ultimately show "\<not> is_space (last (strip s))" by (metis hd_dropWhile)
qed

lemma strip_idem [simp]: "strip (strip s) = strip s"
  by (rule strip_eq_self) (metis strip_ends)

subsection \<open>Prefixes, substrings, replacement\<close>

fun starts_with :: "'a list \<Rightarrow> 'a list \<Rightarrow> bool" where
  "starts_with s [] = True"
| "starts_with [] (p # ps) = False"
| "starts_with (c # s) (p # ps) = (c = p \<and> starts_with s ps)"

definition ends_with :: "'a list \<Rightarrow> 'a list \<Rightarrow> bool" where
  "ends_with s p = starts_with (rev s) (rev p)"

lemma starts_with_iff: "starts_with s p \<longleftrightarrow> (\<exists>t. s = p @ t)"
  by (induction s p rule: starts_with.induct) auto

lemma starts_with_append [simp]: "starts_with (p @ t) p"
  by (auto simp: starts_with_iff)

lemma starts_with_drop: "starts_with s p \<Longrightarrow> s = p @ drop (length p) s"
  by (auto simp: starts_with_iff)

lemma ends_with_iff: "ends_with s p \<longleftrightarrow> (\<exists>t. s = t @ p)"
  unfolding ends_with_def starts_with_iff by (metis rev_append rev_rev_ident)

text \<open>\<open>needle in s\<close>.\<close>

fun contains :: "'a list \<Rightarrow> 'a list \<Rightarrow> bool" where
  "contains [] p = (p = [])"
| "contains (c # s) p = (starts_with (c # s) p \<or> contains s p)"

lemma contains_iff: "contains s p \<longleftrightarrow> (\<exists>a b. s = a @ p @ b)"
proof (induction s)
  case Nil
  then show ?case by auto
next
  case (Cons c s)
  show ?case
  proof
    assume "contains (c # s) p"
    then show "\<exists>a b. c # s = a @ p @ b"
    proof (cases "starts_with (c # s) p")
      case True
      then show ?thesis by (metis append_Nil starts_with_iff)
    next
      case False
      with \<open>contains (c # s) p\<close> Cons.IH show ?thesis by (metis append_Cons contains.simps(2))
    qed
  next
    assume "\<exists>a b. c # s = a @ p @ b"
    then obtain a b where ab: "c # s = a @ p @ b" by blast
    show "contains (c # s) p"
    proof (cases a)
      case Nil
      with ab have "starts_with (c # s) p" by (auto simp: starts_with_iff)
      then show ?thesis by simp
    next
      case (Cons x xs)
      with ab have "s = xs @ p @ b" by simp
      with Cons.IH show ?thesis by auto
    qed
  qed
qed

text \<open>\<open>s.count(p)\<close>: non-overlapping occurrences; the empty needle occurs \<open>len(s) + 1\<close> times.\<close>

function count_from :: "'a list \<Rightarrow> 'a list \<Rightarrow> nat" where
  "count_from s p =
     (if s = [] \<or> p = [] then 0
      else if starts_with s p then Suc (count_from (drop (length p) s) p)
      else count_from (tl s) p)"
  by pat_completeness auto
termination
  by (relation "measure (length o fst)") (auto simp: length_greater_0_conv [symmetric] simp del: length_greater_0_conv)

declare count_from.simps [simp del]

definition str_count :: "'a list \<Rightarrow> 'a list \<Rightarrow> nat" where
  "str_count s p = (if p = [] then Suc (length s) else count_from s p)"

text \<open>\<open>s.replace(p, r, 1)\<close>.\<close>

fun replace_first :: "'a list \<Rightarrow> 'a list \<Rightarrow> 'a list \<Rightarrow> 'a list" where
  "replace_first [] p r = (if p = [] then r else [])"
| "replace_first (c # s) p r =
     (if starts_with (c # s) p then r @ drop (length p) (c # s) else c # replace_first s p r)"

text \<open>\<open>s.replace(p, r)\<close> for a nonempty \<open>p\<close>.\<close>

function replace_all :: "'a list \<Rightarrow> 'a list \<Rightarrow> 'a list \<Rightarrow> 'a list" where
  "replace_all s p r =
     (if s = [] \<or> p = [] then s
      else if starts_with s p then r @ replace_all (drop (length p) s) p r
      else hd s # replace_all (tl s) p r)"
  by pat_completeness auto
termination
  by (relation "measure (length o fst)") (auto simp: length_greater_0_conv [symmetric] simp del: length_greater_0_conv)

declare replace_all.simps [simp del]

lemma count_from_zero: "p \<noteq> [] \<Longrightarrow> count_from s p = 0 \<longleftrightarrow> \<not> contains s p"
proof (induction s p rule: count_from.induct)
  case (1 s p)
  show ?case
  proof (cases s)
    case Nil
    with 1 show ?thesis by (simp add: count_from.simps)
  next
    case (Cons c t)
    with 1 show ?thesis by (auto simp: count_from.simps [of "c # t"])
  qed
qed

lemma replace_first_at:
  assumes "\<And>a' b'. s = a' @ p @ b' \<Longrightarrow> length a \<le> length a'" and "s = a @ p @ b"
  shows "replace_first s p r = a @ r @ b"
  using assms
proof (induction a arbitrary: s)
  case Nil
  then have s: "s = p @ b" and st: "starts_with s p" by simp_all
  show ?case
  proof (cases s)
    case Nil
    with s show ?thesis by simp
  next
    case (Cons c t)
    with st have "replace_first s p r = r @ drop (length p) s" by simp
    with s show ?thesis by simp
  qed
next
  case (Cons x a)
  from Cons.prems(2) have s: "s = x # (a @ p @ b)" by simp
  have "\<not> starts_with s p"
    using Cons.prems(1) by (metis append_Nil length_Cons less_nat_zero_code linorder_not_less list.size(3) starts_with_iff zero_less_Suc)
  moreover have "replace_first (a @ p @ b) p r = a @ r @ b"
  proof (rule Cons.IH [OF _ refl])
    fix a' b' assume "a @ p @ b = a' @ p @ b'"
    then have "s = (x # a') @ p @ b'" using s by simp
    then show "length a \<le> length a'" using Cons.prems(1) by fastforce
  qed
  ultimately show ?case using s by simp
qed

end
