(* ===== verification/PyText.thy ===== *)
theory PyText
  imports Prelude "HOL-Library.List_Lexorder"
begin

text \<open>
  Splitting and joining, letter case, decimal numerals, and insertion-ordered dictionaries:
  the part of Python's \<open>str\<close> and \<open>dict\<close> that several components use.
\<close>

section \<open>Splitting and joining\<close>

text \<open>\<open>s.split(c)\<close> for a one-character separator, and \<open>sep.join(ws)\<close>.\<close>

fun split_on :: "pychar \<Rightarrow> pystr \<Rightarrow> pystr list" where
  "split_on c [] = [[]]"
| "split_on c (x # xs) =
     (if x = c then [] # split_on c xs
      else (case split_on c xs of [] \<Rightarrow> [[x]] | w # ws \<Rightarrow> (x # w) # ws))"

fun join :: "pystr \<Rightarrow> pystr list \<Rightarrow> pystr" where
  "join sep [] = []"
| "join sep [w] = w"
| "join sep (w # ws) = w @ sep @ join sep ws"

lemma split_on_not_Nil [simp]: "split_on c s \<noteq> []"
  by (induction s) (auto split: list.splits)

lemma join_Cons: "ws \<noteq> [] \<Longrightarrow> join sep (w # ws) = w @ sep @ join sep ws"
  by (cases ws) simp_all

lemma join_split_on: "join [c] (split_on c s) = s"
proof (induction s)
  case Nil
  then show ?case by simp
next
  case (Cons x xs)
  obtain w ws where e: "split_on c xs = w # ws"
    by (metis list.exhaust split_on_not_Nil)
  with Cons.IH show ?case by (cases ws) (auto simp: join_Cons)
qed

lemma split_on_clean: "w \<in> set (split_on c s) \<Longrightarrow> c \<notin> set w"
  by (induction s arbitrary: w) (fastforce split: if_splits list.splits)+

lemma split_on_subset: "w \<in> set (split_on c s) \<Longrightarrow> set w \<subseteq> set s"
proof (induction s arbitrary: w)
  case Nil
  then show ?case by simp
next
  case (Cons x xs)
  obtain v vs where "split_on c xs = v # vs"
    by (metis list.exhaust split_on_not_Nil)
  with Cons show ?case by (fastforce split: if_splits)
qed

lemma split_on_append:
  "c \<notin> set w \<Longrightarrow> split_on c (w @ c # s) = w # split_on c s"
  by (induction w) auto

lemma split_on_word: "c \<notin> set w \<Longrightarrow> split_on c w = [w]"
  by (induction w) auto

lemma split_on_join:
  "ws \<noteq> [] \<Longrightarrow> (\<forall>w \<in> set ws. c \<notin> set w) \<Longrightarrow> split_on c (join [c] ws) = ws"
  by (induction "[c]" ws rule: join.induct) (auto simp: split_on_append split_on_word)

text \<open>\<open>s.split(p, 1)[0]\<close>: the part before the first occurrence of \<open>p\<close>.\<close>

fun before_first :: "pystr \<Rightarrow> pystr \<Rightarrow> pystr" where
  "before_first [] p = []"
| "before_first (c # s) p = (if starts_with (c # s) p then [] else c # before_first s p)"

section \<open>Letter case\<close>

text \<open>
  \<open>lower()\<close> as far as a comparison with an ASCII constant can tell: besides the ASCII capitals
  only the Kelvin sign (U+212A) has an ASCII lower-case form.  \<open>upper()\<close> is used on strings
  already known to be ASCII.
\<close>

definition lower_char :: "pychar \<Rightarrow> pychar" where
  "lower_char c = (if 65 \<le> c \<and> c \<le> 90 then c + 32 else if c = 8490 then 107 else c)"

definition upper_char :: "pychar \<Rightarrow> pychar" where
  "upper_char c = (if 97 \<le> c \<and> c \<le> 122 then c - 32 else c)"

definition lower :: "pystr \<Rightarrow> pystr" where
  "lower = map lower_char"

definition upper :: "pystr \<Rightarrow> pystr" where
  "upper = map upper_char"

lemma lower_char_idem [simp]: "lower_char (lower_char c) = lower_char c"
  by (simp add: lower_char_def)

lemma lower_idem [simp]: "lower (lower s) = lower s"
  by (simp add: lower_def)

section \<open>Character classes of the source's regular expressions\<close>

definition is_digit :: "pychar \<Rightarrow> bool" where
  "is_digit c \<longleftrightarrow> 48 \<le> c \<and> c \<le> 57"

definition is_lower_letter :: "pychar \<Rightarrow> bool" where
  "is_lower_letter c \<longleftrightarrow> 97 \<le> c \<and> c \<le> 122"

definition is_upper_letter :: "pychar \<Rightarrow> bool" where
  "is_upper_letter c \<longleftrightarrow> 65 \<le> c \<and> c \<le> 90"

definition is_alnum :: "pychar \<Rightarrow> bool" where
  "is_alnum c \<longleftrightarrow> is_digit c \<or> is_lower_letter c \<or> is_upper_letter c"

text \<open>\<open>[0-9a-f]\<close>\<close>

definition is_hex :: "pychar \<Rightarrow> bool" where
  "is_hex c \<longleftrightarrow> is_digit c \<or> (97 \<le> c \<and> c \<le> 102)"

text \<open>\<open>[0-9a-f]{n}\<close> as a full match.\<close>

definition hex_exactly :: "nat \<Rightarrow> pystr \<Rightarrow> bool" where
  "hex_exactly n s \<longleftrightarrow> length s = n \<and> list_all is_hex s"

section \<open>Decimal numerals\<close>

fun show_nat :: "nat \<Rightarrow> pystr" where
  "show_nat n = (if n < 10 then [48 + n] else show_nat (n div 10) @ [48 + n mod 10])"

declare show_nat.simps [simp del]

definition show_int :: "int \<Rightarrow> pystr" where
  "show_int i = (if i < 0 then 45 # show_nat (nat (- i)) else show_nat (nat i))"

definition digits_value :: "pystr \<Rightarrow> nat" where
  "digits_value ds = foldl (\<lambda>n d. 10 * n + (d - 48)) 0 ds"

lemma is_digit_add [simp]: "d < 10 \<Longrightarrow> is_digit (48 + d)"
  by (simp add: is_digit_def)

lemma show_nat_digits: "list_all is_digit (show_nat n)"
proof (induction n rule: show_nat.induct)
  case (1 n)
  then show ?case by (subst show_nat.simps) simp
qed

lemma show_nat_not_Nil [simp]: "show_nat n \<noteq> []"
  by (subst show_nat.simps) simp

lemma digits_value_show_nat [simp]: "digits_value (show_nat n) = n"
proof (induction n rule: show_nat.induct)
  case (1 n)
  then show ?case by (subst show_nat.simps) (auto simp: digits_value_def)
qed

lemma show_nat_head: "hd (show_nat n) = 48 \<longleftrightarrow> n = 0"
proof (induction n rule: show_nat.induct)
  case (1 n)
  show ?case
  proof (cases "n < 10")
    case True
    then show ?thesis by (subst show_nat.simps) simp
  next
    case False
    with 1 show ?thesis by (subst show_nat.simps) simp
  qed
qed

lemma show_nat_inject [simp]: "show_nat m = show_nat n \<longleftrightarrow> m = n"
  by (metis digits_value_show_nat)

section \<open>Dictionaries in insertion order\<close>

type_synonym ('k, 'v) dict = "('k \<times> 'v) list"

text \<open>\<open>d[k] = v\<close>: an existing key keeps its position.\<close>

fun dput :: "'k \<Rightarrow> 'v \<Rightarrow> ('k, 'v) dict \<Rightarrow> ('k, 'v) dict" where
  "dput k v [] = [(k, v)]"
| "dput k v (p # ps) = (if fst p = k then (k, v) # ps else p # dput k v ps)"

definition dict_keys :: "('k, 'v) dict \<Rightarrow> 'k list" where
  "dict_keys d = map fst d"

definition dict_ok :: "('k, 'v) dict \<Rightarrow> bool" where
  "dict_ok d \<longleftrightarrow> distinct (map fst d)"

definition dict_of_pairs :: "('k \<times> 'v) list \<Rightarrow> ('k, 'v) dict" where
  "dict_of_pairs ps = fold (\<lambda>(k, v). dput k v) ps []"

lemma map_of_dput [simp]: "map_of (dput k v d) = (map_of d)(k \<mapsto> v)"
  by (induction d) auto

lemma set_keys_dput [simp]: "fst ` set (dput k v d) = insert k (fst ` set d)"
  by (induction d) auto

lemma keys_dput_fresh: "k \<notin> fst ` set d \<Longrightarrow> dput k v d = d @ [(k, v)]"
  by (induction d) auto

lemma keys_dput_present: "k \<in> fst ` set d \<Longrightarrow> map fst (dput k v d) = map fst d"
  by (induction d) auto

lemma dict_ok_Nil [simp, intro]: "dict_ok []"
  by (simp add: dict_ok_def)

lemma dict_ok_dput [simp, intro]: "dict_ok d \<Longrightarrow> dict_ok (dput k v d)"
proof (cases "k \<in> fst ` set d")
  case True
  then show "dict_ok d \<Longrightarrow> ?thesis" by (simp add: dict_ok_def keys_dput_present)
next
  case False
  then show "dict_ok d \<Longrightarrow> ?thesis" by (simp add: dict_ok_def keys_dput_fresh)
qed

lemma fold_dput_distinct:
  "distinct (map fst (d @ ps)) \<Longrightarrow> fold (\<lambda>(k, v). dput k v) ps d = d @ ps"
proof (induction ps arbitrary: d)
  case Nil
  then show ?case by simp
next
  case (Cons p ps)
  obtain k v where p: "p = (k, v)" by (cases p)
  with Cons.prems have "dput k v d = d @ [(k, v)]" by (auto intro!: keys_dput_fresh)
  with Cons p show ?case by simp
qed

lemma dict_of_pairs_id: "dict_ok d \<Longrightarrow> dict_of_pairs d = d"
  using fold_dput_distinct [of "[]" d] by (simp add: dict_of_pairs_def dict_ok_def)

lemma dict_ok_of_pairs [simp, intro]: "dict_ok (dict_of_pairs ps)"
proof -
  have "dict_ok d \<Longrightarrow> dict_ok (fold (\<lambda>(k, v). dput k v) ps d)" for d :: "('a, 'b) dict"
    by (induction ps arbitrary: d) auto
  then show ?thesis by (simp add: dict_of_pairs_def)
qed

lemma map_of_dict_of_pairs: "map_of (dict_of_pairs ps) = map_of (rev ps)"
proof -
  have "map_of (fold (\<lambda>(k, v). dput k v) ps d) = map_of d ++ map_of (rev ps)" for d :: "('a, 'b) dict"
  proof (induction ps arbitrary: d)
    case Nil
    then show ?case by simp
  next
    case (Cons p ps)
    then show ?case by (cases p) (auto simp: map_add_def fun_eq_iff split: option.splits)
  qed
  then show ?thesis by (simp add: dict_of_pairs_def)
qed

end
