(* ===== verification/Json.thy ===== *)
theory Json
  imports PyText
begin

text \<open>
  JSON values as the \<open>json\<close> module reads and writes them: a scanner and a recursive-descent
  parser (\<open>json.loads\<close>), a printer (\<open>json.dumps\<close>, compact separators, with and without
  \<open>ensure_ascii\<close>), and the round trip.  A float is kept as its numeral: no operation of the
  source computes with a float read from JSON.  Objects keep the order of insertion.
  Not modelled: the recursion limit and the limit on the digits of an integer.
\<close>

datatype json =
    JNull
  | JBool bool
  | JInt int
  | JFloat pystr
  | JStr pystr
  | JArr "json list"
  | JObj "(pystr \<times> json) list"

section \<open>Type tests of the source\<close>

fun is_JObj :: "json \<Rightarrow> bool" where
  "is_JObj (JObj _) = True"
| "is_JObj _ = False"

fun is_JStr :: "json \<Rightarrow> bool" where
  "is_JStr (JStr _) = True"
| "is_JStr _ = False"

text \<open>\<open>d.get(k)\<close> as a partial lookup.\<close>

definition jget :: "(pystr \<times> json) list \<Rightarrow> pystr \<Rightarrow> json option" where
  "jget d k = map_of d k"

section \<open>Printing\<close>

definition hex_digit :: "nat \<Rightarrow> pychar" where
  "hex_digit d = (if d < 10 then 48 + d else 87 + d)"

definition hex4 :: "nat \<Rightarrow> pystr" where
  "hex4 c = [hex_digit (c div 4096 mod 16), hex_digit (c div 256 mod 16), hex_digit (c div 16 mod 16), hex_digit (c mod 16)]"

text \<open>
  \<open>repr(s)\<close> of a string, as \<open>f"{s!r}"\<close> prints it.  Which code points beyond ASCII count as
  printable is the Unicode database's; it is the parameter \<open>uni\<close>.
\<close>

definition repr_quote :: "pystr \<Rightarrow> pychar" where
  "repr_quote s = (if 39 \<in> set s \<and> 34 \<notin> set s then 34 else 39)"

definition repr_char :: "(pychar \<Rightarrow> bool) \<Rightarrow> pychar \<Rightarrow> pychar \<Rightarrow> pystr" where
  "repr_char uni q c =
     (if c = q \<or> c = 92 then [92, c]
      else if c = 9 then [92, 116] else if c = 10 then [92, 110] else if c = 13 then [92, 114]
      else if (32 \<le> c \<and> c < 127) \<or> (127 < c \<and> uni c) then [c]
      else if c < 256 then [92, 120, hex_digit (c div 16), hex_digit (c mod 16)]
      else if c < 65536 then [92, 117] @ hex4 c
      else [92, 85] @ hex4 (c div 65536) @ hex4 (c mod 65536))"

definition py_repr :: "(pychar \<Rightarrow> bool) \<Rightarrow> pystr \<Rightarrow> pystr" where
  "py_repr uni s = (let q = repr_quote s in [q] @ concat (map (repr_char uni q) s) @ [q])"

definition escape_char :: "bool \<Rightarrow> pychar \<Rightarrow> pystr" where
  "escape_char ascii c =
     (if c = 34 then [92, 34] else if c = 92 then [92, 92]
      else if c = 10 then [92, 110] else if c = 13 then [92, 114] else if c = 9 then [92, 116]
      else if c = 12 then [92, 102] else if c = 8 then [92, 98]
      else if c < 32 \<or> (ascii \<and> 126 < c) then
        (if c < 65536 then [92, 117] @ hex4 c
         else [92, 117] @ hex4 (55296 + (c - 65536) div 1024) @ [92, 117] @ hex4 (56320 + (c - 65536) mod 1024))
      else [c])"

definition print_str :: "bool \<Rightarrow> pystr \<Rightarrow> pystr" where
  "print_str ascii s = 34 # concat (map (escape_char ascii) s) @ [34]"

fun dumps :: "bool \<Rightarrow> json \<Rightarrow> pystr"
  and dumps_list :: "bool \<Rightarrow> json list \<Rightarrow> pystr"
  and dumps_members :: "bool \<Rightarrow> (pystr \<times> json) list \<Rightarrow> pystr" where
  "dumps a JNull = u ''null''"
| "dumps a (JBool b) = (if b then u ''true'' else u ''false'')"
| "dumps a (JInt i) = show_int i"
| "dumps a (JFloat f) = f"
| "dumps a (JStr s) = print_str a s"
| "dumps a (JArr js) = 91 # dumps_list a js @ [93]"
| "dumps a (JObj ms) = 123 # dumps_members a ms @ [125]"
| "dumps_list a [] = []"
| "dumps_list a [j] = dumps a j"
| "dumps_list a (j # js) = dumps a j @ 44 # dumps_list a js"
| "dumps_members a [] = []"
| "dumps_members a [(k, j)] = print_str a k @ 58 # dumps a j"
| "dumps_members a ((k, j) # ms) = print_str a k @ 58 # dumps a j @ 44 # dumps_members a ms"

text \<open>\<open>sort_keys=True\<close>: every object's members in the order of their keys.\<close>

fun sort_keys :: "json \<Rightarrow> json" where
  "sort_keys (JArr js) = JArr (map sort_keys js)"
| "sort_keys (JObj ms) = JObj (sort_key fst (map (\<lambda>(k, j). (k, sort_keys j)) ms))"
| "sort_keys j = j"

text \<open>\<open>allow_nan=False\<close> raises \<open>ValueError\<close> on a value that is not \<open>all_finite\<close>.\<close>

fun all_finite :: "json \<Rightarrow> bool" where
  "all_finite (JArr js) = list_all all_finite js"
| "all_finite (JObj ms) = list_all (\<lambda>(k, j). all_finite j) ms"
| "all_finite (JFloat f) = (f \<notin> {u ''NaN'', u ''Infinity'', u ''-Infinity''})"
| "all_finite j = True"

section \<open>Scanning\<close>

definition is_ws :: "pychar \<Rightarrow> bool" where
  "is_ws c \<longleftrightarrow> c = 32 \<or> c = 9 \<or> c = 10 \<or> c = 13"

definition skip_ws :: "pystr \<Rightarrow> pystr" where
  "skip_ws s = dropWhile is_ws s"

definition hex_value :: "pychar \<Rightarrow> nat option" where
  "hex_value c = (if 48 \<le> c \<and> c \<le> 57 then Some (c - 48) else if 97 \<le> c \<and> c \<le> 102 then Some (c - 87)
     else if 65 \<le> c \<and> c \<le> 70 then Some (c - 55) else None)"

fun scan_hex4 :: "pystr \<Rightarrow> (nat \<times> pystr) option" where
  "scan_hex4 (a # b # c # d # r) =
     (case (hex_value a, hex_value b, hex_value c, hex_value d) of
        (Some w, Some x, Some y, Some z) \<Rightarrow> Some (w * 4096 + x * 256 + y * 16 + z, r)
      | _ \<Rightarrow> None)"
| "scan_hex4 _ = None"

text \<open>After \<open>\u\<close>: a high surrogate followed by an escaped low one is one code point.\<close>

definition scan_unicode :: "pystr \<Rightarrow> (pychar \<times> pystr) option" where
  "scan_unicode s = (case scan_hex4 s of None \<Rightarrow> None
     | Some (c, r) \<Rightarrow>
         (if 55296 \<le> c \<and> c \<le> 56319 then
            (case r of b # v # r' \<Rightarrow>
               (if b = 92 \<and> v = 117 then
                  (case scan_hex4 r' of
                     Some (d, r'') \<Rightarrow>
                       (if 56320 \<le> d \<and> d \<le> 57343
                        then Some (65536 + (c - 55296) * 1024 + (d - 56320), r'') else Some (c, r))
                   | None \<Rightarrow> None)
                else Some (c, r))
             | _ \<Rightarrow> Some (c, r))
          else Some (c, r)))"

fun scan_escape :: "pystr \<Rightarrow> (pychar \<times> pystr) option" where
  "scan_escape [] = None"
| "scan_escape (c # r) =
     (if c = 34 then Some (34, r) else if c = 92 then Some (92, r) else if c = 47 then Some (47, r)
      else if c = 98 then Some (8, r) else if c = 102 then Some (12, r) else if c = 110 then Some (10, r)
      else if c = 114 then Some (13, r) else if c = 116 then Some (9, r)
      else if c = 117 then scan_unicode r else None)"

lemma scan_hex4_length: "scan_hex4 s = Some (c, r) \<Longrightarrow> length r < length s"
  by (induction s rule: scan_hex4.induct) (auto split: option.splits)

lemma scan_unicode_length: "scan_unicode s = Some (c, r) \<Longrightarrow> length r < length s"
  by (fastforce simp: scan_unicode_def split: option.splits if_splits list.splits dest: scan_hex4_length)

lemma scan_escape_length: "scan_escape s = Some (c, r) \<Longrightarrow> length r < length s"
  by (cases s) (auto split: if_splits dest: scan_unicode_length)

function scan_str :: "pystr \<Rightarrow> (pystr \<times> pystr) option" where
  "scan_str [] = None"
| "scan_str (c # s) =
     (if c = 34 then Some ([], s)
      else if c = 92 then
        (case scan_escape s of None \<Rightarrow> None
         | Some (d, r) \<Rightarrow> map_option (\<lambda>(t, r'). (d # t, r')) (scan_str r))
      else if c < 32 then None
      else map_option (\<lambda>(t, r'). (c # t, r')) (scan_str s))"
  by pat_completeness auto
termination
  by (relation "measure length") (auto dest: scan_escape_length)

lemma scan_str_length: "scan_str s = Some (t, r) \<Longrightarrow> length r < length s"
  by (induction s arbitrary: t rule: scan_str.induct)
    (fastforce split: if_splits option.splits dest: scan_escape_length)+

text \<open>A numeral: integer part without leading zero, then optional fraction and exponent.\<close>

definition digits_of :: "pystr \<Rightarrow> pystr" where
  "digits_of s = takeWhile is_digit s"

definition scan_frac :: "pystr \<Rightarrow> pystr" where
  "scan_frac s = (case s of c # r \<Rightarrow> (if c = 46 \<and> digits_of r \<noteq> [] then c # digits_of r else []) | _ \<Rightarrow> [])"

definition scan_exp :: "pystr \<Rightarrow> pystr" where
  "scan_exp s = (case s of
     c # r \<Rightarrow>
       (if c = 101 \<or> c = 69 then
          (case r of
             d # r' \<Rightarrow> (if d = 43 \<or> d = 45 then (if digits_of r' \<noteq> [] then c # d # digits_of r' else [])
                        else if digits_of r \<noteq> [] then c # digits_of r else [])
           | _ \<Rightarrow> [])
        else [])
   | _ \<Rightarrow> [])"

definition scan_int :: "pystr \<Rightarrow> pystr option" where
  "scan_int s = (let (sg, r) = (case s of c # r \<Rightarrow> (if c = 45 then ([45], r) else ([], s)) | _ \<Rightarrow> ([], s))
     in case r of [] \<Rightarrow> None
        | c # r' \<Rightarrow> (if c = 48 then Some (sg @ [48]) else if is_digit c then Some (sg @ digits_of r) else None))"

definition int_value :: "pystr \<Rightarrow> int" where
  "int_value s = (case s of c # r \<Rightarrow> (if c = 45 then - int (digits_value r) else int (digits_value s)) | _ \<Rightarrow> 0)"

definition scan_number :: "pystr \<Rightarrow> (json \<times> pystr) option" where
  "scan_number s = (case scan_int s of None \<Rightarrow> None
     | Some n \<Rightarrow>
         (let r = drop (length n) s; f = scan_frac r; r2 = drop (length f) r; e = scan_exp r2
          in if f = [] \<and> e = [] then Some (JInt (int_value n), r)
             else Some (JFloat (n @ f @ e), drop (length e) r2)))"

definition scan_word :: "(pystr \<times> json) list \<Rightarrow> pystr \<Rightarrow> (json \<times> pystr) option" where
  "scan_word ws s = (case List.find (\<lambda>(w, j). starts_with s w) ws of
     None \<Rightarrow> None | Some (w, j) \<Rightarrow> Some (j, drop (length w) s))"

definition json_words :: "(pystr \<times> json) list" where
  "json_words = [(u ''null'', JNull), (u ''true'', JBool True), (u ''false'', JBool False),
     (u ''NaN'', JFloat (u ''NaN'')), (u ''Infinity'', JFloat (u ''Infinity'')),
     (u ''-Infinity'', JFloat (u ''-Infinity''))]"

definition scan_atom :: "pystr \<Rightarrow> (json \<times> pystr) option" where
  "scan_atom s = (case scan_number s of Some x \<Rightarrow> Some x | None \<Rightarrow> scan_word json_words s)"

section \<open>Parsing\<close>

lemma skip_ws_length: "length (skip_ws s) \<le> length s"
  by (simp add: skip_ws_def length_dropWhile_le)

lemma skip_ws_Cons_length: "skip_ws s = c # r \<Longrightarrow> length r < length s"
  using skip_ws_length [of s] by simp

definition pdepth :: "pystr + pystr + pystr \<Rightarrow> nat" where
  "pdepth x = (case x of Inl s \<Rightarrow> 2 * length s | Inr (Inl s) \<Rightarrow> Suc (2 * length s) | Inr (Inr s) \<Rightarrow> 2 * length s)"

lemma skip_ws_less: "length s < n \<Longrightarrow> length (skip_ws s) < n"
  using skip_ws_length [of s] by linarith

lemma skip_ws_twice: "length s \<le> n \<Longrightarrow> 2 * length (skip_ws s) < Suc (Suc (2 * n))"
  using skip_ws_length [of s] by linarith

text \<open>
  \<open>pval\<close> reads one value, \<open>pelems\<close> the elements of an array up to its bracket, \<open>pmembers\<close>
  the members of an object up to its brace.  The length tests only serve termination:
  \<open>pval_length\<close> below shows that they always succeed.
\<close>

function (sequential) pval :: "pystr \<Rightarrow> (json \<times> pystr) option"
  and pelems :: "pystr \<Rightarrow> (json list \<times> pystr) option"
  and pmembers :: "pystr \<Rightarrow> ((pystr \<times> json) list \<times> pystr) option" where
  "pval [] = None"
| "pval (c # s) =
     (if c = 34 then map_option (\<lambda>(t, r). (JStr t, r)) (scan_str s)
      else if c = 123 then
        (case skip_ws s of [] \<Rightarrow> None
         | d # r \<Rightarrow> (if d = 125 then Some (JObj [], r)
                    else map_option (\<lambda>(ms, r'). (JObj ms, r')) (pmembers (d # r))))
      else if c = 91 then
        (case skip_ws s of [] \<Rightarrow> None
         | d # r \<Rightarrow> (if d = 93 then Some (JArr [], r)
                    else map_option (\<lambda>(js, r'). (JArr js, r')) (pelems (d # r))))
      else scan_atom (c # s))"
| "pelems s =
     (case pval s of None \<Rightarrow> None
      | Some (j, r) \<Rightarrow>
          (if length r < length s then
             (case skip_ws r of [] \<Rightarrow> None
              | d # r' \<Rightarrow>
                  (if d = 93 then Some ([j], r')
                   else if d = 44 then map_option (\<lambda>(js, q). (j # js, q)) (pelems (skip_ws r'))
                   else None))
           else None))"
| "pmembers [] = None"
| "pmembers (c # s) =
     (if c \<noteq> 34 then None
      else (case scan_str s of None \<Rightarrow> None
        | Some (k, r) \<Rightarrow>
            (case skip_ws r of [] \<Rightarrow> None
             | d # r' \<Rightarrow>
                 (if d \<noteq> 58 then None
                  else (case pval (skip_ws r') of None \<Rightarrow> None
                    | Some (j, q) \<Rightarrow>
                        (if length q < length r' then
                           (case skip_ws q of [] \<Rightarrow> None
                            | e # q' \<Rightarrow>
                                (if e = 125 then Some ([(k, j)], q')
                                 else if e = 44 then
                                   map_option (\<lambda>(ms, z). ((k, j) # ms, z)) (pmembers (skip_ws q'))
                                 else None))
                         else None))))))"
  by pat_completeness auto

termination
  by (relation "measure pdepth")
    (auto simp: pdepth_def intro!: skip_ws_less skip_ws_twice
      dest!: skip_ws_Cons_length scan_str_length)

declare pelems.simps [simp del] pmembers.simps [simp del]

text \<open>\<open>json.loads(s)\<close>: a repeated key of an object keeps its last value.\<close>

definition json_parse :: "pystr \<Rightarrow> json option" where
  "json_parse s = (case pval (skip_ws s) of None \<Rightarrow> None
     | Some (j, r) \<Rightarrow> (if skip_ws r = [] then Some j else None))"

fun py_dicts :: "json \<Rightarrow> json" where
  "py_dicts (JArr js) = JArr (map py_dicts js)"
| "py_dicts (JObj ms) = JObj (dict_of_pairs (map (\<lambda>(k, j). (k, py_dicts j)) ms))"
| "py_dicts j = j"

definition json_loads :: "pystr \<Rightarrow> json option" where
  "json_loads s = map_option py_dicts (json_parse s)"

text \<open>
  The stricter reading with an \<open>object_pairs_hook\<close> that raises on a repeated key and a
  \<open>parse_constant\<close> that raises on \<open>NaN\<close> and the infinities.
\<close>

fun strict_json :: "json \<Rightarrow> bool" where
  "strict_json (JArr js) = list_all strict_json js"
| "strict_json (JObj ms) = (distinct (map fst ms) \<and> list_all (\<lambda>(k, j). strict_json j) ms)"
| "strict_json (JFloat f) = (f \<notin> {u ''NaN'', u ''Infinity'', u ''-Infinity''})"
| "strict_json j = True"

definition json_loads_strict :: "pystr \<Rightarrow> json option" where
  "json_loads_strict s = (case json_parse s of None \<Rightarrow> None
     | Some j \<Rightarrow> (if strict_json j then Some j else None))"

section \<open>Every value consumes input\<close>

lemma scan_int_length: "scan_int s = Some n \<Longrightarrow> 0 < length n \<and> length n \<le> length s"
  by (auto simp: scan_int_def digits_of_def length_takeWhile_le Let_def split: list.splits if_splits)

lemma length_diff_less:
  "n \<noteq> [] \<Longrightarrow> length n \<le> length s \<Longrightarrow> length s - length n < length s"
  "n \<noteq> [] \<Longrightarrow> length n \<le> length s \<Longrightarrow> length s - (k + (l + length n)) < length s"
  by (cases n; auto)+

lemma scan_number_length: "scan_number s = Some (j, r) \<Longrightarrow> length r < length s"
  by (auto simp: scan_number_def Let_def intro!: length_diff_less
      split: option.splits if_splits dest!: scan_int_length)

lemma scan_word_length:
  assumes "scan_word ws s = Some (j, r)" and "\<forall>(w, x) \<in> set ws. w \<noteq> []"
  shows "length r < length s"
proof -
  from assms(1) obtain w x where f: "List.find (\<lambda>(w, j). starts_with s w) ws = Some (w, x)"
    and r: "r = drop (length w) s" by (auto simp: scan_word_def split: option.splits)
  from f have "starts_with s w" and "(w, x) \<in> set ws" by (auto simp: find_Some_iff set_conv_nth)
  with assms(2) have "s = w @ r" and "w \<noteq> []" using r by (auto simp: starts_with_iff)
  then show ?thesis by simp
qed

lemma scan_atom_length: "scan_atom s = Some (j, r) \<Longrightarrow> length r < length s"
  using scan_word_length [of json_words s j r]
  by (auto simp: scan_atom_def json_words_def split: option.splits dest: scan_number_length)

lemma pmembers_SomeE:
  assumes "pmembers s = Some (ms, z)"
  obtains t k r r' j q e q' where "s = 34 # t" "scan_str t = Some (k, r)" "skip_ws r = 58 # r'"
    "pval (skip_ws r') = Some (j, q)" "length q < length r'" "skip_ws q = e # q'"
    "e = 125 \<and> ms = [(k, j)] \<and> z = q' \<or>
     e = 44 \<and> (\<exists>ms'. pmembers (skip_ws q') = Some (ms', z) \<and> ms = (k, j) # ms')"
proof (cases s)
  case Nil
  with assms show ?thesis by (simp add: pmembers.simps)
next
  case (Cons c t)
  with assms show ?thesis
    by (auto simp: pmembers.simps(2) split: if_splits option.splits list.splits)
      (rule that, assumption+, simp)+
qed

lemma pval_length_all:
  "(\<forall>j r. pval s = Some (j, r) \<longrightarrow> length r < length s) \<and>
   (\<forall>js r. pelems s = Some (js, r) \<longrightarrow> length r < length s) \<and>
   (\<forall>ms r. pmembers s = Some (ms, r) \<longrightarrow> length r < length s)"
proof (induction s rule: measure_induct_rule [of length])
  case (less s)
  have IHe: "length r < length t" if "length t < length s" "pelems t = Some (js, r)" for t js r
    using less that by blast
  have IHm: "length r < length t" if "length t < length s" "pmembers t = Some (ms, r)" for t ms r
    using less that by blast
  have v: "length r < length s" if p: "pval s = Some (j, r)" for j r
  proof (cases s)
    case Nil
    with p show ?thesis by simp
  next
    case (Cons c t)
    have sk: "length (d # q) < length s" if "skip_ws t = d # q" for d q
      using skip_ws_length [of t] that Cons by simp
    consider "c = 34" | "c = 123" | "c = 91" | "c \<noteq> 34 \<and> c \<noteq> 123 \<and> c \<noteq> 91" by blast
    then show ?thesis
    proof cases
      case 1
      with p Cons show ?thesis by (auto dest: scan_str_length)
    next
      case 2
      then obtain d q where dq: "skip_ws t = d # q" using p Cons by (cases "skip_ws t") auto
      with p Cons 2 IHm [OF sk [OF dq]] sk [OF dq] show ?thesis by (fastforce split: if_splits)
    next
      case 3
      then obtain d q where dq: "skip_ws t = d # q" using p Cons by (cases "skip_ws t") auto
      with p Cons 3 IHe [OF sk [OF dq]] sk [OF dq] show ?thesis by (fastforce split: if_splits)
    next
      case 4
      with p Cons scan_atom_length [of s j r] show ?thesis by auto
    qed
  qed
  have e: "length r < length s" if "pelems s = Some (js, r)" for js r
    using that less_le_trans [OF _ skip_ws_length]
    by (subst (asm) pelems.simps)
      (fastforce split: option.splits list.splits if_splits dest: skip_ws_Cons_length
        dest!: IHe [rotated] intro: skip_ws_less)
  have m: "length z < length s" if "pmembers s = Some (ms, z)" for ms z
    using that
  proof (cases rule: pmembers_SomeE)
    case (1 t k r r' j q e q')
    from 1(1-3) have "length r' < length s"
      using scan_str_length [OF 1(2)] skip_ws_Cons_length [OF 1(3)] by simp
    moreover from 1 have "length q' < length q" by (auto dest: skip_ws_Cons_length)
    ultimately have l: "length q' < length s" using 1(5) by linarith
    with 1(7) IHm [OF skip_ws_less [OF l]] skip_ws_less [OF l] show ?thesis by fastforce
  qed
  from v e m show ?case by blast
qed

lemma pval_length: "pval s = Some (j, r) \<Longrightarrow> length r < length s"
  using pval_length_all [of s] by blast

lemma pelems_Cons:
  "pval s = Some (j, r) \<Longrightarrow> skip_ws r = d # q \<Longrightarrow>
   pelems s = (if d = 93 then Some ([j], q)
     else if d = 44 then map_option (\<lambda>(js, z). (j # js, z)) (pelems (skip_ws q)) else None)"
  by (subst pelems.simps) (simp add: pval_length)

section \<open>Printing, then parsing\<close>

definition stops :: "pystr \<Rightarrow> bool" where
  "stops r \<longleftrightarrow> r = [] \<or> hd r \<in> {44, 93, 125}"

text \<open>
  A value whose floats are finite numerals and whose strings hold no surrogate when the printer
  escapes non-ASCII characters (two escaped surrogates in a row are read back as one character).
\<close>

definition float_ok :: "pystr \<Rightarrow> bool" where
  "float_ok f \<longleftrightarrow> scan_number f = Some (JFloat f, [])"

fun printable :: "bool \<Rightarrow> json \<Rightarrow> bool" where
  "printable a (JFloat f) = float_ok f"
| "printable a (JStr s) = (a \<longrightarrow> (\<forall>c \<in> set s. c < 55296 \<or> 57343 < c \<and> c < 1114112))"
| "printable a (JArr js) = list_all (printable a) js"
| "printable a (JObj ms) = list_all (\<lambda>(k, j). (a \<longrightarrow> (\<forall>c \<in> set k. c < 55296 \<or> 57343 < c \<and> c < 1114112)) \<and> printable a j) ms"
| "printable a j = True"

lemma hex_value_digit [simp]: "d < 16 \<Longrightarrow> hex_value (hex_digit d) = Some d"
  by (auto simp: hex_value_def hex_digit_def)

lemma hex_digits_sum: "c div 4096 mod 16 * 4096 + c div 256 mod 16 * 256 + c div 16 mod 16 * 16 + c mod 16 = c"
  if "c < 65536" for c :: nat
proof -
  have "c div 256 div 16 = c div 4096" "c div 16 div 16 = c div 256"
    by (simp_all add: div_mult2_eq [symmetric])
  moreover from that have "c div 4096 mod 16 = c div 4096" by simp
  ultimately show ?thesis
    using div_mult_mod_eq [of "c div 256" 16] div_mult_mod_eq [of "c div 16" 16] div_mult_mod_eq [of c 16]
    by linarith
qed

lemma scan_hex4_print [simp]: "c < 65536 \<Longrightarrow> scan_hex4 (hex4 c @ r) = Some (c, r)"
  using hex_digits_sum [of c] by (simp add: hex4_def)

lemma scan_str_plain: "32 \<le> c \<Longrightarrow> c \<noteq> 34 \<Longrightarrow> c \<noteq> 92 \<Longrightarrow>
  scan_str (c # r) = map_option (\<lambda>(t, r'). (c # t, r')) (scan_str r)"
  by simp

lemma scan_str_escape:
  assumes "a \<longrightarrow> c < 55296 \<or> 57343 < c \<and> c < 1114112"
  shows "scan_str (escape_char a c @ r) = map_option (\<lambda>(t, r'). (c # t, r')) (scan_str r)"
proof -
  consider "c \<in> {34, 92, 10, 13, 9, 12, 8}"
    | "c \<notin> {34, 92, 10, 13, 9, 12, 8}" "c < 32 \<or> a \<and> 126 < c" "c < 65536"
    | "c \<notin> {34, 92, 10, 13, 9, 12, 8}" "a" "65536 \<le> c"
    | "c \<notin> {34, 92, 10, 13, 9, 12, 8}" "\<not> (c < 32 \<or> a \<and> 126 < c)"
    by fastforce
  then show ?thesis
  proof cases
    case 1
    then show ?thesis by (auto simp: escape_char_def)
  next
    case 2
    then have "escape_char a c = [92, 117] @ hex4 c" by (simp add: escape_char_def)
    with 2 assms show ?thesis by (auto simp: scan_unicode_def)
  next
    case 3
    let ?h = "55296 + (c - 65536) div 1024" and ?l = "56320 + (c - 65536) mod 1024"
    have e: "escape_char a c = [92, 117] @ hex4 ?h @ [92, 117] @ hex4 ?l"
      using 3 by (simp add: escape_char_def)
    from 3 assms have "c - 65536 < 1048576" by simp
    then have h: "?h \<le> 56319" by simp
    have "(c - 65536) mod 1024 < 1024" by simp
    then have l: "?l \<le> 57343" by linarith
    have "65536 + (?h - 55296) * 1024 + (?l - 56320) = c" using 3 by simp
    with h l show ?thesis unfolding e by (simp add: scan_unicode_def)
  next
    case 4
    then have "escape_char a c = [c]" by (auto simp: escape_char_def)
    with 4 show ?thesis by auto
  qed
qed

lemma scan_str_print:
  "(a \<longrightarrow> (\<forall>c \<in> set s. c < 55296 \<or> 57343 < c \<and> c < 1114112)) \<Longrightarrow>
   scan_str (concat (map (escape_char a) s) @ 34 # r) = Some (s, r)"
  by (induction s) (auto simp: scan_str_escape)

lemma stops_not_digit: "stops r \<Longrightarrow> takeWhile is_digit (ds @ r) = ds" if "list_all is_digit ds" for ds
  using that by (cases r) (auto simp: stops_def takeWhile_append list_all_iff is_digit_def)

lemma stops_no_frac_exp: "stops r \<Longrightarrow> scan_frac r = [] \<and> scan_exp r = []"
  by (cases r) (auto simp: stops_def scan_frac_def scan_exp_def)

lemma scan_int_show_nat: "stops r \<Longrightarrow> scan_int (show_nat n @ r) = Some (show_nat n)"
proof -
  assume r: "stops r"
  obtain d ds where s: "show_nat n = d # ds" by (metis list.exhaust show_nat_not_Nil)
  with show_nat_digits [of n] have d: "is_digit d" by simp
  have z: "d = 48 \<Longrightarrow> ds = []"
    using s show_nat_head [of n] by (simp add: show_nat.simps)
  from d have "d \<noteq> 45" by (auto simp: is_digit_def)
  with d z s r show_nat_digits [of n] stops_not_digit [of "show_nat n" r]
  show ?thesis by (auto simp: scan_int_def digits_of_def)
qed

lemma scan_number_show_int: "stops r \<Longrightarrow> scan_number (show_int i @ r) = Some (JInt i, r)"
proof -
  assume r: "stops r"
  have v: "int_value (show_nat n) = int n" for n
  proof -
    obtain d ds where s: "show_nat n = d # ds" by (metis list.exhaust show_nat_not_Nil)
    with show_nat_digits [of n] have "d \<noteq> 45" by (auto simp: is_digit_def)
    with s digits_value_show_nat [of n] show ?thesis by (simp add: int_value_def)
  qed
  show ?thesis
  proof (cases "i < 0")
    case False
    with r v [of "nat i"] show ?thesis
      by (simp add: scan_number_def show_int_def scan_int_show_nat stops_no_frac_exp)
  next
    case True
    obtain d ds where s: "show_nat (nat (- i)) = d # ds" by (metis list.exhaust show_nat_not_Nil)
    have "scan_int (45 # show_nat (nat (- i)) @ r) = Some (45 # show_nat (nat (- i)))"
      using scan_int_show_nat [OF r, of "nat (- i)"] s show_nat_digits [of "nat (- i)"]
      by (auto simp: scan_int_def is_digit_def split: if_splits)
    moreover have "int_value (45 # show_nat (nat (- i))) = i" using True by (simp add: int_value_def)
    ultimately show ?thesis using True r by (simp add: scan_number_def show_int_def stops_no_frac_exp)
  qed
qed

lemma digits_of_stops: "stops r \<Longrightarrow> digits_of (g @ r) = digits_of g"
  by (induction g) (auto simp: digits_of_def stops_def is_digit_def split: list.splits, (cases r; auto simp: is_digit_def)+)

lemma scan_frac_append: "stops r \<Longrightarrow> scan_frac (g @ r) = scan_frac g"
  using stops_no_frac_exp [of r] digits_of_stops [of r] by (cases g) (simp_all add: scan_frac_def)

lemma scan_exp_append:
  assumes r: "stops r"
  shows "scan_exp (g @ r) = scan_exp g"
proof (cases g)
  case Nil
  with stops_no_frac_exp [OF r] show ?thesis by (simp add: scan_exp_def)
next
  case (Cons c g')
  show ?thesis
  proof (cases g')
    case Nil
    have "digits_of r = []" using digits_of_stops [OF r, of "[]"] by (simp add: digits_of_def)
    with Nil Cons r show ?thesis by (cases r) (auto simp: scan_exp_def stops_def)
  next
    case (Cons d g'')
    have "digits_of (d # g'' @ r) = digits_of (d # g'')" "digits_of (g'' @ r) = digits_of g''"
      using digits_of_stops [OF r, of "d # g''"] digits_of_stops [OF r, of g''] by simp_all
    with \<open>g = c # g'\<close> Cons show ?thesis by (simp add: scan_exp_def)
  qed
qed

lemma scan_int_append:
  assumes r: "stops r"
  shows "scan_int (g @ r) = scan_int g"
proof -
  have z: "scan_int (sg @ r) = None" if "sg \<in> {[], [45]}" for sg
    using r that by (cases r) (auto simp: scan_int_def stops_def is_digit_def)
  show ?thesis
  proof (cases g)
    case Nil
    with z [of "[]"] show ?thesis by (simp add: scan_int_def)
  next
    case (Cons c g')
    have d: "digits_of (c # g' @ r) = digits_of (c # g')" using digits_of_stops [OF r, of "c # g'"] by simp
    show ?thesis
    proof (cases g')
      case Nil
      with Cons d z [of "[45]"] show ?thesis by (auto simp: scan_int_def)
    next
      case (Cons e g'')
      have "digits_of (e # g'' @ r) = digits_of (e # g'')" using digits_of_stops [OF r, of "e # g''"] by simp
      with \<open>g = c # g'\<close> Cons d show ?thesis by (auto simp: scan_int_def)
    qed
  qed
qed

lemma scan_number_float:
  assumes f: "float_ok f" and r: "stops r"
  shows "scan_number (f @ r) = Some (JFloat f, r)"
proof -
  from f obtain n where n: "scan_int f = Some n" by (auto simp: float_ok_def scan_number_def split: option.splits)
  let ?r = "drop (length n) f"
  let ?f = "scan_frac ?r" let ?r2 = "drop (length ?f) ?r" let ?e = "scan_exp ?r2"
  from f n have fe: "\<not> (?f = [] \<and> ?e = [])" "f = n @ ?f @ ?e" "drop (length ?e) ?r2 = []"
    by (auto simp: float_ok_def scan_number_def Let_def split: if_splits)
  have "drop (length n) (f @ r) = ?r @ r" using fe(2) by (metis append_assoc append_eq_conv_conj)
  moreover have "drop (length ?f) (?r @ r) = ?r2 @ r"
    using fe(2) by (metis append.assoc append_eq_conv_conj)
  moreover have "drop (length ?e) (?r2 @ r) = r"
  proof -
    have "?r2 = ?e" using fe(2) by (metis append_eq_conv_conj)
    then show ?thesis by (metis append_eq_conv_conj)
  qed
  ultimately show ?thesis
    using n fe(1,2) scan_int_append [OF r, of f] scan_frac_append [OF r, of ?r] scan_exp_append [OF r, of ?r2]
    by (simp add: scan_number_def Let_def del: drop_append)
qed

lemma float_ok_head: "float_ok f \<Longrightarrow> \<exists>c s. f = c # s \<and> (c = 45 \<or> is_digit c)"
  by (cases f) (auto simp: float_ok_def scan_number_def scan_int_def is_digit_def split: option.splits if_splits)

lemma scan_word_null [simp]: "scan_atom (u ''null'' @ r) = Some (JNull, r)"
  by (simp add: scan_atom_def scan_number_def scan_int_def scan_word_def json_words_def u_def is_digit_def)

lemma scan_word_true [simp]: "scan_atom (u ''true'' @ r) = Some (JBool True, r)"
  by (simp add: scan_atom_def scan_number_def scan_int_def scan_word_def json_words_def u_def is_digit_def)

lemma scan_word_false [simp]: "scan_atom (u ''false'' @ r) = Some (JBool False, r)"
  by (simp add: scan_atom_def scan_number_def scan_int_def scan_word_def json_words_def u_def is_digit_def)

text \<open>The first character of a printed value is neither white space nor a closing bracket.\<close>

definition opens :: "pystr \<Rightarrow> bool" where
  "opens s \<longleftrightarrow> s \<noteq> [] \<and> \<not> is_ws (hd s) \<and> hd s \<noteq> 93 \<and> hd s \<noteq> 125"

lemma opens_skip: "opens s \<Longrightarrow> skip_ws (s @ r) = s @ r"
  by (cases s) (simp_all add: opens_def skip_ws_def)

lemma hd_show_nat_digit: "is_digit (hd (show_nat n))"
  using show_nat_digits [of n] show_nat_not_Nil [of n] by (cases "show_nat n") auto

lemma opens_show_int: "opens (show_int i)"
  using hd_show_nat_digit [of "nat i"] by (auto simp: opens_def show_int_def is_ws_def is_digit_def)

lemma opens_float: "float_ok f \<Longrightarrow> opens f"
  using float_ok_head [of f] by (auto simp: opens_def is_ws_def is_digit_def)

lemma opens_dumps: "printable a j \<Longrightarrow> opens (dumps a j)"
  by (cases j) (auto simp: opens_show_int opens_float, simp_all add: opens_def u_def print_str_def is_ws_def)

lemma skip_ws_Cons [simp]: "\<not> is_ws c \<Longrightarrow> skip_ws (c # r) = c # r"
  by (simp add: skip_ws_def)

lemma is_ws_punct [simp]: "\<not> is_ws 44" "\<not> is_ws 93" "\<not> is_ws 125" "\<not> is_ws 58" "\<not> is_ws 34"
  by (simp_all add: is_ws_def)

lemma stops_punct [simp]: "stops (44 # r)" "stops (93 # r)" "stops (125 # r)"
  by (simp_all add: stops_def)

lemma pval_atom: "c \<noteq> 34 \<Longrightarrow> c \<noteq> 91 \<Longrightarrow> c \<noteq> 123 \<Longrightarrow> pval (c # s) = scan_atom (c # s)"
  by simp

lemma pval_show_int: "stops r \<Longrightarrow> pval (show_int i @ r) = Some (JInt i, r)"
proof -
  assume r: "stops r"
  obtain c s where cs: "show_int i = c # s" using opens_show_int by (metis list.exhaust opens_def)
  have "c = 45 \<or> is_digit c"
    using cs show_nat_digits [of "nat i"] by (auto simp: show_int_def split: if_splits)
  then have "c \<noteq> 34" "c \<noteq> 91" "c \<noteq> 123" by (auto simp: is_digit_def)
  then have "pval (show_int i @ r) = scan_atom (show_int i @ r)" unfolding cs by simp
  with r show ?thesis by (simp add: scan_atom_def scan_number_show_int)
qed

lemma pval_float: "float_ok f \<Longrightarrow> stops r \<Longrightarrow> pval (f @ r) = Some (JFloat f, r)"
proof -
  assume f: "float_ok f" and r: "stops r"
  obtain c s where cs: "f = c # s" "c = 45 \<or> is_digit c" using float_ok_head [OF f] by blast
  then have "c \<noteq> 34" "c \<noteq> 91" "c \<noteq> 123" by (auto simp: is_digit_def)
  then have "pval (f @ r) = scan_atom (f @ r)" unfolding cs by simp
  with f r show ?thesis by (simp add: scan_atom_def scan_number_float)
qed

lemma pval_word: "pval (u ''null'' @ r) = Some (JNull, r)" "pval (u ''true'' @ r) = Some (JBool True, r)"
  "pval (u ''false'' @ r) = Some (JBool False, r)"
proof -
  have "pval (u w @ r) = scan_atom (u w @ r)" if "w \<in> {''null'', ''true'', ''false''}" for w
    using that by (auto simp: u_def)
  then show "pval (u ''null'' @ r) = Some (JNull, r)" "pval (u ''true'' @ r) = Some (JBool True, r)"
    "pval (u ''false'' @ r) = Some (JBool False, r)" by simp_all
qed

abbreviation str_printable :: "bool \<Rightarrow> pystr \<Rightarrow> bool" where
  "str_printable a s \<equiv> a \<longrightarrow> (\<forall>c \<in> set s. c < 55296 \<or> 57343 < c \<and> c < 1114112)"

lemma pmembers_member:
  assumes "str_printable a k" and "opens v" and "pval (v @ e # q) = Some (j, e # q)" and "e \<in> {44, 125}"
  shows "pmembers (print_str a k @ 58 # v @ e # q) =
    (if e = 125 then Some ([(k, j)], q)
     else map_option (\<lambda>(ms, z). ((k, j) # ms, z)) (pmembers (skip_ws q)))"
proof -
  have "scan_str (concat (map (escape_char a) k) @ 34 # 58 # v @ e # q) = Some (k, 58 # v @ e # q)"
    by (rule scan_str_print [OF assms(1)])
  moreover have "skip_ws (v @ e # q) = v @ e # q" by (rule opens_skip [OF assms(2)])
  moreover have "length (e # q) < length (v @ e # q)" by (rule pval_length [OF assms(3)])
  ultimately show ?thesis
    using assms(3,4) by (auto simp: pmembers.simps(2) print_str_def)
qed

lemma opens_dumps_members: "ms \<noteq> [] \<Longrightarrow> opens (dumps_members a ms)"
  by (cases "(a, ms)" rule: dumps_members.cases) (auto simp: opens_def print_str_def)

lemma opens_dumps_list: "js \<noteq> [] \<Longrightarrow> list_all (printable a) js \<Longrightarrow> opens (dumps_list a js)"
proof (cases js)
  case (Cons j ks)
  assume "list_all (printable a) js"
  with Cons have "opens (dumps a j)" by (auto intro: opens_dumps)
  with Cons show ?thesis by (cases ks) (auto simp: opens_def)
qed simp

lemma pval_dumps:
  "printable a j \<Longrightarrow> stops r \<Longrightarrow> pval (dumps a j @ r) = Some (j, r)"
  "js \<noteq> [] \<Longrightarrow> list_all (printable a) js \<Longrightarrow> pelems (dumps_list a js @ 93 # r) = Some (js, r)"
  "ms \<noteq> [] \<Longrightarrow> printable a (JObj ms) \<Longrightarrow> pmembers (dumps_members a ms @ 125 # r) = Some (ms, r)"
proof (induction a j and a js and a ms arbitrary: r and r and r
    rule: dumps_dumps_list_dumps_members.induct)
  case (6 a js)
  show ?case
  proof (cases "js = []")
    case True
    then show ?thesis by simp
  next
    case False
    with 6 have o: "opens (dumps_list a js)" by (auto intro: opens_dumps_list)
    then obtain c t where ct: "dumps_list a js = c # t" "c \<noteq> 93" by (metis list.exhaust list.sel(1) opens_def)
    from o ct have "skip_ws (c # t @ 93 # r) = c # t @ 93 # r" using opens_skip by fastforce
    with 6 False ct show ?thesis by fastforce
  qed
next
  case (7 a ms)
  show ?case
  proof (cases "ms = []")
    case True
    then show ?thesis by simp
  next
    case False
    then have o: "opens (dumps_members a ms)" by (rule opens_dumps_members)
    then obtain c t where ct: "dumps_members a ms = c # t" "c \<noteq> 125" by (metis list.exhaust list.sel(1) opens_def)
    from o ct have "skip_ws (c # t @ 125 # r) = c # t @ 125 # r" using opens_skip by fastforce
    with 7 False ct show ?thesis by fastforce
  qed
next
  case (9 a j)
  then show ?case using pelems_Cons [of "dumps a j @ 93 # r" j "93 # r"] by simp
next
  case (10 a j k ks)
  then have "pelems (dumps_list a (k # ks) @ 93 # r) = Some (k # ks, r)" by simp
  moreover have "skip_ws (dumps_list a (k # ks) @ 93 # r) = dumps_list a (k # ks) @ 93 # r"
    using 10 by (intro opens_skip opens_dumps_list) auto
  moreover have "pval (dumps a j @ 44 # dumps_list a (k # ks) @ 93 # r) = Some (j, 44 # dumps_list a (k # ks) @ 93 # r)"
    using 10 by simp
  ultimately show ?case
    using pelems_Cons [of "dumps a j @ 44 # dumps_list a (k # ks) @ 93 # r" j] by simp
next
  case (12 a k j)
  then show ?case by (simp add: pmembers_member opens_dumps)
next
  case (13 a k j m ms)
  then have "pmembers (dumps_members a (m # ms) @ 125 # r) = Some (m # ms, r)" by simp
  moreover have "skip_ws (dumps_members a (m # ms) @ 125 # r) = dumps_members a (m # ms) @ 125 # r"
    by (intro opens_skip opens_dumps_members) simp
  ultimately show ?case using 13 by (simp add: pmembers_member opens_dumps)
qed (simp_all add: pval_show_int pval_float pval_word scan_str_print print_str_def)

theorem json_parse_dumps: "printable a j \<Longrightarrow> json_parse (dumps a j) = Some j"
  using pval_dumps(1) [of a j "[]"] opens_skip [OF opens_dumps, of a j "[]"]
  by (simp add: json_parse_def stops_def skip_ws_def)

text \<open>A value whose objects have distinct keys is its own reading.\<close>

fun dicts_ok :: "json \<Rightarrow> bool" where
  "dicts_ok (JArr js) = list_all dicts_ok js"
| "dicts_ok (JObj ms) = (dict_ok ms \<and> list_all (\<lambda>(k, j). dicts_ok j) ms)"
| "dicts_ok j = True"

lemma py_dicts_id: "dicts_ok j \<Longrightarrow> py_dicts j = j"
proof (induction j rule: py_dicts.induct)
  case (1 js)
  then show ?case by (auto simp: list_all_iff intro: map_idI)
next
  case (2 ms)
  then have "map (\<lambda>(k, j). (k, py_dicts j)) ms = ms"
    by (intro map_idI) (fastforce simp: list_all_iff)
  with 2 show ?case by (simp add: dict_of_pairs_id)
qed simp_all

lemma snd_dput: "snd ` set (dput k v d) \<subseteq> insert v (snd ` set d)"
  by (induction d) auto

lemma snd_fold_dput: "snd ` set (fold (\<lambda>(k, v). dput k v) ps d) \<subseteq> snd ` set d \<union> snd ` set ps"
proof (induction ps arbitrary: d)
  case (Cons p ps)
  obtain k v where p: "p = (k, v)" by (cases p)
  from Cons.IH [of "dput k v d"] snd_dput [of k v d] show ?case unfolding p by auto
qed simp

lemma snd_dict_of_pairs: "snd ` set (dict_of_pairs ps) \<subseteq> snd ` set ps"
  using snd_fold_dput [of ps "[]"] by (simp add: dict_of_pairs_def)

lemma py_dicts_ok: "dicts_ok (py_dicts j)"
proof (induction j rule: py_dicts.induct)
  case (2 ms)
  have "snd ` set (dict_of_pairs ps) \<subseteq> snd ` set ps" for ps :: "(pystr \<times> json) list"
    by (rule snd_dict_of_pairs)
  then have "v \<in> snd ` set (map (\<lambda>(k, j). (k, py_dicts j)) ms)"
    if "(k, v) \<in> set (dict_of_pairs (map (\<lambda>(k, j). (k, py_dicts j)) ms))" for k v
    using that by (metis (no_types, lifting) image_eqI snd_conv subsetD)
  with 2 show ?case by (fastforce simp: list_all_iff)
qed (auto simp: list_all_iff)

theorem json_roundtrip: "printable a j \<Longrightarrow> dicts_ok j \<Longrightarrow> json_loads (dumps a j) = Some j"
  by (simp add: json_loads_def json_parse_dumps py_dicts_id)

lemma float_ok_word [simp]: "\<not> float_ok (u ''NaN'')" "\<not> float_ok (u ''Infinity'')" "\<not> float_ok (u ''-Infinity'')"
  by (simp_all add: float_ok_def scan_number_def scan_int_def u_def is_digit_def)

lemma strict_of_dicts_ok: "printable a j \<Longrightarrow> dicts_ok j \<Longrightarrow> strict_json j"
  by (induction j rule: strict_json.induct) (fastforce simp: list_all_iff dict_ok_def)+

theorem json_roundtrip_strict: "printable a j \<Longrightarrow> dicts_ok j \<Longrightarrow> json_loads_strict (dumps a j) = Some j"
  by (simp add: json_loads_strict_def json_parse_dumps strict_of_dicts_ok)

section \<open>Sorted keys\<close>

lemma map_of_sort_key: "distinct (map fst ms) \<Longrightarrow> map_of (sort_key fst ms) = map_of ms"
  by (rule map_of_inject_set [THEN iffD2]) (simp_all add: distinct_map)

lemma distinct_sort_key_fst: "distinct (map fst (sort_key fst ms)) = distinct (map fst ms)"
  by (simp add: distinct_map)

lemma printable_sort_keys: "printable a j \<Longrightarrow> printable a (sort_keys j)"
  by (induction j rule: sort_keys.induct) (fastforce simp: list_all_iff)+

lemma dicts_ok_sort_keys: "dicts_ok j \<Longrightarrow> dicts_ok (sort_keys j)"
proof (induction j rule: sort_keys.induct)
  case (2 ms)
  have "map fst (map (\<lambda>(k, j). (k, sort_keys j)) ms) = map fst ms" by auto
  with 2 show ?case
    by (fastforce simp: dict_ok_def list_all_iff distinct_sort_key_fst comp_def split_beta)
qed (auto simp: list_all_iff)

section \<open>Escaped output is ASCII, without the zero character\<close>

lemma hex4_ascii: "d \<in> set (hex4 c) \<Longrightarrow> 0 < d \<and> d < (128 :: nat)"
  by (auto simp: hex4_def hex_digit_def)

lemma escape_ascii: "\<forall>d \<in> set (escape_char True c). 0 < d \<and> d < (128 :: nat)"
proof (cases "c < 32 \<or> 126 < c")
  case True
  then show ?thesis by (simp add: escape_char_def ball_Un) (use hex4_ascii in blast)
next
  case False
  then show ?thesis by (simp add: escape_char_def)
qed

lemma print_str_ascii: "\<forall>d \<in> set (print_str True s). 0 < d \<and> d < (128 :: nat)"
  using escape_ascii by (simp add: print_str_def)

lemma show_nat_ascii: "\<forall>c \<in> set (show_nat n). 0 < c \<and> c < (128 :: nat)"
  using show_nat_digits [of n] by (auto simp: list_all_iff is_digit_def)

lemma set_ascii_append: "(\<forall>c \<in> set (xs @ ys). 0 < c \<and> c < (128 :: nat)) \<longleftrightarrow> (\<forall>c \<in> set xs. 0 < c \<and> c < (128 :: nat)) \<and> (\<forall>c \<in> set ys. 0 < c \<and> c < (128 :: nat))"
  by auto

lemma digits_of_ascii: "\<forall>c \<in> set (digits_of s). 0 < c \<and> c < (128 :: nat)"
  by (auto simp: digits_of_def is_digit_def dest!: set_takeWhileD)

lemma scan_int_ascii: "scan_int s = Some n \<Longrightarrow> \<forall>c \<in> set n. 0 < c \<and> c < (128 :: nat)"
  using digits_of_ascii by (auto simp: scan_int_def split: list.splits if_splits)

lemma scan_frac_ascii: "\<forall>c \<in> set (scan_frac s). 0 < c \<and> c < (128 :: nat)"
  using digits_of_ascii by (auto simp: scan_frac_def split: list.splits)

lemma scan_exp_cases: "scan_exp s = [] \<or> (\<exists>c ds. scan_exp s = c # digits_of ds \<and> 0 < c \<and> c < (128 :: nat)) \<or>
    (\<exists>c d ds. scan_exp s = c # d # digits_of ds \<and> 0 < c \<and> c < (128 :: nat) \<and> 0 < d \<and> d < (128 :: nat))"
proof (cases s)
  case (Cons c r)
  consider "\<not> (c = 101 \<or> c = 69)" | "r = []" | d r' where "c = 101 \<or> c = 69" "r = d # r'" by (cases r) auto
  then show ?thesis
  proof cases
    case (3 d r')
    then have c: "0 < c \<and> c < (128 :: nat)" by auto
    consider "scan_exp s = []" | "scan_exp s = c # digits_of r" | "scan_exp s = c # d # digits_of r'" "d = 43 \<or> d = 45"
      using 3 unfolding Cons scan_exp_def by (simp del: One_nat_def) (metis list.simps(5))
    then show ?thesis using c by cases auto
  qed (simp_all add: Cons scan_exp_def)
qed (simp add: scan_exp_def)

lemma scan_exp_ascii: "\<forall>c \<in> set (scan_exp s). 0 < c \<and> c < (128 :: nat)"
  using scan_exp_cases [of s] digits_of_ascii by auto

lemma float_ok_ascii: "float_ok f \<Longrightarrow> \<forall>c \<in> set f. 0 < c \<and> c < (128 :: nat)"
proof -
  assume "float_ok f"
  then obtain n where n: "scan_int f = Some n" "f = n @ scan_frac (drop (length n) f) @
      scan_exp (drop (length (scan_frac (drop (length n) f))) (drop (length n) f))"
    unfolding float_ok_def scan_number_def by (auto simp: Let_def split: option.splits if_splits)
  from scan_int_ascii [OF n(1)] scan_frac_ascii scan_exp_ascii show ?thesis
    by (subst n(2)) (simp add: set_ascii_append del: set_append)
qed

lemma dumps_ascii:
  "a \<Longrightarrow> printable a j \<Longrightarrow> \<forall>c \<in> set (dumps a j). 0 < c \<and> c < (128 :: nat)"
  "a \<Longrightarrow> list_all (printable a) js \<Longrightarrow> \<forall>c \<in> set (dumps_list a js). 0 < c \<and> c < (128 :: nat)"
  "a \<Longrightarrow> printable a (JObj ms) \<Longrightarrow> \<forall>c \<in> set (dumps_members a ms). 0 < c \<and> c < (128 :: nat)"
proof (induction a j and a js and a ms rule: dumps_dumps_list_dumps_members.induct)
  case (1 a)
  show ?case by code_simp
next
  case (2 a b)
  have "\<forall>c \<in> set (u ''true''). 0 < c \<and> c < (128 :: nat)" "\<forall>c \<in> set (u ''false''). 0 < c \<and> c < (128 :: nat)" by code_simp+
  then show ?case by simp
next
  case (3 a i)
  then show ?case using show_nat_ascii by (simp add: show_int_def)
next
  case (4 a f)
  then show ?case using float_ok_ascii by simp
next
  case (12 a k j)
  then show ?case using print_str_ascii by (simp add: ball_Un)
next
  case (13 a k j m ms)
  from 13(4) have "printable a j" "printable a (JObj (m # ms))" by simp_all
  with 13(1,2) [OF 13(3)] have "\<forall>c \<in> set (dumps a j). 0 < c \<and> c < (128 :: nat)" "\<forall>c \<in> set (dumps_members a (m # ms)). 0 < c \<and> c < (128 :: nat)" by blast+
  moreover from 13(3) print_str_ascii [of k] have "\<forall>c \<in> set (print_str a k). 0 < c \<and> c < (128 :: nat)" by simp
  ultimately show ?case unfolding dumps_members.simps by (simp only: set_append list.set ball_Un ball_simps) simp
next
  case (5 a s)
  then show ?case using print_str_ascii by simp
qed (simp_all add: ball_Un)

end
