(* ===== verification/JobModels.thy ===== *)
theory JobModels
  imports Json
begin

text \<open>
  \<open>night_shifts/models.py\<close> and \<open>night_shifts/state_machine.py\<close>: the domain values of the
  night-shift orchestration (statuses, budgets, jobs, sandboxes, events, audit records) with
  their construction checks, and the job life cycle with its reachable states.  A timestamp
  is the number of microseconds of an aware UTC \<open>datetime\<close>.
\<close>

type_synonym time = int

datatype job_status =
    JS_DRAFT | JS_QUEUED | JS_PROVISIONING | JS_RUNNING | JS_WAITING_FOR_INPUT | JS_PAUSED
  | JS_FAILED | JS_CANCELLED | JS_COMPLETED | JS_AWAITING_REVIEW | JS_REVISION_REQUESTED
  | JS_REJECTED | JS_APPROVED | JS_PUBLISHED | JS_MERGED

datatype tool_call_status = TC_RUNNING | TC_SUCCESS | TC_FAILED | TC_SKIPPED | TC_CANCELLED

datatype agent_plan = FLEX | NORMAL

datatype sandbox_status =
  SB_CREATED | SB_STARTING | SB_RUNNING | SB_PAUSED | SB_STOPPED | SB_DESTROYED | SB_ERROR

fun job_status_value :: "job_status \<Rightarrow> pystr" where
  "job_status_value JS_DRAFT = u ''draft''"
| "job_status_value JS_QUEUED = u ''queued''"
| "job_status_value JS_PROVISIONING = u ''provisioning''"
| "job_status_value JS_RUNNING = u ''running''"
| "job_status_value JS_WAITING_FOR_INPUT = u ''waiting_for_input''"
| "job_status_value JS_PAUSED = u ''paused''"
| "job_status_value JS_FAILED = u ''failed''"
| "job_status_value JS_CANCELLED = u ''cancelled''"
| "job_status_value JS_COMPLETED = u ''completed''"
| "job_status_value JS_AWAITING_REVIEW = u ''awaiting_review''"
| "job_status_value JS_REVISION_REQUESTED = u ''revision_requested''"
| "job_status_value JS_REJECTED = u ''rejected''"
| "job_status_value JS_APPROVED = u ''approved''"
| "job_status_value JS_PUBLISHED = u ''published''"
| "job_status_value JS_MERGED = u ''merged''"

fun tool_call_status_value :: "tool_call_status \<Rightarrow> pystr" where
  "tool_call_status_value TC_RUNNING = u ''running''"
| "tool_call_status_value TC_SUCCESS = u ''success''"
| "tool_call_status_value TC_FAILED = u ''failed''"
| "tool_call_status_value TC_SKIPPED = u ''skipped''"
| "tool_call_status_value TC_CANCELLED = u ''cancelled''"

fun agent_plan_value :: "agent_plan \<Rightarrow> pystr" where
  "agent_plan_value FLEX = u ''flex''"
| "agent_plan_value NORMAL = u ''normal''"

fun sandbox_status_value :: "sandbox_status \<Rightarrow> pystr" where
  "sandbox_status_value SB_CREATED = u ''created''"
| "sandbox_status_value SB_STARTING = u ''starting''"
| "sandbox_status_value SB_RUNNING = u ''running''"
| "sandbox_status_value SB_PAUSED = u ''paused''"
| "sandbox_status_value SB_STOPPED = u ''stopped''"
| "sandbox_status_value SB_DESTROYED = u ''destroyed''"
| "sandbox_status_value SB_ERROR = u ''error''"

text \<open>\<open>Kind(value)\<close> on a \<open>str\<close> enumeration: the member with that value, or \<open>ValueError\<close>.\<close>

definition enum_of :: "('a \<Rightarrow> pystr) \<Rightarrow> 'a list \<Rightarrow> pystr \<Rightarrow> 'a option" where
  "enum_of val members s = List.find (\<lambda>m. val m = s) members"

definition job_statuses :: "job_status list" where
  "job_statuses = [JS_DRAFT, JS_QUEUED, JS_PROVISIONING, JS_RUNNING, JS_WAITING_FOR_INPUT, JS_PAUSED,
     JS_FAILED, JS_CANCELLED, JS_COMPLETED, JS_AWAITING_REVIEW, JS_REVISION_REQUESTED,
     JS_REJECTED, JS_APPROVED, JS_PUBLISHED, JS_MERGED]"

definition job_status_of :: "pystr \<Rightarrow> job_status option" where
  "job_status_of = enum_of job_status_value job_statuses"

definition tool_call_status_of :: "pystr \<Rightarrow> tool_call_status option" where
  "tool_call_status_of = enum_of tool_call_status_value [TC_RUNNING, TC_SUCCESS, TC_FAILED, TC_SKIPPED, TC_CANCELLED]"

definition agent_plan_of :: "pystr \<Rightarrow> agent_plan option" where
  "agent_plan_of = enum_of agent_plan_value [FLEX, NORMAL]"

definition sandbox_status_of :: "pystr \<Rightarrow> sandbox_status option" where
  "sandbox_status_of = enum_of sandbox_status_value
     [SB_CREATED, SB_STARTING, SB_RUNNING, SB_PAUSED, SB_STOPPED, SB_DESTROYED, SB_ERROR]"

lemma job_status_of_value [simp]: "job_status_of (job_status_value s) = Some s"
  by (cases s) (simp_all add: job_status_of_def enum_of_def job_statuses_def)

lemma tool_call_status_of_value [simp]: "tool_call_status_of (tool_call_status_value s) = Some s"
  by (cases s) (simp_all add: tool_call_status_of_def enum_of_def)

lemma agent_plan_of_value [simp]: "agent_plan_of (agent_plan_value p) = Some p"
  by (cases p) (simp_all add: agent_plan_of_def enum_of_def)

lemma sandbox_status_of_value [simp]: "sandbox_status_of (sandbox_status_value s) = Some s"
  by (cases s) (simp_all add: sandbox_status_of_def enum_of_def)

section \<open>Budgets\<close>

datatype model_error =
    TypeErr pystr          \<comment> \<open>unexpected keyword argument\<close>
  | BoundErr pystr nat     \<comment> \<open>\<open>{name} must be an integer between 1 and {maximum}\<close>\<close>
  | CostErr
  | SandboxLimitErr
  | EnumErr pystr
  | JsonErr

record job_budget =
  timeout_seconds :: int
  max_tool_calls :: int
  max_cost_usd :: json
  max_model_requests :: int
  max_input_bytes :: int
  max_output_bytes :: int
  max_output_tokens :: int
  max_command_seconds :: int

text \<open>A cost is \<open>None\<close>, an \<open>int\<close> or a \<open>float\<close>; the latter is finite and not negative.\<close>

definition float_negative :: "pystr \<Rightarrow> bool" where
  "float_negative f \<longleftrightarrow> (case f of c # r \<Rightarrow> c = 45 \<and> list_ex (\<lambda>d. 49 \<le> d \<and> d \<le> 57) (takeWhile (\<lambda>d. d \<noteq> 101 \<and> d \<noteq> 69) r) | [] \<Rightarrow> False)"

fun cost_ok :: "json \<Rightarrow> bool" where
  "cost_ok JNull = True"
| "cost_ok (JInt n) = (0 \<le> n)"
| "cost_ok (JFloat f) = (f \<notin> {u ''NaN'', u ''Infinity'', u ''-Infinity''} \<and> \<not> float_negative f)"
| "cost_ok _ = False"

text \<open>\<open>type(value) is int and 1 <= value <= maximum\<close>: a \<open>bool\<close> is not accepted.\<close>

definition bounded_int :: "pystr \<Rightarrow> nat \<Rightarrow> json \<Rightarrow> model_error + int" where
  "bounded_int name maximum v = (case v of
     JInt n \<Rightarrow> (if 1 \<le> n \<and> n \<le> int maximum then Inr n else Inl (BoundErr name maximum))
   | _ \<Rightarrow> Inl (BoundErr name maximum))"

definition budget_fields :: "pystr list" where
  "budget_fields = [u ''timeout_seconds'', u ''max_tool_calls'', u ''max_cost_usd'', u ''max_model_requests'',
     u ''max_input_bytes'', u ''max_output_bytes'', u ''max_output_tokens'', u ''max_command_seconds'']"

definition field_or :: "(pystr \<times> json) list \<Rightarrow> pystr \<Rightarrow> json \<Rightarrow> json" where
  "field_or d k v = (case map_of d k of None \<Rightarrow> v | Some w \<Rightarrow> w)"

text \<open>\<open>JobBudget(**d)\<close>: defaults for absent fields, then the checks of \<open>__post_init__\<close> in order.\<close>

definition make_budget :: "(pystr \<times> json) list \<Rightarrow> model_error + job_budget" where
  "make_budget d =
     (case List.find (\<lambda>(k, v). k \<notin> set budget_fields) d of
        Some (k, v) \<Rightarrow> Inl (TypeErr k)
      | None \<Rightarrow>
          rbind (bounded_int (u ''timeout_seconds'') 86400 (field_or d (u ''timeout_seconds'') (JInt 14400))) (\<lambda>t.
          rbind (bounded_int (u ''max_tool_calls'') 500 (field_or d (u ''max_tool_calls'') (JInt 500))) (\<lambda>c.
          rbind (bounded_int (u ''max_model_requests'') 128 (field_or d (u ''max_model_requests'') (JInt 24))) (\<lambda>r.
          rbind (bounded_int (u ''max_input_bytes'') (4 * 1024 * 1024) (field_or d (u ''max_input_bytes'') (JInt (512 * 1024)))) (\<lambda>i.
          rbind (bounded_int (u ''max_output_bytes'') (1024 * 1024) (field_or d (u ''max_output_bytes'') (JInt (128 * 1024)))) (\<lambda>ob.
          rbind (bounded_int (u ''max_output_tokens'') 16384 (field_or d (u ''max_output_tokens'') (JInt 4096))) (\<lambda>ot.
          rbind (bounded_int (u ''max_command_seconds'') 3600 (field_or d (u ''max_command_seconds'') (JInt 300))) (\<lambda>cs.
          let cost = field_or d (u ''max_cost_usd'') JNull in
          if cost_ok cost
          then Inr \<lparr>timeout_seconds = t, max_tool_calls = c, max_cost_usd = cost, max_model_requests = r,
                 max_input_bytes = i, max_output_bytes = ob, max_output_tokens = ot, max_command_seconds = cs\<rparr>
          else Inl CostErr))))))))"

definition budget_ok :: "job_budget \<Rightarrow> bool" where
  "budget_ok b \<longleftrightarrow>
     1 \<le> timeout_seconds b \<and> timeout_seconds b \<le> 86400 \<and>
     1 \<le> max_tool_calls b \<and> max_tool_calls b \<le> 500 \<and>
     1 \<le> max_model_requests b \<and> max_model_requests b \<le> 128 \<and>
     1 \<le> max_input_bytes b \<and> max_input_bytes b \<le> 4194304 \<and>
     1 \<le> max_output_bytes b \<and> max_output_bytes b \<le> 1048576 \<and>
     1 \<le> max_output_tokens b \<and> max_output_tokens b \<le> 16384 \<and>
     1 \<le> max_command_seconds b \<and> max_command_seconds b \<le> 3600 \<and>
     cost_ok (max_cost_usd b)"

lemma bounded_int_Inr: "bounded_int name m v = Inr n \<longleftrightarrow> v = JInt n \<and> 1 \<le> n \<and> n \<le> int m"
  by (cases v) (auto simp: bounded_int_def)

lemma make_budget_ok: "make_budget d = Inr b \<Longrightarrow> budget_ok b"
  by (auto simp: make_budget_def budget_ok_def rbind_Inr_iff bounded_int_Inr Let_def
      split: option.splits if_splits)

section \<open>Records\<close>

record night_shift_job =
  title :: pystr
  objective :: pystr
  worker_profile :: pystr
  repository_id :: "pystr option"
  starting_revision :: "pystr option"
  acceptance_criteria :: "pystr list"
  budget :: job_budget
  plan :: agent_plan
  job_id :: pystr
  status :: job_status
  created_at :: time
  updated_at :: time
  cancellation_requested :: bool
  result_summary :: "pystr option"

record sandbox_spec =
  cpu_count :: int
  memory_mb :: int
  disk_gb :: int
  network_enabled :: bool

definition make_sandbox_spec :: "int \<Rightarrow> int \<Rightarrow> int \<Rightarrow> bool \<Rightarrow> model_error + sandbox_spec" where
  "make_sandbox_spec c m d n =
     (if c \<le> 0 \<or> m \<le> 0 \<or> d \<le> 0 then Inl SandboxLimitErr
      else Inr \<lparr>cpu_count = c, memory_mb = m, disk_gb = d, network_enabled = n\<rparr>)"

record sandbox_record =
  sb_job_id :: pystr
  sb_backend :: pystr
  sb_spec :: sandbox_spec
  sb_sandbox_id :: pystr
  sb_external_id :: "pystr option"
  sb_status :: sandbox_status
  sb_created_at :: time
  sb_updated_at :: time
  sb_last_error :: "pystr option"

record night_shift_event =
  ev_type :: pystr
  ev_actor :: pystr
  ev_payload :: "(pystr \<times> json) list"
  ev_job_id :: "pystr option"
  ev_id :: pystr
  ev_created_at :: time

record tool_call_record =
  tc_tool_name :: pystr
  tc_arguments :: "(pystr \<times> json) list"
  tc_agent_profile :: pystr
  tc_call_id :: pystr
  tc_job_id :: "pystr option"
  tc_session_id :: "pystr option"
  tc_status :: tool_call_status
  tc_started_at :: time
  tc_completed_at :: "time option"
  tc_duration_ms :: "int option"
  tc_result_preview :: "pystr option"
  tc_error :: "pystr option"
  tc_expires_at :: time

section \<open>The job life cycle\<close>

fun allowed_transitions :: "job_status \<Rightarrow> job_status list" where
  "allowed_transitions JS_DRAFT = [JS_QUEUED, JS_CANCELLED]"
| "allowed_transitions JS_QUEUED = [JS_PROVISIONING, JS_CANCELLED, JS_FAILED]"
| "allowed_transitions JS_PROVISIONING = [JS_RUNNING, JS_CANCELLED, JS_FAILED]"
| "allowed_transitions JS_RUNNING =
     [JS_WAITING_FOR_INPUT, JS_PAUSED, JS_COMPLETED, JS_CANCELLED, JS_FAILED]"
| "allowed_transitions JS_WAITING_FOR_INPUT = [JS_RUNNING, JS_CANCELLED, JS_FAILED]"
| "allowed_transitions JS_PAUSED = [JS_RUNNING, JS_CANCELLED, JS_FAILED]"
| "allowed_transitions JS_COMPLETED = [JS_AWAITING_REVIEW]"
| "allowed_transitions JS_AWAITING_REVIEW = [JS_REVISION_REQUESTED, JS_REJECTED, JS_APPROVED]"
| "allowed_transitions JS_REVISION_REQUESTED = [JS_QUEUED, JS_CANCELLED]"
| "allowed_transitions JS_APPROVED = [JS_PUBLISHED]"
| "allowed_transitions JS_PUBLISHED = [JS_MERGED]"
| "allowed_transitions JS_FAILED = []"
| "allowed_transitions JS_CANCELLED = []"
| "allowed_transitions JS_REJECTED = []"
| "allowed_transitions JS_MERGED = []"

datatype transition_error = InvalidJobTransition job_status job_status

definition validate_transition :: "job_status \<Rightarrow> job_status \<Rightarrow> transition_error + unit" where
  "validate_transition current target =
     (if target \<in> set (allowed_transitions current) then Inr ()
      else Inl (InvalidJobTransition current target))"

text \<open>A history is the list of the statuses a job has had, the latest first.\<close>

inductive job_history :: "job_status list \<Rightarrow> bool" where
  job_created: "job_history [JS_DRAFT]"
| job_moved: "job_history (s # h) \<Longrightarrow> validate_transition s t = Inr () \<Longrightarrow> job_history (t # s # h)"

inductive_cases job_history_ConsE: "job_history (s # h)"

inductive_simps job_history_Nil [simp]: "job_history []"

lemma validate_transition_iff [simp]:
  "validate_transition s t = Inr () \<longleftrightarrow> t \<in> set (allowed_transitions s)"
  by (simp add: validate_transition_def)

text \<open>What each status requires of the statuses before it.\<close>

fun needs_before :: "job_status \<Rightarrow> job_status list" where
  "needs_before JS_DRAFT = []"
| "needs_before JS_QUEUED = [JS_DRAFT]"
| "needs_before JS_PROVISIONING = [JS_DRAFT, JS_QUEUED]"
| "needs_before JS_RUNNING = [JS_DRAFT, JS_QUEUED, JS_PROVISIONING]"
| "needs_before JS_WAITING_FOR_INPUT = [JS_DRAFT, JS_QUEUED, JS_PROVISIONING, JS_RUNNING]"
| "needs_before JS_PAUSED = [JS_DRAFT, JS_QUEUED, JS_PROVISIONING, JS_RUNNING]"
| "needs_before JS_FAILED = [JS_DRAFT, JS_QUEUED]"
| "needs_before JS_CANCELLED = [JS_DRAFT]"
| "needs_before JS_COMPLETED = [JS_DRAFT, JS_QUEUED, JS_PROVISIONING, JS_RUNNING]"
| "needs_before JS_AWAITING_REVIEW = [JS_DRAFT, JS_QUEUED, JS_PROVISIONING, JS_RUNNING, JS_COMPLETED]"
| "needs_before JS_REVISION_REQUESTED =
     [JS_DRAFT, JS_QUEUED, JS_PROVISIONING, JS_RUNNING, JS_COMPLETED, JS_AWAITING_REVIEW]"
| "needs_before JS_REJECTED =
     [JS_DRAFT, JS_QUEUED, JS_PROVISIONING, JS_RUNNING, JS_COMPLETED, JS_AWAITING_REVIEW]"
| "needs_before JS_APPROVED =
     [JS_DRAFT, JS_QUEUED, JS_PROVISIONING, JS_RUNNING, JS_COMPLETED, JS_AWAITING_REVIEW]"
| "needs_before JS_PUBLISHED =
     [JS_DRAFT, JS_QUEUED, JS_PROVISIONING, JS_RUNNING, JS_COMPLETED, JS_AWAITING_REVIEW, JS_APPROVED]"
| "needs_before JS_MERGED =
     [JS_DRAFT, JS_QUEUED, JS_PROVISIONING, JS_RUNNING, JS_COMPLETED, JS_AWAITING_REVIEW, JS_APPROVED, JS_PUBLISHED]"

lemma needs_before_step:
  "t \<in> set (allowed_transitions s) \<Longrightarrow> set (needs_before t) \<subseteq> insert s (set (needs_before s))"
  by (cases s; auto)

lemma job_history_hd: "job_history h \<Longrightarrow> h \<noteq> []"
  by (induction rule: job_history.induct) simp_all

lemma job_history_needs: "job_history h \<Longrightarrow> set (needs_before (hd h)) \<subseteq> set (tl h)"
proof (induction rule: job_history.induct)
  case job_created
  show ?case by simp
next
  case (job_moved s h t)
  then have "set (needs_before t) \<subseteq> insert s (set (needs_before s))" by (intro needs_before_step) simp
  with job_moved.IH show ?case by auto
qed

definition terminal_status :: "job_status \<Rightarrow> bool" where
  "terminal_status s \<longleftrightarrow> allowed_transitions s = []"

lemma job_history_terminal: "job_history h \<Longrightarrow> s \<in> set (tl h) \<Longrightarrow> \<not> terminal_status s"
proof (induction rule: job_history.induct)
  case (job_moved s' h t)
  then show ?case by (auto simp: terminal_status_def)
qed simp

text \<open>
  A job is published or merged only after an approval, which only follows a review of a
  completed run: in every history the code's transition check admits, all the statuses that
  \<open>needs_before\<close> lists for the current status occurred before it.
\<close>

theorem published_only_after_review:
  assumes "job_history (s # h)" and "s = JS_PUBLISHED \<or> s = JS_MERGED"
  shows "{JS_RUNNING, JS_COMPLETED, JS_AWAITING_REVIEW, JS_APPROVED} \<subseteq> set h"
  using job_history_needs [OF assms(1)] assms(2) by auto

theorem published_only_after_review_witness:
  "{JS_RUNNING, JS_COMPLETED, JS_AWAITING_REVIEW, JS_APPROVED} \<subseteq>
     set [JS_APPROVED, JS_AWAITING_REVIEW, JS_COMPLETED, JS_RUNNING, JS_PROVISIONING, JS_QUEUED, JS_DRAFT]"
proof (rule published_only_after_review)
  show "job_history [JS_PUBLISHED, JS_APPROVED, JS_AWAITING_REVIEW, JS_COMPLETED, JS_RUNNING,
     JS_PROVISIONING, JS_QUEUED, JS_DRAFT]"
    by (intro job_history.intros) simp_all
  show "JS_PUBLISHED = JS_PUBLISHED \<or> JS_PUBLISHED = JS_MERGED" by simp
qed

text \<open>
  A job that has failed, was cancelled, rejected or merged never changes its status again,
  and these are exactly the statuses that allow no transition.
\<close>

theorem terminal_is_final:
  assumes "job_history (t # s # h)"
  shows "s \<notin> {JS_FAILED, JS_CANCELLED, JS_REJECTED, JS_MERGED} \<and> allowed_transitions s \<noteq> []"
proof -
  have "\<not> terminal_status s" using job_history_terminal [OF assms] by simp
  then show ?thesis by (cases s) (auto simp: terminal_status_def)
qed

theorem terminal_is_final_witness:
  "JS_QUEUED \<notin> {JS_FAILED, JS_CANCELLED, JS_REJECTED, JS_MERGED} \<and> allowed_transitions JS_QUEUED \<noteq> []"
  by (rule terminal_is_final [of JS_PROVISIONING JS_QUEUED "[JS_DRAFT]"]) (intro job_history.intros; simp)

end
