(* ===== verification/WorkerProtocol.thy ===== *)
theory WorkerProtocol
  imports JobModels
begin

text \<open>
  \<open>night_shifts/protocol.py\<close>: the versioned JSONL protocol between the orchestrator and its
  workers.  Encoders produce the line the code writes (\<open>json.dumps\<close> with compact separators),
  decoders read a line through \<open>json.loads\<close> and the field checks, in the code's order; every
  \<open>ProtocolError\<close> is a value of \<open>protocol_error\<close>.  \<open>datetime.isoformat\<close> and
  \<open>datetime.fromisoformat\<close> are the parameters \<open>isofmt\<close> and \<open>fromiso\<close>.
\<close>

datatype worker_outcome = WO_SUCCESS | WO_SUBMITTED | WO_BLOCKED | WO_FAILED | WO_CANCELLED | WO_TIMED_OUT

datatype check_status = CK_NOT_RUN | CK_PASSED | CK_FAILED | CK_INCOMPLETE

datatype review_status = RV_NOT_REVIEWED | RV_APPROVED | RV_REJECTED

datatype cleanup_status = CL_UNKNOWN | CL_CLEAN | CL_FAILED

fun worker_outcome_value :: "worker_outcome \<Rightarrow> pystr" where
  "worker_outcome_value WO_SUCCESS = u ''success''"
| "worker_outcome_value WO_SUBMITTED = u ''submitted''"
| "worker_outcome_value WO_BLOCKED = u ''blocked''"
| "worker_outcome_value WO_FAILED = u ''failed''"
| "worker_outcome_value WO_CANCELLED = u ''cancelled''"
| "worker_outcome_value WO_TIMED_OUT = u ''timed_out''"

fun check_status_value :: "check_status \<Rightarrow> pystr" where
  "check_status_value CK_NOT_RUN = u ''not_run''"
| "check_status_value CK_PASSED = u ''passed''"
| "check_status_value CK_FAILED = u ''failed''"
| "check_status_value CK_INCOMPLETE = u ''incomplete''"

fun review_status_value :: "review_status \<Rightarrow> pystr" where
  "review_status_value RV_NOT_REVIEWED = u ''not_reviewed''"
| "review_status_value RV_APPROVED = u ''approved''"
| "review_status_value RV_REJECTED = u ''rejected''"

fun cleanup_status_value :: "cleanup_status \<Rightarrow> pystr" where
  "cleanup_status_value CL_UNKNOWN = u ''unknown''"
| "cleanup_status_value CL_CLEAN = u ''clean''"
| "cleanup_status_value CL_FAILED = u ''failed''"

definition worker_outcomes :: "worker_outcome list" where
  "worker_outcomes = [WO_SUCCESS, WO_SUBMITTED, WO_BLOCKED, WO_FAILED, WO_CANCELLED, WO_TIMED_OUT]"

definition check_statuses :: "check_status list" where
  "check_statuses = [CK_NOT_RUN, CK_PASSED, CK_FAILED, CK_INCOMPLETE]"

definition review_statuses :: "review_status list" where
  "review_statuses = [RV_NOT_REVIEWED, RV_APPROVED, RV_REJECTED]"

definition cleanup_statuses :: "cleanup_status list" where
  "cleanup_statuses = [CL_UNKNOWN, CL_CLEAN, CL_FAILED]"

lemma protocol_enums [simp]:
  "enum_of worker_outcome_value worker_outcomes (worker_outcome_value a) = Some a"
  "enum_of check_status_value check_statuses (check_status_value b) = Some b"
  "enum_of review_status_value review_statuses (review_status_value c) = Some c"
  "enum_of cleanup_status_value cleanup_statuses (cleanup_status_value d) = Some d"
     apply (cases a; simp add: enum_of_def worker_outcomes_def)
    apply (cases b; simp add: enum_of_def check_statuses_def)
   apply (cases c; simp add: enum_of_def review_statuses_def)
  apply (cases d; simp add: enum_of_def cleanup_statuses_def)
  done

record worker_task =
  tk_job_id :: pystr
  tk_objective :: pystr
  tk_worker_profile :: pystr
  tk_acceptance_criteria :: "pystr list"
  tk_repository_id :: "pystr option"
  tk_starting_revision :: "pystr option"
  tk_plan :: agent_plan

definition task_from_job :: "night_shift_job \<Rightarrow> worker_task" where
  "task_from_job j = \<lparr>tk_job_id = job_id j, tk_objective = objective j, tk_worker_profile = worker_profile j,
     tk_acceptance_criteria = acceptance_criteria j, tk_repository_id = repository_id j,
     tk_starting_revision = starting_revision j, tk_plan = plan j\<rparr>"

record worker_result =
  wr_job_id :: pystr
  wr_outcome :: worker_outcome
  wr_summary :: pystr
  wr_error :: "pystr option"
  wr_checks :: "(pystr \<times> json) list list"
  wr_artifacts :: "pystr list"
  wr_metrics :: "(pystr \<times> json) list"
  wr_check_status :: check_status
  wr_review_status :: review_status
  wr_cleanup_status :: cleanup_status

text \<open>\<open>WorkerResult(job_id, outcome, summary, error)\<close> with the other fields at their defaults.\<close>

definition plain_result :: "pystr \<Rightarrow> worker_outcome \<Rightarrow> pystr \<Rightarrow> pystr option \<Rightarrow> worker_result" where
  "plain_result j oc s e = \<lparr>wr_job_id = j, wr_outcome = oc, wr_summary = s, wr_error = e,
     wr_checks = [], wr_artifacts = [], wr_metrics = [], wr_check_status = CK_NOT_RUN,
     wr_review_status = RV_NOT_REVIEWED, wr_cleanup_status = CL_UNKNOWN\<rparr>"

datatype protocol_error =
    InvalidJson | NotObject pystr | BadVersion | KindNotString | WrongKind pystr
  | BadText pystr | BadOptionalText pystr | BadTextList | BadStatus pystr
  | UnknownOutcome pystr | UnknownPlan | BadTimestamp pystr | BadChecks | UnexpectedKind pystr

section \<open>Encoding\<close>

definition opt_str :: "pystr option \<Rightarrow> json" where
  "opt_str x = (case x of None \<Rightarrow> JNull | Some s \<Rightarrow> JStr s)"

definition encode_line :: "pystr \<Rightarrow> (pystr \<times> json) list \<Rightarrow> pystr" where
  "encode_line kind payload =
     dumps False (JObj [(u ''version'', JInt 1), (u ''kind'', JStr kind), (u ''payload'', JObj payload)])"

definition encode_task :: "worker_task \<Rightarrow> pystr" where
  "encode_task t = encode_line (u ''task'')
     [(u ''job_id'', JStr (tk_job_id t)),
      (u ''objective'', JStr (tk_objective t)),
      (u ''worker_profile'', JStr (tk_worker_profile t)),
      (u ''acceptance_criteria'', JArr (map JStr (tk_acceptance_criteria t))),
      (u ''repository_id'', opt_str (tk_repository_id t)),
      (u ''starting_revision'', opt_str (tk_starting_revision t)),
      (u ''plan'', JStr (agent_plan_value (tk_plan t)))]"

definition encode_event :: "(time \<Rightarrow> pystr) \<Rightarrow> night_shift_event \<Rightarrow> pystr" where
  "encode_event isofmt e = encode_line (u ''event'')
     [(u ''event_id'', JStr (ev_id e)),
      (u ''job_id'', opt_str (ev_job_id e)),
      (u ''event_type'', JStr (ev_type e)),
      (u ''actor'', JStr (ev_actor e)),
      (u ''payload'', JObj (ev_payload e)),
      (u ''created_at'', JStr (isofmt (ev_created_at e)))]"

definition encode_result :: "worker_result \<Rightarrow> pystr" where
  "encode_result r = encode_line (u ''result'')
     [(u ''job_id'', JStr (wr_job_id r)),
      (u ''outcome'', JStr (worker_outcome_value (wr_outcome r))),
      (u ''summary'', JStr (wr_summary r)),
      (u ''error'', opt_str (wr_error r)),
      (u ''checks'', JArr (map JObj (wr_checks r))),
      (u ''artifacts'', JArr (map JStr (wr_artifacts r))),
      (u ''metrics'', JObj (wr_metrics r)),
      (u ''check_status'', JStr (check_status_value (wr_check_status r))),
      (u ''review_status'', JStr (review_status_value (wr_review_status r))),
      (u ''cleanup_status'', JStr (cleanup_status_value (wr_cleanup_status r)))]"

section \<open>Decoding\<close>

text \<open>Python's \<open>value == n\<close> for an \<open>int\<close> \<open>n\<close>: \<open>True\<close> equals 1 and \<open>1.0\<close> equals 1.\<close>

definition float_eq_int :: "pystr \<Rightarrow> int \<Rightarrow> bool" where
  "float_eq_int f n =
     (let neg = (f \<noteq> [] \<and> hd f = 45); g = (if neg then tl f else f);
          ip = digits_of g; r = drop (length ip) g;
          fr = scan_frac r; e = scan_exp (drop (length fr) r);
          m = int (digits_value (ip @ drop 1 fr)) * (if neg then - 1 else 1);
          x = (case drop 1 e of [] \<Rightarrow> 0 | c # d \<Rightarrow> (if c = 43 then int (digits_value d) else int_value (c # d)))
              - int (length (drop 1 fr))
      in ip \<noteq> [] \<and> (if 0 \<le> x then m * 10 ^ nat x = n else m = n * 10 ^ nat (- x)))"

fun json_eq_int :: "json \<Rightarrow> int \<Rightarrow> bool" where
  "json_eq_int (JInt m) n = (m = n)"
| "json_eq_int (JBool b) n = ((if b then 1 else 0) = n)"
| "json_eq_int (JFloat f) n = float_eq_int f n"
| "json_eq_int _ n = False"

definition as_object :: "json option \<Rightarrow> pystr \<Rightarrow> protocol_error + (pystr \<times> json) list" where
  "as_object v label = (case v of Some (JObj d) \<Rightarrow> Inr d | _ \<Rightarrow> Inl (NotObject label))"

definition get_text :: "(pystr \<times> json) list \<Rightarrow> pystr \<Rightarrow> bool \<Rightarrow> protocol_error + pystr" where
  "get_text payload key allow_empty = (case jget payload key of
     Some (JStr s) \<Rightarrow> (if \<not> allow_empty \<and> s = [] then Inl (BadText key) else Inr s)
   | _ \<Rightarrow> Inl (BadText key))"

definition get_optional_text :: "(pystr \<times> json) list \<Rightarrow> pystr \<Rightarrow> protocol_error + pystr option" where
  "get_optional_text payload key = (case jget payload key of
     None \<Rightarrow> Inr None | Some JNull \<Rightarrow> Inr None | Some (JStr s) \<Rightarrow> Inr (Some s)
   | _ \<Rightarrow> Inl (BadOptionalText key))"

definition str_item :: "'e \<Rightarrow> json \<Rightarrow> 'e + pystr" where
  "str_item e j = (case j of JStr s \<Rightarrow> Inr s | _ \<Rightarrow> Inl e)"

definition obj_item :: "'e \<Rightarrow> json \<Rightarrow> 'e + (pystr \<times> json) list" where
  "obj_item e j = (case j of JObj d \<Rightarrow> Inr d | _ \<Rightarrow> Inl e)"

definition text_list :: "json \<Rightarrow> protocol_error + pystr list" where
  "text_list v = (case v of JArr js \<Rightarrow> map_res (str_item BadTextList) js | _ \<Rightarrow> Inl BadTextList)"

definition check_list :: "json \<Rightarrow> protocol_error + (pystr \<times> json) list list" where
  "check_list v = (case v of JArr js \<Rightarrow> map_res (obj_item BadChecks) js | _ \<Rightarrow> Inl BadChecks)"

definition agent_plan_field :: "json \<Rightarrow> protocol_error + agent_plan" where
  "agent_plan_field v = (case v of
     JStr s \<Rightarrow> (case agent_plan_of s of Some p \<Rightarrow> Inr p | None \<Rightarrow> Inl UnknownPlan)
   | _ \<Rightarrow> Inl UnknownPlan)"

definition result_status ::
  "(pystr \<times> json) list \<Rightarrow> pystr \<Rightarrow> ('a \<Rightarrow> pystr) \<Rightarrow> 'a list \<Rightarrow> 'a \<Rightarrow> protocol_error + 'a" where
  "result_status payload key val members dflt =
     (case field_or payload key (JStr (val dflt)) of
        JStr s \<Rightarrow> (case enum_of val members s of Some m \<Rightarrow> Inr m | None \<Rightarrow> Inl (BadStatus key))
      | _ \<Rightarrow> Inl (BadStatus key))"

definition decode_envelope :: "pystr \<Rightarrow> pystr option \<Rightarrow> protocol_error + (pystr \<times> json) list \<times> pystr" where
  "decode_envelope line expected_kind =
     (case json_loads line of None \<Rightarrow> Inl InvalidJson
      | Some value \<Rightarrow>
          rbind (as_object (Some value) (u ''protocol envelope'')) (\<lambda>message.
          rbind (require (case jget message (u ''version'') of Some v \<Rightarrow> json_eq_int v 1 | None \<Rightarrow> False) BadVersion) (\<lambda>_.
          (case jget message (u ''kind'') of
             Some (JStr kind) \<Rightarrow>
               (if expected_kind \<noteq> None \<and> expected_kind \<noteq> Some kind then Inl (WrongKind kind)
                else Inr (message, kind))
           | _ \<Rightarrow> Inl KindNotString))))"

definition decode_task :: "pystr \<Rightarrow> protocol_error + worker_task" where
  "decode_task line =
     rbind (decode_envelope line (Some (u ''task''))) (\<lambda>(message, _).
     rbind (as_object (jget message (u ''payload'')) (u ''task payload'')) (\<lambda>payload.
     rbind (get_text payload (u ''job_id'') False) (\<lambda>jid.
     rbind (get_text payload (u ''objective'') False) (\<lambda>obj.
     rbind (get_text payload (u ''worker_profile'') False) (\<lambda>prof.
     rbind (text_list (field_or payload (u ''acceptance_criteria'') (JArr []))) (\<lambda>crit.
     rbind (get_optional_text payload (u ''repository_id'')) (\<lambda>repo.
     rbind (get_optional_text payload (u ''starting_revision'')) (\<lambda>rev.
     rbind (agent_plan_field (field_or payload (u ''plan'') (JStr (agent_plan_value FLEX)))) (\<lambda>pl.
     Inr \<lparr>tk_job_id = jid, tk_objective = obj, tk_worker_profile = prof, tk_acceptance_criteria = crit,
          tk_repository_id = repo, tk_starting_revision = rev, tk_plan = pl\<rparr>)))))))))"

datatype worker_message = WEvent night_shift_event | WResult worker_result

definition decode_event_payload ::
  "(pystr \<Rightarrow> time option) \<Rightarrow> (pystr \<times> json) list \<Rightarrow> protocol_error + night_shift_event" where
  "decode_event_payload fromiso payload =
     rbind (get_text payload (u ''created_at'') False) (\<lambda>text.
     (case fromiso text of None \<Rightarrow> Inl (BadTimestamp text)
      | Some created \<Rightarrow>
          rbind (get_text payload (u ''event_id'') False) (\<lambda>eid.
          rbind (get_optional_text payload (u ''job_id'')) (\<lambda>jid.
          rbind (get_text payload (u ''event_type'') False) (\<lambda>typ.
          rbind (get_text payload (u ''actor'') False) (\<lambda>act.
          rbind (as_object (Some (field_or payload (u ''payload'') (JObj []))) (u ''event payload'')) (\<lambda>p.
          Inr \<lparr>ev_type = typ, ev_actor = act, ev_payload = p, ev_job_id = jid, ev_id = eid,
               ev_created_at = created\<rparr>)))))))"

definition decode_result_payload :: "(pystr \<times> json) list \<Rightarrow> protocol_error + worker_result" where
  "decode_result_payload payload =
     rbind (get_text payload (u ''outcome'') False) (\<lambda>oc.
     (case enum_of worker_outcome_value worker_outcomes oc of None \<Rightarrow> Inl (UnknownOutcome oc)
      | Some outc \<Rightarrow>
          rbind (check_list (field_or payload (u ''checks'') (JArr []))) (\<lambda>chk.
          rbind (as_object (Some (field_or payload (u ''metrics'') (JObj []))) (u ''result metrics'')) (\<lambda>met.
          rbind (result_status payload (u ''check_status'') check_status_value check_statuses CK_NOT_RUN) (\<lambda>cs.
          rbind (result_status payload (u ''review_status'') review_status_value review_statuses RV_NOT_REVIEWED) (\<lambda>rs.
          rbind (result_status payload (u ''cleanup_status'') cleanup_status_value cleanup_statuses CL_UNKNOWN) (\<lambda>cl.
          rbind (get_text payload (u ''job_id'') False) (\<lambda>jid.
          rbind (get_text payload (u ''summary'') True) (\<lambda>summ.
          rbind (get_optional_text payload (u ''error'')) (\<lambda>err.
          rbind (text_list (field_or payload (u ''artifacts'') (JArr []))) (\<lambda>arts.
          Inr \<lparr>wr_job_id = jid, wr_outcome = outc, wr_summary = summ, wr_error = err, wr_checks = chk,
               wr_artifacts = arts, wr_metrics = met, wr_check_status = cs, wr_review_status = rs,
               wr_cleanup_status = cl\<rparr>)))))))))))"

definition decode_worker_message ::
  "(pystr \<Rightarrow> time option) \<Rightarrow> pystr \<Rightarrow> protocol_error + worker_message" where
  "decode_worker_message fromiso line =
     rbind (decode_envelope line None) (\<lambda>(message, kind).
     rbind (as_object (jget message (u ''payload'')) (kind @ u '' payload'')) (\<lambda>payload.
     if kind = u ''event'' then rbind (decode_event_payload fromiso payload) (\<lambda>e. Inr (WEvent e))
     else if kind = u ''result'' then rbind (decode_result_payload payload) (\<lambda>r. Inr (WResult r))
     else Inl (UnexpectedKind kind)))"

section \<open>What is encoded is decoded\<close>

lemma map_res_str_item [simp]: "map_res (str_item e) (map JStr ss) = Inr ss"
  by (induction ss) (simp_all add: str_item_def)

lemma map_res_obj_item [simp]: "map_res (obj_item e) (map JObj ds) = Inr ds"
  by (induction ds) (simp_all add: obj_item_def)

lemma get_optional_text_opt_str:
  "jget d k = Some (opt_str x) \<Longrightarrow> get_optional_text d k = Inr x"
  by (cases x) (simp_all add: get_optional_text_def opt_str_def)

lemma envelope_roundtrip:
  assumes "printable False (JObj payload)" and "dicts_ok (JObj payload)"
  shows "decode_envelope (encode_line kind payload) ex =
    (if ex \<noteq> None \<and> ex \<noteq> Some kind then Inl (WrongKind kind)
     else Inr ([(u ''version'', JInt 1), (u ''kind'', JStr kind), (u ''payload'', JObj payload)], kind))"
proof -
  have "json_loads (encode_line kind payload) =
    Some (JObj [(u ''version'', JInt 1), (u ''kind'', JStr kind), (u ''payload'', JObj payload)])"
    unfolding encode_line_def using assms by (intro json_roundtrip) (simp_all add: dict_ok_def)
  then show ?thesis by (simp add: decode_envelope_def as_object_def jget_def)
qed

lemma printable_opt_str [simp]: "printable False (opt_str x)" "dicts_ok (opt_str x)"
  by (cases x; simp add: opt_str_def)+

lemma printable_map_JStr [simp]: "list_all (printable False) (map JStr ss)" "list_all dicts_ok (map JStr ss)"
  by (auto simp: list_all_iff)

definition task_ok :: "worker_task \<Rightarrow> bool" where
  "task_ok t \<longleftrightarrow> tk_job_id t \<noteq> [] \<and> tk_objective t \<noteq> [] \<and> tk_worker_profile t \<noteq> []"

definition event_ok :: "night_shift_event \<Rightarrow> bool" where
  "event_ok e \<longleftrightarrow> ev_id e \<noteq> [] \<and> ev_type e \<noteq> [] \<and> ev_actor e \<noteq> [] \<and>
     printable False (JObj (ev_payload e)) \<and> dicts_ok (JObj (ev_payload e))"

definition result_ok :: "worker_result \<Rightarrow> bool" where
  "result_ok r \<longleftrightarrow> wr_job_id r \<noteq> [] \<and> list_all (\<lambda>d. printable False (JObj d) \<and> dicts_ok (JObj d)) (wr_checks r) \<and>
     printable False (JObj (wr_metrics r)) \<and> dicts_ok (JObj (wr_metrics r))"

lemma worker_outcome_value_not_Nil [simp]: "worker_outcome_value oc \<noteq> []"
  by (cases oc) simp_all

lemma get_text_nonempty [simp]: "get_text p k False \<noteq> Inr []"
  by (auto simp: get_text_def split: option.splits json.splits if_splits)

lemma result_line_roundtrip:
  assumes "result_ok r"
  shows "decode_worker_message fromiso (encode_result r) = Inr (WResult r)"
proof -
  have "list_all (printable False) (map JObj (wr_checks r))" "list_all dicts_ok (map JObj (wr_checks r))"
    using assms by (auto simp: result_ok_def list_all_iff)
  with assms show ?thesis
    by (simp add: decode_worker_message_def encode_result_def envelope_roundtrip dict_ok_def as_object_def
        jget_def get_text_def field_or_def text_list_def get_optional_text_opt_str result_ok_def
        decode_result_payload_def check_list_def result_status_def)
qed

text \<open>
  A task that the orchestrator encodes is decoded by the worker to the same task, field by
  field, whatever characters its texts hold, when its three mandatory texts are not empty.
\<close>

theorem task_roundtrip:
  assumes "task_ok t"
  shows "decode_task (encode_task t) = Inr t"
  using assms
  by (simp add: decode_task_def encode_task_def envelope_roundtrip dict_ok_def as_object_def jget_def
      get_text_def field_or_def text_list_def get_optional_text_opt_str agent_plan_field_def task_ok_def)

theorem task_roundtrip_witness:
  "let t = \<lparr>tk_job_id = u ''j1'', tk_objective = u ''fix'', tk_worker_profile = u ''coding-worker'',
      tk_acceptance_criteria = [u ''tests pass'', []], tk_repository_id = Some (u ''r''),
      tk_starting_revision = None, tk_plan = NORMAL\<rparr>
   in decode_task (encode_task t) = Inr t"
  unfolding Let_def by (rule task_roundtrip) (simp add: task_ok_def)

text \<open>
  A worker's result line, or an event line, is read back by the orchestrator as the same
  result or event, provided \<open>fromisoformat\<close> inverts \<open>isoformat\<close> on the event's time and the
  JSON fields hold no infinite float and no repeated key.
\<close>

theorem worker_message_roundtrip:
  assumes "result_ok r" and "event_ok e"
    and "fromiso (isofmt (ev_created_at e)) = Some (ev_created_at e)" and "isofmt (ev_created_at e) \<noteq> []"
  shows "decode_worker_message fromiso (encode_result r) = Inr (WResult r) \<and>
    decode_worker_message fromiso (encode_event isofmt e) = Inr (WEvent e)"
proof
  show "decode_worker_message fromiso (encode_result r) = Inr (WResult r)"
    by (rule result_line_roundtrip [OF assms(1)])
  show "decode_worker_message fromiso (encode_event isofmt e) = Inr (WEvent e)"
    using assms(2-4)
    by (simp add: decode_worker_message_def encode_event_def envelope_roundtrip dict_ok_def as_object_def
        jget_def get_text_def field_or_def get_optional_text_opt_str event_ok_def decode_event_payload_def)
qed

theorem worker_message_roundtrip_witness:
  "let r = plain_result (u ''j1'') WO_SUBMITTED (u ''done'') None;
       e = \<lparr>ev_type = u ''t'', ev_actor = u ''a'', ev_payload = [(u ''k'', JInt 3)], ev_job_id = None,
            ev_id = u ''e1'', ev_created_at = 7\<rparr>
   in decode_worker_message (\<lambda>s. Some (int_value s)) (encode_result r) = Inr (WResult r) \<and>
      decode_worker_message (\<lambda>s. Some (int_value s)) (encode_event show_int e) = Inr (WEvent e)"
  unfolding Let_def
proof (rule worker_message_roundtrip)
  show "Some (int_value (show_int (ev_created_at \<lparr>ev_type = u ''t'', ev_actor = u ''a'', ev_payload = [(u ''k'', JInt 3)],
      ev_job_id = None, ev_id = u ''e1'', ev_created_at = 7\<rparr>))) = Some (ev_created_at \<lparr>ev_type = u ''t'', ev_actor = u ''a'',
      ev_payload = [(u ''k'', JInt 3)], ev_job_id = None, ev_id = u ''e1'', ev_created_at = 7\<rparr>)"
    by (simp add: show_int_def show_nat.simps int_value_def digits_value_def)
qed (simp_all add: result_ok_def plain_result_def event_ok_def dict_ok_def show_int_def)

text \<open>
  Whatever line the orchestrator is sent, a decoded result names a nonempty job and a
  line of kind \<open>task\<close> (or of any kind other than \<open>event\<close> and \<open>result\<close>) is never accepted
  from a worker.
\<close>

theorem decoded_message_sound:
  assumes "decode_worker_message fromiso line = Inr m"
  shows "\<exists>message kind. decode_envelope line None = Inr (message, kind) \<and> kind \<in> {u ''event'', u ''result''} \<and>
    (case m of WResult r \<Rightarrow> kind = u ''result'' \<and> wr_job_id r \<noteq> []
     | WEvent e \<Rightarrow> kind = u ''event'' \<and> ev_id e \<noteq> [] \<and> ev_type e \<noteq> [] \<and> ev_actor e \<noteq> [])"
proof -
  obtain message kind where d: "decode_envelope line None = Inr (message, kind)"
    using assms by (auto simp: decode_worker_message_def rbind_Inr_iff)
  show ?thesis
    using assms d
    by (auto simp: decode_worker_message_def rbind_Inr_iff decode_result_payload_def
        decode_event_payload_def split: if_splits option.splits)
qed

theorem decoded_message_sound_witness:
  "\<exists>r. decode_worker_message (\<lambda>_. None) (encode_result (plain_result (u ''j'') WO_FAILED [] None)) = Inr r \<and>
     (\<exists>message kind. decode_envelope (encode_result (plain_result (u ''j'') WO_FAILED [] None)) None = Inr (message, kind) \<and>
        kind \<in> {u ''event'', u ''result''})"
proof -
  let ?l = "encode_result (plain_result (u ''j'') WO_FAILED [] None)"
  have d: "decode_worker_message (\<lambda>_. None) ?l = Inr (WResult (plain_result (u ''j'') WO_FAILED [] None))"
    by (rule result_line_roundtrip) (simp add: result_ok_def plain_result_def dict_ok_def)
  from decoded_message_sound [OF d] d show ?thesis by blast
qed

end
