(* ===== verification/Utf8.thy ===== *)
theory Utf8
  imports PyText "HOL-Library.Word"
begin

text \<open>
  \<open>str.encode("utf-8")\<close> and \<open>bytes.decode("utf-8")\<close>.  A byte is an \<open>8 word\<close>.  Encoding
  raises (here \<open>None\<close>) on a surrogate; decoding is strict: it rejects stray continuation
  bytes, overlong forms, surrogates and values above \<open>0x10FFFF\<close>.
\<close>

type_synonym bytes = "8 word list"

definition is_surrogate :: "pychar \<Rightarrow> bool" where
  "is_surrogate c \<longleftrightarrow> 55296 \<le> c \<and> c \<le> 57343"

definition is_scalar :: "pychar \<Rightarrow> bool" where
  "is_scalar c \<longleftrightarrow> c < 1114112 \<and> \<not> is_surrogate c"

definition utf8_char :: "pychar \<Rightarrow> nat list" where
  "utf8_char c =
     (if c < 128 then [c]
      else if c < 2048 then [192 + c div 64, 128 + c mod 64]
      else if c < 65536 then [224 + c div 4096, 128 + (c div 64) mod 64, 128 + c mod 64]
      else [240 + c div 262144, 128 + (c div 4096) mod 64, 128 + (c div 64) mod 64, 128 + c mod 64])"

text \<open>\<open>len(s.encode("utf-8"))\<close>\<close>

definition utf8_len :: "pystr \<Rightarrow> nat" where
  "utf8_len s = sum_list (map (length \<circ> utf8_char) s)"

definition utf8_ok :: "pystr \<Rightarrow> bool" where
  "utf8_ok s = list_all is_scalar s"

definition utf8_encode :: "pystr \<Rightarrow> bytes option" where
  "utf8_encode s = (if utf8_ok s then Some (map word_of_nat (concat (map utf8_char s))) else None)"

definition is_cont :: "nat \<Rightarrow> bool" where
  "is_cont b \<longleftrightarrow> 128 \<le> b \<and> b < 192"

fun utf8_decode_nat :: "nat list \<Rightarrow> pystr option" where
  "utf8_decode_nat [] = Some []"
| "utf8_decode_nat (a # bs) =
     (if a < 128 then map_option ((#) a) (utf8_decode_nat bs)
      else if 194 \<le> a \<and> a < 224 then
        (case bs of
           b # r \<Rightarrow> if is_cont b then map_option ((#) ((a - 192) * 64 + (b - 128))) (utf8_decode_nat r) else None
         | _ \<Rightarrow> None)
      else if 224 \<le> a \<and> a < 240 then
        (case bs of
           b # c # r \<Rightarrow>
             (let v = (a - 224) * 4096 + (b - 128) * 64 + (c - 128)
              in if is_cont b \<and> is_cont c \<and> 2048 \<le> v \<and> is_scalar v
                 then map_option ((#) v) (utf8_decode_nat r) else None)
         | _ \<Rightarrow> None)
      else if 240 \<le> a \<and> a < 245 then
        (case bs of
           b # c # d # r \<Rightarrow>
             (let v = (a - 240) * 262144 + (b - 128) * 4096 + (c - 128) * 64 + (d - 128)
              in if is_cont b \<and> is_cont c \<and> is_cont d \<and> 65536 \<le> v \<and> is_scalar v
                 then map_option ((#) v) (utf8_decode_nat r) else None)
         | _ \<Rightarrow> None)
      else None)"

definition utf8_decode :: "bytes \<Rightarrow> pystr option" where
  "utf8_decode bs = utf8_decode_nat (map unat bs)"

lemma utf8_char_bytes: "is_scalar c \<Longrightarrow> \<forall>b \<in> set (utf8_char c). b < 256"
  by (auto simp: utf8_char_def is_scalar_def)

lemma utf8_char_length: "1 \<le> length (utf8_char c) \<and> length (utf8_char c) \<le> 4"
  by (simp add: utf8_char_def)

lemma utf8_len_Cons [simp]: "utf8_len (c # s) = length (utf8_char c) + utf8_len s"
  by (simp add: utf8_len_def)

lemma utf8_len_Nil [simp]: "utf8_len [] = 0"
  by (simp add: utf8_len_def)

lemma utf8_len_append [simp]: "utf8_len (s @ t) = utf8_len s + utf8_len t"
  by (simp add: utf8_len_def)

lemma length_le_utf8_len: "length s \<le> utf8_len s"
proof (induction s)
  case (Cons c s)
  with utf8_char_length [of c] show ?case by simp
qed simp

lemma div64_div: "(c::nat) div 64 div 64 = c div 4096" "(c::nat) div 4096 div 64 = c div 262144"
  by (simp_all add: div_mult2_eq [symmetric])

lemma nat_split64: "c = (c div 64) * 64 + c mod 64" for c :: nat
  by simp

lemma utf8_decode_char:
  assumes "is_scalar c"
  shows "utf8_decode_nat (utf8_char c @ r) = map_option ((#) c) (utf8_decode_nat r)"
proof -
  consider "c < 128" | "128 \<le> c" "c < 2048" | "2048 \<le> c" "c < 65536" | "65536 \<le> c" by linarith
  then show ?thesis
  proof cases
    case 1
    then show ?thesis by (simp add: utf8_char_def)
  next
    case 2
    then have "194 \<le> 192 + c div 64" "192 + c div 64 < 224" by auto
    with 2 show ?thesis by (simp add: utf8_char_def is_cont_def)
  next
    case 3
    have e: "c div 4096 * 4096 + (c div 64) mod 64 * 64 + c mod 64 = c"
      using nat_split64 [of c] nat_split64 [of "c div 64"] unfolding div64_div by linarith
    from 3 have "224 + c div 4096 < 240" by auto
    with 3 e assms show ?thesis by (simp add: utf8_char_def is_cont_def Let_def)
  next
    case 4
    have e: "c div 262144 * 262144 + (c div 4096) mod 64 * 4096 + (c div 64) mod 64 * 64 + c mod 64 = c"
      using nat_split64 [of c] nat_split64 [of "c div 64"] nat_split64 [of "c div 4096"]
      unfolding div64_div by linarith
    from assms have "240 + c div 262144 < 245" by (auto simp: is_scalar_def)
    with 4 e assms show ?thesis by (simp add: utf8_char_def is_cont_def Let_def)
  qed
qed

lemma utf8_decode_nat_encode: "utf8_ok s \<Longrightarrow> utf8_decode_nat (concat (map utf8_char s)) = Some s"
  by (induction s) (auto simp: utf8_ok_def utf8_decode_char)

lemma utf8_roundtrip: "utf8_encode s = Some bs \<Longrightarrow> utf8_decode bs = Some s"
proof -
  assume e: "utf8_encode s = Some bs"
  then have ok: "utf8_ok s" and bs: "bs = map word_of_nat (concat (map utf8_char s))"
    by (auto simp: utf8_encode_def split: if_splits)
  have "\<forall>b \<in> set (concat (map utf8_char s)). b < 256"
    using ok utf8_char_bytes by (fastforce simp: utf8_ok_def list_all_iff)
  then have "map unat bs = concat (map utf8_char s)"
    unfolding bs map_map by (intro map_idI) (auto simp: unat_of_nat)
  with ok show ?thesis by (simp add: utf8_decode_def utf8_decode_nat_encode)
qed

lemma length_utf8_encode: "utf8_encode s = Some bs \<Longrightarrow> length bs = utf8_len s"
  by (auto simp: utf8_encode_def utf8_len_def length_concat comp_def split: if_splits)

lemma utf8_encode_Some: "utf8_ok s \<Longrightarrow> \<exists>bs. utf8_encode s = Some bs"
  by (simp add: utf8_encode_def)

text \<open>A byte below \<open>0x80\<close> of the encoding is a character of the string itself.\<close>

lemma utf8_char_ascii: "b \<in> set (utf8_char c) \<Longrightarrow> b < 128 \<Longrightarrow> b = c"
  by (auto simp: utf8_char_def split: if_splits)

end
