(* ===== verification/JobStorage.thy ===== *)
theory JobStorage
  imports WorkerProtocol Utf8
begin

text \<open>
  \<open>night_shifts/storage/sqlite.py\<close>: the operational tables (jobs, events, sandboxes, tool calls,
  artifacts).  A table is the list of its rows in the order of insertion; a row is a record of
  the columns as the code binds them, with the JSON columns as text.  A primary-key clash, an
  unknown key and a text that UTF-8 cannot encode are errors.  Timestamps are kept as numbers:
  the ISO text of an aware UTC \<open>datetime\<close> sorts like the time it denotes.  \<open>ORDER BY\<close> is a
  stable sort.  The schema script and its additive migration are SQL, not modelled.
\<close>

datatype storage_error = IntegrityError pystr | UnknownId pystr | EncodeError | BadRow model_error

section \<open>JSON columns\<close>

definition column_json :: "json \<Rightarrow> pystr" where
  "column_json v = dumps False (sort_keys v)"

lemma column_json_loads:
  "printable False v \<Longrightarrow> dicts_ok v \<Longrightarrow> json_loads (column_json v) = Some (sort_keys v)"
  by (simp add: column_json_def json_roundtrip printable_sort_keys dicts_ok_sort_keys)

section \<open>Jobs\<close>

record job_row =
  r_job_id :: pystr
  r_title :: pystr
  r_objective :: pystr
  r_worker_profile :: pystr
  r_plan :: pystr
  r_repository_id :: "pystr option"
  r_starting_revision :: "pystr option"
  r_criteria_json :: pystr
  r_budget_json :: pystr
  r_status :: pystr
  r_created_at :: time
  r_updated_at :: time
  r_cancellation_requested :: int
  r_result_summary :: "pystr option"

definition budget_json :: "job_budget \<Rightarrow> json" where
  "budget_json b = JObj
     [(u ''timeout_seconds'', JInt (timeout_seconds b)),
      (u ''max_tool_calls'', JInt (max_tool_calls b)),
      (u ''max_cost_usd'', max_cost_usd b),
      (u ''max_model_requests'', JInt (max_model_requests b)),
      (u ''max_input_bytes'', JInt (max_input_bytes b)),
      (u ''max_output_bytes'', JInt (max_output_bytes b)),
      (u ''max_output_tokens'', JInt (max_output_tokens b)),
      (u ''max_command_seconds'', JInt (max_command_seconds b))]"

definition job_values :: "night_shift_job \<Rightarrow> job_row" where
  "job_values j = \<lparr>r_job_id = job_id j, r_title = title j, r_objective = objective j,
     r_worker_profile = worker_profile j, r_plan = agent_plan_value (plan j),
     r_repository_id = repository_id j, r_starting_revision = starting_revision j,
     r_criteria_json = column_json (JArr (map JStr (acceptance_criteria j))),
     r_budget_json = column_json (budget_json (budget j)),
     r_status = job_status_value (status j), r_created_at = created_at j, r_updated_at = updated_at j,
     r_cancellation_requested = (if cancellation_requested j then 1 else 0),
     r_result_summary = result_summary j\<rparr>"

definition json_object :: "pystr \<Rightarrow> storage_error + (pystr \<times> json) list" where
  "json_object s = (case json_loads s of Some (JObj d) \<Rightarrow> Inr d | _ \<Rightarrow> Inl (BadRow JsonErr))"

definition json_texts :: "pystr \<Rightarrow> storage_error + pystr list" where
  "json_texts s = (case json_loads s of
     Some (JArr js) \<Rightarrow> map_res (str_item (BadRow JsonErr)) js | _ \<Rightarrow> Inl (BadRow JsonErr))"

definition lift_model :: "model_error + 'a \<Rightarrow> storage_error + 'a" where
  "lift_model x = (case x of Inl e \<Rightarrow> Inl (BadRow e) | Inr y \<Rightarrow> Inr y)"

definition enum_col :: "(pystr \<Rightarrow> 'a option) \<Rightarrow> pystr \<Rightarrow> storage_error + 'a" where
  "enum_col f s = (case f s of None \<Rightarrow> Inl (BadRow (EnumErr s)) | Some x \<Rightarrow> Inr x)"

definition job_from_row :: "job_row \<Rightarrow> storage_error + night_shift_job" where
  "job_from_row r =
     rbind (json_object (r_budget_json r)) (\<lambda>bd.
     rbind (enum_col agent_plan_of (r_plan r)) (\<lambda>pl.
     rbind (json_texts (r_criteria_json r)) (\<lambda>crit.
     rbind (lift_model (make_budget bd)) (\<lambda>b.
     rbind (enum_col job_status_of (r_status r)) (\<lambda>st.
     Inr \<lparr>title = r_title r, objective = r_objective r, worker_profile = r_worker_profile r,
          repository_id = r_repository_id r, starting_revision = r_starting_revision r,
          acceptance_criteria = crit, budget = b, plan = pl, job_id = r_job_id r, status = st,
          created_at = r_created_at r, updated_at = r_updated_at r,
          cancellation_requested = (r_cancellation_requested r \<noteq> 0),
          result_summary = r_result_summary r\<rparr>)))))"

definition opt_utf8_ok :: "pystr option \<Rightarrow> bool" where
  "opt_utf8_ok x = (case x of None \<Rightarrow> True | Some s \<Rightarrow> utf8_ok s)"

text \<open>Binding the row's texts: \<open>sqlite3\<close> raises on a text with a lone surrogate.\<close>

definition job_row_binds :: "job_row \<Rightarrow> bool" where
  "job_row_binds r \<longleftrightarrow> list_all utf8_ok [r_job_id r, r_title r, r_objective r, r_worker_profile r, r_plan r,
      r_criteria_json r, r_budget_json r, r_status r] \<and>
     list_all opt_utf8_ok [r_repository_id r, r_starting_revision r, r_result_summary r]"

definition jobs_create :: "job_row list \<Rightarrow> night_shift_job \<Rightarrow> storage_error + job_row list" where
  "jobs_create rows job =
     (let r = job_values job
      in if \<not> job_row_binds r then Inl EncodeError
         else if r_job_id r \<in> r_job_id ` set rows then Inl (IntegrityError (r_job_id r))
         else Inr (rows @ [r]))"

definition jobs_update :: "job_row list \<Rightarrow> night_shift_job \<Rightarrow> storage_error + job_row list" where
  "jobs_update rows job =
     (let v = job_values job
      in if \<not> job_row_binds v then Inl EncodeError
         else if r_job_id v \<notin> r_job_id ` set rows then Inl (UnknownId (r_job_id v))
         else Inr (map (\<lambda>r. if r_job_id r = r_job_id v then v else r) rows))"

definition jobs_get :: "job_row list \<Rightarrow> pystr \<Rightarrow> storage_error + night_shift_job option" where
  "jobs_get rows i = (case List.find (\<lambda>r. r_job_id r = i) rows of
     None \<Rightarrow> Inr None
   | Some r \<Rightarrow> rbind (job_from_row r) (\<lambda>j. Inr (Some j)))"

definition sql_limit :: "int \<Rightarrow> 'a list \<Rightarrow> 'a list" where
  "sql_limit limit rows = (if 0 < limit then take (nat limit) rows else rows)"

definition jobs_list :: "job_row list \<Rightarrow> int \<Rightarrow> storage_error + night_shift_job list" where
  "jobs_list rows limit = map_res job_from_row (sql_limit limit (sort_key (\<lambda>r. - r_created_at r) rows))"

subsection \<open>A row holds its job\<close>

definition job_ok :: "night_shift_job \<Rightarrow> bool" where
  "job_ok j \<longleftrightarrow> budget_ok (budget j) \<and> printable False (max_cost_usd (budget j))"

lemma field_or_map_of: "map_of d = map_of d' \<Longrightarrow> field_or d k v = field_or d' k v"
  by (simp add: field_or_def)

lemma find_unknown_None:
  "fst ` set d \<subseteq> set budget_fields \<Longrightarrow> List.find (\<lambda>(k, v). k \<notin> set budget_fields) d = None"
  by (auto simp: find_None_iff)

lemma make_budget_cong:
  assumes "map_of d = map_of d'" and "fst ` set d \<subseteq> set budget_fields" and "fst ` set d' \<subseteq> set budget_fields"
  shows "make_budget d = make_budget d'"
  unfolding make_budget_def field_or_map_of [OF assms(1)]
    find_unknown_None [OF assms(2)] find_unknown_None [OF assms(3)] ..

lemma cost_ok_atom: "cost_ok c \<Longrightarrow> sort_keys c = c \<and> dicts_ok c"
  by (cases c) simp_all

lemma lift_model_Inr: "lift_model x = Inr y \<longleftrightarrow> x = Inr y"
  by (cases x) (simp_all add: lift_model_def)

lemma make_budget_json:
  assumes "budget_ok b"
  shows "make_budget (case budget_json b of JObj d \<Rightarrow> d) = Inr b"
  using assms by (simp add: make_budget_def budget_json_def budget_fields_def field_or_def bounded_int_def budget_ok_def)

lemma budget_column:
  assumes "budget_ok b" and "printable False (max_cost_usd b)"
  shows "rbind (json_object (column_json (budget_json b))) (\<lambda>d. lift_model (make_budget d)) = Inr b"
proof -
  obtain ms where ms: "budget_json b = JObj ms" by (simp add: budget_json_def)
  have c: "sort_keys (max_cost_usd b) = max_cost_usd b" "dicts_ok (max_cost_usd b)"
    using cost_ok_atom assms(1) by (auto simp: budget_ok_def)
  have d: "distinct (map fst ms)" using ms by (auto simp: budget_json_def)
  have id: "map (\<lambda>(k, j). (k, sort_keys j)) ms = ms" using ms c by (auto simp: budget_json_def)
  have "printable False (JObj ms)" "dicts_ok (JObj ms)"
    using ms c assms(2) by (auto simp: budget_json_def dict_ok_def)
  then have l: "json_loads (column_json (budget_json b)) = Some (JObj (sort_key fst ms))"
    using id unfolding ms by (simp only: column_json_loads sort_keys.simps)
  have k: "fst ` set ms \<subseteq> set budget_fields" using ms by (auto simp: budget_json_def budget_fields_def)
  have "make_budget (sort_key fst ms) = make_budget ms"
    by (rule make_budget_cong) (use d k in \<open>simp_all add: map_of_sort_key\<close>)
  also have "\<dots> = Inr b" using make_budget_json [OF assms(1)] ms by simp
  finally show ?thesis by (simp add: json_object_def l lift_model_def)
qed

lemma criteria_column: "json_texts (column_json (JArr (map JStr ss))) = Inr ss"
proof -
  have "map sort_keys (map JStr ss) = map JStr ss" by (induction ss) simp_all
  then have "json_loads (column_json (JArr (map JStr ss))) = Some (JArr (map JStr ss))"
    by (simp add: column_json_loads del: map_map)
  then show ?thesis by (simp add: json_texts_def)
qed

lemma job_row_roundtrip: "job_ok j \<Longrightarrow> job_from_row (job_values j) = Inr j"
proof -
  assume j: "job_ok j"
  then obtain d where "json_object (column_json (budget_json (budget j))) = Inr d"
    and "lift_model (make_budget d) = Inr (budget j)"
    using budget_column [of "budget j"] by (auto simp: job_ok_def rbind_Inr_iff)
  then show ?thesis
    by (simp add: job_from_row_def job_values_def criteria_column enum_col_def)
qed

lemma job_from_row_ok: "job_from_row r = Inr j \<Longrightarrow> budget_ok (budget j) \<and> job_id j = r_job_id r"
  by (auto simp: job_from_row_def rbind_Inr_iff lift_model_Inr dest: make_budget_ok)

lemma r_job_id_values [simp]: "r_job_id (job_values j) = job_id j"
  by (simp add: job_values_def)

subsection \<open>The job table as an interface\<close>

text \<open>
  What the service needs of a job store: \<open>get\<close> reads back what \<open>create\<close> and \<open>update\<close> stored
  under that identifier, and leaves every other job as it was.
\<close>

locale job_table =
  fixes create :: "'s \<Rightarrow> night_shift_job \<Rightarrow> storage_error + 's"
    and upd :: "'s \<Rightarrow> night_shift_job \<Rightarrow> storage_error + 's"
    and getj :: "'s \<Rightarrow> pystr \<Rightarrow> storage_error + night_shift_job option"
    and storable :: "night_shift_job \<Rightarrow> bool"
    and sound :: "'s \<Rightarrow> bool"
  assumes create_get: "create s j = Inr s' \<Longrightarrow> storable j \<Longrightarrow>
      getj s' i = (if i = job_id j then Inr (Some j) else getj s i)"
    and create_fresh: "create s j = Inr s' \<Longrightarrow> getj s (job_id j) = Inr None"
    and update_get: "upd s j = Inr s' \<Longrightarrow> storable j \<Longrightarrow>
      getj s' i = (if i = job_id j then Inr (Some j) else getj s i)"
    and update_known: "upd s j = Inr s' \<Longrightarrow> getj s (job_id j) \<noteq> Inr None"
    and get_id: "getj s i = Inr (Some j) \<Longrightarrow> job_id j = i"
    and get_storable: "sound s \<Longrightarrow> getj s i = Inr (Some j) \<Longrightarrow> storable j"
    and create_sound: "create s j = Inr s' \<Longrightarrow> storable j \<Longrightarrow> sound s \<Longrightarrow> sound s'"
    and update_sound: "upd s j = Inr s' \<Longrightarrow> storable j \<Longrightarrow> sound s \<Longrightarrow> sound s'"
begin

text \<open>Creating a job disturbs no job that was there.\<close>

lemma create_keeps:
  assumes "create s j = Inr s'" and "storable j" and "getj s i = Inr (Some k)"
  shows "getj s' i = Inr (Some k)"
  using assms create_get create_fresh by force

text \<open>A read-modify-write of one job changes that job only.\<close>

lemma modify_one:
  assumes "sound s" and "getj s i = Inr (Some j)" and "upd s j' = Inr s'"
    and "job_id j' = job_id j" and "storable j'"
  shows "getj s' i = Inr (Some j') \<and> (\<forall>k. k \<noteq> i \<longrightarrow> getj s' k = getj s k) \<and> sound s'"
  using assms update_get update_sound get_id by metis

end

lemma find_key_None: "List.find (\<lambda>r. f r = k) s = None \<longleftrightarrow> k \<notin> f ` set s"
  by (induction s) auto

lemma find_key_Some: "List.find (\<lambda>r. f r = k) s = Some r \<Longrightarrow> r \<in> set s \<and> f r = k"
  by (induction s) (auto split: if_splits)

lemma find_append: "List.find P (xs @ ys) = (case List.find P xs of None \<Rightarrow> List.find P ys | Some x \<Rightarrow> Some x)"
  by (induction xs) auto

lemma jobs_create_get:
  assumes "jobs_create s j = Inr s'" and "job_ok j"
  shows "jobs_get s' i = (if i = job_id j then Inr (Some j) else jobs_get s i)"
proof -
  from assms(1) have s': "s' = s @ [job_values j]" and fresh: "job_id j \<notin> r_job_id ` set s"
    by (auto simp: jobs_create_def Let_def split: if_splits)
  from fresh have "List.find (\<lambda>r. r_job_id r = job_id j) s = None" by (simp add: find_key_None)
  then show ?thesis
    using job_row_roundtrip [OF assms(2)] by (auto simp: jobs_get_def s' find_append split: option.splits)
qed

lemma jobs_update_get:
  assumes "jobs_update s j = Inr s'" and "job_ok j"
  shows "jobs_get s' i = (if i = job_id j then Inr (Some j) else jobs_get s i)"
proof -
  from assms(1) have s': "s' = map (\<lambda>r. if r_job_id r = job_id j then job_values j else r) s"
    and known: "job_id j \<in> r_job_id ` set s"
    by (auto simp: jobs_update_def Let_def split: if_splits)
  have f: "List.find (\<lambda>r. r_job_id r = i) (map (\<lambda>r. if r_job_id r = job_id j then job_values j else r) t) =
    (if i = job_id j then (if job_id j \<in> r_job_id ` set t then Some (job_values j) else None)
     else List.find (\<lambda>r. r_job_id r = i) t)" for t
    by (induction t) auto
  show ?thesis
    using job_row_roundtrip [OF assms(2)] known by (simp add: jobs_get_def s' f)
qed

text \<open>Every row of a sound table is the image of a storable job.\<close>

definition jobs_sound :: "job_row list \<Rightarrow> bool" where
  "jobs_sound rows \<longleftrightarrow> (\<forall>r \<in> set rows. \<exists>j. job_ok j \<and> r = job_values j)"

lemma jobs_sound_Nil [simp]: "jobs_sound []"
  by (simp add: jobs_sound_def)

lemma jobs_get_row: "jobs_get s i = Inr (Some j) \<Longrightarrow> \<exists>r \<in> set s. r_job_id r = i \<and> job_from_row r = Inr j"
  by (auto simp: jobs_get_def rbind_Inr_iff split: option.splits dest!: find_key_Some)

interpretation jt: job_table jobs_create jobs_update jobs_get job_ok jobs_sound
proof unfold_locales
  show "job_ok j" if "jobs_sound s" "jobs_get s i = Inr (Some j)" for s i j
    using that jobs_get_row job_row_roundtrip by (fastforce simp: jobs_sound_def)
  show "jobs_sound s'" if "jobs_create s j = Inr s'" "job_ok j" "jobs_sound s" for s j s'
    using that by (auto simp: jobs_create_def Let_def jobs_sound_def split: if_splits)
  show "jobs_sound s'" if "jobs_update s j = Inr s'" "job_ok j" "jobs_sound s" for s j s'
    using that by (auto simp: jobs_update_def Let_def jobs_sound_def split: if_splits)
  show "jobs_get s (job_id j) = Inr None" if "jobs_create s j = Inr s'" for s s' j
  proof -
    from that have "job_id j \<notin> r_job_id ` set s" by (auto simp: jobs_create_def Let_def split: if_splits)
    then have "List.find (\<lambda>r. r_job_id r = job_id j) s = None" by (simp only: find_key_None simp_thms)
    then show ?thesis by (simp add: jobs_get_def)
  qed
  show "jobs_get s (job_id j) \<noteq> Inr None" if "jobs_update s j = Inr s'" for s s' j
  proof -
    from that have "job_id j \<in> r_job_id ` set s" by (auto simp: jobs_update_def Let_def split: if_splits)
    then obtain r where "List.find (\<lambda>r. r_job_id r = job_id j) s = Some r"
      by (cases "List.find (\<lambda>r. r_job_id r = job_id j) s") (auto simp: find_key_None)
    then show ?thesis by (cases "job_from_row r") (simp_all add: jobs_get_def)
  qed
  show "job_id j = i" if "jobs_get s i = Inr (Some j)" for s i j
    using that by (auto simp: jobs_get_def rbind_Inr_iff split: option.splits dest!: job_from_row_ok find_key_Some)
qed (rule jobs_create_get jobs_update_get; assumption)+

end
