(* ===== verification/OpsStorage.thy ===== *)
theory OpsStorage
  imports JobStorage
begin

text \<open>
  The other tables of \<open>night_shifts/storage/sqlite.py\<close>: the append-only event trail, the
  sandbox records, the redacted tool-call audit with its expiry, and the artifact index.
  \<open>int((completed - started).total_seconds() * 1000)\<close> is float arithmetic: it is the
  parameter \<open>millis\<close> of \<open>calls_complete\<close>.
\<close>

section \<open>Events\<close>

record event_row =
  er_id :: pystr
  er_job_id :: "pystr option"
  er_type :: pystr
  er_actor :: pystr
  er_payload_json :: pystr
  er_created_at :: time

definition event_values :: "night_shift_event \<Rightarrow> event_row" where
  "event_values e = \<lparr>er_id = ev_id e, er_job_id = ev_job_id e, er_type = ev_type e, er_actor = ev_actor e,
     er_payload_json = column_json (JObj (ev_payload e)), er_created_at = ev_created_at e\<rparr>"

definition event_row_binds :: "event_row \<Rightarrow> bool" where
  "event_row_binds r \<longleftrightarrow> list_all utf8_ok [er_id r, er_type r, er_actor r, er_payload_json r] \<and> opt_utf8_ok (er_job_id r)"

definition events_append :: "event_row list \<Rightarrow> night_shift_event \<Rightarrow> storage_error + event_row list" where
  "events_append rows e =
     (let r = event_values e
      in if \<not> event_row_binds r then Inl EncodeError
         else if er_id r \<in> er_id ` set rows then Inl (IntegrityError (er_id r))
         else Inr (rows @ [r]))"

definition event_from_row :: "event_row \<Rightarrow> storage_error + night_shift_event" where
  "event_from_row r = rbind (json_object (er_payload_json r)) (\<lambda>p.
     Inr \<lparr>ev_type = er_type r, ev_actor = er_actor r, ev_payload = p, ev_job_id = er_job_id r,
          ev_id = er_id r, ev_created_at = er_created_at r\<rparr>)"

definition events_list :: "event_row list \<Rightarrow> pystr option \<Rightarrow> int \<Rightarrow> storage_error + night_shift_event list" where
  "events_list rows job limit = map_res event_from_row (sql_limit limit
     (sort_key er_created_at (filter (\<lambda>r. job = None \<or> er_job_id r = job) rows)))"

section \<open>Sandboxes\<close>

record sandbox_row =
  sr_id :: pystr
  sr_job_id :: pystr
  sr_backend :: pystr
  sr_external_id :: "pystr option"
  sr_status :: pystr
  sr_spec_json :: pystr
  sr_created_at :: time
  sr_updated_at :: time
  sr_last_error :: "pystr option"

definition spec_json :: "sandbox_spec \<Rightarrow> json" where
  "spec_json s = JObj [(u ''cpu_count'', JInt (cpu_count s)), (u ''memory_mb'', JInt (memory_mb s)),
     (u ''disk_gb'', JInt (disk_gb s)), (u ''network_enabled'', JBool (network_enabled s))]"

definition sandbox_values :: "sandbox_record \<Rightarrow> sandbox_row" where
  "sandbox_values s = \<lparr>sr_id = sb_sandbox_id s, sr_job_id = sb_job_id s, sr_backend = sb_backend s,
     sr_external_id = sb_external_id s, sr_status = sandbox_status_value (sb_status s),
     sr_spec_json = column_json (spec_json (sb_spec s)), sr_created_at = sb_created_at s,
     sr_updated_at = sb_updated_at s, sr_last_error = sb_last_error s\<rparr>"

text \<open>
  \<open>SandboxSpec(**d)\<close> on the columns the code writes: three integers and a Boolean, with
  the defaults of the dataclass for absent fields.
\<close>

definition int_of_json :: "json \<Rightarrow> int option" where
  "int_of_json j = (case j of JInt n \<Rightarrow> Some n | _ \<Rightarrow> None)"

definition spec_of_dict :: "(pystr \<times> json) list \<Rightarrow> storage_error + sandbox_spec" where
  "spec_of_dict d =
     (case (int_of_json (field_or d (u ''cpu_count'') (JInt 2)), int_of_json (field_or d (u ''memory_mb'') (JInt 4096)),
            int_of_json (field_or d (u ''disk_gb'') (JInt 20)), field_or d (u ''network_enabled'') (JBool False)) of
        (Some c, Some m, Some g, JBool n) \<Rightarrow> lift_model (make_sandbox_spec c m g n)
      | _ \<Rightarrow> Inl (BadRow JsonErr))"

definition sandbox_from_row :: "sandbox_row \<Rightarrow> storage_error + sandbox_record" where
  "sandbox_from_row r =
     rbind (enum_col sandbox_status_of (sr_status r)) (\<lambda>st.
     rbind (json_object (sr_spec_json r)) (\<lambda>d.
     rbind (spec_of_dict d) (\<lambda>sp.
     Inr \<lparr>sb_job_id = sr_job_id r, sb_backend = sr_backend r, sb_spec = sp, sb_sandbox_id = sr_id r,
          sb_external_id = sr_external_id r, sb_status = st, sb_created_at = sr_created_at r,
          sb_updated_at = sr_updated_at r, sb_last_error = sr_last_error r\<rparr>)))"

definition sandbox_row_binds :: "sandbox_row \<Rightarrow> bool" where
  "sandbox_row_binds r \<longleftrightarrow> list_all utf8_ok [sr_id r, sr_job_id r, sr_backend r, sr_status r, sr_spec_json r] \<and>
     list_all opt_utf8_ok [sr_external_id r, sr_last_error r]"

definition sandboxes_create :: "sandbox_row list \<Rightarrow> sandbox_record \<Rightarrow> storage_error + sandbox_row list" where
  "sandboxes_create rows s =
     (let r = sandbox_values s
      in if \<not> sandbox_row_binds r then Inl EncodeError
         else if sr_id r \<in> sr_id ` set rows then Inl (IntegrityError (sr_id r))
         else Inr (rows @ [r]))"

definition sandboxes_update :: "sandbox_row list \<Rightarrow> sandbox_record \<Rightarrow> storage_error + sandbox_row list" where
  "sandboxes_update rows s =
     (let v = sandbox_values s
      in if \<not> sandbox_row_binds v then Inl EncodeError
         else if sr_id v \<notin> sr_id ` set rows then Inl (UnknownId (sr_id v))
         else Inr (map (\<lambda>r. if sr_id r = sr_id v then v else r) rows))"

definition sandboxes_get :: "sandbox_row list \<Rightarrow> pystr \<Rightarrow> storage_error + sandbox_record option" where
  "sandboxes_get rows i = (case List.find (\<lambda>r. sr_id r = i) rows of
     None \<Rightarrow> Inr None
   | Some r \<Rightarrow> rbind (sandbox_from_row r) (\<lambda>s. Inr (Some s)))"

definition sandboxes_list :: "sandbox_row list \<Rightarrow> pystr option \<Rightarrow> storage_error + sandbox_record list" where
  "sandboxes_list rows job = map_res sandbox_from_row
     (sort_key sr_created_at (filter (\<lambda>r. job = None \<or> Some (sr_job_id r) = job) rows))"

section \<open>Tool calls\<close>

definition sensitive_keys :: "pystr list" where
  "sensitive_keys = [u ''api_key'', u ''apikey'', u ''authorization'', u ''cookie'', u ''password'', u ''secret'', u ''token'']"

fun redact :: "json \<Rightarrow> json" where
  "redact (JObj ms) = JObj (map (\<lambda>(k, v). (k, if lower k \<in> set sensitive_keys then JStr (u ''[REDACTED]'') else redact v)) ms)"
| "redact (JArr js) = JArr (map redact js)"
| "redact j = j"

definition preview_limit :: nat where
  "preview_limit = 4000"

text \<open>The cut text ends in a horizontal ellipsis (U+2026) and \<open>[truncated]\<close>.\<close>

definition preview :: "pystr option \<Rightarrow> pystr option" where
  "preview v = (case v of None \<Rightarrow> None
     | Some s \<Rightarrow> (if length s \<le> preview_limit then Some s else Some (take preview_limit s @ 8230 # u ''[truncated]'')))"

record call_row =
  cr_call_id :: pystr
  cr_job_id :: "pystr option"
  cr_session_id :: "pystr option"
  cr_agent_profile :: pystr
  cr_tool_name :: pystr
  cr_arguments_json :: pystr
  cr_status :: pystr
  cr_started_at :: time
  cr_completed_at :: "time option"
  cr_duration_ms :: "int option"
  cr_result_preview :: "pystr option"
  cr_error :: "pystr option"
  cr_expires_at :: time

definition call_values :: "tool_call_record \<Rightarrow> call_row" where
  "call_values c = \<lparr>cr_call_id = tc_call_id c, cr_job_id = tc_job_id c, cr_session_id = tc_session_id c,
     cr_agent_profile = tc_agent_profile c, cr_tool_name = tc_tool_name c,
     cr_arguments_json = column_json (redact (JObj (tc_arguments c))),
     cr_status = tool_call_status_value (tc_status c), cr_started_at = tc_started_at c,
     cr_completed_at = tc_completed_at c, cr_duration_ms = tc_duration_ms c,
     cr_result_preview = preview (tc_result_preview c), cr_error = preview (tc_error c),
     cr_expires_at = tc_expires_at c\<rparr>"

definition call_row_binds :: "call_row \<Rightarrow> bool" where
  "call_row_binds r \<longleftrightarrow> list_all utf8_ok [cr_call_id r, cr_agent_profile r, cr_tool_name r, cr_arguments_json r, cr_status r] \<and>
     list_all opt_utf8_ok [cr_job_id r, cr_session_id r, cr_result_preview r, cr_error r]"

definition calls_start :: "call_row list \<Rightarrow> tool_call_record \<Rightarrow> storage_error + call_row list \<times> pystr" where
  "calls_start rows c =
     (let r = call_values c
      in if \<not> call_row_binds r then Inl EncodeError
         else if cr_call_id r \<in> cr_call_id ` set rows then Inl (IntegrityError (cr_call_id r))
         else Inr (rows @ [r], tc_call_id c))"

definition calls_complete ::
  "(int \<Rightarrow> int) \<Rightarrow> call_row list \<Rightarrow> pystr \<Rightarrow> tool_call_status \<Rightarrow> pystr option \<Rightarrow> pystr option \<Rightarrow> time
     \<Rightarrow> storage_error + call_row list" where
  "calls_complete millis rows i st result err completed =
     (case List.find (\<lambda>r. cr_call_id r = i) rows of
        None \<Rightarrow> Inl (UnknownId i)
      | Some row \<Rightarrow>
          (let d = max 0 (millis (completed - cr_started_at row))
           in if \<not> (opt_utf8_ok (preview result) \<and> opt_utf8_ok (preview err)) then Inl EncodeError
              else Inr (map (\<lambda>r. if cr_call_id r = i
                then r\<lparr>cr_status := tool_call_status_value st, cr_completed_at := Some completed,
                       cr_duration_ms := Some d, cr_result_preview := preview result, cr_error := preview err\<rparr>
                else r) rows)))"

definition call_from_row :: "call_row \<Rightarrow> storage_error + tool_call_record" where
  "call_from_row r =
     rbind (json_object (cr_arguments_json r)) (\<lambda>args.
     rbind (enum_col tool_call_status_of (cr_status r)) (\<lambda>st.
     Inr \<lparr>tc_tool_name = cr_tool_name r, tc_arguments = args, tc_agent_profile = cr_agent_profile r,
          tc_call_id = cr_call_id r, tc_job_id = cr_job_id r, tc_session_id = cr_session_id r,
          tc_status = st, tc_started_at = cr_started_at r, tc_completed_at = cr_completed_at r,
          tc_duration_ms = cr_duration_ms r, tc_result_preview = cr_result_preview r,
          tc_error = cr_error r, tc_expires_at = cr_expires_at r\<rparr>))"

definition calls_list_recent :: "call_row list \<Rightarrow> pystr option \<Rightarrow> int \<Rightarrow> storage_error + tool_call_record list" where
  "calls_list_recent rows job limit = map_res call_from_row (sql_limit limit
     (sort_key (\<lambda>r. - cr_started_at r) (filter (\<lambda>r. job = None \<or> cr_job_id r = job) rows)))"

definition calls_purge_expired :: "call_row list \<Rightarrow> time \<Rightarrow> call_row list \<times> nat" where
  "calls_purge_expired rows now =
     (filter (\<lambda>r. \<not> cr_expires_at r \<le> now) rows, length (filter (\<lambda>r. cr_expires_at r \<le> now) rows))"

section \<open>Artifacts\<close>

record artifact_record =
  af_id :: pystr
  af_job_id :: pystr
  af_kind :: pystr
  af_path :: pystr
  af_content_type :: "pystr option"
  af_size_bytes :: "int option"
  af_sha256 :: "pystr option"
  af_created_at :: time

definition artifact_binds :: "artifact_record \<Rightarrow> bool" where
  "artifact_binds a \<longleftrightarrow> list_all utf8_ok [af_id a, af_job_id a, af_kind a, af_path a] \<and>
     list_all opt_utf8_ok [af_content_type a, af_sha256 a]"

definition artifacts_add :: "artifact_record list \<Rightarrow> artifact_record \<Rightarrow> storage_error + artifact_record list" where
  "artifacts_add rows a =
     (if \<not> artifact_binds a then Inl EncodeError
      else if af_id a \<in> af_id ` set rows then Inl (IntegrityError (af_id a))
      else Inr (rows @ [a]))"

definition artifacts_list :: "artifact_record list \<Rightarrow> pystr \<Rightarrow> artifact_record list" where
  "artifacts_list rows job = sort_key af_created_at (filter (\<lambda>a. af_job_id a = job) rows)"

section \<open>The event trail and the audit log\<close>

lemma events_append_Inr:
  "events_append rows e = Inr rows' \<longleftrightarrow>
     event_row_binds (event_values e) \<and> ev_id e \<notin> er_id ` set rows \<and> rows' = rows @ [event_values e]"
  by (auto simp: events_append_def Let_def event_values_def)

lemma event_row_roundtrip:
  "printable False (JObj (ev_payload e)) \<Longrightarrow> dicts_ok (JObj (ev_payload e)) \<Longrightarrow>
   \<exists>p. event_from_row (event_values e) = Inr (e\<lparr>ev_payload := p\<rparr>) \<and> JObj p = sort_keys (JObj (ev_payload e))"
  using column_json_loads [of "JObj (ev_payload e)"] by (simp add: event_from_row_def event_values_def json_object_def)

text \<open>No value stored under a sensitive key survives, at any depth.\<close>

fun leaks :: "json \<Rightarrow> bool" where
  "leaks (JObj ms) = list_ex (\<lambda>(k, v). (lower k \<in> set sensitive_keys \<and> v \<noteq> JStr (u ''[REDACTED]'')) \<or> leaks v) ms"
| "leaks (JArr js) = list_ex leaks js"
| "leaks j = False"

lemma redact_no_leak: "\<not> leaks (redact j)"
  by (induction j rule: redact.induct) (auto simp: list_ex_iff split: if_splits)

lemma leaks_sort_keys: "leaks (sort_keys j) = leaks j"
proof (induction j rule: sort_keys.induct)
  case (2 ms)
  have e: "sort_keys v = JStr s \<longleftrightarrow> v = JStr s" for v s by (cases v) simp_all
  have "leaks (sort_keys (JObj ms)) \<longleftrightarrow> (\<exists>p \<in> set ms. (lower (fst p) \<in> set sensitive_keys \<and>
      sort_keys (snd p) \<noteq> JStr (u ''[REDACTED]'')) \<or> leaks (sort_keys (snd p)))"
    by (auto simp: list_ex_iff split_beta)
  also have "\<dots> \<longleftrightarrow> (\<exists>p \<in> set ms. (lower (fst p) \<in> set sensitive_keys \<and> snd p \<noteq> JStr (u ''[REDACTED]'')) \<or> leaks (snd p))"
    using 2 by (intro bex_cong refl) (auto simp: e)
  finally show ?case by (simp add: list_ex_iff split_beta)
qed (auto simp: list_ex_iff)

lemma redact_ok:
  "printable False j \<Longrightarrow> printable False (redact j)" "dicts_ok j \<Longrightarrow> dicts_ok (redact j)"
proof (induction j rule: redact.induct)
  case (1 ms)
  { case 1
    with "1.IH"(1) show ?case by (fastforce simp: list_all_iff)
  next
    case 2
    have "map fst (map (\<lambda>(k, v). (k, if lower k \<in> set sensitive_keys then JStr (u ''[REDACTED]'') else redact v)) ms)
      = map fst ms" by auto
    with 2 "1.IH"(2) show ?case by (fastforce simp: list_all_iff dict_ok_def comp_def split_beta) }
qed (auto simp: list_all_iff)

lemma length_preview: "preview v = Some s \<Longrightarrow> length s \<le> preview_limit + 12"
  by (auto simp: preview_def preview_limit_def split: option.splits if_splits)

text \<open>
  Whatever arguments a tool is called with, the audit row that \<open>start\<close> writes holds no value
  under a sensitive key (compared without regard to case, at any depth), keeps its previews
  within 4012 characters, and reads back as a record with the same identity.
\<close>

theorem audit_row_redacted:
  assumes "calls_start rows c = Inr (rows', i)"
    and "printable False (JObj (tc_arguments c))" and "dicts_ok (JObj (tc_arguments c))"
  shows "\<exists>row rec. rows' = rows @ [row] \<and> cr_call_id row = i \<and> i \<notin> cr_call_id ` set rows \<and>
    call_from_row row = Inr rec \<and> tc_call_id rec = i \<and> \<not> leaks (JObj (tc_arguments rec)) \<and>
    (\<forall>s. cr_result_preview row = Some s \<or> cr_error row = Some s \<longrightarrow> length s \<le> 4012)"
proof -
  let ?j = "redact (JObj (tc_arguments c))"
  have l: "json_loads (column_json ?j) = Some (sort_keys ?j)"
    using assms(2,3) by (intro column_json_loads redact_ok)
  obtain d where d: "sort_keys ?j = JObj d" by simp
  have "\<not> leaks (JObj d)" using redact_no_leak [of "JObj (tc_arguments c)"] leaks_sort_keys [of ?j] d by simp
  with assms(1) l d show ?thesis
    by (auto simp: calls_start_def Let_def call_from_row_def call_values_def json_object_def enum_col_def
        preview_limit_def dest!: length_preview split: if_splits)
qed

theorem audit_row_redacted_witness:
  "let c = \<lparr>tc_tool_name = u ''http_get'', tc_arguments = [(u ''Api_Key'', JStr (u ''k'')), (u ''x'', JObj [(u ''token'', JInt 1)])],
      tc_agent_profile = u ''head'', tc_call_id = u ''c1'', tc_job_id = None, tc_session_id = None,
      tc_status = TC_RUNNING, tc_started_at = 0, tc_completed_at = None, tc_duration_ms = None,
      tc_result_preview = None, tc_error = None, tc_expires_at = 9\<rparr>
   in \<exists>row rec. [call_values c] = [] @ [row] \<and> cr_call_id row = u ''c1'' \<and> u ''c1'' \<notin> cr_call_id ` set ([] :: call_row list) \<and>
    call_from_row row = Inr rec \<and> tc_call_id rec = u ''c1'' \<and> \<not> leaks (JObj (tc_arguments rec)) \<and>
    (\<forall>s. cr_result_preview row = Some s \<or> cr_error row = Some s \<longrightarrow> length s \<le> 4012)"
proof -
  let ?c = "\<lparr>tc_tool_name = u ''http_get'', tc_arguments = [(u ''Api_Key'', JStr (u ''k'')), (u ''x'', JObj [(u ''token'', JInt 1)])],
      tc_agent_profile = u ''head'', tc_call_id = u ''c1'', tc_job_id = None, tc_session_id = None,
      tc_status = TC_RUNNING, tc_started_at = 0, tc_completed_at = None, tc_duration_ms = None,
      tc_result_preview = None, tc_error = None, tc_expires_at = 9\<rparr> :: tool_call_record"
  have "calls_start [] ?c = Inr ([call_values ?c], u ''c1'')" by code_simp
  moreover have "printable False (JObj (tc_arguments ?c))" "dicts_ok (JObj (tc_arguments ?c))"
    by (simp_all add: dict_ok_def)
  ultimately show ?thesis unfolding Let_def by (rule audit_row_redacted)
qed

text \<open>
  Purging removes exactly the audit rows whose expiry is not after the given time, reports
  how many, keeps the order of the others, and purging again at that time removes nothing.
\<close>

theorem purge_expired_exact:
  shows "fst (calls_purge_expired rows now) = filter (\<lambda>r. now < cr_expires_at r) rows \<and>
    length rows = length (fst (calls_purge_expired rows now)) + snd (calls_purge_expired rows now) \<and>
    calls_purge_expired (fst (calls_purge_expired rows now)) now = (fst (calls_purge_expired rows now), 0)"
proof -
  have f: "(\<lambda>r. \<not> cr_expires_at r \<le> now) = (\<lambda>r. now < cr_expires_at r)" by (auto simp: fun_eq_iff)
  have "length (filter (\<lambda>r. now < cr_expires_at r) rows) + length (filter (\<lambda>r. cr_expires_at r \<le> now) rows) = length rows"
    using sum_length_filter_compl [of "\<lambda>r. now < cr_expires_at r" rows] by (simp add: not_less)
  then show ?thesis by (simp add: calls_purge_expired_def f filter_empty_conv)
qed

end
