(* ===== verification/JobService.thy ===== *)
theory JobService
  imports OpsStorage
begin

text \<open>
  \<open>night_shifts/service.py\<close>: the service that owns job mutation and the event trail.  The state
  is the job table, the event table and the number of identifiers and clock readings drawn so
  far; \<open>ids\<close> and \<open>clock\<close> give the n-th \<open>uuid4().hex\<close> and \<open>utc_now()\<close>,
  \<open>uni\<close> the Unicode printability \<open>repr\<close> consults.  Each store call is its
  own transaction: an error in the second leaves the first in place.  A worker backend is a
  parameter: it may change the tables (other actors run meanwhile) and returns a result or
  raises, with the text of the exception.
\<close>

record svc =
  sv_jobs :: "job_row list"
  sv_events :: "event_row list"
  sv_ticks :: nat

datatype service_error =
    StorageFailed storage_error
  | InvalidTransition transition_error
  | UnknownJob pystr
  | TerminalJob pystr

type_synonym 'a svc_act = "(svc, service_error, 'a) act"

record svc_env =
  ids :: "nat \<Rightarrow> pystr"
  clock :: "nat \<Rightarrow> time"
  uni :: "pychar \<Rightarrow> bool"

definition tick :: "(nat \<Rightarrow> 'a) \<Rightarrow> 'a svc_act" where
  "tick f = (\<lambda>s. (s\<lparr>sv_ticks := Suc (sv_ticks s)\<rparr>, Inr (f (sv_ticks s))))"

definition store_jobs :: "(job_row list \<Rightarrow> storage_error + job_row list) \<Rightarrow> unit svc_act" where
  "store_jobs f = (\<lambda>s. case f (sv_jobs s) of
     Inl e \<Rightarrow> (s, Inl (StorageFailed e)) | Inr t \<Rightarrow> (s\<lparr>sv_jobs := t\<rparr>, Inr ()))"

definition append_event ::
  "svc_env \<Rightarrow> pystr \<Rightarrow> pystr \<Rightarrow> pystr \<Rightarrow> (pystr \<times> json) list \<Rightarrow> unit svc_act" where
  "append_event env jid typ act payload =
     abind (tick (\<lambda>n. (ids env n, clock env n))) (\<lambda>(eid, now).
     (\<lambda>s. case events_append (sv_events s) \<lparr>ev_type = typ, ev_actor = act, ev_payload = payload,
            ev_job_id = Some jid, ev_id = eid, ev_created_at = now\<rparr> of
         Inl e \<Rightarrow> (s, Inl (StorageFailed e)) | Inr t \<Rightarrow> (s\<lparr>sv_events := t\<rparr>, Inr ())))"

definition require_job :: "pystr \<Rightarrow> night_shift_job svc_act" where
  "require_job jid = (\<lambda>s. (s, case jobs_get (sv_jobs s) jid of
     Inl e \<Rightarrow> Inl (StorageFailed e) | Inr None \<Rightarrow> Inl (UnknownJob jid) | Inr (Some j) \<Rightarrow> Inr j))"

definition svc_create :: "svc_env \<Rightarrow> night_shift_job \<Rightarrow> pystr \<Rightarrow> night_shift_job svc_act" where
  "svc_create env job act =
     abind (store_jobs (\<lambda>t. jobs_create t job)) (\<lambda>_.
     abind (append_event env (job_id job) (u ''job_created'') act
       [(u ''status'', JStr (job_status_value (status job))),
        (u ''worker_profile'', JStr (worker_profile job)),
        (u ''plan'', JStr (agent_plan_value (plan job)))]) (\<lambda>_.
     ret job))"

text \<open>\<open>{"from": ..., "to": ..., **(payload or {})}\<close>\<close>

definition transition_payload :: "job_status \<Rightarrow> job_status \<Rightarrow> (pystr \<times> json) list \<Rightarrow> (pystr \<times> json) list" where
  "transition_payload previous target payload =
     fold (\<lambda>(k, v). dput k v) payload
       [(u ''from'', JStr (job_status_value previous)), (u ''to'', JStr (job_status_value target))]"

definition svc_transition ::
  "svc_env \<Rightarrow> pystr \<Rightarrow> job_status \<Rightarrow> pystr \<Rightarrow> (pystr \<times> json) list \<Rightarrow> pystr option \<Rightarrow> night_shift_job svc_act" where
  "svc_transition env jid target act payload summary =
     abind (require_job jid) (\<lambda>job.
     case validate_transition (status job) target of
       Inl e \<Rightarrow> throw (InvalidTransition e)
     | Inr _ \<Rightarrow>
         abind (tick (clock env)) (\<lambda>now.
         let updated = job\<lparr>status := target, updated_at := now,
               result_summary := (if summary \<noteq> None then summary else result_summary job)\<rparr> in
         abind (store_jobs (\<lambda>t. jobs_update t updated)) (\<lambda>_.
         abind (append_event env jid (u ''job_status_changed'') act
           (transition_payload (status job) target payload)) (\<lambda>_.
         ret updated))))"

definition svc_request_cancellation :: "svc_env \<Rightarrow> pystr \<Rightarrow> pystr \<Rightarrow> night_shift_job svc_act" where
  "svc_request_cancellation env jid act =
     abind (require_job jid) (\<lambda>job.
     if status job \<in> {JS_FAILED, JS_CANCELLED, JS_REJECTED, JS_MERGED} then throw (TerminalJob jid)
     else
       abind (tick (clock env)) (\<lambda>now.
       let updated = job\<lparr>cancellation_requested := True, updated_at := now\<rparr> in
       abind (store_jobs (\<lambda>t. jobs_update t updated)) (\<lambda>_.
       abind (append_event env jid (u ''cancellation_requested'') act
         [(u ''status'', JStr (job_status_value (status job)))]) (\<lambda>_.
       ret updated))))"

text \<open>The status a worker's outcome leads to.\<close>

fun outcome_target :: "worker_outcome \<Rightarrow> job_status" where
  "outcome_target WO_SUCCESS = JS_COMPLETED"
| "outcome_target WO_SUBMITTED = JS_COMPLETED"
| "outcome_target WO_BLOCKED = JS_FAILED"
| "outcome_target WO_CANCELLED = JS_CANCELLED"
| "outcome_target WO_TIMED_OUT = JS_FAILED"
| "outcome_target WO_FAILED = JS_FAILED"

definition result_payload :: "worker_result \<Rightarrow> (pystr \<times> json) list" where
  "result_payload r = [(u ''outcome'', JStr (worker_outcome_value (wr_outcome r))), (u ''error'', opt_str (wr_error r)),
     (u ''check_status'', JStr (check_status_value (wr_check_status r))),
     (u ''review_status'', JStr (review_status_value (wr_review_status r))),
     (u ''cleanup_status'', JStr (cleanup_status_value (wr_cleanup_status r)))]"

type_synonym backend = "worker_task \<Rightarrow> int \<Rightarrow> svc \<Rightarrow> svc \<times> (pystr + worker_result)"

text \<open>The \<open>try\<close> around the backend and the check that the result is for this job.\<close>

definition run_backend :: "svc_env \<Rightarrow> backend \<Rightarrow> pystr \<Rightarrow> night_shift_job \<Rightarrow> worker_result svc_act" where
  "run_backend env backend jid running = (\<lambda>s.
     let (s', out) = backend (task_from_job running) (timeout_seconds (budget running)) s;
         r = (case out of
                Inl msg \<Rightarrow> plain_result jid WO_FAILED (u ''Worker backend raised an exception.'') (Some msg)
              | Inr r \<Rightarrow> r);
         r' = (if wr_job_id r \<noteq> jid
               then plain_result jid WO_FAILED (u ''Worker backend returned a result for a different job.'')
                      (Some (u ''Expected job '' @ py_repr (uni env) jid @ u '', received '' @ py_repr (uni env) (wr_job_id r)))
               else r)
     in (s', Inr r'))"

definition svc_run_local :: "svc_env \<Rightarrow> pystr \<Rightarrow> backend \<Rightarrow> worker_result svc_act" where
  "svc_run_local env jid backend =
     abind (require_job jid) (\<lambda>job.
     if cancellation_requested job then
       abind (svc_transition env jid JS_CANCELLED (u ''orchestrator'') [] None) (\<lambda>_.
       ret (plain_result jid WO_CANCELLED (u ''Job was cancelled before worker startup.'') None))
     else if max_cost_usd (budget job) \<noteq> JNull then
       (let r = plain_result jid WO_BLOCKED (u ''Strict USD budget cannot be enforced by this runner.'')
                  (Some (u ''No trusted pre-call pricing and retry-aware reservation'')) in
        abind (svc_transition env jid JS_FAILED (u ''orchestrator'') (result_payload r) (Some (wr_summary r))) (\<lambda>_.
        ret r))
     else
       abind (svc_transition env jid JS_PROVISIONING (u ''orchestrator'') [] None) (\<lambda>_.
       abind (svc_transition env jid JS_RUNNING (u ''orchestrator'') [] None) (\<lambda>running.
       abind (run_backend env backend jid running) (\<lambda>r.
       abind (svc_transition env jid (outcome_target (wr_outcome r)) (u ''orchestrator'') (result_payload r)
                (Some (wr_summary r))) (\<lambda>_.
       ret r)))))"

section \<open>Jobs only move along the life cycle\<close>

definition svc_sound :: "svc \<Rightarrow> bool" where
  "svc_sound s \<longleftrightarrow> jobs_sound (sv_jobs s)"

definition status_step :: "job_status \<Rightarrow> job_status \<Rightarrow> bool" where
  "status_step s t \<longleftrightarrow> t \<in> set (allowed_transitions s)"

text \<open>
  \<open>evolves s s'\<close>: no job has disappeared, every job's status is reachable from the one it had,
  and the event trail has only grown.
\<close>

definition evolves :: "svc \<Rightarrow> svc \<Rightarrow> bool" where
  "evolves s s' \<longleftrightarrow> (svc_sound s \<longrightarrow> svc_sound s' \<and>
     (\<forall>i j. jobs_get (sv_jobs s) i = Inr (Some j) \<longrightarrow>
        (\<exists>j'. jobs_get (sv_jobs s') i = Inr (Some j') \<and> status_step\<^sup>*\<^sup>* (status j) (status j'))) \<and>
     (\<exists>new. sv_events s' = sv_events s @ new))"

lemma reflp_evolves [simp]: "reflp evolves"
  by (rule reflpI) (auto simp: evolves_def)

lemma transp_evolves [simp]: "transp evolves"
proof (rule transpI)
  fix s1 s2 s3 assume "evolves s1 s2" and "evolves s2 s3"
  then show "evolves s1 s3"
    unfolding evolves_def by (metis append.assoc rtranclp_trans)
qed

lemma keeps_tick [inv_intros]: "keeps evolves (tick f)"
  by (auto simp: keeps_def tick_def evolves_def svc_sound_def)

lemma keeps_require_job [inv_intros]: "keeps evolves (require_job i)"
  by (auto simp: keeps_def require_job_def evolves_def)

lemma keeps_append_event [inv_intros]: "keeps evolves (append_event env jid typ act p)"
  unfolding append_event_def
  by (intro inv_intros transp_evolves)
    (auto simp: keeps_def evolves_def svc_sound_def events_append_Inr split: sum.splits)

lemma keeps_create_job:
  assumes "job_ok job"
  shows "keeps evolves (store_jobs (\<lambda>t. jobs_create t job))"
proof (rule keepsI)
  fix s s' r assume m: "store_jobs (\<lambda>t. jobs_create t job) s = (s', r)"
  show "evolves s s'"
  proof (cases "jobs_create (sv_jobs s) job")
    case (Inl e)
    with m have "s' = s" by (simp add: store_jobs_def)
    then show ?thesis using reflp_evolves by (blast dest: reflpD)
  next
    case (Inr t)
    with m have "s' = s\<lparr>sv_jobs := t\<rparr>" by (simp add: store_jobs_def)
    then show ?thesis
      using jt.create_keeps [OF Inr assms] jt.create_sound [OF Inr assms]
      by (auto simp: evolves_def svc_sound_def)
  qed
qed

text \<open>Storing a changed copy of a job read from the table.\<close>

lemma store_update_evolves:
  assumes "jobs_get (sv_jobs s) i = Inr (Some j)" and "jobs_update (sv_jobs s) j' = Inr t"
    and "job_id j' = job_id j" and "budget j' = budget j" and "status_step\<^sup>*\<^sup>* (status j) (status j')"
  shows "evolves s (s\<lparr>sv_jobs := t\<rparr>)"
  unfolding evolves_def
proof (intro impI)
  assume s: "svc_sound s"
  then have j': "job_ok j'"
    using jt.get_storable [OF _ assms(1)] assms(4) by (simp add: job_ok_def svc_sound_def)
  have m: "jobs_get t i = Inr (Some j')" "jobs_sound t"
    "\<And>k. k \<noteq> i \<Longrightarrow> jobs_get t k = jobs_get (sv_jobs s) k"
    using jt.modify_one [OF s [unfolded svc_sound_def] assms(1,2,3) j'] by auto
  have "\<exists>k'. jobs_get t l = Inr (Some k') \<and> status_step\<^sup>*\<^sup>* (status k) (status k')"
    if "jobs_get (sv_jobs s) l = Inr (Some k)" for l k
    using that m(1) m(3) [of l] assms(1,5) by (cases "l = i") auto
  with m(2) show "svc_sound (s\<lparr>sv_jobs := t\<rparr>) \<and>
    (\<forall>l k. jobs_get (sv_jobs s) l = Inr (Some k) \<longrightarrow>
       (\<exists>k'. jobs_get (sv_jobs (s\<lparr>sv_jobs := t\<rparr>)) l = Inr (Some k') \<and> status_step\<^sup>*\<^sup>* (status k) (status k'))) \<and>
    (\<exists>new. sv_events (s\<lparr>sv_jobs := t\<rparr>) = sv_events s @ new)"
    by (simp add: svc_sound_def)
qed

text \<open>The two read-modify-write operations, unfolded down to their store calls.\<close>

definition finish_update ::
  "svc_env \<Rightarrow> pystr \<Rightarrow> pystr \<Rightarrow> pystr \<Rightarrow> (pystr \<times> json) list \<Rightarrow> (time \<Rightarrow> night_shift_job) \<Rightarrow> night_shift_job svc_act" where
  "finish_update env jid typ act payload f =
     abind (tick (clock env)) (\<lambda>now.
     abind (store_jobs (\<lambda>t. jobs_update t (f now))) (\<lambda>_.
     abind (append_event env jid typ act payload) (\<lambda>_.
     ret (f now))))"

lemma svc_transition_unfold:
  "svc_transition env jid target act payload summary s =
   (case jobs_get (sv_jobs s) jid of
      Inl e \<Rightarrow> (s, Inl (StorageFailed e))
    | Inr None \<Rightarrow> (s, Inl (UnknownJob jid))
    | Inr (Some job) \<Rightarrow>
        (if status_step (status job) target
         then finish_update env jid (u ''job_status_changed'') act (transition_payload (status job) target payload)
                (\<lambda>now. job\<lparr>status := target, updated_at := now,
                   result_summary := (if summary \<noteq> None then summary else result_summary job)\<rparr>) s
         else (s, Inl (InvalidTransition (InvalidJobTransition (status job) target)))))"
  by (auto simp: svc_transition_def require_job_def abind_eq finish_update_def validate_transition_def
      status_step_def Let_def split: sum.splits option.splits)

lemma svc_request_cancellation_unfold:
  "svc_request_cancellation env jid act s =
   (case jobs_get (sv_jobs s) jid of
      Inl e \<Rightarrow> (s, Inl (StorageFailed e))
    | Inr None \<Rightarrow> (s, Inl (UnknownJob jid))
    | Inr (Some job) \<Rightarrow>
        (if status job \<in> {JS_FAILED, JS_CANCELLED, JS_REJECTED, JS_MERGED} then (s, Inl (TerminalJob jid))
         else finish_update env jid (u ''cancellation_requested'') act
                [(u ''status'', JStr (job_status_value (status job)))]
                (\<lambda>now. job\<lparr>cancellation_requested := True, updated_at := now\<rparr>) s))"
  by (auto simp: svc_request_cancellation_def require_job_def abind_eq finish_update_def Let_def
      split: sum.splits option.splits)

lemma finish_update_evolves:
  assumes "jobs_get (sv_jobs s) i = Inr (Some j)"
    and "\<And>now. job_id (f now) = job_id j \<and> budget (f now) = budget j \<and> status_step\<^sup>*\<^sup>* (status j) (status (f now))"
  shows "evolves s (fst (finish_update env jid typ act payload f s))"
proof -
  let ?s1 = "s\<lparr>sv_ticks := Suc (sv_ticks s)\<rparr>" and ?j' = "f (clock env (sv_ticks s))"
  have s1: "evolves s ?s1" by (auto simp: evolves_def svc_sound_def)
  show ?thesis
  proof (cases "jobs_update (sv_jobs s) ?j'")
    case (Inl e)
    then show ?thesis using s1 by (simp add: finish_update_def tick_def store_jobs_def abind_def)
  next
    case (Inr t)
    have "evolves ?s1 (?s1\<lparr>sv_jobs := t\<rparr>)"
      by (rule store_update_evolves [where i = i and j = j and j' = ?j']) (use assms Inr in simp_all)
    moreover have "keeps evolves (abind (append_event env jid typ act payload) (\<lambda>_. ret ?j'))"
      by (intro inv_intros transp_evolves reflp_evolves)
    then have "evolves (?s1\<lparr>sv_jobs := t\<rparr>) (fst (abind (append_event env jid typ act payload) (\<lambda>_. ret ?j') (?s1\<lparr>sv_jobs := t\<rparr>)))"
      by (simp add: keeps_def)
    moreover have "finish_update env jid typ act payload f s =
      abind (append_event env jid typ act payload) (\<lambda>_. ret ?j') (?s1\<lparr>sv_jobs := t\<rparr>)"
      using Inr by (simp add: finish_update_def tick_def store_jobs_def abind_def)
    ultimately show ?thesis using s1 transp_evolves by (metis transpD)
  qed
qed

lemma keeps_svc_transition [inv_intros]: "keeps evolves (svc_transition env jid target act payload summary)"
  by (auto simp: keeps_def svc_transition_unfold reflp_evolves [THEN reflpD]
      intro!: finish_update_evolves split: sum.splits option.splits)

lemma keeps_svc_request_cancellation [inv_intros]: "keeps evolves (svc_request_cancellation env jid act)"
  by (auto simp: keeps_def svc_request_cancellation_unfold reflp_evolves [THEN reflpD]
      intro!: finish_update_evolves split: sum.splits option.splits)

lemma keeps_svc_create [inv_intros]: "job_ok job \<Longrightarrow> keeps evolves (svc_create env job act)"
  unfolding svc_create_def by (intro inv_intros transp_evolves reflp_evolves keeps_create_job)

lemma keeps_run_backend [inv_intros]:
  "(\<And>t n s. evolves s (fst (backend t n s))) \<Longrightarrow> keeps evolves (run_backend env backend jid running)"
  by (auto simp: keeps_def run_backend_def Let_def split_beta)

lemma keeps_svc_run_local [inv_intros]:
  "(\<And>t n s. evolves s (fst (backend t n s))) \<Longrightarrow> keeps evolves (svc_run_local env jid backend)"
  unfolding svc_run_local_def Let_def by (intro inv_intros transp_evolves reflp_evolves)

section \<open>Properties\<close>

text \<open>The calls a client makes, and a sequence of them, each continuing after an error.\<close>

datatype svc_call =
    CallCreate night_shift_job pystr
  | CallTransition pystr job_status pystr "(pystr \<times> json) list" "pystr option"
  | CallCancel pystr pystr
  | CallRun pystr backend

fun svc_apply :: "svc_env \<Rightarrow> svc_call \<Rightarrow> svc \<Rightarrow> svc" where
  "svc_apply env (CallCreate job act) s = fst (svc_create env job act s)"
| "svc_apply env (CallTransition i t act p m) s = fst (svc_transition env i t act p m s)"
| "svc_apply env (CallCancel i act) s = fst (svc_request_cancellation env i act s)"
| "svc_apply env (CallRun i b) s = fst (svc_run_local env i b s)"

fun call_ok :: "svc_call \<Rightarrow> bool" where
  "call_ok (CallCreate job act) = job_ok job"
| "call_ok (CallRun i b) = (\<forall>t n s. evolves s (fst (b t n s)))"
| "call_ok _ = True"

lemma svc_call_evolves: "call_ok c \<Longrightarrow> evolves s (svc_apply env c s)"
  using keeps_svc_create keeps_svc_transition keeps_svc_request_cancellation keeps_svc_run_local
  by (cases c) (auto simp: keeps_def)

lemma svc_calls_evolve: "list_all call_ok cs \<Longrightarrow> evolves s (fold (svc_apply env) cs s)"
proof (induction cs arbitrary: s)
  case Nil
  then show ?case by (simp add: reflp_evolves [THEN reflpD])
next
  case (Cons c cs)
  then have "evolves s (svc_apply env c s)" and "evolves (svc_apply env c s) (fold (svc_apply env) cs (svc_apply env c s))"
    by (simp_all add: svc_call_evolves)
  then show ?case using transpD [OF transp_evolves] by fastforce
qed

lemma finish_update_Inr:
  assumes "svc_sound s" and "jobs_get (sv_jobs s) i = Inr (Some j)"
    and "\<And>now. job_id (f now) = job_id j \<and> budget (f now) = budget j"
    and "finish_update env i typ act payload f s = (s', Inr j')"
  shows "j' = f (clock env (sv_ticks s)) \<and> svc_sound s' \<and> jobs_get (sv_jobs s') i = Inr (Some j') \<and>
     (\<forall>k. k \<noteq> i \<longrightarrow> jobs_get (sv_jobs s') k = jobs_get (sv_jobs s) k) \<and>
     (\<exists>e. sv_events s' = sv_events s @ [event_values e] \<and> ev_type e = typ \<and> ev_actor e = act \<and>
        ev_payload e = payload \<and> ev_job_id e = Some i)"
proof -
  from assms(4) obtain t where t: "jobs_update (sv_jobs s) (f (clock env (sv_ticks s))) = Inr t"
    and j': "j' = f (clock env (sv_ticks s))" and s't: "sv_jobs s' = t"
    and ev: "\<exists>e. sv_events s' = sv_events s @ [event_values e] \<and> ev_type e = typ \<and> ev_actor e = act \<and>
        ev_payload e = payload \<and> ev_job_id e = Some i"
    by (fastforce simp: finish_update_def abind_Inr_iff tick_def store_jobs_def append_event_def
        events_append_Inr split: sum.splits)
  have "job_ok j'"
    using jt.get_storable [OF _ assms(2)] assms(1,3) by (simp add: j' job_ok_def svc_sound_def)
  with t assms(1,2,3) have "jobs_get t i = Inr (Some j') \<and> (\<forall>k. k \<noteq> i \<longrightarrow> jobs_get t k = jobs_get (sv_jobs s) k) \<and> jobs_sound t"
    unfolding svc_sound_def j' by (intro jt.modify_one) simp_all
  with s't ev show ?thesis by (simp add: j' svc_sound_def)
qed

lemma finish_update_Inl: "finish_update env i typ act payload f s = (s', Inl e) \<Longrightarrow> \<exists>x. e = StorageFailed x"
  by (auto simp: finish_update_def abind_def tick_def store_jobs_def append_event_def split: sum.splits)


text \<open>Provisioning, then running: both succeed from a queued job unless a store call fails.\<close>

lemma svc_transition_ok:
  assumes "svc_sound s" and "jobs_get (sv_jobs s) i = Inr (Some j)" and "status_step (status j) t"
  shows "case svc_transition env i t act p m s of
      (s', Inr j') \<Rightarrow> svc_sound s' \<and> jobs_get (sv_jobs s') i = Inr (Some j') \<and> status j' = t \<and> job_id j' = job_id j \<and>
        result_summary j' = (if m \<noteq> None then m else result_summary j)
    | (s', Inl e) \<Rightarrow> \<exists>x. e = StorageFailed x"
proof -
  let ?f = "\<lambda>now. j\<lparr>status := t, updated_at := now, result_summary := (if m \<noteq> None then m else result_summary j)\<rparr>"
  have e: "svc_transition env i t act p m s =
      finish_update env i (u ''job_status_changed'') act (transition_payload (status j) t p) ?f s"
    using assms(2,3) by (simp add: svc_transition_unfold)
  obtain s' r where r: "svc_transition env i t act p m s = (s', r)" by (cases "svc_transition env i t act p m s")
  show ?thesis
  proof (cases r)
    case (Inl x)
    have f: "finish_update env i (u ''job_status_changed'') act (transition_payload (status j) t p) ?f s = (s', Inl x)"
      using r unfolding e Inl .
    from finish_update_Inl [OF f] show ?thesis unfolding r Inl by simp
  next
    case (Inr j')
    have f: "finish_update env i (u ''job_status_changed'') act (transition_payload (status j) t p) ?f s = (s', Inr j')"
      using r unfolding e Inr .
    have "j' = ?f (clock env (sv_ticks s)) \<and> svc_sound s' \<and> jobs_get (sv_jobs s') i = Inr (Some j')"
      using finish_update_Inr [OF assms(1,2) _ f] by simp
    then show ?thesis unfolding r Inr by simp
  qed
qed

text \<open>What \<open>run_local\<close> asks of a backend: it leaves this job's row alone and the table readable.\<close>

definition minds_own_job :: "backend \<Rightarrow> pystr \<Rightarrow> bool" where
  "minds_own_job b i \<longleftrightarrow> (\<forall>t n s. svc_sound s \<longrightarrow> svc_sound (fst (b t n s)) \<and>
     jobs_get (sv_jobs (fst (b t n s))) i = jobs_get (sv_jobs s) i)"

text \<open>A concrete table with one job, used by the instances below.\<close>

definition sample_budget :: job_budget where
  "sample_budget = \<lparr>timeout_seconds = 60, max_tool_calls = 5, max_cost_usd = JNull, max_model_requests = 4,
     max_input_bytes = 1000, max_output_bytes = 1000, max_output_tokens = 100, max_command_seconds = 10\<rparr>"

definition sample_job :: "job_status \<Rightarrow> bool \<Rightarrow> night_shift_job" where
  "sample_job st c = \<lparr>title = u ''t'', objective = u ''o'', worker_profile = u ''coding-worker'', repository_id = None,
     starting_revision = None, acceptance_criteria = [u ''works''], budget = sample_budget, plan = NORMAL,
     job_id = u ''j1'', status = st, created_at = 1, updated_at = 1, cancellation_requested = c,
     result_summary = None\<rparr>"

definition sample_svc :: "job_status \<Rightarrow> bool \<Rightarrow> svc" where
  "sample_svc st c = \<lparr>sv_jobs = [job_values (sample_job st c)], sv_events = [], sv_ticks = 0\<rparr>"

definition sample_env :: svc_env where
  "sample_env = \<lparr>ids = (\<lambda>n. u ''e'' @ show_nat n), clock = (\<lambda>n. int n + 2), uni = (\<lambda>_. False)\<rparr>"

definition sample_backend :: backend where
  "sample_backend = (\<lambda>t n s. (s, Inr (plain_result (tk_job_id t) WO_SUBMITTED (u ''done'') None)))"

lemma sample_facts:
  "svc_sound (sample_svc st c)" "jobs_get (sv_jobs (sample_svc st c)) (u ''j1'') = Inr (Some (sample_job st c))"
  "call_ok (CallRun (u ''j1'') sample_backend)" "minds_own_job sample_backend i"
proof -
  have ok: "job_ok (sample_job st c)" by (simp add: job_ok_def sample_job_def sample_budget_def budget_ok_def)
  show "svc_sound (sample_svc st c)" using ok by (auto simp: svc_sound_def jobs_sound_def sample_svc_def)
  show "jobs_get (sv_jobs (sample_svc st c)) (u ''j1'') = Inr (Some (sample_job st c))"
    using job_row_roundtrip [OF ok] by (simp add: jobs_get_def sample_svc_def) (simp add: sample_job_def)
qed (simp_all add: sample_backend_def minds_own_job_def reflp_evolves [THEN reflpD])

text \<open>
  C33: whatever clients do (any sequence of service calls, failing or not, with backends that
  themselves act through the service), no job is lost, every job's status is one the life
  cycle allows from the status it had, and the event trail is only appended to.
\<close>

theorem service_calls_follow_life_cycle:
  assumes "svc_sound s" and "list_all call_ok calls"
    and "jobs_get (sv_jobs s) i = Inr (Some j)" and "s' = fold (svc_apply env) calls s"
  shows "svc_sound s' \<and> (\<exists>j'. jobs_get (sv_jobs s') i = Inr (Some j') \<and> status_step\<^sup>*\<^sup>* (status j) (status j')) \<and>
     (\<exists>new. sv_events s' = sv_events s @ new)"
  using svc_calls_evolve [OF assms(2), of s env] assms(1,3) unfolding evolves_def assms(4) by blast

theorem service_calls_follow_life_cycle_witness:
  "let s' = fold (svc_apply sample_env) [CallRun (u ''j1'') sample_backend, CallCancel (u ''j1'') (u ''head'')]
              (sample_svc JS_QUEUED False)
   in svc_sound s' \<and> (\<exists>j'. jobs_get (sv_jobs s') (u ''j1'') = Inr (Some j') \<and>
        status_step\<^sup>*\<^sup>* (status (sample_job JS_QUEUED False)) (status j')) \<and>
     (\<exists>new. sv_events s' = sv_events (sample_svc JS_QUEUED False) @ new)"
  unfolding Let_def
  by (rule service_calls_follow_life_cycle [OF _ _ _ refl]) (use sample_facts in simp_all)

text \<open>
  A transition the service accepts stores exactly the changed job (every other job reads
  back as before) and appends exactly one event that names the job, the actor and both
  statuses; one the life cycle forbids, or for an unknown job, changes nothing at all.
\<close>

theorem svc_transition_effect:
  assumes "svc_sound s" and "svc_transition env i target act payload summary s = (s', r)"
  shows "case r of
      Inr j' \<Rightarrow> (\<exists>j e. jobs_get (sv_jobs s) i = Inr (Some j) \<and> target \<in> set (allowed_transitions (status j)) \<and>
        j' = j\<lparr>status := target, updated_at := clock env (sv_ticks s),
               result_summary := (if summary \<noteq> None then summary else result_summary j)\<rparr> \<and>
        jobs_get (sv_jobs s') i = Inr (Some j') \<and>
        (\<forall>k. k \<noteq> i \<longrightarrow> jobs_get (sv_jobs s') k = jobs_get (sv_jobs s) k) \<and>
        sv_events s' = sv_events s @ [event_values e] \<and> ev_type e = u ''job_status_changed'' \<and>
        ev_actor e = act \<and> ev_job_id e = Some i \<and> ev_payload e = transition_payload (status j) target payload)
    | Inl (InvalidTransition (InvalidJobTransition a b)) \<Rightarrow> s' = s \<and> b = target \<and> b \<notin> set (allowed_transitions a)
    | Inl (UnknownJob k) \<Rightarrow> s' = s \<and> k = i \<and> jobs_get (sv_jobs s) i = Inr None
    | Inl (StorageFailed x) \<Rightarrow> True
    | Inl (TerminalJob k) \<Rightarrow> False"
proof (cases "jobs_get (sv_jobs s) i")
  case (Inl e)
  then show ?thesis using assms(2) by (auto simp: svc_transition_unfold)
next
  case (Inr oj)
  show ?thesis
  proof (cases oj)
    case None
    then show ?thesis using Inr assms(2) by (auto simp: svc_transition_unfold)
  next
    case (Some j)
    let ?f = "\<lambda>now. j\<lparr>status := target, updated_at := now,
      result_summary := (if summary \<noteq> None then summary else result_summary j)\<rparr>"
    show ?thesis
    proof (cases "status_step (status j) target")
      case False
      then show ?thesis using Inr Some assms(2) by (auto simp: svc_transition_unfold status_step_def)
    next
      case True
      then have f: "finish_update env i (u ''job_status_changed'') act (transition_payload (status j) target payload) ?f s = (s', r)"
        using Inr Some assms(2) by (simp add: svc_transition_unfold)
      show ?thesis
      proof (cases r)
        case (Inl e)
        with f obtain x where "e = StorageFailed x" using finish_update_Inl by blast
        with Inl show ?thesis by simp
      next
        case (Inr j')
        with f finish_update_Inr [OF assms(1), of i j ?f] Some \<open>jobs_get (sv_jobs s) i = Inr oj\<close> True
        show ?thesis by (fastforce simp: status_step_def)
      qed
    qed
  qed
qed

theorem svc_transition_effect_witness:
  "\<exists>s' j' e. svc_transition sample_env (u ''j1'') JS_PROVISIONING (u ''o'') [] None (sample_svc JS_QUEUED False) = (s', Inr j') \<and>
     status j' = JS_PROVISIONING \<and> sv_events s' = [event_values e] \<and> ev_job_id e = Some (u ''j1'')"
proof -
  obtain s' r where t: "svc_transition sample_env (u ''j1'') JS_PROVISIONING (u ''o'') [] None (sample_svc JS_QUEUED False) = (s', r)"
    by (cases "svc_transition sample_env (u ''j1'') JS_PROVISIONING (u ''o'') [] None (sample_svc JS_QUEUED False)")
  have "\<not> isl (snd (svc_transition sample_env (u ''j1'') JS_PROVISIONING (u ''o'') [] None (sample_svc JS_QUEUED False)))"
    by code_simp
  then obtain j' where "r = Inr j'" unfolding t by (cases r) auto
  with svc_transition_effect [OF sample_facts(1) t] show ?thesis
    using t by (fastforce simp: sample_svc_def)
qed

text \<open>
  A job cancelled before it starts, or with a USD budget, never reaches the backend.
\<close>

theorem unstartable_job_never_reaches_backend:
  assumes "jobs_get (sv_jobs s) i = Inr (Some j)" and "cancellation_requested j \<or> max_cost_usd (budget j) \<noteq> JNull"
  shows "svc_run_local env i b s = svc_run_local env i b' s"
  using assms by (auto simp: svc_run_local_def abind_def require_job_def Let_def)


theorem unstartable_job_never_reaches_backend_witness:
  "svc_run_local sample_env (u ''j1'') sample_backend (sample_svc JS_QUEUED True) =
   svc_run_local sample_env (u ''j1'') (\<lambda>t n s. (s, Inl (u ''boom''))) (sample_svc JS_QUEUED True)"
  by (rule unstartable_job_never_reaches_backend [OF sample_facts(2)]) (simp add: sample_job_def)

lemma run_backend_job:
  assumes "run_backend env b i running s = (s', Inr r)"
  shows "wr_job_id r = i" and "s' = fst (b (task_from_job running) (timeout_seconds (budget running)) s)"
  using assms by (auto simp: run_backend_def Let_def plain_result_def split: prod.splits sum.splits if_splits)

lemma run_backend_never_fails: "snd (run_backend env b i running s) \<noteq> Inl e"
  by (auto simp: run_backend_def Let_def split: prod.splits)

lemma step_provisioning: "status_step JS_QUEUED JS_PROVISIONING" "status_step JS_PROVISIONING JS_RUNNING"
  "status_step JS_RUNNING (outcome_target w)"
  by (cases w; simp add: status_step_def)+

text \<open>One transition in the middle of \<open>run_local\<close>: the rest runs on the stored job.\<close>

lemma svc_transition_then:
  assumes "svc_sound s" and "jobs_get (sv_jobs s) i = Inr (Some j)" and "status_step (status j) t"
    and "\<And>s' j'. svc_sound s' \<Longrightarrow> jobs_get (sv_jobs s') i = Inr (Some j') \<Longrightarrow> status j' = t \<Longrightarrow>
       result_summary j' = (if m \<noteq> None then m else result_summary j) \<Longrightarrow>
       case f j' s' of (s2, Inr y) \<Rightarrow> P s2 y | (s2, Inl e) \<Rightarrow> \<exists>x. e = StorageFailed x"
  shows "case abind (svc_transition env i t act p m) f s of
      (s2, Inr y) \<Rightarrow> P s2 y | (s2, Inl e) \<Rightarrow> \<exists>x. e = StorageFailed x"
proof -
  obtain s1 q where q: "svc_transition env i t act p m s = (s1, q)" by (cases "svc_transition env i t act p m s")
  have ok: "case (s1, q) of
      (s', Inr j') \<Rightarrow> svc_sound s' \<and> jobs_get (sv_jobs s') i = Inr (Some j') \<and> status j' = t \<and> job_id j' = job_id j \<and>
        result_summary j' = (if m \<noteq> None then m else result_summary j)
    | (s', Inl e) \<Rightarrow> \<exists>x. e = StorageFailed x"
    using svc_transition_ok [where env = env and act = act and p = p and m = m, OF assms(1-3)] unfolding q .
  show ?thesis
  proof (cases q)
    case (Inl e)
    with ok show ?thesis by (simp add: abind_def q)
  next
    case (Inr j')
    with ok have "case f j' s1 of (s2, Inr y) \<Rightarrow> P s2 y | (s2, Inl e) \<Rightarrow> \<exists>x. e = StorageFailed x"
      by (intro assms(4)) auto
    with Inr show ?thesis by (simp only: abind_def q prod.case sum.case)
  qed
qed

text \<open>
  Running a queued job ends with a result for that job, and the job is stored in the
  status its outcome stands for, with the worker's summary, whatever the backend returned or
  raised; only a failing store call can prevent it.
\<close>

theorem run_local_persists_outcome:
  assumes "svc_sound s" and "jobs_get (sv_jobs s) i = Inr (Some j)" and "status j = JS_QUEUED"
    and "\<not> cancellation_requested j" and "max_cost_usd (budget j) = JNull" and "minds_own_job b i"
  shows "case svc_run_local env i b s of
      (s', Inr r) \<Rightarrow> wr_job_id r = i \<and> (\<exists>j'. jobs_get (sv_jobs s') i = Inr (Some j') \<and>
         status j' = outcome_target (wr_outcome r) \<and> result_summary j' = Some (wr_summary r))
    | (s', Inl e) \<Rightarrow> \<exists>x. e = StorageFailed x"
proof -
  let ?P = "\<lambda>s' r. wr_job_id r = i \<and> (\<exists>j'. jobs_get (sv_jobs s') i = Inr (Some j') \<and>
         status j' = outcome_target (wr_outcome r) \<and> result_summary j' = Some (wr_summary r))"
  let ?last = "\<lambda>r. abind (svc_transition env i (outcome_target (wr_outcome r)) (u ''orchestrator'') (result_payload r)
                (Some (wr_summary r))) (\<lambda>_. ret r)"
  have last: "case abind (run_backend env b i k) ?last s2 of
      (s', Inr r) \<Rightarrow> ?P s' r | (s', Inl e) \<Rightarrow> \<exists>x. e = StorageFailed x"
    if s2: "svc_sound s2" "jobs_get (sv_jobs s2) i = Inr (Some k)" "status k = JS_RUNNING" for s2 k
  proof -
    obtain s3 q where q: "run_backend env b i k s2 = (s3, q)" by (cases "run_backend env b i k s2")
    then obtain r where r: "q = Inr r" using run_backend_never_fails [of env b i k s2] by (cases q) auto
    have id: "wr_job_id r = i"
      and s3: "s3 = fst (b (task_from_job k) (timeout_seconds (budget k)) s2)"
      using run_backend_job q r by blast+
    have "svc_sound s3 \<and> jobs_get (sv_jobs s3) i = Inr (Some k)"
      using assms(6) s2(1,2) unfolding s3 minds_own_job_def by metis
    then have "case ?last r s3 of (s', Inr r) \<Rightarrow> ?P s' r | (s', Inl e) \<Rightarrow> \<exists>x. e = StorageFailed x"
      by (intro svc_transition_then [where j = k]) (use id s2(3) step_provisioning in auto)
    then show ?thesis unfolding abind_def [of "run_backend env b i k"] by (simp only: q r prod.case sum.case)
  qed
  have "svc_run_local env i b s =
      abind (svc_transition env i JS_PROVISIONING (u ''orchestrator'') [] None) (\<lambda>_.
      abind (svc_transition env i JS_RUNNING (u ''orchestrator'') [] None) (\<lambda>k.
      abind (run_backend env b i k) ?last)) s"
    using assms(2,4,5) by (simp add: svc_run_local_def abind_def require_job_def)
  moreover have "case abind (svc_transition env i JS_PROVISIONING (u ''orchestrator'') [] None) (\<lambda>_.
      abind (svc_transition env i JS_RUNNING (u ''orchestrator'') [] None) (\<lambda>k.
      abind (run_backend env b i k) ?last)) s of
        (s', Inr r) \<Rightarrow> ?P s' r | (s', Inl e) \<Rightarrow> \<exists>x. e = StorageFailed x"
    using assms(1-3) step_provisioning
    by (intro svc_transition_then [where j = j] svc_transition_then last) auto
  ultimately show ?thesis by simp
qed

theorem run_local_persists_outcome_witness:
  "case svc_run_local sample_env (u ''j1'') sample_backend (sample_svc JS_QUEUED False) of
      (s', Inr r) \<Rightarrow> wr_job_id r = u ''j1'' \<and> (\<exists>j'. jobs_get (sv_jobs s') (u ''j1'') = Inr (Some j') \<and>
         status j' = outcome_target (wr_outcome r) \<and> result_summary j' = Some (wr_summary r))
    | (s', Inl e) \<Rightarrow> \<exists>x. e = StorageFailed x"
  by (rule run_local_persists_outcome [where j = "sample_job JS_QUEUED False"])
    (use sample_facts in \<open>simp_all add: sample_job_def sample_budget_def\<close>)

end
