(* ===== verification/PrivTurn.thy ===== *)
theory PrivTurn
  imports Json Utf8
begin

text \<open>
  \<open>runtime/privileged_turn.py\<close>: the volatile authorization of one head turn and the approval of
  each privileged request.  Every method takes the object's lock, so a method is one atomic
  step; its clock readings, the new \<open>uuid4().hex\<close> and the caller's context variable are
  arguments of the step.  Times count microseconds.  The hexadecimal SHA-256 of a review is the
  parameter \<open>digest\<close>.
\<close>

section \<open>Indented JSON\<close>

text \<open>\<open>json.dumps(..., ensure_ascii=True, indent=2)\<close>: \<open>lvl\<close> is the current indentation.\<close>

definition newline_indent :: "nat \<Rightarrow> pystr" where
  "newline_indent n = 10 # replicate n 32"

fun dumps_indent :: "nat \<Rightarrow> json \<Rightarrow> pystr"
  and dumps_indent_list :: "nat \<Rightarrow> json list \<Rightarrow> pystr"
  and dumps_indent_members :: "nat \<Rightarrow> (pystr \<times> json) list \<Rightarrow> pystr" where
  "dumps_indent lvl (JArr js) =
     (if js = [] then u ''[]'' else 91 # newline_indent (lvl + 2) @ dumps_indent_list (lvl + 2) js @ newline_indent lvl @ [93])"
| "dumps_indent lvl (JObj ms) =
     (if ms = [] then u ''{}'' else 123 # newline_indent (lvl + 2) @ dumps_indent_members (lvl + 2) ms @ newline_indent lvl @ [125])"
| "dumps_indent lvl j = dumps True j"
| "dumps_indent_list lvl [] = []"
| "dumps_indent_list lvl [j] = dumps_indent lvl j"
| "dumps_indent_list lvl (j # js) = dumps_indent lvl j @ 44 # newline_indent lvl @ dumps_indent_list lvl js"
| "dumps_indent_members lvl [] = []"
| "dumps_indent_members lvl [(k, j)] = print_str True k @ u '': '' @ dumps_indent lvl j"
| "dumps_indent_members lvl ((k, j) # ms) =
     print_str True k @ u '': '' @ dumps_indent lvl j @ 44 # newline_indent lvl @ dumps_indent_members lvl ms"

section \<open>State\<close>

definition second :: int where
  "second = 1000000"

definition ARM_SECONDS :: int where
  "ARM_SECONDS = 120 * second"

definition TURN_SECONDS :: int where
  "TURN_SECONDS = 1800 * second"

definition EVIDENCE_OPERATION :: pystr where
  "EVIDENCE_OPERATION = u ''collect_host_evidence''"

definition INSPECTION_OPERATION :: pystr where
  "INSPECTION_OPERATION = u ''inspect_image_copy''"

definition ELEVATED_OPERATION :: pystr where
  "ELEVATED_OPERATION = u ''elevated_commands''"

definition OPERATIONS :: "pystr list" where
  "OPERATIONS = [EVIDENCE_OPERATION, INSPECTION_OPERATION, ELEVATED_OPERATION]"

record priv_claim =
  pc_request_id :: pystr
  pc_deadline_unix :: int
  pc_operation :: pystr

record pending_privilege =
  pp_id :: pystr
  pp_claim :: priv_claim
  pp_review_json :: pystr
  pp_review_sha256 :: pystr

datatype decision = DPending | DAccepted | DRejected | DExpired | DHandedOff

datatype pt_error = PTValue pystr | PTRuntime pystr | PTPermission pystr | PTKey pystr

record priv_turn =
  pt_armed_until :: int
  pt_turn :: "pystr option"
  pt_deadline :: int
  pt_used :: bool
  pt_operation :: pystr
  pt_fixed_used :: "pystr list"
  pt_claims :: "(pystr, priv_claim) dict"
  pt_requests :: "(pystr, pending_privilege) dict"
  pt_decisions :: "(pystr, decision) dict"
  pt_events :: "(pystr, bool) dict"

definition pt_init :: priv_turn where
  "pt_init = \<lparr>pt_armed_until = 0, pt_turn = None, pt_deadline = 0, pt_used = False,
     pt_operation = EVIDENCE_OPERATION, pt_fixed_used = [], pt_claims = [], pt_requests = [],
     pt_decisions = [], pt_events = []\<rparr>"

type_synonym 'a pt_act = "(priv_turn, pt_error, 'a) act"

section \<open>Operations\<close>

definition armed_operation :: "int \<Rightarrow> priv_turn \<Rightarrow> pystr option" where
  "armed_operation now s = (if pt_turn s = None \<and> now < pt_armed_until s then Some (pt_operation s) else None)"

definition pt_arm :: "int \<Rightarrow> pystr \<Rightarrow> unit pt_act" where
  "pt_arm now op =
     abind (guard (op \<in> set OPERATIONS) (PTValue (u ''Unknown privileged operation''))) (\<lambda>_.
     abind (reads pt_turn) (\<lambda>t.
     abind (guard (t = None) (PTRuntime (u ''Cannot arm privileged operations during an active turn''))) (\<lambda>_.
     writes (\<lambda>s. s\<lparr>pt_operation := op, pt_armed_until := now + ARM_SECONDS\<rparr>))))"

definition invalidate :: "priv_turn \<Rightarrow> priv_turn" where
  "invalidate s = s\<lparr>pt_decisions := fold (\<lambda>(i, _). dput i DExpired) (pt_events s) (pt_decisions s),
     pt_events := map (\<lambda>(i, _). (i, True)) (pt_events s)\<rparr>"

definition pt_revoke :: "unit pt_act" where
  "pt_revoke = writes (\<lambda>s. invalidate (s\<lparr>pt_armed_until := 0, pt_deadline := 0, pt_used := True\<rparr>))"

definition pt_status :: "int \<Rightarrow> priv_turn \<Rightarrow> pystr" where
  "pt_status now s =
     (if pt_turn s \<noteq> None then
        (if pt_deadline s \<le> now then u ''expired''
         else if pt_operation s = ELEVATED_OPERATION
         then u ''active (each elevated request requires pending approval and UAC)''
         else if pt_used s then u ''consumed''
         else if pt_operation s = INSPECTION_OPERATION then u ''active (one inspection-only attempt)''
         else u ''active (one read-only collection)'')
      else if pt_armed_until s \<le> now then u ''disabled''
      else if pt_operation s = INSPECTION_OPERATION then u ''inspection armed for next turn''
      else u ''armed for next turn'')"

text \<open>
  \<open>turn(profile)\<close>: entering and leaving the \<open>with\<close> block; the value is the context variable
  inside it.  A profile other than \<open>head\<close> touches nothing and runs without a context.
\<close>

definition pt_enter :: "pystr \<Rightarrow> pystr \<Rightarrow> int \<Rightarrow> int \<Rightarrow> pystr option pt_act" where
  "pt_enter profile identity now1 now2 =
     (if profile \<noteq> u ''head'' then ret None
      else
        abind (reads pt_turn) (\<lambda>t.
        abind (guard (t = None) (PTRuntime (u ''Concurrent head turns are not permitted''))) (\<lambda>_.
        abind (writes (\<lambda>s. let enabled = now1 < pt_armed_until s in
          s\<lparr>pt_armed_until := 0, pt_turn := Some identity,
            pt_deadline := (if enabled then now2 + TURN_SECONDS else 0), pt_used := \<not> enabled,
            pt_fixed_used := [], pt_claims := [], pt_requests := [], pt_decisions := [], pt_events := []\<rparr>)) (\<lambda>_.
        ret (Some identity)))))"

definition pt_leave :: "pystr \<Rightarrow> unit pt_act" where
  "pt_leave profile =
     (if profile \<noteq> u ''head'' then ret ()
      else writes (\<lambda>s. (invalidate s)\<lparr>pt_turn := None, pt_deadline := 0, pt_used := True\<rparr>))"

definition may_claim :: "pystr option \<Rightarrow> int \<Rightarrow> pystr \<Rightarrow> priv_turn \<Rightarrow> bool" where
  "may_claim ctx now op s \<longleftrightarrow> (let unified = pt_operation s = ELEVATED_OPERATION in
     \<not> (op \<notin> set OPERATIONS \<or> ctx = None \<or> ctx \<noteq> pt_turn s
        \<or> pt_used s \<or> pt_deadline s \<le> now
        \<or> (\<not> unified \<and> op \<noteq> pt_operation s)
        \<or> (unified \<and> op \<noteq> ELEVATED_OPERATION \<and> op \<in> set (pt_fixed_used s))))"

definition pt_claim :: "pystr option \<Rightarrow> int \<Rightarrow> int \<Rightarrow> pystr \<Rightarrow> pystr \<Rightarrow> priv_claim pt_act" where
  "pt_claim ctx now wall identity op =
     abind (reads (\<lambda>s. s)) (\<lambda>s0.
     abind (guard (may_claim ctx now op s0) (PTPermission (u ''Enable elevated commands for the next turn''))) (\<lambda>_.
     let claim = \<lparr>pc_request_id = identity, pc_deadline_unix = wall + pt_deadline s0 - now, pc_operation = op\<rparr> in
     abind (writes (\<lambda>s.
       if pt_operation s \<noteq> ELEVATED_OPERATION then s\<lparr>pt_used := True\<rparr>
       else if op \<noteq> ELEVATED_OPERATION then s\<lparr>pt_fixed_used := List.insert op (pt_fixed_used s)\<rparr>
       else s)) (\<lambda>_.
     abind (writes (\<lambda>s. s\<lparr>pt_claims := dput identity claim (pt_claims s)\<rparr>)) (\<lambda>_.
     ret claim))))"

definition live :: "int \<Rightarrow> priv_claim \<Rightarrow> priv_turn \<Rightarrow> bool" where
  "live now c s \<longleftrightarrow> pt_turn s \<noteq> None \<and> now < pt_deadline s \<and> map_of (pt_claims s) (pc_request_id c) = Some c"

definition review_of :: "(pystr \<times> json) list \<Rightarrow> pystr" where
  "review_of details = dumps_indent 0 (sort_keys (JObj details))"

definition pt_submit :: "(bytes \<Rightarrow> pystr) \<Rightarrow> pystr option \<Rightarrow> int \<Rightarrow> priv_claim \<Rightarrow> (pystr \<times> json) list \<Rightarrow> pending_privilege pt_act" where
  "pt_submit digest ctx now claim details =
     abind (guard (all_finite (JObj details)) (PTValue (u ''Out of range float values are not JSON compliant''))) (\<lambda>_.
     let review = review_of details in
     case utf8_encode review of None \<Rightarrow> throw (PTValue (u ''surrogates not allowed'')) | Some raw \<Rightarrow>
     abind (guard (length raw \<le> 65536) (PTValue (u ''Oversized approval request''))) (\<lambda>_.
     let request = \<lparr>pp_id = 69 # pc_request_id claim, pp_claim = claim, pp_review_json = review,
                    pp_review_sha256 = digest raw\<rparr> in
     abind (reads (\<lambda>s. ctx = pt_turn s \<and> live now claim s \<and> map_of (pt_requests s) (pp_id request) = None)) (\<lambda>ok.
     abind (guard ok (PTPermission (u ''Approval request is not live or was already submitted''))) (\<lambda>_.
     abind (writes (\<lambda>s. s\<lparr>pt_requests := dput (pp_id request) request (pt_requests s),
                          pt_decisions := dput (pp_id request) DPending (pt_decisions s),
                          pt_events := dput (pp_id request) False (pt_events s)\<rparr>)) (\<lambda>_.
     ret request)))))"

definition pt_pending :: "int \<Rightarrow> (pystr, pending_privilege) dict pt_act" where
  "pt_pending now =
     abind (writes (\<lambda>s. if pt_deadline s \<le> now then invalidate s else s)) (\<lambda>_.
     abind (reads (\<lambda>s. s)) (\<lambda>s.
     case List.find (\<lambda>(k, _). map_of (pt_decisions s) k = None) (pt_requests s) of
       Some (k, _) \<Rightarrow> throw (PTKey k)
     | None \<Rightarrow> ret (filter (\<lambda>(k, _). map_of (pt_decisions s) k = Some DPending) (pt_requests s))))"

definition pt_decide :: "int \<Rightarrow> pystr \<Rightarrow> bool \<Rightarrow> decision pt_act" where
  "pt_decide now identity accept =
     abind (reads (\<lambda>s. s)) (\<lambda>s.
     case map_of (pt_requests s) identity of
       None \<Rightarrow> throw (PTValue (u ''Request is no longer pending''))
     | Some request \<Rightarrow>
         if map_of (pt_decisions s) identity \<noteq> Some DPending then throw (PTValue (u ''Request is no longer pending''))
         else
           let decision = (if live now (pp_claim request) s then (if accept then DAccepted else DRejected) else DExpired) in
           abind (writes (\<lambda>s. s\<lparr>pt_decisions := dput identity decision (pt_decisions s)\<rparr>)) (\<lambda>_.
           if map_of (pt_events s) identity = None then throw (PTKey identity)
           else abind (writes (\<lambda>s. s\<lparr>pt_events := dput identity True (pt_events s)\<rparr>)) (\<lambda>_. ret decision)))"

text \<open>One round of \<open>wait\<close>'s loop under the lock: an answer, or none and the loop sleeps.\<close>

definition pt_wait_round :: "int \<Rightarrow> pending_privilege \<Rightarrow> priv_turn \<Rightarrow> pt_error + decision option" where
  "pt_wait_round now request s =
     (if map_of (pt_requests s) (pp_id request) \<noteq> Some request \<or> \<not> live now (pp_claim request) s
      then Inr (Some DExpired)
      else case map_of (pt_decisions s) (pp_id request) of
        None \<Rightarrow> Inl (PTKey (pp_id request))
      | Some d \<Rightarrow>
          if map_of (pt_events s) (pp_id request) = None then Inl (PTKey (pp_id request))
          else if d \<noteq> DPending then Inr (Some d) else Inr None)"

text \<open>\<open>wait\<close>: the rounds see the states and clock readings the other threads leave.\<close>

fun pt_wait :: "pending_privilege \<Rightarrow> (int \<times> priv_turn) list \<Rightarrow> (pt_error + decision) option" where
  "pt_wait request [] = None"
| "pt_wait request ((now, s) # later) =
     (case pt_wait_round now request s of
        Inl e \<Rightarrow> Some (Inl e) | Inr (Some d) \<Rightarrow> Some (Inr d) | Inr None \<Rightarrow> pt_wait request later)"

definition pt_require_accepted :: "pystr option \<Rightarrow> int \<Rightarrow> pending_privilege \<Rightarrow> unit pt_act" where
  "pt_require_accepted ctx now request =
     abind (reads (\<lambda>s. ctx = pt_turn s \<and> live now (pp_claim request) s \<and>
        map_of (pt_requests s) (pp_id request) = Some request \<and>
        map_of (pt_decisions s) (pp_id request) = Some DAccepted)) (\<lambda>ok.
     abind (guard ok (PTPermission (u ''Approval expired or was not accepted''))) (\<lambda>_.
     writes (\<lambda>s. s\<lparr>pt_decisions := dput (pp_id request) DHandedOff (pt_decisions s)\<rparr>)))"

lemmas [step_defs] = pt_arm_def pt_revoke_def pt_enter_def pt_leave_def pt_claim_def pt_submit_def
  pt_pending_def pt_decide_def pt_require_accepted_def

section \<open>Histories\<close>

text \<open>
  The threads of the application (the UI, the agent, the tools) call the methods in some order.
  A history lists the calls, the latest first, each with whether it returned (rather than
  raised).  The clock readings are not negative, and \<open>Leave\<close> is the exit of an entered turn.
\<close>

datatype pt_call =
    Arm int pystr
  | Revoke
  | Enter pystr pystr int int
  | Leave
  | Claim "pystr option" int int pystr pystr
  | Submit "pystr option" int priv_claim "(pystr \<times> json) list"
  | Pending int
  | Decide int pystr bool
  | Require "pystr option" int pending_privilege

definition outcome :: "priv_turn \<times> (pt_error + 'a) \<Rightarrow> priv_turn \<times> bool" where
  "outcome r = (fst r, \<not> isl (snd r))"

fun pt_exec :: "(bytes \<Rightarrow> pystr) \<Rightarrow> pt_call \<Rightarrow> priv_turn \<Rightarrow> priv_turn \<times> bool" where
  "pt_exec dg (Arm now op) s = outcome (pt_arm now op s)"
| "pt_exec dg Revoke s = outcome (pt_revoke s)"
| "pt_exec dg (Enter profile i n1 n2) s = outcome (pt_enter profile i n1 n2 s)"
| "pt_exec dg Leave s = outcome (pt_leave (u ''head'') s)"
| "pt_exec dg (Claim ctx now wall i op) s = outcome (pt_claim ctx now wall i op s)"
| "pt_exec dg (Submit ctx now c d) s = outcome (pt_submit dg ctx now c d s)"
| "pt_exec dg (Pending now) s = outcome (pt_pending now s)"
| "pt_exec dg (Decide now i a) s = outcome (pt_decide now i a s)"
| "pt_exec dg (Require ctx now r) s = outcome (pt_require_accepted ctx now r s)"

fun may_call :: "pt_call \<Rightarrow> priv_turn \<Rightarrow> bool" where
  "may_call (Arm now op) s = (0 \<le> now)"
| "may_call (Enter p i n1 n2) s = (0 \<le> n1 \<and> n1 \<le> n2)"
| "may_call Leave s = (pt_turn s \<noteq> None)"
| "may_call (Claim ctx now wall i op) s = (0 \<le> now)"
| "may_call (Submit ctx now c d) s = (0 \<le> now)"
| "may_call (Pending now) s = (0 \<le> now)"
| "may_call (Decide now i a) s = (0 \<le> now)"
| "may_call (Require ctx now r) s = (0 \<le> now)"
| "may_call Revoke s = True"

inductive pt_history :: "(bytes \<Rightarrow> pystr) \<Rightarrow> (pt_call \<times> bool) list \<Rightarrow> priv_turn \<Rightarrow> bool" for dg where
  pt_start: "pt_history dg [] pt_init"
| pt_next: "pt_history dg h s \<Longrightarrow> may_call c s \<Longrightarrow> pt_exec dg c s = (s', ok) \<Longrightarrow> pt_history dg ((c, ok) # h) s'"

inductive_cases pt_history_ConsE: "pt_history dg (x # h) s"

text \<open>The part of a history since the current (or last) head turn was entered, and before it.\<close>

definition enters :: "pt_call \<times> bool \<Rightarrow> bool" where
  "enters e \<longleftrightarrow> (case e of (Enter p i n1 n2, ok) \<Rightarrow> ok \<and> p = u ''head'' | _ \<Rightarrow> False)"

definition since_enter :: "(pt_call \<times> bool) list \<Rightarrow> (pt_call \<times> bool) list" where
  "since_enter h = takeWhile (\<lambda>e. \<not> enters e) h"

definition before_enter :: "(pt_call \<times> bool) list \<Rightarrow> (pt_call \<times> bool) list" where
  "before_enter h = dropWhile (\<lambda>e. \<not> enters e) h"

lemma since_enter_Cons [simp]: "since_enter (e # h) = (if enters e then [] else e # since_enter h)"
  by (simp add: since_enter_def)

lemma before_enter_Cons [simp]: "before_enter (e # h) = (if enters e then e # h else before_enter h)"
  by (simp add: before_enter_def)

lemma enters_simps [simp]:
  "enters (Enter p i n1 n2, ok) \<longleftrightarrow> ok \<and> p = u ''head''"
  "\<not> enters (Arm now op, ok)" "\<not> enters (Revoke, ok)" "\<not> enters (Leave, ok)" "\<not> enters (Claim x now wall i op, ok)"
  "\<not> enters (Submit x now c d, ok)" "\<not> enters (Pending now, ok)" "\<not> enters (Decide now i a, ok)"
  "\<not> enters (Require x now r, ok)"
  by (auto simp: enters_def)

lemma before_enter_decomp: "h = since_enter h @ before_enter h"
  by (simp add: since_enter_def before_enter_def)

section \<open>What an operation changes\<close>

lemma keys_invalidate: "fst ` set (pt_events (invalidate s)) = fst ` set (pt_events s)"
  by (force simp: invalidate_def image_iff)

lemma map_of_expire:
  "map_of (fold (\<lambda>(i, _). dput i DExpired) es d) i = (if i \<in> fst ` set es then Some DExpired else map_of d i)"
  by (induction es arbitrary: d) (auto simp: split_beta)

lemma decisions_invalidate:
  "map_of (pt_decisions (invalidate s)) i = (if i \<in> fst ` set (pt_events s) then Some DExpired else map_of (pt_decisions s) i)"
  by (simp add: invalidate_def map_of_expire)

lemma invalidate_simps [simp]:
  "pt_armed_until (invalidate s) = pt_armed_until s" "pt_turn (invalidate s) = pt_turn s"
  "pt_deadline (invalidate s) = pt_deadline s" "pt_used (invalidate s) = pt_used s"
  "pt_operation (invalidate s) = pt_operation s" "pt_fixed_used (invalidate s) = pt_fixed_used s"
  "pt_claims (invalidate s) = pt_claims s" "pt_requests (invalidate s) = pt_requests s"
  by (simp_all add: invalidate_def)

lemma invalidate_update [simp]:
  "map_of (pt_decisions (invalidate (s\<lparr>pt_armed_until := a, pt_deadline := d, pt_used := w\<rparr>))) = map_of (pt_decisions (invalidate s))"
  "pt_events (invalidate (s\<lparr>pt_armed_until := a, pt_deadline := d, pt_used := w\<rparr>)) = pt_events (invalidate s)"
  by (simp_all add: invalidate_def)

text \<open>Each call in one equation: the state it leaves and whether it returned.\<close>

definition claimed_state :: "pystr \<Rightarrow> priv_claim \<Rightarrow> pystr \<Rightarrow> priv_turn \<Rightarrow> priv_turn" where
  "claimed_state i c op s =
     (let s1 = (if pt_operation s \<noteq> ELEVATED_OPERATION then s\<lparr>pt_used := True\<rparr>
                else if op \<noteq> ELEVATED_OPERATION then s\<lparr>pt_fixed_used := List.insert op (pt_fixed_used s)\<rparr> else s)
      in s1\<lparr>pt_claims := dput i c (pt_claims s)\<rparr>)"

definition submitted_state :: "pending_privilege \<Rightarrow> priv_turn \<Rightarrow> priv_turn" where
  "submitted_state r s = s\<lparr>pt_requests := dput (pp_id r) r (pt_requests s),
     pt_decisions := dput (pp_id r) DPending (pt_decisions s), pt_events := dput (pp_id r) False (pt_events s)\<rparr>"

lemma exec_arm:
  "pt_exec dg (Arm now op) s =
     (if op \<in> set OPERATIONS \<and> pt_turn s = None then (s\<lparr>pt_operation := op, pt_armed_until := now + ARM_SECONDS\<rparr>, True)
      else (s, False))"
  by (simp add: pt_arm_def outcome_def)

lemma exec_revoke:
  "pt_exec dg Revoke s = (invalidate (s\<lparr>pt_armed_until := 0, pt_deadline := 0, pt_used := True\<rparr>), True)"
  by (simp add: pt_revoke_def outcome_def)

lemma exec_enter:
  "pt_exec dg (Enter p i n1 n2) s =
     (if p \<noteq> u ''head'' then (s, True)
      else if pt_turn s = None then
        (s\<lparr>pt_armed_until := 0, pt_turn := Some i, pt_deadline := (if n1 < pt_armed_until s then n2 + TURN_SECONDS else 0),
           pt_used := \<not> n1 < pt_armed_until s, pt_fixed_used := [], pt_claims := [], pt_requests := [],
           pt_decisions := [], pt_events := []\<rparr>, True)
      else (s, False))"
  by (simp add: pt_enter_def outcome_def Let_def)

lemma exec_leave:
  "pt_exec dg Leave s = ((invalidate s)\<lparr>pt_turn := None, pt_deadline := 0, pt_used := True\<rparr>, True)"
  by (simp add: pt_leave_def outcome_def)

lemma exec_claim:
  "pt_exec dg (Claim ctx now wall i op) s =
     (if may_claim ctx now op s
      then (claimed_state i \<lparr>pc_request_id = i, pc_deadline_unix = wall + pt_deadline s - now, pc_operation = op\<rparr> op s, True)
      else (s, False))"
  by (simp add: pt_claim_def outcome_def Let_def claimed_state_def)

lemma exec_submit:
  "pt_exec dg (Submit ctx now c d) s = (s', ok) \<Longrightarrow>
     (if ok then \<exists>r. pp_claim r = c \<and> pp_id r = 69 # pc_request_id c \<and> pp_review_json r = review_of d \<and>
         ctx = pt_turn s \<and> live now c s \<and> map_of (pt_requests s) (pp_id r) = None \<and> s' = submitted_state r s
      else s' = s)"
  by (auto simp: pt_submit_def outcome_def Let_def submitted_state_def split: if_splits option.splits
      intro!: exI [of _ "\<lparr>pp_id = 69 # pc_request_id c, pp_claim = c, pp_review_json = review_of d,
        pp_review_sha256 = dg (the (utf8_encode (review_of d)))\<rparr>"])

lemma exec_pending:
  "fst (pt_exec dg (Pending now) s) = (if pt_deadline s \<le> now then invalidate s else s)"
  by (auto simp: pt_pending_def outcome_def split: option.splits)

lemma exec_decide:
  "pt_exec dg (Decide now i a) s = (s', ok) \<Longrightarrow>
     s' = s \<and> \<not> ok \<or>
     (\<exists>r. map_of (pt_requests s) i = Some r \<and> map_of (pt_decisions s) i = Some DPending \<and>
        s' = s\<lparr>pt_decisions := dput i (if live now (pp_claim r) s then (if a then DAccepted else DRejected) else DExpired) (pt_decisions s),
               pt_events := (if ok then dput i True (pt_events s) else pt_events s)\<rparr> \<and>
        (ok \<longleftrightarrow> map_of (pt_events s) i \<noteq> None))"
  by (fastforce simp: pt_decide_def outcome_def Let_def split: if_splits option.splits)

lemma exec_require:
  "pt_exec dg (Require ctx now r) s =
     (if ctx = pt_turn s \<and> live now (pp_claim r) s \<and> map_of (pt_requests s) (pp_id r) = Some r \<and>
         map_of (pt_decisions s) (pp_id r) = Some DAccepted
      then (s\<lparr>pt_decisions := dput (pp_id r) DHandedOff (pt_decisions s)\<rparr>, True) else (s, False))"
  by (simp add: pt_require_accepted_def outcome_def)

lemma if_returned: "(if P then (a, True) else (b, False)) = (x, True) \<Longrightarrow> P \<and> x = a"
  by (cases P) simp_all

lemma exec_require_returned:
  "pt_exec dg (Require ctx now r) s = (s', True) \<Longrightarrow>
     (ctx = pt_turn s \<and> live now (pp_claim r) s \<and> map_of (pt_requests s) (pp_id r) = Some r \<and>
        map_of (pt_decisions s) (pp_id r) = Some DAccepted) \<and>
     s' = s\<lparr>pt_decisions := dput (pp_id r) DHandedOff (pt_decisions s)\<rparr>"
  unfolding exec_require by (rule if_returned)

lemmas exec_cases = exec_arm exec_revoke exec_enter exec_leave exec_claim exec_require

declare pt_exec.simps [simp del]

section \<open>Invariants of every history\<close>

text \<open>The four tables agree on their keys, and hold values under their own identity.\<close>

definition tables_ok :: "priv_turn \<Rightarrow> bool" where
  "tables_ok s \<longleftrightarrow>
     fst ` set (pt_decisions s) = fst ` set (pt_requests s) \<and> fst ` set (pt_events s) = fst ` set (pt_requests s) \<and>
     (\<forall>i c. map_of (pt_claims s) i = Some c \<longrightarrow> pc_request_id c = i) \<and>
     (\<forall>k r. map_of (pt_requests s) k = Some r \<longrightarrow> pp_id r = k \<and> k = 69 # pc_request_id (pp_claim r) \<and>
        map_of (pt_claims s) (pc_request_id (pp_claim r)) \<noteq> None)"

lemma keys_expire: "fst ` set (fold (\<lambda>(i, _). dput i DExpired) es d) = fst ` set d \<union> fst ` set es"
  by (induction es arbitrary: d) (auto simp: split_beta)

lemma tables_ok_invalidate: "tables_ok s \<Longrightarrow> tables_ok (invalidate s)"
  using keys_invalidate [of s] by (simp add: tables_ok_def) (simp add: invalidate_def keys_expire)

lemma tables_ok_update [simp]:
  "tables_ok (s\<lparr>pt_armed_until := a\<rparr>) = tables_ok s" "tables_ok (s\<lparr>pt_turn := t\<rparr>) = tables_ok s"
  "tables_ok (s\<lparr>pt_deadline := d\<rparr>) = tables_ok s" "tables_ok (s\<lparr>pt_used := w\<rparr>) = tables_ok s"
  "tables_ok (s\<lparr>pt_operation := op\<rparr>) = tables_ok s" "tables_ok (s\<lparr>pt_fixed_used := f\<rparr>) = tables_ok s"
  by (simp_all add: tables_ok_def)

lemma tables_ok_claim: "tables_ok s \<Longrightarrow> tables_ok (claimed_state i \<lparr>pc_request_id = i, pc_deadline_unix = d, pc_operation = op\<rparr> op s)"
  by (auto simp: tables_ok_def claimed_state_def Let_def)

lemma tables_ok_submit:
  "tables_ok s \<Longrightarrow> live now (pp_claim r) s \<Longrightarrow> pp_id r = 69 # pc_request_id (pp_claim r) \<Longrightarrow> tables_ok (submitted_state r s)"
  by (auto simp: tables_ok_def submitted_state_def live_def)

lemma in_keys_iff: "i \<in> fst ` set d \<longleftrightarrow> map_of d i \<noteq> None"
  by (simp add: map_of_eq_None_iff)

lemma in_keys: "map_of d i = Some x \<Longrightarrow> i \<in> fst ` set d"
  by (simp add: in_keys_iff)

lemma tables_ok_decide:
  "tables_ok s \<Longrightarrow> map_of (pt_requests s) i = Some r \<Longrightarrow> tables_ok (s\<lparr>pt_decisions := dput i d (pt_decisions s)\<rparr>)"
  by (auto simp: tables_ok_def insert_absorb dest: in_keys)

lemma tables_ok_decided:
  assumes "tables_ok s" and "map_of (pt_requests s) i = Some r"
  shows "tables_ok (s\<lparr>pt_decisions := dput i d (pt_decisions s), pt_events := (if b then dput i v (pt_events s) else pt_events s)\<rparr>)"
  using assms by (auto simp: tables_ok_def insert_absorb dest: in_keys)

lemma tables_ok_Nil: "pt_claims s = [] \<Longrightarrow> pt_requests s = [] \<Longrightarrow> pt_decisions s = [] \<Longrightarrow> pt_events s = [] \<Longrightarrow> tables_ok s"
  by (simp add: tables_ok_def)

lemma tables_ok_exec:
  assumes "tables_ok s" and "pt_exec dg c s = (s', ok)"
  shows "tables_ok s'"
proof (cases c)
  case (Submit ctx now cl d)
  with assms exec_submit [of dg ctx now cl d s s' ok] show ?thesis
    by (auto split: if_splits intro: tables_ok_submit)
next
  case (Pending now)
  with assms exec_pending [of dg now s] show ?thesis
    by (auto simp: tables_ok_invalidate split: if_splits)
next
  case (Decide now i a)
  with assms exec_decide [of dg now i a s s' ok] show ?thesis
    using tables_ok_decided [OF assms(1), of i] by blast
qed (use assms in \<open>auto simp: exec_cases tables_ok_invalidate intro: tables_ok_Nil tables_ok_claim tables_ok_decide split: if_splits\<close>)

lemma tables_ok_history: "pt_history dg h s \<Longrightarrow> tables_ok s"
  by (induction rule: pt_history.induct) (auto simp: pt_init_def intro: tables_ok_Nil tables_ok_exec)

text \<open>An armed object was armed since the last head turn; an enabled turn was armed in time.\<close>

definition armed_by :: "(pt_call \<times> bool) list \<Rightarrow> priv_turn \<Rightarrow> bool" where
  "armed_by h s \<longleftrightarrow> 0 < pt_armed_until s \<longrightarrow>
     (\<exists>t. (Arm t (pt_operation s), True) \<in> set (since_enter h) \<and> pt_armed_until s = t + ARM_SECONDS)"

definition entered_by :: "(pt_call \<times> bool) list \<Rightarrow> priv_turn \<Rightarrow> bool" where
  "entered_by h s \<longleftrightarrow> (\<forall>i. pt_turn s = Some i \<longrightarrow>
     (\<exists>n1 n2 h0. before_enter h = (Enter (u ''head'') i n1 n2, True) # h0 \<and>
        (0 < pt_deadline s \<longrightarrow> pt_deadline s = n2 + TURN_SECONDS \<and>
           (\<exists>t. (Arm t (pt_operation s), True) \<in> set (since_enter h0) \<and> n1 < t + ARM_SECONDS))))"

lemma not_enters_since: "\<not> enters (c, ok) \<Longrightarrow> set (since_enter h) \<subseteq> set (since_enter ((c, ok) # h))"
  by auto

lemma claimed_state_simps [simp]:
  "pt_armed_until (claimed_state i c op s) = pt_armed_until s" "pt_turn (claimed_state i c op s) = pt_turn s"
  "pt_deadline (claimed_state i c op s) = pt_deadline s" "pt_operation (claimed_state i c op s) = pt_operation s"
  "pt_claims (claimed_state i c op s) = dput i c (pt_claims s)" "pt_requests (claimed_state i c op s) = pt_requests s"
  "pt_decisions (claimed_state i c op s) = pt_decisions s" "pt_events (claimed_state i c op s) = pt_events s"
  by (simp_all add: claimed_state_def Let_def)

lemma submitted_state_simps [simp]:
  "pt_armed_until (submitted_state r s) = pt_armed_until s" "pt_turn (submitted_state r s) = pt_turn s"
  "pt_deadline (submitted_state r s) = pt_deadline s" "pt_operation (submitted_state r s) = pt_operation s"
  "pt_claims (submitted_state r s) = pt_claims s" "pt_used (submitted_state r s) = pt_used s"
  "pt_fixed_used (submitted_state r s) = pt_fixed_used s"
  "pt_requests (submitted_state r s) = dput (pp_id r) r (pt_requests s)"
  "pt_decisions (submitted_state r s) = dput (pp_id r) DPending (pt_decisions s)"
  by (simp_all add: submitted_state_def)

text \<open>Submitting, listing and deciding touch neither the arm nor the turn.\<close>

lemma exec_approval_frame:
  assumes "pt_exec dg c s = (s', ok)"
    and "(\<exists>x now cl d. c = Submit x now cl d) \<or> (\<exists>now. c = Pending now) \<or> (\<exists>now i a. c = Decide now i a)"
  shows "pt_armed_until s' = pt_armed_until s \<and> pt_turn s' = pt_turn s \<and> pt_deadline s' = pt_deadline s \<and>
    pt_operation s' = pt_operation s \<and> pt_used s' = pt_used s \<and> pt_fixed_used s' = pt_fixed_used s \<and>
    pt_claims s' = pt_claims s \<and> \<not> enters (c, ok)"
  using assms(2)
proof (elim disjE exE)
  fix x now cl d assume "c = Submit x now cl d"
  with assms(1) exec_submit [of dg x now cl d s s' ok] show ?thesis by (auto split: if_splits)
next
  fix now assume "c = Pending now"
  with assms(1) exec_pending [of dg now s] show ?thesis by (auto split: if_splits)
next
  fix now i a assume "c = Decide now i a"
  with assms(1) exec_decide [of dg now i a s s' ok] show ?thesis by auto
qed

lemma armed_by_exec:
  assumes "armed_by h s" and "may_call c s" and "pt_exec dg c s = (s', ok)"
  shows "armed_by ((c, ok) # h) s'"
proof -
  consider (a) "(\<exists>x now cl d. c = Submit x now cl d) \<or> (\<exists>now. c = Pending now) \<or> (\<exists>now i a. c = Decide now i a)"
    | (b) "\<not> ((\<exists>x now cl d. c = Submit x now cl d) \<or> (\<exists>now. c = Pending now) \<or> (\<exists>now i a. c = Decide now i a))"
    by blast
  then show ?thesis
  proof cases
    case a
    with exec_approval_frame [OF assms(3)] assms(1) show ?thesis by (auto simp: armed_by_def)
  next
    case b
    with assms show ?thesis by (cases c) (auto simp: armed_by_def exec_cases split: if_splits)
  qed
qed

lemma entered_by_exec:
  assumes "armed_by h s" and "entered_by h s" and "may_call c s" and "pt_exec dg c s = (s', ok)"
  shows "entered_by ((c, ok) # h) s'"
proof -
  consider (a) "(\<exists>x now cl d. c = Submit x now cl d) \<or> (\<exists>now. c = Pending now) \<or> (\<exists>now i a. c = Decide now i a)"
    | (e) p i n1 n2 where "c = Enter p i n1 n2"
    | (b) "\<not> ((\<exists>x now cl d. c = Submit x now cl d) \<or> (\<exists>now. c = Pending now) \<or> (\<exists>now i a. c = Decide now i a))"
          "\<not> (\<exists>p i n1 n2. c = Enter p i n1 n2)"
    by blast
  then show ?thesis
  proof cases
    case a
    with exec_approval_frame [OF assms(4)] assms(2) show ?thesis by (auto simp: entered_by_def)
  next
    case e
    with assms show ?thesis by (auto simp: entered_by_def armed_by_def exec_enter split: if_splits)
  next
    case b
    with assms(2,4) show ?thesis by (cases c) (auto simp: entered_by_def exec_cases split: if_splits)
  qed
qed

lemma armed_entered_history: "pt_history dg h s \<Longrightarrow> armed_by h s \<and> entered_by h s"
  by (induction rule: pt_history.induct)
    (auto simp: pt_init_def armed_by_def [of "[]"] entered_by_def [of "[]"] armed_by_exec entered_by_exec)

text \<open>Every claim, request and acceptance was made since the turn was entered.\<close>

definition made_by :: "(pt_call \<times> bool) list \<Rightarrow> priv_turn \<Rightarrow> bool" where
  "made_by h s \<longleftrightarrow> (\<forall>i. pt_turn s = Some i \<longrightarrow>
     (\<forall>k c. map_of (pt_claims s) k = Some c \<longrightarrow>
        (\<exists>now wall. (Claim (Some i) now wall k (pc_operation c), True) \<in> set (since_enter h))) \<and>
     (\<forall>k r. map_of (pt_requests s) k = Some r \<longrightarrow>
        (\<exists>now d. (Submit (Some i) now (pp_claim r) d, True) \<in> set (since_enter h) \<and> pp_review_json r = review_of d)) \<and>
     (\<forall>k. map_of (pt_decisions s) k = Some DAccepted \<or> map_of (pt_decisions s) k = Some DHandedOff \<longrightarrow>
        (\<exists>now. (Decide now k True, True) \<in> set (since_enter h))))"

lemma made_by_exec:
  assumes "tables_ok s" and "made_by h s" and "pt_exec dg c s = (s', ok)"
  shows "made_by ((c, ok) # h) s'"
proof (cases c)
  case (Submit ctx now cl d)
  with assms exec_submit [of dg ctx now cl d s s' ok] show ?thesis
    by (fastforce simp: made_by_def split: if_splits)
next
  case (Pending now)
  have "s' = (if pt_deadline s \<le> now then invalidate s else s)"
    using exec_pending [of dg now s] assms(3) unfolding Pending by simp
  with assms(2) Pending show ?thesis
    by (auto simp: made_by_def decisions_invalidate split: if_splits)
next
  case (Decide now i a)
  have ev: "map_of (pt_requests s) i = Some r \<Longrightarrow> map_of (pt_events s) i \<noteq> None" for r
    using assms(1) in_keys [of "pt_requests s" i r] unfolding in_keys_iff [symmetric] tables_ok_def by blast
  from exec_decide [of dg now i a s s' ok] assms(3) Decide
  consider "s' = s" "\<not> ok" | r where "map_of (pt_requests s) i = Some r" "ok"
      "s' = s\<lparr>pt_decisions := dput i (if live now (pp_claim r) s then (if a then DAccepted else DRejected) else DExpired) (pt_decisions s),
              pt_events := dput i True (pt_events s)\<rparr>"
    using ev by fastforce
  then show ?thesis
    by cases (use assms(2) Decide in \<open>auto simp: made_by_def split: if_splits\<close>)
next
  case (Claim ctx now wall i op)
  show ?thesis
  proof (cases "may_claim ctx now op s")
    case True
    then have ctx: "ctx = pt_turn s" by (simp add: may_claim_def Let_def)
    from True assms(3) Claim have "s' = claimed_state i \<lparr>pc_request_id = i, pc_deadline_unix = wall + pt_deadline s - now, pc_operation = op\<rparr> op s"
      and "ok" by (simp_all add: exec_claim)
    with assms(2) Claim ctx show ?thesis by (auto simp: made_by_def; blast)
  next
    case False
    with assms Claim show ?thesis by (simp add: exec_claim made_by_def)
  qed
qed (use assms in \<open>auto simp: made_by_def exec_cases decisions_invalidate split: if_splits\<close>)

lemma made_by_history: "pt_history dg h s \<Longrightarrow> made_by h s"
proof (induction rule: pt_history.induct)
  case pt_start
  then show ?case by (simp add: made_by_def pt_init_def)
next
  case (pt_next h s c s' ok)
  then show ?case using made_by_exec tables_ok_history by blast
qed

subsection \<open>One handoff per approval\<close>

fun handoff_of :: "pt_call \<times> bool \<Rightarrow> pystr option" where
  "handoff_of (Require ctx now r, True) = Some (pp_id r)"
| "handoff_of _ = None"

fun claim_of :: "pt_call \<times> bool \<Rightarrow> pystr option" where
  "claim_of (Claim ctx now wall i op, True) = Some i"
| "claim_of _ = None"

definition handoffs :: "(pt_call \<times> bool) list \<Rightarrow> pystr list" where
  "handoffs h = List.map_filter handoff_of h"

definition claimed :: "(pt_call \<times> bool) list \<Rightarrow> pystr list" where
  "claimed h = List.map_filter claim_of h"

lemma handoffs_Cons [simp]: "handoffs (e # h) = (case handoff_of e of None \<Rightarrow> handoffs h | Some k \<Rightarrow> k # handoffs h)"
  by (simp add: handoffs_def map_filter_simps split: option.split)

lemma claimed_Cons [simp]: "claimed (e # h) = (case claim_of e of None \<Rightarrow> claimed h | Some k \<Rightarrow> k # claimed h)"
  by (simp add: claimed_def map_filter_simps split: option.split)

definition once :: "(pt_call \<times> bool) list \<Rightarrow> priv_turn \<Rightarrow> bool" where
  "once h s \<longleftrightarrow> distinct (claimed h) \<longrightarrow> distinct (handoffs h) \<and>
     (\<forall>k. map_of (pt_decisions s) k = Some DPending \<or> map_of (pt_decisions s) k = Some DAccepted \<longrightarrow> k \<notin> set (handoffs h)) \<and>
     (\<forall>i. map_of (pt_claims s) i \<noteq> None \<longrightarrow> i \<in> set (claimed h) \<and>
        (map_of (pt_requests s) (69 # i) = None \<longrightarrow> 69 # i \<notin> set (handoffs h))) \<and>
     (\<forall>k \<in> set (handoffs h). \<exists>i \<in> set (claimed h). k = 69 # i)"

lemma once_exec:
  assumes "tables_ok s" and "once h s" and "pt_exec dg c s = (s', ok)"
  shows "once ((c, ok) # h) s'"
proof (cases c)
  case (Submit ctx now cl d)
  from exec_submit [of dg ctx now cl d s s' ok] assms(3) Submit
  consider "\<not> ok" "s' = s" | r where "ok" "pp_id r = 69 # pc_request_id cl" "live now cl s"
      "map_of (pt_requests s) (pp_id r) = None" "s' = submitted_state r s" by (auto split: if_splits)
  then show ?thesis
  proof cases
    case 2
    then have "map_of (pt_claims s) (pc_request_id cl) \<noteq> None" by (simp add: live_def)
    with 2 assms(2) Submit show ?thesis by (auto simp: once_def)
  qed (use assms(2) Submit in \<open>simp add: once_def\<close>)
next
  case (Pending now)
  have "s' = (if pt_deadline s \<le> now then invalidate s else s)"
    using exec_pending [of dg now s] assms(3) unfolding Pending by simp
  with assms(2) Pending show ?thesis by (auto simp: once_def decisions_invalidate split: if_splits)
next
  case (Decide now i a)
  from exec_decide [of dg now i a s s' ok] assms(3) Decide
  consider "s' = s" | r d es where "map_of (pt_requests s) i = Some r" "map_of (pt_decisions s) i = Some DPending"
      "s' = s\<lparr>pt_decisions := dput i d (pt_decisions s), pt_events := es\<rparr>"
    by blast
  then show ?thesis
    by cases (use assms(2) Decide in \<open>auto simp: once_def split: if_splits\<close>)
next
  case (Claim ctx now wall i op)
  then show ?thesis using assms(2,3) by (cases "may_claim ctx now op s") (auto simp: once_def exec_claim split: if_splits)
next
  case (Require ctx now r)
  show ?thesis
  proof (cases ok)
    case True
    with assms(3) Require have "pt_exec dg (Require ctx now r) s = (s', True)" by simp
    from exec_require_returned [OF this] have r: "map_of (pt_requests s) (pp_id r) = Some r"
        "map_of (pt_decisions s) (pp_id r) = Some DAccepted" "live now (pp_claim r) s"
      and s': "s' = s\<lparr>pt_decisions := dput (pp_id r) DHandedOff (pt_decisions s)\<rparr>"
      by blast+
    from assms(1) r(1) have "pp_id r = 69 # pc_request_id (pp_claim r)" unfolding tables_ok_def by blast
    moreover have "map_of (pt_claims s) (pc_request_id (pp_claim r)) \<noteq> None" using r(3) by (simp add: live_def)
    ultimately obtain i where i: "pp_id r = 69 # i" "map_of (pt_claims s) i \<noteq> None" by blast
    have "once ((Require ctx now r, True) # h) s'"
      unfolding once_def
    proof (intro impI)
      assume "distinct (claimed ((Require ctx now r, True) # h))"
      then have "distinct (claimed h)" by simp
      note o = assms(2) [unfolded once_def, THEN mp, OF this]
      then have "pp_id r \<notin> set (handoffs h)" and "i \<in> set (claimed h)" using r(2) i(2) by blast+
      moreover have "map_of (pt_requests s) (69 # i) \<noteq> None" using r(1) unfolding i(1) by simp
      ultimately show "distinct (handoffs ((Require ctx now r, True) # h)) \<and>
        (\<forall>k. map_of (pt_decisions s') k = Some DPending \<or> map_of (pt_decisions s') k = Some DAccepted \<longrightarrow>
           k \<notin> set (handoffs ((Require ctx now r, True) # h))) \<and>
        (\<forall>i. map_of (pt_claims s') i \<noteq> None \<longrightarrow> i \<in> set (claimed ((Require ctx now r, True) # h)) \<and>
          (map_of (pt_requests s') (69 # i) = None \<longrightarrow> 69 # i \<notin> set (handoffs ((Require ctx now r, True) # h)))) \<and>
        (\<forall>k \<in> set (handoffs ((Require ctx now r, True) # h)). \<exists>i \<in> set (claimed ((Require ctx now r, True) # h)). k = 69 # i)"
        using o i(1) unfolding s' by (auto simp: i(1))
    qed
    then show ?thesis using Require True by simp
  next
    case False
    with assms(2,3) Require show ?thesis by (auto simp: once_def exec_require split: if_splits)
  qed
qed (use assms(2,3) in \<open>auto simp: once_def exec_cases decisions_invalidate split: if_splits\<close>)

lemma once_history: "pt_history dg h s \<Longrightarrow> once h s"
proof (induction rule: pt_history.induct)
  case pt_start
  then show ?case by (simp add: once_def pt_init_def handoffs_def claimed_def map_filter_simps)
next
  case (pt_next h s c s' ok)
  then show ?case using once_exec tables_ok_history by blast
qed

subsection \<open>Fixed operations and revocation\<close>

fun op_of :: "pt_call \<times> bool \<Rightarrow> pystr option" where
  "op_of (Claim ctx now wall i op, True) = Some op"
| "op_of _ = None"

definition claimed_ops :: "(pt_call \<times> bool) list \<Rightarrow> pystr list" where
  "claimed_ops h = List.map_filter op_of h"

lemma claimed_ops_Cons [simp]: "claimed_ops (e # h) = (case op_of e of None \<Rightarrow> claimed_ops h | Some k \<Rightarrow> k # claimed_ops h)"
  by (simp add: claimed_ops_def map_filter_simps split: option.split)

definition spent :: "(pt_call \<times> bool) list \<Rightarrow> priv_turn \<Rightarrow> bool" where
  "spent h s \<longleftrightarrow> (let ops = filter (\<lambda>op. op \<noteq> ELEVATED_OPERATION) (claimed_ops (since_enter h)) in
     distinct ops \<and> (pt_turn s \<noteq> None \<longrightarrow>
       (if pt_operation s = ELEVATED_OPERATION then set ops \<subseteq> set (pt_fixed_used s)
        else claimed_ops (since_enter h) = [] \<or> pt_used s \<and> (\<exists>op. claimed_ops (since_enter h) = [op]))))"

lemma spent_claim:
  assumes "spent h s" and "may_claim ctx now op s"
  shows "spent ((Claim ctx now wall i op, True) # h) (claimed_state i c op s)"
  using assms by (auto simp: spent_def may_claim_def claimed_state_def Let_def split: if_splits)

lemma spent_exec:
  assumes "spent h s" and "pt_exec dg c s = (s', ok)"
  shows "spent ((c, ok) # h) s'"
proof -
  consider (a) "(\<exists>x now cl d. c = Submit x now cl d) \<or> (\<exists>now. c = Pending now) \<or> (\<exists>now i a. c = Decide now i a)"
    | (l) ctx now wall i op where "c = Claim ctx now wall i op"
    | (b) "\<not> ((\<exists>x now cl d. c = Submit x now cl d) \<or> (\<exists>now. c = Pending now) \<or> (\<exists>now i a. c = Decide now i a))"
          "\<not> (\<exists>ctx now wall i op. c = Claim ctx now wall i op)"
    by blast
  then show ?thesis
  proof cases
    case a
    with exec_approval_frame [OF assms(2)] assms(1) show ?thesis by (auto simp: spent_def Let_def)
  next
    case l
    show ?thesis
    proof (cases "may_claim ctx now op s")
      case True
      with l assms(2) spent_claim [OF assms(1) True] show ?thesis by (auto simp: exec_claim)
    next
      case False
      with l assms(2) have "s' = s" "\<not> ok" by (simp_all add: exec_claim)
      with l assms(1) show ?thesis by (auto simp: spent_def Let_def)
    qed
  next
    case b
    with assms show ?thesis
      by (cases c) (auto simp: spent_def exec_cases claimed_ops_def map_filter_simps Let_def split: if_splits)
  qed
qed

lemma spent_history: "pt_history dg h s \<Longrightarrow> spent h s"
  by (induction rule: pt_history.induct)
    (auto simp: spent_exec, simp add: spent_def pt_init_def since_enter_def claimed_ops_def map_filter_simps)

text \<open>A revocation lasts until the next head turn.\<close>

definition revoked_by :: "(pt_call \<times> bool) list \<Rightarrow> priv_turn \<Rightarrow> bool" where
  "revoked_by h s \<longleftrightarrow> (Revoke, True) \<in> set (since_enter h) \<longrightarrow> pt_used s \<and> pt_deadline s = 0"

lemma revoked_by_exec:
  assumes "revoked_by h s" and "pt_exec dg c s = (s', ok)"
  shows "revoked_by ((c, ok) # h) s'"
proof -
  consider (a) "(\<exists>x now cl d. c = Submit x now cl d) \<or> (\<exists>now. c = Pending now) \<or> (\<exists>now i a. c = Decide now i a)"
    | (b) "\<not> ((\<exists>x now cl d. c = Submit x now cl d) \<or> (\<exists>now. c = Pending now) \<or> (\<exists>now i a. c = Decide now i a))"
    by blast
  then show ?thesis
  proof cases
    case a
    with exec_approval_frame [OF assms(2)] assms(1) show ?thesis by (auto simp: revoked_by_def)
  next
    case b
    with assms show ?thesis
      by (cases c) (auto simp: revoked_by_def exec_cases may_claim_def Let_def claimed_state_def split: if_splits)
  qed
qed

lemma revoked_by_history: "pt_history dg h s \<Longrightarrow> revoked_by h s"
  by (induction rule: pt_history.induct) (auto simp: revoked_by_exec, simp add: revoked_by_def since_enter_def)

section \<open>Properties\<close>

lemma ops_count:
  "distinct (filter P (claimed_ops h)) \<Longrightarrow> P op \<Longrightarrow> length (filter (\<lambda>e. op_of e = Some op) h) \<le> 1"
proof (induction h)
  case (Cons e h)
  show ?case
  proof (cases "op_of e = Some op")
    case True
    with Cons.prems have "op \<notin> set (claimed_ops h)" by (auto split: if_splits)
    then have "filter (\<lambda>e. op_of e = Some op) h = []"
      by (auto simp: claimed_ops_def filter_empty_conv map_filter_def image_iff) force
    with True show ?thesis by simp
  next
    case False
    with Cons show ?thesis by (auto split: option.splits if_splits)
  qed
qed simp

lemma handoff_count: "distinct (handoffs h) \<Longrightarrow> length (filter (\<lambda>e. handoff_of e = Some k) h) \<le> 1"
proof (induction h)
  case (Cons e h)
  show ?case
  proof (cases "handoff_of e = Some k")
    case True
    with Cons.prems have "k \<notin> set (handoffs h)" by auto
    then have "filter (\<lambda>e. handoff_of e = Some k) h = []"
      by (auto simp: handoffs_def filter_empty_conv map_filter_def image_iff) force
    with True show ?thesis by simp
  next
    case False
    with Cons show ?thesis by (auto split: option.splits if_splits)
  qed
qed simp

text \<open>Playing a list of calls from the initial object gives a history.\<close>

fun pt_play :: "(bytes \<Rightarrow> pystr) \<Rightarrow> pt_call list \<Rightarrow> (pt_call \<times> bool) list \<times> priv_turn \<Rightarrow> ((pt_call \<times> bool) list \<times> priv_turn) option" where
  "pt_play dg [] hs = Some hs"
| "pt_play dg (c # cs) (h, s) =
     (if may_call c s then pt_play dg cs ((c, snd (pt_exec dg c s)) # h, fst (pt_exec dg c s)) else None)"

lemma pt_play_history:
  assumes "pt_history dg (fst hs) (snd hs)" and "pt_play dg cs hs = Some (h', s')"
  shows "pt_history dg h' s'"
  using assms
proof (induction dg cs hs rule: pt_play.induct)
  case (2 dg c cs h s)
  have "pt_exec dg c s = (fst (pt_exec dg c s), snd (pt_exec dg c s))" by simp
  with 2 pt_next [of dg h s c "fst (pt_exec dg c s)" "snd (pt_exec dg c s)"] show ?case by (auto split: if_splits)
qed simp

definition demo_claim :: priv_claim where
  "demo_claim = \<lparr>pc_request_id = u ''c'', pc_deadline_unix = 1900000000, pc_operation = ELEVATED_OPERATION\<rparr>"

definition demo_request :: pending_privilege where
  "demo_request = \<lparr>pp_id = u ''Ec'', pp_claim = demo_claim, pp_review_json = review_of [(u ''reason'', JStr (u ''r''))],
     pp_review_sha256 = u ''d''\<rparr>"

definition demo_calls :: "pt_call list" where
  "demo_calls = [Arm 0 ELEVATED_OPERATION, Enter (u ''head'') (u ''t'') 1 2,
     Claim (Some (u ''t'')) 2 100000000 (u ''c'') ELEVATED_OPERATION,
     Submit (Some (u ''t'')) 4 demo_claim [(u ''reason'', JStr (u ''r''))], Decide 5 (u ''Ec'') True,
     Require (Some (u ''t'')) 6 demo_request]"

definition demo_history :: "(pt_call \<times> bool) list" where
  "demo_history = rev (map (\<lambda>c. (c, True)) demo_calls)"

lemma demo_plays:
  "\<exists>s. pt_history (\<lambda>_. u ''d'') demo_history s"
  "\<exists>s. pt_history (\<lambda>_. u ''d'') (tl demo_history) s"
  "\<exists>s. pt_history (\<lambda>_. u ''d'') ((Revoke, True) # demo_history) s"
proof -
  have run: "\<exists>s. pt_history (\<lambda>_. u ''d'') h s" if "map_option fst (pt_play (\<lambda>_. u ''d'') cs ([], pt_init)) = Some h" for cs h
    using that pt_play_history [of "\<lambda>_. u ''d''" "([], pt_init)" cs] by (auto simp: pt_start)
  show "\<exists>s. pt_history (\<lambda>_. u ''d'') demo_history s" by (rule run [of demo_calls]) code_simp
  show "\<exists>s. pt_history (\<lambda>_. u ''d'') (tl demo_history) s" by (rule run [of "butlast demo_calls"]) code_simp
  show "\<exists>s. pt_history (\<lambda>_. u ''d'') ((Revoke, True) # demo_history) s" by (rule run [of "demo_calls @ [Revoke]"]) code_simp
qed



text \<open>
  No approval is executed twice: in every history whose claims drew distinct identifiers, a
  request is handed off at most once.
\<close>

theorem single_handoff:
  assumes "pt_history dg h s" and "distinct (claimed h)"
  shows "length (filter (\<lambda>e. handoff_of e = Some k) h) \<le> 1"
  using once_history [OF assms(1)] assms(2) by (intro handoff_count) (simp add: once_def)

theorem single_handoff_witness:
  "length (filter (\<lambda>e. handoff_of e = Some (u ''Ec'')) demo_history) \<le> 1 \<and>
   filter (\<lambda>e. handoff_of e = Some (u ''Ec'')) demo_history \<noteq> []"
proof -
  obtain s where "pt_history (\<lambda>_. u ''d'') demo_history s" using demo_plays(1) by blast
  moreover have "distinct (claimed demo_history)" by code_simp
  ultimately have "length (filter (\<lambda>e. handoff_of e = Some (u ''Ec'')) demo_history) \<le> 1" by (rule single_handoff)
  moreover have "filter (\<lambda>e. handoff_of e = Some (u ''Ec'')) demo_history \<noteq> []"
    by (simp add: demo_history_def demo_calls_def demo_request_def)
  ultimately show ?thesis by blast
qed

text \<open>
  Within a head turn each fixed operation (evidence collection, image inspection) is
  claimed at most once, whether the turn was armed for it alone or for elevated commands.
\<close>

theorem fixed_operation_once_per_turn:
  assumes "pt_history dg h s" and "op \<noteq> u ''elevated_commands''"
  shows "length (filter (\<lambda>e. op_of e = Some op) (since_enter h)) \<le> 1"
  using spent_history [OF assms(1)] assms(2)
  by (intro ops_count [where P = "\<lambda>op. op \<noteq> ELEVATED_OPERATION"]) (simp_all add: spent_def Let_def ELEVATED_OPERATION_def)

theorem fixed_operation_once_per_turn_witness:
  "length (filter (\<lambda>e. op_of e = Some (u ''collect_host_evidence'')) (since_enter demo_history)) \<le> 1"
proof -
  obtain s where "pt_history (\<lambda>_. u ''d'') demo_history s" using demo_plays(1) by blast
  then show ?thesis by (rule fixed_operation_once_per_turn) simp
qed

text \<open>
  After a revocation, until the next head turn is entered, no claim, no submission and no
  handoff succeeds, and an acceptance by the UI comes back as expired.
\<close>

theorem revoke_is_final:
  assumes "pt_history dg h s" and "(Revoke, True) \<in> set (since_enter h)" and "0 \<le> now"
  shows "snd (pt_exec dg (Claim ctx now wall i op) s) = False \<and> snd (pt_exec dg (Submit ctx now c d) s) = False \<and>
     snd (pt_exec dg (Require ctx now r) s) = False \<and>
     (\<forall>v. snd (pt_decide now k a s) = Inr v \<longrightarrow> v = DExpired)"
proof -
  have z: "pt_used s \<and> pt_deadline s = 0" using revoked_by_history [OF assms(1)] assms(2) by (simp add: revoked_by_def)
  have "snd (pt_exec dg (Submit ctx now c d) s) = False"
  proof (rule ccontr)
    assume "snd (pt_exec dg (Submit ctx now c d) s) \<noteq> False"
    then obtain s' where "pt_exec dg (Submit ctx now c d) s = (s', True)"
      by (cases "pt_exec dg (Submit ctx now c d) s") simp
    from exec_submit [OF this] z assms(3) show False by (auto simp: live_def)
  qed
  moreover have "v = DExpired" if "snd (pt_decide now k a s) = Inr v" for v
    using that z assms(3) by (auto simp: pt_decide_def live_def Let_def split: option.splits if_splits)
  ultimately show ?thesis using z assms(3) by (simp add: exec_claim exec_require may_claim_def live_def)
qed

theorem revoke_is_final_witness:
  "\<exists>s. snd (pt_exec (\<lambda>_. u ''d'') (Claim (Some (u ''t'')) 7 0 (u ''c2'') ELEVATED_OPERATION) s) = False \<and>
     snd (pt_exec (\<lambda>_. u ''d'') (Require (Some (u ''t'')) 7 demo_request) s) = False"
proof -
  obtain s where s: "pt_history (\<lambda>_. u ''d'') ((Revoke, True) # demo_history) s" using demo_plays(3) by blast
  have "(Revoke, True) \<in> set (since_enter ((Revoke, True) # demo_history))" by simp
  from revoke_is_final [OF s this, of 7 "Some (u ''t'')" 0 "u ''c2''" ELEVATED_OPERATION demo_claim "[]" demo_request]
  show ?thesis by auto
qed

lemma wait_round_reachable:
  assumes "pt_history dg h s"
  shows "\<exists>d. pt_wait_round now r s = Inr d \<and> d \<noteq> Some DPending"
proof -
  have "tables_ok s" using tables_ok_history [OF assms] .
  moreover have "map_of (pt_decisions s) (pp_id r) \<noteq> None" "map_of (pt_events s) (pp_id r) \<noteq> None"
    if "map_of (pt_requests s) (pp_id r) = Some r"
    using in_keys [OF that] calculation unfolding tables_ok_def in_keys_iff [symmetric] by blast+
  ultimately show ?thesis by (auto simp: pt_wait_round_def)
qed

text \<open>
  \<open>wait\<close> ends as soon as a round sees the claim no longer live (the deadline passed, the
  turn ended, or another began) or a decision, and in every reachable state it gives an answer
  and no \<open>KeyError\<close>; it never answers \<open>pending\<close>.
\<close>

theorem wait_answers:
  assumes "\<forall>(now, s) \<in> set rounds. \<exists>h. pt_history dg h s"
    and "(now, s) \<in> set rounds" and "\<not> live now (pp_claim r) s \<or> map_of (pt_decisions s) (pp_id r) \<noteq> Some DPending"
  shows "\<exists>d. pt_wait r rounds = Some (Inr d) \<and> d \<noteq> DPending"
  using assms
proof (induction rounds)
  case (Cons x rounds)
  obtain n0 s0 where x: "x = (n0, s0)" by (cases x)
  with Cons.prems(1) obtain h where "pt_history dg h s0" by auto
  then obtain d where d: "pt_wait_round n0 r s0 = Inr d" "d \<noteq> Some DPending" using wait_round_reachable by blast
  show ?case
  proof (cases d)
    case None
    with d have "live n0 (pp_claim r) s0 \<and> map_of (pt_decisions s0) (pp_id r) = Some DPending"
      by (auto simp: pt_wait_round_def split: if_splits option.splits)
    with Cons.prems x have "(now, s) \<in> set rounds" by auto
    with Cons d None x show ?thesis by simp
  qed (use d x in auto)
qed simp

theorem wait_answers_witness:
  "\<exists>s d. (\<exists>h. pt_history (\<lambda>_. u ''d'') h s) \<and> pt_wait demo_request [(5, s)] = Some (Inr d) \<and> d \<noteq> DPending"
proof -
  obtain s where s: "pt_history (\<lambda>_. u ''d'') ((Revoke, True) # demo_history) s" using demo_plays(3) by blast
  then have z: "pt_deadline s = 0" using revoked_by_history [OF s] by (simp add: revoked_by_def)
  have "\<exists>d. pt_wait demo_request [(5, s)] = Some (Inr d) \<and> d \<noteq> DPending"
  proof (rule wait_answers)
    show "\<forall>(now, s) \<in> set [(5 :: int, s)]. \<exists>h. pt_history (\<lambda>_. u ''d'') h s" using s by auto
    show "(5, s) \<in> set [(5 :: int, s)]" by simp
    show "\<not> live 5 (pp_claim demo_request) s \<or> map_of (pt_decisions s) (pp_id demo_request) \<noteq> Some DPending"
      using z by (simp add: live_def)
  qed
  with s show ?thesis by blast
qed

end
