(* ===== verification/FileSystem.thy ===== *)
theory FileSystem
  imports Utf8
begin

text \<open>
  The files the editing workflow works on, and the operations of \<open>pathlib\<close> and \<open>shutil\<close> it uses.
  A path is the list of components of an absolute path without \<open>.\<close>, \<open>..\<close> or symbolic links, so
  \<open>resolve()\<close> changes nothing; permissions, devices and concurrent processes are left out.  An
  operation returns the files it leaves and, like the system call, may fail: what it did before
  failing stays done.
\<close>

type_synonym path = "pystr list"

datatype node = File bytes | Dir

type_synonym fs = "path \<Rightarrow> node option"

datatype os_error =
    FileNotFound path | NotADirectory path | IsADirectory path | FileExists path
  | MoveIntoItself path | DecodeFailure path | EncodeFailure pystr

type_synonym 'a fs_act = "(fs, os_error, 'a) act"

definition path_str :: "path \<Rightarrow> pystr" where
  "path_str p = (if p = [] then u ''/'' else concat (map ((#) 47) p))"

text \<open>The parent of everything is a directory.\<close>

definition fs_ok :: "fs \<Rightarrow> bool" where
  "fs_ok fs \<longleftrightarrow> fs [] = Some Dir \<and> (\<forall>p c. fs (p @ [c]) \<noteq> None \<longrightarrow> fs p = Some Dir)"

definition exists_path :: "fs \<Rightarrow> path \<Rightarrow> bool" where
  "exists_path fs p \<longleftrightarrow> fs p \<noteq> None"

definition is_dir :: "fs \<Rightarrow> path \<Rightarrow> bool" where
  "is_dir fs p \<longleftrightarrow> fs p = Some Dir"

definition is_file :: "fs \<Rightarrow> path \<Rightarrow> bool" where
  "is_file fs p \<longleftrightarrow> (case fs p of Some (File _) \<Rightarrow> True | _ \<Rightarrow> False)"

text \<open>How a system call fails on a path that is not there.\<close>

definition missing :: "fs \<Rightarrow> path \<Rightarrow> os_error" where
  "missing fs p = (if list_ex (\<lambda>k. is_file fs (take k p)) [0..<length p] then NotADirectory p else FileNotFound p)"

section \<open>Text files\<close>

text \<open>Reading translates \<open>\r\n\<close> and \<open>\r\<close> to \<open>\n\<close>; writing translates \<open>\n\<close> to \<open>os.linesep\<close>.\<close>

fun universal_newlines :: "pystr \<Rightarrow> pystr" where
  "universal_newlines [] = []"
| "universal_newlines (c # s) =
     (if c = 13 then 10 # (case s of [] \<Rightarrow> [] | d # r \<Rightarrow> if d = 10 then universal_newlines r else universal_newlines s)
      else c # universal_newlines s)"

definition to_linesep :: "pystr \<Rightarrow> pystr \<Rightarrow> pystr" where
  "to_linesep sep s = concat (map (\<lambda>c. if c = 10 then sep else [c]) s)"

definition read_text :: "path \<Rightarrow> pystr fs_act" where
  "read_text p = (\<lambda>fs. (fs, case fs p of
     None \<Rightarrow> Inl (missing fs p)
   | Some Dir \<Rightarrow> Inl (IsADirectory p)
   | Some (File b) \<Rightarrow> (case utf8_decode b of None \<Rightarrow> Inl (DecodeFailure p) | Some s \<Rightarrow> Inr (universal_newlines s))))"

text \<open>Opening for writing truncates or creates the file; the text is encoded after that.\<close>

definition open_w :: "path \<Rightarrow> unit fs_act" where
  "open_w p = (\<lambda>fs. case fs p of
     Some Dir \<Rightarrow> (fs, Inl (IsADirectory p))
   | Some (File _) \<Rightarrow> (fs(p \<mapsto> File []), Inr ())
   | None \<Rightarrow> (if is_dir fs (butlast p) then (fs(p \<mapsto> File []), Inr ()) else (fs, Inl (missing fs p))))"

definition write_text :: "pystr \<Rightarrow> path \<Rightarrow> pystr \<Rightarrow> unit fs_act" where
  "write_text sep p s =
     abind (open_w p) (\<lambda>_.
     case utf8_encode (to_linesep sep s) of
       None \<Rightarrow> throw (EncodeFailure s)
     | Some b \<Rightarrow> writes (\<lambda>fs. fs(p \<mapsto> File b)))"

section \<open>Trees\<close>

text \<open>\<open>mkdir(parents=True, exist_ok=True)\<close>, on the path reversed.\<close>

fun mkdir_rev :: "path \<Rightarrow> unit fs_act" where
  "mkdir_rev [] = (\<lambda>fs. (fs, if is_dir fs [] then Inr () else Inl (missing fs [])))"
| "mkdir_rev (c # r) = (\<lambda>fs. let p = rev r @ [c] in case fs p of
     Some Dir \<Rightarrow> (fs, Inr ())
   | Some (File _) \<Rightarrow> (fs, Inl (FileExists p))
   | None \<Rightarrow> (case missing fs p of
         NotADirectory q \<Rightarrow> (fs, Inl (NotADirectory q))
       | _ \<Rightarrow> abind (mkdir_rev r) (\<lambda>_. writes (\<lambda>fs. fs(p \<mapsto> Dir))) fs))"

definition mkdir_parents :: "path \<Rightarrow> unit fs_act" where
  "mkdir_parents p = mkdir_rev (rev p)"

text \<open>\<open>shutil.rmtree\<close> of a directory, or \<open>unlink\<close> of a file.\<close>

definition remove_tree :: "path \<Rightarrow> fs \<Rightarrow> fs" where
  "remove_tree p fs = (\<lambda>q. if prefix p q then None else fs q)"

definition unlink :: "path \<Rightarrow> unit fs_act" where
  "unlink p = (\<lambda>fs. case fs p of
     None \<Rightarrow> (fs, Inl (missing fs p))
   | Some Dir \<Rightarrow> (fs, Inl (IsADirectory p))
   | Some (File _) \<Rightarrow> (fs(p := None), Inr ()))"

definition graft :: "path \<Rightarrow> path \<Rightarrow> fs \<Rightarrow> fs \<Rightarrow> fs" where
  "graft src dst from fs = (\<lambda>q. if prefix dst q then from (src @ drop (length dst) q) else fs q)"

text \<open>
  \<open>shutil.move\<close>: into \<open>dst\<close> when it is a directory, else \<open>os.rename\<close>.  Where \<open>rename\<close> fails, the
  fallback of the library fails with the error given here.
\<close>

definition move_target :: "fs \<Rightarrow> path \<Rightarrow> path \<Rightarrow> path" where
  "move_target fs src dst = (if is_dir fs dst then dst @ [last src] else dst)"

definition rename :: "path \<Rightarrow> path \<Rightarrow> unit fs_act" where
  "rename src dst = (\<lambda>fs. case fs src of
     None \<Rightarrow> (fs, Inl (missing fs src))
   | Some n \<Rightarrow>
       if n = Dir \<and> strict_prefix src dst then (fs, Inl (MoveIntoItself dst))
       else if \<not> is_dir fs (butlast dst) then (fs, Inl (missing fs dst))
       else if n = Dir \<and> exists_path fs dst then (fs, Inl (FileExists dst))
       else (graft src dst fs (remove_tree src fs), Inr ()))"

definition shutil_move :: "path \<Rightarrow> path \<Rightarrow> unit fs_act" where
  "shutil_move src dst = (\<lambda>fs.
     if is_dir fs dst \<and> exists_path fs (move_target fs src dst) then (fs, Inl (FileExists (move_target fs src dst)))
     else rename src (move_target fs src dst) fs)"

definition copytree :: "path \<Rightarrow> path \<Rightarrow> unit fs_act" where
  "copytree src dst = (\<lambda>fs.
     if exists_path fs dst then (fs, Inl (FileExists dst))
     else if \<not> is_dir fs src then (fs, Inl (missing fs src))
     else (case mkdir_parents dst fs of
         (fs', Inl e) \<Rightarrow> (fs', Inl e)
       | (fs', Inr _) \<Rightarrow> (graft src dst fs fs', Inr ())))"

definition copy2 :: "path \<Rightarrow> path \<Rightarrow> unit fs_act" where
  "copy2 src dst = (\<lambda>fs. case fs src of
     None \<Rightarrow> (fs, Inl (missing fs src))
   | Some Dir \<Rightarrow> (fs, Inl (IsADirectory src))
   | Some (File b) \<Rightarrow> abind (open_w (move_target fs src dst)) (\<lambda>_. writes (\<lambda>fs'. fs'(move_target fs src dst \<mapsto> File b))) fs)"

section \<open>What an operation may change\<close>

text \<open>
  \<open>confined A D\<close>: outside \<open>A\<close> nothing changes, except that missing paths in \<open>D\<close> become
  directories.
\<close>

definition confined :: "(path \<Rightarrow> bool) \<Rightarrow> (path \<Rightarrow> bool) \<Rightarrow> fs \<Rightarrow> fs \<Rightarrow> bool" where
  "confined A D fs fs' \<longleftrightarrow> (\<forall>q. fs' q = fs q \<or> A q \<or> D q \<and> fs q = None \<and> fs' q = Some Dir)"

lemma reflp_confined [simp, intro]: "reflp (confined A D)"
  by (auto simp: reflp_def confined_def)

lemma transp_confined [simp, intro]: "transp (confined A D)"
  unfolding transp_def confined_def by (metis option.distinct(1))

lemma confined_read [inv_intros]: "keeps (confined A D) (read_text p)"
  by (auto simp: keeps_def read_text_def confined_def)

lemma confined_writes [inv_intros]: "A p \<Longrightarrow> keeps (confined A D) (writes (\<lambda>fs. fs(p := n)))"
  by (auto simp: keeps_def writes_def confined_def)

lemma confined_open [inv_intros]: "A p \<Longrightarrow> keeps (confined A D) (open_w p)"
  by (auto simp: keeps_def open_w_def confined_def split: option.splits node.splits)

lemma confined_write [inv_intros]: "A p \<Longrightarrow> keeps (confined A D) (write_text sep p s)"
  unfolding write_text_def
  by (intro keeps_abind transp_confined confined_open)
    (auto split: option.splits intro: keeps_pure(2) confined_writes)

lemma confined_mkdir_rev: "(\<And>q. prefix q (rev r) \<Longrightarrow> D q) \<Longrightarrow> confined A D fs (fst (mkdir_rev r fs))"
proof (induction r arbitrary: fs)
  case Nil
  then show ?case by (simp add: confined_def)
next
  case (Cons c r)
  obtain fs1 x where m: "mkdir_rev r fs = (fs1, x)" by (cases "mkdir_rev r fs")
  have "D q" if "prefix q (rev r)" for q using Cons.prems [of q] that by simp
  then have c: "confined A D fs fs1" using Cons.IH [of fs] m by simp
  have D: "D (rev r @ [c])" using Cons.prems [of "rev r @ [c]"] by simp
  show ?case
  proof (cases "fs (rev r @ [c])")
    case None
    have "confined A D fs (fs1(rev r @ [c] \<mapsto> Dir))" using c D None by (auto simp: confined_def)
    with None c m show ?thesis
      by (cases x) (auto simp: Let_def abind_def writes_def confined_def split: os_error.splits)
  next
    case (Some n)
    then show ?thesis by (cases n) (simp_all add: confined_def)
  qed
qed

lemma confined_mkdir [inv_intros]: "(\<And>q. prefix q p \<Longrightarrow> D q) \<Longrightarrow> keeps (confined A D) (mkdir_parents p)"
  unfolding keeps_def mkdir_parents_def by (intro allI confined_mkdir_rev) simp

lemma confined_graft: "confined A D fs fs' \<Longrightarrow> (\<And>q. prefix dst q \<Longrightarrow> A q) \<Longrightarrow> confined A D fs (graft src dst from fs')"
  by (simp add: confined_def graft_def)

lemma confined_remove: "(\<And>q. prefix p q \<Longrightarrow> A q) \<Longrightarrow> confined A D fs (remove_tree p fs)"
  by (simp add: confined_def remove_tree_def)

lemma confined_unlink [inv_intros]: "A p \<Longrightarrow> keeps (confined A D) (unlink p)"
  by (auto simp: keeps_def unlink_def confined_def split: option.splits node.splits)

lemma move_target_below: "prefix (move_target fs src dst) q \<Longrightarrow> prefix dst q"
  by (auto simp: move_target_def prefix_def split: if_splits)

lemma confined_same [simp]: "confined A D fs fs"
  by (simp add: confined_def)

lemma confined_move [inv_intros]:
  assumes "\<And>q. prefix src q \<or> prefix dst q \<Longrightarrow> A q"
  shows "keeps (confined A D) (shutil_move src dst)"
proof -
  have "confined A D fs (graft src (move_target fs src dst) fs (remove_tree src fs))" for fs
    using assms move_target_below by (intro confined_graft confined_remove) blast+
  then show ?thesis
    unfolding keeps_def shutil_move_def rename_def by (simp split: option.split)
qed

lemma confined_copytree [inv_intros]:
  assumes "\<And>q. prefix dst q \<Longrightarrow> A q" and "\<And>q. prefix q dst \<Longrightarrow> D q"
  shows "keeps (confined A D) (copytree src dst)"
proof -
  have g: "confined A D fs fs' \<and> confined A D fs (graft src dst fs fs')" if m: "mkdir_parents dst fs = (fs', x)" for fs fs' x
  proof -
    have c: "confined A D fs fs'" using keepsD [OF confined_mkdir [of dst D A] m] assms(2) by simp
    from c confined_graft [OF c assms(1)] show ?thesis by simp
  qed
  show ?thesis
    unfolding keeps_def
  proof
    fix fs
    obtain fs' x where m: "mkdir_parents dst fs = (fs', x)" by (cases "mkdir_parents dst fs")
    from g [OF m] show "confined A D fs (fst (copytree src dst fs))"
      unfolding copytree_def m by (cases x) simp_all
  qed
qed

lemma confined_copy2 [inv_intros]:
  assumes "\<And>q. prefix dst q \<Longrightarrow> A q"
  shows "keeps (confined A D) (copy2 src dst)"
proof -
  have "keeps (confined A D) (abind (open_w (move_target fs src dst)) (\<lambda>_. writes (\<lambda>fs'. fs'(move_target fs src dst \<mapsto> File b))))" for fs b
    using assms move_target_below [of fs src dst "move_target fs src dst"]
    by (intro keeps_abind transp_confined confined_open confined_writes) auto
  then show ?thesis
    unfolding keeps_def copy2_def by (simp split: option.split node.split)
qed

section \<open>Successful reads and writes\<close>

lemma read_text_state [simp]: "fst (read_text p fs) = fs"
  by (simp add: read_text_def)

lemma write_text_result:
  assumes "write_text sep p s fs = (fs', Inr x)"
  obtains b where "utf8_encode (to_linesep sep s) = Some b" and "fs' = fs(p \<mapsto> File b)"
proof -
  from assms obtain b fs1 where b: "utf8_encode (to_linesep sep s) = Some b" and o1: "open_w p fs = (fs1, Inr ())"
    and fs': "fs' = fs1(p \<mapsto> File b)"
    unfolding write_text_def abind_Inr_iff by (auto split: option.splits simp: throw_def)
  from o1 have "fs1 = fs(p \<mapsto> File [])" by (auto simp: open_w_def split: option.splits node.splits if_splits)
  with fs' that b show ?thesis by simp
qed

text \<open>A text without carriage returns survives the round trip through a file, with either line separator.\<close>

lemma universal_newlines_plain: "13 \<notin> set s \<Longrightarrow> universal_newlines s = s"
  by (induction s) auto

lemma universal_newlines_crlf: "13 \<notin> set s \<Longrightarrow> universal_newlines (to_linesep [13, 10] s) = s"
  by (induction s) (auto simp: to_linesep_def)

lemma to_linesep_lf [simp]: "to_linesep [10] s = s"
  by (induction s) (auto simp: to_linesep_def)

lemma write_then_read:
  assumes "sep = [10] \<or> sep = [13, 10]" and "13 \<notin> set s" and "write_text sep p s fs = (fs', Inr x)"
  shows "snd (read_text p fs') = Inr s"
proof -
  obtain b where b: "utf8_encode (to_linesep sep s) = Some b" "fs' = fs(p \<mapsto> File b)"
    using assms(3) by (rule write_text_result)
  from b(1) have "utf8_decode b = Some (to_linesep sep s)" by (simp add: utf8_roundtrip)
  with b assms(1,2) show ?thesis
    by (auto simp: read_text_def universal_newlines_plain universal_newlines_crlf)
qed

end
