(* ===== verification/Difflib.thy ===== *)
theory Difflib
  imports PyText
begin

text \<open>
  The parts of the standard library the editing workflow computes with: \<open>str.splitlines\<close> and
  \<open>difflib\<close>'s \<open>SequenceMatcher\<close> (without a junk function; \<open>auto\<close> is its \<open>autojunk\<close> argument)
  and \<open>unified_diff\<close>.  The result shown is that the opcodes tile both sequences and that an
  \<open>equal\<close> opcode spans equal slices.
\<close>

section \<open>Lines\<close>

definition is_break :: "pychar \<Rightarrow> bool" where
  "is_break c \<longleftrightarrow> (10 \<le> c \<and> c \<le> 13) \<or> (28 \<le> c \<and> c \<le> 30) \<or> c = 133 \<or> c = 8232 \<or> c = 8233"

text \<open>\<open>splitlines(keepends=True)\<close>\<close>

fun splitlines_keep :: "pystr \<Rightarrow> pystr list" where
  "splitlines_keep [] = []"
| "splitlines_keep [c] = [[c]]"
| "splitlines_keep (c # d # s) =
     (if c = 13 \<and> d = 10 then [13, 10] # splitlines_keep s
      else if is_break c then [c] # splitlines_keep (d # s)
      else (case splitlines_keep (d # s) of [] \<Rightarrow> [[c]] | w # ws \<Rightarrow> (c # w) # ws))"

definition drop_break :: "pystr \<Rightarrow> pystr" where
  "drop_break w = (if ends_with w [13, 10] then butlast (butlast w)
     else if w \<noteq> [] \<and> is_break (last w) then butlast w else w)"

definition splitlines :: "pystr \<Rightarrow> pystr list" where
  "splitlines s = map drop_break (splitlines_keep s)"

lemma concat_splitlines_keep: "concat (splitlines_keep s) = s"
proof (induction s rule: splitlines_keep.induct)
  case (3 c d s)
  then show ?case by (cases "splitlines_keep (d # s)") auto
qed simp_all

section \<open>The longest match\<close>

type_synonym block = "nat \<times> nat \<times> nat"

text \<open>\<open>b2j\<close>: the positions of an element in \<open>b\<close>, none for a popular one when \<open>auto\<close>.\<close>

definition positions :: "bool \<Rightarrow> 'a list \<Rightarrow> 'a \<Rightarrow> nat list" where
  "positions auto b x =
     (let js = filter (\<lambda>j. b ! j = x) [0..<length b] in
      if auto \<and> 200 \<le> length b \<and> length b div 100 + 1 < length js then [] else js)"

definition run_length :: "(nat \<times> nat) list \<Rightarrow> nat \<Rightarrow> nat" where
  "run_length runs j = (case map_of runs j of None \<Rightarrow> 0 | Some k \<Rightarrow> k)"

text \<open>The loop over the positions \<open>j\<close> of \<open>a[i]\<close>: new run lengths and the best block so far.\<close>

fun match_row :: "nat \<Rightarrow> nat \<Rightarrow> nat \<Rightarrow> (nat \<times> nat) list \<Rightarrow> nat list \<Rightarrow> (nat \<times> nat) list \<Rightarrow> block \<Rightarrow> (nat \<times> nat) list \<times> block" where
  "match_row i blo bhi runs [] new best = (new, best)"
| "match_row i blo bhi runs (j # js) new (bi, bj, bk) =
     (if j < blo then match_row i blo bhi runs js new (bi, bj, bk)
      else if bhi \<le> j then (new, (bi, bj, bk))
      else let k = (if j = 0 then 0 else run_length runs (j - 1)) + 1 in
        match_row i blo bhi runs js ((j, k) # new) (if bk < k then (i + 1 - k, j + 1 - k, k) else (bi, bj, bk)))"

fun match_rows :: "bool \<Rightarrow> 'a list \<Rightarrow> 'a list \<Rightarrow> nat \<Rightarrow> nat \<Rightarrow> nat list \<Rightarrow> (nat \<times> nat) list \<Rightarrow> block \<Rightarrow> block" where
  "match_rows auto a b blo bhi [] runs best = best"
| "match_rows auto a b blo bhi (i # is) runs best =
     (let (new, best') = match_row i blo bhi runs (positions auto b (a ! i)) [] best in
      match_rows auto a b blo bhi is new best')"

fun extend_left :: "'a list \<Rightarrow> 'a list \<Rightarrow> nat \<Rightarrow> nat \<Rightarrow> nat \<Rightarrow> block \<Rightarrow> block" where
  "extend_left a b alo blo 0 (i, j, k) = (i, j, k)"
| "extend_left a b alo blo (Suc n) (i, j, k) =
     (if alo < i \<and> blo < j \<and> a ! (i - 1) = b ! (j - 1) then extend_left a b alo blo n (i - 1, j - 1, k + 1) else (i, j, k))"

fun extend_right :: "'a list \<Rightarrow> 'a list \<Rightarrow> nat \<Rightarrow> nat \<Rightarrow> nat \<Rightarrow> block \<Rightarrow> block" where
  "extend_right a b ahi bhi 0 (i, j, k) = (i, j, k)"
| "extend_right a b ahi bhi (Suc n) (i, j, k) =
     (if i + k < ahi \<and> j + k < bhi \<and> a ! (i + k) = b ! (j + k) then extend_right a b ahi bhi n (i, j, k + 1) else (i, j, k))"

text \<open>The two \<open>while\<close> loops take at most \<open>i\<close> and \<open>ahi\<close> rounds.\<close>

definition find_longest_match :: "bool \<Rightarrow> 'a list \<Rightarrow> 'a list \<Rightarrow> nat \<Rightarrow> nat \<Rightarrow> nat \<Rightarrow> nat \<Rightarrow> block" where
  "find_longest_match auto a b alo ahi blo bhi =
     (let (i, j, k) = match_rows auto a b blo bhi [alo..<ahi] [] (alo, blo, 0);
          (i', j', k') = extend_left a b alo blo i (i, j, k)
      in extend_right a b ahi bhi ahi (i', j', k'))"

definition block_ok :: "'a list \<Rightarrow> 'a list \<Rightarrow> nat \<Rightarrow> nat \<Rightarrow> nat \<Rightarrow> nat \<Rightarrow> block \<Rightarrow> bool" where
  "block_ok a b alo ahi blo bhi = (\<lambda>(i, j, k). alo \<le> i \<and> blo \<le> j \<and> i + k \<le> ahi \<and> j + k \<le> bhi \<and>
     (\<forall>d < k. a ! (i + d) = b ! (j + d)))"

definition run_ok :: "'a list \<Rightarrow> 'a list \<Rightarrow> nat \<Rightarrow> nat \<Rightarrow> nat \<Rightarrow> nat \<Rightarrow> nat \<Rightarrow> nat \<Rightarrow> bool" where
  "run_ok a b alo blo bhi i j k \<longleftrightarrow> blo \<le> j \<and> j < bhi \<and> k \<le> i + 1 - alo \<and> k \<le> j + 1 - blo \<and>
     (\<forall>d < k. a ! (i - d) = b ! (j - d))"

lemma positions_nth: "j \<in> set (positions auto b x) \<Longrightarrow> b ! j = x"
  by (auto simp: positions_def Let_def split: if_splits)

lemma run_ok_block:
  assumes "run_ok a b alo blo bhi i j k" and "alo \<le> i" and "i < ahi"
  shows "block_ok a b alo ahi blo bhi (i + 1 - k, j + 1 - k, k)"
proof -
  have "a ! (i + 1 - k + d) = b ! (j + 1 - k + d)" if "d < k" for d
  proof -
    have "k - 1 - d < k" using that by simp
    then have "a ! (i - (k - 1 - d)) = b ! (j - (k - 1 - d))"
      using assms(1) unfolding run_ok_def by blast
    moreover have "i - (k - 1 - d) = i + 1 - k + d" "j - (k - 1 - d) = j + 1 - k + d"
      using assms that by (auto simp: run_ok_def)
    ultimately show ?thesis by (simp only:)
  qed
  with assms show ?thesis by (auto simp: block_ok_def run_ok_def)
qed

lemma run_ok_extend:
  assumes "a ! i = b ! j" and "blo \<le> j" and "j < bhi" and "alo \<le> i"
    and "k = 0 \<or> (\<exists>i' j'. i = Suc i' \<and> j = Suc j' \<and> run_ok a b alo blo bhi i' j' k \<and> alo \<le> i')"
  shows "run_ok a b alo blo bhi i j (k + 1)"
proof -
  have "a ! (i - d) = b ! (j - d)" if "d < k + 1" for d
    using that assms(1,5) by (cases d) (auto simp: run_ok_def)
  with assms show ?thesis by (auto simp: run_ok_def)
qed

lemma match_row_ok:
  assumes "\<forall>j \<in> set js. b ! j = a ! i" and "alo \<le> i" and "i < ahi"
    and "block_ok a b alo ahi blo bhi best"
    and "\<forall>j k. map_of runs j = Some k \<longrightarrow> k = 0 \<or> (\<exists>i'. i = Suc i' \<and> alo \<le> i' \<and> run_ok a b alo blo bhi i' j k)"
    and "\<forall>j k. map_of new j = Some k \<longrightarrow> run_ok a b alo blo bhi i j k"
    and "match_row i blo bhi runs js new best = (new', best')"
  shows "block_ok a b alo ahi blo bhi best' \<and> (\<forall>j k. map_of new' j = Some k \<longrightarrow> run_ok a b alo blo bhi i j k)"
  using assms
proof (induction i blo bhi runs js new best rule: match_row.induct)
  case (2 i blo bhi runs j js new bi bj bk)
  let ?k = "(if j = 0 then 0 else run_length runs (j - 1)) + 1"
  consider "j < blo" | "bhi \<le> j" "\<not> j < blo" | "blo \<le> j" "j < bhi" by linarith
  then show ?case
  proof cases
    case 1
    have js: "\<forall>j \<in> set js. b ! j = a ! i" using 2(3) by simp
    have run: "match_row i blo bhi runs js new (bi, bj, bk) = (new', best')"
      using 2(9) 1 by (simp only: match_row.simps if_True)
    show ?thesis by (rule 2(1) [OF 1 js 2(4-8) run])
  next
    case 2
    then have "(new, (bi, bj, bk)) = (new', best')" using "2.prems"(7) by (simp only: match_row.simps if_True if_False)
    then show ?thesis using "2.prems"(4,6) by auto
  next
    case 3
    have "(if j = 0 then 0 else run_length runs (j - 1)) = 0 \<or>
        (\<exists>i' j'. i = Suc i' \<and> j = Suc j' \<and> run_ok a b alo blo bhi i' j' (if j = 0 then 0 else run_length runs (j - 1)) \<and> alo \<le> i')"
      using 2(7) by (cases j) (auto simp: run_length_def split: option.splits)
    then have r: "run_ok a b alo blo bhi i j ?k"
      using 2(3,4) 3 by (intro run_ok_extend) auto
    then have new: "\<forall>j' k. map_of ((j, ?k) # new) j' = Some k \<longrightarrow> run_ok a b alo blo bhi i j' k"
      using 2(8) by (simp only: map_of.simps fun_upd_apply split_beta fst_conv snd_conv) auto
    have best: "block_ok a b alo ahi blo bhi (if bk < ?k then (i + 1 - ?k, j + 1 - ?k, ?k) else (bi, bj, bk))"
      using run_ok_block [OF r 2(4,5)] 2(6) by presburger
    have js: "\<forall>j \<in> set js. b ! j = a ! i" using 2(3) by simp
    have run: "match_row i blo bhi runs js ((j, ?k) # new) (if bk < ?k then (i + 1 - ?k, j + 1 - ?k, ?k) else (bi, bj, bk)) = (new', best')"
    proof -
      have "\<not> j < blo" "\<not> bhi \<le> j" using 3 by auto
      then show ?thesis using 2(9) by (simp only: match_row.simps if_False Let_def)
    qed
    show ?thesis
      by (rule 2(2) [OF _ _ refl js 2(4,5) best 2(7) new run]) (use 3 in auto)
  qed
qed auto

lemma match_rows_ok:
  assumes "rows = [i..<ahi]" and "alo \<le> i" and "block_ok a b alo ahi blo bhi best"
    and "\<forall>j k. map_of runs j = Some k \<longrightarrow> k = 0 \<or> (\<exists>i'. i = Suc i' \<and> alo \<le> i' \<and> run_ok a b alo blo bhi i' j k)"
  shows "block_ok a b alo ahi blo bhi (match_rows auto a b blo bhi rows runs best)"
  using assms
proof (induction rows arbitrary: i runs best)
  case (Cons i0 rest)
  have "i < ahi" using Cons.prems(1) by (cases "i < ahi") auto
  then have i0: "i0 = i" "rest = [Suc i..<ahi]" "i < ahi" using Cons.prems(1) by (simp_all add: upt_conv_Cons)
  obtain new best' where m: "match_row i blo bhi runs (positions auto b (a ! i)) [] best = (new, best')"
    by (cases "match_row i blo bhi runs (positions auto b (a ! i)) [] best")
  have "\<forall>j \<in> set (positions auto b (a ! i)). b ! j = a ! i" using positions_nth by fast
  from match_row_ok [OF this Cons.prems(2) i0(3) Cons.prems(3,4) _ m]
  have "block_ok a b alo ahi blo bhi best' \<and> (\<forall>j k. map_of new j = Some k \<longrightarrow> run_ok a b alo blo bhi i j k)" by simp
  then have "block_ok a b alo ahi blo bhi (match_rows auto a b blo bhi rest new best')"
    using Cons.prems(2) by (intro Cons.IH [of "Suc i"]) (auto simp: i0(2))
  then show ?case using m i0(1) by simp
qed simp

lemma extend_left_ok:
  "block_ok a b alo ahi blo bhi (i, j, k) \<Longrightarrow>
   block_ok a b alo ahi blo bhi (extend_left a b alo blo n (i, j, k))"
proof (induction a b alo blo n "(i, j, k)" arbitrary: i j k rule: extend_left.induct)
  case (2 a b alo blo n i j k)
  show ?case
  proof (cases "alo < i \<and> blo < j \<and> a ! (i - 1) = b ! (j - 1)")
    case True
    have "a ! (i - 1 + d) = b ! (j - 1 + d)" if "d < k + 1" for d
      using True 2(2) that by (cases d) (auto simp: block_ok_def)
    with True 2(2) have "block_ok a b alo ahi blo bhi (i - 1, j - 1, k + 1)" by (auto simp: block_ok_def)
    from 2(1) [OF True this] True show ?thesis by simp
  qed (use 2 in auto)
qed auto

lemma extend_right_ok:
  "block_ok a b alo ahi blo bhi (i, j, k) \<Longrightarrow> block_ok a b alo ahi blo bhi (extend_right a b ahi bhi n (i, j, k))"
proof (induction a b ahi bhi n "(i, j, k)" arbitrary: i j k rule: extend_right.induct)
  case (2 a b ahi bhi n i j k)
  show ?case
  proof (cases "i + k < ahi \<and> j + k < bhi \<and> a ! (i + k) = b ! (j + k)")
    case True
    have "a ! (i + d) = b ! (j + d)" if "d < k + 1" for d
      using True 2(2) that by (cases "d = k") (auto simp: block_ok_def)
    with True 2(2) have "block_ok a b alo ahi blo bhi (i, j, k + 1)" by (auto simp: block_ok_def)
    from 2(1) [OF True this] True show ?thesis by simp
  qed (use 2 in auto)
qed auto

lemma find_longest_match_ok:
  assumes "alo \<le> ahi" and "blo \<le> bhi"
  shows "block_ok a b alo ahi blo bhi (find_longest_match auto a b alo ahi blo bhi)"
proof -
  obtain i j k where m: "match_rows auto a b blo bhi [alo..<ahi] [] (alo, blo, 0) = (i, j, k)" by (metis prod.exhaust)
  obtain i' j' k' where l: "extend_left a b alo blo i (i, j, k) = (i', j', k')" by (metis prod.exhaust)
  have "block_ok a b alo ahi blo bhi (i, j, k)"
    using match_rows_ok [where i = alo and rows = "[alo..<ahi]" and alo = alo and best = "(alo, blo, 0)" and runs = "[]",
        of ahi a b blo bhi auto] assms m
    by (simp add: block_ok_def)
  from extend_left_ok [OF this, of i] have "block_ok a b alo ahi blo bhi (i', j', k')" unfolding l .
  from extend_right_ok [OF this, of ahi] show ?thesis
    unfolding find_longest_match_def m Let_def by (simp add: l)
qed

section \<open>Matching blocks and opcodes\<close>

function matching :: "bool \<Rightarrow> 'a list \<Rightarrow> 'a list \<Rightarrow> nat \<Rightarrow> nat \<Rightarrow> nat \<Rightarrow> nat \<Rightarrow> block list" where
  "matching auto a b alo ahi blo bhi =
     (if ahi < alo \<or> bhi < blo then []
      else let (i, j, k) = find_longest_match auto a b alo ahi blo bhi in
        if k = 0 then []
        else (if alo < i \<and> blo < j then matching auto a b alo i blo j else []) @ [(i, j, k)] @
             (if i + k < ahi \<and> j + k < bhi then matching auto a b (i + k) ahi (j + k) bhi else []))"
  by pat_completeness auto
termination
proof (relation "measure (\<lambda>(auto, a, b, alo, ahi, blo, bhi). (ahi - alo) + (bhi - blo))", goal_cases)
  case (2 auto a b alo ahi blo bhi x i y j k)
  then show ?case using find_longest_match_ok [of alo ahi blo bhi a b auto] by (auto simp: block_ok_def)
next
  case (3 auto a b alo ahi blo bhi x i y j k)
  then show ?case using find_longest_match_ok [of alo ahi blo bhi a b auto] by (auto simp: block_ok_def)
qed simp

declare matching.simps [simp del]

text \<open>Adjacent blocks are joined; a block of size 0 ends the list.\<close>

fun join_blocks :: "block \<Rightarrow> block list \<Rightarrow> block list" where
  "join_blocks (i, j, k) [] = (if k = 0 then [] else [(i, j, k)])"
| "join_blocks (i, j, k) ((i', j', k') # bs) =
     (if i + k = i' \<and> j + k = j' then join_blocks (i, j, k + k') bs
      else (if k = 0 then [] else [(i, j, k)]) @ join_blocks (i', j', k') bs)"

definition matching_blocks :: "bool \<Rightarrow> 'a list \<Rightarrow> 'a list \<Rightarrow> block list" where
  "matching_blocks auto a b =
     join_blocks (0, 0, 0) (matching auto a b 0 (length a) 0 (length b)) @ [(length a, length b, 0)]"

datatype opcode_tag = OEqual | OReplace | ODelete | OInsert

type_synonym opcode = "opcode_tag \<times> nat \<times> nat \<times> nat \<times> nat"

fun opcodes_from :: "nat \<Rightarrow> nat \<Rightarrow> block list \<Rightarrow> opcode list" where
  "opcodes_from i j [] = []"
| "opcodes_from i j ((ai, bj, n) # bs) =
     (if i < ai \<and> j < bj then [(OReplace, i, ai, j, bj)] else if i < ai then [(ODelete, i, ai, j, bj)]
      else if j < bj then [(OInsert, i, ai, j, bj)] else []) @
     (if n = 0 then [] else [(OEqual, ai, ai + n, bj, bj + n)]) @
     opcodes_from (ai + n) (bj + n) bs"

definition get_opcodes :: "bool \<Rightarrow> 'a list \<Rightarrow> 'a list \<Rightarrow> opcode list" where
  "get_opcodes auto a b = opcodes_from 0 0 (matching_blocks auto a b)"

text \<open>Blocks in order within a rectangle, each over equal slices.\<close>

fun blocks_chain :: "'a list \<Rightarrow> 'a list \<Rightarrow> nat \<Rightarrow> nat \<Rightarrow> nat \<Rightarrow> nat \<Rightarrow> block list \<Rightarrow> bool" where
  "blocks_chain a b i j i' j' [] = (i \<le> i' \<and> j \<le> j')"
| "blocks_chain a b i j i' j' ((ai, bj, k) # bs) =
     (i \<le> ai \<and> j \<le> bj \<and> (\<forall>d < k. a ! (ai + d) = b ! (bj + d)) \<and> blocks_chain a b (ai + k) (bj + k) i' j' bs)"

lemma blocks_chain_append:
  "blocks_chain a b i j m n xs \<Longrightarrow> blocks_chain a b m n i' j' ys \<Longrightarrow> blocks_chain a b i j i' j' (xs @ ys)"
proof (induction xs arbitrary: i j)
  case Nil
  then show ?case by (cases ys) auto
next
  case (Cons x xs)
  then show ?case by (cases x) auto
qed

lemma matching_chain: "alo \<le> ahi \<Longrightarrow> blo \<le> bhi \<Longrightarrow> blocks_chain a b alo blo ahi bhi (matching auto a b alo ahi blo bhi)"
proof (induction auto a b alo ahi blo bhi rule: matching.induct)
  case (1 auto a b alo ahi blo bhi)
  obtain i j k where f: "find_longest_match auto a b alo ahi blo bhi = (i, j, k)" by (metis prod.exhaust)
  have ok: "block_ok a b alo ahi blo bhi (i, j, k)" using find_longest_match_ok [OF 1(3,4), of a b auto] f by simp
  show ?case
  proof (cases "k = 0")
    case True
    with 1(3,4) show ?thesis by (subst matching.simps) (simp add: f)
  next
    case False
    have "blocks_chain a b alo blo i j (if alo < i \<and> blo < j then matching auto a b alo i blo j else [])"
      using 1(1) [OF _ f [symmetric] refl refl False] 1(3,4) ok by (auto simp: block_ok_def)
    moreover have "blocks_chain a b (i + k) (j + k) ahi bhi (if i + k < ahi \<and> j + k < bhi then matching auto a b (i + k) ahi (j + k) bhi else [])"
      using 1(2) [OF _ f [symmetric] refl refl False] 1(3,4) ok False by (auto simp: block_ok_def)
    then have "blocks_chain a b i j ahi bhi ([(i, j, k)] @ (if i + k < ahi \<and> j + k < bhi then matching auto a b (i + k) ahi (j + k) bhi else []))"
      using ok by (auto simp: block_ok_def)
    ultimately have "blocks_chain a b alo blo ahi bhi ((if alo < i \<and> blo < j then matching auto a b alo i blo j else []) @
        ([(i, j, k)] @ (if i + k < ahi \<and> j + k < bhi then matching auto a b (i + k) ahi (j + k) bhi else [])))"
      by (rule blocks_chain_append)
    then show ?thesis using 1(3,4) False by (subst matching.simps) (simp add: f)
  qed
qed

lemma join_blocks_chain:
  "blocks_chain a b (i0 + k0) (j0 + k0) i' j' bs \<Longrightarrow> i \<le> i0 \<Longrightarrow> j \<le> j0 \<Longrightarrow> \<forall>d < k0. a ! (i0 + d) = b ! (j0 + d) \<Longrightarrow>
   blocks_chain a b i j i' j' (join_blocks (i0, j0, k0) bs)"
proof (induction "(i0, j0, k0)" bs arbitrary: i j i0 j0 k0 rule: join_blocks.induct)
  case (2 i0 j0 k0 i1 j1 k1 bs)
  show ?case
  proof (cases "i0 + k0 = i1 \<and> j0 + k0 = j1")
    case True
    have "a ! (i0 + d) = b ! (j0 + d)" if "d < k0 + k1" for d
    proof (cases "d < k0")
      case False
      with that have "d - k0 < k1" by simp
      with 2(3) have "a ! (i1 + (d - k0)) = b ! (j1 + (d - k0))" by simp
      moreover have "i1 + (d - k0) = i0 + d" "j1 + (d - k0) = j0 + d" using True False by auto
      ultimately show ?thesis by (simp only:)
    qed (use 2(6) in simp)
    moreover have "blocks_chain a b (i0 + (k0 + k1)) (j0 + (k0 + k1)) i' j' bs"
      using 2(3) True by (auto simp: add.assoc [symmetric])
    ultimately show ?thesis using 2(1) [OF True] 2(4,5) True by simp
  next
    case False
    from 2(3) have "blocks_chain a b (i1 + k1) (j1 + k1) i' j' bs" "\<forall>d<k1. a ! (i1 + d) = b ! (j1 + d)"
      "i0 + k0 \<le> i1" "j0 + k0 \<le> j1" by auto
    with False 2(2) 2(4-6) show ?thesis by auto
  qed
qed auto

lemma matching_blocks_chain: "blocks_chain a b 0 0 (length a) (length b) (matching_blocks auto a b)"
proof -
  have "blocks_chain a b 0 0 (length a) (length b) (join_blocks (0, 0, 0) (matching auto a b 0 (length a) 0 (length b)))"
    using matching_chain [of 0 "length a" 0 "length b" a b auto] by (intro join_blocks_chain) auto
  then show ?thesis unfolding matching_blocks_def by (rule blocks_chain_append) simp
qed

text \<open>Opcodes that go from \<open>(i, j)\<close> to \<open>(i', j')\<close> without gaps, \<open>equal\<close> ones over equal slices.\<close>

fun opcodes_tile :: "'a list \<Rightarrow> 'a list \<Rightarrow> nat \<Rightarrow> nat \<Rightarrow> nat \<Rightarrow> nat \<Rightarrow> opcode list \<Rightarrow> bool" where
  "opcodes_tile a b i j i' j' [] = (i = i' \<and> j = j')"
| "opcodes_tile a b i j i' j' ((tag, i1, i2, j1, j2) # ops) =
     (i1 = i \<and> j1 = j \<and> i1 \<le> i2 \<and> j1 \<le> j2 \<and>
      (case tag of OEqual \<Rightarrow> i2 - i1 = j2 - j1 \<and> (\<forall>d < i2 - i1. a ! (i1 + d) = b ! (j1 + d))
       | OReplace \<Rightarrow> i1 < i2 \<and> j1 < j2 | ODelete \<Rightarrow> i1 < i2 \<and> j1 = j2 | OInsert \<Rightarrow> i1 = i2 \<and> j1 < j2) \<and>
      opcodes_tile a b i2 j2 i' j' ops)"

lemma opcodes_tile_append:
  "opcodes_tile a b i j m n xs \<Longrightarrow> opcodes_tile a b m n i' j' ys \<Longrightarrow> opcodes_tile a b i j i' j' (xs @ ys)"
proof (induction xs arbitrary: i j)
  case (Cons x xs)
  then show ?case by (cases x) auto
qed auto

lemma opcodes_from_tile:
  "blocks_chain a b i j i' j' bs \<Longrightarrow> bs \<noteq> [] \<Longrightarrow> last bs = (i', j', 0) \<Longrightarrow> opcodes_tile a b i j i' j' (opcodes_from i j bs)"
proof (induction i j bs rule: opcodes_from.induct)
  case (2 i j ai bj n bs)
  have gap: "opcodes_tile a b i j ai bj
     (if i < ai \<and> j < bj then [(OReplace, i, ai, j, bj)] else if i < ai then [(ODelete, i, ai, j, bj)]
      else if j < bj then [(OInsert, i, ai, j, bj)] else [])"
    using 2(2) by auto
  have eq: "opcodes_tile a b ai bj (ai + n) (bj + n) (if n = 0 then [] else [(OEqual, ai, ai + n, bj, bj + n)])"
    using 2(2) by auto
  have rest: "opcodes_tile a b (ai + n) (bj + n) i' j' (opcodes_from (ai + n) (bj + n) bs)"
  proof (cases bs)
    case Nil
    with 2(4) show ?thesis by simp
  next
    case (Cons x xs)
    with 2 show ?thesis by simp
  qed
  from opcodes_tile_append [OF gap opcodes_tile_append [OF eq rest]] show ?case by simp
qed simp

lemma get_opcodes_tile: "opcodes_tile a b 0 0 (length a) (length b) (get_opcodes auto a b)"
  unfolding get_opcodes_def
  by (rule opcodes_from_tile [OF matching_blocks_chain]) (simp_all add: matching_blocks_def)

section \<open>Unified diffs\<close>

definition range_unified :: "nat \<Rightarrow> nat \<Rightarrow> pystr" where
  "range_unified start stop =
     (let len = stop - start in
      if len = 1 then show_nat (start + 1)
      else show_nat (if len = 0 then start else start + 1) @ u '','' @ show_nat len)"

definition trim_first :: "nat \<Rightarrow> opcode list \<Rightarrow> opcode list" where
  "trim_first n codes = (case codes of
     (OEqual, i1, i2, j1, j2) # r \<Rightarrow> (OEqual, max i1 (i2 - n), i2, max j1 (j2 - n), j2) # r
   | _ \<Rightarrow> codes)"

definition trim_last :: "nat \<Rightarrow> opcode list \<Rightarrow> opcode list" where
  "trim_last n codes = (if codes = [] then [] else case last codes of
     (OEqual, i1, i2, j1, j2) \<Rightarrow> butlast codes @ [(OEqual, i1, min i2 (i1 + n), j1, min j2 (j1 + n))]
   | _ \<Rightarrow> codes)"

fun group_codes :: "nat \<Rightarrow> opcode list \<Rightarrow> opcode list \<Rightarrow> opcode list list" where
  "group_codes n grp [] =
     (if grp = [] \<or> length grp = 1 \<and> fst (hd grp) = OEqual then [] else [grp])"
| "group_codes n grp ((tag, i1, i2, j1, j2) # codes) =
     (if tag = OEqual \<and> n + n < i2 - i1
      then (grp @ [(tag, i1, min i2 (i1 + n), j1, min j2 (j1 + n))]) #
           group_codes n [(tag, max i1 (i2 - n), i2, max j1 (j2 - n), j2)] codes
      else group_codes n (grp @ [(tag, i1, i2, j1, j2)]) codes)"

definition grouped_opcodes :: "nat \<Rightarrow> bool \<Rightarrow> 'a list \<Rightarrow> 'a list \<Rightarrow> opcode list list" where
  "grouped_opcodes n auto a b =
     (let codes = get_opcodes auto a b;
          codes = (if codes = [] then [(OEqual, 0, 1, 0, 1)] else codes)
      in group_codes n [] (trim_last n (trim_first n codes)))"

definition slice :: "nat \<Rightarrow> nat \<Rightarrow> 'a list \<Rightarrow> 'a list" where
  "slice i j xs = drop i (take j xs)"

definition diff_lines :: "pystr list \<Rightarrow> pystr list \<Rightarrow> opcode \<Rightarrow> pystr list" where
  "diff_lines a b = (\<lambda>(tag, i1, i2, j1, j2).
     if tag = OEqual then map ((#) 32) (slice i1 i2 a)
     else (if tag = OReplace \<or> tag = ODelete then map ((#) 45) (slice i1 i2 a) else []) @
          (if tag = OReplace \<or> tag = OInsert then map ((#) 43) (slice j1 j2 b) else []))"

definition diff_hunk :: "pystr list \<Rightarrow> pystr list \<Rightarrow> opcode list \<Rightarrow> pystr list" where
  "diff_hunk a b grp =
     (case (hd grp, last grp) of ((_, i1, _, j1, _), (_, _, i2, _, j2)) \<Rightarrow>
        (u ''@@ -'' @ range_unified i1 i2 @ u '' +'' @ range_unified j1 j2 @ u '' @@'') #
        concat (map (diff_lines a b) grp))"

text \<open>\<open>unified_diff(a, b, fromfile, tofile, lineterm="")\<close> with three lines of context.\<close>

definition unified_diff :: "pystr list \<Rightarrow> pystr list \<Rightarrow> pystr \<Rightarrow> pystr \<Rightarrow> pystr list" where
  "unified_diff a b fromfile tofile =
     (let groups = grouped_opcodes 3 True a b in
      if groups = [] then []
      else (u ''--- '' @ fromfile) # (u ''+++ '' @ tofile) # concat (map (diff_hunk a b) groups))"

end
