(* ===== verification/EditStore.thy ===== *)
theory EditStore
  imports FileSystem Difflib
begin

text \<open>
  \<open>editing/model.py\<close>, \<open>editing/diff.py\<close> and \<open>editing/store.py\<close>: changes to files are proposed, shown
  as a diff or a preview, and applied only when approved.  The state is the store's two fields and
  the files; every method is one action on it.  The line separator and the order in which the
  operating system lists a directory are the parameters in \<open>edit_env\<close>.
\<close>

section \<open>Data\<close>

record file_edit =
  fe_find :: pystr
  fe_replace :: pystr

datatype edit_status = EPending | EApplied | ERejected

datatype edit_kind = KEdit | KCreate | KMove | KDelete | KCopy

fun edit_status_value :: "edit_status \<Rightarrow> pystr" where
  "edit_status_value EPending = u ''pending''"
| "edit_status_value EApplied = u ''applied''"
| "edit_status_value ERejected = u ''rejected''"

fun edit_kind_value :: "edit_kind \<Rightarrow> pystr" where
  "edit_kind_value KEdit = u ''edit''"
| "edit_kind_value KCreate = u ''create''"
| "edit_kind_value KMove = u ''move''"
| "edit_kind_value KDelete = u ''delete''"
| "edit_kind_value KCopy = u ''copy''"

record pending_edit =
  pe_id :: int
  pe_path :: path
  pe_original :: pystr
  pe_new :: pystr
  pe_diff :: pystr
  pe_edits :: "file_edit list"
  pe_status :: edit_status
  pe_kind :: edit_kind
  pe_destination :: "path option"
  pe_recursive :: bool
  pe_force :: bool
  pe_is_directory :: bool

datatype edit_error = EKey pystr | EValue pystr | EOs os_error

record edit_state =
  es_edits :: "(int, pending_edit) dict"
  es_next_id :: int
  es_fs :: fs

record edit_env =
  ee_linesep :: pystr
  ee_scan :: "fs \<Rightarrow> path \<Rightarrow> path list"

type_synonym 'a edit_act = "(edit_state, edit_error, 'a) act"

definition es_init :: "fs \<Rightarrow> edit_state" where
  "es_init fs = \<lparr>es_edits = [], es_next_id = 1, es_fs = fs\<rparr>"

definition on_fs :: "'a fs_act \<Rightarrow> 'a edit_act" where
  "on_fs m = (\<lambda>s. case m (es_fs s) of
     (fs, Inl e) \<Rightarrow> (s\<lparr>es_fs := fs\<rparr>, Inl (EOs e)) | (fs, Inr x) \<Rightarrow> (s\<lparr>es_fs := fs\<rparr>, Inr x))"

definition py_bool :: "bool \<Rightarrow> pystr" where
  "py_bool b = (if b then u ''True'' else u ''False'')"

definition lines_text :: "pystr list \<Rightarrow> pystr" where
  "lines_text ls = join [10] ls"

section \<open>Exact edits\<close>

definition apply_exact_edit :: "pystr \<Rightarrow> file_edit \<Rightarrow> pystr + pystr" where
  "apply_exact_edit content e =
     (let matches = str_count content (fe_find e) in
      if matches = 0 then Inl (u ''Edit find-block not found in file:'' @ [10] @ fe_find e)
      else if 1 < matches then Inl (u ''Edit find-block matched multiple locations. '' @
        u ''Each edit must match exactly once. Make the find-block more specific.'')
      else Inr (replace_first content (fe_find e) (fe_replace e)))"

fun apply_edits :: "pystr \<Rightarrow> file_edit list \<Rightarrow> pystr + pystr" where
  "apply_edits content [] = Inr content"
| "apply_edits content (e # es) = rbind (apply_exact_edit content e) (\<lambda>c. apply_edits c es)"

definition create_unified_diff :: "path \<Rightarrow> pystr \<Rightarrow> pystr \<Rightarrow> pystr" where
  "create_unified_diff p original updated =
     lines_text (unified_diff (splitlines original) (splitlines updated) (u ''a/'' @ path_str p) (u ''b/'' @ path_str p))"

section \<open>Overlap of two changes\<close>

definition MAX_CHARACTER_DIFF_CELLS :: nat where
  "MAX_CHARACTER_DIFF_CELLS = 1000000"

type_synonym span = "nat \<times> nat"

text \<open>The offsets of the line boundaries, the end included.\<close>

fun offsets_from :: "nat \<Rightarrow> pystr list \<Rightarrow> nat list" where
  "offsets_from n [] = [n]"
| "offsets_from n (l # ls) = n # offsets_from (n + length l) ls"

definition line_offsets :: "pystr list \<Rightarrow> nat list" where
  "line_offsets ls = offsets_from 0 ls"

definition character_changed_spans :: "pystr \<Rightarrow> pystr \<Rightarrow> nat \<Rightarrow> span list" where
  "character_changed_spans a b offset =
     (if MAX_CHARACTER_DIFF_CELLS < length a * length b then [(offset, offset + length a)]
      else map (\<lambda>(tag, i1, i2, j1, j2). (offset + i1, offset + i2))
             (filter (\<lambda>c. fst c \<noteq> OEqual) (get_opcodes False a b)))"

text \<open>The spans of one opcode of the line diff.\<close>

definition opcode_spans :: "pystr \<Rightarrow> pystr \<Rightarrow> nat list \<Rightarrow> nat list \<Rightarrow> opcode \<Rightarrow> span list" where
  "opcode_spans original modified oo mo = (\<lambda>(tag, i1, i2, j1, j2).
     if tag = OEqual then []
     else if tag \<noteq> OReplace then [(oo ! i1, oo ! i2)]
     else character_changed_spans (slice (oo ! i1) (oo ! i2) original) (slice (mo ! j1) (mo ! j2) modified) (oo ! i1))"

definition changed_spans :: "pystr \<Rightarrow> pystr \<Rightarrow> span list" where
  "changed_spans original modified =
     (let ol = splitlines_keep original; ml = splitlines_keep modified in
      concat (map (opcode_spans original modified (line_offsets ol) (line_offsets ml)) (get_opcodes False ol ml)))"

definition spans_overlap :: "span \<Rightarrow> span \<Rightarrow> bool" where
  "spans_overlap = (\<lambda>(a1, a2) (b1, b2).
     if a1 = a2 then b1 \<le> a1 \<and> a1 \<le> b2
     else if b1 = b2 then a1 \<le> b1 \<and> b1 \<le> a2
     else a1 < b2 \<and> b1 < a2)"

definition changes_overlap :: "pystr \<Rightarrow> pystr \<Rightarrow> pystr \<Rightarrow> bool" where
  "changes_overlap original current proposed \<longleftrightarrow>
     list_ex (\<lambda>c. list_ex (spans_overlap c) (changed_spans original proposed)) (changed_spans original current)"

section \<open>Previews\<close>

definition MAX_OPERATION_PREVIEW_ENTRIES :: nat where
  "MAX_OPERATION_PREVIEW_ENTRIES = 100"

definition operation_preview :: "pystr \<Rightarrow> pystr list \<Rightarrow> pystr" where
  "operation_preview title ls = lines_text ([title, []] @ ls)"

definition is_relative_to :: "path \<Rightarrow> path \<Rightarrow> bool" where
  "is_relative_to p root \<longleftrightarrow> prefix root p"

definition entry_kind :: "fs \<Rightarrow> path \<Rightarrow> pystr" where
  "entry_kind fs p = (if is_dir fs p then u ''DIR'' else if is_file fs p then u ''FILE'' else u ''OTHER'')"

definition count_kind :: "fs \<Rightarrow> pystr \<Rightarrow> path list \<Rightarrow> nat" where
  "count_kind fs k ps = length (filter (\<lambda>p. entry_kind fs p = k) ps)"

definition build_tree_preview :: "edit_env \<Rightarrow> fs \<Rightarrow> path \<Rightarrow> pystr list" where
  "build_tree_preview env fs p =
     (if \<not> is_dir fs p then [u ''[FILE] '' @ path_str p]
      else
        let children = ee_scan env fs p;
            shown = take MAX_OPERATION_PREVIEW_ENTRIES children;
            num = (\<lambda>k. show_nat (count_kind fs (u k) shown))
        in map (\<lambda>c. u ''['' @ entry_kind fs c @ u ''] '' @ path_str c) shown @ [[],
             u ''Total previewed: '' @ num ''FILE'' @ u '' file(s), '' @ num ''DIR'' @ u '' directorie(s), '' @
             num ''OTHER'' @ u '' other item(s)''] @
           (if MAX_OPERATION_PREVIEW_ENTRIES < length children
            then [u ''Preview truncated after '' @ show_nat MAX_OPERATION_PREVIEW_ENTRIES @ u '' entries.''] else []))"

section \<open>Proposals\<close>

text \<open>The next identifier is drawn and the proposal stored under it.\<close>

definition store_edit :: "pending_edit \<Rightarrow> (pending_edit \<times> pystr) edit_act" where
  "store_edit proposal = (\<lambda>s. let e = proposal\<lparr>pe_id := es_next_id s\<rparr> in
     (s\<lparr>es_next_id := es_next_id s + 1, es_edits := dput (es_next_id s) e (es_edits s)\<rparr>, Inr (e, pe_diff e)))"

definition content_edit :: "edit_kind \<Rightarrow> path \<Rightarrow> pystr \<Rightarrow> pystr \<Rightarrow> file_edit list \<Rightarrow> pending_edit" where
  "content_edit k p original updated edits = \<lparr>pe_id = 0, pe_path = p, pe_original = original, pe_new = updated,
     pe_diff = create_unified_diff p original updated, pe_edits = edits, pe_status = EPending, pe_kind = k,
     pe_destination = None, pe_recursive = False, pe_force = False, pe_is_directory = False\<rparr>"

definition operation_edit ::
  "edit_kind \<Rightarrow> path \<Rightarrow> path option \<Rightarrow> pystr \<Rightarrow> bool \<Rightarrow> bool \<Rightarrow> bool \<Rightarrow> pending_edit" where
  "operation_edit k p dst preview recursive force directory = \<lparr>pe_id = 0, pe_path = p, pe_original = [], pe_new = [],
     pe_diff = preview, pe_edits = [], pe_status = EPending, pe_kind = k, pe_destination = dst,
     pe_recursive = recursive, pe_force = force, pe_is_directory = directory\<rparr>"

text \<open>\<open>raise ValueError(...)\<close> unless the condition holds, and a value that may be an error text.\<close>

definition demand :: "bool \<Rightarrow> pystr \<Rightarrow> unit edit_act" where
  "demand b t = guard b (EValue t)"

definition value_of :: "pystr + 'a \<Rightarrow> 'a edit_act" where
  "value_of r = (case r of Inl t \<Rightarrow> throw (EValue t) | Inr x \<Rightarrow> ret x)"

definition propose :: "path \<Rightarrow> file_edit list \<Rightarrow> (pending_edit \<times> pystr) edit_act" where
  "propose p edits =
     abind (on_fs (read_text p)) (\<lambda>original.
     abind (value_of (apply_edits original edits)) (\<lambda>updated.
     store_edit (content_edit KEdit p original updated edits)))"

definition propose_create :: "path \<Rightarrow> pystr \<Rightarrow> (pending_edit \<times> pystr) edit_act" where
  "propose_create p content =
     abind (reads es_fs) (\<lambda>fs.
     abind (demand (\<not> exists_path fs p) (u ''File already exists: '' @ path_str p)) (\<lambda>_.
     store_edit (content_edit KCreate p [] content [])))"

definition propose_replace :: "path \<Rightarrow> pystr \<Rightarrow> bool \<Rightarrow> (pending_edit \<times> pystr) edit_act" where
  "propose_replace p content create_if_missing =
     abind (reads es_fs) (\<lambda>fs.
     if \<not> exists_path fs p then
       (if create_if_missing then propose_create p content
        else throw (EValue (u ''File does not exist: '' @ path_str p)))
     else
       abind (demand (is_file fs p) (u ''Path is not a file: '' @ path_str p)) (\<lambda>_.
       abind (on_fs (read_text p)) (\<lambda>original.
       abind (demand (original \<noteq> content) (u ''New content is identical to existing file content.'')) (\<lambda>_.
       store_edit (content_edit KEdit p original content [])))))"

definition type_word :: "bool \<Rightarrow> pystr" where
  "type_word b = (if b then u ''directory'' else u ''file'')"

definition propose_move :: "path \<Rightarrow> path \<Rightarrow> bool \<Rightarrow> (pending_edit \<times> pystr) edit_act" where
  "propose_move source destination force =
     abind (reads es_fs) (\<lambda>fs.
     abind (demand (exists_path fs source) (u ''Source does not exist: '' @ path_str source)) (\<lambda>_.
     abind (demand (source \<noteq> destination) (u ''Source and destination are the same path.'')) (\<lambda>_.
     abind (demand (\<not> (is_dir fs source \<and> is_relative_to destination source))
       (u ''Cannot move a directory into itself: '' @ path_str source @ u '' -> '' @ path_str destination)) (\<lambda>_.
     abind (demand (\<not> (exists_path fs destination \<and> \<not> force))
       (u ''Destination already exists: '' @ path_str destination)) (\<lambda>_.
     store_edit (operation_edit KMove source (Some destination)
       (operation_preview (u ''Pending filesystem operation: move/rename'')
         [u ''Source: '' @ path_str source, u ''Destination: '' @ path_str destination,
          u ''Source type: '' @ type_word (is_dir fs source), u ''Force overwrite: '' @ py_bool force])
       False force (is_dir fs source)))))))"

definition propose_delete :: "edit_env \<Rightarrow> path \<Rightarrow> bool \<Rightarrow> bool \<Rightarrow> (pending_edit \<times> pystr) edit_act" where
  "propose_delete env p recursive force =
     abind (reads es_fs) (\<lambda>fs.
     let title = u ''Pending filesystem operation: delete''; directory = is_dir fs p in
     if \<not> exists_path fs p then
       abind (demand force (u ''Path does not exist: '' @ path_str p)) (\<lambda>_.
       store_edit (operation_edit KDelete p None
         (operation_preview title [u ''Path: '' @ path_str p, u ''Path currently does not exist.'', u ''Force: true'',
            u ''Approval will mark this operation as applied if the path is still absent.''])
         recursive force False))
     else
       abind (demand (\<not> (directory \<and> \<not> recursive)) (u ''Path is a directory: '' @ path_str p @
         u ''. Set recursive=true to propose deleting it.'')) (\<lambda>_.
       store_edit (operation_edit KDelete p None
         (operation_preview title
           ([u ''Path: '' @ path_str p, u ''Type: '' @ type_word directory, u ''Recursive: '' @ py_bool recursive,
             u ''Force: '' @ py_bool force] @
            (if directory then [[], u ''Will delete:''] @ build_tree_preview env fs p
             else [[], u ''Will delete file: '' @ path_str p])))
         recursive force directory)))"

definition propose_copy :: "edit_env \<Rightarrow> path \<Rightarrow> path \<Rightarrow> bool \<Rightarrow> bool \<Rightarrow> (pending_edit \<times> pystr) edit_act" where
  "propose_copy env source destination recursive force =
     abind (reads es_fs) (\<lambda>fs.
     abind (demand (exists_path fs source) (u ''Source does not exist: '' @ path_str source)) (\<lambda>_.
     abind (demand (source \<noteq> destination) (u ''Source and destination are the same path.'')) (\<lambda>_.
     abind (demand (\<not> (is_dir fs source \<and> \<not> recursive)) (u ''Source is a directory: '' @ path_str source @
       u ''. Set recursive=true to propose copying it.'')) (\<lambda>_.
     abind (demand (\<not> (is_dir fs source \<and> is_relative_to destination source))
       (u ''Cannot copy a directory into itself: '' @ path_str source @ u '' -> '' @ path_str destination)) (\<lambda>_.
     abind (demand (\<not> (exists_path fs destination \<and> \<not> force))
       (u ''Destination already exists: '' @ path_str destination)) (\<lambda>_.
     store_edit (operation_edit KCopy source (Some destination)
       (operation_preview (u ''Pending filesystem operation: copy'')
         ([u ''Source: '' @ path_str source, u ''Destination: '' @ path_str destination,
           u ''Source type: '' @ type_word (is_dir fs source), u ''Recursive: '' @ py_bool recursive,
           u ''Force overwrite: '' @ py_bool force] @
          (if is_dir fs source then [[], u ''Will copy:''] @ build_tree_preview env fs source else [])))
       recursive force (is_dir fs source))))))))"

section \<open>Approval\<close>

text \<open>
  The messages name the identifier asked for; a stored proposal carries the identifier it is stored
  under (\<open>store_ok\<close> in \<open>EditLaws\<close>), so \<open>ident\<close> reads it from the proposal.
\<close>

text \<open>\<open>_remove_path\<close>; \<open>chmod\<close> has no effect on this model's files.\<close>

definition remove_path :: "path \<Rightarrow> unit fs_act" where
  "remove_path p = (\<lambda>fs. if is_dir fs p then (remove_tree p fs, Inr ()) else unlink p fs)"

definition ident :: "pending_edit \<Rightarrow> pystr" where
  "ident e = 35 # show_int (pe_id e)"

definition arrow :: "pending_edit \<Rightarrow> path \<Rightarrow> pystr" where
  "arrow e dst = path_str (pe_path e) @ u '' -> '' @ path_str dst @ u ''.''"

text \<open>The content to write when the file differs from the one the proposal was made for.\<close>

definition rebase :: "pending_edit \<Rightarrow> pystr \<Rightarrow> pystr + pystr" where
  "rebase e current =
     (let changed = u ''File changed since edit '' @ ident e @ u '' was proposed'' in
      if pe_edits e = [] then Inl (changed @ u ''. Whole-file replacement is stale and cannot be applied safely.'')
      else if changes_overlap (pe_original e) current (pe_new e)
      then Inl (changed @ u '' and its exact replacements cannot be safely reapplied because their '' @
        u ''changes overlap content modified since the proposal.'')
      else (case apply_edits current (pe_edits e) of
          Inl t \<Rightarrow> Inl (changed @ u '' and its exact replacements cannot be safely reapplied: '' @ t)
        | Inr c \<Rightarrow> Inr c))"

definition approve_edit :: "edit_env \<Rightarrow> pending_edit \<Rightarrow> pystr edit_act" where
  "approve_edit env e =
     abind (on_fs (read_text (pe_path e))) (\<lambda>current.
     let rebased = (current \<noteq> pe_original e) in
     abind (value_of (if rebased then rebase e current else Inr (pe_new e))) (\<lambda>updated.
     abind (on_fs (write_text (ee_linesep env) (pe_path e) updated)) (\<lambda>_.
     ret (if rebased
       then u ''Applied pending edit '' @ ident e @ u '' to the updated file using exact-match rebasing: '' @
         path_str (pe_path e) @ u ''.''
       else u ''Applied pending edit '' @ ident e @ u '' to '' @ path_str (pe_path e) @ u ''.''))))"

definition approve_create :: "edit_env \<Rightarrow> pending_edit \<Rightarrow> pystr edit_act" where
  "approve_create env e =
     abind (reads es_fs) (\<lambda>fs.
     abind (demand (\<not> exists_path fs (pe_path e)) (u ''Cannot apply create edit '' @ ident e @
       u '': file already exists at '' @ path_str (pe_path e) @ u ''.'')) (\<lambda>_.
     abind (on_fs (mkdir_parents (butlast (pe_path e)))) (\<lambda>_.
     abind (on_fs (write_text (ee_linesep env) (pe_path e) (pe_new e))) (\<lambda>_.
     ret (u ''Applied pending file creation '' @ ident e @ u '': '' @ path_str (pe_path e) @ u ''.'')))))"

definition require_destination :: "pending_edit \<Rightarrow> path edit_act" where
  "require_destination e = (case pe_destination e of
     None \<Rightarrow> throw (EValue (u ''Pending '' @ edit_kind_value (pe_kind e) @ u '' '' @ ident e @ u '' is missing destination_path.''))
   | Some d \<Rightarrow> ret d)"

text \<open>The destination is removed when it exists and \<open>force\<close> is set; its parents are created.\<close>

definition clear_destination :: "pending_edit \<Rightarrow> path \<Rightarrow> unit edit_act" where
  "clear_destination e dst =
     abind (reads es_fs) (\<lambda>fs.
     abind (if exists_path fs dst then
         abind (demand (pe_force e) (u ''Cannot apply '' @ edit_kind_value (pe_kind e) @ u '' '' @ ident e @
           u '': destination already exists: '' @ path_str dst)) (\<lambda>_. on_fs (remove_path dst))
       else ret ()) (\<lambda>_.
     on_fs (mkdir_parents (butlast dst))))"

definition approve_move :: "pending_edit \<Rightarrow> pystr edit_act" where
  "approve_move e =
     abind (require_destination e) (\<lambda>dst.
     abind (reads es_fs) (\<lambda>fs.
     abind (demand (exists_path fs (pe_path e)) (u ''Cannot apply move '' @ ident e @
       u '': source no longer exists: '' @ path_str (pe_path e))) (\<lambda>_.
     abind (demand (\<not> (is_dir fs (pe_path e) \<and> is_relative_to dst (pe_path e))) (u ''Cannot apply move '' @ ident e @
       u '': cannot move a directory into itself.'')) (\<lambda>_.
     abind (clear_destination e dst) (\<lambda>_.
     abind (on_fs (shutil_move (pe_path e) dst)) (\<lambda>_.
     ret (u ''Applied pending move '' @ ident e @ u '': '' @ arrow e dst)))))))"

definition approve_delete :: "pending_edit \<Rightarrow> pystr edit_act" where
  "approve_delete e =
     abind (reads es_fs) (\<lambda>fs.
     if \<not> exists_path fs (pe_path e) then
       abind (demand (pe_force e) (u ''Cannot apply delete '' @ ident e @ u '': path no longer exists: '' @ path_str (pe_path e))) (\<lambda>_.
       ret (u ''Applied pending delete '' @ ident e @ u '': path already absent: '' @ path_str (pe_path e) @ u ''.''))
     else
       abind (demand (\<not> (is_dir fs (pe_path e) \<and> \<not> pe_recursive e)) (u ''Cannot apply delete '' @ ident e @
         u '': directory requires recursive=true: '' @ path_str (pe_path e))) (\<lambda>_.
       abind (on_fs (remove_path (pe_path e))) (\<lambda>_.
       ret (u ''Applied pending delete '' @ ident e @ u '': '' @ path_str (pe_path e) @ u ''.''))))"

definition approve_copy :: "pending_edit \<Rightarrow> pystr edit_act" where
  "approve_copy e =
     abind (require_destination e) (\<lambda>dst.
     abind (reads es_fs) (\<lambda>fs.
     abind (demand (exists_path fs (pe_path e)) (u ''Cannot apply copy '' @ ident e @
       u '': source no longer exists: '' @ path_str (pe_path e))) (\<lambda>_.
     abind (demand (\<not> (is_dir fs (pe_path e) \<and> \<not> pe_recursive e)) (u ''Cannot apply copy '' @ ident e @
       u '': directory requires recursive=true: '' @ path_str (pe_path e))) (\<lambda>_.
     abind (demand (\<not> (is_dir fs (pe_path e) \<and> is_relative_to dst (pe_path e))) (u ''Cannot apply copy '' @ ident e @
       u '': cannot copy a directory into itself.'')) (\<lambda>_.
     abind (clear_destination e dst) (\<lambda>_.
     abind (reads es_fs) (\<lambda>fs2.
     abind (on_fs (if is_dir fs2 (pe_path e) then copytree (pe_path e) dst else copy2 (pe_path e) dst)) (\<lambda>_.
     ret (u ''Applied pending copy '' @ ident e @ u '': '' @ arrow e dst)))))))))"

definition apply_operation :: "edit_env \<Rightarrow> pending_edit \<Rightarrow> pystr edit_act" where
  "apply_operation env e = (case pe_kind e of
     KEdit \<Rightarrow> approve_edit env e | KCreate \<Rightarrow> approve_create env e | KMove \<Rightarrow> approve_move e
   | KDelete \<Rightarrow> approve_delete e | KCopy \<Rightarrow> approve_copy e)"

text \<open>\<open>_edits[edit_id]\<close> when it is pending.\<close>

definition find_pending :: "int \<Rightarrow> pending_edit edit_act" where
  "find_pending i =
     abind (reads (\<lambda>s. map_of (es_edits s) i)) (\<lambda>r. case r of
       None \<Rightarrow> throw (EKey (u ''Pending edit #'' @ show_int i @ u '' does not exist.''))
     | Some e \<Rightarrow>
         abind (demand (pe_status e = EPending) (u ''Pending edit #'' @ show_int i @ u '' is already '' @
           edit_status_value (pe_status e) @ u ''.'')) (\<lambda>_. ret e))"

definition set_status :: "int \<Rightarrow> edit_status \<Rightarrow> pending_edit \<Rightarrow> unit edit_act" where
  "set_status i st e = writes (\<lambda>s. s\<lparr>es_edits := dput i (e\<lparr>pe_status := st\<rparr>) (es_edits s)\<rparr>)"

definition approve :: "edit_env \<Rightarrow> int \<Rightarrow> pystr edit_act" where
  "approve env i =
     abind (find_pending i) (\<lambda>e.
     abind (apply_operation env e) (\<lambda>message.
     abind (set_status i EApplied e) (\<lambda>_. ret message)))"

definition reject :: "int \<Rightarrow> pystr edit_act" where
  "reject i =
     abind (find_pending i) (\<lambda>e.
     abind (set_status i ERejected e) (\<lambda>_.
     ret (u ''Rejected pending edit #'' @ show_int i @ u ''.'')))"

section \<open>Queries\<close>

definition get_edit :: "int \<Rightarrow> edit_state \<Rightarrow> pending_edit option" where
  "get_edit i s = map_of (es_edits s) i"

definition all_edits :: "edit_state \<Rightarrow> (int, pending_edit) dict" where
  "all_edits s = es_edits s"

definition pending_edits :: "edit_state \<Rightarrow> (int, pending_edit) dict" where
  "pending_edits s = filter (\<lambda>(k, v). pe_status v = EPending) (es_edits s)"

end
