(* ===== verification/Decisions.thy ===== *)
theory Decisions
  imports Prelude
begin

text \<open>
  The contract of a table of requests that are decided by a user: each request is open until one
  call decides it, and a decided request keeps its status whatever is called later.  From the two
  laws follows that no request is decided twice in any sequence of calls.
\<close>

locale decision_table =
  fixes status_of :: "'s \<Rightarrow> 'i \<Rightarrow> 'st option"
    and is_open :: "'st \<Rightarrow> bool"
    and step :: "'c \<Rightarrow> 's \<Rightarrow> 's \<times> bool"
    and decides :: "'c \<Rightarrow> 'i \<Rightarrow> bool"
    and inv :: "'s \<Rightarrow> bool"
  assumes inv_step: "inv s \<Longrightarrow> step c s = (s', ok) \<Longrightarrow> inv s'"
    and decided_once: "inv s \<Longrightarrow> step c s = (s', True) \<Longrightarrow> decides c i \<Longrightarrow>
      (\<exists>x. status_of s i = Some x \<and> is_open x) \<and> (\<exists>y. status_of s' i = Some y \<and> \<not> is_open y)"
    and closed_stays: "inv s \<Longrightarrow> step c s = (s', ok) \<Longrightarrow> status_of s i = Some x \<Longrightarrow> \<not> is_open x \<Longrightarrow> status_of s' i = Some x"
begin

text \<open>A run of calls and its log, the first call first; the flag tells whether the call returned.\<close>

fun run :: "'c list \<Rightarrow> 's \<Rightarrow> 's \<times> ('c \<times> bool) list" where
  "run [] s = (s, [])"
| "run (c # cs) s = (case step c s of (s1, ok) \<Rightarrow> case run cs s1 of (s2, log) \<Rightarrow> (s2, (c, ok) # log))"

definition decisions :: "'i \<Rightarrow> ('c \<times> bool) list \<Rightarrow> ('c \<times> bool) list" where
  "decisions i log = filter (\<lambda>(c, ok). ok \<and> decides c i) log"

lemma closed_run:
  assumes "inv s" and "status_of s i = Some x" and "\<not> is_open x" and "run cs s = (s', log)"
  shows "status_of s' i = Some x \<and> decisions i log = []"
  using assms
proof (induction cs arbitrary: s log)
  case Nil
  then show ?case by (simp add: decisions_def)
next
  case (Cons c cs)
  obtain s1 ok log1 where c: "step c s = (s1, ok)" and r: "run cs s1 = (s', log1)" and log: "log = (c, ok) # log1"
    using Cons.prems(4) by (auto split: prod.splits)
  have "status_of s1 i = Some x" using closed_stays [OF Cons.prems(1) c Cons.prems(2,3)] .
  with Cons.IH [OF inv_step [OF Cons.prems(1) c] _ Cons.prems(3) r] have ih: "status_of s' i = Some x \<and> decisions i log1 = []" by simp
  have "\<not> (ok \<and> decides c i)"
  proof
    assume "ok \<and> decides c i"
    with c Cons.prems(1) decided_once [of s c s1 i] have "\<exists>y. status_of s i = Some y \<and> is_open y" by simp
    with Cons.prems(2,3) show False by simp
  qed
  with ih log show ?case by (simp add: decisions_def)
qed

lemma at_most_one_decision:
  assumes "inv s" and "run cs s = (s', log)"
  shows "length (decisions i log) \<le> 1"
  using assms
proof (induction cs arbitrary: s log)
  case Nil
  then show ?case by (simp add: decisions_def)
next
  case (Cons c cs)
  obtain s1 ok log1 where c: "step c s = (s1, ok)" and r: "run cs s1 = (s', log1)" and log: "log = (c, ok) # log1"
    using Cons.prems(2) by (auto split: prod.splits)
  show ?case
  proof (cases "ok \<and> decides c i")
    case True
    with c Cons.prems(1) decided_once [of s c s1 i] obtain y where "status_of s1 i = Some y" "\<not> is_open y" by auto
    with closed_run [OF inv_step [OF Cons.prems(1) c] _ _ r] have "decisions i log1 = []" by blast
    with True log show ?thesis by (simp add: decisions_def)
  next
    case False
    with Cons.IH [OF inv_step [OF Cons.prems(1) c] r] log show ?thesis by (auto simp: decisions_def)
  qed
qed

lemma inv_run: "inv s \<Longrightarrow> run cs s = (s', log) \<Longrightarrow> inv s'"
proof (induction cs arbitrary: s log)
  case (Cons c cs)
  then show ?case using inv_step by (fastforce split: prod.splits)
qed simp

end

end
