(* ===== verification/EditLaws.thy ===== *)
theory EditLaws
  imports EditStore Decisions
begin

text \<open>
  What the editing workflow guarantees: proposals touch no file, an approval touches only the paths
  it names, every proposal is decided at most once, nothing stale or ambiguous is written, and what
  an approved edit writes is what its proposal showed.
\<close>

section \<open>Frames\<close>

definition edit_frame :: "(path \<Rightarrow> bool) \<Rightarrow> (path \<Rightarrow> bool) \<Rightarrow> edit_state \<Rightarrow> edit_state \<Rightarrow> bool" where
  "edit_frame A D s s' \<longleftrightarrow> es_edits s' = es_edits s \<and> es_next_id s' = es_next_id s \<and> confined A D (es_fs s) (es_fs s')"

lemma reflp_frame [simp, intro]: "reflp (edit_frame A D)"
  by (simp add: reflp_def edit_frame_def)

lemma transp_frame [simp, intro]: "transp (edit_frame A D)"
  using transp_confined [of A D] unfolding transp_def edit_frame_def by metis

lemma frame_on_fs [inv_intros]: "keeps (confined A D) m \<Longrightarrow> keeps (edit_frame A D) (on_fs m)"
  by (auto simp: keeps_def on_fs_def edit_frame_def split: prod.splits sum.splits) (metis fst_conv)+

lemma frame_demand [inv_intros]: "keeps (edit_frame A D) (demand b t)"
  unfolding demand_def by (rule keeps_pure) simp

lemma frame_value_of [inv_intros]: "keeps (edit_frame A D) (value_of r)"
  by (auto simp: value_of_def split: sum.splits intro: keeps_pure)

lemma frame_pure [inv_intros]:
  "keeps (edit_frame A D) (ret x)" "keeps (edit_frame A D) (throw e)" "keeps (edit_frame A D) (reads f)"
  by (rule keeps_pure, simp)+

lemma frame_bind [inv_intros]:
  "keeps (edit_frame A D) m \<Longrightarrow> (\<And>x. keeps (edit_frame A D) (f x)) \<Longrightarrow> keeps (edit_frame A D) (abind m f)"
  by (rule keeps_abind [OF transp_frame])

lemma frame_destination [inv_intros]: "keeps (edit_frame A D) (require_destination e)"
  by (auto simp: require_destination_def split: option.splits intro: inv_intros)

lemma frame_remove [inv_intros]: "(\<And>q. prefix p q \<Longrightarrow> A q) \<Longrightarrow> keeps (confined A D) (remove_path p)"
  using confined_unlink [of A p D] confined_remove [of p A D]
  by (auto simp: keeps_def remove_path_def)

lemma prefix_butlast: "prefix q (butlast p) \<Longrightarrow> prefix q p"
  using prefixeq_butlast prefix_order.trans by blast

lemma frame_clear [inv_intros]:
  "(\<And>q. prefix dst q \<Longrightarrow> A q) \<Longrightarrow> (\<And>q. prefix q dst \<Longrightarrow> D q) \<Longrightarrow> keeps (edit_frame A D) (clear_destination e dst)"
  unfolding clear_destination_def
  by (intro inv_intros) (auto intro: prefix_butlast)

text \<open>What applying a proposal may write, and where it may create directories.\<close>

definition may_write :: "pending_edit \<Rightarrow> path \<Rightarrow> bool" where
  "may_write e q = (case pe_kind e of
     KEdit \<Rightarrow> q = pe_path e
   | KCreate \<Rightarrow> q = pe_path e
   | KDelete \<Rightarrow> prefix (pe_path e) q
   | KMove \<Rightarrow> prefix (pe_path e) q \<or> (\<exists>d. pe_destination e = Some d \<and> prefix d q)
   | KCopy \<Rightarrow> \<exists>d. pe_destination e = Some d \<and> prefix d q)"

definition may_mkdir :: "pending_edit \<Rightarrow> path \<Rightarrow> bool" where
  "may_mkdir e q = (case pe_kind e of
     KCreate \<Rightarrow> prefix q (pe_path e)
   | KMove \<Rightarrow> \<exists>d. pe_destination e = Some d \<and> prefix q d
   | KCopy \<Rightarrow> \<exists>d. pe_destination e = Some d \<and> prefix q d
   | _ \<Rightarrow> False)"

lemma frame_destination_then:
  "(\<And>d. pe_destination e = Some d \<Longrightarrow> keeps (edit_frame A D) (f d)) \<Longrightarrow>
   keeps (edit_frame A D) (abind (require_destination e) f)"
  by (cases "pe_destination e") (auto simp: require_destination_def intro: inv_intros)

lemma frame_operation: "keeps (edit_frame (may_write e) (may_mkdir e)) (apply_operation env e)"
proof (cases "pe_kind e")
  case KEdit
  then show ?thesis
    unfolding apply_operation_def approve_edit_def Let_def edit_kind.simps KEdit
    by (intro inv_intros) (simp_all add: may_write_def KEdit)
next
  case KCreate
  then show ?thesis
    unfolding apply_operation_def approve_create_def edit_kind.simps KCreate
    by (intro inv_intros) (auto simp: may_write_def KCreate may_mkdir_def intro: prefix_butlast)
next
  case KMove
  then show ?thesis
    unfolding apply_operation_def approve_move_def edit_kind.simps KMove
    by (intro frame_destination_then inv_intros) (auto simp: may_write_def KMove may_mkdir_def)
next
  case KDelete
  then show ?thesis
    unfolding apply_operation_def approve_delete_def edit_kind.simps KDelete
    by (intro inv_intros) (auto simp: may_write_def KDelete)
next
  case KCopy
  then show ?thesis
    unfolding apply_operation_def approve_copy_def edit_kind.simps KCopy
    by (intro frame_destination_then inv_intros) (auto simp: may_write_def KCopy may_mkdir_def intro!: inv_intros)
qed

section \<open>Approval and rejection, unfolded\<close>

lemma find_pending_Inr: "find_pending i s = (s', Inr e) \<longleftrightarrow> s' = s \<and> map_of (es_edits s) i = Some e \<and> pe_status e = EPending"
  by (auto simp: find_pending_def demand_def guard_def abind_def reads_def ret_def throw_def split: option.splits if_splits)

lemma find_pending_state: "fst (find_pending i s) = s"
  by (auto simp: find_pending_def demand_def guard_def abind_def reads_def ret_def throw_def split: option.splits)

lemma approve_cases:
  assumes "approve env i s = (s', r)"
  obtains (refused) x where "s' = s" "r = Inl x" "find_pending i s = (s, Inl x)"
  | (failed) e x where "map_of (es_edits s) i = Some e" "pe_status e = EPending"
      "apply_operation env e s = (s', Inl x)" "r = Inl x"
  | (applied) e m s1 where "map_of (es_edits s) i = Some e" "pe_status e = EPending"
      "apply_operation env e s = (s1, Inr m)" "r = Inr m"
      "s' = s1\<lparr>es_edits := dput i (e\<lparr>pe_status := EApplied\<rparr>) (es_edits s1)\<rparr>"
proof -
  obtain s0 q where f: "find_pending i s = (s0, q)" by (cases "find_pending i s")
  then have s0: "s0 = s" using find_pending_state [of i s] by simp
  show thesis
  proof (cases q)
    case (Inl x)
    with assms f s0 show ?thesis by (intro refused) (auto simp: approve_def abind_eq)
  next
    case (Inr e)
    obtain s1 z where a: "apply_operation env e s = (s1, z)" by (cases "apply_operation env e s")
    have e: "map_of (es_edits s) i = Some e" "pe_status e = EPending" using f Inr by (auto simp: find_pending_Inr)
    show ?thesis
    proof (cases z)
      case (Inl x)
      with a f s0 Inr assms e show ?thesis by (intro failed) (auto simp: approve_def abind_eq)
    next
      case (Inr m)
      with a f s0 \<open>q = Inr e\<close> assms e show ?thesis
        by (intro applied) (auto simp: approve_def abind_eq set_status_def writes_def ret_def)
    qed
  qed
qed

lemma reject_cases:
  assumes "reject i s = (s', r)"
  obtains (refused) x where "s' = s" "r = Inl x"
  | (rejected) e m where "map_of (es_edits s) i = Some e" "pe_status e = EPending" "r = Inr m"
      "s' = s\<lparr>es_edits := dput i (e\<lparr>pe_status := ERejected\<rparr>) (es_edits s)\<rparr>"
proof -
  obtain s0 q where f: "find_pending i s = (s0, q)" by (cases "find_pending i s")
  then have s0: "s0 = s" using find_pending_state [of i s] by simp
  show thesis
  proof (cases q)
    case (Inl x)
    with assms f s0 show ?thesis by (intro refused) (auto simp: reject_def abind_eq)
  next
    case (Inr e)
    with f have "map_of (es_edits s) i = Some e" "pe_status e = EPending" by (auto simp: find_pending_Inr)
    with assms f s0 Inr show ?thesis
      by (intro rejected) (auto simp: reject_def abind_eq set_status_def writes_def ret_def)
  qed
qed

section \<open>What a proposal does\<close>

text \<open>A proposal either changes nothing or stores one pending change under the next identifier.\<close>

definition proposes :: "edit_state \<Rightarrow> edit_state \<Rightarrow> bool" where
  "proposes s s' \<longleftrightarrow> s' = s \<or> (\<exists>e. pe_status e = EPending \<and> pe_id e = es_next_id s \<and>
     s' = s\<lparr>es_next_id := es_next_id s + 1, es_edits := dput (es_next_id s) e (es_edits s)\<rparr>)"

lemma proposes_pure [inv_intros]: "keeps proposes (ret x)" "keeps proposes (throw e)"
  by (auto simp: keeps_def proposes_def)

lemma proposes_reads [inv_intros]: "(\<And>x. keeps proposes (f x)) \<Longrightarrow> keeps proposes (abind (reads g) f)"
  by (simp add: keeps_def)

lemma proposes_demand [inv_intros]: "(\<And>x. keeps proposes (f x)) \<Longrightarrow> keeps proposes (abind (demand b t) f)"
  by (simp add: keeps_def demand_def proposes_def)

lemma proposes_value_of [inv_intros]: "(\<And>x. keeps proposes (f x)) \<Longrightarrow> keeps proposes (abind (value_of r) f)"
  by (auto simp: keeps_def value_of_def proposes_def split: sum.splits)

lemma on_fs_read: "on_fs (read_text p) s = (s, map_sum EOs id (snd (read_text p (es_fs s))))"
  by (auto simp: on_fs_def read_text_def split: option.splits node.splits)

lemma proposes_read [inv_intros]: "(\<And>x. keeps proposes (f x)) \<Longrightarrow> keeps proposes (abind (on_fs (read_text p)) f)"
  unfolding keeps_def abind_def on_fs_read by (auto simp: proposes_def split: sum.splits)

lemma proposes_store [inv_intros]: "pe_status e = EPending \<Longrightarrow> keeps proposes (store_edit e)"
  unfolding keeps_def store_edit_def proposes_def Let_def
  by (intro allI disjI2 exI [of _ "e\<lparr>pe_id := es_next_id s\<rparr>" for s]) simp

lemma status_of_proposal [simp]:
  "pe_status (content_edit k p a b es) = EPending" "pe_status (operation_edit k p d t r f dir) = EPending"
  by (simp_all add: content_edit_def operation_edit_def)

lemma proposes_if [inv_intros]: "keeps proposes m \<Longrightarrow> keeps proposes n \<Longrightarrow> keeps proposes (if b then m else n)"
  by simp

lemma proposes_all:
  "keeps proposes (propose p edits)" "keeps proposes (propose_create p content)"
  "keeps proposes (propose_replace p content cm)" "keeps proposes (propose_move src dst force)"
  "keeps proposes (propose_delete env p recursive force)" "keeps proposes (propose_copy env src dst recursive force)"
  unfolding propose_def propose_create_def propose_replace_def propose_move_def propose_delete_def propose_copy_def Let_def
  by (intro inv_intros status_of_proposal)+

section \<open>Sequences of calls\<close>

text \<open>The calls of the store's clients, and another program changing the files in between.\<close>

datatype edit_call =
    Propose path "file_edit list"
  | ProposeCreate path pystr
  | ProposeReplace path pystr bool
  | ProposeMove path path bool
  | ProposeDelete path bool bool
  | ProposeCopy path path bool bool
  | Approve int
  | Reject int
  | Outside "fs \<Rightarrow> fs"

definition returned :: "edit_state \<times> (edit_error + 'a) \<Rightarrow> edit_state \<times> bool" where
  "returned r = (fst r, \<not> isl (snd r))"

fun edit_step :: "edit_env \<Rightarrow> edit_call \<Rightarrow> edit_state \<Rightarrow> edit_state \<times> bool" where
  "edit_step env (Propose p es) s = returned (propose p es s)"
| "edit_step env (ProposeCreate p c) s = returned (propose_create p c s)"
| "edit_step env (ProposeReplace p c cm) s = returned (propose_replace p c cm s)"
| "edit_step env (ProposeMove a b f) s = returned (propose_move a b f s)"
| "edit_step env (ProposeDelete p r f) s = returned (propose_delete env p r f s)"
| "edit_step env (ProposeCopy a b r f) s = returned (propose_copy env a b r f s)"
| "edit_step env (Approve i) s = returned (approve env i s)"
| "edit_step env (Reject i) s = returned (reject i s)"
| "edit_step env (Outside g) s = (s\<lparr>es_fs := g (es_fs s)\<rparr>, True)"

fun is_proposal :: "edit_call \<Rightarrow> bool" where
  "is_proposal (Approve i) = False"
| "is_proposal (Reject i) = False"
| "is_proposal (Outside g) = False"
| "is_proposal _ = True"

fun edit_decides :: "edit_call \<Rightarrow> int \<Rightarrow> bool" where
  "edit_decides (Approve j) i = (i = j)"
| "edit_decides (Reject j) i = (i = j)"
| "edit_decides _ i = False"

definition status_of_edit :: "edit_state \<Rightarrow> int \<Rightarrow> edit_status option" where
  "status_of_edit s i = map_option pe_status (map_of (es_edits s) i)"

text \<open>Identifiers in use are below the next one, and each proposal carries its own.\<close>

definition store_ok :: "edit_state \<Rightarrow> bool" where
  "store_ok s \<longleftrightarrow> (\<forall>i e. map_of (es_edits s) i = Some e \<longrightarrow> i < es_next_id s \<and> pe_id e = i)"

lemma store_ok_init [simp]: "store_ok (es_init fs)"
  by (simp add: store_ok_def es_init_def)

lemma store_ok_proposes: "store_ok s \<Longrightarrow> proposes s s' \<Longrightarrow> store_ok s'"
  unfolding proposes_def
proof (elim disjE exE conjE)
  fix e assume "store_ok s" "pe_id e = es_next_id s"
    "s' = s\<lparr>es_next_id := es_next_id s + 1, es_edits := dput (es_next_id s) e (es_edits s)\<rparr>"
  then show "store_ok s'" by (fastforce simp: store_ok_def split: if_splits)
qed simp

lemma step_proposal: "is_proposal c \<Longrightarrow> edit_step env c s = (s', ok) \<Longrightarrow> proposes s s'"
  using proposes_all by (cases c) (auto simp: returned_def keeps_def)

text \<open>An approval or rejection moves only the proposal it decides, and only when it succeeds.\<close>

definition decides_to :: "int \<Rightarrow> bool \<Rightarrow> edit_state \<Rightarrow> edit_state \<Rightarrow> bool" where
  "decides_to i ok s s' \<longleftrightarrow> es_next_id s' = es_next_id s \<and>
     (if ok then \<exists>e st. map_of (es_edits s) i = Some e \<and> pe_status e = EPending \<and> st \<noteq> EPending \<and>
           es_edits s' = dput i (e\<lparr>pe_status := st\<rparr>) (es_edits s)
      else es_edits s' = es_edits s)"

lemma approve_decides: "approve env i s = (s', r) \<Longrightarrow> decides_to i (\<not> isl r) s s'"
proof (erule approve_cases)
  fix e x assume "apply_operation env e s = (s', Inl x)" "r = Inl x"
  with keepsD [OF frame_operation] show ?thesis by (auto simp: decides_to_def edit_frame_def)
next
  fix e m s1 assume "map_of (es_edits s) i = Some e" "pe_status e = EPending" "apply_operation env e s = (s1, Inr m)"
    "r = Inr m" "s' = s1\<lparr>es_edits := dput i (e\<lparr>pe_status := EApplied\<rparr>) (es_edits s1)\<rparr>"
  with keepsD [OF frame_operation, of env e s s1] show ?thesis by (fastforce simp: decides_to_def edit_frame_def)
qed (auto simp: decides_to_def)

lemma reject_decides: "reject i s = (s', r) \<Longrightarrow> decides_to i (\<not> isl r) s s' \<and> es_fs s' = es_fs s"
  by (erule reject_cases) (fastforce simp: decides_to_def)+

lemma step_decides: "\<not> is_proposal c \<Longrightarrow> edit_step env c s = (s', ok) \<Longrightarrow>
    (\<exists>i. edit_decides c i \<and> decides_to i ok s s') \<or> (\<exists>g. c = Outside g \<and> s' = s\<lparr>es_fs := g (es_fs s)\<rparr>)"
  using approve_decides [OF surjective_pairing, where env = env and s = s] reject_decides [OF surjective_pairing, where s = s]
  by (cases c) (auto simp: returned_def)

lemma store_ok_decides: "store_ok s \<Longrightarrow> decides_to i ok s s' \<Longrightarrow> store_ok s'"
  by (auto simp: store_ok_def decides_to_def split: if_splits)

lemma edit_decides_unique: "edit_decides c i \<Longrightarrow> edit_decides c j \<Longrightarrow> i = j"
  by (cases c) auto

lemma decides_not_proposal: "edit_decides c i \<Longrightarrow> \<not> is_proposal c \<and> c \<noteq> Outside g"
  by (cases c) auto

interpretation edits: decision_table status_of_edit "\<lambda>st. st = EPending" "edit_step env" edit_decides store_ok
proof (unfold_locales, goal_cases)
  case (1 s c s' ok)
  show ?case
  proof (cases "is_proposal c")
    case True
    with 1 show ?thesis using step_proposal store_ok_proposes by blast
  next
    case False
    from step_decides [OF False 1(2)] show ?thesis
    proof (elim disjE exE conjE)
      fix g assume "s' = s\<lparr>es_fs := g (es_fs s)\<rparr>"
      with 1(1) show ?thesis by (simp add: store_ok_def)
    qed (rule store_ok_decides [OF 1(1)])
  qed
next
  case (2 s c s' i)
  then obtain j where "edit_decides c j" "decides_to j True s s'"
    using step_decides [of c env s s' True] decides_not_proposal by blast
  with 2 edit_decides_unique have "decides_to i True s s'" by blast
  then show ?case by (auto simp: decides_to_def status_of_edit_def)
next
  case (3 s c s' ok i x)
  show ?case
  proof (cases "is_proposal c")
    case True
    with 3 have "proposes s s'" by (blast dest: step_proposal)
    moreover have "i < es_next_id s" using 3 by (auto simp: status_of_edit_def store_ok_def)
    ultimately show ?thesis using 3(3) by (auto simp: proposes_def status_of_edit_def)
  next
    case False
    then show ?thesis
      using step_decides [OF False 3(2)] 3(3,4) by (auto simp: decides_to_def status_of_edit_def split: if_splits)
  qed
qed

text \<open>The run of the interpretation, as an executable function.\<close>

fun edit_run :: "edit_env \<Rightarrow> edit_call list \<Rightarrow> edit_state \<Rightarrow> edit_state \<times> (edit_call \<times> bool) list" where
  "edit_run env [] s = (s, [])"
| "edit_run env (c # cs) s = (case edit_step env c s of (s1, ok) \<Rightarrow> case edit_run env cs s1 of (s2, log) \<Rightarrow> (s2, (c, ok) # log))"

lemma edit_run_is_run: "edit_run env cs s = decision_table.run (edit_step env) cs s"
  by (induction cs arbitrary: s) (simp_all add: edits.run.simps split: prod.splits)

lemma edit_run_inv: "store_ok s \<Longrightarrow> store_ok (fst (edit_run env cs s))"
  using edits.inv_run [of s env cs] unfolding edit_run_is_run by (metis prod.collapse)

lemma edit_run_fst: "fst (edit_run env (c # cs) s) = fst (edit_run env cs (fst (edit_step env c s)))"
  by (simp split: prod.splits)

section \<open>Exact matches\<close>

lemma count_once:
  assumes "p \<noteq> []" and "count_from s p = 1"
  shows "\<exists>a b. s = a @ p @ b \<and> (\<forall>a' b'. s = a' @ p @ b' \<longrightarrow> length a \<le> length a' \<and> length a' < length a + length p)"
  using assms
proof (induction s p rule: count_from.induct)
  case (1 s p)
  show ?case
  proof (cases s)
    case Nil
    with 1 show ?thesis by (simp add: count_from.simps)
  next
    case (Cons c t)
    show ?thesis
    proof (cases "starts_with s p")
      case True
      then obtain b where b: "s = p @ b" by (auto simp: starts_with_iff)
      have "count_from s p = Suc (count_from (drop (length p) s) p)"
        using True 1(3) Cons by (subst count_from.simps) simp
      with b 1(4) have "count_from b p = 0" by simp
      with 1(3) have nc: "\<not> contains b p" by (simp add: count_from_zero)
      have "length a' < length p" if e: "s = a' @ p @ b'" for a' b'
      proof (rule ccontr)
        assume "\<not> length a' < length p"
        with e b have "a' = p @ drop (length p) a'"
          by (metis append_eq_append_conv_if append_take_drop_id linorder_not_less)
        with e b have "b = drop (length p) a' @ p @ b'" by (metis append.assoc same_append_eq)
        with nc show False by (auto simp: contains_iff)
      qed
      with b show ?thesis by (intro exI [of _ "[]"] exI [of _ b]) auto
    next
      case False
      with 1(3,4) Cons have "count_from t p = 1" by (subst (asm) count_from.simps) simp
      with 1(2) [OF _ False] 1(3) Cons obtain a b where t: "t = a @ p @ b"
        and u: "\<forall>a' b'. t = a' @ p @ b' \<longrightarrow> length a \<le> length a' \<and> length a' < length a + length p" by auto
      have "length (c # a) \<le> length a' \<and> length a' < length (c # a) + length p" if e: "s = a' @ p @ b'" for a' b'
      proof (cases a')
        case Nil
        with e False show ?thesis by simp
      next
        case (Cons d a'')
        with e \<open>s = c # t\<close> have "t = a'' @ p @ b'" by simp
        with u Cons show ?thesis by simp
      qed
      with t Cons show ?thesis by (intro exI [of _ "c # a"] exI [of _ b]) auto
    qed
  qed
qed

lemma apply_exact_edit_count: "apply_exact_edit s e = Inr t \<Longrightarrow> str_count s (fe_find e) = 1 \<and> t = replace_first s (fe_find e) (fe_replace e)"
  by (auto simp: apply_exact_edit_def Let_def split: if_splits)

section \<open>Results of an approval\<close>

lemma on_fs_Inr: "on_fs m s = (s', Inr x) \<longleftrightarrow> (\<exists>fs. m (es_fs s) = (fs, Inr x) \<and> s' = s\<lparr>es_fs := fs\<rparr>)"
  by (auto simp: on_fs_def split: prod.splits sum.splits)

lemma value_of_Inr: "value_of r s = (s', Inr x) \<longleftrightarrow> r = Inr x \<and> s' = s"
  by (auto simp: value_of_def split: sum.splits)

lemma read_text_Inr: "read_text p fs = (fs', Inr x) \<longleftrightarrow> fs' = fs \<and> snd (read_text p fs) = Inr x"
  by (auto simp: read_text_def)

lemma approve_edit_Inr:
  assumes "approve_edit env e s = (s', Inr m)"
  obtains current updated where "snd (read_text (pe_path e) (es_fs s)) = Inr current"
    and "(if current \<noteq> pe_original e then rebase e current else Inr (pe_new e)) = Inr updated"
    and "write_text (ee_linesep env) (pe_path e) updated (es_fs s) = (es_fs s', Inr ())"
  using assms unfolding approve_edit_def abind_Inr_iff Let_def
  by (auto simp: on_fs_Inr value_of_Inr read_text_Inr)

lemma rebase_Inr:
  "rebase e current = Inr c \<longleftrightarrow>
   pe_edits e \<noteq> [] \<and> \<not> changes_overlap (pe_original e) current (pe_new e) \<and> apply_edits current (pe_edits e) = Inr c"
  by (auto simp: rebase_def Let_def split: sum.splits)

lemma approved_operation:
  assumes "approve env i s = (s', Inr m)"
  obtains e s1 where "map_of (es_edits s) i = Some e" "pe_status e = EPending"
    "apply_operation env e s = (s1, Inr m)" "es_fs s' = es_fs s1" "status_of_edit s' i = Some EApplied"
  using assms by (cases rule: approve_cases) (auto simp: status_of_edit_def)

section \<open>Forced overwrites\<close>

lemma fs_ok_above: "fs_ok fs \<Longrightarrow> fs (d @ r) \<noteq> None \<Longrightarrow> r \<noteq> [] \<Longrightarrow> fs d = Some Dir"
proof (induction r rule: rev_induct)
  case (snoc c r)
  then have "fs (d @ r) = Some Dir" using fs_ok_def by (metis append_assoc)
  with snoc show ?case by (cases "r = []") auto
qed simp

lemma mkdir_rev_present: "is_dir fs (rev r) \<Longrightarrow> mkdir_rev r fs = (fs, Inr ())"
  by (cases r) (auto simp: is_dir_def Let_def)

lemma mkdir_present: "is_dir fs p \<Longrightarrow> mkdir_parents p fs = (fs, Inr ())"
  by (simp add: mkdir_parents_def mkdir_rev_present)

lemma on_fs_eq: "m (es_fs s) = (fs, r) \<Longrightarrow> on_fs m s = (s\<lparr>es_fs := fs\<rparr>, map_sum EOs id r)"
  by (cases r) (simp_all add: on_fs_def)

lemma forced_move_up:
  assumes "fs_ok (es_fs s)" and "exists_path (es_fs s) (pe_path e)" and "strict_prefix d (pe_path e)" and "d \<noteq> []"
    and "pe_destination e = Some d" and "pe_force e"
  shows "\<exists>x. approve_move e s = (s\<lparr>es_fs := remove_tree d (es_fs s)\<rparr>, Inl (EOs x))"
proof -
  let ?fs = "remove_tree d (es_fs s)"
  obtain r where r: "pe_path e = d @ r" "r \<noteq> []" using assms(3) by (auto simp: strict_prefix_def prefix_def)
  have d: "es_fs s d = Some Dir" using fs_ok_above [OF assms(1) _ r(2), of d] assms(2) r by (simp add: exists_path_def)
  have b: "d = butlast d @ [last d]" using assms(4) by simp
  have "es_fs s (butlast d) = Some Dir" using fs_ok_above [OF assms(1), of "butlast d" "[last d]"] b d by simp
  moreover have "\<not> prefix d (butlast d)" using assms(4) by (auto dest!: prefix_length_le) (cases d, auto)
  ultimately have p: "is_dir ?fs (butlast d)" by (simp add: is_dir_def remove_tree_def)
  have c: "clear_destination e d s = (s\<lparr>es_fs := ?fs\<rparr>, Inr ())"
    using assms(6) d
    by (simp add: clear_destination_def exists_path_def demand_def abind_def on_fs_def remove_path_def is_dir_def
        mkdir_present [OF p, unfolded is_dir_def] ret_def)
  have "shutil_move (pe_path e) d ?fs = (?fs, Inl (missing ?fs (pe_path e)))"
    using r by (simp add: shutil_move_def rename_def is_dir_def remove_tree_def)
  then have m: "on_fs (shutil_move (pe_path e) d) (s\<lparr>es_fs := ?fs\<rparr>) = (s\<lparr>es_fs := ?fs\<rparr>, Inl (EOs (missing ?fs (pe_path e))))"
    by (simp add: on_fs_def)
  have "\<not> is_relative_to d (pe_path e)" using r by (auto simp: is_relative_to_def prefix_def)
  with assms(2,5) show ?thesis
    by (simp add: approve_move_def require_destination_def demand_def abind_eq [where m = "clear_destination e d", OF c] abind_eq [where m = "on_fs (shutil_move (pe_path e) d)", OF m])
qed

section \<open>Properties\<close>

text \<open>
  Proposing, and rejecting a proposal, never touches a file: over any sequence of such calls,
  whether they return or raise, every path holds what it held before.
\<close>

theorem proposals_touch_no_file:
  assumes "\<forall>c \<in> set cs. is_proposal c \<or> (\<exists>i. c = Reject i)"
  shows "es_fs (fst (edit_run env cs s)) = es_fs s"
  using assms
proof (induction cs arbitrary: s)
  case (Cons c cs)
  have "es_fs (fst (edit_step env c s)) = es_fs s"
  proof (cases "is_proposal c")
    case True
    then show ?thesis using step_proposal [OF True surjective_pairing, where env = env and s = s] by (auto simp: proposes_def)
  next
    case False
    with Cons.prems obtain i where "c = Reject i" by auto
    then show ?thesis using reject_decides [OF surjective_pairing, where i = i and s = s] by (simp add: returned_def)
  qed
  with Cons show ?case by (simp add: edit_run_fst del: edit_run.simps)
qed simp

definition demo_fs :: fs where
  "demo_fs = [[] \<mapsto> Dir, [u ''w''] \<mapsto> Dir, [u ''w'', u ''a''] \<mapsto> File (map of_nat (u ''one two''))]"

definition demo_edit_env :: edit_env where
  "demo_edit_env = \<lparr>ee_linesep = [10], ee_scan = (\<lambda>fs p. [])\<rparr>"

definition demo_edit :: file_edit where
  "demo_edit = \<lparr>fe_find = u ''two'', fe_replace = u ''three''\<rparr>"

lemma proposals_touch_no_file_witness:
  "es_fs (fst (edit_run demo_edit_env [Propose [u ''w'', u ''a''] [demo_edit], ProposeDelete [u ''w''] True False, Reject 1]
     (es_init demo_fs))) [u ''w''] = Some Dir"
proof -
  have "es_fs (fst (edit_run demo_edit_env [Propose [u ''w'', u ''a''] [demo_edit], ProposeDelete [u ''w''] True False, Reject 1]
     (es_init demo_fs))) = es_fs (es_init demo_fs)"
    by (rule proposals_touch_no_file) simp
  then show ?thesis by (simp add: es_init_def demo_fs_def)
qed

text \<open>
  Whatever calls are made on a new store, in any order and with other programs changing the
  files in between, each proposal is decided (approved or rejected) successfully at most once.
\<close>

theorem proposal_decided_at_most_once:
  "length (filter (\<lambda>(c, ok). ok \<and> edit_decides c i) (snd (edit_run env cs (es_init fs)))) \<le> 1"
proof -
  obtain s' log where r: "edit_run env cs (es_init fs) = (s', log)" by (cases "edit_run env cs (es_init fs)")
  with edits.at_most_one_decision [where env = env and s = "es_init fs" and cs = cs and s' = s' and log = log and i = i] show ?thesis
    by (simp add: edits.decisions_def edit_run_is_run)
qed

text \<open>
  What was proposed is what is decided later: along every sequence of calls a stored proposal
  keeps its path, contents, edits, diff and options; only its status changes, and not after it was
  decided.
\<close>

theorem stored_proposal_is_stable:
  assumes "store_ok s" and "map_of (es_edits s) i = Some e"
  shows "\<exists>st. map_of (es_edits (fst (edit_run env cs s))) i = Some (e\<lparr>pe_status := st\<rparr>) \<and>
    (pe_status e \<noteq> EPending \<longrightarrow> st = pe_status e)"
  using assms
proof (induction cs arbitrary: s e)
  case Nil
  then show ?case by (intro exI [of _ "pe_status e"]) simp
next
  case (Cons c cs)
  obtain s1 ok where c: "edit_step env c s = (s1, ok)" by (cases "edit_step env c s")
  have "\<exists>st. map_of (es_edits s1) i = Some (e\<lparr>pe_status := st\<rparr>) \<and> (pe_status e \<noteq> EPending \<longrightarrow> st = pe_status e)"
  proof (cases "is_proposal c")
    case True
    have "i < es_next_id s" using Cons.prems by (auto simp: store_ok_def)
    with step_proposal [OF True c] Cons.prems(2) show ?thesis
      by (intro exI [of _ "pe_status e"]) (auto simp: proposes_def)
  next
    case False
    from step_decides [OF False c] show ?thesis
    proof (elim disjE exE conjE)
      fix j assume "decides_to j ok s s1"
      with Cons.prems(2) show ?thesis
        by (cases ok; cases "i = j") (auto simp: decides_to_def intro: exI [of _ "pe_status e"])
    qed (use Cons.prems(2) in \<open>auto intro: exI [of _ "pe_status e"]\<close>)
  qed
  then obtain st where st: "map_of (es_edits s1) i = Some (e\<lparr>pe_status := st\<rparr>)" "pe_status e \<noteq> EPending \<longrightarrow> st = pe_status e"
    by blast
  from Cons.IH [OF edits.inv_step [OF Cons.prems(1) c] st(1)] st(2) show ?case
    unfolding edit_run_fst c by auto
qed

definition demo_pending :: pending_edit where
  "demo_pending = content_edit KEdit [u ''w'', u ''a''] (u ''one two'') (u ''one three'') [demo_edit]\<lparr>pe_id := 1\<rparr>"

definition demo_store :: edit_state where
  "demo_store = fst (propose [u ''w'', u ''a''] [demo_edit] (es_init demo_fs))"

lemma demo_read: "read_text [u ''w'', u ''a''] demo_fs = (demo_fs, Inr (u ''one two''))"
proof -
  have "snd (read_text [u ''w'', u ''a''] demo_fs) = Inr (u ''one two'')" by code_simp
  then show ?thesis by (simp add: read_text_def)
qed

lemma demo_store_eq: "demo_store = \<lparr>es_edits = [(1, demo_pending)], es_next_id = 2, es_fs = demo_fs\<rparr>"
proof -
  have "apply_edits (u ''one two'') [demo_edit] = Inr (u ''one three'')" by code_simp
  then show ?thesis
    by (simp add: demo_store_def propose_def on_fs_read abind_def demo_read es_init_def value_of_def store_edit_def
        demo_pending_def Let_def del: apply_edits.simps)
qed

lemma demo_store_ok: "store_ok demo_store"
  by (simp add: store_ok_def demo_store_eq demo_pending_def)

lemma demo_store_edit: "map_of (es_edits demo_store) 1 = Some demo_pending"
  by (simp add: demo_store_eq)

lemma demo_pending_simps [simp]:
  "pe_kind demo_pending = KEdit" "pe_path demo_pending = [u ''w'', u ''a'']" "pe_status demo_pending = EPending"
  "pe_original demo_pending = u ''one two''" "pe_new demo_pending = u ''one three''" "pe_id demo_pending = 1"
  by (simp_all add: demo_pending_def content_edit_def)

lemma demo_write:
  "write_text [10] [u ''w'', u ''a''] (u ''one three'') demo_fs =
     (demo_fs([u ''w'', u ''a''] \<mapsto> File (map of_nat (u ''one three''))), Inr ())"
proof -
  have "utf8_encode (to_linesep [10] (u ''one three'')) = Some (map of_nat (u ''one three''))" by code_simp
  then show ?thesis by (simp add: write_text_def open_w_def abind_def demo_fs_def fun_upd_twist)
qed

lemma demo_approved:
  "\<exists>m s'. approve demo_edit_env 1 demo_store = (s', Inr m) \<and>
     es_fs s' = demo_fs([u ''w'', u ''a''] \<mapsto> File (map of_nat (u ''one three'')))"
proof -
  have f: "find_pending 1 demo_store = (demo_store, Inr demo_pending)"
    by (simp add: find_pending_Inr demo_store_edit)
  have "\<exists>m s1. approve_edit demo_edit_env demo_pending demo_store = (s1, Inr m) \<and>
     es_fs s1 = demo_fs([u ''w'', u ''a''] \<mapsto> File (map of_nat (u ''one three'')))"
    by (simp add: approve_edit_def abind_def on_fs_read demo_store_eq demo_read value_of_def demo_edit_env_def
        on_fs_def demo_write)
  then obtain m s1 where "apply_operation demo_edit_env demo_pending demo_store = (s1, Inr m)"
    "es_fs s1 = demo_fs([u ''w'', u ''a''] \<mapsto> File (map of_nat (u ''one three'')))"
    by (auto simp: apply_operation_def)
  with f show ?thesis by (simp add: approve_def abind_def set_status_def)
qed

lemma stored_proposal_is_stable_witness:
  "\<exists>st. map_of (es_edits (fst (edit_run demo_edit_env [Reject 1, Approve 1] demo_store))) 1 = Some (demo_pending\<lparr>pe_status := st\<rparr>)"
  using stored_proposal_is_stable [OF demo_store_ok demo_store_edit, of demo_edit_env "[Reject 1, Approve 1]"] by blast

text \<open>
  C2: an approval, successful or not, changes the files only at the paths of its proposal: the file
  of a content change, the source of a move or deletion and everything below it, the destination of
  a move or copy and everything below it; elsewhere it can only create missing parent directories.
  A proposal that is not pending changes nothing.
\<close>

theorem approve_touches_only_its_paths:
  assumes "approve env i s = (s', r)" and "es_fs s' q \<noteq> es_fs s q"
  shows "\<exists>e. map_of (es_edits s) i = Some e \<and> pe_status e = EPending \<and>
    (may_write e q \<or> may_mkdir e q \<and> es_fs s q = None \<and> es_fs s' q = Some Dir)"
  using assms(1)
proof (cases rule: approve_cases)
  case (failed e x)
  with keepsD [OF frame_operation failed(3)] assms(2) show ?thesis
    by (auto simp: edit_frame_def confined_def)
next
  case (applied e m s1)
  with keepsD [OF frame_operation applied(3)] assms(2) show ?thesis
    by (auto simp: edit_frame_def confined_def)
qed (use assms(2) in simp)

lemma approve_touches_only_its_paths_witness:
  "\<exists>e. map_of (es_edits demo_store) 1 = Some e \<and> pe_status e = EPending \<and> may_write e [u ''w'', u ''a'']"
proof -
  obtain m s' where a: "approve demo_edit_env 1 demo_store = (s', Inr m)"
    and f: "es_fs s' = demo_fs([u ''w'', u ''a''] \<mapsto> File (map of_nat (u ''one three'')))"
    using demo_approved by blast
  have "es_fs s' [u ''w'', u ''a''] \<noteq> es_fs demo_store [u ''w'', u ''a'']"
    by (simp add: f demo_store_eq demo_fs_def u_def)
  from approve_touches_only_its_paths [OF a this] show ?thesis by (auto simp: demo_store_eq demo_fs_def)
qed



text \<open>
  An exact edit replaces the occurrence of its text it was meant for: an edit is accepted only
  if every occurrence of the text overlaps the leftmost one, and that one is replaced.
\<close>

theorem exact_edit_unique:
  assumes "apply_exact_edit s e = Inr t" and "fe_find e \<noteq> []"
  shows "\<exists>a b. s = a @ fe_find e @ b \<and> t = a @ fe_replace e @ b \<and>
    (\<forall>a' b'. s = a' @ fe_find e @ b' \<longrightarrow> length a \<le> length a' \<and> length a' < length a + length (fe_find e))"
proof -
  from apply_exact_edit_count [OF assms(1)] assms(2) have "count_from s (fe_find e) = 1" and t: "t = replace_first s (fe_find e) (fe_replace e)"
    by (simp_all add: str_count_def)
  from count_once [OF assms(2) this(1)] obtain a b where ab: "s = a @ fe_find e @ b"
    and u: "\<forall>a' b'. s = a' @ fe_find e @ b' \<longrightarrow> length a \<le> length a' \<and> length a' < length a + length (fe_find e)" by blast
  with replace_first_at [of s "fe_find e" a b "fe_replace e"] t have "t = a @ fe_replace e @ b" by blast
  with ab u show ?thesis by blast
qed

lemma exact_edit_unique_witness:
  "\<exists>a b. u ''one two'' = a @ u ''two'' @ b \<and> u ''one three'' = a @ u ''three'' @ b"
proof -
  have e: "apply_exact_edit (u ''one two'') demo_edit = Inr (u ''one three'')" "fe_find demo_edit \<noteq> []"
    "fe_find demo_edit = u ''two''" "fe_replace demo_edit = u ''three''" by code_simp+
  from exact_edit_unique [OF e(1,2)] show ?thesis unfolding e(3,4) by blast
qed

text \<open>
  Without \<open>force\<close> nothing that exists is overwritten: approving a creation, move or copy whose
  target exists fails and changes neither the files nor the store.
\<close>

theorem unforced_never_overwrites:
  assumes "map_of (es_edits s) i = Some e" and "pe_kind e \<in> {KCreate, KMove, KCopy}" and "\<not> pe_force e"
    and "target = (if pe_kind e = KCreate then Some (pe_path e) else pe_destination e)"
    and "target = None \<or> exists_path (es_fs s) (the target)"
  shows "\<exists>x. approve env i s = (s, Inl x)"
proof (cases "approve env i s" rule: prod.exhaust)
  case (Pair s' r)
  then show ?thesis
  proof (cases rule: approve_cases)
    case (refused x)
    with Pair show ?thesis by simp
  next
    case (failed f x)
    with assms show ?thesis
      by (auto simp: Pair apply_operation_def approve_create_def approve_move_def approve_copy_def clear_destination_def
          demand_def require_destination_def split: if_splits option.splits)
  next
    case (applied f m s1)
    with assms show ?thesis
      by (auto simp: apply_operation_def approve_create_def approve_move_def approve_copy_def clear_destination_def
          demand_def require_destination_def split: if_splits option.splits)
  qed
qed

definition create_store :: edit_state where
  "create_store = (es_init demo_fs)\<lparr>es_edits := [(1, content_edit KCreate [u ''w''] [] [] [])]\<rparr>"

lemma unforced_never_overwrites_witness: "\<exists>x. approve demo_edit_env 1 create_store = (create_store, Inl x)"
  by (rule unforced_never_overwrites [where e = "content_edit KCreate [u ''w''] [] [] []", OF _ _ _ refl])
    (simp_all add: create_store_def content_edit_def exists_path_def es_init_def demo_fs_def)

text \<open>
  The user approves what was shown: when nothing else touches the file, the diff returned by
  \<open>propose\<close> is between the file's text and the proposed text, and after the approval reading the
  file gives exactly the proposed text (for texts without carriage returns, on either convention
  for line ends).
\<close>

theorem approved_edit_is_what_was_shown:
  assumes "propose p edits s = (s1, Inr (e, d))" and "approve env (pe_id e) s1 = (s2, Inr m)"
    and "ee_linesep env \<in> {[10], [13, 10]}" and "13 \<notin> set (pe_new e)"
  shows "snd (read_text p (es_fs s)) = Inr (pe_original e) \<and> d = create_unified_diff p (pe_original e) (pe_new e) \<and>
    apply_edits (pe_original e) edits = Inr (pe_new e) \<and> snd (read_text p (es_fs s2)) = Inr (pe_new e)"
proof -
  obtain original updated where o: "snd (read_text p (es_fs s)) = Inr original" "apply_edits original edits = Inr updated"
    "store_edit (content_edit KEdit p original updated edits) s = (s1, Inr (e, d))"
    using assms(1) by (auto simp: propose_def abind_Inr_iff on_fs_Inr value_of_Inr read_text_Inr)
  then have e: "pe_original e = original" "pe_new e = updated" "pe_path e = p" "pe_kind e = KEdit"
    "d = create_unified_diff p original updated" "map_of (es_edits s1) (pe_id e) = Some e" "es_fs s1 = es_fs s"
    by (auto simp: store_edit_def Let_def content_edit_def)
  obtain s3 where "apply_operation env e s1 = (s3, Inr m)" and f: "es_fs s2 = es_fs s3"
    using assms(2) e(6) by (elim approved_operation) auto
  then have "approve_edit env e s1 = (s3, Inr m)" using e(4) by (simp add: apply_operation_def)
  then have "write_text (ee_linesep env) p updated (es_fs s) = (es_fs s3, Inr ())"
    by (rule approve_edit_Inr) (use e o in \<open>auto split: if_splits\<close>)
  with write_then_read [of "ee_linesep env" updated p] assms(3,4) e(2) f have "snd (read_text p (es_fs s2)) = Inr updated"
    by auto
  with o e show ?thesis by simp
qed

lemma approved_edit_is_what_was_shown_witness:
  "\<exists>s2 :: edit_state. snd (read_text [u ''w'', u ''a''] (es_fs s2)) = Inr (u ''one three'')"
proof -
  have "apply_edits (u ''one two'') [demo_edit] = Inr (u ''one three'')" by code_simp
  then have p: "propose [u ''w'', u ''a''] [demo_edit] (es_init demo_fs) = (demo_store, Inr (demo_pending, pe_diff demo_pending))"
    by (simp add: demo_store_eq propose_def on_fs_read abind_def demo_read es_init_def value_of_def store_edit_def
        demo_pending_def Let_def del: apply_edits.simps)
  obtain m s' where "approve demo_edit_env 1 demo_store = (s', Inr m)" using demo_approved by blast
  moreover have "13 \<notin> set (u ''one three'')" by code_simp
  ultimately have "snd (read_text [u ''w'', u ''a''] (es_fs s')) = Inr (u ''one three'')"
    using approved_edit_is_what_was_shown [OF p, of demo_edit_env s' m] by (simp add: demo_edit_env_def)
  then show ?thesis by blast
qed

text \<open>
  C37: a forced move of a path onto one of its own ancestor directories is proposed without an
  error, but its approval deletes the whole ancestor with the source in it and then fails, leaving
  the proposal pending.
\<close>

theorem forced_move_onto_ancestor_loses_data:
  assumes "fs_ok (es_fs s)" and "exists_path (es_fs s) p" and "strict_prefix d p" and "d \<noteq> []"
  shows "\<exists>s1 e t s2 x. propose_move p d True s = (s1, Inr (e, t)) \<and> approve env (pe_id e) s1 = (s2, Inl (EOs x)) \<and>
    (\<forall>q. prefix d q \<longrightarrow> es_fs s2 q = None) \<and> status_of_edit s2 (pe_id e) = Some EPending"
proof -
  have "\<not> prefix p d" using assms(3) by (auto simp: strict_prefix_def)
  then obtain s1 e t where p: "propose_move p d True s = (s1, Inr (e, t))"
    and e: "pe_path e = p" "pe_destination e = Some d" "pe_force e" "pe_kind e = KMove" "pe_status e = EPending"
      "map_of (es_edits s1) (pe_id e) = Some e" "es_fs s1 = es_fs s"
    using assms(2,3)
    by (auto simp: propose_move_def demand_def is_relative_to_def store_edit_def Let_def operation_edit_def strict_prefix_def)
  from forced_move_up [of s1 e d] assms e obtain x where
    "apply_operation env e s1 = (s1\<lparr>es_fs := remove_tree d (es_fs s1)\<rparr>, Inl (EOs x))"
    by (auto simp: apply_operation_def)
  moreover have "find_pending (pe_id e) s1 = (s1, Inr e)" using e by (simp add: find_pending_Inr)
  ultimately have "approve env (pe_id e) s1 = (s1\<lparr>es_fs := remove_tree d (es_fs s1)\<rparr>, Inl (EOs x))"
    by (simp add: approve_def abind_eq)
  with p e show ?thesis by (fastforce simp: remove_tree_def status_of_edit_def)
qed

lemma forced_move_onto_ancestor_loses_data_witness:
  "\<exists>s1 e t s2 x. propose_move [u ''w'', u ''a''] [u ''w''] True (es_init demo_fs) = (s1, Inr (e, t)) \<and>
    approve demo_edit_env (pe_id e) s1 = (s2, Inl (EOs x)) \<and> es_fs s2 [u ''w'', u ''a''] = None"
proof -
  have "fs_ok demo_fs" by (auto simp: fs_ok_def demo_fs_def append_eq_Cons_conv split: if_splits)
  then show ?thesis
    using forced_move_onto_ancestor_loses_data [of "es_init demo_fs" "[u ''w'', u ''a'']" "[u ''w'']" demo_edit_env]
    by (fastforce simp: es_init_def exists_path_def demo_fs_def strict_prefix_def)
qed

section \<open>Changed spans\<close>

lemma offsets_from_nth: "i \<le> length ls \<Longrightarrow> offsets_from n ls ! i = n + length (concat (take i ls))"
proof (induction ls arbitrary: n i)
  case (Cons l ls)
  then show ?case by (cases i) auto
qed simp

lemma line_offsets_nth: "i \<le> length ls \<Longrightarrow> line_offsets ls ! i = length (concat (take i ls))"
  by (simp add: line_offsets_def offsets_from_nth)

lemma drop_concat_take: "drop (length (concat (take i ls))) (concat ls) = concat (drop i ls)"
proof -
  have "concat ls = concat (take i ls) @ concat (drop i ls)" by (metis append_take_drop_id concat_append)
  then show ?thesis by (metis append_eq_conv_conj)
qed

lemma take_split: "i \<le> j \<Longrightarrow> take j xs = take i xs @ slice i j xs"
  unfolding slice_def by (metis append_take_drop_id min.absorb1 take_take)

lemma slice_concat:
  "i \<le> j \<Longrightarrow> slice (length (concat (take i ls))) (length (concat (take j ls))) (concat ls) = concat (slice i j ls)"
proof -
  assume ij: "i \<le> j"
  have "take (length (concat (take j ls))) (concat ls) = concat (take j ls)"
    by (metis append_eq_conv_conj append_take_drop_id concat_append)
  moreover have "concat (take j ls) = concat (take i ls) @ concat (slice i j ls)"
    by (simp add: take_split [OF ij])
  ultimately show ?thesis by (simp add: slice_def)
qed

lemma drop_split: "i \<le> j \<Longrightarrow> drop i xs = slice i j xs @ drop j xs"
proof -
  assume "i \<le> j"
  then have "take j xs = take i xs @ slice i j xs" by (rule take_split)
  then have "take i xs @ drop i xs = take i xs @ slice i j xs @ drop j xs" by (metis append.assoc append_take_drop_id)
  then show ?thesis by (simp only: same_append_eq)
qed

lemma tile_le: "opcodes_tile a b i j i' j' ops \<Longrightarrow> i \<le> i' \<and> j \<le> j'"
  by (induction a b i j i' j' ops rule: opcodes_tile.induct) auto

lemma tile_bounds:
  "opcodes_tile a b i j i' j' ops \<Longrightarrow> (tag, i1, i2, j1, j2) \<in> set ops \<Longrightarrow> i1 \<le> i2 \<and> i2 \<le> i' \<and> j1 \<le> j2 \<and> j2 \<le> j'"
proof (induction a b i j i' j' ops rule: opcodes_tile.induct)
  case (2 a b i j i' j' tag0 k1 k2 l1 l2 ops)
  then show ?case using tile_le [of a b k2 l2 i' j' ops] by auto
qed simp

text \<open>A tiling is read off from the back: when no opcode changes anything, the sequences agree.\<close>

lemma tile_segments:
  assumes "opcodes_tile a b i j (length a) (length b) ops"
    and "\<And>tag i1 i2 j1 j2. (tag, i1, i2, j1, j2) \<in> set ops \<Longrightarrow> f (slice i1 i2 a) = g (slice j1 j2 b)"
    and "\<And>xs ys. f (xs @ ys) = f xs @ f ys" and "\<And>xs ys. g (xs @ ys) = g xs @ g ys" and "f [] = []" and "g [] = []"
  shows "f (drop i a) = g (drop j b)"
  using assms(1,2)
proof (induction a b i j "length a" "length b" ops rule: opcodes_tile.induct)
  case (1 a b i j)
  then show ?case using assms(5,6) by simp
next
  case (2 a b i j tag i1 i2 j1 j2 ops)
  have "f (drop i2 a) = g (drop j2 b)"
  proof (rule 2(1))
    show "opcodes_tile a b i2 j2 (length a) (length b) ops" using 2(2) by simp
    fix t k1 k2 l1 l2 assume "(t, k1, k2, l1, l2) \<in> set ops"
    then show "f (slice k1 k2 a) = g (slice l1 l2 b)" using 2(3) [of t k1 k2 l1 l2] by simp
  qed
  moreover have "f (slice i1 i2 a) = g (slice j1 j2 b)" by (rule 2(3) [of tag]) simp
  moreover have "i1 = i" "j1 = j" "i \<le> i2" "j \<le> j2" using 2(2) by auto
  ultimately show ?case by (simp only: drop_split assms(3,4))
qed

lemma tile_equal_slice:
  assumes "opcodes_tile a b i j (length a) (length b) ops" and "(OEqual, i1, i2, j1, j2) \<in> set ops"
  shows "slice i1 i2 a = slice j1 j2 b"
  using assms
proof (induction a b i j "length a" "length b" ops rule: opcodes_tile.induct)
  case (2 a b i j tag k1 k2 l1 l2 ops)
  show ?case
  proof (cases "(OEqual, i1, i2, j1, j2) \<in> set ops")
    case False
    with 2 have "i1 = k1" "i2 = k2" "j1 = l1" "j2 = l2" "tag = OEqual" by auto
    with 2(2) have "i1 \<le> i2" "j1 \<le> j2" "i2 - i1 = j2 - j1" "\<forall>d < i2 - i1. a ! (i1 + d) = b ! (j1 + d)"
      "i2 \<le> length a" "j2 \<le> length b" using tile_le [of a b i2 j2] by auto
    then show ?thesis unfolding slice_def by (intro nth_equalityI) auto
  qed (use 2 in auto)
qed simp

lemma character_spans_equal:
  assumes "character_changed_spans a b n = []"
  shows "a = b"
proof -
  have "\<forall>c \<in> set (get_opcodes False a b). fst c = OEqual"
    using assms by (auto simp: character_changed_spans_def filter_empty_conv split: if_splits)
  then have "drop 0 a = drop 0 b"
    by (intro tile_segments [where f = id and g = id, unfolded id_apply, OF get_opcodes_tile [of a b False]])
      (auto intro!: tile_equal_slice [OF get_opcodes_tile [of a b False]])
  then show ?thesis by simp
qed

lemma character_spans_bounds:
  "(x, y) \<in> set (character_changed_spans a b n) \<Longrightarrow> x \<le> y \<and> y \<le> n + length a"
  using tile_bounds [OF get_opcodes_tile [of a b False]]
  by (fastforce simp: character_changed_spans_def split: if_splits)

text \<open>
  The spans compared for an overlap are sound: each lies within the original text, and a text
  for which none is reported is unchanged.
\<close>

theorem changed_spans_sound:
  "(\<forall>(x, y) \<in> set (changed_spans original modified). x \<le> y \<and> y \<le> length original) \<and>
   (changed_spans original modified = [] \<longrightarrow> modified = original)"
proof
  let ?ol = "splitlines_keep original" and ?ml = "splitlines_keep modified"
  have tile: "opcodes_tile ?ol ?ml 0 0 (length ?ol) (length ?ml) (get_opcodes False ?ol ?ml)" by (rule get_opcodes_tile)
  have o: "concat ?ol = original" and m: "concat ?ml = modified" by (rule concat_splitlines_keep)+
  have off: "line_offsets ?ol ! i1 \<le> line_offsets ?ol ! i2" "line_offsets ?ol ! i2 \<le> length original"
    "slice (line_offsets ?ol ! i1) (line_offsets ?ol ! i2) original = concat (slice i1 i2 ?ol)"
    if "i1 \<le> i2" "i2 \<le> length ?ol" for i1 i2
  proof -
    have "original = concat (take i2 ?ol) @ concat (drop i2 ?ol)" using o by (metis append_take_drop_id concat_append)
    then show "line_offsets ?ol ! i2 \<le> length original" using that by (metis le_add1 length_append line_offsets_nth)
    show "line_offsets ?ol ! i1 \<le> line_offsets ?ol ! i2" using that by (simp add: line_offsets_nth take_split)
    show "slice (line_offsets ?ol ! i1) (line_offsets ?ol ! i2) original = concat (slice i1 i2 ?ol)"
      using slice_concat [OF that(1), of ?ol] that o by (simp add: line_offsets_nth)
  qed
  have offm: "slice (line_offsets ?ml ! j1) (line_offsets ?ml ! j2) modified = concat (slice j1 j2 ?ml)"
    if "j1 \<le> j2" "j2 \<le> length ?ml" for j1 j2
    using slice_concat [OF that(1), of ?ml] that m by (simp add: line_offsets_nth)
  show "\<forall>(x, y) \<in> set (changed_spans original modified). x \<le> y \<and> y \<le> length original"
  proof (clarify)
    fix x y assume "(x, y) \<in> set (changed_spans original modified)"
    then obtain tag i1 i2 j1 j2 where c: "(tag, i1, i2, j1, j2) \<in> set (get_opcodes False ?ol ?ml)"
      and xy: "(x, y) \<in> set (opcode_spans original modified (line_offsets ?ol) (line_offsets ?ml) (tag, i1, i2, j1, j2))"
      by (auto simp: changed_spans_def Let_def)
    note b = tile_bounds [OF tile c]
    show "x \<le> y \<and> y \<le> length original"
    proof (cases "tag = OReplace")
      case True
      with xy have "(x, y) \<in> set (character_changed_spans
          (slice (line_offsets ?ol ! i1) (line_offsets ?ol ! i2) original)
          (slice (line_offsets ?ml ! j1) (line_offsets ?ml ! j2) modified) (line_offsets ?ol ! i1))"
        by (simp add: opcode_spans_def)
      from character_spans_bounds [OF this] off(1,2) [of i1 i2] b show ?thesis by (auto simp: slice_def)
    next
      case False
      with xy off(1,2) [of i1 i2] b show ?thesis by (auto simp: opcode_spans_def split: if_splits)
    qed
  qed
  show "changed_spans original modified = [] \<longrightarrow> modified = original"
  proof
    assume "changed_spans original modified = []"
    then have nil: "opcode_spans original modified (line_offsets ?ol) (line_offsets ?ml) c = []"
      if "c \<in> set (get_opcodes False ?ol ?ml)" for c
      using that by (simp add: changed_spans_def Let_def)
    have "concat (slice i1 i2 ?ol) = concat (slice j1 j2 ?ml)" if c: "(tag, i1, i2, j1, j2) \<in> set (get_opcodes False ?ol ?ml)"
      for tag i1 i2 j1 j2
    proof (cases "tag = OEqual")
      case True
      with tile_equal_slice [OF tile] c show ?thesis by simp
    next
      case False
      with nil [OF c] have "tag = OReplace" by (auto simp: opcode_spans_def split: if_splits)
      with nil [OF c] tile_bounds [OF tile c] show ?thesis
        by (auto simp: opcode_spans_def off(3) offm dest: character_spans_equal)
    qed
    with tile_segments [where f = concat and g = concat, OF tile] have "concat (drop 0 ?ol) = concat (drop 0 ?ml)" by simp
    with o m show "modified = original" by simp
  qed
qed

lemma changed_spans_sound_witness:
  "(2, 3) \<in> set (changed_spans (u ''abc'') (u ''abd'')) \<and> (3 :: nat) \<le> length (u ''abc'')"
proof -
  have m: "(2, 3) \<in> set (changed_spans (u ''abc'') (u ''abd''))" by code_simp
  with changed_spans_sound [of "u ''abc''" "u ''abd''"] show ?thesis by auto
qed

end
