(* ===== verification/ToolRegistry.thy ===== *)
theory ToolRegistry
  imports Json
begin

text \<open>
  \<open>core/tool_registry.py\<close>, \<open>runtime/tool_profiles.py\<close> and \<open>llm/schema.py\<close>: the registry of tools,
  the allowlists of the agent roles, and the tool schemas sent to a provider.  A tool's function is
  of an arbitrary type \<open>'f\<close>.  Importing the tool modules (\<open>autodiscover\<close>) is not modelled: a
  source registry is an argument.
\<close>

section \<open>The registry\<close>

record 'f tool_spec =
  sp_name :: pystr
  sp_function :: 'f
  sp_description :: pystr
  sp_parameters :: "(pystr, json) dict"
  sp_requires_state :: bool
  sp_example :: "json option"

type_synonym 'f registry = "(pystr, 'f tool_spec) dict"

definition reg_register :: "'f tool_spec \<Rightarrow> 'f registry \<Rightarrow> pystr + 'f registry" where
  "reg_register spec reg =
     (if sp_name spec \<in> fst ` set reg then Inl (u ''Tool '' @ [39] @ sp_name spec @ [39] @ u '' is already registered.'')
      else Inr (dput (sp_name spec) spec reg))"

definition reg_get :: "'f registry \<Rightarrow> pystr \<Rightarrow> 'f tool_spec option" where
  "reg_get reg name = map_of reg name"

definition reg_all :: "'f registry \<Rightarrow> 'f registry" where
  "reg_all reg = reg"

definition reg_names :: "'f registry \<Rightarrow> pystr list" where
  "reg_names reg = map fst reg"

definition reg_contains :: "'f registry \<Rightarrow> pystr \<Rightarrow> bool" where
  "reg_contains reg name \<longleftrightarrow> name \<in> fst ` set reg"

text \<open>The loop of \<open>select\<close>: the registry built so far and the names not found.\<close>

fun select_loop :: "'f registry \<Rightarrow> pystr list \<Rightarrow> 'f registry \<Rightarrow> pystr list \<Rightarrow> pystr + 'f registry \<times> pystr list" where
  "select_loop src [] selected absent = Inr (selected, absent)"
| "select_loop src (name # names) selected absent =
     (case reg_get src name of
        None \<Rightarrow> select_loop src names selected (absent @ [name])
      | Some spec \<Rightarrow> rbind (reg_register spec selected) (\<lambda>s. select_loop src names s absent))"

definition reg_select :: "'f registry \<Rightarrow> pystr list \<Rightarrow> bool \<Rightarrow> pystr + 'f registry" where
  "reg_select src names strict =
     rbind (select_loop src names [] []) (\<lambda>(selected, absent).
       if strict \<and> absent \<noteq> []
       then Inl (u ''Unknown tool(s) in capability profile: '' @ join (u '', '') (sort absent))
       else Inr selected)"

text \<open>The decorator \<open>@tool(...)\<close> applied to a function.\<close>

definition tool_decorator ::
  "pystr \<Rightarrow> 'f \<Rightarrow> pystr \<Rightarrow> (pystr, json) dict option \<Rightarrow> bool \<Rightarrow> json option \<Rightarrow> 'f registry \<Rightarrow> pystr + 'f registry" where
  "tool_decorator name fn description params requires_state example =
     reg_register \<lparr>sp_name = name, sp_function = fn, sp_description = description,
       sp_parameters = (case params of None \<Rightarrow> [] | Some p \<Rightarrow> p), sp_requires_state = requires_state, sp_example = example\<rparr>"

section \<open>Capability profiles\<close>

datatype agent_profile = Head | CodingWorker | ReadOnlyWorker | ReviewWorker

fun profile_value :: "agent_profile \<Rightarrow> pystr" where
  "profile_value Head = u ''head''"
| "profile_value CodingWorker = u ''coding-worker''"
| "profile_value ReadOnlyWorker = u ''read-only-worker''"
| "profile_value ReviewWorker = u ''review-worker''"

definition agent_profiles :: "agent_profile list" where
  "agent_profiles = [Head, CodingWorker, ReadOnlyWorker, ReviewWorker]"

definition inspection_tools :: "pystr list" where
  "inspection_tools = [u ''analyze_python_file'', u ''analyze_python_files'', u ''file_info'', u ''pwd'', u ''ls'', u ''cd'',
     u ''read_file'', u ''find_files'', u ''search_text'']"

definition mutation_tools :: "pystr list" where
  "mutation_tools = [u ''propose_file_edit'', u ''propose_file_replace'', u ''create_file'', u ''move_file'',
     u ''delete_path'', u ''copy_file'', u ''create_folder'']"

fun PROFILE_TOOLS :: "agent_profile \<Rightarrow> pystr list" where
  "PROFILE_TOOLS Head = inspection_tools @ mutation_tools @ [u ''knowledge_search'', u ''http_get'', u ''run_shell_command'',
     u ''run_elevated_shell_command'', u ''collect_privileged_host_evidence'', u ''inspect_privileged_image_copy'']"
| "PROFILE_TOOLS CodingWorker = inspection_tools @ mutation_tools @ [u ''run_shell_command'']"
| "PROFILE_TOOLS ReadOnlyWorker = inspection_tools @ [u ''knowledge_search'']"
| "PROFILE_TOOLS ReviewWorker = inspection_tools @ [u ''run_shell_command'']"

definition profile_tool_names :: "pystr \<Rightarrow> pystr + pystr list" where
  "profile_tool_names profile =
     (case List.find (\<lambda>p. profile_value p = profile) agent_profiles of
        None \<Rightarrow> Inl (u ''Unknown agent profile '' @ [39] @ profile @ [39] @ u ''. Expected one of: '' @ join (u '', '') (map profile_value agent_profiles))
      | Some p \<Rightarrow> Inr (PROFILE_TOOLS p))"

definition build_profile_registry :: "pystr \<Rightarrow> 'f registry \<Rightarrow> pystr + 'f registry" where
  "build_profile_registry profile src = rbind (profile_tool_names profile) (\<lambda>names. reg_select src names True)"

section \<open>Provider schemas\<close>

text \<open>Either an explicit schema, copied, or a description of a string parameter.\<close>

definition property_schema :: "json \<Rightarrow> json" where
  "property_schema definition0 = (case definition0 of
     JObj d \<Rightarrow> JObj d
   | JStr t \<Rightarrow> JObj [(u ''type'', JStr (u ''string'')), (u ''description'', JStr t)]
   | _ \<Rightarrow> JObj [(u ''type'', JStr (u ''string'')), (u ''description'', definition0)])"

definition is_required :: "json \<Rightarrow> bool" where
  "is_required definition0 = (case definition0 of JObj d \<Rightarrow> u ''default'' \<notin> fst ` set d | _ \<Rightarrow> True)"

definition to_json_schema_parameters :: "'f tool_spec \<Rightarrow> json" where
  "to_json_schema_parameters spec = JObj
     [(u ''type'', JStr (u ''object'')),
      (u ''properties'', JObj (map (\<lambda>(name, d). (name, property_schema d)) (sp_parameters spec))),
      (u ''required'', JArr (map (JStr \<circ> fst) (filter (is_required \<circ> snd) (sp_parameters spec)))),
      (u ''additionalProperties'', JBool False)]"

definition tool_spec_to_openai_function :: "'f tool_spec \<Rightarrow> json" where
  "tool_spec_to_openai_function spec = JObj
     [(u ''type'', JStr (u ''function'')),
      (u ''function'', JObj [(u ''name'', JStr (sp_name spec)), (u ''description'', JStr (sp_description spec)),
        (u ''parameters'', to_json_schema_parameters spec)])]"

definition tool_spec_to_responses_function :: "'f tool_spec \<Rightarrow> json" where
  "tool_spec_to_responses_function spec = JObj
     [(u ''type'', JStr (u ''function'')), (u ''name'', JStr (sp_name spec)),
      (u ''description'', JStr (sp_description spec)), (u ''parameters'', to_json_schema_parameters spec)]"

definition build_tools_list :: "'f registry \<Rightarrow> pystr \<Rightarrow> json list" where
  "build_tools_list reg api =
     map ((if api = u ''responses'' then tool_spec_to_responses_function else tool_spec_to_openai_function) \<circ> snd) (reg_all reg)"

section \<open>Laws of the registry\<close>

definition registry_ok :: "'f registry \<Rightarrow> bool" where
  "registry_ok reg \<longleftrightarrow> dict_ok reg \<and> (\<forall>(n, spec) \<in> set reg. sp_name spec = n)"

lemma registry_ok_Nil [simp]: "registry_ok []"
  by (simp add: registry_ok_def)

lemma register_ok: "registry_ok reg \<Longrightarrow> reg_register spec reg = Inr reg' \<Longrightarrow> registry_ok reg'"
  by (auto simp: reg_register_def registry_ok_def keys_dput_fresh dict_ok_def split: if_splits)

lemma register_Inr:
  "reg_register spec reg = Inr reg' \<longleftrightarrow> sp_name spec \<notin> fst ` set reg \<and> reg' = reg @ [(sp_name spec, spec)]"
  by (auto simp: reg_register_def keys_dput_fresh)

lemma registry_get: "registry_ok reg \<Longrightarrow> reg_get reg n = Some spec \<longleftrightarrow> (n, spec) \<in> set reg"
  by (simp add: registry_ok_def reg_get_def dict_ok_def)

lemma registry_get_name: "registry_ok reg \<Longrightarrow> reg_get reg n = Some spec \<Longrightarrow> sp_name spec = n"
  using registry_get unfolding registry_ok_def by fastforce

lemma select_loop_found:
  assumes "registry_ok src" "select_loop src names sel absent = Inr (r, missing)"
  shows "r = sel @ map (\<lambda>n. (n, the (reg_get src n))) (filter (\<lambda>n. reg_get src n \<noteq> None) names) \<and>
    missing = absent @ filter (\<lambda>n. reg_get src n = None) names"
  using assms(2)
proof (induction names arbitrary: sel absent)
  case (Cons n names)
  show ?case
  proof (cases "reg_get src n")
    case None
    with Cons.prems Cons.IH [of sel "absent @ [n]"] show ?thesis by simp
  next
    case (Some spec)
    with Cons.prems obtain s where "reg_register spec sel = Inr s" "select_loop src names s absent = Inr (r, missing)"
      by auto
    with Cons.IH [OF this(2)] Some registry_get_name [OF assms(1) Some] show ?thesis
      by (auto simp: register_Inr)
  qed
qed simp

lemma select_loop_total:
  assumes "registry_ok src" "distinct names" "set names \<inter> fst ` set sel = {}"
  shows "\<exists>r missing. select_loop src names sel absent = Inr (r, missing)"
  using assms(2,3)
proof (induction names arbitrary: sel absent)
  case (Cons n names)
  show ?case
  proof (cases "reg_get src n")
    case None
    with Cons show ?thesis by auto
  next
    case (Some spec)
    with registry_get_name [OF assms(1)] have "sp_name spec = n" by blast
    with Cons.prems have "reg_register spec sel = Inr (sel @ [(n, spec)])" by (auto simp: register_Inr)
    with Cons.IH [of "sel @ [(n, spec)]" absent] Cons.prems Some show ?thesis by auto
  qed
qed simp

lemma profile_tools_distinct: "distinct (PROFILE_TOOLS p)"
  by (cases p) (simp_all add: inspection_tools_def mutation_tools_def)

lemma profile_tool_names_Inr: "profile_tool_names profile = Inr names \<longleftrightarrow> (\<exists>p. profile = profile_value p \<and> names = PROFILE_TOOLS p)"
proof -
  have "\<exists>p'. profile = profile_value p' \<and> names = PROFILE_TOOLS p'" if "profile_tool_names profile = Inr names"
    using that by (auto simp: profile_tool_names_def find_Some_iff split: option.splits)
  moreover have "profile_tool_names (profile_value p) = Inr (PROFILE_TOOLS p)" for p
    by (cases p) (simp_all add: profile_tool_names_def agent_profiles_def)
  ultimately show ?thesis by auto
qed

lemma profile_registry_spec:
  assumes "registry_ok src"
  shows "build_profile_registry profile src = Inr reg \<longleftrightarrow>
    (\<exists>p. profile = profile_value p \<and> (\<forall>n \<in> set (PROFILE_TOOLS p). reg_contains src n) \<and>
      reg = map (\<lambda>n. (n, the (reg_get src n))) (PROFILE_TOOLS p))"
proof -
  have none: "reg_get src n = None \<longleftrightarrow> \<not> reg_contains src n" for n
    by (auto simp: reg_get_def reg_contains_def map_of_eq_None_iff)
  have "reg_select src (PROFILE_TOOLS p) True = Inr reg \<longleftrightarrow>
      (\<forall>n \<in> set (PROFILE_TOOLS p). reg_contains src n) \<and> reg = map (\<lambda>n. (n, the (reg_get src n))) (PROFILE_TOOLS p)" for p
  proof -
    obtain r missing where l: "select_loop src (PROFILE_TOOLS p) [] [] = Inr (r, missing)"
      using select_loop_total [OF assms profile_tools_distinct [of p], where sel = "[]" and absent = "[]"] by auto
    note f = select_loop_found [OF assms l]
    have e: "missing = [] \<longleftrightarrow> (\<forall>n \<in> set (PROFILE_TOOLS p). reg_contains src n)"
      using f by (auto simp: filter_empty_conv none)
    moreover have "r = map (\<lambda>n. (n, the (reg_get src n))) (PROFILE_TOOLS p)" if "missing = []"
      using that f by (auto simp: filter_empty_conv)
    ultimately show ?thesis using l by (auto simp: reg_select_def)
  qed
  then show ?thesis by (auto simp: build_profile_registry_def rbind_Inr_iff profile_tool_names_Inr)
qed

lemma profile_registry_get:
  assumes "registry_ok src" "build_profile_registry (profile_value p) src = Inr reg"
  shows "reg_get reg name = (if name \<in> set (PROFILE_TOOLS p) then reg_get src name else None)"
proof -
  from assms obtain p' where p': "profile_value p = profile_value p'" "\<forall>n \<in> set (PROFILE_TOOLS p'). reg_contains src n"
    "reg = map (\<lambda>n. (n, the (reg_get src n))) (PROFILE_TOOLS p')" by (auto simp: profile_registry_spec)
  from p'(1) have "p' = p" by (cases p; cases p') simp_all
  with p'(2) have "\<forall>n \<in> set (PROFILE_TOOLS p). reg_get src n \<noteq> None"
    by (auto simp: reg_contains_def reg_get_def map_of_eq_None_iff)
  with p'(3) \<open>p' = p\<close> show ?thesis
    by (auto simp: reg_get_def map_of_map_restrict restrict_map_def)
qed

section \<open>Properties\<close>

text \<open>
  A role's registry is built exactly when the role is known and every tool of its allowlist was
  discovered; it then holds exactly the tools of the allowlist, in its order, each with the
  discovered definition, and nothing else.
\<close>

theorem profile_registry_exact:
  assumes "registry_ok src"
  shows "build_profile_registry profile src = Inr reg \<longleftrightarrow>
    (\<exists>p. profile = profile_value p \<and> (\<forall>n \<in> set (PROFILE_TOOLS p). reg_contains src n) \<and>
      reg = map (\<lambda>n. (n, the (reg_get src n))) (PROFILE_TOOLS p))"
  using assms by (rule profile_registry_spec)

definition spec_named :: "pystr \<Rightarrow> unit tool_spec" where
  "spec_named n = \<lparr>sp_name = n, sp_function = (), sp_description = [], sp_parameters = [], sp_requires_state = False, sp_example = None\<rparr>"

lemma discovered_ok: "registry_ok (map (\<lambda>n. (n, spec_named n)) (PROFILE_TOOLS p))"
proof -
  have "map fst (map (\<lambda>n. (n, spec_named n)) (PROFILE_TOOLS p)) = PROFILE_TOOLS p" by (simp add: o_def)
  then show ?thesis unfolding registry_ok_def dict_ok_def
    using profile_tools_distinct [of p] by (auto simp: spec_named_def simp del: PROFILE_TOOLS.simps)
qed

lemma profile_registry_exact_witness:
  "build_profile_registry (u ''read-only-worker'') (map (\<lambda>n. (n, spec_named n)) (PROFILE_TOOLS Head)) =
     Inr (map (\<lambda>n. (n, spec_named n)) (PROFILE_TOOLS ReadOnlyWorker))"
proof -
  show ?thesis
    by (rule profile_registry_exact [OF discovered_ok, THEN iffD2]) (rule exI [of _ ReadOnlyWorker], simp add: reg_contains_def reg_get_def inspection_tools_def mutation_tools_def)
qed

text \<open>
  No worker role is granted a tool that elevates, reaches the network or inspects the privileged
  host, whatever was discovered, and the read-only and review roles cannot propose an edit.
\<close>

theorem workers_hold_no_host_authority:
  assumes "registry_ok src" and "build_profile_registry profile src = Inr reg" and "profile \<noteq> u ''head''"
  shows "\<not> reg_contains reg (u ''run_elevated_shell_command'') \<and> \<not> reg_contains reg (u ''http_get'') \<and>
    \<not> reg_contains reg (u ''collect_privileged_host_evidence'') \<and> \<not> reg_contains reg (u ''inspect_privileged_image_copy'') \<and>
    (profile \<noteq> u ''coding-worker'' \<longrightarrow> (\<forall>n \<in> set mutation_tools. \<not> reg_contains reg n))"
proof -
  from assms(1,2) obtain p where p: "profile = profile_value p" "reg = map (\<lambda>n. (n, the (reg_get src n))) (PROFILE_TOOLS p)"
    by (auto simp: profile_registry_spec)
  then have "reg_contains reg n \<longleftrightarrow> n \<in> set (PROFILE_TOOLS p)" for n
    by (force simp: reg_contains_def)
  with p(1) assms(3) show ?thesis
    by (cases p) (simp_all add: inspection_tools_def mutation_tools_def)
qed

lemma workers_hold_no_host_authority_witness:
  "\<not> reg_contains (map (\<lambda>n. (n, spec_named n)) (PROFILE_TOOLS CodingWorker)) (u ''http_get'')"
proof -
  let ?src = "map (\<lambda>n. (n, spec_named n)) (PROFILE_TOOLS Head)"
  have "build_profile_registry (u ''coding-worker'') ?src = Inr (map (\<lambda>n. (n, spec_named n)) (PROFILE_TOOLS CodingWorker))"
    by code_simp
  from workers_hold_no_host_authority [OF discovered_ok this] show ?thesis by simp
qed

end
