(* ===== verification/ToolProtocol.thy ===== *)
theory ToolProtocol
  imports Json
begin

text \<open>
  \<open>core/protocol.py\<close>: how the agent reads a model's reply, as tool calls, a final answer or an
  invalid attempt.  The text of a \<open>JSONDecodeError\<close> (its message, line and column) and \<open>repr\<close>'s
  Unicode printability are parameters; the decoder's recursion and digit limits are left out.
\<close>

section \<open>Parsed replies\<close>

definition MAX_TOOL_CALLS_PER_TURN :: nat where
  "MAX_TOOL_CALLS_PER_TURN = 10"

record tool_call =
  call_action :: pystr
  call_input :: "(pystr \<times> json) list"

datatype response_kind = ToolResponse | FinalResponse | InvalidResponse

record parsed_response =
  pr_kind :: response_kind
  pr_tool_calls :: "tool_call list"
  pr_final :: "pystr option"
  pr_error :: "pystr option"
  pr_assistant_text :: pystr
  pr_consumed :: bool

record parse_env =
  pv_printable :: "pychar \<Rightarrow> bool"
  pv_message :: "pystr \<Rightarrow> pystr"     \<comment> \<open>\<open>e.msg\<close>\<close>
  pv_position :: "pystr \<Rightarrow> pystr"    \<comment> \<open>\<open>line {e.lineno}, column {e.colno}\<close>\<close>

definition tools_response :: "tool_call list \<Rightarrow> pystr \<Rightarrow> bool \<Rightarrow> parsed_response" where
  "tools_response calls visible consumed = \<lparr>pr_kind = ToolResponse, pr_tool_calls = calls, pr_final = None,
     pr_error = None, pr_assistant_text = visible, pr_consumed = consumed\<rparr>"

definition tool_response :: "pystr \<Rightarrow> (pystr \<times> json) list \<Rightarrow> parsed_response" where
  "tool_response action input = tools_response [\<lparr>call_action = action, call_input = input\<rparr>] [] False"

definition final_response :: "pystr \<Rightarrow> parsed_response" where
  "final_response t = \<lparr>pr_kind = FinalResponse, pr_tool_calls = [], pr_final = Some t,
     pr_error = None, pr_assistant_text = [], pr_consumed = False\<rparr>"

definition invalid_response :: "pystr \<Rightarrow> parsed_response" where
  "invalid_response m = \<lparr>pr_kind = InvalidResponse, pr_tool_calls = [], pr_final = None,
     pr_error = Some m, pr_assistant_text = [], pr_consumed = False\<rparr>"

definition is_valid :: "parsed_response \<Rightarrow> bool" where
  "is_valid r \<longleftrightarrow> pr_kind r \<noteq> InvalidResponse"

definition first_action :: "parsed_response \<Rightarrow> pystr option" where
  "first_action r = (case pr_tool_calls r of [] \<Rightarrow> None | c # _ \<Rightarrow> Some (call_action c))"

definition first_input :: "parsed_response \<Rightarrow> (pystr \<times> json) list option" where
  "first_input r = (case pr_tool_calls r of [] \<Rightarrow> None | c # _ \<Rightarrow> Some (call_input c))"

section \<open>Validation\<close>

text \<open>A list of strings as an f-string prints it.\<close>

definition repr_list :: "(pychar \<Rightarrow> bool) \<Rightarrow> pystr list \<Rightarrow> pystr" where
  "repr_list uni ws = 91 # join (u '', '') (map (py_repr uni) ws) @ [93]"

definition keys_beyond :: "(pystr \<times> json) list \<Rightarrow> pystr list \<Rightarrow> pystr list" where
  "keys_beyond d allowed = sort (filter (\<lambda>k. k \<notin> set allowed) (map fst d))"

text \<open>Either the call, or the text of the error.\<close>

definition single_call :: "parse_env \<Rightarrow> json \<Rightarrow> pystr + tool_call" where
  "single_call pv data = (case data of
     JObj d \<Rightarrow>
       let allowed = [u ''action'', u ''input'']; extra = keys_beyond d allowed;
           absent = sort (filter (\<lambda>k. k \<notin> fst ` set d) allowed) in
       if extra \<noteq> [] then Inl (u ''Tool call contains unsupported key(s): '' @ repr_list (pv_printable pv) extra @ u ''.'')
       else if absent \<noteq> [] then Inl (u ''Tool call is missing required key(s): '' @ repr_list (pv_printable pv) absent @ u ''.'')
       else (case map_of d (u ''action'') of
           Some (JStr a) \<Rightarrow>
             if strip a = [] then Inl (u '''action' must not be empty.'')
             else (case map_of d (u ''input'') of
                 Some (JObj i) \<Rightarrow> Inr \<lparr>call_action = strip a, call_input = i\<rparr>
               | _ \<Rightarrow> Inl (u '''input' must be a JSON object.''))
         | _ \<Rightarrow> Inl (u '''action' must be a string.''))
   | _ \<Rightarrow> Inl (u ''Tool call JSON root must be an object.''))"

definition validate_single :: "parse_env \<Rightarrow> json \<Rightarrow> parsed_response" where
  "validate_single pv data = (case single_call pv data of
     Inl t \<Rightarrow> invalid_response t | Inr c \<Rightarrow> tool_response (call_action c) (call_input c))"

definition list_item :: "parse_env \<Rightarrow> json \<Rightarrow> pystr + tool_call" where
  "list_item pv item = (if is_JObj item then single_call pv item
     else Inl (u ''Each entry in 'tool_calls' must be an object.''))"

definition validate_call_list :: "parse_env \<Rightarrow> json \<Rightarrow> parsed_response" where
  "validate_call_list pv items = (case items of
     JArr js \<Rightarrow>
       if js = [] then invalid_response (u '''tool_calls' must contain at least one tool call.'')
       else if MAX_TOOL_CALLS_PER_TURN < length js
       then invalid_response (u ''Too many tool calls in one response: '' @ show_nat (length js) @ u '' > '' @
         show_nat MAX_TOOL_CALLS_PER_TURN @ u ''.'')
       else (case map_res (list_item pv) js of
           Inl t \<Rightarrow> invalid_response t | Inr calls \<Rightarrow> tools_response calls [] False)
   | _ \<Rightarrow> invalid_response (u '''tool_calls' must be a JSON array.''))"

section \<open>Broken and embedded calls\<close>

text \<open>The texts \<open>re.findall\<close> finds for \<open>{.*?}\<close>: from a brace to the next closing one.\<close>

fun brace_scan :: "pystr option \<Rightarrow> pystr \<Rightarrow> pystr list" where
  "brace_scan w [] = []"
| "brace_scan None (c # s) = brace_scan (if c = 123 then Some [123] else None) s"
| "brace_scan (Some w) (c # s) =
     (if c = 125 then (w @ [125]) # brace_scan None s else brace_scan (Some (w @ [c])) s)"

definition mentions_call :: "pystr \<Rightarrow> bool" where
  "mentions_call s \<longleftrightarrow> contains s (u ''\"action\"'') \<and> contains s (u ''\"input\"'')"

definition decodes_as_call :: "pystr \<Rightarrow> bool" where
  "decodes_as_call s \<longleftrightarrow> mentions_call s \<and> (case json_loads s of
     Some (JObj d) \<Rightarrow> u ''action'' \<in> fst ` set d \<and> u ''input'' \<in> fst ` set d | _ \<Rightarrow> False)"

text \<open>With or without a decodable match the answer is the same: the keys being there is enough.\<close>

definition contains_embedded_call :: "pystr \<Rightarrow> bool" where
  "contains_embedded_call s =
     (if \<not> mentions_call s then False
      else if list_ex decodes_as_call (brace_scan None s) then True
      else True)"

definition looks_like_broken_call :: "pystr \<Rightarrow> bool" where
  "looks_like_broken_call s = (let clean = strip s in
     clean \<noteq> [] \<and> (starts_with clean (u ''```'') \<or> starts_with clean (u ''{'')) \<and> contains clean (u ''\"action\"''))"

section \<open>Textual tool calls\<close>

definition open_tag :: pystr where "open_tag = u ''<tool_call>''"
definition close_tag :: pystr where "close_tag = u ''</tool_call>''"

text \<open>The text before the first occurrence of \<open>p\<close> in any letter case, and the text after it.\<close>

fun cut_ci :: "pystr \<Rightarrow> pystr \<Rightarrow> (pystr \<times> pystr) option" where
  "cut_ci [] p = None"
| "cut_ci (c # s) p =
     (if starts_with (lower (c # s)) p then Some ([], drop (length p) (c # s))
      else map_option (\<lambda>(a, b). (c # a, b)) (cut_ci s p))"

lemma cut_ci_length: "cut_ci s p = Some (a, b) \<Longrightarrow> length b \<le> length s"
  by (induction s p arbitrary: a rule: cut_ci.induct) (auto split: if_splits)

lemma cut_ci_less: "cut_ci s p = Some (a, b) \<Longrightarrow> p \<noteq> [] \<Longrightarrow> length b < length s"
proof (induction s p arbitrary: a rule: cut_ci.induct)
  case (2 c s p)
  then show ?case by (cases p) (auto split: if_splits)
qed simp

text \<open>
  The matches of \<open><tool_call>\s*(?P<body>.*?)\s*</tool_call>\<close>: the stripped body of each, and the
  text outside all of them.  An opening tag that is never closed matches nothing.
\<close>

function tool_blocks :: "pystr \<Rightarrow> pystr list \<times> pystr" where
  "tool_blocks s = (case cut_ci s open_tag of
     None \<Rightarrow> ([], s)
   | Some (before, rest) \<Rightarrow> (case cut_ci rest close_tag of
         None \<Rightarrow> ([], s)
       | Some (body, after) \<Rightarrow> (case tool_blocks after of (bs, visible) \<Rightarrow> (strip body # bs, before @ visible))))"
  by pat_completeness auto
termination
  by (relation "measure length") (auto simp: open_tag_def close_tag_def dest!: cut_ci_less)

declare tool_blocks.simps [simp del]

definition recipient_name :: "pystr \<Rightarrow> pystr" where
  "recipient_name name = (let clean = strip name in
     if starts_with clean (u ''functions.'') then drop (length (u ''functions.'')) clean else clean)"

definition maybe_decode :: "json \<Rightarrow> json" where
  "maybe_decode v = (case v of
     JStr s \<Rightarrow>
       let t = strip s in
       if t \<noteq> [] \<and> (starts_with t (u ''{'') \<or> starts_with t (u ''['') \<or> starts_with t [34] \<or>
            t \<in> {u ''true'', u ''false'', u ''null''})
       then (case json_loads t of None \<Rightarrow> v | Some j \<Rightarrow> j) else v
   | _ \<Rightarrow> v)"

definition coerce_parameters :: "(pystr \<times> json) list \<Rightarrow> (pystr \<times> json) list" where
  "coerce_parameters d = map (\<lambda>(k, v). (k, maybe_decode v)) d"

definition parameters_field :: "(pystr \<times> json) list \<Rightarrow> json" where
  "parameters_field d = (case map_of d (u ''parameters'') of None \<Rightarrow> JObj [] | Some JNull \<Rightarrow> JObj [] | Some j \<Rightarrow> j)"

definition block_call :: "parse_env \<Rightarrow> pystr \<Rightarrow> pystr + tool_call" where
  "block_call pv body = (case json_loads body of
     None \<Rightarrow> Inl (u ''Invalid <tool_call> JSON: '' @ pv_message pv body @ u '' at '' @ pv_position pv body @ u ''.'')
   | Some (JObj d) \<Rightarrow>
       let extra = keys_beyond d [u ''recipient_name'', u ''parameters''] in
       if extra \<noteq> [] then Inl (u ''Invalid <tool_call>: unsupported key(s): '' @ repr_list (pv_printable pv) extra @ u ''.'')
       else (case map_of d (u ''recipient_name'') of
           Some (JStr name) \<Rightarrow>
             if strip name = [] then Inl (u ''Invalid <tool_call>: 'recipient_name' must be a non-empty string.'')
             else
               let p0 = parameters_field d; p1 = (if is_JStr p0 then maybe_decode p0 else p0) in
               (case p1 of
                  JObj params \<Rightarrow>
                    if recipient_name name = [] then Inl (u ''Invalid <tool_call>: tool name must not be empty.'')
                    else Inr \<lparr>call_action = recipient_name name, call_input = coerce_parameters params\<rparr>
                | _ \<Rightarrow> Inl (u ''Invalid <tool_call>: 'parameters' must be a JSON object.''))
         | _ \<Rightarrow> Inl (u ''Invalid <tool_call>: 'recipient_name' must be a non-empty string.''))
   | Some _ \<Rightarrow> Inl (u ''Invalid <tool_call>: body must be a JSON object.''))"

definition block_errors :: "(pystr + tool_call) list \<Rightarrow> pystr list" where
  "block_errors rs = concat (map (\<lambda>r. case r of Inl t \<Rightarrow> [t] | Inr c \<Rightarrow> []) rs)"

definition block_calls :: "(pystr + tool_call) list \<Rightarrow> tool_call list" where
  "block_calls rs = concat (map (\<lambda>r. case r of Inl t \<Rightarrow> [] | Inr c \<Rightarrow> [c]) rs)"

definition extract_textual_calls :: "parse_env \<Rightarrow> pystr \<Rightarrow> parsed_response option" where
  "extract_textual_calls pv s = (case tool_blocks s of (bodies, visible) \<Rightarrow>
     if bodies = [] then None
     else if MAX_TOOL_CALLS_PER_TURN < length bodies
     then Some (invalid_response (u ''Too many textual tool calls in one response: '' @ show_nat (length bodies) @ u '' > '' @
       show_nat MAX_TOOL_CALLS_PER_TURN @ u ''.''))
     else
       let rs = map (block_call pv) bodies in
       if block_errors rs \<noteq> [] then Some (invalid_response (join (u '' '') (block_errors rs)))
       else if block_calls rs = [] then Some (invalid_response (u ''No valid <tool_call> blocks found.''))
       else Some (tools_response (block_calls rs) (strip visible) True))"

section \<open>The parser\<close>

definition legacy_final :: "(pystr \<times> json) list \<Rightarrow> pystr option" where
  "legacy_final d = (if map fst d = [u ''final''] then (case map_of d (u ''final'') of Some (JStr t) \<Rightarrow> Some t | _ \<Rightarrow> None) else None)"

definition parse_json :: "parse_env \<Rightarrow> pystr \<Rightarrow> json \<Rightarrow> parsed_response" where
  "parse_json pv s data = (case data of
     JObj d \<Rightarrow>
       let keys = fst ` set d in
       if u ''tool_calls'' \<in> keys then
         (if u ''action'' \<in> keys \<or> u ''input'' \<in> keys
          then invalid_response (u ''Tool call JSON must use either {'action','input'} or 'tool_calls', not both.'')
          else validate_call_list pv (the (map_of d (u ''tool_calls''))))
       else if u ''action'' \<in> keys \<or> u ''input'' \<in> keys then validate_single pv data
       else (case legacy_final d of Some t \<Rightarrow> final_response t | None \<Rightarrow> final_response s)
   | _ \<Rightarrow> final_response s)"

text \<open>\<open>text\<close> is \<open>None\<close> when it is not a string.\<close>

definition parse_response :: "parse_env \<Rightarrow> pystr option \<Rightarrow> parsed_response" where
  "parse_response pv text0 = (case text0 of
     None \<Rightarrow> invalid_response (u ''Model response must be a string.'')
   | Some s \<Rightarrow>
       let clean = strip s in
       if clean = [] then invalid_response (u ''Model response is empty.'')
       else (case extract_textual_calls pv clean of
           Some r \<Rightarrow> r
         | None \<Rightarrow>
             if contains (lower clean) open_tag \<or> contains (lower clean) close_tag
             then invalid_response (u ''Incomplete or malformed <tool_call> block. '' @
               u ''Textual tool calls must include both opening and closing tags, '' @
               u ''and the body must be valid JSON.'')
             else (case json_loads clean of
                 Some data \<Rightarrow> parse_json pv s data
               | None \<Rightarrow>
                   if looks_like_broken_call clean
                   then invalid_response (u ''The response looks like an attempted tool call, but is not valid raw JSON. '' @
                     u ''JSON error: '' @ pv_message pv clean @ u '' at '' @ pv_position pv clean @ u ''. '' @
                     u ''Tool calls must be a single raw JSON object with no Markdown or prose.'')
                   else if contains_embedded_call clean
                   then invalid_response (u ''The response contains an embedded tool call inside normal text. '' @
                     u ''If you want to call a tool, the entire response must be exactly one '' @
                     u ''raw JSON object like {\"action\": \"tool_name\", \"input\": {...}}. '' @
                     u ''Do not introduce, explain, quote, or wrap the tool call.'')
                   else final_response s)))"

section \<open>Shape of a parsed reply\<close>

definition well_formed :: "parsed_response \<Rightarrow> bool" where
  "well_formed r \<longleftrightarrow>
     (case pr_kind r of
        ToolResponse \<Rightarrow> pr_tool_calls r \<noteq> [] \<and> length (pr_tool_calls r) \<le> MAX_TOOL_CALLS_PER_TURN \<and>
          (\<forall>c \<in> set (pr_tool_calls r). call_action c \<noteq> []) \<and> pr_final r = None \<and> pr_error r = None
      | FinalResponse \<Rightarrow> pr_tool_calls r = [] \<and> pr_final r \<noteq> None \<and> pr_error r = None
      | InvalidResponse \<Rightarrow> pr_tool_calls r = [] \<and> pr_final r = None \<and> pr_error r \<noteq> None)"

lemma well_formed_simps [simp]:
  "well_formed (final_response t)" "well_formed (invalid_response m)"
  "well_formed (tools_response calls v b) \<longleftrightarrow> calls \<noteq> [] \<and> length calls \<le> MAX_TOOL_CALLS_PER_TURN \<and> (\<forall>c \<in> set calls. call_action c \<noteq> [])"
  "well_formed (tool_response a i) \<longleftrightarrow> a \<noteq> []"
  by (auto simp: well_formed_def final_response_def invalid_response_def tools_response_def tool_response_def MAX_TOOL_CALLS_PER_TURN_def)

lemma response_kinds [simp]:
  "pr_kind (final_response t) = FinalResponse" "pr_kind (invalid_response m) = InvalidResponse"
  "pr_kind (tools_response calls v b) = ToolResponse" "pr_kind (tool_response a i) = ToolResponse"
  by (simp_all add: final_response_def invalid_response_def tools_response_def tool_response_def)

lemma single_call_action: "single_call pv j = Inr c \<Longrightarrow> call_action c \<noteq> []"
  by (auto simp: single_call_def Let_def split: json.splits option.splits if_splits)

lemma list_item_action: "list_item pv j = Inr c \<Longrightarrow> call_action c \<noteq> []"
  by (auto simp: list_item_def dest: single_call_action split: if_splits)

lemma block_call_action: "block_call pv b = Inr c \<Longrightarrow> call_action c \<noteq> []"
  by (auto simp: block_call_def Let_def split: json.splits option.splits if_splits)

lemma validate_single_formed: "well_formed (validate_single pv j)"
  by (auto simp: validate_single_def dest: single_call_action split: sum.splits)

lemma list_items_formed:
  assumes "map_res (list_item pv) js = Inr calls"
  shows "length calls = length js \<and> (\<forall>c \<in> set calls. call_action c \<noteq> [])"
  using assms unfolding map_res_Inr_iff list_all2_conv_all_nth by (metis in_set_conv_nth list_item_action)

lemma validate_call_list_formed: "well_formed (validate_call_list pv j)"
proof (cases j)
  case (JArr js)
  show ?thesis
  proof (cases "map_res (list_item pv) js")
    case (Inr calls)
    with list_items_formed [OF Inr] JArr show ?thesis
      by (cases "js = []") (auto simp: validate_call_list_def simp flip: length_greater_0_conv)
  qed (auto simp: validate_call_list_def JArr)
qed (simp_all add: validate_call_list_def)

lemma block_calls_length: "length (block_calls rs) \<le> length rs"
  by (induction rs) (auto simp: block_calls_def split: sum.splits)

lemma extract_formed: "extract_textual_calls pv s = Some r \<Longrightarrow> well_formed r \<and> pr_kind r \<noteq> FinalResponse"
proof -
  have "\<forall>c \<in> set (block_calls (map (block_call pv) bs)). call_action c \<noteq> []" for bs
    by (auto simp: block_calls_def split: sum.splits dest: block_call_action [OF sym])
  moreover assume "extract_textual_calls pv s = Some r"
  ultimately show ?thesis
    using block_calls_length [of "map (block_call pv) (fst (tool_blocks s))"]
    by (auto simp: extract_textual_calls_def Let_def split: prod.splits if_splits)
qed

lemma parse_json_formed: "well_formed (parse_json pv s j)"
  by (auto simp: parse_json_def Let_def validate_single_formed validate_call_list_formed split: json.split option.split)

section \<open>Reading back a written call\<close>

definition call_json :: "tool_call \<Rightarrow> json" where
  "call_json c = JObj [(u ''action'', JStr (call_action c)), (u ''input'', JObj (call_input c))]"

definition calls_json :: "tool_call list \<Rightarrow> json" where
  "calls_json calls = JObj [(u ''tool_calls'', JArr (map call_json calls))]"

lemma cut_ci_None: "\<not> contains (lower s) p \<Longrightarrow> cut_ci s p = None"
  by (induction s) (auto simp: lower_def)

lemma tool_blocks_None: "\<not> contains (lower s) open_tag \<Longrightarrow> tool_blocks s = ([], s)"
  by (subst tool_blocks.simps) (simp add: cut_ci_None)

lemma extract_None: "\<not> contains (lower s) open_tag \<Longrightarrow> extract_textual_calls pv s = None"
  by (simp add: extract_textual_calls_def tool_blocks_None)

lemma strip_dumps_object: "strip (dumps a (JObj ms)) = dumps a (JObj ms)"
  by (rule strip_eq_self) (simp add: is_space_def)

lemma parse_object:
  assumes "printable a (JObj ms)" "dicts_ok (JObj ms)"
    and "\<not> contains (lower (dumps a (JObj ms))) open_tag" "\<not> contains (lower (dumps a (JObj ms))) close_tag"
  shows "parse_response pv (Some (dumps a (JObj ms))) = parse_json pv (dumps a (JObj ms)) (JObj ms)"
  unfolding parse_response_def
  by (simp only: option.case Let_def strip_dumps_object extract_None [OF assms(3)] assms(3,4) json_roundtrip [OF assms(1,2)]) simp

lemma keys_beyond_call [simp]: "keys_beyond [(u ''action'', x), (u ''input'', y)] [u ''action'', u ''input''] = []"
  by (simp add: keys_beyond_def)

lemma single_call_json: "strip (call_action c) = call_action c \<Longrightarrow> call_action c \<noteq> [] \<Longrightarrow> single_call pv (call_json c) = Inr c"
  by (simp add: single_call_def call_json_def)

lemma list_items_json:
  "\<forall>c \<in> set calls. strip (call_action c) = call_action c \<and> call_action c \<noteq> [] \<Longrightarrow> map_res (list_item pv) (map call_json calls) = Inr calls"
  by (induction calls) (auto simp: list_item_def single_call_json, simp_all add: call_json_def)

lemma final_answer_shape:
  assumes "parse_response pv (Some s) = r" and "pr_kind r = FinalResponse"
  shows "\<not> contains (lower (strip s)) open_tag \<and> \<not> contains (lower (strip s)) close_tag \<and>
    (json_loads (strip s) = None \<longrightarrow> \<not> mentions_call (strip s) \<and> pr_final r = Some s) \<and>
    (pr_final r = Some s \<or> (\<exists>t. json_loads (strip s) = Some (JObj [(u ''final'', JStr t)]) \<and> pr_final r = Some t))"
proof -
  have e: "extract_textual_calls pv (strip s) = None"
  proof (cases "extract_textual_calls pv (strip s)")
    case (Some r')
    with extract_formed [OF Some] assms show ?thesis by (auto simp: parse_response_def Let_def split: if_splits)
  qed
  have v: "pr_kind (validate_single pv j) \<noteq> FinalResponse" "pr_kind (validate_call_list pv j) \<noteq> FinalResponse" for j
    by (auto simp: validate_single_def validate_call_list_def split: sum.split json.split)
  have l: "\<exists>v. d = [(u ''final'', JStr t)]" if "legacy_final d = Some t" for d t
    using that by (auto simp: legacy_final_def Cons_eq_map_conv map_eq_Cons_conv split: if_splits json.splits)
  have j: "pr_final (parse_json pv s data) = Some s \<or> (\<exists>t. data = JObj [(u ''final'', JStr t)] \<and> pr_final (parse_json pv s data) = Some t)"
    if k: "pr_kind (parse_json pv s data) = FinalResponse" for data
  proof (cases "\<exists>d. data = JObj d")
    case True
    then obtain d where d: "data = JObj d" by blast
    with k v have "\<not> (u ''tool_calls'' \<in> fst ` set d)" "\<not> (u ''action'' \<in> fst ` set d \<or> u ''input'' \<in> fst ` set d)"
      by (auto simp: parse_json_def Let_def split: if_splits)
    with d l [of d] show ?thesis
      by (cases "legacy_final d") (auto simp: parse_json_def Let_def final_response_def)
  next
    case False
    then show ?thesis by (cases data) (auto simp: parse_json_def final_response_def)
  qed
  show ?thesis
  proof (cases "json_loads (strip s)")
    case None
    with assms e show ?thesis
      by (auto simp: parse_response_def Let_def contains_embedded_call_def final_response_def invalid_response_def split: if_splits)
  next
    case (Some data)
    with assms e have "r = parse_json pv s data" "\<not> contains (lower (strip s)) open_tag" "\<not> contains (lower (strip s)) close_tag"
      by (auto simp: parse_response_def Let_def split: if_splits)
    with j [of data] assms(2) Some show ?thesis by auto
  qed
qed

section \<open>Properties\<close>


text \<open>
  A reply that tries to call a tool is never shown to the user as an answer: if the answer is
  final then it is the whole reply (or the text of the legacy \<open>final\<close> object), the reply contains
  no \<open><tool_call>\<close> markup in any letter case, and, unless it is itself valid JSON, it does not
  mention both keys of a tool call.
\<close>

theorem final_answer_is_not_a_call:
  assumes "parse_response pv (Some s) = r" and "pr_kind r = FinalResponse"
  shows "\<not> contains (lower (strip s)) open_tag \<and> \<not> contains (lower (strip s)) close_tag \<and>
    (json_loads (strip s) = None \<longrightarrow> \<not> mentions_call (strip s) \<and> pr_final r = Some s) \<and>
    (pr_final r = Some s \<or> (\<exists>t. json_loads (strip s) = Some (JObj [(u ''final'', JStr t)]) \<and> pr_final r = Some t))"
  using assms by (rule final_answer_shape)

text \<open>
  A turn of up to ten tool calls, written as the documented JSON object, is read back as exactly
  those calls in that order, whatever their inputs are, provided the names are stripped and the text
  happens not to contain the \<open><tool_call>\<close> markup, which takes precedence.
\<close>

theorem tool_calls_roundtrip:
  assumes "calls \<noteq> []" "length calls \<le> MAX_TOOL_CALLS_PER_TURN"
    and "\<forall>c \<in> set calls. strip (call_action c) = call_action c \<and> call_action c \<noteq> []"
    and "printable a (calls_json calls)" "dicts_ok (calls_json calls)"
    and "\<not> contains (lower (dumps a (calls_json calls))) open_tag" "\<not> contains (lower (dumps a (calls_json calls))) close_tag"
  shows "parse_response pv (Some (dumps a (calls_json calls))) = tools_response calls [] False"
  using parse_object [OF assms(4-7) [unfolded calls_json_def]] assms(1-2) list_items_json [OF assms(3)]
  by (simp add: calls_json_def parse_json_def validate_call_list_def)

lemma tool_calls_roundtrip_witness:
  "parse_response \<lparr>pv_printable = (\<lambda>_. True), pv_message = (\<lambda>_. []), pv_position = (\<lambda>_. [])\<rparr>
     (Some (u ''{\"tool_calls\":[{\"action\":\"pwd\",\"input\":{}},{\"action\":\"ls\",\"input\":{\"path\":\"a\"}}]}'')) =
   tools_response [\<lparr>call_action = u ''pwd'', call_input = []\<rparr>, \<lparr>call_action = u ''ls'', call_input = [(u ''path'', JStr (u ''a''))]\<rparr>] [] False"
proof -
  let ?calls = "[\<lparr>call_action = u ''pwd'', call_input = []\<rparr>, \<lparr>call_action = u ''ls'', call_input = [(u ''path'', JStr (u ''a''))]\<rparr>]"
  have "dumps True (calls_json ?calls) = u ''{\"tool_calls\":[{\"action\":\"pwd\",\"input\":{}},{\"action\":\"ls\",\"input\":{\"path\":\"a\"}}]}''"
    by code_simp
  then show ?thesis
    by (subst tool_calls_roundtrip [where a = True and calls = ?calls, symmetric]) (simp_all, code_simp+)
qed

lemma final_answer_is_not_a_call_witness:
  "\<not> contains (lower (strip (u ''All done.''))) open_tag"
proof -
  let ?pv = "\<lparr>pv_printable = (\<lambda>_. True), pv_message = (\<lambda>_. []), pv_position = (\<lambda>_. [])\<rparr>"
  have "pr_kind (parse_response ?pv (Some (u ''All done.''))) = FinalResponse" by code_simp
  from final_answer_is_not_a_call [OF refl this] show ?thesis by simp
qed

end
