(* ===== verification/AgentLoop.thy ===== *)
theory AgentLoop
  imports ToolRegistry ToolProtocol PrivTurn OpsStorage
begin

text \<open>
  \<open>core/agent.py\<close>: the loop that sends the transcript to the model, runs the tools it asks for and
  returns its final answer.  The tools and the model client act on the runtime state
  (\<open>runtime/state.py\<close>), whose part that the agent itself reads is written out; \<open>'x\<close> is the rest of
  the world.  The callbacks \<open>on_tool\<close>, \<open>on_raw\<close> and \<open>on_error\<close> append to a log; the debug
  callback is left out.
\<close>

section \<open>State\<close>

datatype include_diff = DiffOn | DiffOff | DiffModel

record model_config =
  mc_provider_key :: pystr
  mc_provider_label :: pystr
  mc_model :: pystr
  mc_api_type :: pystr

text \<open>\<open>as_context\<close> is the context variable of \<open>privileged_turn.py\<close>, which tools read.\<close>

record 'x app_state =
  as_cwd :: pystr
  as_config :: model_config
  as_include_diff :: include_diff
  as_calls :: "call_row list option"     \<comment> \<open>\<open>tool_call_store\<close>\<close>
  as_session :: "pystr option"
  as_turn :: "priv_turn option"
  as_context :: "pystr option"
  as_rest :: 'x

text \<open>A tool raises a \<open>TypeError\<close> or another \<open>Exception\<close>; its value is already \<open>str(raw_result)\<close>.\<close>

datatype tool_failure = ArgumentError pystr | OtherFailure pystr

text \<open>The function of a tool: whether the state is passed, and the keyword arguments.\<close>

type_synonym 'w tool_function = "bool \<Rightarrow> (pystr \<times> json) list \<Rightarrow> ('w, tool_failure, pystr) act"

record native_tool_call =
  nt_id :: pystr
  nt_name :: pystr
  nt_arguments :: json

datatype model_reply = PlainReply pystr | ObjectReply "pystr option" "native_tool_call list option"

text \<open>An exception of the client: \<open>str(e)\<close>, and its \<open>__notes__\<close>, each \<open>None\<close> when it is not a string.\<close>

record llm_failure =
  lf_text :: pystr
  lf_notes :: "pystr option list option"

record 'w chat_client =
  cc_native :: bool                     \<comment> \<open>\<open>supports_native_tools\<close>\<close>
  cc_outputs :: bool                    \<comment> \<open>\<open>supports_native_tool_outputs\<close>\<close>
  cc_api :: pystr
  cc_chat :: "(pystr, json) dict list \<Rightarrow> json list option \<Rightarrow> pystr option \<Rightarrow> ('w, llm_failure, model_reply) act"
  cc_submit :: "(pystr \<times> pystr) list \<Rightarrow> ('w, llm_failure, model_reply) act"
  cc_reset :: "('w \<Rightarrow> 'w) option"
  cc_configure :: "('w \<Rightarrow> 'w) option"

datatype batch_status = BSuccess | BFailed | BSkipped

record batch_record =
  br_index :: nat
  br_total :: nat
  br_action :: pystr
  br_input :: "(pystr \<times> json) list"
  br_status :: batch_status
  br_observation :: "pystr option"
  br_error :: "pystr option"

datatype agent_event = ToolEvent pystr | RawEvent pystr | ErrorEvent pystr

type_synonym message = "(pystr, json) dict"

record 'w agent =
  ag_registry :: "'w tool_function registry"
  ag_llm :: "'w chat_client"
  ag_profile :: pystr
  ag_job :: "pystr option"
  ag_messages :: "message list"
  ag_native :: bool
  ag_api :: pystr
  ag_tools :: "(pystr, json list) dict"
  ag_pending :: "(batch_record \<times> native_tool_call) list option"
  ag_world :: 'w
  ag_log :: "agent_event list"

datatype agent_exn = AgentType pystr | AgentValue pystr | AgentJson pystr | AgentRuntime pt_error

type_synonym ('x, 'a) agent_act = "('x app_state agent, agent_exn, 'a) act"

text \<open>
  What the code reads from outside: \<open>repr\<close> of a float written as its JSON numeral, the clocks and
  \<open>uuid4\<close> as read in a state, and the parameters of the parser and of the audit store.
\<close>

record 'x agent_env =
  ae_parse :: parse_env
  ae_float :: "pystr \<Rightarrow> pystr"
  ae_millis :: "int \<Rightarrow> int"
  ae_utc :: "nat \<Rightarrow> 'x app_state \<Rightarrow> time"
  ae_clock :: "nat \<Rightarrow> 'x app_state \<Rightarrow> int"
  ae_uuid :: "'x app_state \<Rightarrow> pystr"

definition MAX_STEPS :: nat where "MAX_STEPS = 10"
definition MAX_BATCH_TOOL_CALLS :: nat where "MAX_BATCH_TOOL_CALLS = 10"
definition MAX_RETRIES :: nat where "MAX_RETRIES = 2"
definition MAX_EMPTY_RETRIES :: nat where "MAX_EMPTY_RETRIES = 2"
definition FAIL_FAST_BATCH :: bool where "FAIL_FAST_BATCH = True"

section \<open>Texts\<close>

text \<open>\<open>str\<close> of a value decoded from JSON.\<close>

fun value_repr :: "'x agent_env \<Rightarrow> json \<Rightarrow> pystr" where
  "value_repr e JNull = u ''None''"
| "value_repr e (JBool b) = (if b then u ''True'' else u ''False'')"
| "value_repr e (JInt i) = show_int i"
| "value_repr e (JFloat f) = ae_float e f"
| "value_repr e (JStr s) = py_repr (pv_printable (ae_parse e)) s"
| "value_repr e (JArr js) = 91 # join (u '', '') (map (value_repr e) js) @ [93]"
| "value_repr e (JObj ms) = 123 # join (u '', '') (map (\<lambda>(k, j). py_repr (pv_printable (ae_parse e)) k @ u '': '' @ value_repr e j) ms) @ [125]"

text \<open>\<open>json.dumps(value, ensure_ascii=False)\<close>.\<close>

fun dumps_text :: "json \<Rightarrow> pystr" where
  "dumps_text (JArr js) = 91 # join (u '', '') (map dumps_text js) @ [93]"
| "dumps_text (JObj ms) = 123 # join (u '', '') (map (\<lambda>(k, j). print_str False k @ u '': '' @ dumps_text j) ms) @ [125]"
| "dumps_text j = dumps False j"

fun type_name :: "json \<Rightarrow> pystr" where
  "type_name JNull = u ''NoneType''"
| "type_name (JBool b) = u ''bool''"
| "type_name (JInt i) = u ''int''"
| "type_name (JFloat f) = u ''float''"
| "type_name (JStr s) = u ''str''"
| "type_name (JArr js) = u ''list''"
| "type_name (JObj ms) = u ''dict''"

text \<open>\<open>a or b\<close> on an optional string, and \<open>str\<close> of one.\<close>

definition or_else :: "pystr option \<Rightarrow> pystr option \<Rightarrow> pystr option" where
  "or_else a b = (case a of None \<Rightarrow> b | Some s \<Rightarrow> if s = [] then b else a)"

definition or_text :: "pystr option \<Rightarrow> pystr \<Rightarrow> pystr" where
  "or_text a t = (case or_else a (Some t) of None \<Rightarrow> t | Some s \<Rightarrow> s)"

definition opt_text :: "pystr option \<Rightarrow> pystr" where
  "opt_text a = (case a of None \<Rightarrow> u ''None'' | Some s \<Rightarrow> s)"

definition unlines :: "pystr list \<Rightarrow> pystr" where
  "unlines ls = join [10] ls"

definition chat_message :: "string \<Rightarrow> pystr \<Rightarrow> message" where
  "chat_message role content = [(u ''role'', JStr (u role)), (u ''content'', JStr content)]"

definition REQUEST_RETRY_NOTE_PREFIX :: pystr where
  "REQUEST_RETRY_NOTE_PREFIX = u ''Request retry diagnostic: ''"

definition is_retry_note :: "pystr \<Rightarrow> bool" where
  "is_retry_note n \<longleftrightarrow> starts_with n REQUEST_RETRY_NOTE_PREFIX \<and> length n \<le> 512 \<and> 10 \<notin> set n \<and> 13 \<notin> set n"

definition request_retry_diagnostic :: "pystr option list option \<Rightarrow> pystr option" where
  "request_retry_diagnostic notes = (case notes of
     None \<Rightarrow> None
   | Some ns \<Rightarrow> (case List.find (\<lambda>n. case n of None \<Rightarrow> False | Some t \<Rightarrow> is_retry_note t) (take 8 (rev ns)) of
         Some (Some t) \<Rightarrow> Some t | _ \<Rightarrow> None))"

definition emit :: "agent_event \<Rightarrow> ('x, unit) agent_act" where
  "emit ev = writes (\<lambda>a. a\<lparr>ag_log := ag_log a @ [ev]\<rparr>)"

definition add_message :: "message \<Rightarrow> ('x, unit) agent_act" where
  "add_message m = writes (\<lambda>a. a\<lparr>ag_messages := ag_messages a @ [m]\<rparr>)"

definition on_state :: "('x app_state \<Rightarrow> 'x app_state) \<Rightarrow> 'x app_state agent \<Rightarrow> 'x app_state agent" where
  "on_state f a = a\<lparr>ag_world := f (ag_world a)\<rparr>"

section \<open>Construction and the model client\<close>

definition configure_llm_runtime :: "('x, unit) agent_act" where
  "configure_llm_runtime = writes (\<lambda>a.
     a\<lparr>ag_world := (case cc_configure (ag_llm a) of None \<Rightarrow> ag_world a | Some f \<Rightarrow> f (ag_world a)),
       ag_native := cc_native (ag_llm a), ag_api := cc_api (ag_llm a),
       ag_tools := (if cc_native (ag_llm a)
         then [(u ''chat_completions'', build_tools_list (ag_registry a) (u ''chat_completions'')),
               (u ''responses'', build_tools_list (ag_registry a) (u ''responses''))]
         else [])\<rparr>)"

definition agent_init ::
  "pystr \<Rightarrow> 'x app_state \<Rightarrow> 'x app_state chat_client \<Rightarrow> 'x app_state tool_function registry \<Rightarrow> pystr \<Rightarrow> pystr option
     \<Rightarrow> 'x app_state agent" where
  "agent_init prompt state llm reg profile job = fst (configure_llm_runtime
     \<lparr>ag_registry = reg, ag_llm = llm, ag_profile = profile, ag_job = job,
      ag_messages = [chat_message ''system'' prompt], ag_native = cc_native llm, ag_api = cc_api llm, ag_tools = [],
      ag_pending = None, ag_world = state, ag_log = []\<rparr>)"

definition has_role :: "string \<Rightarrow> message \<Rightarrow> bool" where
  "has_role role m \<longleftrightarrow> map_of m (u ''role'') = Some (JStr (u role))"

text \<open>\<open>self.messages[0]["content"] = prompt\<close> when it is the system message, else an insertion.\<close>

definition with_system_prompt :: "pystr \<Rightarrow> message list \<Rightarrow> message list" where
  "with_system_prompt prompt ms = (case ms of
     m # rest \<Rightarrow> if has_role ''system'' m then dput (u ''content'') (JStr prompt) m # rest
                 else chat_message ''system'' prompt # ms
   | [] \<Rightarrow> [chat_message ''system'' prompt])"

definition set_llm :: "'x app_state chat_client \<Rightarrow> pystr option \<Rightarrow> ('x, unit) agent_act" where
  "set_llm llm prompt =
     abind (writes (\<lambda>a. a\<lparr>ag_llm := llm\<rparr>)) (\<lambda>_.
     abind configure_llm_runtime (\<lambda>_.
     writes (\<lambda>a. case prompt of None \<Rightarrow> a | Some p \<Rightarrow> a\<lparr>ag_messages := with_system_prompt p (ag_messages a)\<rparr>)))"

section \<open>The runtime context\<close>

fun diff_setting :: "include_diff \<Rightarrow> pystr" where
  "diff_setting DiffOn = u ''enabled (proposal tools always return diffs)''"
| "diff_setting DiffModel = u ''model choice (request per call with include_diff; defaults to false)''"
| "diff_setting DiffOff = u ''disabled (proposal tools do not return diffs)''"

definition runtime_context :: "'x agent_env \<Rightarrow> 'x app_state \<Rightarrow> pystr" where
  "runtime_context e st = unlines
     [u ''Current local agent runtime state:'',
      u ''- current working directory: '' @ as_cwd st,
      u ''- selected provider: '' @ mc_provider_label (as_config st),
      u ''- selected model: '' @ mc_model (as_config st),
      u ''- proposal diff results: '' @ diff_setting (as_include_diff st),
      u ''- elevated requests: '' @ (case as_turn st of None \<Rightarrow> u ''disabled'' | Some t \<Rightarrow> pt_status (ae_clock e 0 st) t),
      u ''- Enabling elevation permits requests, not execution: each needs pending acceptance and Windows UAC.'',
      u ''- run_shell_command is never elevated. General approved PowerShell execution is capped at 60 seconds.'',
      u ''- Fixed evidence/inspection helpers retain installed policy and one-attempt constraints.'',
      u ''- Do not re-propose rejected commands, reset claims, repair permissions, or retry unknown outcomes without separate user authorization.'',
      u ''- Process completion is not effects verification; timeout is not rollback or proof a VM/service stopped.'',
      [],
      u ''Important:'',
      u ''- You are controlling a local agent runtime through tools.'',
      u ''- If the user asks where you are in the filesystem, use the current working directory.'',
      u ''- If the user asks for the current path, directory, or location, call pwd().'',
      u ''- Do not answer such questions as if you were only a remote AI model.'',
      []]"

definition content_text :: "message \<Rightarrow> pystr" where
  "content_text m = (case map_of m (u ''content'') of Some (JStr t) \<Rightarrow> t | _ \<Rightarrow> [])"

definition messages_with_context :: "'x agent_env \<Rightarrow> 'x app_state \<Rightarrow> message list \<Rightarrow> message list" where
  "messages_with_context e st ms = (let ctx = runtime_context e st in case ms of
     [] \<Rightarrow> [chat_message ''system'' ctx]
   | m # rest \<Rightarrow>
       if \<not> has_role ''system'' m then chat_message ''system'' ctx # ms
       else chat_message ''system'' (if content_text m = [] then ctx else content_text m @ [10, 10] @ ctx) # rest)"

section \<open>The shape of the tool schemas\<close>

definition chat_shape :: "json \<Rightarrow> bool" where
  "chat_shape t = (case t of
     JObj d \<Rightarrow> map_of d (u ''type'') = Some (JStr (u ''function'')) \<and> (case map_of d (u ''function'') of Some (JObj f) \<Rightarrow> True | _ \<Rightarrow> False)
   | _ \<Rightarrow> False)"

definition responses_shape :: "json \<Rightarrow> bool" where
  "responses_shape t = (case t of
     JObj d \<Rightarrow> map_of d (u ''type'') = Some (JStr (u ''function'')) \<and>
       (case map_of d (u ''name'') of Some (JStr n) \<Rightarrow> True | _ \<Rightarrow> False) \<and> u ''function'' \<notin> fst ` set d
   | _ \<Rightarrow> False)"

definition first_keys :: "json list \<Rightarrow> pystr list" where
  "first_keys tools = (case tools of JObj d # _ \<Rightarrow> sort (map fst d) | _ \<Rightarrow> [])"

definition assert_tools_shape :: "'x agent_env \<Rightarrow> pystr \<Rightarrow> json list \<Rightarrow> agent_exn + unit" where
  "assert_tools_shape e api tools =
     (let keys = repr_list (pv_printable (ae_parse e)) (first_keys tools) in
      if tools = [] then Inr ()
      else if api = u ''chat_completions'' then
        (if filter (\<lambda>t. \<not> chat_shape t) tools \<noteq> []
         then Inl (AgentValue (u ''Tool schema mismatch for chat_completions: expected each tool to contain '' @
           u ''type='' @ [39] @ u ''function'' @ [39] @ u '' and nested '' @ [39] @ u ''function'' @ [39] @ u '' object. '' @
           u ''first_tool_keys='' @ keys))
         else Inr ())
      else if api = u ''responses'' then
        (if filter (\<lambda>t. \<not> responses_shape t) tools \<noteq> []
         then Inl (AgentValue (u ''Tool schema mismatch for responses: expected each tool to contain '' @
           u ''type='' @ [39] @ u ''function'' @ [39] @ u '' and top-level '' @ [39] @ u ''name'' @ [39] @ u '' (without nested '' @ [39] @
           u ''function'' @ [39] @ u ''). '' @ u ''first_tool_keys='' @ keys))
         else Inr ())
      else Inl (AgentValue (u ''Unsupported api_type for tool assertions: '' @ api)))"

section \<open>Running tools\<close>

definition error_event :: "pystr \<Rightarrow> ('x, unit) agent_act" where
  "error_event t = emit (ErrorEvent t)"

definition set_calls :: "call_row list \<Rightarrow> 'x app_state agent \<Rightarrow> 'x app_state agent" where
  "set_calls rows = on_state (\<lambda>st. st\<lparr>as_calls := Some rows\<rparr>)"

definition audit_record :: "'x agent_env \<Rightarrow> 'x app_state agent \<Rightarrow> pystr \<Rightarrow> (pystr \<times> json) list \<Rightarrow> tool_call_record" where
  "audit_record e a action input = (let st = ag_world a in
     \<lparr>tc_tool_name = action, tc_arguments = input, tc_agent_profile = ag_profile a, tc_call_id = ae_uuid e st,
      tc_job_id = ag_job a, tc_session_id = as_session st, tc_status = TC_RUNNING, tc_started_at = ae_utc e 0 st,
      tc_completed_at = None, tc_duration_ms = None, tc_result_preview = None, tc_error = None,
      tc_expires_at = ae_utc e 1 st + 7 * 24 * 60 * 60 * 1000000\<rparr>)"

text \<open>Best effort: an error of the store is swallowed.\<close>

definition start_audit :: "'x agent_env \<Rightarrow> pystr \<Rightarrow> (pystr \<times> json) list \<Rightarrow> ('x, pystr option) agent_act" where
  "start_audit e action input = (\<lambda>a. case as_calls (ag_world a) of
     None \<Rightarrow> (a, Inr None)
   | Some rows \<Rightarrow> (case calls_start rows (audit_record e a action input) of
         Inl _ \<Rightarrow> (a, Inr None)
       | Inr (rows', i) \<Rightarrow> (set_calls rows' a, Inr (Some i))))"

definition complete_audit ::
  "'x agent_env \<Rightarrow> pystr option \<Rightarrow> tool_call_status \<Rightarrow> pystr option \<Rightarrow> pystr option \<Rightarrow> ('x, unit) agent_act" where
  "complete_audit e i st result err = writes (\<lambda>a. case i of
     None \<Rightarrow> a
   | Some c \<Rightarrow> (case as_calls (ag_world a) of
         None \<Rightarrow> a
       | Some rows \<Rightarrow> (case calls_complete (ae_millis e) rows c st result err (ae_utc e 0 (ag_world a)) of
             Inl _ \<Rightarrow> a | Inr rows' \<Rightarrow> set_calls rows' a)))"

definition failed_call ::
  "'x agent_env \<Rightarrow> pystr option \<Rightarrow> pystr \<Rightarrow> ('x, batch_status \<times> pystr option \<times> pystr option) agent_act" where
  "failed_call e audit t =
     abind (error_event t) (\<lambda>_.
     abind (complete_audit e audit TC_FAILED (Some t) (Some t)) (\<lambda>_.
     ret (BFailed, Some t, Some t)))"

text \<open>The tool itself: it acts on the state and its exceptions are values.\<close>

definition call_tool ::
  "'x app_state tool_function tool_spec \<Rightarrow> (pystr \<times> json) list \<Rightarrow> ('x, tool_failure + pystr) agent_act" where
  "call_tool spec input = (\<lambda>a. case sp_function spec (sp_requires_state spec) input (ag_world a) of
     (w, r) \<Rightarrow> (a\<lparr>ag_world := w\<rparr>, Inr r))"

definition execute_one_tool_call ::
  "'x agent_env \<Rightarrow> pystr \<Rightarrow> (pystr \<times> json) list \<Rightarrow> ('x, batch_status \<times> pystr option \<times> pystr option) agent_act" where
  "execute_one_tool_call e action input =
     abind (start_audit e action input) (\<lambda>audit.
     abind (reads ag_registry) (\<lambda>reg.
     case reg_get reg action of
       None \<Rightarrow> failed_call e audit (u ''Error: Tool '' @ [39] @ action @ [39] @ u '' does not exist. Available tools: '' @
         join (u '', '') (reg_names reg))
     | Some spec \<Rightarrow>
         abind (call_tool spec input) (\<lambda>r. case r of
           Inr obs \<Rightarrow> abind (complete_audit e audit TC_SUCCESS (Some obs) None) (\<lambda>_. ret (BSuccess, Some obs, None))
         | Inl (ArgumentError t) \<Rightarrow>
             failed_call e audit (u ''Error: Invalid arguments for tool '' @ [39] @ action @ [39] @ u '': '' @ t)
         | Inl (OtherFailure t) \<Rightarrow>
             failed_call e audit (u ''Error: Tool execution failed for '' @ [39] @ action @ [39] @ u '': '' @ t))))"

definition batch_skip_text :: pystr where
  "batch_skip_text = u ''Skipped due to earlier failure in fail-fast batch.''"

fun execute_tool_batch :: "'x agent_env \<Rightarrow> nat \<Rightarrow> nat \<Rightarrow> bool \<Rightarrow> tool_call list \<Rightarrow> ('x, batch_record list) agent_act" where
  "execute_tool_batch e m i aborted [] = ret []"
| "execute_tool_batch e m i aborted (c # cs) =
     (if aborted \<and> FAIL_FAST_BATCH then
        abind (execute_tool_batch e m (i + 1) aborted cs) (\<lambda>rs.
        ret (\<lparr>br_index = i, br_total = m, br_action = call_action c, br_input = call_input c, br_status = BSkipped,
              br_observation = Some batch_skip_text, br_error = None\<rparr> # rs))
      else
        abind (execute_one_tool_call e (call_action c) (call_input c)) (\<lambda>(st, obs, err).
        abind (execute_tool_batch e m (i + 1) (aborted \<or> st = BFailed \<and> FAIL_FAST_BATCH) cs) (\<lambda>rs.
        ret (\<lparr>br_index = i, br_total = m, br_action = call_action c, br_input = call_input c, br_status = st,
              br_observation = obs, br_error = err\<rparr> # rs))))"

definition record_lines :: "'x agent_env \<Rightarrow> batch_record \<Rightarrow> pystr list" where
  "record_lines e r =
     (let header = 91 # show_nat (br_index r) @ 47 # show_nat (br_total r) @ u ''] '' @ br_action r @ 40 # value_repr e (JObj (br_input r)) @ [41];
          detail = (\<lambda>label x. case or_else x None of None \<Rightarrow> [] | Some t \<Rightarrow> [u label @ t]) in
      case br_status r of
        BSuccess \<Rightarrow> (u ''- '' @ header @ u '' -> success'') # detail ''  observation: '' (br_observation r)
      | BFailed \<Rightarrow> (u ''- '' @ header @ u '' -> FAILED'') #
          (if or_else (br_error r) None \<noteq> None then detail ''  error: '' (br_error r) else detail ''  observation: '' (br_observation r))
      | BSkipped \<Rightarrow> (u ''- '' @ header @ u '' -> SKIPPED'') # detail ''  reason: '' (br_observation r))"

definition count_status :: "batch_status \<Rightarrow> batch_record list \<Rightarrow> pystr" where
  "count_status st rs = show_nat (length (filter (\<lambda>r. br_status r = st) rs))"

definition format_batch_tool_report :: "'x agent_env \<Rightarrow> batch_record list \<Rightarrow> pystr" where
  "format_batch_tool_report e rs = unlines
     ((u ''Tool batch execution report (fail-fast='' @ (if FAIL_FAST_BATCH then u ''true'' else u ''false'') @ u ''):'') #
      concat (map (record_lines e) rs) @
      [u ''Summary: success='' @ count_status BSuccess rs @ u '' failed='' @ count_status BFailed rs @
       u '' skipped='' @ count_status BSkipped rs @ u '' total='' @ show_nat (length rs)])"

section \<open>The transcript of native tool calls\<close>

text \<open>\<open>json.dumps(tc.arguments or {}, ensure_ascii=False, sort_keys=True)\<close>; other falsy values were refused before.\<close>

definition call_arguments :: "json \<Rightarrow> pystr" where
  "call_arguments j = (if j \<in> {JNull, JStr [], JObj []} then u ''{}'' else dumps_text (sort_keys j))"

definition format_native_tool_call_summary :: "native_tool_call list \<Rightarrow> pystr" where
  "format_native_tool_call_summary tcs = unlines (u ''NATIVE TOOL CALL REQUEST:'' #
     map (\<lambda>tc. u ''- id='' @ nt_id tc @ u '' name='' @ nt_name tc @ u '' arguments='' @ dumps_text (sort_keys (nt_arguments tc))) tcs)"

definition request_message :: "pystr \<Rightarrow> native_tool_call list \<Rightarrow> message" where
  "request_message content tcs =
     [(u ''role'', JStr (u ''assistant'')), (u ''content'', if content = [] then JNull else JStr content),
      (u ''tool_calls'', JArr (map (\<lambda>tc. JObj [(u ''id'', JStr (nt_id tc)), (u ''type'', JStr (u ''function'')),
         (u ''function'', JObj [(u ''name'', JStr (nt_name tc)), (u ''arguments'', JStr (call_arguments (nt_arguments tc)))])]) tcs))]"

text \<open>The text a native API is given for a record.\<close>

definition output_text :: "batch_record \<Rightarrow> pystr" where
  "output_text r = (case br_status r of
     BSuccess \<Rightarrow> or_text (br_observation r) []
   | BFailed \<Rightarrow> or_text (or_else (br_error r) (br_observation r)) (u ''Tool failed.'')
   | BSkipped \<Rightarrow> or_text (br_observation r) batch_skip_text)"

definition result_message :: "batch_record \<times> native_tool_call \<Rightarrow> message" where
  "result_message = (\<lambda>(r, tc).
     [(u ''role'', JStr (u ''tool'')), (u ''tool_call_id'', JStr (nt_id tc)), (u ''name'', JStr (nt_name tc)),
      (u ''content'', JStr (output_text r))])"

definition append_chat_results :: "batch_record list \<Rightarrow> native_tool_call list \<Rightarrow> ('x, unit) agent_act" where
  "append_chat_results rs tcs = writes (\<lambda>a. a\<lparr>ag_messages := ag_messages a @ map result_message (zip rs tcs)\<rparr>)"

definition append_tool_result :: "pystr \<Rightarrow> pystr \<Rightarrow> ('x, unit) agent_act" where
  "append_tool_result action result = add_message (chat_message ''user'' (u ''TOOL RESULT ('' @ action @ u ''): '' @ result))"

definition append_tool_batch_result :: "pystr \<Rightarrow> ('x, unit) agent_act" where
  "append_tool_batch_result result = add_message (chat_message ''user'' (u ''TOOL RESULT (batch): '' @ result))"

definition append_records_for_local_memory :: "'x agent_env \<Rightarrow> batch_record list \<Rightarrow> ('x, unit) agent_act" where
  "append_records_for_local_memory e rs = (case rs of
     [r] \<Rightarrow> append_tool_result (br_action r) (or_text (or_else (br_observation r) (br_error r)) [])
   | _ \<Rightarrow> append_tool_batch_result (format_batch_tool_report e rs))"

section \<open>Asking the model\<close>

definition config_mismatch :: "'x app_state agent \<Rightarrow> pystr" where
  "config_mismatch a = (let c = as_config (ag_world a) in
     u ''Configuration mismatch: state api_type and llm client api_type differ. '' @
     u ''state.api_type='' @ mc_api_type c @ u '', llm.api_type='' @ ag_api a @
     u '', provider='' @ mc_provider_key c @ u '', model='' @ mc_model c)"

text \<open>
  The tools of the request, or the error text the step returns.  The check of their shape may raise.
\<close>

definition select_tools :: "'x agent_env \<Rightarrow> ('x, pystr + json list option) agent_act" where
  "select_tools e = (\<lambda>a.
     if mc_api_type (as_config (ag_world a)) \<noteq> ag_api a then
       (fst (error_event (config_mismatch a) a), Inr (Inl (u ''Error: '' @ config_mismatch a)))
     else if \<not> ag_native a then (a, Inr (Inr None))
     else (case map_of (ag_tools a) (ag_api a) of
         None \<Rightarrow>
           (let t = u ''Unsupported llm.api_type for tool selection: '' @ ag_api a @ u ''. Available='' @
              repr_list (pv_printable (ae_parse e)) (map fst (ag_tools a))
            in (fst (error_event t a), Inr (Inl (u ''Error: '' @ t))))
       | Some tools \<Rightarrow> (case assert_tools_shape e (ag_api a) tools of
             Inl x \<Rightarrow> (a, Inl x) | Inr _ \<Rightarrow> (a, Inr (Inr (Some tools))))))"

text \<open>Tool outputs to submit: none when there is nothing pending or the client takes none.\<close>

definition outputs_to_submit :: "'w agent \<Rightarrow> (batch_record \<times> native_tool_call) list option \<Rightarrow> (pystr \<times> pystr) list option" where
  "outputs_to_submit a pending = (case pending of
     Some (p # ps) \<Rightarrow> if cc_outputs (ag_llm a) then Some (map (\<lambda>(r, tc). (nt_id tc, output_text r)) (p # ps)) else None
   | _ \<Rightarrow> None)"

text \<open>One request: the reply and what is still pending, or the error text the step returns.\<close>

definition ask_model ::
  "'x agent_env \<Rightarrow> json list option \<Rightarrow> (batch_record \<times> native_tool_call) list option
     \<Rightarrow> ('x, pystr + model_reply \<times> (batch_record \<times> native_tool_call) list option) agent_act" where
  "ask_model e tools pending = (\<lambda>a.
     case (case outputs_to_submit a pending of
         Some outs \<Rightarrow> cc_submit (ag_llm a) outs
       | None \<Rightarrow> cc_chat (ag_llm a) (messages_with_context e (ag_world a) (ag_messages a)) tools
           (map_option (\<lambda>_. u ''auto'') tools)) (ag_world a) of
       (w, Inl f) \<Rightarrow>
         (let t = u ''Error: Model request failed: '' @ lf_text f @
            (case request_retry_diagnostic (lf_notes f) of None \<Rightarrow> [] | Some d \<Rightarrow> 10 # d)
          in (fst (error_event t (a\<lparr>ag_world := w\<rparr>)), Inr (Inl t)))
     | (w, Inr reply) \<Rightarrow>
         (if outputs_to_submit a pending = None then (a\<lparr>ag_world := w\<rparr>, Inr (Inr (reply, pending)))
          else (a\<lparr>ag_world := w, ag_pending := None\<rparr>, Inr (Inr (reply, None)))))"

definition normalize_call :: "native_tool_call \<Rightarrow> agent_exn + tool_call" where
  "normalize_call tc =
     rbind (case nt_arguments tc of
         JStr raw \<Rightarrow> (let s = strip raw in if s = [] then Inr (JObj [])
             else (case json_loads s of None \<Rightarrow> Inl (AgentJson s) | Some j \<Rightarrow> Inr j))
       | JObj d \<Rightarrow> Inr (JObj d)
       | JNull \<Rightarrow> Inr (JObj [])
       | j \<Rightarrow> Inl (AgentType (u ''Invalid native tool arguments type for '' @ [39] @ nt_name tc @ [39] @ u '': '' @ type_name j)))
     (\<lambda>args. case args of
         JObj d \<Rightarrow> Inr \<lparr>call_action = nt_name tc, call_input = d\<rparr>
       | j \<Rightarrow> Inl (AgentType (u ''Native tool arguments for '' @ [39] @ nt_name tc @ [39] @ u '' must be a JSON object, got '' @ type_name j)))"

text \<open>The text of the reply, its native tool calls and what it means.\<close>

definition read_reply :: "'x agent_env \<Rightarrow> model_reply \<Rightarrow> agent_exn + pystr \<times> native_tool_call list \<times> parsed_response" where
  "read_reply e reply = (case reply of
     PlainReply t \<Rightarrow> Inr (t, [], parse_response (ae_parse e) (Some t))
   | ObjectReply content calls \<Rightarrow>
       let t = or_text content []; tcs = (case calls of None \<Rightarrow> [] | Some cs \<Rightarrow> cs) in
       if tcs = [] then Inr (t, [], parse_response (ae_parse e) (Some t))
       else rbind (map_res normalize_call tcs) (\<lambda>cs. Inr (t, tcs, tools_response cs [] False)))"

definition effectively_empty :: "parsed_response \<Rightarrow> bool" where
  "effectively_empty p =
     (if pr_kind p = ToolResponse \<and> pr_tool_calls p \<noteq> [] then False
      else if pr_kind p = FinalResponse \<and> or_else (pr_final p) None \<noteq> None then False
      else True)"

section \<open>One round of the loop\<close>

text \<open>The variables of the loop: both retry counters and what is pending.\<close>

record loop_vars =
  lv_retry :: nat
  lv_empty :: nat
  lv_pending :: "(batch_record \<times> native_tool_call) list option"

definition final_step_notice :: "nat \<Rightarrow> pystr" where
  "final_step_notice step = u ''IMPORTANT: You are on step '' @ show_nat step @ u '' out of '' @ show_nat MAX_STEPS @ u ''. '' @
     u ''You must now produce your final answer. '' @
     u ''Do not call any more tools. Provide a complete response.''"

fun kind_value :: "response_kind \<Rightarrow> pystr" where
  "kind_value ToolResponse = u ''tool''"
| "kind_value FinalResponse = u ''final''"
| "kind_value InvalidResponse = u ''invalid''"

definition empty_error :: "'x app_state agent \<Rightarrow> pystr \<Rightarrow> parsed_response \<Rightarrow> pystr" where
  "empty_error a reply p = (let c = as_config (ag_world a) in
     u ''Error: Empty response from LLM | provider='' @ mc_provider_key c @ u '' model='' @ mc_model c @
     u '' state.api_type='' @ mc_api_type c @ u '' llm.api_type='' @ ag_api a @ u '' parsed.kind='' @ kind_value (pr_kind p) @
     u '' tool_call_count='' @ show_nat (length (pr_tool_calls p)) @ u '' raw_reply_len='' @ show_nat (length reply))"

definition empty_retry_instruction :: "bool \<Rightarrow> pystr" where
  "empty_retry_instruction native = unlines
     ([u ''Your previous response was empty. Return exactly one of the following:'', u ''1. A non-empty final answer, or''] @
      (if native then [u ''2. A valid native tool call.'', [], u ''Do not return an empty message.'']
       else [u ''2. Exactly one valid raw JSON tool call like {\"action\": \"tool_name\", \"input\": {...}}.'', [],
             u ''Do not wrap JSON in Markdown. Do not return an empty message.'']))"

definition invalid_retry_instruction :: "pystr \<Rightarrow> pystr" where
  "invalid_retry_instruction err = unlines
     [u ''Your previous response was invalid.'', u ''Parser error: '' @ err, [],
      u ''If you intended to call a tool, reply ONLY with one valid raw JSON object in one of these two shapes:'',
      u ''1) Single tool call with action+input'',
      u ''2) Batch tool calls with tool_calls'', [],
      u ''Important:'',
      u ''- Do not explain the tool call.'',
      u ''- Do not put the tool call in Markdown.'',
      u ''- Do not include prose before or after the JSON.'',
      u ''- Use either a single-call root object or a batch root object.'',
      u ''- In single-call mode, always include \"input\" (even if empty).'',
      u ''- In batch mode, each entry must include \"action\" and \"input\".'', [],
      u ''If you are finished and do not need tools, answer normally.'']"

text \<open>A round ends by going on with new variables or by returning the step's answer.\<close>

type_synonym 'x round_act = "('x, loop_vars + pystr) agent_act"

definition go_on :: "loop_vars \<Rightarrow> 'x round_act" where "go_on v = ret (Inl v)"
definition answer :: "pystr \<Rightarrow> 'x round_act" where "answer t = ret (Inr t)"

definition empty_reply :: "loop_vars \<Rightarrow> pystr \<Rightarrow> parsed_response \<Rightarrow> 'x round_act" where
  "empty_reply v reply p =
     abind (reads (\<lambda>a. (empty_error a reply p, ag_native a))) (\<lambda>(t, native).
     abind (error_event t) (\<lambda>_.
     if lv_empty v < MAX_EMPTY_RETRIES then
       abind (add_message (chat_message ''user'' (empty_retry_instruction native))) (\<lambda>_.
       go_on (v\<lparr>lv_empty := lv_empty v + 1\<rparr>))
     else answer (u ''Error: Empty response from model.'')))"

definition invalid_reply :: "loop_vars \<Rightarrow> pystr \<Rightarrow> parsed_response \<Rightarrow> 'x round_act" where
  "invalid_reply v reply p =
     abind (error_event (u ''Invalid model response: '' @ opt_text (pr_error p))) (\<lambda>_.
     if lv_retry v < MAX_RETRIES then
       abind (add_message (chat_message ''assistant'' reply)) (\<lambda>_.
       abind (add_message (chat_message ''user'' (invalid_retry_instruction (opt_text (pr_error p))))) (\<lambda>_.
       go_on (v\<lparr>lv_retry := lv_retry v + 1\<rparr>)))
     else
       abind (error_event (u ''Model failed to produce a valid response after retries.'')) (\<lambda>_.
       answer (u ''Error: Model failed to return a valid tool call after retries. Last error: '' @ opt_text (pr_error p))))"

text \<open>How the request for tools enters the transcript.\<close>

definition record_request :: "pystr \<Rightarrow> native_tool_call list \<Rightarrow> parsed_response \<Rightarrow> ('x, unit) agent_act" where
  "record_request reply tcs p = (\<lambda>a.
     if tcs \<noteq> [] \<and> ag_api a = u ''chat_completions'' then add_message (request_message reply tcs) a
     else if tcs \<noteq> [] \<and> cc_outputs (ag_llm a) then (a, Inr ())
     else if tcs \<noteq> [] then add_message (chat_message ''assistant'' (format_native_tool_call_summary tcs)) a
     else if pr_consumed p then
       (if strip (pr_assistant_text p) \<noteq> [] then add_message (chat_message ''assistant'' (strip (pr_assistant_text p))) a
        else (a, Inr ()))
     else add_message (chat_message ''assistant'' reply) a)"

definition excess_record :: "nat \<Rightarrow> nat \<Rightarrow> tool_call \<Rightarrow> batch_record" where
  "excess_record requested i c =
     \<lparr>br_index = i, br_total = requested, br_action = call_action c, br_input = call_input c, br_status = BSkipped,
      br_observation = Some (u ''Skipped: tool call batch limit exceeded. This was call '' @ show_nat i @ u '' of '' @
        show_nat requested @ u ''; at most '' @ show_nat MAX_BATCH_TOOL_CALLS @ u '' calls are executed per batch. '' @
        u ''Retry this call in a new batch and do not assume it ran.''), br_error = None\<rparr>"

text \<open>Running the first calls of the reply; a record for every call of it.\<close>

definition run_calls :: "'x agent_env \<Rightarrow> tool_call list \<Rightarrow> ('x, batch_record list) agent_act" where
  "run_calls e calls =
     (let run = take MAX_BATCH_TOOL_CALLS calls; excess = drop MAX_BATCH_TOOL_CALLS calls in
      abind (if MAX_BATCH_TOOL_CALLS < length calls
             then error_event (u ''Tool call batch limit exceeded: executing '' @ show_nat (length run) @
               u '' and skipping '' @ show_nat (length excess) @ u '' excess call(s).'')
             else ret ()) (\<lambda>_.
      abind (execute_tool_batch e (length run) 1 False run) (\<lambda>rs.
      ret (if excess = [] then rs
           else map (\<lambda>r. r\<lparr>br_total := length calls\<rparr>) rs @
             map (\<lambda>(i, c). excess_record (length calls) i c)
               (zip [MAX_BATCH_TOOL_CALLS + 1 ..< length calls + 1] excess)))))"

definition tool_event :: "'x agent_env \<Rightarrow> batch_record \<Rightarrow> agent_event" where
  "tool_event e r = ToolEvent (u ''TOOL CALL ['' @ show_nat (br_index r) @ 47 # show_nat (br_total r) @ u '']: '' @
     br_action r @ 40 # value_repr e (JObj (br_input r)) @ u '') -> '' @
     (case br_status r of
        BSuccess \<Rightarrow> opt_text (br_observation r)
      | BFailed \<Rightarrow> u ''FAILED: '' @ opt_text (or_else (br_error r) (br_observation r))
      | BSkipped \<Rightarrow> u ''SKIPPED''))"

definition log_records :: "'x agent_env \<Rightarrow> batch_record list \<Rightarrow> ('x, unit) agent_act" where
  "log_records e rs = writes (\<lambda>a. a\<lparr>ag_log := ag_log a @ map (tool_event e) rs\<rparr>)"

definition record_results ::
  "'x agent_env \<Rightarrow> loop_vars \<Rightarrow> native_tool_call list \<Rightarrow> batch_record list \<Rightarrow> 'x round_act" where
  "record_results e v tcs rs = (\<lambda>a.
     if tcs \<noteq> [] \<and> ag_api a = u ''chat_completions'' then
       abind (append_chat_results rs tcs) (\<lambda>_. go_on v) a
     else if tcs \<noteq> [] \<and> cc_outputs (ag_llm a) then
       abind (writes (\<lambda>a. a\<lparr>ag_pending := Some (zip rs tcs)\<rparr>)) (\<lambda>_. go_on (v\<lparr>lv_pending := Some (zip rs tcs)\<rparr>)) a
     else abind (append_records_for_local_memory e rs) (\<lambda>_. go_on v) a)"

definition tool_reply ::
  "'x agent_env \<Rightarrow> loop_vars \<Rightarrow> pystr \<Rightarrow> native_tool_call list \<Rightarrow> parsed_response \<Rightarrow> 'x round_act" where
  "tool_reply e v reply tcs p =
     abind (record_request reply tcs p) (\<lambda>_.
     if pr_tool_calls p = [] then
       abind (error_event (u ''Parser returned tool kind without calls.'')) (\<lambda>_.
       abind (append_tool_batch_result (u ''Error: No tool calls were provided.'')) (\<lambda>_. go_on v))
     else
       abind (run_calls e (pr_tool_calls p)) (\<lambda>rs.
       abind (log_records e rs) (\<lambda>_.
       record_results e v tcs rs)))"

definition final_reply :: "pystr \<Rightarrow> parsed_response \<Rightarrow> 'x round_act" where
  "final_reply reply p =
     abind (writes (\<lambda>a. a\<lparr>ag_pending := None\<rparr>)) (\<lambda>_.
     abind (add_message (chat_message ''assistant'' reply)) (\<lambda>_.
     answer (opt_text (pr_final p))))"

definition handle_reply ::
  "'x agent_env \<Rightarrow> loop_vars \<Rightarrow> pystr \<Rightarrow> native_tool_call list \<Rightarrow> parsed_response \<Rightarrow> 'x round_act" where
  "handle_reply e v reply tcs p =
     (if effectively_empty p then empty_reply v reply p
      else
        abind (emit (RawEvent (u ''RAW MODEL RESPONSE: '' @ reply))) (\<lambda>_.
        let v1 = v\<lparr>lv_empty := 0\<rparr> in
        if \<not> is_valid p then invalid_reply v1 reply p
        else if pr_kind p = ToolResponse then tool_reply e (v1\<lparr>lv_retry := 0\<rparr>) reply tcs p
        else if pr_kind p = FinalResponse then final_reply reply p
        else answer (u ''Error: Unexpected parser state.'')))"

definition lift_exn :: "agent_exn + 'a \<Rightarrow> ('x, 'a) agent_act" where
  "lift_exn r = (case r of Inl x \<Rightarrow> throw x | Inr y \<Rightarrow> ret y)"

text \<open>A round: what comes before its request, the request, what follows its reply.\<close>

definition start_round :: "nat \<Rightarrow> ('x, unit) agent_act" where
  "start_round step = (if step = MAX_STEPS - 1 then add_message (chat_message ''user'' (final_step_notice step)) else ret ())"

definition finish_round :: "'x agent_env \<Rightarrow> loop_vars \<Rightarrow> pystr + model_reply \<times> (batch_record \<times> native_tool_call) list option \<Rightarrow> 'x round_act" where
  "finish_round e v asked = (case asked of
     Inl t \<Rightarrow> answer t
   | Inr (reply, pending) \<Rightarrow>
       abind (lift_exn (read_reply e reply)) (\<lambda>(t, tcs, p). handle_reply e (v\<lparr>lv_pending := pending\<rparr>) t tcs p))"

definition agent_round :: "'x agent_env \<Rightarrow> nat \<Rightarrow> loop_vars \<Rightarrow> 'x round_act" where
  "agent_round e step v =
     abind (start_round step) (\<lambda>_.
     abind (select_tools e) (\<lambda>sel. case sel of
       Inl t \<Rightarrow> answer t
     | Inr tools \<Rightarrow> abind (ask_model e tools (lv_pending v)) (finish_round e v)))"

section \<open>The step\<close>

fun agent_loop :: "'x agent_env \<Rightarrow> nat list \<Rightarrow> loop_vars \<Rightarrow> ('x, pystr) agent_act" where
  "agent_loop e [] v = ret (u ''Error: Too many agent steps.'')"
| "agent_loop e (step # steps) v = abind (agent_round e step v) (\<lambda>r. case r of
     Inl v' \<Rightarrow> agent_loop e steps v' | Inr t \<Rightarrow> ret t)"

definition agent_step_inner :: "'x agent_env \<Rightarrow> pystr \<Rightarrow> ('x, pystr) agent_act" where
  "agent_step_inner e user_input =
     abind (add_message (chat_message ''user'' user_input)) (\<lambda>_.
     abind (reads ag_pending) (\<lambda>pending.
     agent_loop e [1..<MAX_STEPS + 1] \<lparr>lv_retry = 0, lv_empty = 0, lv_pending = pending\<rparr>))"

text \<open>
  \<open>with gate.turn(profile)\<close>: the gate is left and the context variable restored on every exit; if
  entering raises, nothing runs.
\<close>

definition leave_turn :: "pystr \<Rightarrow> pystr option \<Rightarrow> 'x app_state agent \<Rightarrow> 'x app_state agent" where
  "leave_turn profile ctx = on_state (\<lambda>st. st\<lparr>as_turn := map_option (\<lambda>t. fst (pt_leave profile t)) (as_turn st), as_context := ctx\<rparr>)"

definition agent_step :: "'x agent_env \<Rightarrow> pystr \<Rightarrow> ('x, pystr) agent_act" where
  "agent_step e user_input = (\<lambda>a.
     case as_turn (ag_world a) of
       None \<Rightarrow> agent_step_inner e user_input a
     | Some gate \<Rightarrow>
         let st = ag_world a in
         (case pt_enter (ag_profile a) (ae_uuid e st) (ae_clock e 0 st) (ae_clock e 1 st) gate of
            (gate', Inl x) \<Rightarrow> (on_state (\<lambda>st. st\<lparr>as_turn := Some gate'\<rparr>) a, Inl (AgentRuntime x))
          | (gate', Inr ctx) \<Rightarrow>
              (case agent_step_inner e user_input (on_state (\<lambda>st. st\<lparr>as_turn := Some gate', as_context := ctx\<rparr>) a) of
                 (a', r) \<Rightarrow> (leave_turn (ag_profile a) (as_context st) a', r))))"

definition agent_reset :: "pystr \<Rightarrow> ('x, unit) agent_act" where
  "agent_reset prompt = writes (\<lambda>a.
     let w = (ag_world a)\<lparr>as_turn := map_option (\<lambda>t. fst (pt_revoke t)) (as_turn (ag_world a))\<rparr>
     in a\<lparr>ag_world := (case cc_reset (ag_llm a) of None \<Rightarrow> w | Some f \<Rightarrow> f w),
          ag_messages := [chat_message ''system'' prompt], ag_pending := None\<rparr>)"

end
