(* ===== verification/AgentLaws.thy ===== *)
theory AgentLaws
  imports AgentLoop
begin

text \<open>
  What the agent loop guarantees: the locale \<open>agent_effects\<close> confines what a step does to the state
  to what its registered tools and its client do; the transcript pairs every native request with its
  results; a step returns after at most ten requests and revokes its authority on every exit.
\<close>

section \<open>The transcript\<close>

definition request_ids :: "message \<Rightarrow> json option list" where
  "request_ids m = (case map_of m (u ''tool_calls'') of
     Some (JArr js) \<Rightarrow> map (\<lambda>j. case j of JObj d \<Rightarrow> map_of d (u ''id'') | _ \<Rightarrow> None) js | _ \<Rightarrow> [])"

definition answered_id :: "message \<Rightarrow> json option" where
  "answered_id m = (if has_role ''tool'' m then map_of m (u ''tool_call_id'') else None)"

text \<open>
  The rule of the chat completions API: a message with tool calls is followed at once by one tool
  message for each of them, in order, and there are no other tool messages.
\<close>

function paired :: "message list \<Rightarrow> bool" where
  "paired [] = True"
| "paired (m # ms) = (let ids = request_ids m in
     \<not> has_role ''tool'' m \<and> length ids \<le> length ms \<and> map answered_id (take (length ids) ms) = ids \<and>
     (\<forall>i \<in> set ids. i \<noteq> None) \<and> paired (drop (length ids) ms))"
  by pat_completeness auto
termination
  by (relation "measure length") auto

declare paired.simps(2) [simp del]

lemma paired_append: "paired xs \<Longrightarrow> paired ys \<Longrightarrow> paired (xs @ ys)"
proof (induction xs rule: paired.induct)
  case (2 m ms)
  let ?n = "length (request_ids m)"
  from 2(2) have "?n \<le> length ms" "paired (drop ?n ms)" by (simp_all add: paired.simps(2) Let_def)
  with 2(1) [OF refl _ 2(3)] have "paired (drop ?n (ms @ ys))" by simp
  with 2(2) show ?case by (simp add: paired.simps(2) Let_def)
qed simp

lemma paired_plain [simp]: "request_ids m = [] \<Longrightarrow> \<not> has_role ''tool'' m \<Longrightarrow> paired [m]"
  by (simp add: paired.simps(2))

lemma chat_message_plain [simp]:
  "request_ids (chat_message r t) = []" "has_role r' (chat_message r t) \<longleftrightarrow> r = r'"
  by (simp_all add: request_ids_def chat_message_def has_role_def eq_commute)

lemma paired_exchange:
  assumes "length rs = length tcs"
  shows "paired (request_message t tcs # map result_message (zip rs tcs))"
proof -
  have i: "request_ids (request_message t tcs) = map (\<lambda>tc. Some (JStr (nt_id tc))) tcs"
    by (simp add: request_ids_def request_message_def)
  have "\<not> has_role ''tool'' (request_message t tcs)" by (simp add: has_role_def request_message_def)
  moreover have "map (answered_id \<circ> result_message) (zip rs tcs) = map (\<lambda>tc. Some (JStr (nt_id tc))) tcs"
  proof -
    have "map (answered_id \<circ> result_message) (zip rs tcs) = map (\<lambda>tc. Some (JStr (nt_id tc))) (map snd (zip rs tcs))"
      by (auto simp: answered_id_def result_message_def has_role_def)
    with assms show ?thesis by simp
  qed
  ultimately show ?thesis using assms by (auto simp: paired.simps(2) i Let_def)
qed

section \<open>Operations that do not raise\<close>

lemma keeps_at: "keeps S m \<Longrightarrow> S a (fst (m a))"
  by (simp add: keeps_def)

text \<open>\<open>returns V m\<close>: in every state \<open>m\<close> returns a value satisfying \<open>V\<close> instead of raising.\<close>

definition returns :: "('a \<Rightarrow> bool) \<Rightarrow> ('s, 'e, 'a) act \<Rightarrow> bool" where
  "returns V m \<longleftrightarrow> (\<forall>s. \<exists>s' x. m s = (s', Inr x) \<and> V x)"

lemma returnsE:
  assumes "returns V m"
  obtains s' x where "m s = (s', Inr x)" "V x"
  using assms unfolding returns_def by blast

lemma returns_pure [simp]:
  "returns V (ret x) \<longleftrightarrow> V x" "returns V1 (writes f) \<longleftrightarrow> V1 ()" "returns (\<lambda>_. True) (reads g)"
  by (auto simp: returns_def)

lemma returns_abind: "returns V m \<Longrightarrow> (\<And>x. V x \<Longrightarrow> returns W (f x)) \<Longrightarrow> returns W (abind m f)"
  unfolding returns_def abind_def by (metis (mono_tags, lifting) case_prod_conv old.sum.simps(6))

lemma returns_event [simp]: "returns (\<lambda>_. True) (error_event t)" "returns (\<lambda>_. True) (log_records e rs)"
  by (simp_all add: error_event_def emit_def log_records_def)

lemma returns_failed [simp]: "returns (\<lambda>r. fst r = BFailed) (failed_call e i t)"
  unfolding failed_call_def by (intro returns_abind [where V = "\<lambda>_. True"]) (simp_all add: complete_audit_def)

lemma returns_execute_one: "returns (\<lambda>r. fst r \<noteq> BSkipped) (execute_one_tool_call e action input)"
proof -
  have w: "returns (\<lambda>r. fst r \<noteq> BSkipped) m" if "returns (\<lambda>r. fst r = BFailed) m" for m :: "('x, batch_status \<times> pystr option \<times> pystr option) agent_act"
    using that by (force simp: returns_def)
  have "returns (\<lambda>_. True) (start_audit e action input)"
    by (auto simp: returns_def start_audit_def split: option.split sum.split)
  moreover have "returns (\<lambda>_. True) (call_tool spec input)" for spec :: "'x app_state tool_function tool_spec"
    by (auto simp: returns_def call_tool_def split: prod.split)
  moreover have "returns (\<lambda>r. fst r \<noteq> BSkipped) (abind (complete_audit e i s r x) (\<lambda>_. ret (BSuccess, obs, y)))" for i s r x obs y
    by (intro returns_abind [where V = "\<lambda>_. True"]) (simp_all add: complete_audit_def)
  moreover have "returns (\<lambda>r. fst r \<noteq> BSkipped) (case r of
        Inr obs \<Rightarrow> abind (complete_audit e i TC_SUCCESS (Some obs) None) (\<lambda>_. ret (BSuccess, Some obs, None))
      | Inl (ArgumentError t) \<Rightarrow> failed_call e i (f t) | Inl (OtherFailure t) \<Rightarrow> failed_call e i (g t))" for r i f g
    using calculation(3) by (auto split: sum.split tool_failure.split intro!: w [OF returns_failed])
  ultimately show ?thesis unfolding execute_one_tool_call_def
    by (intro returns_abind [where V = "\<lambda>_. True"]) (auto split: option.split intro!: w [OF returns_failed] returns_abind [where V = "\<lambda>_. True" and m = "call_tool _ _"])
qed

text \<open>The records of a batch, numbered from \<open>i\<close> out of \<open>m\<close>.\<close>

definition records_of :: "nat \<Rightarrow> nat \<Rightarrow> tool_call list \<Rightarrow> batch_record list \<Rightarrow> bool" where
  "records_of m i cs rs \<longleftrightarrow> map br_index rs = [i ..< i + length cs] \<and> map br_action rs = map call_action cs \<and>
     map br_input rs = map call_input cs \<and> (\<forall>r \<in> set rs. br_total r = m)"

lemma records_of_length: "records_of m i cs rs \<Longrightarrow> length rs = length cs"
  unfolding records_of_def by (metis length_map)

lemma records_of_Cons:
  "records_of m (i + 1) cs rs \<Longrightarrow> br_index r = i \<Longrightarrow> br_total r = m \<Longrightarrow> br_action r = call_action c \<Longrightarrow> br_input r = call_input c
     \<Longrightarrow> records_of m i (c # cs) (r # rs)"
  by (simp add: records_of_def upt_conv_Cons del: upt_Suc)

text \<open>Running calls one after the other without failing fast: only their effects.\<close>

fun run_each :: "'x agent_env \<Rightarrow> tool_call list \<Rightarrow> 'x app_state agent \<Rightarrow> 'x app_state agent" where
  "run_each e [] a = a"
| "run_each e (c # cs) a = run_each e cs (fst (execute_one_tool_call e (call_action c) (call_input c) a))"

text \<open>A batch stops at its first failure: those before it succeeded, those after it were skipped and not run.\<close>

definition fail_fast :: "batch_record list \<Rightarrow> nat \<Rightarrow> bool" where
  "fail_fast rs k \<longleftrightarrow> k \<le> length rs \<and> (\<forall>r \<in> set (drop k rs). br_status r = BSkipped) \<and>
     (\<forall>r \<in> set (take k rs). br_status r \<noteq> BSkipped) \<and> (\<forall>r \<in> set (take (k - 1) rs). br_status r = BSuccess) \<and>
     (k < length rs \<longrightarrow> k \<noteq> 0 \<and> br_status (rs ! (k - 1)) = BFailed)"

lemma batch_aborted:
  "\<exists>rs. execute_tool_batch e m i True cs a = (a, Inr rs) \<and> records_of m i cs rs \<and> (\<forall>r \<in> set rs. br_status r = BSkipped)"
proof (induction cs arbitrary: i)
  case (Cons c cs)
  from Cons [of "i + 1"] obtain rs where
    "execute_tool_batch e m (i + 1) True cs a = (a, Inr rs)" "records_of m (i + 1) cs rs" "\<forall>r \<in> set rs. br_status r = BSkipped"
    by blast
  then show ?case by (auto simp: FAIL_FAST_BATCH_def abind_eq intro!: records_of_Cons)
qed (simp add: records_of_def)

lemma fail_fast_success: "fail_fast rs k \<Longrightarrow> br_status r = BSuccess \<Longrightarrow> (k = 0 \<Longrightarrow> rs = []) \<Longrightarrow> fail_fast (r # rs) (k + 1)"
  by (cases k) (auto simp: fail_fast_def)

lemma batch_runs:
  "\<exists>rs k. execute_tool_batch e m i False cs a = (run_each e (take k cs) a, Inr rs) \<and> records_of m i cs rs \<and> fail_fast rs k \<and> (k = 0 \<longrightarrow> cs = [])"
proof (induction cs arbitrary: i a)
  case (Cons c cs)
  obtain a1 st obs err where x: "execute_one_tool_call e (call_action c) (call_input c) a = (a1, Inr (st, obs, err))" "st \<noteq> BSkipped"
    by (rule returnsE [OF returns_execute_one, of e "call_action c" "call_input c" a]) auto
  let ?r = "\<lparr>br_index = i, br_total = m, br_action = call_action c, br_input = call_input c, br_status = st, br_observation = obs, br_error = err\<rparr>"
  show ?case
  proof (cases "st = BFailed")
    case True
    from batch_aborted [of e m "i + 1" cs a1] obtain rs where rs:
      "execute_tool_batch e m (i + 1) True cs a1 = (a1, Inr rs)" "records_of m (i + 1) cs rs" "\<forall>r \<in> set rs. br_status r = BSkipped"
      by blast
    with True x have "execute_tool_batch e m i False (c # cs) a = (run_each e (take 1 (c # cs)) a, Inr (?r # rs))"
      by (simp add: FAIL_FAST_BATCH_def abind_eq)
    moreover have "records_of m i (c # cs) (?r # rs)" using rs(2) by (auto intro: records_of_Cons)
    moreover have "fail_fast (?r # rs) 1" using rs(3) True by (simp add: fail_fast_def)
    ultimately show ?thesis by (metis zero_neq_one)
  next
    case False
    with x(2) have s: "st = BSuccess" by (cases st) auto
    from Cons [of "i + 1" a1] obtain rs k where rs:
      "execute_tool_batch e m (i + 1) False cs a1 = (run_each e (take k cs) a1, Inr rs)" "records_of m (i + 1) cs rs" "fail_fast rs k" "k = 0 \<longrightarrow> cs = []"
      by blast
    with s x have "execute_tool_batch e m i False (c # cs) a = (run_each e (take (k + 1) (c # cs)) a, Inr (?r # rs))"
      by (simp add: FAIL_FAST_BATCH_def abind_eq)
    moreover have "records_of m i (c # cs) (?r # rs)" using rs(2) by (auto intro: records_of_Cons)
    moreover have "fail_fast (?r # rs) (k + 1)"
      using rs s records_of_length [OF rs(2)] by (intro fail_fast_success) auto
    ultimately show ?thesis by (metis add_is_0 zero_neq_one)
  qed
qed (auto simp: records_of_def fail_fast_def)

definition same_setup :: "'x app_state agent \<Rightarrow> 'x app_state agent \<Rightarrow> bool" where
  "same_setup a a' \<longleftrightarrow> ag_registry a' = ag_registry a \<and> ag_llm a' = ag_llm a \<and> ag_profile a' = ag_profile a \<and>
     ag_job a' = ag_job a \<and> ag_native a' = ag_native a \<and> ag_api a' = ag_api a \<and> ag_tools a' = ag_tools a \<and>
     prefix (ag_log a) (ag_log a')"

text \<open>Running tools touches neither the transcript nor the settings of the agent.\<close>

definition idle :: "'x app_state agent \<Rightarrow> 'x app_state agent \<Rightarrow> bool" where
  "idle a a' \<longleftrightarrow> same_setup a a' \<and> ag_messages a' = ag_messages a \<and> ag_pending a' = ag_pending a"

lemma idle_refl [simp]: "reflp idle" "idle a a"
  by (auto simp: reflp_def idle_def same_setup_def)

lemma idle_transp: "transp idle"
  by (rule transpI) (auto simp: idle_def same_setup_def)

lemma idle_updates [simp]: "idle a (a\<lparr>ag_log := ag_log a @ es\<rparr>)" "idle a (a\<lparr>ag_world := w\<rparr>)"
  by (auto simp: idle_def same_setup_def)

lemma idle_basics [simp]:
  "keeps idle (error_event t)" "keeps idle (log_records e rs)" "keeps idle (complete_audit e i st r x)"
  "keeps idle (start_audit e action input)" "keeps idle (call_tool spec input)"
  by (auto simp: keeps_def error_event_def emit_def log_records_def complete_audit_def start_audit_def call_tool_def set_calls_def on_state_def
      split: option.split sum.split prod.split)

lemma idle_execute_one: "keeps idle (execute_one_tool_call e action input)"
proof -
  have f: "keeps idle (failed_call e i t)" for i t
    unfolding failed_call_def by (intro keeps_abind idle_transp) (simp_all add: keeps_pure)
  have "keeps idle (abind (complete_audit e i s r x) (\<lambda>_. ret y))" for i s r x y
    by (intro keeps_abind idle_transp) (simp_all add: keeps_pure)
  with f show ?thesis unfolding execute_one_tool_call_def
    by (intro keeps_abind idle_transp) (auto simp: keeps_pure split: option.split sum.split tool_failure.split intro!: keeps_abind idle_transp)
qed

lemma idle_run_each: "idle a (run_each e cs a)"
proof (induction cs arbitrary: a)
  case (Cons c cs)
  have "idle a (fst (execute_one_tool_call e (call_action c) (call_input c) a))"
    using idle_execute_one unfolding keeps_def by blast
  with Cons idle_transp show ?case by (auto dest: transpD)
qed simp

lemma records_of_append:
  "records_of m i xs rs \<Longrightarrow> records_of m (i + length xs) ys qs \<Longrightarrow> records_of m i (xs @ ys) (rs @ qs)"
  by (auto simp: records_of_def add.assoc [symmetric] simp flip: upt_add_eq_append)

lemma records_of_total: "records_of m i xs rs \<Longrightarrow> records_of m' i xs (map (\<lambda>r. r\<lparr>br_total := m'\<rparr>) rs)"
  by (auto simp: records_of_def o_def)

lemma excess_records: "records_of m i cs (map (\<lambda>(i, c). excess_record m i c) (zip [i ..< i + length cs] cs))"
proof (induction cs arbitrary: i)
  case (Cons c cs)
  have "zip [i ..< i + length (c # cs)] (c # cs) = (i, c) # zip [i + 1 ..< (i + 1) + length cs] cs"
    by (simp add: upt_conv_Cons del: upt_Suc)
  with Cons [of "i + 1"] show ?case by (auto simp: excess_record_def intro!: records_of_Cons simp del: upt_Suc)
qed (simp add: records_of_def)

lemma excess_skipped [simp]: "br_status (excess_record m i c) = BSkipped"
  by (simp add: excess_record_def)

lemma run_calls_spec:
  "\<exists>l rs k. run_calls e calls a = (run_each e (take k calls) (a\<lparr>ag_log := l\<rparr>), Inr rs) \<and> prefix (ag_log a) l \<and>
     records_of (length calls) 1 calls rs \<and> k \<le> min MAX_BATCH_TOOL_CALLS (length calls) \<and>
     (\<forall>r \<in> set (take (k - 1) rs). br_status r = BSuccess) \<and> (\<forall>r \<in> set (take k rs). br_status r \<noteq> BSkipped) \<and>
     (\<forall>r \<in> set (drop k rs). br_status r = BSkipped) \<and>
     (k < min MAX_BATCH_TOOL_CALLS (length calls) \<longrightarrow> k \<noteq> 0 \<and> br_status (rs ! (k - 1)) = BFailed)"
proof (cases "MAX_BATCH_TOOL_CALLS < length calls")
  case False
  from batch_runs [of e "length calls" 1 calls a] obtain rs k where b:
    "execute_tool_batch e (length calls) 1 False calls a = (run_each e (take k calls) a, Inr rs)"
    "records_of (length calls) 1 calls rs" "fail_fast rs k" by blast
  from b(1) False have "run_calls e calls a = (run_each e (take k calls) (a\<lparr>ag_log := ag_log a\<rparr>), Inr rs)"
    by (simp add: run_calls_def abind_eq)
  with b(2,3) False records_of_length [OF b(2)] show ?thesis
    by (intro exI [of _ "ag_log a"] exI [of _ rs] exI [of _ k]) (auto simp: fail_fast_def min_def)
next
  case True
  let ?n = MAX_BATCH_TOOL_CALLS and ?run = "take MAX_BATCH_TOOL_CALLS calls" and ?ex = "drop MAX_BATCH_TOOL_CALLS calls"
  let ?t = "u ''Tool call batch limit exceeded: executing '' @ show_nat (length ?run) @ u '' and skipping '' @ show_nat (length ?ex) @ u '' excess call(s).''"
  let ?l = "ag_log a @ [ErrorEvent ?t]"
  let ?rest = "map (\<lambda>(i, c). excess_record (length calls) i c) (zip [?n + 1 ..< length calls + 1] ?ex)"
  from batch_runs [of e "length ?run" 1 ?run "a\<lparr>ag_log := ?l\<rparr>"] obtain rs k where b:
    "execute_tool_batch e (length ?run) 1 False ?run (a\<lparr>ag_log := ?l\<rparr>) = (run_each e (take k ?run) (a\<lparr>ag_log := ?l\<rparr>), Inr rs)"
    "records_of (length ?run) 1 ?run rs" "fail_fast rs k" by blast
  have n: "length rs = ?n" using records_of_length [OF b(2)] True by simp
  then have k: "k \<le> ?n" using b(3) by (simp add: fail_fast_def)
  define qs where "qs = map (\<lambda>r. r\<lparr>br_total := length calls\<rparr>) rs @ ?rest"
  have "run_calls e calls a = (run_each e (take k calls) (a\<lparr>ag_log := ?l\<rparr>), Inr qs)"
    using b(1) True k unfolding run_calls_def Let_def qs_def
    by (simp add: error_event_def emit_def abind_eq min_def del: upt_Suc)
  moreover have "records_of (length calls) 1 calls qs"
  proof -
    have "records_of (length calls) 1 ?run (map (\<lambda>r. r\<lparr>br_total := length calls\<rparr>) rs)" using b(2) by (rule records_of_total)
    moreover have "records_of (length calls) (1 + length ?run) ?ex ?rest"
      using excess_records [of "length calls" "?n + 1" ?ex] True by (simp add: min_def del: upt_Suc)
    ultimately have "records_of (length calls) 1 (?run @ ?ex) qs" unfolding qs_def by (rule records_of_append)
    then show ?thesis by simp
  qed
  moreover have "\<forall>r \<in> set (drop k qs). br_status r = BSkipped"
    using b(3) k n by (auto simp: qs_def fail_fast_def drop_map)
  moreover have "take k qs = map (\<lambda>r. r\<lparr>br_total := length calls\<rparr>) (take k rs)"
    "take (k - 1) qs = map (\<lambda>r. r\<lparr>br_total := length calls\<rparr>) (take (k - 1) rs)"
    using k n by (simp_all add: qs_def take_map)
  moreover have "k < ?n \<longrightarrow> k \<noteq> 0 \<and> br_status (qs ! (k - 1)) = BFailed"
    using b(3) n by (auto simp: qs_def fail_fast_def nth_append)
  ultimately show ?thesis using b(3) k True
    by (intro exI [of _ ?l] exI [of _ qs] exI [of _ k]) (auto simp: fail_fast_def)
qed

text \<open>
  A reply's tool calls yield one record each, numbered in the order of the calls.  At most ten
  calls are run, one after the other, up to and including the first that fails: exactly these change
  the state, all others are recorded as skipped and have no effect.
\<close>

theorem batch_fails_fast:
  "\<exists>l rs k. run_calls e calls a = (run_each e (take k calls) (a\<lparr>ag_log := l\<rparr>), Inr rs) \<and> prefix (ag_log a) l \<and>
     records_of (length calls) 1 calls rs \<and> k \<le> min MAX_BATCH_TOOL_CALLS (length calls) \<and>
     (\<forall>r \<in> set (take (k - 1) rs). br_status r = BSuccess) \<and> (\<forall>r \<in> set (take k rs). br_status r \<noteq> BSkipped) \<and>
     (\<forall>r \<in> set (drop k rs). br_status r = BSkipped) \<and>
     (k < min MAX_BATCH_TOOL_CALLS (length calls) \<longrightarrow> k \<noteq> 0 \<and> br_status (rs ! (k - 1)) = BFailed)"
  by (rule run_calls_spec)

lemma run_calls_idle: "\<exists>a' rs. run_calls e calls a = (a', Inr rs) \<and> length rs = length calls \<and> idle a a'"
proof -
  from run_calls_spec [of e calls a] obtain l rs k where
    r: "run_calls e calls a = (run_each e (take k calls) (a\<lparr>ag_log := l\<rparr>), Inr rs)" "prefix (ag_log a) l" "records_of (length calls) 1 calls rs"
    by blast
  from r(2) have "idle a (a\<lparr>ag_log := l\<rparr>)" by (auto simp: idle_def same_setup_def)
  with idle_run_each have "idle a (run_each e (take k calls) (a\<lparr>ag_log := l\<rparr>))" using idle_transp by (blast dest: transpD)
  with r(1,3) records_of_length show ?thesis by blast
qed

lemma read_reply_calls:
  "read_reply e reply = Inr (t, tcs, p) \<Longrightarrow> tcs \<noteq> [] \<longrightarrow> length (pr_tool_calls p) = length tcs"
  by (auto simp: read_reply_def Let_def tools_response_def map_res_Inr_iff rbind_Inr_iff split: model_reply.splits if_splits dest!: list_all2_lengthD)

section \<open>The frame of an operation\<close>

text \<open>
  \<open>extends P R\<close>: the settings of the agent stay, the log grows, the transcript grows by messages
  satisfying \<open>P\<close>, and the runtime states are related by \<open>R\<close>.
\<close>

definition extends ::
  "(message list \<Rightarrow> bool) \<Rightarrow> ('x app_state \<Rightarrow> 'x app_state \<Rightarrow> bool) \<Rightarrow> 'x app_state tool_function registry \<Rightarrow> 'x app_state chat_client
     \<Rightarrow> 'x app_state agent \<Rightarrow> 'x app_state agent \<Rightarrow> bool" where
  "extends P R reg llm a a' \<longleftrightarrow> (ag_registry a = reg \<and> ag_llm a = llm \<longrightarrow> same_setup a a' \<and> R (ag_world a) (ag_world a') \<and>
     (\<exists>ms. ag_messages a' = ag_messages a @ ms \<and> P ms))"

text \<open>
  What an agent may do to the runtime state, in terms of what its tools and its client may do; every
  write of the audit trail is allowed.  \<open>P\<close> holds of the messages of an exchange.
\<close>

locale agent_tools =
  fixes R :: "'x app_state \<Rightarrow> 'x app_state \<Rightarrow> bool"
    and reg :: "'x app_state tool_function registry"
    and llm :: "'x app_state chat_client"
    and P :: "message list \<Rightarrow> bool"
  assumes R_refl: "reflp R" and R_trans: "transp R"
    and tools_keep: "\<And>name spec b input. reg_get reg name = Some spec \<Longrightarrow> keeps R (sp_function spec b input)"
    and audit_keeps: "\<And>st rows. R st (st\<lparr>as_calls := Some rows\<rparr>)"
    and P_Nil [simp]: "P []" and P_append: "\<And>xs ys. P xs \<Longrightarrow> P ys \<Longrightarrow> P (xs @ ys)"
    and P_chat [simp]: "\<And>r t. r \<noteq> ''tool'' \<Longrightarrow> P [chat_message r t]"
    and P_exchange: "\<And>t tcs rs. length rs = length tcs \<Longrightarrow> P (request_message t tcs # map result_message (zip rs tcs))"
begin

abbreviation Q :: "'x app_state agent \<Rightarrow> 'x app_state agent \<Rightarrow> bool" where
  "Q \<equiv> extends P R reg llm"

lemma Q_refl [simp]: "Q a a"
  using R_refl by (auto simp: extends_def same_setup_def reflp_def)

lemma Q_reflp: "reflp Q"
  by (rule reflpI) simp

lemma Q_trans: "Q a b \<Longrightarrow> Q b c \<Longrightarrow> Q a c"
proof -
  assume ab: "Q a b" and bc: "Q b c"
  show "Q a c" unfolding extends_def
  proof
    assume r: "ag_registry a = reg \<and> ag_llm a = llm"
    with ab have b: "same_setup a b" "R (ag_world a) (ag_world b)" "\<exists>ms. ag_messages b = ag_messages a @ ms \<and> P ms"
      by (auto simp: extends_def)
    from b(1) r have "ag_registry b = reg \<and> ag_llm b = llm" by (simp add: same_setup_def)
    with bc have c: "same_setup b c" "R (ag_world b) (ag_world c)" "\<exists>ms. ag_messages c = ag_messages b @ ms \<and> P ms"
      by (auto simp: extends_def)
    have "same_setup a c" using b(1) c(1) by (auto simp: same_setup_def)
    moreover have "R (ag_world a) (ag_world c)" using R_trans b(2) c(2) by (rule transpD)
    moreover have "\<exists>ms. ag_messages c = ag_messages a @ ms \<and> P ms" using b(3) c(3) P_append by auto
    ultimately show "same_setup a c \<and> R (ag_world a) (ag_world c) \<and> (\<exists>ms. ag_messages c = ag_messages a @ ms \<and> P ms)" by blast
  qed
qed

lemma Q_transp: "transp Q"
  by (rule transpI) (rule Q_trans)

lemmas keeps_bind = keeps_abind [OF Q_transp]
lemmas keeps_pures [simp, intro] = keeps_pure [OF Q_reflp]

lemma R_self [simp]: "R st st"
  using R_refl by (rule reflpD)

text \<open>An update that leaves everything but the log and the unrelated fields.\<close>

lemma Q_silent:
  "same_setup a a' \<Longrightarrow> ag_world a' = ag_world a \<Longrightarrow> ag_messages a' = ag_messages a \<Longrightarrow> Q a a'"
  by (auto simp: extends_def)

lemma Q_world: "R (ag_world a) w \<Longrightarrow> Q a (a\<lparr>ag_world := w\<rparr>)"
  by (auto simp: extends_def same_setup_def)

lemma Q_messages: "P ms \<Longrightarrow> Q a (a\<lparr>ag_messages := ag_messages a @ ms\<rparr>)"
  by (auto simp: extends_def same_setup_def)

lemma Q_emit [simp, intro]: "keeps Q (emit ev)" "keeps Q (error_event t)" "keeps Q (log_records e rs)"
  by (auto simp: keeps_def emit_def error_event_def log_records_def same_setup_def intro: Q_silent)

lemma Q_add: "P [m] \<Longrightarrow> keeps Q (add_message m)"
  by (auto simp: keeps_def add_message_def intro: Q_messages)

lemma Q_start_audit [simp, intro]: "keeps Q (start_audit e action input)"
  by (auto simp: keeps_def start_audit_def set_calls_def on_state_def intro!: Q_world audit_keeps split: option.split sum.split)

lemma Q_complete_audit [simp, intro]: "keeps Q (complete_audit e i st r x)"
  by (auto simp: keeps_def complete_audit_def set_calls_def on_state_def intro!: Q_world audit_keeps split: option.split sum.split)

lemma Q_failed_call [simp, intro]: "keeps Q (failed_call e i t)"
  unfolding failed_call_def by (intro keeps_bind Q_emit Q_complete_audit keeps_pures)

lemma Q_call_tool: "reg_get reg action = Some spec \<Longrightarrow> keeps Q (call_tool spec input)"
  by (auto simp: keeps_def call_tool_def split: prod.split intro!: Q_world) (metis tools_keep keepsD)

text \<open>An operation that is determined in states with the registry and client at hand.\<close>

lemma keeps_here: "(\<And>a. ag_registry a = reg \<Longrightarrow> ag_llm a = llm \<Longrightarrow> Q a (fst (m a))) \<Longrightarrow> keeps Q m"
  by (auto simp: keeps_def extends_def)

lemma keeps_reads_registry: "keeps Q (f reg) \<Longrightarrow> keeps Q (abind (reads ag_registry) f)"
  by (rule keeps_here) (auto simp: keeps_def)

lemma Q_execute_one [simp, intro]: "keeps Q (execute_one_tool_call e action input)"
proof -
  have "keeps Q (abind (call_tool spec input) (\<lambda>r. case r of
           Inr obs \<Rightarrow> abind (complete_audit e audit TC_SUCCESS (Some obs) None) (\<lambda>_. ret (BSuccess, Some obs, None))
         | Inl (ArgumentError t) \<Rightarrow> failed_call e audit (f t)
         | Inl (OtherFailure t) \<Rightarrow> failed_call e audit (g t)))"
    if "reg_get reg action = Some spec" for spec audit and f g
    using that by (intro keeps_bind) (auto intro: Q_call_tool keeps_bind split: sum.split tool_failure.split)
  then show ?thesis unfolding execute_one_tool_call_def
    by (intro keeps_bind Q_start_audit keeps_reads_registry) (auto split: option.split)
qed

lemma Q_execute_batch [simp, intro]: "keeps Q (execute_tool_batch e m i b cs)"
  by (induction cs arbitrary: i b) (auto intro!: keeps_bind split: prod.split)

lemma Q_run_calls [simp, intro]: "keeps Q (run_calls e calls)"
  unfolding run_calls_def Let_def by (intro keeps_bind) auto

lemma Q_select_tools: "keeps Q (select_tools e)"
proof -
  have "Q a (fst (error_event t a))" for t a using Q_emit(2) unfolding keeps_def by blast
  then show ?thesis by (auto simp: keeps_def select_tools_def Let_def split: option.split sum.split)
qed

lemma Q_answers [simp, intro]: "keeps Q (go_on v)" "keeps Q (answer t)" "keeps Q (lift_exn r)"
  by (auto simp: go_on_def answer_def lift_exn_def split: sum.split)

lemma Q_empty_reply: "keeps Q (empty_reply v reply p)"
  unfolding empty_reply_def by (intro keeps_bind) (auto intro!: keeps_bind Q_add)

lemma Q_invalid_reply: "keeps Q (invalid_reply v reply p)"
  unfolding invalid_reply_def by (intro keeps_bind) (auto intro!: keeps_bind Q_add)

lemma Q_final_reply: "keeps Q (final_reply reply p)"
proof -
  have "keeps Q (writes (\<lambda>a. a\<lparr>ag_pending := x\<rparr>))" for x
    by (auto simp: keeps_def same_setup_def intro: Q_silent)
  then show ?thesis unfolding final_reply_def by (intro keeps_bind Q_answers Q_add) simp_all
qed

lemma Q_local_memory: "keeps Q (append_records_for_local_memory e rs)"
  by (auto simp: append_records_for_local_memory_def append_tool_result_def append_tool_batch_result_def split: list.split intro!: Q_add)

lemma Q_set_pending: "keeps Q (abind (writes (\<lambda>a. a\<lparr>ag_pending := x\<rparr>)) (\<lambda>_. go_on y))"
proof (rule keeps_bind)
  show "keeps Q (writes (\<lambda>a. a\<lparr>ag_pending := x\<rparr>))" by (auto simp: keeps_def same_setup_def intro: Q_silent)
qed simp

lemma Q_record_results:
  assumes "\<not> (tcs \<noteq> [] \<and> ag_api b = u ''chat_completions'')"
  shows "Q b (fst (record_results e v tcs rs b))"
proof (cases "tcs \<noteq> [] \<and> cc_outputs (ag_llm b)")
  case True
  with assms have "record_results e v tcs rs b =
      abind (writes (\<lambda>a. a\<lparr>ag_pending := Some (zip rs tcs)\<rparr>)) (\<lambda>_. go_on (v\<lparr>lv_pending := Some (zip rs tcs)\<rparr>)) b"
    by (simp only: record_results_def if_False if_True simp_thms)
  with keeps_at [OF Q_set_pending] show ?thesis by (simp only:)
next
  case False
  with assms have "record_results e v tcs rs b = abind (append_records_for_local_memory e rs) (\<lambda>_. go_on v) b"
    by (simp only: record_results_def if_False)
  with keeps_at [OF keeps_bind [OF Q_local_memory Q_answers(1)]] show ?thesis by (simp only:)
qed

text \<open>The one place where two operations make up an exchange.\<close>

lemma Q_tool_reply:
  assumes "tcs \<noteq> [] \<longrightarrow> length (pr_tool_calls p) = length tcs"
  shows "keeps Q (tool_reply e v reply tcs p)"
proof (rule keeps_here)
  fix a :: "'x app_state agent" assume a: "ag_registry a = reg" "ag_llm a = llm"
  show "Q a (fst (tool_reply e v reply tcs p a))"
  proof (cases "tcs \<noteq> [] \<and> ag_api a = u ''chat_completions''")
    case True
    let ?a1 = "a\<lparr>ag_messages := ag_messages a @ [request_message reply tcs]\<rparr>"
    obtain a2 rs where r: "run_calls e (pr_tool_calls p) ?a1 = (a2, Inr rs)" "length rs = length (pr_tool_calls p)" "idle ?a1 a2"
      using run_calls_idle by blast
    let ?a3 = "a2\<lparr>ag_log := ag_log a2 @ map (tool_event e) rs\<rparr>"
    let ?a4 = "?a3\<lparr>ag_messages := ag_messages a2 @ map result_message (zip rs tcs)\<rparr>"
    from True assms have p: "pr_tool_calls p \<noteq> []" "length rs = length tcs" using r(2) by auto
    from r(3) True have api: "ag_api a2 = u ''chat_completions''" by (simp add: idle_def same_setup_def)
    have "fst (tool_reply e v reply tcs p a) = ?a4"
      using True p api r(1) unfolding tool_reply_def record_request_def
      by (simp add: abind_def add_message_def log_records_def record_results_def append_chat_results_def go_on_def)
    moreover have "Q ?a1 a2" using Q_run_calls r(1) by (rule keepsD)
    then have "R (ag_world a) (ag_world a2)" using a by (simp add: extends_def)
    moreover have "same_setup a ?a4" using r(3) by (auto simp: idle_def same_setup_def)
    moreover have "ag_messages ?a4 = ag_messages a @ (request_message reply tcs # map result_message (zip rs tcs))"
      using r(3) by (simp add: idle_def)
    ultimately show ?thesis using P_exchange [OF p(2), of reply] unfolding extends_def by auto
  next
    case False
    have rec: "Q a (fst (record_request reply tcs p a))"
      using False Q_add [of "chat_message ''assistant'' _"] by (auto simp: record_request_def keeps_def)
    define rest :: "'x round_act" where "rest = (if pr_tool_calls p = [] then
       abind (error_event (u ''Parser returned tool kind without calls.'')) (\<lambda>_.
       abind (append_tool_batch_result (u ''Error: No tool calls were provided.'')) (\<lambda>_. go_on v))
     else abind (run_calls e (pr_tool_calls p)) (\<lambda>rs. abind (log_records e rs) (\<lambda>_. record_results e v tcs rs)))"
    have rest': "Q b (fst (rest b))" if "\<not> (tcs \<noteq> [] \<and> ag_api b = u ''chat_completions'')" for b
    proof (cases "pr_tool_calls p = []")
      case True
      have "keeps Q rest" unfolding rest_def using True
        by (auto intro!: keeps_bind Q_add simp: append_tool_batch_result_def)
      then show ?thesis unfolding keeps_def by blast
    next
      case f: False
      obtain b1 rs where r: "run_calls e (pr_tool_calls p) b = (b1, Inr rs)" "idle b b1" using run_calls_idle by blast
      have q1: "Q b b1" using Q_run_calls r(1) by (rule keepsD)
      let ?b2 = "b1\<lparr>ag_log := ag_log b1 @ map (tool_event e) rs\<rparr>"
      have q2: "Q b1 ?b2" by (rule Q_silent) (auto simp: same_setup_def)
      have "\<not> (tcs \<noteq> [] \<and> ag_api ?b2 = u ''chat_completions'')" using that r(2) by (simp add: idle_def same_setup_def)
      then have "Q ?b2 (fst (record_results e v tcs rs ?b2))" by (rule Q_record_results)
      moreover have "fst (rest b) = fst (record_results e v tcs rs ?b2)"
        using f r(1) unfolding rest_def by (simp add: abind_eq log_records_def)
      ultimately show ?thesis using q1 q2 Q_trans by metis
    qed
    obtain b where b: "record_request reply tcs p a = (b, Inr ())" "ag_api b = ag_api a"
      by (rule that [of "fst (record_request reply tcs p a)"])
        (auto simp: record_request_def add_message_def)
    then have "fst (tool_reply e v reply tcs p a) = fst (rest b)"
      unfolding tool_reply_def rest_def by (simp add: abind_eq)
    moreover have "Q b (fst (rest b))" using False b(2) by (intro rest') simp
    moreover have "Q a b" using rec b(1) by simp
    ultimately show ?thesis using Q_trans by metis
  qed
qed

lemma Q_handle_reply:
  assumes "tcs \<noteq> [] \<longrightarrow> length (pr_tool_calls p) = length tcs"
  shows "keeps Q (handle_reply e v reply tcs p)"
  unfolding handle_reply_def Let_def
  by (auto intro!: keeps_bind Q_empty_reply Q_invalid_reply Q_final_reply Q_tool_reply assms)

lemma Q_read: "keeps Q (abind (lift_exn (read_reply e reply)) (\<lambda>(t, tcs, p). handle_reply e v t tcs p))"
proof (cases "read_reply e reply")
  case (Inr x)
  obtain t tcs p where "x = (t, tcs, p)" by (cases x)
  with Inr Q_handle_reply [OF read_reply_calls] show ?thesis by (simp add: lift_exn_def)
qed (simp add: lift_exn_def)

lemma Q_start: "keeps Q (start_round step)"
  by (auto simp: start_round_def intro: Q_add)

lemma Q_finish: "keeps Q (finish_round e v asked)"
  by (auto simp: finish_round_def split: sum.split intro: Q_read)

text \<open>A round asks the model at most once: its effect is the client's, between two effects of the agent's own.\<close>

lemma round_asks_once:
  "Q a (fst (agent_round e step v a)) \<or>
   (\<exists>b tools. Q a b \<and> Q (fst (ask_model e tools (lv_pending v) b)) (fst (agent_round e step v a)))"
proof -
  obtain a1 r1 where o: "start_round step a = (a1, r1)" by (cases "start_round step a")
  with Q_start have q1: "Q a a1" by (rule keepsD)
  obtain x where r1: "r1 = Inr ()"
    using o by (cases "step = MAX_STEPS - 1") (auto simp: start_round_def add_message_def)
  obtain a2 r2 where s: "select_tools e a1 = (a2, r2)" by (cases "select_tools e a1")
  with Q_select_tools have "Q a1 a2" by (rule keepsD)
  with q1 Q_trans have q2: "Q a a2" by blast
  show ?thesis
  proof (cases "\<exists>tools. r2 = Inr (Inr tools)")
    case True
    then obtain tools where r2: "r2 = Inr (Inr tools)" by blast
    obtain a3 r3 where m: "ask_model e tools (lv_pending v) a2 = (a3, r3)" by (cases "ask_model e tools (lv_pending v) a2")
    have "Q a3 (fst (agent_round e step v a))"
      using o r1 s r2 m keeps_at [OF Q_finish] by (cases r3) (simp_all add: agent_round_def abind_eq)
    with q2 m show ?thesis by (metis fst_conv)
  next
    case False
    then have "fst (agent_round e step v a) = a2"
      using o r1 s by (cases r2) (auto simp: agent_round_def abind_eq answer_def split: sum.split)
    with q2 show ?thesis by simp
  qed
qed

end

text \<open>The model client confined too.\<close>

locale agent_effects = agent_tools R reg llm P
  for R :: "'x app_state \<Rightarrow> 'x app_state \<Rightarrow> bool" and reg llm P +
  assumes chat_keeps: "\<And>ms tools choice. keeps R (cc_chat llm ms tools choice)"
    and submit_keeps: "\<And>outs. keeps R (cc_submit llm outs)"
begin

lemma Q_ask_model: "keeps Q (ask_model e tools pending)"
proof (rule keeps_here)
  fix a :: "'x app_state agent" assume a: "ag_registry a = reg" "ag_llm a = llm"
  define m where "m = (case outputs_to_submit a pending of Some outs \<Rightarrow> cc_submit (ag_llm a) outs
       | None \<Rightarrow> cc_chat (ag_llm a) (messages_with_context e (ag_world a) (ag_messages a)) tools (map_option (\<lambda>_. u ''auto'') tools))"
  obtain w r where w: "m (ag_world a) = (w, r)" by (cases "m (ag_world a)")
  have "keeps R m" using a chat_keeps submit_keeps by (simp add: m_def split: option.split)
  then have R: "R (ag_world a) w" using w by (rule keepsD)
  have "Q (a\<lparr>ag_world := w\<rparr>) (fst (error_event t (a\<lparr>ag_world := w\<rparr>)))" for t
    using Q_emit(2) unfolding keeps_def by blast
  then have f: "Q a (fst (error_event t (a\<lparr>ag_world := w\<rparr>)))" for t
    using Q_world [OF R] Q_trans by blast
  have "Q a (a\<lparr>ag_world := w, ag_pending := None\<rparr>)" using R by (auto simp: extends_def same_setup_def)
  then show "Q a (fst (ask_model e tools pending a))"
    using w f Q_world [OF R] unfolding ask_model_def m_def [symmetric] by (auto simp: Let_def split: sum.split)
qed

lemma Q_round: "keeps Q (agent_round e step v)"
proof -
  have "Q a (fst (agent_round e step v a))" for a
    using round_asks_once [of a e step v] keeps_at [OF Q_ask_model] Q_trans by blast
  then show ?thesis by (simp add: keeps_def)
qed

lemma Q_loop: "keeps Q (agent_loop e steps v)"
  by (induction steps arbitrary: v) (auto intro!: keeps_bind Q_round split: sum.split)

lemma Q_inner: "keeps Q (agent_step_inner e user_input)"
  unfolding agent_step_inner_def by (intro keeps_bind Q_loop Q_add) simp_all

text \<open>A step: entering and leaving the turn besides, which is the gate's business.\<close>

lemma Q_step:
  assumes "\<And>st t c. R st (st\<lparr>as_turn := t, as_context := c\<rparr>)" and "\<And>st t. R st (st\<lparr>as_turn := t\<rparr>)"
  shows "keeps Q (agent_step e user_input)"
proof (rule keeps_here)
  fix a :: "'x app_state agent"
  have on: "Q b (on_state f b)" if "R (ag_world b) (f (ag_world b))" for b f
    using Q_world [OF that] by (simp add: on_state_def)
  show "Q a (fst (agent_step e user_input a))"
  proof (cases "as_turn (ag_world a)")
    case None
    then show ?thesis using keeps_at [OF Q_inner] by (simp add: agent_step_def)
  next
    case (Some gate)
    obtain gate' r where g: "pt_enter (ag_profile a) (ae_uuid e (ag_world a)) (ae_clock e 0 (ag_world a)) (ae_clock e 1 (ag_world a)) gate = (gate', r)"
      by (meson surj_pair)
    show ?thesis
    proof (cases r)
      case (Inl x)
      with Some g assms on show ?thesis by (simp add: agent_step_def)
    next
      case (Inr ctx)
      let ?b = "on_state (\<lambda>st. st\<lparr>as_turn := Some gate', as_context := ctx\<rparr>) a"
      obtain c q where i: "agent_step_inner e user_input ?b = (c, q)" by (meson surj_pair)
      have "Q a ?b" by (rule on, rule assms(1))
      moreover have "Q ?b c" using Q_inner i by (rule keepsD)
      moreover have "Q c (leave_turn (ag_profile a) (as_context (ag_world a)) c)"
        unfolding leave_turn_def by (rule on, rule assms(1))
      ultimately have "Q a (leave_turn (ag_profile a) (as_context (ag_world a)) c)" using Q_trans by blast
      with Some g Inr i show ?thesis by (simp add: agent_step_def)
    qed
  qed
qed

end

section \<open>Effects and transcript of a step\<close>

text \<open>Any registry and any client: what holds of every agent.\<close>

interpretation any_agent: agent_effects "\<lambda>_ _. True" reg llm paired for reg :: "'x app_state tool_function registry" and llm
  by unfold_locales (auto simp: reflp_def transp_def keeps_def intro: paired_append paired_exchange)

text \<open>
  C4: whatever the tools, the model and the user do, a step only appends to the transcript, it never
  changes the agent's tools, client, profile or job, and what it appends is well paired: every native
  tool request is followed at once by one result per call, in order, with the same ids, also when the
  step ends in an error or an exception.
\<close>

theorem step_keeps_transcript_paired:
  "\<exists>ms. ag_messages (fst (agent_step e user_input a)) = ag_messages a @ ms \<and> paired ms \<and>
     same_setup a (fst (agent_step e user_input a))"
proof -
  have "keeps (extends paired (\<lambda>_ _. True) (ag_registry a) (ag_llm a)) (agent_step e user_input)"
    by (rule any_agent.Q_step) simp_all
  from keeps_at [OF this, of a] show ?thesis by (auto simp: extends_def)
qed

lemma step_confined:
  assumes "reflp R" "transp R"
    and "\<And>name spec b input. reg_get (ag_registry a) name = Some spec \<Longrightarrow> keeps R (sp_function spec b input)"
    and "\<And>ms tools choice. keeps R (cc_chat (ag_llm a) ms tools choice)" "\<And>outs. keeps R (cc_submit (ag_llm a) outs)"
    and "\<And>st rows. R st (st\<lparr>as_calls := Some rows\<rparr>)"
    and "\<And>st t c. R st (st\<lparr>as_turn := t, as_context := c\<rparr>)" "\<And>st t. R st (st\<lparr>as_turn := t\<rparr>)"
  shows "R (ag_world a) (ag_world (fst (agent_step e user_input a)))"
proof -
  have "agent_effects R (ag_registry a) (ag_llm a) (\<lambda>_. True)"
    using assms by unfold_locales auto
  from keeps_at [OF agent_effects.Q_step [OF this assms(7,8)], of a e user_input] show ?thesis
    by (auto simp: extends_def)
qed

text \<open>
  C5: an agent built for a role changes the runtime state in a step only through the tools on that
  role's allowlist, its model client, the audit trail and the entering and leaving of the turn: a
  relation between states that these respect holds between the states before and after the step.
\<close>

theorem profile_confines_step:
  assumes "registry_ok src" "build_profile_registry (profile_value p) src = Inr (ag_registry a)"
    and "reflp R" "transp R"
    and "\<And>name spec b input. name \<in> set (PROFILE_TOOLS p) \<Longrightarrow> reg_get src name = Some spec \<Longrightarrow> keeps R (sp_function spec b input)"
    and "\<And>ms tools choice. keeps R (cc_chat (ag_llm a) ms tools choice)" "\<And>outs. keeps R (cc_submit (ag_llm a) outs)"
    and "\<And>st rows. R st (st\<lparr>as_calls := Some rows\<rparr>)"
    and "\<And>st t c. R st (st\<lparr>as_turn := t, as_context := c\<rparr>)" "\<And>st t. R st (st\<lparr>as_turn := t\<rparr>)"
  shows "R (ag_world a) (ag_world (fst (agent_step e user_input a)))"
proof (rule step_confined)
  show "keeps R (sp_function spec b input)" if "reg_get (ag_registry a) name = Some spec" for name spec b input
  proof -
    from profile_registry_get [OF assms(1,2)] that have "name \<in> set (PROFILE_TOOLS p)" "reg_get src name = Some spec"
      by (auto split: if_splits)
    then show ?thesis by (rule assms(5))
  qed
qed (use assms in auto)

section \<open>How often the model is asked\<close>

text \<open>
  C29: a step makes at most ten model requests: any counter of them, which a request raises by at
  most one and nothing else raises, grows by at most ten.
\<close>

theorem step_asks_at_most_ten_times:
  fixes f :: "'x app_state \<Rightarrow> nat"
  assumes "\<And>name spec b input st. reg_get (ag_registry a) name = Some spec \<Longrightarrow> f (fst (sp_function spec b input st)) = f st"
    and "\<And>ms tools choice st. f (fst (cc_chat (ag_llm a) ms tools choice st)) \<le> f st + 1"
    and "\<And>outs st. f (fst (cc_submit (ag_llm a) outs st)) \<le> f st + 1"
    and "\<And>st rows. f (st\<lparr>as_calls := Some rows\<rparr>) = f st"
    and "\<And>st t c. f (st\<lparr>as_turn := t, as_context := c\<rparr>) = f st" "\<And>st t. f (st\<lparr>as_turn := t\<rparr>) = f st"
  shows "f (ag_world (fst (agent_step e user_input a))) \<le> f (ag_world a) + MAX_STEPS"
proof -
  let ?R = "\<lambda>st st'. f st' = f st" and ?reg = "ag_registry a" and ?llm = "ag_llm a"
  have t: "agent_tools ?R ?reg (\<lambda>_. True)"
    using assms(1,4) by unfold_locales (auto simp: reflp_def transp_def keeps_def)
  let ?Q = "extends (\<lambda>_. True) ?R ?reg ?llm"
  have ask: "f (ag_world (fst (ask_model e tools pending b))) \<le> f (ag_world b) + 1 \<and> same_setup b (fst (ask_model e tools pending b))"
    if "ag_llm b = ?llm" for b tools pending
    using that assms(2,3) by (auto simp: ask_model_def Let_def error_event_def emit_def same_setup_def split: prod.split sum.split option.split)
      (metis fst_conv)+
  have round: "f (ag_world (fst (agent_round e step v b))) \<le> f (ag_world b) + 1 \<and> same_setup b (fst (agent_round e step v b))"
    if "ag_registry b = ?reg" "ag_llm b = ?llm" for b step v
    using agent_tools.round_asks_once [OF t, where llm = ?llm and a = b and e = e and step = step and v = v]
  proof
    assume "?Q b (fst (agent_round e step v b))"
    with that show ?thesis by (auto simp: extends_def)
  next
    assume "\<exists>c tools. ?Q b c \<and> ?Q (fst (ask_model e tools (lv_pending v) c)) (fst (agent_round e step v b))"
    then obtain c tools where c: "?Q b c" "?Q (fst (ask_model e tools (lv_pending v) c)) (fst (agent_round e step v b))" by blast
    from c(1) that have b: "same_setup b c" "f (ag_world c) = f (ag_world b)" by (auto simp: extends_def)
    then have "ag_llm c = ?llm" "ag_registry c = ?reg" using that by (simp_all add: same_setup_def)
    with ask [of c tools "lv_pending v"] c(2) b show ?thesis by (auto simp: extends_def same_setup_def)
  qed
  have loop: "f (ag_world (fst (agent_loop e steps v b))) \<le> f (ag_world b) + length steps"
    if "ag_registry b = ?reg" "ag_llm b = ?llm" for steps v b
    using that
  proof (induction steps arbitrary: v b)
    case (Cons step steps)
    obtain c r where c: "agent_round e step v b = (c, r)" by (cases "agent_round e step v b")
    with round [OF Cons.prems, of step v] have le: "f (ag_world c) \<le> f (ag_world b) + 1" "ag_registry c = ?reg" "ag_llm c = ?llm"
      using Cons.prems by (auto simp: same_setup_def)
    show ?case
    proof (cases "\<exists>v'. r = Inr (Inl v')")
      case True
      then obtain v' where "r = Inr (Inl v')" by blast
      with c have "agent_loop e (step # steps) v b = agent_loop e steps v' c" by (simp add: abind_eq)
      with Cons.IH [OF le(2,3), of v'] le(1) show ?thesis by simp
    next
      case False
      with c have "fst (agent_loop e (step # steps) v b) = c" by (cases r) (auto simp: abind_eq split: sum.split)
      with le(1) show ?thesis by simp
    qed
  qed simp
  have inner: "f (ag_world (fst (agent_step_inner e user_input b))) \<le> f (ag_world b) + MAX_STEPS"
    if "ag_registry b = ?reg" "ag_llm b = ?llm" for b
    using loop [of "b\<lparr>ag_messages := ag_messages b @ [chat_message ''user'' user_input]\<rparr>" "[1..<MAX_STEPS + 1]"] that
    by (simp add: agent_step_inner_def add_message_def del: upt_Suc)
  show ?thesis
  proof (cases "as_turn (ag_world a)")
    case None
    with inner [of a] show ?thesis by (simp add: agent_step_def)
  next
    case (Some gate)
    obtain gate' r where g: "pt_enter (ag_profile a) (ae_uuid e (ag_world a)) (ae_clock e 0 (ag_world a)) (ae_clock e 1 (ag_world a)) gate = (gate', r)"
      by (meson surj_pair)
    let ?b = "\<lambda>c. on_state (\<lambda>st. st\<lparr>as_turn := Some gate', as_context := c\<rparr>) a"
    show ?thesis
      using Some g inner [of "?b (case r of Inl x \<Rightarrow> None | Inr c \<Rightarrow> c)"] assms(5,6)
      by (cases r) (auto simp: agent_step_def Let_def leave_turn_def on_state_def split: prod.split)
  qed
qed

section \<open>Concrete inputs\<close>

definition plain_env :: "nat agent_env" where
  "plain_env = \<lparr>ae_parse = \<lparr>pv_printable = (\<lambda>_. True), pv_message = (\<lambda>_. []), pv_position = (\<lambda>_. [])\<rparr>, ae_float = (\<lambda>f. f),
     ae_millis = (\<lambda>d. d div 1000), ae_utc = (\<lambda>_ _. 0), ae_clock = (\<lambda>_ _. 0), ae_uuid = (\<lambda>_. u ''turn'')\<rparr>"

definition plain_client :: "nat app_state chat_client" where
  "plain_client = \<lparr>cc_native = False, cc_outputs = False, cc_api = u ''chat_completions'',
     cc_chat = (\<lambda>_ _ _ st. (st\<lparr>as_rest := as_rest st + 1\<rparr>, Inr (PlainReply (u ''Done.'')))),
     cc_submit = (\<lambda>_ st. (st, Inl \<lparr>lf_text = [], lf_notes = None\<rparr>)), cc_reset = None, cc_configure = None\<rparr>"

definition plain_state :: "nat app_state" where
  "plain_state = \<lparr>as_cwd = u ''/work'', as_config = \<lparr>mc_provider_key = u ''p'', mc_provider_label = u ''P'', mc_model = u ''m'',
       mc_api_type = u ''chat_completions''\<rparr>, as_include_diff = DiffOff, as_calls = None, as_session = None,
     as_turn = Some pt_init, as_context = None, as_rest = 0\<rparr>"

definition plain_tool :: "pystr \<Rightarrow> nat app_state tool_function tool_spec" where
  "plain_tool n = \<lparr>sp_name = n, sp_function = (\<lambda>_ _ st. (st, Inr (as_cwd st))), sp_description = [], sp_parameters = [],
     sp_requires_state = True, sp_example = None\<rparr>"

definition plain_source :: "nat app_state tool_function registry" where
  "plain_source = map (\<lambda>n. (n, plain_tool n)) (PROFILE_TOOLS Head)"

definition plain_registry :: "nat app_state tool_function registry" where
  "plain_registry = map (\<lambda>n. (n, plain_tool n)) (PROFILE_TOOLS ReadOnlyWorker)"

definition plain_agent :: "nat app_state agent" where
  "plain_agent = agent_init (u ''You are an agent.'') plain_state plain_client plain_registry (u ''head'') None"

lemma plain_agent_parts [simp]:
  "ag_registry plain_agent = plain_registry" "ag_llm plain_agent = plain_client" "ag_world plain_agent = plain_state"
  by (simp_all add: plain_agent_def agent_init_def configure_llm_runtime_def plain_client_def)

lemma plain_source_get: "reg_get plain_source n = (if n \<in> set (PROFILE_TOOLS Head) then Some (plain_tool n) else None)"
  by (simp add: plain_source_def reg_get_def map_of_map_restrict restrict_map_def del: PROFILE_TOOLS.simps)

lemma plain_registry_get: "reg_get plain_registry n = Some spec \<Longrightarrow> spec = plain_tool n"
  by (auto simp: plain_registry_def reg_get_def map_of_map_restrict restrict_map_def simp del: PROFILE_TOOLS.simps split: if_splits)

lemma plain_source_ok: "registry_ok plain_source"
proof -
  have "map fst plain_source = PROFILE_TOOLS Head" by (simp add: plain_source_def o_def del: PROFILE_TOOLS.simps)
  then show ?thesis using profile_tools_distinct [of Head]
    by (auto simp: registry_ok_def dict_ok_def plain_source_def plain_tool_def simp del: PROFILE_TOOLS.simps)
qed

lemma plain_registry_built: "build_profile_registry (profile_value ReadOnlyWorker) plain_source = Inr plain_registry"
proof -
  have "set (PROFILE_TOOLS ReadOnlyWorker) \<subseteq> set (PROFILE_TOOLS Head)" by auto
  then have "\<forall>n \<in> set (PROFILE_TOOLS ReadOnlyWorker). reg_get plain_source n = Some (plain_tool n)"
    by (auto simp: plain_source_get simp del: PROFILE_TOOLS.simps)
  moreover from this have "\<forall>n \<in> set (PROFILE_TOOLS ReadOnlyWorker). reg_contains plain_source n"
    unfolding reg_contains_def reg_get_def by (metis map_of_eq_None_iff option.distinct(1))
  ultimately show ?thesis unfolding profile_registry_spec [OF plain_source_ok]
    by (intro exI [of _ ReadOnlyWorker]) (auto simp: plain_registry_def simp del: PROFILE_TOOLS.simps)
qed

lemma profile_confines_step_witness:
  "as_cwd (ag_world (fst (agent_step plain_env (u ''Hi'') plain_agent))) = u ''/work''"
proof -
  have "as_cwd (ag_world plain_agent) = as_cwd (ag_world (fst (agent_step plain_env (u ''Hi'') plain_agent)))"
  proof (rule profile_confines_step [where R = "\<lambda>st st'. as_cwd st = as_cwd st'", OF plain_source_ok])
    show "build_profile_registry (profile_value ReadOnlyWorker) plain_source = Inr (ag_registry plain_agent)"
      using plain_registry_built by simp
    show "keeps (\<lambda>st st'. as_cwd st = as_cwd st') (sp_function spec b input)"
      if "reg_get plain_source name = Some spec" for name spec b input
      using that by (auto simp: plain_source_get plain_tool_def keeps_def simp del: PROFILE_TOOLS.simps split: if_splits)
  qed (auto simp: reflp_def transp_def keeps_def plain_client_def)
  then show ?thesis by (simp add: plain_state_def)
qed

lemma step_asks_at_most_ten_times_witness:
  "as_rest (ag_world (fst (agent_step plain_env (u ''Hi'') plain_agent))) \<le> 10"
proof -
  have "as_rest (ag_world (fst (agent_step plain_env (u ''Hi'') plain_agent))) \<le> as_rest (ag_world plain_agent) + MAX_STEPS"
    by (rule step_asks_at_most_ten_times) (auto simp: plain_client_def dest!: plain_registry_get simp: plain_tool_def)
  then show ?thesis by (simp add: plain_state_def MAX_STEPS_def)
qed

lemma batch_fails_fast_witness:
  "\<exists>a' rs. run_calls plain_env [\<lparr>call_action = u ''none'', call_input = []\<rparr>, \<lparr>call_action = u ''pwd'', call_input = []\<rparr>] plain_agent = (a', Inr rs) \<and>
     records_of 2 1 [\<lparr>call_action = u ''none'', call_input = []\<rparr>, \<lparr>call_action = u ''pwd'', call_input = []\<rparr>] rs"
  using batch_fails_fast [of plain_env "[\<lparr>call_action = u ''none'', call_input = []\<rparr>, \<lparr>call_action = u ''pwd'', call_input = []\<rparr>]" plain_agent]
  by (auto simp: numeral_2_eq_2)

end
