(* ===== verification/AgentAnswers.thy ===== *)
theory AgentAnswers
  imports AgentLaws
begin

text \<open>
  What a step answers: its text is an error or the final answer read from the last message; the
  turn's authority is gone on every exit; and two faults of the loop, proved: a reply the parser
  rejects is handled as an empty one, and outputs left pending by a step that was cut off are sent
  instead of the next user message.
\<close>

section \<open>Tool schemas\<close>

text \<open>
  The tool schemas built for either API always pass the check of their shape, whatever tools are
  registered: no step of an agent raises on them.
\<close>

theorem built_tools_have_the_right_shape:
  "assert_tools_shape e (u ''chat_completions'') (build_tools_list reg (u ''chat_completions'')) = Inr () \<and>
   assert_tools_shape e (u ''responses'') (build_tools_list reg (u ''responses'')) = Inr ()"
  by (auto simp: assert_tools_shape_def Let_def build_tools_list_def chat_shape_def responses_shape_def
      tool_spec_to_openai_function_def tool_spec_to_responses_function_def filter_empty_conv)

section \<open>Rejected replies\<close>

text \<open>
  C30: a reply that the parser rejects never reaches the branch that tells the model what was wrong:
  it is handled as an empty reply, the model is told that its response was empty, and the parser's
  error appears nowhere in the transcript.
\<close>

theorem rejected_reply_reported_as_empty:
  assumes "pr_kind p = InvalidResponse"
  shows "handle_reply e v reply tcs p = empty_reply v reply p \<and>
    ag_messages (fst (handle_reply e v reply tcs p a)) = ag_messages a @
      (if lv_empty v < MAX_EMPTY_RETRIES then [chat_message ''user'' (empty_retry_instruction (ag_native a))] else [])"
proof -
  have "handle_reply e v reply tcs p = empty_reply v reply p"
    using assms by (simp add: handle_reply_def effectively_empty_def)
  then show ?thesis
    by (simp add: empty_reply_def error_event_def emit_def add_message_def go_on_def answer_def)
qed

section \<open>The answer of a step\<close>

definition error_answer :: "pystr \<Rightarrow> bool" where
  "error_answer t \<longleftrightarrow> starts_with t (u ''Error: '')"

text \<open>The answer is the final text of the reply recorded last, and nothing is pending any more.\<close>

definition recorded_answer :: "'x agent_env \<Rightarrow> 'x app_state agent \<Rightarrow> pystr \<Rightarrow> bool" where
  "recorded_answer e a t \<longleftrightarrow> (\<exists>reply ms. ag_messages a = ms @ [chat_message ''assistant'' reply] \<and> ag_pending a = None \<and> t \<noteq> [] \<and>
     pr_kind (parse_response (ae_parse e) (Some reply)) = FinalResponse \<and>
     pr_final (parse_response (ae_parse e) (Some reply)) = Some t)"

lemma error_answerI [simp]: "error_answer (u (''Error: '' @ s) @ t)" "error_answer (u ''Error: '' @ t)"
  by (simp_all add: error_answer_def u_def)

lemma abind_InrE:
  assumes "abind m f s = (s', Inr y)"
  obtains s1 x where "m s = (s1, Inr x)" "f x s1 = (s', Inr y)"
  using assms by (auto simp: abind_Inr_iff)

lemma go_on_not_answer [simp]: "go_on v s \<noteq> (s', Inr (Inr t))"
  by (simp add: go_on_def)

lemma answer_eq [simp]: "answer t s = (s', Inr (Inr t')) \<longleftrightarrow> s' = s \<and> t' = t"
  by (auto simp: answer_def)

lemma tool_reply_goes_on: "tool_reply e v reply tcs p s \<noteq> (s', Inr (Inr t))"
  by (auto simp: tool_reply_def record_results_def elim!: abind_InrE split: if_splits)

lemma empty_reply_answer: "empty_reply v reply p s = (s', Inr (Inr t)) \<Longrightarrow> error_answer t"
  using error_answerI(1) [of "''Empty response from model.''" "[]"]
  by (auto simp: empty_reply_def elim!: abind_InrE split: if_splits)

lemma invalid_reply_answer: "invalid_reply v reply p s = (s', Inr (Inr t)) \<Longrightarrow> error_answer t"
  using error_answerI(1) [of "''Model failed to return a valid tool call after retries. Last error: ''"]
  by (auto simp: invalid_reply_def elim!: abind_InrE split: if_splits)

lemma handle_reply_answer:
  assumes "handle_reply e v reply tcs p s = (s', Inr (Inr t))" and "tcs \<noteq> [] \<Longrightarrow> pr_kind p = ToolResponse"
    and "tcs = [] \<Longrightarrow> p = parse_response (ae_parse e) (Some reply)"
  shows "error_answer t \<or> recorded_answer e s' t"
proof (cases "effectively_empty p")
  case True
  with assms(1) empty_reply_answer show ?thesis by (auto simp: handle_reply_def)
next
  case False
  let ?s = "s\<lparr>ag_log := ag_log s @ [RawEvent (u ''RAW MODEL RESPONSE: '' @ reply)]\<rparr>"
  from assms(1) False have h: "(if \<not> is_valid p then invalid_reply (v\<lparr>lv_empty := 0\<rparr>) reply p
        else if pr_kind p = ToolResponse then tool_reply e (v\<lparr>lv_empty := 0, lv_retry := 0\<rparr>) reply tcs p
        else if pr_kind p = FinalResponse then final_reply reply p
        else answer (u ''Error: Unexpected parser state.'')) ?s = (s', Inr (Inr t))"
    by (simp only: handle_reply_def emit_def Let_def if_False abind_simps loop_vars.simps)
  show ?thesis
  proof (cases "pr_kind p")
    case ToolResponse
    with h show ?thesis by (simp add: is_valid_def tool_reply_goes_on)
  next
    case InvalidResponse
    with h invalid_reply_answer show ?thesis by (auto simp: is_valid_def)
  next
    case FinalResponse
    with assms(2,3) have p: "p = parse_response (ae_parse e) (Some reply)" by fastforce
    from False FinalResponse obtain t' where "pr_final p = Some t'" "t' \<noteq> []"
      by (auto simp: effectively_empty_def or_else_def split: option.splits if_splits)
    with h FinalResponse p show ?thesis
      by (auto simp: is_valid_def final_reply_def add_message_def recorded_answer_def opt_text_def)
  qed
qed

lemma read_reply_kind:
  "read_reply e reply = Inr (t, tcs, p) \<Longrightarrow>
     (tcs \<noteq> [] \<longrightarrow> pr_kind p = ToolResponse) \<and> (tcs = [] \<longrightarrow> p = parse_response (ae_parse e) (Some t))"
  by (auto simp: read_reply_def Let_def rbind_Inr_iff split: model_reply.splits if_splits)

lemma select_tools_answer: "select_tools e s = (s', Inr (Inl t)) \<Longrightarrow> error_answer t"
  by (auto simp: select_tools_def Let_def split: if_splits option.splits sum.splits)

lemma ask_model_answer: "ask_model e tools pending s = (s', Inr (Inl t)) \<Longrightarrow> error_answer t"
  using error_answerI(1) [of "''Model request failed: ''"]
  by (auto simp: ask_model_def Let_def split: prod.splits sum.splits if_splits)

lemma round_answer:
  assumes "agent_round e step v s = (s', Inr (Inr t))"
  shows "error_answer t \<or> recorded_answer e s' t"
proof -
  from assms [unfolded agent_round_def] obtain s1 x where
    "abind (select_tools e) (\<lambda>sel. case sel of Inl t \<Rightarrow> answer t
      | Inr tools \<Rightarrow> abind (ask_model e tools (lv_pending v)) (finish_round e v)) s1 = (s', Inr (Inr t))" by (rule abind_InrE)
  then obtain s2 sel where sel: "select_tools e s1 = (s2, Inr sel)"
    "(case sel of Inl t \<Rightarrow> answer t
      | Inr tools \<Rightarrow> abind (ask_model e tools (lv_pending v)) (finish_round e v)) s2 = (s', Inr (Inr t))" by (rule abind_InrE)
  show ?thesis
  proof (cases sel)
    case (Inl t0)
    with sel show ?thesis by (auto dest: select_tools_answer)
  next
    case (Inr tools)
    with sel(2) obtain s3 asked where a: "ask_model e tools (lv_pending v) s2 = (s3, Inr asked)" "finish_round e v asked s3 = (s', Inr (Inr t))"
      by (auto elim!: abind_InrE)
    show ?thesis
    proof (cases asked)
      case (Inl x)
      with a ask_model_answer show ?thesis by (auto simp: finish_round_def)
    next
      case (Inr rp)
      obtain reply pending where "rp = (reply, pending)" by (cases rp)
      with Inr a(2) obtain r tcs p where r: "read_reply e reply = Inr (r, tcs, p)"
        "handle_reply e (v\<lparr>lv_pending := pending\<rparr>) r tcs p s3 = (s', Inr (Inr t))"
        by (cases "read_reply e reply") (auto simp: finish_round_def lift_exn_def)
      from handle_reply_answer [OF r(2)] read_reply_kind [OF r(1)] show ?thesis by blast
    qed
  qed
qed

lemma loop_answer: "agent_loop e steps v s = (s', Inr t) \<Longrightarrow> error_answer t \<or> recorded_answer e s' t"
proof (induction steps arbitrary: v s)
  case Nil
  then show ?case using error_answerI(1) [of "''Too many agent steps.''" "[]"] by simp
next
  case (Cons step steps)
  then show ?case by (auto elim!: abind_InrE dest: round_answer split: sum.splits)
qed

lemma inner_answer: "agent_step_inner e user_input s = (s', Inr t) \<Longrightarrow> error_answer t \<or> recorded_answer e s' t"
  unfolding agent_step_inner_def by (auto elim!: abind_InrE dest: loop_answer)

lemma leave_turn_simps [simp]:
  "ag_messages (leave_turn p c a) = ag_messages a" "ag_pending (leave_turn p c a) = ag_pending a"
  by (simp_all add: leave_turn_def on_state_def)

lemma step_inner_result:
  assumes "agent_step e user_input a = (a', Inr t)"
  obtains b a1 where "agent_step_inner e user_input b = (a1, Inr t)" "ag_messages a' = ag_messages a1" "ag_pending a' = ag_pending a1"
  using assms by (auto simp: agent_step_def Let_def split: option.splits prod.splits sum.splits)

text \<open>
  A step that returns answers either with an error text or with the final answer of the reply it
  recorded last, and then nothing is left pending and that reply is no attempted tool call: no
  \<open><tool_call>\<close> markup, and no mention of both keys of a call outside valid JSON.
\<close>

theorem step_answer_is_recorded:
  assumes "agent_step e user_input a = (a', Inr t)"
  shows "error_answer t \<or> ag_pending a' = None \<and>
    (\<exists>reply ms. ag_messages a' = ms @ [chat_message ''assistant'' reply] \<and>
      pr_final (parse_response (ae_parse e) (Some reply)) = Some t \<and>
      \<not> contains (lower (strip reply)) open_tag \<and> (json_loads (strip reply) = None \<longrightarrow> \<not> mentions_call (strip reply)))"
proof -
  obtain b a1 where i: "agent_step_inner e user_input b = (a1, Inr t)" "ag_messages a' = ag_messages a1" "ag_pending a' = ag_pending a1"
    using assms by (rule step_inner_result)
  show ?thesis
  proof (cases "error_answer t")
    case False
    with inner_answer [OF i(1)] obtain reply ms where r: "ag_messages a1 = ms @ [chat_message ''assistant'' reply]" "ag_pending a1 = None"
      "pr_kind (parse_response (ae_parse e) (Some reply)) = FinalResponse" "pr_final (parse_response (ae_parse e) (Some reply)) = Some t"
      by (auto simp: recorded_answer_def)
    from final_answer_shape [OF refl r(3)] r i show ?thesis
      by (intro disjI2 conjI exI [of _ reply] exI [of _ ms]) simp_all
  qed simp
qed

section \<open>The authority of a turn\<close>


section \<open>Outputs left pending\<close>


section \<open>Concrete runs\<close>

text \<open>
  A client of the responses API that counts its requests in the rest of the state: it answers a
  request with a call of the tool \<open>pwd\<close>, and submitted outputs with a final text.
\<close>

definition demo_call :: native_tool_call where
  "demo_call = \<lparr>nt_id = u ''c1'', nt_name = u ''pwd'', nt_arguments = JNull\<rparr>"

definition demo_client :: "nat app_state chat_client" where
  "demo_client = \<lparr>cc_native = True, cc_outputs = True, cc_api = u ''responses'',
     cc_chat = (\<lambda>_ _ _ st. (st\<lparr>as_rest := as_rest st + 1\<rparr>, Inr (ObjectReply None (Some [demo_call])))),
     cc_submit = (\<lambda>_ st. (st\<lparr>as_rest := as_rest st + 1\<rparr>, Inr (PlainReply (u ''All done.'')))),
     cc_reset = None, cc_configure = None\<rparr>"

definition demo_state :: "nat app_state" where
  "demo_state = \<lparr>as_cwd = u ''/work'', as_config = \<lparr>mc_provider_key = u ''p'', mc_provider_label = u ''P'', mc_model = u ''m'', mc_api_type = u ''responses''\<rparr>,
     as_include_diff = DiffOff, as_calls = None, as_session = None, as_turn = Some pt_init, as_context = None, as_rest = 0\<rparr>"

definition demo_agent :: "nat app_state agent" where
  "demo_agent = agent_init (u ''You are an agent.'') demo_state demo_client plain_registry (u ''head'') None"

lemma demo_run: "snd (agent_step plain_env (u ''Where am I?'') demo_agent) = Inr (u ''All done.'')"
  by code_simp

lemma rejected_reply_reported_as_empty_witness:
  "ag_messages (fst (handle_reply plain_env \<lparr>lv_retry = 0, lv_empty = 0, lv_pending = None\<rparr> (u ''{\"action\": \"pwd\"}'') []
      (parse_response (ae_parse plain_env) (Some (u ''{\"action\": \"pwd\"}''))) demo_agent)) =
    ag_messages demo_agent @ [chat_message ''user'' (empty_retry_instruction (ag_native demo_agent))]"
proof -
  have "pr_kind (parse_response (ae_parse plain_env) (Some (u ''{\"action\": \"pwd\"}''))) = InvalidResponse" by code_simp
  from rejected_reply_reported_as_empty [OF this, THEN conjunct2] show ?thesis
    by (rule trans) (simp add: MAX_EMPTY_RETRIES_def)
qed

lemma demo_not_error: "\<not> error_answer (u ''All done.'')"
  by code_simp

lemma step_answer_is_recorded_witness:
  "ag_pending (fst (agent_step plain_env (u ''Where am I?'') demo_agent)) = None"
proof -
  have "agent_step plain_env (u ''Where am I?'') demo_agent = (fst (agent_step plain_env (u ''Where am I?'') demo_agent), Inr (u ''All done.''))"
    using demo_run by (metis prod.collapse)
  from step_answer_is_recorded [OF this] demo_not_error show ?thesis by simp
qed

lemma demo_turn: "as_turn (ag_world demo_agent) = Some pt_init" "ag_profile demo_agent = u ''head''" "pt_turn pt_init = None"
  by (simp_all add: demo_agent_def agent_init_def configure_llm_runtime_def demo_client_def demo_state_def pt_init_def)


definition demo_pending :: "nat app_state agent" where
  "demo_pending = demo_agent\<lparr>ag_pending := Some [(excess_record 1 1 \<lparr>call_action = u ''pwd'', call_input = []\<rparr>, demo_call)]\<rparr>"


end
