(* ===== verification/RepoPath.thy ===== *)
theory RepoPath
  imports PyText
begin

text \<open>
  Portable path components, as \<open>night_shifts/tool_session.py\<close>, \<open>night_shifts/snapshot.py\<close> and
  \<open>night_shifts/guest/repository.py\<close> all define them: the host and the guest check the same rule.
\<close>

definition reserved_names :: "pystr list" where
  "reserved_names = [u ''CON'', u ''PRN'', u ''AUX'', u ''NUL''] @ map (\<lambda>i. u ''COM'' @ [48 + i]) [1..<10] @
     map (\<lambda>i. u ''LPT'' @ [48 + i]) [1..<10]"

text \<open>\<open>[A-Za-z0-9._-]{1,100}\Z\<close>\<close>

definition repo_part :: "pystr \<Rightarrow> bool" where
  "repo_part s \<longleftrightarrow> 1 \<le> length s \<and> length s \<le> 100 \<and> list_all (\<lambda>c. is_alnum c \<or> c \<in> set (u ''._-'')) s"

definition part_refused :: "pystr \<Rightarrow> bool" where
  "part_refused p \<longleftrightarrow> \<not> repo_part p \<or> ends_with p (u ''.'') \<or> lower p = u ''.git'' \<or>
     hd (split_on 46 (upper p)) \<in> set reserved_names"

lemma part_ok_chars: "\<not> part_refused p \<Longrightarrow> c \<in> set p \<Longrightarrow> is_alnum c \<or> c \<in> set (u ''._-'')"
  by (auto simp: part_refused_def repo_part_def list_all_iff)

lemma part_ok_ascii: "\<not> part_refused p \<Longrightarrow> c \<in> set p \<Longrightarrow> c < 128"
  using part_ok_chars [of p c] by (auto simp: is_alnum_def is_digit_def is_lower_letter_def is_upper_letter_def u_def)

lemma part_ok_not_dots: "\<not> part_refused p \<Longrightarrow> p \<noteq> [] \<and> p \<noteq> u ''.'' \<and> p \<noteq> u ''..'' \<and> 47 \<notin> set p"
  using part_ok_chars [of p 47]
  by (auto simp: part_refused_def repo_part_def ends_with_def is_alnum_def is_digit_def is_lower_letter_def is_upper_letter_def u_def)

end
