(* ===== verification/Base64.thy ===== *)
theory Base64
  imports Utf8
begin

text \<open>
  \<open>base64.b64encode\<close> and \<open>base64.b64decode(..., validate=True)\<close>, which the tool session and the
  transfers use.  Decoding is the strict mode of \<open>binascii.a2b_base64\<close>: groups of four alphabet
  characters, the last of which may end in \<open>=\<close> or \<open>==\<close>; the unused low bits of a padded group
  are ignored.
\<close>

definition b64_char :: "nat \<Rightarrow> pychar" where
  "b64_char n = (if n < 26 then 65 + n else if n < 52 then 71 + n else if n < 62 then n - 4 else if n = 62 then 43 else 47)"

definition b64_value :: "pychar \<Rightarrow> nat option" where
  "b64_value c = (if 65 \<le> c \<and> c \<le> 90 then Some (c - 65) else if 97 \<le> c \<and> c \<le> 122 then Some (c - 71)
     else if 48 \<le> c \<and> c \<le> 57 then Some (c + 4) else if c = 43 then Some 62 else if c = 47 then Some 63 else None)"

lemma b64_value_char [simp]: "n < 64 \<Longrightarrow> b64_value (b64_char n) = Some n"
  by (auto simp: b64_value_def b64_char_def)

lemma b64_char_not_pad [simp]: "b64_char n \<noteq> 61"
  by (auto simp: b64_char_def)

fun b64_encode :: "bytes \<Rightarrow> pystr" where
  "b64_encode [] = []"
| "b64_encode [a] = (let n = unat a * 65536 in
     [b64_char (n div 262144), b64_char (n div 4096 mod 64), 61, 61])"
| "b64_encode [a, b] = (let n = unat a * 65536 + unat b * 256 in
     [b64_char (n div 262144), b64_char (n div 4096 mod 64), b64_char (n div 64 mod 64), 61])"
| "b64_encode (a # b # c # r) = (let n = unat a * 65536 + unat b * 256 + unat c in
     b64_char (n div 262144) # b64_char (n div 4096 mod 64) # b64_char (n div 64 mod 64) # b64_char (n mod 64) #
     b64_encode r)"

fun b64_decode :: "pystr \<Rightarrow> bytes option" where
  "b64_decode [] = Some []"
| "b64_decode (w # x # y # z # r) =
     (case (b64_value w, b64_value x) of
        (Some i, Some j) \<Rightarrow>
          (case b64_value y of
             None \<Rightarrow> (if y = 61 \<and> z = 61 \<and> r = []
                       then Some [of_nat ((i * 262144 + j * 4096) div 65536)] else None)
           | Some k \<Rightarrow>
               (case b64_value z of
                  None \<Rightarrow> (if z = 61 \<and> r = []
                            then let n = i * 262144 + j * 4096 + k * 64 in
                                 Some [of_nat (n div 65536), of_nat (n div 256 mod 256)] else None)
                | Some l \<Rightarrow>
                    (let n = i * 262144 + j * 4096 + k * 64 + l in
                     map_option (\<lambda>bs. of_nat (n div 65536) # of_nat (n div 256 mod 256) # of_nat (n mod 256) # bs)
                       (b64_decode r))))
      | _ \<Rightarrow> None)"
| "b64_decode _ = None"

lemma unat_byte [simp]: "unat (a :: 8 word) < 256"
  by (rule order.strict_trans2 [OF unsigned_less]) simp

lemma quot_rem: "r < k \<Longrightarrow> (q * k + r) div k = q \<and> (q * k + r) mod k = (r::nat)"
  by simp

lemma sextets: "n div 262144 * 262144 + n div 4096 mod 64 * 4096 + n div 64 mod 64 * 64 + n mod 64 = (n::nat)"
proof -
  have e: "n div 4096 = n div 64 div 64" "n div 262144 = n div 64 div 64 div 64"
    by (simp_all add: div_mult2_eq [symmetric])
  have "z * 262144 + c * 4096 + b * 64 + a = n" if "n = x * 64 + a" "x = y * 64 + b" "y = z * 64 + c"
    for x y z a b c :: nat using that by simp
  then show ?thesis unfolding e by (metis div_mult_mod_eq)
qed

lemma octets:
  fixes a b c :: nat
  assumes "a < 256" and "b < 256" and "c < 256"
  shows "(a * 65536 + b * 256 + c) div 65536 = a" "(a * 65536 + b * 256 + c) div 256 mod 256 = b"
    "(a * 65536 + b * 256 + c) mod 256 = c" "(a * 65536 + b * 256 + c) div 262144 < 64"
proof -
  have "b * 256 + c < 65536" using assms by linarith
  from quot_rem [OF this, of a] show d: "(a * 65536 + b * 256 + c) div 65536 = a" by (simp add: add.assoc)
  have e: "a * 65536 + b * 256 + c = (a * 256 + b) * 256 + c" by simp
  show "(a * 65536 + b * 256 + c) mod 256 = c" unfolding e using quot_rem [OF assms(3)] by blast
  have "(a * 65536 + b * 256 + c) div 256 = a * 256 + b" unfolding e using quot_rem [OF assms(3)] by blast
  then show "(a * 65536 + b * 256 + c) div 256 mod 256 = b" using quot_rem [OF assms(2)] by simp
  have "(a * 65536 + b * 256 + c) div 262144 = a div 4"
    using d div_mult2_eq [of "a * 65536 + b * 256 + c" 65536 4] by simp
  then show "(a * 65536 + b * 256 + c) div 262144 < 64" using assms(1) by simp
qed

lemma b64_pad [simp]: "b64_value 61 = None"
  by (simp add: b64_value_def)

lemma b64_roundtrip: "b64_decode (b64_encode bs) = Some bs"
proof (induction bs rule: b64_encode.induct)
  case (2 a)
  let ?n = "unat a * 65536"
  have n: "?n div 65536 = unat a" "?n div 262144 < 64" using octets [of "unat a" 0 0] by simp_all
  have "?n = unat a * 1024 * 64" "unat a * 1024 = unat a * 16 * 64" by simp_all
  then have "?n div 64 mod 64 = 0" "?n mod 64 = 0" by (metis div_mult_self_is_m mod_mult_self2_is_0 zero_less_numeral)+
  then have "?n div 262144 * 262144 + ?n div 4096 mod 64 * 4096 = ?n" using sextets [of ?n] by linarith
  with n show ?case by (simp add: Let_def)
next
  case (3 a b)
  let ?n = "unat a * 65536 + unat b * 256"
  have n: "?n div 65536 = unat a" "?n div 256 mod 256 = unat b" "?n div 262144 < 64"
    using octets [of "unat a" "unat b" 0] by simp_all
  have "?n = (unat a * 1024 + unat b * 4) * 64" by simp
  then have "?n mod 64 = 0" by (metis mod_mult_self2_is_0)
  then have "?n div 262144 * 262144 + ?n div 4096 mod 64 * 4096 + ?n div 64 mod 64 * 64 = ?n"
    using sextets [of ?n] by linarith
  with n show ?case by (simp add: Let_def)
next
  case (4 a b c r)
  let ?n = "unat a * 65536 + unat b * 256 + unat c"
  have n: "?n div 65536 = unat a" "?n div 256 mod 256 = unat b" "?n mod 256 = unat c" "?n div 262144 < 64"
    using octets [of "unat a" "unat b" "unat c"] by simp_all
  then show ?case using 4 sextets [of ?n] by (simp add: Let_def)
qed simp

lemma length_b64_encode: "length (b64_encode bs) = (length bs + 2) div 3 * 4"
proof (induction bs rule: b64_encode.induct)
  case (4 a b c r)
  have "(5 + n) div 3 = Suc (Suc (Suc n) div 3)" for n :: nat by simp
  with 4 show ?case by (simp add: Let_def)
qed (simp_all add: Let_def)

lemma b64_ascii: "c \<in> set (b64_encode bs) \<Longrightarrow> c < 128 \<and> c \<noteq> 34 \<and> c \<noteq> 92 \<and> 32 \<le> c"
proof -
  have ch: "b64_char n < 128 \<and> b64_char n \<noteq> 34 \<and> b64_char n \<noteq> 92 \<and> 32 \<le> b64_char n" if "n < 64" for n
    using that by (auto simp: b64_char_def)
  have d: "n div 4096 mod 64 < 64" "n div 64 mod 64 < 64" "n mod 64 < 64" for n :: nat by simp_all
  show "c \<in> set (b64_encode bs) \<Longrightarrow> c < 128 \<and> c \<noteq> 34 \<and> c \<noteq> 92 \<and> 32 \<le> c"
  proof (induction bs rule: b64_encode.induct)
    case (2 a)
    have "unat a * 65536 div 262144 < 64" using octets(4) [of "unat a" 0 0] by simp
    with 2 show ?case using ch [OF d(1)] ch by (auto simp: Let_def)
  next
    case (3 a b)
    have "(unat a * 65536 + unat b * 256) div 262144 < 64" using octets(4) [of "unat a" "unat b" 0] by simp
    with 3 show ?case using ch [OF d(1)] ch [OF d(2)] ch by (auto simp: Let_def)
  next
    case (4 a b c' r)
    have "(unat a * 65536 + unat b * 256 + unat c') div 262144 < 64" using octets(4) [of "unat a" "unat b" "unat c'"] by simp
    with 4 show ?case using ch [OF d(1)] ch [OF d(2)] ch [OF d(3)] ch by (auto simp: Let_def)
  qed simp
qed

end
