(* ===== verification/Snapshot.thy ===== *)
theory Snapshot
  imports RepoPath Base64 Json
begin

text \<open>
  \<open>night_shifts/snapshot.py\<close>: the canonical encoding of a repository snapshot, and its export from
  an exactly approved commit.  SHA-256 is a parameter \<open>sha\<close> that maps bytes to the number its digest
  spells; Git is a parameter that maps arguments and an output limit to bytes or an error.
\<close>

section \<open>State\<close>

definition MAX_SNAPSHOT_BYTES :: nat where "MAX_SNAPSHOT_BYTES = 4 * 1024 * 1024"
definition MAX_FILES :: nat where "MAX_FILES = 64"
definition MAX_FILE_BYTES :: nat where "MAX_FILE_BYTES = 256 * 1024"
definition MAX_CONTENT_BYTES :: nat where "MAX_CONTENT_BYTES = 2 * 1024 * 1024"
definition MAX_LISTING_BYTES :: nat where "MAX_LISTING_BYTES = 64 * 1024"

record snapshot_file =
  sf_path :: pystr
  sf_mode :: pystr
  sf_content :: bytes

record snapshot =
  ss_job_id :: pystr
  ss_repository_id :: pystr
  ss_revision :: pystr
  ss_image_sha256 :: pystr
  ss_files :: "snapshot_file list"

text \<open>
  \<open>SnapshotError\<close> with its text; \<open>SnapshotJson\<close> stands for its three texts on unreadable JSON.
  \<open>RepositoryUnknown\<close> is the \<open>WorkspaceError\<close> of the registry, \<open>ObjectNotAscii\<close> the
  \<open>UnicodeDecodeError\<close> of an object name that is no ASCII.
\<close>

datatype snapshot_error = SnapshotError pystr | SnapshotJson | RepositoryUnknown pystr | ObjectNotAscii

definition snap_check :: "bool \<Rightarrow> pystr \<Rightarrow> snapshot_error + unit" where
  "snap_check b t = require b (SnapshotError t)"

definition commit_id :: "pystr \<Rightarrow> bool" where
  "commit_id s \<longleftrightarrow> hex_exactly 40 s \<or> hex_exactly 64 s"

text \<open>\<open>[a-z0-9][a-z0-9._-]{0,63}\Z\<close>\<close>

definition slug :: "pystr \<Rightarrow> bool" where
  "slug s \<longleftrightarrow> (case s of [] \<Rightarrow> False
     | c # r \<Rightarrow> (is_lower_letter c \<or> is_digit c) \<and> length r \<le> 63 \<and>
         list_all (\<lambda>d. is_lower_letter d \<or> is_digit d \<or> d \<in> set (u ''._-'')) r)"

text \<open>Bytes of an ASCII text, and the hexadecimal digest of a hash value.\<close>

definition ascii_bytes :: "pystr \<Rightarrow> bytes" where
  "ascii_bytes s = map word_of_nat s"

fun hex_number :: "nat \<Rightarrow> nat \<Rightarrow> pystr" where
  "hex_number 0 v = []"
| "hex_number (Suc n) v = hex_number n (v div 16) @ [hex_digit (v mod 16)]"

definition hexdigest :: "(bytes \<Rightarrow> nat) \<Rightarrow> bytes \<Rightarrow> pystr" where
  "hexdigest sha b = hex_number 64 (sha b)"

section \<open>Validation\<close>

definition snapshot_path :: "pystr \<Rightarrow> snapshot_error + unit" where
  "snapshot_path v = snap_check
     (\<not> (240 < length v \<or> starts_with v (u ''/'') \<or> list_ex part_refused (split_on 47 v)))
     (u ''snapshot path is not portable and relative'')"

definition file_modes :: "pystr list" where
  "file_modes = [u ''100644'', u ''100755'']"

definition lfs_prefix :: bytes where
  "lfs_prefix = ascii_bytes (u ''version https://git-lfs.github.com/spec/v1'')"

text \<open>A path that passed has only ASCII characters: its \<open>casefold\<close> is its lower case.\<close>

fun files_loop :: "pystr list \<Rightarrow> nat \<Rightarrow> snapshot_file list \<Rightarrow> snapshot_error + unit" where
  "files_loop seen total0 [] = Inr ()"
| "files_loop seen total0 (f # fs) =
     rbind (snapshot_path (sf_path f)) (\<lambda>_.
     rbind (snap_check (lower (sf_path f) \<notin> set seen \<and> sf_mode f \<in> set file_modes)
       (u ''duplicate path or unsupported file mode'')) (\<lambda>_.
     rbind (snap_check (\<not> (MAX_FILE_BYTES < length (sf_content f) \<or> 0 \<in> set (sf_content f) \<or> prefix lfs_prefix (sf_content f)))
       (u ''binary, LFS pointer or oversized file is unsupported'')) (\<lambda>_.
     rbind (snap_check (utf8_decode (sf_content f) \<noteq> None) (u ''non-UTF-8 file is unsupported'')) (\<lambda>_.
     let t = total0 + length (sf_content f) in
     rbind (snap_check (t \<le> MAX_CONTENT_BYTES) (u ''snapshot content is too large'')) (\<lambda>_.
     files_loop (lower (sf_path f) # seen) t fs)))))"

definition files_valid :: "snapshot_file list \<Rightarrow> bool \<Rightarrow> snapshot_error + unit" where
  "files_valid files allow_empty =
     rbind (snap_check ((allow_empty \<or> 0 < length files) \<and> length files \<le> MAX_FILES) (u ''snapshot file count is invalid'')) (\<lambda>_.
     files_loop [] 0 files)"

definition parents :: "pystr \<Rightarrow> pystr list" where
  "parents p = (let ps = split_on 47 p in map (\<lambda>n. join [47] (take n ps)) [1..<length ps])"

definition validate_workspace_files :: "snapshot_file list \<Rightarrow> snapshot_error + unit" where
  "validate_workspace_files files =
     rbind (files_valid files True) (\<lambda>_.
     rbind (snap_check (sort_key sf_path files = files) (u ''workspace entries must be sorted'')) (\<lambda>_.
     snap_check (\<not> list_ex (\<lambda>p. list_ex (\<lambda>q. q \<in> sf_path ` set files) (parents p)) (map sf_path files))
       (u ''workspace file conflicts with a directory'')))"

section \<open>Encoding and decoding\<close>

definition file_json :: "(bytes \<Rightarrow> nat) \<Rightarrow> snapshot_file \<Rightarrow> json" where
  "file_json sha f = JObj [(u ''path'', JStr (sf_path f)), (u ''mode'', JStr (sf_mode f)),
     (u ''sha256'', JStr (hexdigest sha (sf_content f))), (u ''data'', JStr (b64_encode (sf_content f)))]"

definition snapshot_json :: "(bytes \<Rightarrow> nat) \<Rightarrow> snapshot \<Rightarrow> json" where
  "snapshot_json sha s = JObj [(u ''version'', JInt 1), (u ''job_id'', JStr (ss_job_id s)),
     (u ''repository_id'', JStr (ss_repository_id s)), (u ''revision'', JStr (ss_revision s)),
     (u ''image_sha256'', JStr (ss_image_sha256 s)), (u ''files'', JArr (map (file_json sha) (ss_files s)))]"

definition canonical_bytes :: "json \<Rightarrow> bytes" where
  "canonical_bytes j = ascii_bytes (dumps True (sort_keys j))"

definition identity_ok :: "snapshot \<Rightarrow> bool" where
  "identity_ok s \<longleftrightarrow> hex_exactly 32 (ss_job_id s) \<and> slug (ss_repository_id s) \<and> commit_id (ss_revision s) \<and>
     hex_exactly 64 (ss_image_sha256 s)"

definition encode_snapshot :: "(bytes \<Rightarrow> nat) \<Rightarrow> snapshot \<Rightarrow> snapshot_error + bytes" where
  "encode_snapshot sha s =
     rbind (snap_check (identity_ok s) (u ''snapshot identity or image digest is invalid'')) (\<lambda>_.
     rbind (files_valid (ss_files s) False) (\<lambda>_.
     rbind (snap_check (sort_key sf_path (ss_files s) = ss_files s) (u ''snapshot entries must be sorted'')) (\<lambda>_.
     let result = canonical_bytes (snapshot_json sha s) in
     rbind (snap_check (length result \<le> MAX_SNAPSHOT_BYTES) (u ''encoded snapshot exceeds transfer limit'')) (\<lambda>_.
     Inr result))))"

text \<open>One file record; the three texts are its errors.\<close>

definition decode_file :: "(bytes \<Rightarrow> nat) \<Rightarrow> (pystr \<Rightarrow> 'e) \<Rightarrow> pystr \<times> pystr \<times> pystr \<Rightarrow> json \<Rightarrow> 'e + snapshot_file" where
  "decode_file sha err texts entry = (case texts of (invalid, encoding, digest) \<Rightarrow> (case entry of
     JObj d \<Rightarrow>
       (if fst ` set d \<noteq> {u ''path'', u ''mode'', u ''sha256'', u ''data''} then Inl (err invalid)
        else (case (map_of d (u ''path''), map_of d (u ''mode''), map_of d (u ''sha256''), map_of d (u ''data'')) of
            (Some (JStr p), Some (JStr m), Some (JStr h), Some (JStr t)) \<Rightarrow>
              if \<not> hex_exactly 64 h \<or> 4 * MAX_FILE_BYTES div 3 + 4 < length t then Inl (err invalid)
              else (case b64_decode t of
                  None \<Rightarrow> Inl (err encoding)
                | Some content \<Rightarrow> (if hexdigest sha content \<noteq> h then Inl (err digest)
                    else Inr \<lparr>sf_path = p, sf_mode = m, sf_content = content\<rparr>))
          | _ \<Rightarrow> Inl (err invalid)))
   | _ \<Rightarrow> Inl (err invalid)))"

definition read_object :: "bytes \<Rightarrow> (pystr \<times> json) list option option" where
  "read_object data = (case utf8_decode data of None \<Rightarrow> None
     | Some t \<Rightarrow> (case json_loads_strict t of None \<Rightarrow> None
         | Some (JObj d) \<Rightarrow> Some (Some d) | Some _ \<Rightarrow> Some None))"

text \<open>The snapshot of an envelope, unless one of its identity fields is no string.\<close>

definition snapshot_of :: "(pystr \<times> json) list \<Rightarrow> snapshot_file list \<Rightarrow> snapshot option" where
  "snapshot_of d files = (case (map_of d (u ''job_id''), map_of d (u ''repository_id''), map_of d (u ''revision''), map_of d (u ''image_sha256'')) of
     (Some (JStr jid), Some (JStr rid), Some (JStr rev0), Some (JStr img)) \<Rightarrow>
       Some \<lparr>ss_job_id = jid, ss_repository_id = rid, ss_revision = rev0, ss_image_sha256 = img, ss_files = files\<rparr>
   | _ \<Rightarrow> None)"

definition decode_snapshot :: "(bytes \<Rightarrow> nat) \<Rightarrow> bytes \<Rightarrow> snapshot_error + snapshot" where
  "decode_snapshot sha data =
     rbind (snap_check (length data \<le> MAX_SNAPSHOT_BYTES) (u ''snapshot transfer exceeds limit'')) (\<lambda>_.
     case read_object data of
       None \<Rightarrow> Inl SnapshotJson
     | Some payload \<Rightarrow> (case payload of None \<Rightarrow> Inl (SnapshotError (u ''snapshot envelope is invalid''))
         | Some d \<Rightarrow>
             rbind (snap_check (fst ` set d = {u ''version'', u ''job_id'', u ''repository_id'', u ''revision'', u ''image_sha256'', u ''files''}
                 \<and> map_of d (u ''version'') = Some (JInt 1)) (u ''snapshot envelope is invalid'')) (\<lambda>_.
             case map_of d (u ''files'') of
               Some (JArr js) \<Rightarrow>
                 rbind (snap_check (length js \<le> MAX_FILES) (u ''snapshot envelope is invalid'')) (\<lambda>_.
                 rbind (map_res (decode_file sha SnapshotError (u ''snapshot file record is invalid'',
                   u ''snapshot file encoding is invalid'', u ''snapshot file digest mismatch'')) js) (\<lambda>files.
                 case snapshot_of d files of
                   None \<Rightarrow> Inl (SnapshotError (u ''snapshot identity or image digest is invalid''))
                 | Some s \<Rightarrow>
                     rbind (encode_snapshot sha s) (\<lambda>again.
                     rbind (snap_check (again = data) (u ''snapshot encoding is not canonical'')) (\<lambda>_. Inr s))))
             | _ \<Rightarrow> Inl (SnapshotError (u ''snapshot envelope is invalid'')))))"

section \<open>Canonical JSON bytes\<close>

lemma rbind_snap_check [simp]: "rbind (snap_check b t) f = Inr y \<longleftrightarrow> b \<and> f () = Inr y" "snap_check b t = Inr x \<longleftrightarrow> b"
  by (simp_all add: snap_check_def)

lemma hex_digit_hex: "d < 16 \<Longrightarrow> is_hex (hex_digit d)"
  by (auto simp: hex_digit_def is_hex_def is_digit_def)

lemma hex_number_hex: "hex_exactly n (hex_number n v)"
  by (induction n arbitrary: v) (simp_all add: hex_exactly_def hex_digit_hex)

lemma hexdigest_hex [simp]: "hex_exactly 64 (hexdigest sha b)"
  unfolding hexdigest_def by (rule hex_number_hex)

lemma hex_exactly_ascii: "hex_exactly n s \<Longrightarrow> c \<in> set s \<Longrightarrow> c < 128"
  by (fastforce simp: hex_exactly_def list_all_iff is_hex_def is_digit_def)

lemma slug_ascii: "slug s \<Longrightarrow> c \<in> set s \<Longrightarrow> c < 128"
  by (auto simp: slug_def list_all_iff is_lower_letter_def is_digit_def u_def split: list.splits)

lemma snapshot_path_ascii:
  assumes "snapshot_path p = Inr ()" "c \<in> set p"
  shows "c < 128"
proof -
  from assms(2) have "c \<in> set (join [47] (split_on 47 p))" by (simp add: join_split_on)
  then have "c = 47 \<or> (\<exists>w \<in> set (split_on 47 p). c \<in> set w)"
  proof (induction "split_on 47 p" arbitrary: p)
    case Nil
    then show ?case by simp
  next
    case (Cons w ws)
    show ?case
    proof (rule ccontr)
      assume n: "\<not> (c = 47 \<or> (\<exists>w \<in> set (split_on 47 p). c \<in> set w))"
      have "set (join [47] vs) \<subseteq> insert 47 (\<Union> (set ` set vs))" for vs :: "pystr list"
        by (induction "[47] :: pystr" vs rule: join.induct) auto
      with Cons.prems n show False by blast
    qed
  qed
  with assms(1) show ?thesis by (auto simp: snapshot_path_def list_ex_iff dest: part_ok_ascii)
qed

lemma utf8_decode_ascii: "\<forall>c \<in> set s. c < 128 \<Longrightarrow> utf8_decode (ascii_bytes s) = Some s"
proof -
  assume a: "\<forall>c \<in> set s. c < 128"
  then have "concat (map utf8_char s) = s" by (induction s) (auto simp: utf8_char_def)
  moreover from a have "utf8_ok s" by (auto simp: utf8_ok_def list_all_iff is_scalar_def is_surrogate_def)
  ultimately have "utf8_encode s = Some (ascii_bytes s)" by (simp add: utf8_encode_def ascii_bytes_def)
  then show ?thesis by (rule utf8_roundtrip)
qed

text \<open>Values without floats and with ASCII strings print as ASCII text.\<close>

fun ascii_json :: "json \<Rightarrow> bool" where
  "ascii_json (JStr s) = (\<forall>c \<in> set s. c < 128)"
| "ascii_json (JFloat f) = False"
| "ascii_json (JArr js) = list_all ascii_json js"
| "ascii_json (JObj ms) = list_all (\<lambda>(k, j). (\<forall>c \<in> set k. c < 128) \<and> ascii_json j) ms"
| "ascii_json j = True"

lemma ascii_printable: "ascii_json j \<Longrightarrow> printable True j"
  by (induction j rule: ascii_json.induct) (fastforce simp: list_all_iff)+

lemma decode_canonical:
  assumes "printable True j" "dicts_ok j"
  shows "utf8_decode (canonical_bytes j) = Some (dumps True (sort_keys j))"
    and "json_loads (dumps True (sort_keys j)) = Some (sort_keys j)"
    and "json_loads_strict (dumps True (sort_keys j)) = Some (sort_keys j)"
    and "0 \<notin> set (canonical_bytes j)" "\<forall>b \<in> set (canonical_bytes j). b < 128"
proof -
  note p = printable_sort_keys [OF assms(1)] dicts_ok_sort_keys [OF assms(2)]
  from dumps_ascii(1) [OF _ p(1)] have a: "\<forall>c \<in> set (dumps True (sort_keys j)). 0 < c \<and> c < 128" by simp
  then show "utf8_decode (canonical_bytes j) = Some (dumps True (sort_keys j))"
    unfolding canonical_bytes_def by (simp add: utf8_decode_ascii)
  show "json_loads (dumps True (sort_keys j)) = Some (sort_keys j)"
    "json_loads_strict (dumps True (sort_keys j)) = Some (sort_keys j)" using p by (simp_all add: json_roundtrip json_roundtrip_strict)
  have "word_of_nat c \<noteq> (0 :: 8 word) \<and> word_of_nat c < (128 :: 8 word)" if "0 < c" "c < 128" for c
    using that by (auto simp: word_of_nat_eq_0_iff word_less_nat_alt unat_of_nat dest: nat_dvd_not_less)
  with a show "0 \<notin> set (canonical_bytes j)" "\<forall>b \<in> set (canonical_bytes j). b < 128"
    unfolding canonical_bytes_def ascii_bytes_def by fastforce+
qed

lemma read_canonical:
  assumes "ascii_json (JObj ms)" "dicts_ok (JObj ms)"
  shows "\<exists>d. read_object (canonical_bytes (JObj ms)) = Some (Some d) \<and> fst ` set d = fst ` set ms \<and>
    (\<forall>k. map_of d k = map_option sort_keys (map_of ms k))"
proof -
  let ?ms = "map (\<lambda>(k, j). (k, sort_keys j)) ms"
  let ?d = "sort_key fst ?ms"
  have f: "map fst ?ms = map fst ms" by auto
  have e: "sort_keys (JObj ms) = JObj ?d" by simp
  have "json_loads_strict (dumps True (JObj ?d)) = Some (JObj ?d)"
    "utf8_decode (canonical_bytes (JObj ms)) = Some (dumps True (JObj ?d))"
    using decode_canonical [OF ascii_printable [OF assms(1)] assms(2)] unfolding e by blast+
  moreover have "map_of ?d k = map_option sort_keys (map_of ms k)" for k
  proof -
    have "distinct (map fst ms)" using assms(2) by (simp add: dict_ok_def)
    then have "map_of ?d = map_of ?ms" by (intro map_of_sort_key) (simp only: f)
    then show ?thesis by (simp add: map_of_map)
  qed
  moreover have "fst ` set ?d = fst ` set ms" by force
  ultimately show ?thesis by (auto simp: read_object_def)
qed

section \<open>Decoding inverts encoding\<close>

definition file_ok :: "snapshot_file \<Rightarrow> bool" where
  "file_ok f \<longleftrightarrow> snapshot_path (sf_path f) = Inr () \<and> sf_mode f \<in> set file_modes \<and> length (sf_content f) \<le> MAX_FILE_BYTES \<and>
     0 \<notin> set (sf_content f) \<and> utf8_decode (sf_content f) \<noteq> None"

lemma files_loop_ok:
  "files_loop seen t fs = Inr () \<Longrightarrow> (\<forall>f \<in> set fs. file_ok f \<and> lower (sf_path f) \<notin> set seen) \<and> distinct (map (lower \<circ> sf_path) fs)"
  by (induction fs arbitrary: seen t) (fastforce simp: file_ok_def Let_def rbind_Inr_iff snap_check_def)+

lemma files_valid_ok:
  "files_valid fs b = Inr () \<Longrightarrow> (\<forall>f \<in> set fs. file_ok f) \<and> distinct (map sf_path fs) \<and> length fs \<le> MAX_FILES"
proof -
  assume "files_valid fs b = Inr ()"
  then have l: "files_loop [] 0 fs = Inr ()" "length fs \<le> MAX_FILES" by (auto simp: files_valid_def)
  from files_loop_ok [OF l(1)] have d: "\<forall>f \<in> set fs. file_ok f" "distinct (map lower (map sf_path fs))" by simp_all
  from d(2) have "distinct (map sf_path fs)" unfolding distinct_map [of lower "map sf_path fs"] by blast
  with d l show ?thesis by blast
qed

lemma ascii_json_str: "ascii_json (JStr s) \<longleftrightarrow> (\<forall>c \<in> set s. c < 128)"
  by simp

lemma keys_ascii [simp]: "\<forall>c \<in> set (u ''path''). c < 128" "\<forall>c \<in> set (u ''mode''). c < 128" "\<forall>c \<in> set (u ''sha256''). c < 128"
  "\<forall>c \<in> set (u ''data''). c < 128" "\<forall>c \<in> set (u ''version''). c < 128" "\<forall>c \<in> set (u ''job_id''). c < 128"
  "\<forall>c \<in> set (u ''repository_id''). c < 128" "\<forall>c \<in> set (u ''revision''). c < 128" "\<forall>c \<in> set (u ''image_sha256''). c < 128"
  "\<forall>c \<in> set (u ''files''). c < 128" "\<forall>c \<in> set (u ''100644''). c < 128" "\<forall>c \<in> set (u ''100755''). c < 128"
  by code_simp+

lemma file_json_ascii: "file_ok f \<Longrightarrow> ascii_json (file_json sha f) \<and> dicts_ok (file_json sha f)"
  using snapshot_path_ascii [of "sf_path f"] hex_exactly_ascii [OF hexdigest_hex, of _ sha "sf_content f"] b64_ascii [of _ "sf_content f"]
  by (auto simp: file_json_def file_ok_def dict_ok_def file_modes_def)

lemma decode_file_json:
  assumes "file_ok f"
  shows "decode_file sha err texts (sort_keys (file_json sha f)) = Inr f"
proof -
  let ?ms = "[(u ''path'', JStr (sf_path f)), (u ''mode'', JStr (sf_mode f)),
     (u ''sha256'', JStr (hexdigest sha (sf_content f))), (u ''data'', JStr (b64_encode (sf_content f)))]"
  obtain d where d: "sort_keys (file_json sha f) = JObj d" "map_of d = map_of (map (\<lambda>(k, j). (k, sort_keys j)) ?ms)"
    "fst ` set d = {u ''path'', u ''mode'', u ''sha256'', u ''data''}"
  proof
    let ?d = "sort_key fst (map (\<lambda>(k, j). (k, sort_keys j)) ?ms)"
    show "sort_keys (file_json sha f) = JObj ?d" by (simp add: file_json_def)
    show "map_of ?d = map_of (map (\<lambda>(k, j). (k, sort_keys j)) ?ms)" by (rule map_of_sort_key) simp
    show "fst ` set ?d = {u ''path'', u ''mode'', u ''sha256'', u ''data''}" by auto
  qed
  have l: "length (b64_encode (sf_content f)) \<le> 4 * MAX_FILE_BYTES div 3 + 4"
  proof -
    have "length (sf_content f) + 2 \<le> 262146" using assms by (simp add: file_ok_def MAX_FILE_BYTES_def)
    then have "(length (sf_content f) + 2) div 3 \<le> 87382" using div_le_mono [of "length (sf_content f) + 2" 262146 3] by simp
    then show ?thesis by (simp add: length_b64_encode MAX_FILE_BYTES_def)
  qed
  show ?thesis using l by (cases texts) (simp add: decode_file_def d b64_roundtrip)
qed

lemma decode_files_json:
  "\<forall>f \<in> set fs. file_ok f \<Longrightarrow> map_res (decode_file sha err texts) (map (sort_keys \<circ> file_json sha) fs) = Inr fs"
  by (induction fs) (simp_all add: decode_file_json)

lemma encode_snapshot_Inr:
  "encode_snapshot sha s = Inr d \<longleftrightarrow> identity_ok s \<and> files_valid (ss_files s) False = Inr () \<and>
     sort_key sf_path (ss_files s) = ss_files s \<and> length (canonical_bytes (snapshot_json sha s)) \<le> MAX_SNAPSHOT_BYTES \<and>
     canonical_bytes (snapshot_json sha s) = d"
  by (auto simp: encode_snapshot_def Let_def rbind_Inr_iff snap_check_def)

lemma snapshot_json_ascii:
  assumes "identity_ok s" "\<forall>f \<in> set (ss_files s). file_ok f"
  shows "ascii_json (snapshot_json sha s) \<and> dicts_ok (snapshot_json sha s)"
  using assms file_json_ascii
  by (auto simp: snapshot_json_def identity_ok_def commit_id_def dict_ok_def list_all_iff dest: hex_exactly_ascii slug_ascii)

lemma decode_encode: "encode_snapshot sha s = Inr d \<Longrightarrow> decode_snapshot sha d = Inr s"
proof -
  assume enc: "encode_snapshot sha s = Inr d"
  from enc [unfolded encode_snapshot_Inr] have e: "identity_ok s" "files_valid (ss_files s) False = Inr ()" "length d \<le> MAX_SNAPSHOT_BYTES"
    "canonical_bytes (snapshot_json sha s) = d" by blast+
  from files_valid_ok [OF e(2)] have f: "\<forall>f \<in> set (ss_files s). file_ok f" "length (ss_files s) \<le> MAX_FILES" by blast+
  let ?ms = "[(u ''version'', JInt 1), (u ''job_id'', JStr (ss_job_id s)),
     (u ''repository_id'', JStr (ss_repository_id s)), (u ''revision'', JStr (ss_revision s)),
     (u ''image_sha256'', JStr (ss_image_sha256 s)), (u ''files'', JArr (map (file_json sha) (ss_files s)))]"
  have j: "snapshot_json sha s = JObj ?ms" by (simp add: snapshot_json_def)
  from snapshot_json_ascii [OF e(1) f(1), of sha] have "ascii_json (JObj ?ms)" "dicts_ok (JObj ?ms)" unfolding j by blast+
  from read_canonical [OF this] obtain ms where r: "read_object d = Some (Some ms)" "fst ` set ms = fst ` set ?ms"
    "\<forall>k. map_of ms k = map_option sort_keys (map_of ?ms k)"
    unfolding j [symmetric] e(4) by (elim exE conjE) (rule that)
  have k: "fst ` set ms = {u ''version'', u ''job_id'', u ''repository_id'', u ''revision'', u ''image_sha256'', u ''files''}"
    unfolding r(2) by auto
  have s: "snapshot_of ms (ss_files s) = Some s" by (simp add: snapshot_of_def r(3))
  show ?thesis
    unfolding decode_snapshot_def using e(3) f(2)
    by (simp add: r(1,3) k decode_files_json [OF f(1), simplified o_def] o_def s enc snap_check_def)
qed

lemma decode_is_canonical: "decode_snapshot sha d = Inr s \<Longrightarrow> encode_snapshot sha s = Inr d"
  unfolding decode_snapshot_def by (auto simp: rbind_Inr_iff split: option.splits json.splits)

section \<open>Export of an approved commit\<close>

text \<open>\<open>bytes.split(sep)\<close>, \<open>bytes.split()\<close> and \<open>bytes.strip()\<close>.\<close>

fun bytes_split :: "8 word \<Rightarrow> bytes \<Rightarrow> bytes list" where
  "bytes_split c [] = [[]]"
| "bytes_split c (b # bs) = (if b = c then [] # bytes_split c bs
     else (case bytes_split c bs of w # ws \<Rightarrow> (b # w) # ws | [] \<Rightarrow> [[b]]))"

definition byte_space :: "8 word \<Rightarrow> bool" where
  "byte_space b \<longleftrightarrow> b \<in> {9, 10, 11, 12, 13, 32}"

function bytes_words :: "bytes \<Rightarrow> bytes list" where
  "bytes_words bs = (case dropWhile byte_space bs of [] \<Rightarrow> []
     | b # r \<Rightarrow> (b # takeWhile (\<lambda>c. \<not> byte_space c) r) # bytes_words (dropWhile (\<lambda>c. \<not> byte_space c) r))"
  by pat_completeness auto
termination
proof (relation "measure length")
  fix bs b and r :: bytes
  assume "dropWhile byte_space bs = b # r"
  then have "Suc (length r) \<le> length bs" using length_dropWhile_le [of byte_space bs] by simp
  then show "(dropWhile (\<lambda>c. \<not> byte_space c) r, bs) \<in> measure length"
    using length_dropWhile_le [of "\<lambda>c. \<not> byte_space c" r] by simp
qed simp

declare bytes_words.simps [simp del]

definition bytes_strip :: "bytes \<Rightarrow> bytes" where
  "bytes_strip b = rev (dropWhile byte_space (rev (dropWhile byte_space b)))"

text \<open>\<open>int()\<close> of bytes without blanks: a sign, digits with single underscores between them, at most 4300.\<close>

definition bytes_int :: "bytes \<Rightarrow> int option" where
  "bytes_int b =
     (let s = map unat b;
          signed = s \<noteq> [] \<and> hd s \<in> {43, 45};
          parts = split_on 95 (if signed then tl s else s)
      in if list_all (\<lambda>w. w \<noteq> [] \<and> list_all is_digit w) parts \<and> length (concat parts) \<le> 4300
         then Some ((if signed \<and> hd s = 45 then - 1 else 1) * int (digits_value (concat parts))) else None)"

text \<open>\<open>RepositoryRegistry\<close>: an insertion-ordered dictionary of approved sources.\<close>

definition registry_require :: "(pystr, 'r) dict \<Rightarrow> pystr \<Rightarrow> snapshot_error + 'r" where
  "registry_require repos rid = (case map_of repos rid of None \<Rightarrow> Inl (RepositoryUnknown rid) | Some r \<Rightarrow> Inr r)"

record tree_entry =
  te_mode :: bytes
  te_kind :: bytes
  te_oid :: bytes
  te_path :: pystr
  te_digest :: pystr
  te_size :: int

definition malformed :: "'a option \<Rightarrow> snapshot_error + 'a" where
  "malformed x = (case x of None \<Rightarrow> Inl (SnapshotError (u ''unapproved or malformed Git tree entry'')) | Some a \<Rightarrow> Inr a)"

definition parse_entry :: "(pystr, pystr) dict \<Rightarrow> bytes \<Rightarrow> snapshot_error + tree_entry" where
  "parse_entry approved raw =
     (if 9 \<notin> set raw then malformed None
      else (case bytes_words (takeWhile (\<lambda>b. b \<noteq> 9) raw) of
        [mode, kind, oid, size0] \<Rightarrow>
          rbind (malformed (utf8_decode (tl (dropWhile (\<lambda>b. b \<noteq> 9) raw)))) (\<lambda>path.
          rbind (snapshot_path path) (\<lambda>_.
          rbind (malformed (map_of approved path)) (\<lambda>digest.
          rbind (malformed (bytes_int size0)) (\<lambda>len.
          Inr \<lparr>te_mode = mode, te_kind = kind, te_oid = oid, te_path = path, te_digest = digest, te_size = len\<rparr>))))
      | _ \<Rightarrow> malformed None))"

text \<open>The checks on a parsed entry, in the order of the condition.\<close>

definition check_entry :: "pystr list \<Rightarrow> nat \<Rightarrow> tree_entry \<Rightarrow> snapshot_error + unit" where
  "check_entry seen count e =
     (let unsupported = (\<lambda>b. snap_check (\<not> b) (u ''Git tree has unsupported or oversized entries'')) in
      rbind (unsupported (lower (te_path e) \<in> set seen \<or> te_mode e \<notin> ascii_bytes ` set file_modes \<or> te_kind e \<noteq> ascii_bytes (u ''blob''))) (\<lambda>_.
      rbind (require (list_all (\<lambda>b. b < 128) (te_oid e)) ObjectNotAscii) (\<lambda>_.
      unsupported (\<not> commit_id (map unat (te_oid e)) \<or> te_size e < 0 \<or> int MAX_FILE_BYTES < te_size e \<or> MAX_FILES \<le> count))))"

type_synonym git = "pystr list \<Rightarrow> nat \<Rightarrow> snapshot_error + bytes"

fun tree_loop :: "(bytes \<Rightarrow> nat) \<Rightarrow> git \<Rightarrow> (pystr, pystr) dict \<Rightarrow> pystr list \<Rightarrow> nat \<Rightarrow> bytes list \<Rightarrow> snapshot_file list \<Rightarrow>
    snapshot_error + snapshot_file list" where
  "tree_loop sha git approved seen total0 [] files = Inr files"
| "tree_loop sha git approved seen total0 (raw # rest) files =
     (if raw = [] then tree_loop sha git approved seen total0 rest files
      else
        rbind (parse_entry approved raw) (\<lambda>e.
        rbind (check_entry seen (length files) e) (\<lambda>_.
        let t = total0 + nat (te_size e) in
        rbind (snap_check (t \<le> MAX_CONTENT_BYTES) (u ''Git tree content is too large'')) (\<lambda>_.
        rbind (git [u ''cat-file'', u ''blob'', map unat (te_oid e)] (nat (te_size e) + 1)) (\<lambda>content.
        rbind (snap_check (int (length content) = te_size e \<and> hexdigest sha content = te_digest e)
          (u ''Git blob differs from operator-approved digest'')) (\<lambda>_.
        tree_loop sha git approved (lower (te_path e) # seen) t rest
          (files @ [\<lparr>sf_path = te_path e, sf_mode = map unat (te_mode e), sf_content = content\<rparr>])))))))"

fun check_approvals :: "(pystr, pystr) dict \<Rightarrow> snapshot_error + unit" where
  "check_approvals [] = Inr ()"
| "check_approvals ((path, digest) # rest) =
     rbind (snapshot_path path) (\<lambda>_.
     rbind (snap_check (hex_exactly 64 digest) (u ''file approval requires an exact SHA-256'')) (\<lambda>_.
     check_approvals rest))"

definition git_export :: "(bytes \<Rightarrow> nat) \<Rightarrow> (pystr, 'r) dict \<Rightarrow> ('r \<Rightarrow> bool) \<Rightarrow> ('r \<Rightarrow> git) \<Rightarrow>
    pystr \<times> pystr \<times> pystr \<times> pystr \<Rightarrow> (pystr, pystr) dict \<Rightarrow> snapshot_error + snapshot" where
  "git_export sha repos is_checkout git_in ids approved = (case ids of (job, rid, rev0, img) \<Rightarrow>
     rbind (snap_check (hex_exactly 32 job \<and> commit_id rev0 \<and> hex_exactly 64 img \<and> 0 < length approved \<and> length approved \<le> MAX_FILES)
       (u ''unapproved snapshot identity, revision, image or file policy'')) (\<lambda>_.
     rbind (check_approvals approved) (\<lambda>_.
     rbind (registry_require repos rid) (\<lambda>source.
     rbind (snap_check (is_checkout source) (u ''approved source must be a non-bare Git checkout'')) (\<lambda>_.
     rbind (git_in source [u ''cat-file'', u ''-t'', rev0] 32) (\<lambda>kind.
     rbind (snap_check (bytes_strip kind = ascii_bytes (u ''commit'')) (u ''approved revision is not a commit'')) (\<lambda>_.
     rbind (git_in source [u ''ls-tree'', u ''--full-tree'', u ''-r'', u ''-z'', u ''-l'', rev0] MAX_LISTING_BYTES) (\<lambda>listing.
     rbind (snap_check (listing = [] \<or> last listing = 0) (u ''truncated Git tree listing'')) (\<lambda>_.
     rbind (tree_loop sha (git_in source) approved [] 0 (bytes_split 0 listing) []) (\<lambda>files.
     rbind (snap_check (fst ` set approved = sf_path ` set files) (u ''Git tree differs from the approved complete file list'')) (\<lambda>_.
     let s = \<lparr>ss_job_id = job, ss_repository_id = rid, ss_revision = rev0, ss_image_sha256 = img, ss_files = sort_key sf_path files\<rparr> in
     rbind (encode_snapshot sha s) (\<lambda>_. Inr s))))))))))))"

lemma tree_loop_approved:
  assumes "tree_loop sha git approved seen t raws files = Inr out"
    "\<forall>f \<in> set files. map_of approved (sf_path f) = Some (hexdigest sha (sf_content f))"
  shows "\<forall>f \<in> set out. map_of approved (sf_path f) = Some (hexdigest sha (sf_content f))"
  using assms
proof (induction sha git approved seen t raws files rule: tree_loop.induct)
  case (2 sha git approved seen t raw rest files)
  show ?case
  proof (cases "raw = []")
    case True
    with 2 show ?thesis by simp
  next
    case False
    from 2(3) False obtain e content where
      e: "parse_entry approved raw = Inr e" "check_entry seen (length files) e = Inr ()"
      "t + nat (te_size e) \<le> MAX_CONTENT_BYTES"
      "git [u ''cat-file'', u ''blob'', map unat (te_oid e)] (nat (te_size e) + 1) = Inr content"
      "int (length content) = te_size e" "hexdigest sha content = te_digest e"
      and l: "tree_loop sha git approved (lower (te_path e) # seen) (t + nat (te_size e)) rest
          (files @ [\<lparr>sf_path = te_path e, sf_mode = map unat (te_mode e), sf_content = content\<rparr>]) = Inr out"
      by (auto simp: rbind_Inr_iff Let_def)
    from e(1) have "map_of approved (te_path e) = Some (te_digest e)"
      by (auto simp: parse_entry_def malformed_def rbind_Inr_iff split: if_splits list.splits option.splits)
    with 2(2)[OF False e(1,2) refl _ e(4)] e l 2(4) show ?thesis by auto
  qed
qed simp

lemma map_of_exact:
  assumes "dict_ok d" "fst ` set d = fst ` set ps" "\<forall>p \<in> set ps. map_of d (fst p) = Some (snd p)"
  shows "set ps = set d"
proof -
  have "x \<in> set d" if "x \<in> set ps" for x using assms(3) that map_of_SomeD [of d "fst x" "snd x"] by auto
  moreover have "x \<in> set ps" if x: "x \<in> set d" for x
  proof -
    from x assms(2) obtain p where p: "p \<in> set ps" "fst p = fst x" by (metis image_iff)
    moreover from x assms(1) have "map_of d (fst x) = Some (snd x)" by (simp add: dict_ok_def)
    ultimately have "snd p = snd x" using assms(3) by fastforce
    with p show ?thesis by (metis prod_eqI)
  qed
  ultimately show ?thesis by blast
qed

lemma git_export_Inr:
  assumes "git_export sha repos is_checkout git_in (job, rid, rev0, img) approved = Inr s" "dict_ok approved"
  shows "set (map (\<lambda>f. (sf_path f, hexdigest sha (sf_content f))) (ss_files s)) = set approved"
    and "ss_job_id s = job \<and> ss_repository_id s = rid \<and> ss_revision s = rev0 \<and> ss_image_sha256 s = img"
    and "\<exists>r d. map_of repos rid = Some r \<and> is_checkout r \<and> encode_snapshot sha s = Inr d \<and> decode_snapshot sha d = Inr s"
proof -
  from assms(1) obtain r files d where
    r: "registry_require repos rid = Inr r" "is_checkout r"
      "tree_loop sha (git_in r) approved [] 0 (bytes_split 0 d) [] = Inr files"
      "fst ` set approved = sf_path ` set files"
      "s = \<lparr>ss_job_id = job, ss_repository_id = rid, ss_revision = rev0, ss_image_sha256 = img, ss_files = sort_key sf_path files\<rparr>"
      "\<exists>e. encode_snapshot sha s = Inr e"
    unfolding git_export_def by (auto simp: rbind_Inr_iff Let_def)
  let ?ps = "map (\<lambda>f. (sf_path f, hexdigest sha (sf_content f))) (sort_key sf_path files)"
  have a: "\<forall>p \<in> set ?ps. map_of approved (fst p) = Some (snd p)" using tree_loop_approved [OF r(3)] by simp
  have "fst ` set approved = fst ` set ?ps" using r(4) by (simp add: image_image)
  from map_of_exact [OF assms(2) this a] show "set (map (\<lambda>f. (sf_path f, hexdigest sha (sf_content f))) (ss_files s)) = set approved"
    using r(5) by simp
  show "ss_job_id s = job \<and> ss_repository_id s = rid \<and> ss_revision s = rev0 \<and> ss_image_sha256 s = img" using r(5) by simp
  show "\<exists>r d. map_of repos rid = Some r \<and> is_checkout r \<and> encode_snapshot sha s = Inr d \<and> decode_snapshot sha d = Inr s"
    using r(1,2,6) decode_encode by (auto simp: registry_require_def split: option.splits)
qed

section \<open>Canonical codecs\<close>

text \<open>What the host relies on of a transfer format: a value has one accepted encoding and an encoding one value.\<close>

locale canonical_codec =
  fixes enc :: "'a \<Rightarrow> 'e + bytes" and dec :: "bytes \<Rightarrow> 'f + 'a"
  assumes dec_enc: "enc a = Inr d \<Longrightarrow> dec d = Inr a"
    and enc_dec: "dec d = Inr a \<Longrightarrow> enc a = Inr d"
begin

lemma dec_iff_enc: "dec d = Inr a \<longleftrightarrow> enc a = Inr d"
  using dec_enc enc_dec by blast

lemma dec_inj: "dec d = Inr a \<Longrightarrow> dec e = Inr a \<Longrightarrow> d = e"
  by (auto dest!: enc_dec)

lemma enc_inj: "enc a = Inr d \<Longrightarrow> enc b = Inr d \<Longrightarrow> a = b"
  by (auto dest!: dec_enc)

end

interpretation snapshot_codec: canonical_codec "encode_snapshot sha" "decode_snapshot sha"
  by unfold_locales (fact decode_encode decode_is_canonical)+

section \<open>Properties\<close>

text \<open>
  C39: The transfer format is canonical: bytes decode to a snapshot exactly if they are its encoding.
  So every accepted transfer is complete, uncorrupted and in the one accepted spelling, and every
  encoded snapshot is read back unchanged.
\<close>

theorem snapshot_codec_exact: "decode_snapshot sha d = Inr s \<longleftrightarrow> encode_snapshot sha s = Inr d"
  by (rule snapshot_codec.dec_iff_enc)

text \<open>
  C40: An export holds exactly the approved files, each with its approved digest, of an approved
  repository that is a checkout, under the requested identity; it is a valid snapshot that survives
  its transfer.  Any other outcome is an error: nothing is left out silently.
\<close>

theorem git_export_exact:
  assumes "dict_ok approved"
  shows "case git_export sha repos is_checkout git_in (job, rid, rev0, img) approved of Inl e \<Rightarrow> True
    | Inr s \<Rightarrow> set (map (\<lambda>f. (sf_path f, hexdigest sha (sf_content f))) (ss_files s)) = set approved \<and>
        sort_key sf_path (ss_files s) = ss_files s \<and>
        ss_job_id s = job \<and> ss_repository_id s = rid \<and> ss_revision s = rev0 \<and> ss_image_sha256 s = img \<and>
        (\<exists>r d. map_of repos rid = Some r \<and> is_checkout r \<and> encode_snapshot sha s = Inr d \<and> decode_snapshot sha d = Inr s)"
proof (cases "git_export sha repos is_checkout git_in (job, rid, rev0, img) approved")
  case (Inr s)
  note g = git_export_Inr [OF Inr assms]
  from g(3) have "sort_key sf_path (ss_files s) = ss_files s" by (auto simp: encode_snapshot_Inr)
  with Inr g show ?thesis by simp
qed simp

definition demo_approved :: "(pystr, pystr) dict" where
  "demo_approved = [(u ''a/b.py'', replicate 64 48)]"

definition demo_git :: git where
  "demo_git args limit =
     (if args = [u ''cat-file'', u ''-t'', replicate 40 97] then Inr (ascii_bytes (u ''commit'' @ [10]))
      else if take 1 args = [u ''ls-tree'']
      then Inr (ascii_bytes (u ''100644 blob '' @ replicate 40 98 @ u ''       3'' @ [9] @ u ''a/b.py'' @ [0]))
      else Inr (ascii_bytes (u ''x=1'')))"

theorem git_export_exact_witness:
  "ss_files (projr (git_export (\<lambda>_. 0) [(u ''repo'', ())] (\<lambda>_. True) (\<lambda>_. demo_git) (replicate 32 49, u ''repo'', replicate 40 97, replicate 64 50)
     demo_approved)) = [\<lparr>sf_path = u ''a/b.py'', sf_mode = u ''100644'', sf_content = ascii_bytes (u ''x=1'')\<rparr>]
   \<and> (case git_export (\<lambda>_. 0) [(u ''repo'', ())] (\<lambda>_. True) (\<lambda>_. demo_git) (replicate 32 49, u ''repo'', replicate 40 97, replicate 64 50)
      demo_approved of Inl e \<Rightarrow> True
    | Inr s \<Rightarrow> set (map (\<lambda>f. (sf_path f, hexdigest (\<lambda>_. 0) (sf_content f))) (ss_files s)) = set demo_approved \<and>
        sort_key sf_path (ss_files s) = ss_files s \<and>
        ss_job_id s = replicate 32 49 \<and> ss_repository_id s = u ''repo'' \<and> ss_revision s = replicate 40 97 \<and>
        ss_image_sha256 s = replicate 64 50 \<and>
        (\<exists>r d. map_of [(u ''repo'', ())] (u ''repo'') = Some r \<and> True \<and> encode_snapshot (\<lambda>_. 0) s = Inr d \<and>
           decode_snapshot (\<lambda>_. 0) d = Inr s))"
proof
  show "ss_files (projr (git_export (\<lambda>_. 0) [(u ''repo'', ())] (\<lambda>_. True) (\<lambda>_. demo_git) (replicate 32 49, u ''repo'', replicate 40 97, replicate 64 50)
     demo_approved)) = [\<lparr>sf_path = u ''a/b.py'', sf_mode = u ''100644'', sf_content = ascii_bytes (u ''x=1'')\<rparr>]"
    by code_simp
  have "dict_ok demo_approved" by (simp add: dict_ok_def demo_approved_def)
  from git_export_exact [OF this] show "case git_export (\<lambda>_. 0) [(u ''repo'', ())] (\<lambda>_. True) (\<lambda>_. demo_git) (replicate 32 49, u ''repo'', replicate 40 97, replicate 64 50)
      demo_approved of Inl e \<Rightarrow> True
    | Inr s \<Rightarrow> set (map (\<lambda>f. (sf_path f, hexdigest (\<lambda>_. 0) (sf_content f))) (ss_files s)) = set demo_approved \<and>
        sort_key sf_path (ss_files s) = ss_files s \<and>
        ss_job_id s = replicate 32 49 \<and> ss_repository_id s = u ''repo'' \<and> ss_revision s = replicate 40 97 \<and>
        ss_image_sha256 s = replicate 64 50 \<and>
        (\<exists>r d. map_of [(u ''repo'', ())] (u ''repo'') = Some r \<and> True \<and> encode_snapshot (\<lambda>_. 0) s = Inr d \<and>
           decode_snapshot (\<lambda>_. 0) d = Inr s)" .
qed

end
