(* ===== verification/DiffReplay.thy ===== *)
theory DiffReplay
  imports Difflib
begin

text \<open>
  What the hunks of \<open>difflib.unified_diff\<close> are worth: a reference reader that replays hunks on the
  old lines, and the proof that it rebuilds the new lines from the hunks of any two line lists.
\<close>

section \<open>Replaying hunks\<close>

text \<open>A hunk as a reader of the patch sees it: its range in the old and in the new lines, and its body.\<close>

record hunk =
  hk_from :: nat
  hk_to :: nat
  hk_new_from :: nat
  hk_new_to :: nat
  hk_body :: "pystr list"

definition old_side :: "pystr list \<Rightarrow> pystr list" where
  "old_side body = map tl (filter (\<lambda>l. hd l = 32 \<or> hd l = 45) body)"

definition new_side :: "pystr list \<Rightarrow> pystr list" where
  "new_side body = map tl (filter (\<lambda>l. hd l = 32 \<or> hd l = 43) body)"

text \<open>Replay: copy the lines up to the hunk, demand its old side, put its new side.\<close>

fun replay :: "nat \<Rightarrow> pystr list \<Rightarrow> hunk list \<Rightarrow> pystr list option" where
  "replay pos a [] = Some (drop pos a)"
| "replay pos a (h # hs) =
     (if hk_from h < pos \<or> slice (hk_from h) (hk_to h) a \<noteq> old_side (hk_body h) then None
      else map_option (\<lambda>r. slice pos (hk_from h) a @ new_side (hk_body h) @ r) (replay (hk_to h) a hs))"

definition hunk_of :: "pystr list \<Rightarrow> pystr list \<Rightarrow> opcode list \<Rightarrow> hunk" where
  "hunk_of a b grp = (case (hd grp, last grp) of ((_, i1, _, j1, _), (_, _, i2, _, j2)) \<Rightarrow>
     \<lparr>hk_from = i1, hk_to = i2, hk_new_from = j1, hk_new_to = j2, hk_body = concat (map (diff_lines a b) grp)\<rparr>)"

lemma old_side_append [simp]: "old_side (xs @ ys) = old_side xs @ old_side ys"
  by (simp add: old_side_def)

lemma new_side_append [simp]: "new_side (xs @ ys) = new_side xs @ new_side ys"
  by (simp add: new_side_def)

lemma sides_Cons [simp]:
  "old_side (map ((#) 32) xs) = xs" "old_side (map ((#) 45) xs) = xs" "old_side (map ((#) 43) xs) = []"
  "new_side (map ((#) 32) xs) = xs" "new_side (map ((#) 45) xs) = []" "new_side (map ((#) 43) xs) = xs"
  "old_side [] = []" "new_side [] = []"
  by (induction xs) (simp_all add: old_side_def new_side_def)

lemma slice_drop: "i \<le> j \<Longrightarrow> slice i j xs @ drop j xs = drop i xs"
  unfolding slice_def drop_take using append_take_drop_id [of "j - i" "drop i xs"] by simp

lemma slice_append: "i \<le> j \<Longrightarrow> j \<le> k \<Longrightarrow> slice i j xs @ slice j k xs = slice i k xs"
  unfolding slice_def drop_take using take_add [of "j - i" "k - j" "drop i xs"] by simp

lemma slice_empty [simp]: "slice i i xs = []"
  by (simp add: slice_def)

lemma slice_eq:
  assumes "\<forall>d < k. a ! (i + d) = b ! (j + d)" "i + k \<le> length a" "j + k \<le> length b"
  shows "slice i (i + k) a = slice j (j + k) b"
  using assms by (intro nth_equalityI) (simp_all add: slice_def)

text \<open>Groups of opcodes that cover the sequences from \<open>(p, q)\<close> on, up to equal stretches between them.\<close>

definition equal_span :: "'a list \<Rightarrow> 'a list \<Rightarrow> nat \<Rightarrow> nat \<Rightarrow> nat \<Rightarrow> nat \<Rightarrow> bool" where
  "equal_span a b i i' j j' \<longleftrightarrow> i \<le> i' \<and> j \<le> j' \<and> slice i i' a = slice j j' b"

inductive spans :: "'a list \<Rightarrow> 'a list \<Rightarrow> nat \<Rightarrow> nat \<Rightarrow> opcode list list \<Rightarrow> bool" for a b where
  spans_Nil: "drop p a = drop q b \<Longrightarrow> spans a b p q []"
| spans_Cons: "g \<noteq> [] \<Longrightarrow> equal_span a b p i q j \<Longrightarrow> opcodes_tile a b i j i' j' g \<Longrightarrow> i' \<le> length a \<Longrightarrow> j' \<le> length b \<Longrightarrow>
    spans a b i' j' gs \<Longrightarrow> spans a b p q (g # gs)"

lemma opcodes_tile_mono: "opcodes_tile a b i j i' j' ops \<Longrightarrow> i \<le> i' \<and> j \<le> j'"
  by (induction ops arbitrary: i j) force+

lemma opcodes_tile_append_iff:
  "opcodes_tile a b i j i' j' (xs @ ys) \<longleftrightarrow> (\<exists>m n. opcodes_tile a b i j m n xs \<and> opcodes_tile a b m n i' j' ys)"
proof (induction xs arbitrary: i j)
  case (Cons x xs)
  obtain tag i1 i2 j1 j2 where "x = (tag, i1, i2, j1, j2)" by (cases x) auto
  with Cons show ?case by (simp; blast)
qed simp

lemma equal_span_drop: "equal_span a b p i q j \<Longrightarrow> drop i a = drop j b \<Longrightarrow> drop p a = drop q b"
  using slice_drop [of p i a] slice_drop [of q j b] by (auto simp: equal_span_def)

lemma equal_span_append:
  "equal_span a b p i q j \<Longrightarrow> equal_span a b i i' j j' \<Longrightarrow> equal_span a b p i' q j'"
  using slice_append [of p i i' a] slice_append [of q j j' b] by (auto simp: equal_span_def)

lemma equal_spanI:
  assumes "\<forall>d < i2 - i1. a ! (i1 + d) = b ! (j1 + d)" "i1 \<le> i2" "j1 \<le> j2" "i2 - i1 = j2 - j1" "i2 \<le> length a" "j2 \<le> length b"
    and "s \<le> t" "t \<le> i2 - i1"
  shows "equal_span a b (i1 + s) (i1 + t) (j1 + s) (j1 + t)"
proof -
  have "\<forall>d < t - s. a ! (i1 + s + d) = b ! (j1 + s + d)" using assms(1,7,8) by (auto simp: add.assoc)
  from slice_eq [OF this] assms(2-8) show ?thesis by (auto simp: equal_span_def)
qed

lemma equal_span_whole:
  assumes "\<forall>d < i2 - i1. a ! (i1 + d) = b ! (j1 + d)" "i1 \<le> i2" "j1 \<le> j2" "i2 - i1 = j2 - j1" "i2 \<le> length a" "j2 \<le> length b"
  shows "equal_span a b i1 i2 j1 j2"
proof -
  have "i1 + (i2 - i1) = i2" "j1 + (i2 - i1) = j2" using assms(2-4) by simp_all
  with equal_spanI [OF assms, of 0 "i2 - i1"] show ?thesis by simp
qed

lemma spans_group_codes:
  assumes "opcodes_tile a b i j i1 j1 grp" "opcodes_tile a b i1 j1 ie je codes" "drop ie a = drop je b" "ie \<le> length a" "je \<le> length b"
    "equal_span a b p i q j"
  shows "spans a b p q (group_codes n grp codes)"
  using assms
proof (induction codes arbitrary: grp i j i1 j1 p q)
  case Nil
  then have e: "i1 = ie" "j1 = je" by simp_all
  show ?case
  proof (cases "grp = [] \<or> length grp = 1 \<and> fst (hd grp) = OEqual")
    case True
    have "equal_span a b i ie j je"
    proof (cases grp)
      case Nil
      with Nil.prems(1) e show ?thesis by (simp add: equal_span_def)
    next
      case (Cons c cs)
      with True obtain i2 j2 where "grp = [(OEqual, i, i2, j, j2)]" "i2 = ie" "j2 = je"
        using Nil.prems(1) e by (cases c) auto
      with Nil.prems(1,4,5) show ?thesis using equal_span_whole [of ie i a b j je] by auto
    qed
    with Nil.prems(3,6) have "drop p a = drop q b" using equal_span_drop equal_span_append by blast
    with True show ?thesis by (simp add: spans_Nil)
  next
    case False
    with Nil.prems e show ?thesis by (auto intro!: spans_Cons spans_Nil)
  qed
next
  case (Cons c codes)
  obtain tag i2 j2 where c: "c = (tag, i1, i2, j1, j2)" using Cons.prems(2) by (cases c) auto
  from Cons.prems(2) c have t: "i1 \<le> i2" "j1 \<le> j2" "opcodes_tile a b i2 j2 ie je codes" "opcodes_tile a b i1 j1 i2 j2 [c]" by auto
  from opcodes_tile_mono [OF t(3)] Cons.prems(4,5) have l: "i2 \<le> length a" "j2 \<le> length b" by simp_all
  show ?case
  proof (cases "tag = OEqual \<and> n + n < i2 - i1")
    case False
    from Cons.IH [OF opcodes_tile_append [OF Cons.prems(1) t(4)] t(3) Cons.prems(3-6)]
    show ?thesis unfolding c group_codes.simps if_not_P [OF False] .
  next
    case True
    with Cons.prems(2) c have e: "\<forall>d < i2 - i1. a ! (i1 + d) = b ! (j1 + d)" "i2 - i1 = j2 - j1" by auto
    let ?g = "grp @ [(OEqual, i1, i1 + n, j1, j1 + n)]"
    let ?h = "[(OEqual, i2 - n, i2, j2 - n, j2)]"
    have "opcodes_tile a b i1 j1 (i1 + n) (j1 + n) [(OEqual, i1, i1 + n, j1, j1 + n)]" using True e by simp
    from opcodes_tile_append [OF Cons.prems(1) this] have g: "opcodes_tile a b i j (i1 + n) (j1 + n) ?g" .
    have d: "a ! (i2 - n + d) = b ! (j2 - n + d)" if "d < n" for d
    proof -
      from that True have "i2 - i1 - n + d < i2 - i1" by arith
      with e(1) have "a ! (i1 + (i2 - i1 - n + d)) = b ! (j1 + (i2 - i1 - n + d))" by blast
      moreover have "i1 + (i2 - i1 - n + d) = i2 - n + d" "j1 + (i2 - i1 - n + d) = j2 - n + d" using True e(2) t(1,2) by linarith+
      ultimately show ?thesis by (simp only:)
    qed
    have h: "opcodes_tile a b (i2 - n) (j2 - n) i2 j2 ?h" using True e(2) d by auto
    have "equal_span a b (i1 + n) (i1 + (i2 - i1 - n)) (j1 + n) (j1 + (i2 - i1 - n))"
      using True t(1,2) e l by (intro equal_spanI [of i2 i1]) auto
    moreover have "i1 + (i2 - i1 - n) = i2 - n" "j1 + (i2 - i1 - n) = j2 - n" using True e(2) t(1,2) by linarith+
    ultimately have "equal_span a b (i1 + n) (i2 - n) (j1 + n) (j2 - n)" by simp
    from Cons.IH [OF h t(3) Cons.prems(3-5) this] have "spans a b (i1 + n) (j1 + n) (group_codes n ?h codes)" .
    with g Cons.prems(6) True e(2) l have "spans a b p q (?g # group_codes n ?h codes)" by (intro spans_Cons) auto
    moreover have "min i2 (i1 + n) = i1 + n" "min j2 (j1 + n) = j1 + n" "max i1 (i2 - n) = i2 - n" "max j1 (j2 - n) = j2 - n"
      using True e(2) by auto
    ultimately show ?thesis using True c by simp
  qed
qed

lemma trim_first_tile:
  assumes "opcodes_tile a b 0 0 ie je codes" "ie \<le> length a" "je \<le> length b"
  shows "\<exists>i j. opcodes_tile a b i j ie je (trim_first n codes) \<and> equal_span a b 0 i 0 j"
proof (cases "\<exists>i2 j2 r. codes = (OEqual, 0, i2, 0, j2) # r")
  case True
  then obtain i2 j2 r where c: "codes = (OEqual, 0, i2, 0, j2) # r" by blast
  with assms(1) have e: "i2 = j2" "\<forall>d < i2. a ! d = b ! d" "opcodes_tile a b i2 j2 ie je r" by auto
  from opcodes_tile_mono [OF e(3)] assms(2,3) have l: "i2 \<le> length a" "j2 \<le> length b" by simp_all
  have "opcodes_tile a b (i2 - n) (j2 - n) ie je (trim_first n codes)" using c e by (auto simp: trim_first_def)
  moreover have "equal_span a b 0 (i2 - n) 0 (j2 - n)" using equal_spanI [of i2 0 a b 0 j2 0 "i2 - n"] e l by simp
  ultimately show ?thesis by blast
next
  case False
  with assms(1) have "trim_first n codes = codes"
    by (auto simp: trim_first_def split: list.splits opcode_tag.splits)
  with assms(1) show ?thesis by (intro exI [of _ 0]) (simp add: equal_span_def)
qed

lemma trim_last_tile:
  assumes "opcodes_tile a b i j (length a) (length b) codes"
  shows "\<exists>ie je. opcodes_tile a b i j ie je (trim_last n codes) \<and> drop ie a = drop je b \<and> ie \<le> length a \<and> je \<le> length b"
proof (cases "\<exists>cs i1 i2 j1 j2. codes = cs @ [(OEqual, i1, i2, j1, j2)]")
  case True
  then obtain cs i1 i2 j1 j2 where c: "codes = cs @ [(OEqual, i1, i2, j1, j2)]" by blast
  with assms have t: "opcodes_tile a b i j i1 j1 cs" "i2 = length a" "j2 = length b" "i1 \<le> i2" "j1 \<le> j2" "i2 - i1 = j2 - j1"
    "\<forall>d < i2 - i1. a ! (i1 + d) = b ! (j1 + d)" by (auto simp: opcodes_tile_append_iff)
  let ?k = "min (i2 - i1) n"
  have m: "min i2 (i1 + n) = i1 + ?k" "min j2 (j1 + n) = j1 + ?k" using t(4-6) by auto
  have "opcodes_tile a b i1 j1 (i1 + ?k) (j1 + ?k) [(OEqual, i1, i1 + ?k, j1, j1 + ?k)]" using t(7) by simp
  from opcodes_tile_append [OF t(1) this] have o: "opcodes_tile a b i j (i1 + ?k) (j1 + ?k) (trim_last n codes)"
    using c m by (simp add: trim_last_def)
  have "equal_span a b (i1 + ?k) (i1 + (i2 - i1)) (j1 + ?k) (j1 + (i2 - i1))"
    by (rule equal_spanI [OF t(7,4,5,6)]) (simp_all add: t(2,3))
  moreover have "i1 + (i2 - i1) = length a" "j1 + (i2 - i1) = length b" using t(2-6) by linarith+
  ultimately have "equal_span a b (i1 + ?k) (length a) (j1 + ?k) (length b)" by simp
  then have "drop (i1 + ?k) a = drop (j1 + ?k) b" by (rule equal_span_drop) simp
  moreover have "i1 + ?k \<le> length a" "j1 + ?k \<le> length b" using t(2-6) by auto
  ultimately show ?thesis using o by blast
next
  case False
  have "trim_last n codes = codes"
  proof (cases codes rule: rev_cases)
    case (snoc cs c)
    with False show ?thesis by (cases c) (auto simp: trim_last_def split: opcode_tag.splits)
  qed (simp add: trim_last_def)
  with assms show ?thesis by (intro exI [of _ "length a"] exI [of _ "length b"]) simp
qed

theorem grouped_opcodes_spans: "spans a b 0 0 (grouped_opcodes n auto a b)"
proof (cases "get_opcodes auto a b = []")
  case True
  then have "a = []" "b = []" using get_opcodes_tile [of a b auto] by auto
  then show ?thesis unfolding grouped_opcodes_def True
    by (auto simp: trim_first_def trim_last_def intro: spans_Nil)
next
  case False
  obtain i j where f: "opcodes_tile a b i j (length a) (length b) (trim_first n (get_opcodes auto a b))" "equal_span a b 0 i 0 j"
    using trim_first_tile [OF get_opcodes_tile] by blast
  obtain ie je where l: "opcodes_tile a b i j ie je (trim_last n (trim_first n (get_opcodes auto a b)))" "drop ie a = drop je b"
    "ie \<le> length a" "je \<le> length b" using trim_last_tile [OF f(1)] by blast
  from spans_group_codes [of a b i j i j "[]", OF _ l f(2)] False show ?thesis by (simp add: grouped_opcodes_def)
qed

lemma diff_lines_sides:
  assumes "opcodes_tile a b i j i' j' g" "i' \<le> length a" "j' \<le> length b"
  shows "old_side (concat (map (diff_lines a b) g)) = slice i i' a \<and> new_side (concat (map (diff_lines a b) g)) = slice j j' b"
  using assms(1)
proof (induction g arbitrary: i j)
  case (Cons c g)
  then obtain tag i2 j2 where c: "c = (tag, i, i2, j, j2)" "opcodes_tile a b i2 j2 i' j' g" "i \<le> i2" "j \<le> j2" by (cases c) auto
  from opcodes_tile_mono [OF c(2)] assms have l: "i2 \<le> i'" "j2 \<le> j'" by simp_all
  have "tag = OEqual \<Longrightarrow> slice i i2 a = slice j j2 b"
    using Cons.prems c equal_span_whole [of i2 i a b j j2] l assms(2,3) by (auto simp: equal_span_def)
  then have "old_side (diff_lines a b c) = slice i i2 a" "new_side (diff_lines a b c) = slice j j2 b"
    using Cons.prems c by (auto simp: diff_lines_def split: opcode_tag.splits)
  with Cons.IH [OF c(2)] slice_append [OF c(3) l(1), of a] slice_append [OF c(4) l(2), of b] show ?case by simp
qed simp

lemma tile_ends:
  "opcodes_tile a b i j i' j' g \<Longrightarrow> g \<noteq> [] \<Longrightarrow> fst (snd (hd g)) = i \<and> fst (snd (snd (last g))) = i'"
proof (induction g arbitrary: i j)
  case (Cons c g)
  then show ?case by (cases c; cases g) auto
qed simp

theorem replay_spans: "spans a b p q gs \<Longrightarrow> replay p a (map (hunk_of a b) gs) = Some (drop q b)"
proof (induction rule: spans.induct)
  case (spans_Cons g p i q j i' j' gs)
  from tile_ends [OF spans_Cons(3,1)] have h: "hk_from (hunk_of a b g) = i" "hk_to (hunk_of a b g) = i'"
    "hk_body (hunk_of a b g) = concat (map (diff_lines a b) g)"
    by (auto simp: hunk_of_def split: prod.splits)
  from diff_lines_sides [OF spans_Cons(3-5)] have s: "old_side (hk_body (hunk_of a b g)) = slice i i' a"
    "new_side (hk_body (hunk_of a b g)) = slice j j' b" by (simp_all add: h)
  from opcodes_tile_mono [OF spans_Cons(3)] have m: "j \<le> j'" by simp
  from spans_Cons(2) have e: "p \<le> i" "q \<le> j" "slice p i a = slice q j b" by (simp_all add: equal_span_def)
  have "slice p i a @ slice j j' b @ drop j' b = drop q b"
    unfolding e(3) slice_drop [OF m] using slice_drop [OF e(2)] .
  with spans_Cons(7) h s e(1) show ?case by simp
qed simp

end
