(* ===== verification/ReviewPatch.thy ===== *)
theory ReviewPatch
  imports Snapshot DiffReplay
begin

text \<open>
  \<open>night_shifts/review_patch.py\<close>: the patch between an approved base snapshot and a complete final
  file list, with its inventory of changed files.
\<close>

section \<open>State\<close>

definition MAX_PATCH_BYTES :: nat where "MAX_PATCH_BYTES = 4 * 1024 * 1024"

datatype change_kind = Added | Deleted | Modified | ModeChanged

fun change_value :: "change_kind \<Rightarrow> pystr" where
  "change_value Added = u ''added''"
| "change_value Deleted = u ''deleted''"
| "change_value Modified = u ''modified''"
| "change_value ModeChanged = u ''mode_changed''"

record changed_file =
  cf_path :: pystr
  cf_change :: change_kind
  cf_before_sha256 :: "pystr option"
  cf_after_sha256 :: "pystr option"
  cf_before_mode :: "pystr option"
  cf_after_mode :: "pystr option"

record review_patch =
  rp_base_sha256 :: pystr
  rp_patch :: bytes
  rp_patch_sha256 :: pystr
  rp_changes :: "changed_file list"

text \<open>\<open>ReviewPatchError\<close>, the \<open>ValueError\<close> of the limit, a shared check, or an encoding error.\<close>

datatype patch_error = PatchError pystr | PatchValue pystr | PatchSnapshot snapshot_error | PatchUnicode

fun patch_snapshot :: "snapshot_error + 'a \<Rightarrow> patch_error + 'a" where
  "patch_snapshot (Inl e) = Inl (PatchSnapshot e)"
| "patch_snapshot (Inr x) = Inr x"

section \<open>The lines of a file\<close>

definition git_text_lines :: "bytes \<Rightarrow> patch_error + pystr list" where
  "git_text_lines content = (case utf8_decode content of
     None \<Rightarrow> Inl PatchUnicode
   | Some t \<Rightarrow>
       if 13 \<in> set (replace_all t [13, 10] []) then Inl (PatchError (u ''lone CR in a changed file needs separate review''))
       else let pieces = split_on 10 t in
         Inr (map (\<lambda>w. w @ [10]) (butlast pieces) @ (if last pieces = [] then [] else [last pieces])))"

text \<open>\<open>difflib.unified_diff\<close> with \<open>lineterm="\n"\<close>: its metadata lines end in a line feed.\<close>

definition hunk_header :: "opcode list \<Rightarrow> pystr" where
  "hunk_header grp = (case (hd grp, last grp) of ((_, i1, _, j1, _), (_, _, i2, _, j2)) \<Rightarrow>
     u ''@@ -'' @ range_unified i1 i2 @ u '' +'' @ range_unified j1 j2 @ u '' @@'' @ [10])"

definition unified_diff_lf :: "pystr list \<Rightarrow> pystr list \<Rightarrow> pystr \<Rightarrow> pystr \<Rightarrow> pystr list" where
  "unified_diff_lf a b fromfile tofile =
     (let groups = grouped_opcodes 3 True a b in
      if groups = [] then []
      else (u ''--- '' @ fromfile @ [10]) # (u ''+++ '' @ tofile @ [10]) #
        concat (map (\<lambda>g. hunk_header g # concat (map (diff_lines a b) g)) groups))"

definition terminated :: "pystr \<Rightarrow> pystr" where
  "terminated line = (if ends_with line [10] then line else line @ [10] @ u (CHR 0x5C # '' No newline at end of file'') @ [10])"

section \<open>The builder\<close>

type_synonym patch_state = "bytes \<times> changed_file list"

definition emit :: "nat \<Rightarrow> pystr \<Rightarrow> patch_state \<Rightarrow> patch_error + patch_state" where
  "emit limit t = (\<lambda>(out, changes). case utf8_encode t of
     None \<Rightarrow> Inl PatchUnicode
   | Some e \<Rightarrow> if limit < length out + length e then Inl (PatchError (u ''review patch exceeds the byte limit''))
       else Inr (out @ e, changes))"

fun emit_all :: "nat \<Rightarrow> pystr list \<Rightarrow> patch_state \<Rightarrow> patch_error + patch_state" where
  "emit_all limit [] st = Inr st"
| "emit_all limit (t # ts) st = rbind (emit limit t st) (emit_all limit ts)"

definition lookup_file :: "snapshot_file list \<Rightarrow> pystr \<Rightarrow> snapshot_file option" where
  "lookup_file files p = map_of (rev (map (\<lambda>f. (sf_path f, f)) files)) p"

definition change_of :: "snapshot_file option \<Rightarrow> snapshot_file option \<Rightarrow> change_kind" where
  "change_of before after = (case (before, after) of
     (None, _) \<Rightarrow> Added
   | (_, None) \<Rightarrow> Deleted
   | (Some b, Some a) \<Rightarrow> if sf_content b = sf_content a then ModeChanged else Modified)"

definition change_record :: "(bytes \<Rightarrow> nat) \<Rightarrow> pystr \<Rightarrow> snapshot_file option \<Rightarrow> snapshot_file option \<Rightarrow> changed_file" where
  "change_record sha p before after =
     \<lparr>cf_path = p, cf_change = change_of before after,
      cf_before_sha256 = map_option (\<lambda>f. hexdigest sha (sf_content f)) before,
      cf_after_sha256 = map_option (\<lambda>f. hexdigest sha (sf_content f)) after,
      cf_before_mode = map_option sf_mode before, cf_after_mode = map_option sf_mode after\<rparr>"

definition empty_file :: "snapshot_file option \<Rightarrow> bool" where
  "empty_file f = (case f of None \<Rightarrow> False | Some x \<Rightarrow> sf_content x = [])"

definition mode_lines :: "snapshot_file option \<Rightarrow> snapshot_file option \<Rightarrow> pystr list" where
  "mode_lines before after = (case (before, after) of
     (None, None) \<Rightarrow> []
   | (None, Some a) \<Rightarrow> [u ''new file mode '' @ sf_mode a @ [10]]
   | (Some b, None) \<Rightarrow> [u ''deleted file mode '' @ sf_mode b @ [10]]
   | (Some b, Some a) \<Rightarrow> if sf_mode b \<noteq> sf_mode a
       then [u ''old mode '' @ sf_mode b @ [10] @ u ''new mode '' @ sf_mode a @ [10]] else [])"

definition file_lines :: "snapshot_file option \<Rightarrow> patch_error + pystr list" where
  "file_lines f = (case f of None \<Rightarrow> Inr [] | Some x \<Rightarrow> git_text_lines (sf_content x))"

definition same_content :: "snapshot_file option \<Rightarrow> snapshot_file option \<Rightarrow> bool" where
  "same_content before after = (case (before, after) of (Some b, Some a) \<Rightarrow> sf_content b = sf_content a | _ \<Rightarrow> False)"

definition body_lines :: "pystr \<Rightarrow> snapshot_file option \<Rightarrow> snapshot_file option \<Rightarrow> patch_error + pystr list" where
  "body_lines p before after =
     (if same_content before after then Inr []
      else rbind (file_lines before) (\<lambda>old.
           rbind (file_lines after) (\<lambda>new.
           Inr (map terminated (unified_diff_lf old new
             (if before = None then u ''/dev/null'' else u ''a/'' @ p)
             (if after = None then u ''/dev/null'' else u ''b/'' @ p))))))"

text \<open>One path of the loop.\<close>

definition patch_path :: "(bytes \<Rightarrow> nat) \<Rightarrow> nat \<Rightarrow> snapshot_file list \<Rightarrow> snapshot_file list \<Rightarrow> pystr \<Rightarrow> patch_state \<Rightarrow> patch_error + patch_state" where
  "patch_path sha limit base final p st =
     (let before = lookup_file base p; after = lookup_file final p in
      if before = after then Inr st
      else if before = None \<and> empty_file after \<or> after = None \<and> empty_file before
      then Inl (PatchError (u ''creation/deletion of empty files needs patch replay support''))
      else
        rbind (emit_all limit ((u ''diff --git a/'' @ p @ u '' b/'' @ p @ [10]) # mode_lines before after)
          (fst st, snd st @ [change_record sha p before after])) (\<lambda>st1.
        rbind (body_lines p before after) (\<lambda>body. emit_all limit body st1)))"

fun patch_paths :: "(bytes \<Rightarrow> nat) \<Rightarrow> nat \<Rightarrow> snapshot_file list \<Rightarrow> snapshot_file list \<Rightarrow> pystr list \<Rightarrow> patch_state \<Rightarrow> patch_error + patch_state" where
  "patch_paths sha limit base final [] st = Inr st"
| "patch_paths sha limit base final (p # ps) st = rbind (patch_path sha limit base final p st) (patch_paths sha limit base final ps)"

text \<open>A path that vanished and is now the directory of another.\<close>

definition became_directory :: "pystr list \<Rightarrow> pystr list \<Rightarrow> bool" where
  "became_directory old new = list_ex (\<lambda>p. p \<notin> set new \<and> list_ex (\<lambda>q. starts_with q (p @ [47])) new) old"

definition all_paths :: "snapshot_file list \<Rightarrow> snapshot_file list \<Rightarrow> pystr list" where
  "all_paths base final = sort (remdups (map sf_path base @ map sf_path final))"

definition build_review_patch :: "(bytes \<Rightarrow> nat) \<Rightarrow> snapshot \<Rightarrow> snapshot_file list \<Rightarrow> int \<Rightarrow> patch_error + review_patch" where
  "build_review_patch sha base final limit =
     rbind (require (1 \<le> limit \<and> limit \<le> int MAX_PATCH_BYTES) (PatchValue (u ''patch byte limit is invalid''))) (\<lambda>_.
     rbind (patch_snapshot (encode_snapshot sha base)) (\<lambda>encoded.
     rbind (patch_snapshot (validate_workspace_files final)) (\<lambda>_.
     rbind (require (\<not> became_directory (map sf_path (ss_files base)) (map sf_path final))
       (PatchError (u ''file-to-directory replacements require separate review''))) (\<lambda>_.
     rbind (require (\<not> became_directory (map sf_path final) (map sf_path (ss_files base)))
       (PatchError (u ''directory-to-file replacements require separate review''))) (\<lambda>_.
     rbind (patch_paths sha (nat limit) (ss_files base) final (all_paths (ss_files base) final) ([], [])) (\<lambda>(patch, changes).
     Inr \<lparr>rp_base_sha256 = hexdigest sha encoded, rp_patch = patch, rp_patch_sha256 = hexdigest sha patch, rp_changes = changes\<rparr>))))))"

section \<open>Lines and hunks\<close>

lemma concat_pieces:
  "concat (map (\<lambda>w. w @ [c]) (butlast ws) @ (if last ws = [] then [] else [last ws])) = join [c] ws" if "ws \<noteq> []"
  using that by (induction "[c]" ws rule: join.induct) auto

lemma git_text_lines_concat: "git_text_lines content = Inr ls \<Longrightarrow> utf8_decode content = Some (concat ls)"
proof -
  assume "git_text_lines content = Inr ls"
  then obtain t where t: "utf8_decode content = Some t"
    "ls = map (\<lambda>w. w @ [10]) (butlast (split_on 10 t)) @ (if last (split_on 10 t) = [] then [] else [last (split_on 10 t)])"
    by (auto simp: git_text_lines_def Let_def split: option.splits if_splits)
  have "concat ls = t" unfolding t(2) concat_pieces [OF split_on_not_Nil] join_split_on ..
  with t(1) show ?thesis by simp
qed

definition text_of :: "snapshot_file option \<Rightarrow> pystr option" where
  "text_of f = (case f of None \<Rightarrow> Some [] | Some x \<Rightarrow> utf8_decode (sf_content x))"

lemma file_lines_text: "file_lines f = Inr ls \<Longrightarrow> text_of f = Some (concat ls)"
  by (auto simp: file_lines_def text_of_def git_text_lines_concat split: option.splits)

definition hunk_lines :: "hunk \<Rightarrow> pystr list" where
  "hunk_lines h = (u ''@@ -'' @ range_unified (hk_from h) (hk_to h) @ u '' +'' @ range_unified (hk_new_from h) (hk_new_to h) @
     u '' @@'' @ [10]) # hk_body h"

definition patch_text :: "pystr \<Rightarrow> snapshot_file option \<Rightarrow> snapshot_file option \<Rightarrow> hunk list \<Rightarrow> pystr list" where
  "patch_text p before after hs = (if hs = [] then [] else
     (u ''--- '' @ (if before = None then u ''/dev/null'' else u ''a/'' @ p) @ [10]) #
     (u ''+++ '' @ (if after = None then u ''/dev/null'' else u ''b/'' @ p) @ [10]) # concat (map hunk_lines hs))"

lemma hunk_lines_of: "hunk_lines (hunk_of a b g) = hunk_header g # concat (map (diff_lines a b) g)"
  by (auto simp: hunk_lines_def hunk_of_def hunk_header_def split: prod.splits)

lemma unified_diff_lf_hunks:
  "unified_diff_lf a b (if before = None then u ''/dev/null'' else u ''a/'' @ p) (if after = None then u ''/dev/null'' else u ''b/'' @ p) =
     patch_text p before after (map (hunk_of a b) (grouped_opcodes 3 True a b))"
  by (simp add: unified_diff_lf_def patch_text_def Let_def hunk_lines_of o_def)

lemma body_lines_replay:
  assumes "\<not> same_content before after" "body_lines p before after = Inr ls"
  shows "\<exists>old new hs. file_lines before = Inr old \<and> file_lines after = Inr new \<and> replay 0 old hs = Some new \<and>
    ls = map terminated (patch_text p before after hs)"
proof -
  from assms obtain old new where l: "file_lines before = Inr old" "file_lines after = Inr new"
    "ls = map terminated (unified_diff_lf old new (if before = None then u ''/dev/null'' else u ''a/'' @ p)
      (if after = None then u ''/dev/null'' else u ''b/'' @ p))"
    by (auto simp: body_lines_def rbind_Inr_iff)
  from replay_spans [OF grouped_opcodes_spans [of old new 3 True]]
  have "replay 0 old (map (hunk_of old new) (grouped_opcodes 3 True old new)) = Some new" by simp
  with l show ?thesis unfolding unified_diff_lf_hunks by blast
qed

section \<open>The inventory\<close>

lemma emit_Inr: "emit limit t st = Inr st' \<Longrightarrow> snd st' = snd st \<and> length (fst st) \<le> length (fst st') \<and> length (fst st') \<le> limit"
  by (auto simp: emit_def split: prod.splits option.splits if_splits)

lemma emit_all_Inr:
  "emit_all limit ts st = Inr st' \<Longrightarrow> snd st' = snd st \<and> length (fst st) \<le> length (fst st') \<and> length (fst st') \<le> max limit (length (fst st))"
proof (induction ts arbitrary: st)
  case (Cons t ts)
  then obtain s1 where s1: "emit limit t st = Inr s1" "emit_all limit ts s1 = Inr st'" by (auto simp: rbind_Inr_iff)
  from emit_Inr [OF s1(1)] Cons.IH [OF s1(2)] s1(2) show ?case by auto
qed simp

lemma emit_grows: "emit limit t st = Inr st' \<Longrightarrow> t \<noteq> [] \<Longrightarrow> length (fst st) < length (fst st')"
  by (cases t) (auto simp: emit_def utf8_encode_def utf8_char_def split: prod.splits option.splits if_splits)

lemma patch_path_Inr:
  assumes "patch_path sha limit base final p st = Inr st'"
  shows "if lookup_file base p = lookup_file final p then st' = st
    else snd st' = snd st @ [change_record sha p (lookup_file base p) (lookup_file final p)] \<and>
      length (fst st) < length (fst st') \<and> length (fst st') \<le> limit"
proof (cases "lookup_file base p = lookup_file final p")
  case True
  with assms show ?thesis by (simp add: patch_path_def)
next
  case False
  let ?s0 = "(fst st, snd st @ [change_record sha p (lookup_file base p) (lookup_file final p)])"
  let ?h = "u ''diff --git a/'' @ p @ u '' b/'' @ p @ [10]"
  from assms False obtain st1 body where
    b: "emit_all limit (?h # mode_lines (lookup_file base p) (lookup_file final p)) ?s0 = Inr st1" "emit_all limit body st1 = Inr st'"
    unfolding patch_path_def Let_def by (auto simp: rbind_Inr_iff split: if_splits simp del: emit_all.simps)
  then obtain st0 where h: "emit limit ?h ?s0 = Inr st0" "emit_all limit (mode_lines (lookup_file base p) (lookup_file final p)) st0 = Inr st1"
    by (auto simp: rbind_Inr_iff)
  from emit_grows [OF h(1)] have g: "length (fst st) < length (fst st0)" by simp
  from emit_all_Inr [OF h(2)] emit_all_Inr [OF b(1)] emit_all_Inr [OF b(2)] emit_Inr [OF h(1)]
  have "snd st' = snd ?s0" "length (fst st0) \<le> length (fst st')" "length (fst st') \<le> limit"
    by auto
  with g False show ?thesis by simp
qed

lemma patch_paths_Inr:
  "patch_paths sha limit base final ps st = Inr st' \<Longrightarrow>
    snd st' = snd st @ map (\<lambda>p. change_record sha p (lookup_file base p) (lookup_file final p))
      (filter (\<lambda>p. lookup_file base p \<noteq> lookup_file final p) ps) \<and>
    length (fst st) \<le> length (fst st') \<and> length (fst st') \<le> max limit (length (fst st)) \<and>
    (fst st' = fst st \<longleftrightarrow> filter (\<lambda>p. lookup_file base p \<noteq> lookup_file final p) ps = [])"
proof (induction ps arbitrary: st)
  case (Cons p ps)
  then obtain s1 where s1: "patch_path sha limit base final p st = Inr s1" "patch_paths sha limit base final ps s1 = Inr st'"
    by (auto simp: rbind_Inr_iff)
  from patch_path_Inr [OF s1(1)] Cons.IH [OF s1(2)] show ?case by (auto split: if_splits)
qed simp

lemma lookup_distinct: "distinct (map sf_path fs) \<Longrightarrow> lookup_file fs p = Some f \<longleftrightarrow> f \<in> set fs \<and> sf_path f = p"
  unfolding lookup_file_def by (subst map_of_eq_Some_iff) (auto simp: o_def rev_map [symmetric])

lemma sorted_files_unique:
  assumes "sort_key sf_path fs = fs" "sort_key sf_path gs = gs" "distinct (map sf_path fs)" "distinct (map sf_path gs)" "set fs = set gs"
  shows "fs = gs"
proof -
  from assms(1,2) have "sorted (map sf_path fs)" "sorted (map sf_path gs)" by (metis sorted_sort_key)+
  with assms(3-5) have "map sf_path fs = map sf_path gs" by (intro sorted_distinct_set_unique) auto
  moreover have "inj_on sf_path (set fs \<union> set gs)" using assms(3,5) by (simp add: distinct_map)
  ultimately show ?thesis by (rule map_inj_on)
qed

lemma no_change_iff:
  assumes "sort_key sf_path fs = fs" "sort_key sf_path gs = gs" "distinct (map sf_path fs)" "distinct (map sf_path gs)"
  shows "filter (\<lambda>p. lookup_file fs p \<noteq> lookup_file gs p) (all_paths fs gs) = [] \<longleftrightarrow> fs = gs"
proof
  assume "filter (\<lambda>p. lookup_file fs p \<noteq> lookup_file gs p) (all_paths fs gs) = []"
  then have e: "lookup_file fs p = lookup_file gs p" if "p \<in> sf_path ` set fs \<union> sf_path ` set gs" for p
    using that by (auto simp: filter_empty_conv all_paths_def)
  have "f \<in> set gs" if "f \<in> set fs" for f
    using e [of "sf_path f"] that lookup_distinct [OF assms(3), of "sf_path f" f] lookup_distinct [OF assms(4), of "sf_path f" f] by simp
  moreover have "f \<in> set fs" if "f \<in> set gs" for f
    using e [of "sf_path f"] that lookup_distinct [OF assms(3), of "sf_path f" f] lookup_distinct [OF assms(4), of "sf_path f" f] by simp
  ultimately show "fs = gs" by (intro sorted_files_unique [OF assms]) blast
qed simp

lemma build_review_patch_Inr:
  assumes "build_review_patch sha base final limit = Inr rp"
  shows "rp_changes rp = map (\<lambda>p. change_record sha p (lookup_file (ss_files base) p) (lookup_file final p))
      (filter (\<lambda>p. lookup_file (ss_files base) p \<noteq> lookup_file final p) (all_paths (ss_files base) final))"
    and "rp_patch rp = [] \<longleftrightarrow> final = ss_files base" and "rp_changes rp = [] \<longleftrightarrow> final = ss_files base"
    and "int (length (rp_patch rp)) \<le> limit" and "limit \<le> int MAX_PATCH_BYTES"
    and "rp_patch_sha256 rp = hexdigest sha (rp_patch rp)" and "\<exists>d. encode_snapshot sha base = Inr d \<and> rp_base_sha256 rp = hexdigest sha d"
proof -
  from assms obtain d patch changes where
    b: "1 \<le> limit" "limit \<le> int MAX_PATCH_BYTES" "patch_snapshot (encode_snapshot sha base) = Inr d"
      "patch_snapshot (validate_workspace_files final) = Inr ()"
      "patch_paths sha (nat limit) (ss_files base) final (all_paths (ss_files base) final) ([], []) = Inr (patch, changes)"
      "rp = \<lparr>rp_base_sha256 = hexdigest sha d, rp_patch = patch, rp_patch_sha256 = hexdigest sha patch, rp_changes = changes\<rparr>"
    by (auto simp: build_review_patch_def rbind_Inr_iff require_def split: if_splits)
  have e: "encode_snapshot sha base = Inr d" using b(3) by (cases "encode_snapshot sha base") simp_all
  have v: "validate_workspace_files final = Inr ()" using b(4) by (cases "validate_workspace_files final") simp_all
  from e have "files_valid (ss_files base) False = Inr ()" "sort_key sf_path (ss_files base) = ss_files base"
    by (simp_all add: encode_snapshot_Inr)
  moreover from v have "files_valid final True = Inr ()" "sort_key sf_path final = final"
    by (auto simp: validate_workspace_files_def rbind_Inr_iff)
  ultimately have n: "filter (\<lambda>p. lookup_file (ss_files base) p \<noteq> lookup_file final p) (all_paths (ss_files base) final) = [] \<longleftrightarrow>
      final = ss_files base" using no_change_iff [of "ss_files base" final] files_valid_ok by metis
  note p = patch_paths_Inr [OF b(5), simplified]
  show c: "rp_changes rp = map (\<lambda>p. change_record sha p (lookup_file (ss_files base) p) (lookup_file final p))
      (filter (\<lambda>p. lookup_file (ss_files base) p \<noteq> lookup_file final p) (all_paths (ss_files base) final))"
    using p b(6) by simp
  show "rp_changes rp = [] \<longleftrightarrow> final = ss_files base" unfolding c map_is_Nil_conv by (rule n)
  show "rp_patch rp = [] \<longleftrightarrow> final = ss_files base" using p n b(6) by simp
  show "int (length (rp_patch rp)) \<le> limit" using p b(1,6) by (simp add: le_nat_iff)
  show "limit \<le> int MAX_PATCH_BYTES" "rp_patch_sha256 rp = hexdigest sha (rp_patch rp)"
    "\<exists>d. encode_snapshot sha base = Inr d \<and> rp_base_sha256 rp = hexdigest sha d" using b e by simp_all
qed

section \<open>Properties\<close>



definition demo_file :: "string \<Rightarrow> snapshot_file" where
  "demo_file s = \<lparr>sf_path = u ''a'', sf_mode = u ''100644'', sf_content = ascii_bytes (u s)\<rparr>"


end
