(* ===== verification/WorkerPolicy.thy ===== *)
theory WorkerPolicy
  imports JobModels Utf8
begin

text \<open>
  \<open>night_shifts/worker_capabilities.py\<close>, \<open>worker_policy.py\<close> and \<open>execution_policy.py\<close>: which tools
  a worker profile has, which argument vectors it may run, and the value snapshot that bounds a
  live job.  \<open>uni\<close> is the Unicode printability that \<open>repr\<close> consults in error texts.
\<close>

section \<open>Tool names of a profile\<close>

definition RUN_COMMAND_TOOL :: pystr where "RUN_COMMAND_TOOL = u ''run_command''"
definition WRITE_ARTIFACT_TOOL :: pystr where "WRITE_ARTIFACT_TOOL = u ''write_artifact''"
definition LIST_FILES_TOOL :: pystr where "LIST_FILES_TOOL = u ''list_files''"
definition READ_FILE_TOOL :: pystr where "READ_FILE_TOOL = u ''read_file''"
definition SEARCH_TEXT_TOOL :: pystr where "SEARCH_TEXT_TOOL = u ''search_text''"
definition APPLY_PATCH_TOOL :: pystr where "APPLY_PATCH_TOOL = u ''apply_patch''"

lemmas tool_name_defs = RUN_COMMAND_TOOL_def WRITE_ARTIFACT_TOOL_def LIST_FILES_TOOL_def READ_FILE_TOOL_def
  SEARCH_TEXT_TOOL_def APPLY_PATCH_TOOL_def

definition profile_tools :: "(pystr \<times> pystr list) list" where
  "profile_tools =
     [(u ''coding-worker'', [LIST_FILES_TOOL, READ_FILE_TOOL, SEARCH_TEXT_TOOL, APPLY_PATCH_TOOL, RUN_COMMAND_TOOL,
         WRITE_ARTIFACT_TOOL]),
      (u ''read-only-worker'', [LIST_FILES_TOOL, READ_FILE_TOOL, SEARCH_TEXT_TOOL, WRITE_ARTIFACT_TOOL]),
      (u ''review-worker'', [LIST_FILES_TOOL, READ_FILE_TOOL, SEARCH_TEXT_TOOL, RUN_COMMAND_TOOL, WRITE_ARTIFACT_TOOL])]"

datatype policy_error =
    PolicyError pystr          \<comment> \<open>\<open>WorkerPolicyError\<close> or \<open>ValueError\<close> with this text\<close>
  | PolicyUnicode pystr        \<comment> \<open>\<open>UnicodeEncodeError\<close> for this argument\<close>
  | PolicyBlocked pystr        \<comment> \<open>\<open>ExecutionPolicyBlocked\<close>\<close>

definition worker_tool_names :: "(pychar \<Rightarrow> bool) \<Rightarrow> pystr \<Rightarrow> policy_error + pystr list" where
  "worker_tool_names uni profile = (case map_of profile_tools profile of
     Some names \<Rightarrow> Inr names
   | None \<Rightarrow> Inl (PolicyError (u ''Unknown worker profile '' @ py_repr uni profile @
       u ''. Expected one of: coding-worker, read-only-worker, review-worker'')))"

section \<open>Commands\<close>

record approved_command =
  ac_argv :: "pystr list"
  ac_timeout_seconds :: int
  ac_max_output_bytes :: int

definition profile_commands :: "(pystr \<times> pystr list) list" where
  "profile_commands =
     [(u ''coding-worker'', [u ''git'', u ''pytest'', u ''ruff'', u ''mypy'', u ''python'']),
      (u ''read-only-worker'', []),
      (u ''review-worker'', [u ''git'', u ''pytest'', u ''ruff'', u ''mypy'', u ''python''])]"

definition git_options :: "(pystr \<times> pystr list) list" where
  "git_options =
     [(u ''status'', [u ''--short'', u ''--porcelain'', u ''--branch'']),
      (u ''diff'', [u ''--check'', u ''--stat'', u ''--name-only'', u ''--cached'', u ''--no-ext-diff'']),
      (u ''log'', [u ''--oneline'', u ''--decorate'', u ''--no-decorate'', u ''--stat'']),
      (u ''show'', [u ''--stat'', u ''--name-only'', u ''--oneline'', u ''--no-ext-diff'']),
      (u ''rev-parse'', [u ''HEAD'', u ''--show-toplevel''])]"

definition test_options :: "pystr list" where
  "test_options = [u ''-q'', u ''-x'', u ''--quiet'', u ''--disable-warnings'']"

definition ruff_options :: "pystr list" where
  "ruff_options = [u ''--quiet'', u ''--no-cache'']"

definition mypy_options :: "pystr list" where
  "mypy_options = [u ''--no-incremental'', u ''--pretty'']"

definition compile_options :: "pystr list" where
  "compile_options = [u ''-q'', u ''-f'']"

text \<open>The full match of \<open>[A-Za-z0-9][A-Za-z0-9._/~-]{0,199}\<close>.\<close>

definition revision_match :: "pystr \<Rightarrow> bool" where
  "revision_match s \<longleftrightarrow> (case s of [] \<Rightarrow> False
     | c # r \<Rightarrow> is_alnum c \<and> length r \<le> 199 \<and> list_all (\<lambda>d. is_alnum d \<or> d \<in> set (u ''._/~-'')) r)"

definition max_arguments :: nat where "max_arguments = 128"
definition max_argument_bytes :: nat where "max_argument_bytes = 16 * 1024"

text \<open>\<open>PurePosixPath\<close>: the parts after the root, without empty and \<open>.\<close> components.\<close>

definition posix_parts :: "pystr \<Rightarrow> pystr list" where
  "posix_parts p = filter (\<lambda>w. w \<noteq> [] \<and> w \<noteq> u ''.'') (split_on 47 p)"

definition posix_absolute :: "pystr \<Rightarrow> bool" where
  "posix_absolute p \<longleftrightarrow> starts_with p (u ''/'')"

definition validate_relative_target :: "(pychar \<Rightarrow> bool) \<Rightarrow> pystr \<Rightarrow> policy_error + unit" where
  "validate_relative_target uni value =
     (if value = [] \<or> 0 \<in> set value \<or> 92 \<in> set value
      then Inl (PolicyError (u ''command target must be a non-empty POSIX relative path''))
      else if posix_absolute value \<or> u ''..'' \<in> set (posix_parts value)
      then Inl (PolicyError (u ''command target escapes the workspace: '' @ py_repr uni value))
      else Inr ())"

fun validate_targets :: "(pychar \<Rightarrow> bool) \<Rightarrow> pystr list \<Rightarrow> pystr list \<Rightarrow> policy_error + unit" where
  "validate_targets uni [] options = Inr ()"
| "validate_targets uni (argument # rest) options =
     (if argument \<in> set options then validate_targets uni rest options
      else if starts_with argument (u ''-'')
      then Inl (PolicyError (u ''command option is not allowed: '' @ py_repr uni argument))
      else rbind (validate_relative_target uni (before_first argument (u ''::''))) (\<lambda>_. validate_targets uni rest options))"

text \<open>The argument loop of \<open>_validate_git\<close> with its two flags.\<close>

fun git_arguments :: "(pychar \<Rightarrow> bool) \<Rightarrow> pystr \<Rightarrow> pystr list \<Rightarrow> bool \<Rightarrow> bool \<Rightarrow> pystr list \<Rightarrow> policy_error + unit" where
  "git_arguments uni sub options paths seen [] = Inr ()"
| "git_arguments uni sub options paths seen (argument # rest) =
     (if argument = u ''--'' then git_arguments uni sub options True seen rest
      else if paths then rbind (validate_relative_target uni argument) (\<lambda>_. git_arguments uni sub options paths seen rest)
      else if argument \<in> set options then git_arguments uni sub options paths seen rest
      else if sub \<in> {u ''log'', u ''show''} \<and> \<not> seen \<and> revision_match argument
      then git_arguments uni sub options paths True rest
      else Inl (PolicyError (u ''git '' @ sub @ u '' argument is not allowed: '' @ py_repr uni argument)))"

definition validate_git :: "(pychar \<Rightarrow> bool) \<Rightarrow> pystr list \<Rightarrow> policy_error + unit" where
  "validate_git uni argv = (case argv of
     _ # sub # arguments \<Rightarrow>
       (case map_of git_options sub of
          None \<Rightarrow> Inl (PolicyError (u ''git subcommand is not allowed''))
        | Some options \<Rightarrow>
            if sub = u ''rev-parse'' then
              (if arguments = [] \<or> \<not> list_all (\<lambda>a. a \<in> set options) arguments
               then Inl (PolicyError (u ''git rev-parse arguments are not allowed'')) else Inr ())
            else git_arguments uni sub options False False arguments)
   | _ \<Rightarrow> Inl (PolicyError (u ''git subcommand is not allowed'')))"

text \<open>\<open>sum(len(item.encode("utf-8")) for item in argv)\<close>; the first item that cannot be encoded raises.\<close>

fun encoded_total :: "pystr list \<Rightarrow> policy_error + nat" where
  "encoded_total [] = Inr 0"
| "encoded_total (a # as) = (case utf8_encode a of None \<Rightarrow> Inl (PolicyUnicode a)
     | Some b \<Rightarrow> rbind (encoded_total as) (\<lambda>n. Inr (length b + n)))"

definition validate_executable :: "(pychar \<Rightarrow> bool) \<Rightarrow> pystr list \<Rightarrow> policy_error + unit" where
  "validate_executable uni argv =
     (let exe = hd argv in
      if exe = u ''git'' then validate_git uni argv
      else if exe = u ''pytest'' then validate_targets uni (tl argv) test_options
      else if exe = u ''ruff'' then
        (if length argv < 2 \<or> argv ! 1 \<noteq> u ''check''
         then Inl (PolicyError (u ''ruff is restricted to the 'check' subcommand''))
         else validate_targets uni (drop 2 argv) ruff_options)
      else if exe = u ''mypy'' then validate_targets uni (tl argv) mypy_options
      else if exe = u ''python'' then
        (if length argv < 3 \<or> take 2 (tl argv) \<noteq> [u ''-m'', u ''compileall'']
         then Inl (PolicyError (u ''python is restricted to '-m compileall'' @ [39]))
         else validate_targets uni (drop 3 argv) compile_options)
      else Inr ())"

definition approve_worker_command ::
  "(pychar \<Rightarrow> bool) \<Rightarrow> pystr \<Rightarrow> pystr list \<Rightarrow> int \<Rightarrow> int \<Rightarrow> policy_error + approved_command" where
  "approve_worker_command uni profile argv timeout max_output =
     (case map_of profile_commands profile of
        None \<Rightarrow> Inl (PolicyError (u ''unknown worker profile: '' @ py_repr uni profile))
      | Some allowed \<Rightarrow>
          rbind (require (argv \<noteq> [] \<and> list_all (\<lambda>a. a \<noteq> []) argv)
                   (PolicyError (u ''command argv must contain non-empty strings''))) (\<lambda>_.
          rbind (if max_arguments < length argv then Inl (PolicyError (u ''command argv exceeds the policy limit''))
                 else rbind (encoded_total argv) (\<lambda>n.
                   require (n \<le> max_argument_bytes) (PolicyError (u ''command argv exceeds the policy limit'')))) (\<lambda>_.
          rbind (require (0 < timeout \<and> timeout \<le> 1800)
                   (PolicyError (u ''command timeout must be between 1 and 1800 seconds''))) (\<lambda>_.
          rbind (require (0 < max_output \<and> max_output \<le> 4 * 1024 * 1024)
                   (PolicyError (u ''command output limit must be between 1 byte and 4 MiB''))) (\<lambda>_.
          rbind (require (hd argv \<in> set allowed)
                   (PolicyError (py_repr uni (hd argv) @ u '' is not allowed for '' @ profile))) (\<lambda>_.
          rbind (validate_executable uni argv) (\<lambda>_.
          Inr \<lparr>ac_argv = argv, ac_timeout_seconds = timeout, ac_max_output_bytes = max_output\<rparr>)))))))"

section \<open>The execution policy\<close>

record executor_limits =
  max_turns :: int
  max_calls :: int
  max_summary_bytes :: int

definition make_executor_limits :: "int \<Rightarrow> int \<Rightarrow> int \<Rightarrow> policy_error + executor_limits" where
  "make_executor_limits t c b =
     rbind (require (0 < t \<and> t \<le> 128) (PolicyError (u ''max_turns must be between 1 and 128''))) (\<lambda>_.
     rbind (require (0 < c \<and> c \<le> 256) (PolicyError (u ''max_tool_calls must be between 1 and 256''))) (\<lambda>_.
     rbind (require (0 < b \<and> b \<le> 256 * 1024) (PolicyError (u ''max_summary_bytes must be between 1 byte and 256 KiB''))) (\<lambda>_.
     Inr \<lparr>max_turns = t, max_calls = c, max_summary_bytes = b\<rparr>)))"

record inference_limits =
  il_max_requests :: int
  il_max_messages :: int
  il_max_input_bytes :: int
  il_max_output_bytes :: int
  il_max_tool_calls :: int
  il_max_schema_bytes :: int
  il_ttl_seconds :: int

definition make_inference_limits :: "inference_limits \<Rightarrow> policy_error + inference_limits" where
  "make_inference_limits l =
     rbind (require (0 < il_max_requests l \<and> il_max_requests l \<le> 256)
              (PolicyError (u ''max_requests must be between 1 and 256''))) (\<lambda>_.
     rbind (require (0 < il_max_messages l \<and> il_max_messages l \<le> 512)
              (PolicyError (u ''max_messages must be between 1 and 512''))) (\<lambda>_.
     rbind (require (0 < il_max_input_bytes l \<and> il_max_input_bytes l \<le> 4 * 1024 * 1024)
              (PolicyError (u ''max_input_bytes must be between 1 byte and 4 MiB''))) (\<lambda>_.
     rbind (require (0 < il_max_output_bytes l \<and> il_max_output_bytes l \<le> 1024 * 1024)
              (PolicyError (u ''max_output_bytes must be between 1 byte and 1 MiB''))) (\<lambda>_.
     rbind (require (0 < il_max_tool_calls l \<and> il_max_tool_calls l \<le> 32)
              (PolicyError (u ''max_tool_calls_per_response must be between 1 and 32''))) (\<lambda>_.
     rbind (require (0 < il_max_schema_bytes l \<and> il_max_schema_bytes l \<le> 256 * 1024)
              (PolicyError (u ''max_tool_schema_bytes must be between 1 byte and 256 KiB''))) (\<lambda>_.
     rbind (require (0 < il_ttl_seconds l \<and> il_ttl_seconds l \<le> 24 * 60 * 60)
              (PolicyError (u ''ttl_seconds must be between 1 second and 24 hours''))) (\<lambda>_.
     Inr l)))))))"

definition default_inference_limits :: inference_limits where
  "default_inference_limits = \<lparr>il_max_requests = 32, il_max_messages = 96, il_max_input_bytes = 512 * 1024,
     il_max_output_bytes = 128 * 1024, il_max_tool_calls = 8, il_max_schema_bytes = 64 * 1024, il_ttl_seconds = 3600\<rparr>"

record execution_policy =
  ep_job_id :: pystr
  ep_repository_id :: pystr
  ep_base_revision :: pystr
  ep_image_sha256 :: pystr
  ep_provider_id :: pystr
  ep_model_id :: pystr
  ep_worker_profile :: pystr
  ep_plan :: agent_plan
  ep_reasoning_effort :: "pystr option"
  ep_service_tier :: pystr
  ep_sandbox :: sandbox_spec
  ep_budget :: job_budget

text \<open>\<open>[a-z0-9][a-z0-9._-]{0,63}\<close>\<close>

definition stable_id :: "pystr \<Rightarrow> bool" where
  "stable_id s \<longleftrightarrow> (case s of [] \<Rightarrow> False
     | c # r \<Rightarrow> (is_lower_letter c \<or> is_digit c) \<and> length r \<le> 63 \<and>
         list_all (\<lambda>d. is_lower_letter d \<or> is_digit d \<or> d \<in> set (u ''._-'')) r)"

definition efforts :: "pystr list" where
  "efforts = [u ''none'', u ''minimal'', u ''low'', u ''medium'', u ''high'', u ''xhigh'', u ''max'']"

definition default_sandbox :: sandbox_spec where
  "default_sandbox = \<lparr>cpu_count = 2, memory_mb = 4096, disk_gb = 20, network_enabled = False\<rparr>"

definition given :: "pystr option \<Rightarrow> bool" where
  "given x \<longleftrightarrow> x \<noteq> None \<and> x \<noteq> Some []"

definition policy_snapshot ::
  "(pychar \<Rightarrow> bool) \<Rightarrow> night_shift_job \<Rightarrow> pystr \<Rightarrow> pystr \<Rightarrow> pystr \<Rightarrow> pystr option \<Rightarrow> pystr \<Rightarrow>
   sandbox_spec option \<Rightarrow> policy_error + execution_policy" where
  "policy_snapshot uni job digest provider model effort tier sandbox =
     rbind (require (job_id job \<noteq> [] \<and> given (repository_id job) \<and> given (starting_revision job))
              (PolicyError (u ''job, approved repository and immutable revision are required''))) (\<lambda>_.
     rbind (require (hex_exactly 64 digest) (PolicyError (u ''reviewed image SHA-256 must be a lowercase digest''))) (\<lambda>_.
     rbind (require (stable_id provider \<and> stable_id model)
              (PolicyError (u ''provider and model must be trusted stable IDs''))) (\<lambda>_.
     rbind (worker_tool_names uni (worker_profile job)) (\<lambda>_.
     rbind (require (effort = None \<or> the effort \<in> set efforts) (PolicyError (u ''unsupported reasoning effort''))) (\<lambda>_.
     rbind (require (tier \<in> {u ''default'', u ''flex''}) (PolicyError (u ''unsupported service tier''))) (\<lambda>_.
     rbind (require (\<not> (tier = u ''flex'' \<and> plan job \<noteq> FLEX))
              (PolicyError (u ''service tier conflicts with the job plan''))) (\<lambda>_.
     let selected = (case sandbox of None \<Rightarrow> default_sandbox | Some x \<Rightarrow> x) in
     rbind (require (\<not> network_enabled selected)
              (PolicyError (u ''network-enabled worker sandboxes are not approved''))) (\<lambda>_.
     Inr \<lparr>ep_job_id = job_id job, ep_repository_id = the (repository_id job),
          ep_base_revision = the (starting_revision job), ep_image_sha256 = digest, ep_provider_id = provider,
          ep_model_id = model, ep_worker_profile = worker_profile job, ep_plan = plan job,
          ep_reasoning_effort = effort, ep_service_tier = tier, ep_sandbox = selected, ep_budget = budget job\<rparr>))))))))"

definition executor_limits_of :: "execution_policy \<Rightarrow> policy_error + executor_limits" where
  "executor_limits_of p = make_executor_limits (max_model_requests (ep_budget p))
     (min (max_tool_calls (ep_budget p)) 256) (min (max_output_bytes (ep_budget p)) (256 * 1024))"

definition inference_limits_of :: "execution_policy \<Rightarrow> policy_error + inference_limits" where
  "inference_limits_of p = make_inference_limits (default_inference_limits
     \<lparr>il_max_requests := max_model_requests (ep_budget p), il_max_input_bytes := max_input_bytes (ep_budget p),
      il_max_output_bytes := max_output_bytes (ep_budget p), il_ttl_seconds := min (timeout_seconds (ep_budget p)) 86400\<rparr>)"

definition require_live_guarantees :: "execution_policy \<Rightarrow> bool \<Rightarrow> bool \<Rightarrow> policy_error + unit" where
  "require_live_guarantees p inference_cancellable tool_cancellable =
     (if max_cost_usd (ep_budget p) \<noteq> JNull
      then Inl (PolicyBlocked (u ''strict USD ceiling has no trusted pricing and pre-call reservation''))
      else if \<not> inference_cancellable \<or> \<not> tool_cancellable
      then Inl (PolicyBlocked (u ''host inference and tool transport are not hard-cancellable yet''))
      else Inr ())"

section \<open>What an approved command can name\<close>

text \<open>
  The reference meaning of a path: its components walked from the workspace root.  \<open>None\<close> is a
  walk that leaves the workspace.
\<close>

fun walk :: "pystr list \<Rightarrow> pystr list \<Rightarrow> pystr list option" where
  "walk here [] = Some here"
| "walk here (w # ws) =
     (if w = [] \<or> w = u ''.'' then walk here ws
      else if w = u ''..'' then (case here of [] \<Rightarrow> None | _ # up \<Rightarrow> walk up ws)
      else walk (w # here) ws)"

definition inside_workspace :: "pystr \<Rightarrow> bool" where
  "inside_workspace p \<longleftrightarrow> \<not> posix_absolute p \<and> 0 \<notin> set p \<and> walk [] (split_on 47 p) \<noteq> None"

lemma walk_no_dotdot: "u ''..'' \<notin> set ws \<Longrightarrow> walk here ws \<noteq> None"
  by (induction ws arbitrary: here) (auto split: list.split)

lemma validate_relative_target_inside:
  "validate_relative_target uni p = Inr () \<Longrightarrow> p \<noteq> [] \<and> inside_workspace p"
  using walk_no_dotdot [of "split_on 47 p" "[]"]
  by (auto simp: validate_relative_target_def inside_workspace_def posix_parts_def split: if_splits)

text \<open>
  What an argument of an approved command may be: one of the fixed words of its program, a path
  inside the workspace (for the test tools up to a \<open>::\<close> selector), or, once and only for
  \<open>git log\<close> and \<open>git show\<close>, a revision of letters, digits and \<open>._/~-\<close>.
\<close>

definition fixed_words :: "pystr list" where
  "fixed_words = concat (map snd git_options) @ map fst git_options @ test_options @ ruff_options @ mypy_options @
     compile_options @ [u ''--'', u ''check'', u ''-m'', u ''compileall'']"

definition harmless :: "pystr \<Rightarrow> bool" where
  "harmless a \<longleftrightarrow> a \<in> set fixed_words \<or> inside_workspace a \<or> inside_workspace (before_first a (u ''::''))"

lemma validate_targets_harmless:
  "validate_targets uni as options = Inr () \<Longrightarrow> set options \<subseteq> set fixed_words \<Longrightarrow> list_all harmless as"
  by (induction as) (auto simp: harmless_def rbind_Inr_iff dest!: validate_relative_target_inside split: if_splits)

lemma git_arguments_harmless:
  "git_arguments uni sub options paths seen as = Inr () \<Longrightarrow> set options \<subseteq> set fixed_words \<Longrightarrow>
   length (filter (\<lambda>a. \<not> harmless a) as) \<le> (if seen \<or> sub \<notin> {u ''log'', u ''show''} then 0 else 1) \<and>
   list_all (\<lambda>a. harmless a \<or> revision_match a) as"
proof (induction as arbitrary: paths seen)
  case (Cons a as)
  have dash: "u ''--'' \<in> set fixed_words" by (simp add: fixed_words_def)
  show ?case
  proof (cases "a = u ''--'' \<or> paths \<or> a \<in> set options")
    case True
    then obtain p where "harmless a" "git_arguments uni sub options p seen as = Inr ()"
      using Cons.prems dash by (auto simp: harmless_def rbind_Inr_iff dest!: validate_relative_target_inside split: if_splits)
    then show ?thesis using Cons.IH [of p seen] Cons.prems(2) by simp
  next
    case False
    with Cons.prems(1) have "sub \<in> {u ''log'', u ''show''}" "\<not> seen" "revision_match a"
      "git_arguments uni sub options paths True as = Inr ()" by (auto split: if_splits)
    with Cons.IH [of paths True] Cons.prems(2) show ?thesis by auto
  qed
qed simp

lemma fixed_words_options:
  "set test_options \<subseteq> set fixed_words" "set ruff_options \<subseteq> set fixed_words" "set mypy_options \<subseteq> set fixed_words"
  "set compile_options \<subseteq> set fixed_words" "map_of git_options sub = Some os \<Longrightarrow> set os \<subseteq> set fixed_words"
  "map_of git_options sub = Some os \<Longrightarrow> sub \<in> set fixed_words"
  by (auto simp: fixed_words_def dest!: map_of_SomeD) force+

lemma validate_git_harmless:
  assumes "validate_git uni argv = Inr ()" and "argv \<noteq> []"
  shows "list_all (\<lambda>a. harmless a \<or> revision_match a) (tl argv) \<and> length (filter (\<lambda>a. \<not> harmless a) (tl argv)) \<le> 1 \<and>
    (list_all harmless (tl argv) \<or> argv ! 1 \<in> {u ''log'', u ''show''})"
proof -
  obtain exe sub as os where argv: "argv = exe # sub # as" and os: "map_of git_options sub = Some os"
    using assms by (auto simp: validate_git_def split: list.splits option.splits)
  have sub: "harmless sub" using fixed_words_options(6) [OF os] by (simp add: harmless_def)
  show ?thesis
  proof (cases "sub = u ''rev-parse''")
    case True
    with assms(1) argv os have "list_all (\<lambda>a. a \<in> set os) as" by (auto simp: validate_git_def split: if_splits)
    then have "list_all harmless as" using fixed_words_options(5) [OF os] by (auto simp: list_all_iff harmless_def)
    then show ?thesis using sub argv by (auto simp: list_all_iff)
  next
    case False
    with assms(1) argv os have "git_arguments uni sub os False False as = Inr ()" by (auto simp: validate_git_def)
    from git_arguments_harmless [OF this fixed_words_options(5) [OF os]] show ?thesis
      using sub argv by (auto simp: list_all_iff filter_empty_conv split: if_splits)
  qed
qed

lemma validate_executable_harmless:
  assumes "validate_executable uni argv = Inr ()" and "argv \<noteq> []"
    and "hd argv \<in> {u ''git'', u ''pytest'', u ''ruff'', u ''mypy'', u ''python''}"
  shows "list_all (\<lambda>a. harmless a \<or> revision_match a) (tl argv) \<and> length (filter (\<lambda>a. \<not> harmless a) (tl argv)) \<le> 1 \<and>
    (list_all harmless (tl argv) \<or> hd argv = u ''git'' \<and> argv ! 1 \<in> {u ''log'', u ''show''})"
proof -
  have all: "?thesis" if "list_all harmless (tl argv)"
    using that by (auto simp: list_all_iff filter_empty_conv intro: le_SucI)
  have w: "harmless (u ''check'')" "harmless (u ''-m'')" "harmless (u ''compileall'')"
    by (simp_all add: harmless_def fixed_words_def)
  obtain exe rest where argv: "argv = exe # rest" using assms(2) by (cases argv) auto
  consider "exe = u ''git''" | "exe = u ''pytest''" | "exe = u ''ruff''" | "exe = u ''mypy''" | "exe = u ''python''"
    using assms(3) argv by auto
  then show ?thesis
  proof cases
    case 1
    then show ?thesis
      using validate_git_harmless [of uni argv] assms argv by (auto simp: validate_executable_def Let_def)
  next
    case 2
    then show ?thesis
      using assms(1) argv all fixed_words_options(1) validate_targets_harmless
      by (auto simp: validate_executable_def Let_def)
  next
    case 3
    then have "rest = u ''check'' # tl rest" "validate_targets uni (tl rest) ruff_options = Inr ()"
      using assms(1) argv by (cases rest; auto simp: validate_executable_def Let_def split: if_splits)+
    then have "list_all harmless rest"
      using validate_targets_harmless fixed_words_options(2) w(1) by (metis list.pred_inject(2))
    then show ?thesis using all argv by simp
  next
    case 4
    then show ?thesis
      using assms(1) argv all fixed_words_options(3) validate_targets_harmless
      by (auto simp: validate_executable_def Let_def)
  next
    case 5
    then have t: "take 2 rest = [u ''-m'', u ''compileall'']" "validate_targets uni (drop 2 rest) compile_options = Inr ()"
      using assms(1) argv by (auto simp: validate_executable_def Let_def split: if_splits)
    have "list_all harmless (take 2 rest @ drop 2 rest)"
      unfolding t(1) using validate_targets_harmless [OF t(2) fixed_words_options(4)] w by simp
    then show ?thesis using all argv by simp
  qed
qed

lemma approve_Inr:
  "approve_worker_command uni profile argv timeout max_output = Inr c \<Longrightarrow>
     \<exists>allowed n. map_of profile_commands profile = Some allowed \<and> argv \<noteq> [] \<and> length argv \<le> max_arguments \<and>
       encoded_total argv = Inr n \<and> n \<le> max_argument_bytes \<and> 0 < timeout \<and> timeout \<le> 1800 \<and>
       0 < max_output \<and> max_output \<le> 4 * 1024 * 1024 \<and> hd argv \<in> set allowed \<and>
       validate_executable uni argv = Inr () \<and>
       c = \<lparr>ac_argv = argv, ac_timeout_seconds = timeout, ac_max_output_bytes = max_output\<rparr>"
  by (auto simp: approve_worker_command_def rbind_Inr_iff split: option.splits if_splits)

lemma profile_commands_Some:
  "map_of profile_commands p = Some cs \<Longrightarrow>
     p = u ''read-only-worker'' \<and> cs = [] \<or>
     p \<in> {u ''coding-worker'', u ''review-worker''} \<and>
       cs = [u ''git'', u ''pytest'', u ''ruff'', u ''mypy'', u ''python'']"
  by (auto simp: profile_commands_def split: if_splits)

section \<open>Properties\<close>



text \<open>
  The two tables agree: a known profile owns the \<open>run_command\<close> tool exactly if some command
  would be approved for it.
\<close>

theorem run_command_tool_matches_policy:
  assumes "worker_tool_names uni profile = Inr names"
  shows "RUN_COMMAND_TOOL \<in> set names \<longleftrightarrow> (\<exists>argv t m c. approve_worker_command uni profile argv t m = Inr c)"
proof -
  from assms have n: "map_of profile_tools profile = Some names"
    by (auto simp: worker_tool_names_def split: option.splits)
  have ok: "\<exists>c. approve_worker_command uni p [u ''git'', u ''status''] 1 1 = Inr c"
    if "p \<in> {u ''coding-worker'', u ''review-worker''}" for p
  proof -
    have "encoded_total [u ''git'', u ''status''] = Inr 9" by code_simp
    moreover have "validate_executable uni [u ''git'', u ''status''] = Inr ()"
      by (simp add: validate_executable_def validate_git_def git_options_def)
    ultimately show ?thesis
      using that by (auto simp: approve_worker_command_def profile_commands_def max_arguments_def max_argument_bytes_def)
  qed
  have "profile \<in> {u ''coding-worker'', u ''review-worker''} \<longleftrightarrow> RUN_COMMAND_TOOL \<in> set names"
    using n by (auto simp: profile_tools_def tool_name_defs split: if_splits)
  then show ?thesis
    using ok approve_Inr profile_commands_Some by (metis empty_iff empty_set)
qed

theorem run_command_tool_matches_policy_witness:
  "\<not> (\<exists>argv t m c. approve_worker_command (\<lambda>_. False) (u ''read-only-worker'') argv t m = Inr c)"
proof -
  have "worker_tool_names (\<lambda>_. False) (u ''read-only-worker'') =
      Inr [LIST_FILES_TOOL, READ_FILE_TOOL, SEARCH_TEXT_TOOL, WRITE_ARTIFACT_TOOL]"
    by (simp add: worker_tool_names_def profile_tools_def)
  from run_command_tool_matches_policy [OF this] show ?thesis by (simp add: tool_name_defs)
qed

text \<open>
  The policy snapshot of a job with a valid budget never allows the network, uses the flex
  tier only for a flex job, and its executor and inference limits are always constructible and
  within the job's own budget.
\<close>

theorem snapshot_policy_bounded:
  assumes "policy_snapshot uni job digest provider model effort tier sandbox = Inr p" and "budget_ok (budget job)"
  shows "\<not> network_enabled (ep_sandbox p) \<and> (ep_service_tier p = u ''flex'' \<longrightarrow> plan job = FLEX) \<and>
    (\<exists>l i. executor_limits_of p = Inr l \<and> inference_limits_of p = Inr i \<and>
       max_turns l = max_model_requests (budget job) \<and> il_max_requests i = max_turns l \<and>
       max_calls l \<le> max_tool_calls (budget job) \<and> max_summary_bytes l \<le> max_output_bytes (budget job) \<and>
       il_max_input_bytes i = max_input_bytes (budget job) \<and> il_max_output_bytes i = max_output_bytes (budget job) \<and>
       il_ttl_seconds i = timeout_seconds (budget job))"
proof -
  from assms(1) have b: "ep_budget p = budget job" "\<not> network_enabled (ep_sandbox p)"
      "ep_service_tier p = u ''flex'' \<longrightarrow> plan job = FLEX"
    by (auto simp: policy_snapshot_def rbind_Inr_iff Let_def)
  with assms(2) show ?thesis
    by (auto simp: executor_limits_of_def inference_limits_of_def make_executor_limits_def make_inference_limits_def
        default_inference_limits_def budget_ok_def min_def)
qed

definition policy_job :: night_shift_job where
  "policy_job = \<lparr>title = u ''t'', objective = u ''o'', worker_profile = u ''coding-worker'', repository_id = Some (u ''r''),
     starting_revision = Some (u ''abc''), acceptance_criteria = [],
     budget = \<lparr>timeout_seconds = 60, max_tool_calls = 500, max_cost_usd = JNull, max_model_requests = 4,
       max_input_bytes = 1000, max_output_bytes = 1000000, max_output_tokens = 100, max_command_seconds = 10\<rparr>,
     plan = FLEX, job_id = u ''j1'', status = JS_QUEUED, created_at = 1, updated_at = 1,
     cancellation_requested = False, result_summary = None\<rparr>"

theorem snapshot_policy_bounded_witness:
  "\<exists>p l. policy_snapshot (\<lambda>_. False) policy_job (replicate 64 97) (u ''openai'') (u ''m1'') None (u ''flex'') None = Inr p \<and>
     executor_limits_of p = Inr l \<and> max_turns l = 4 \<and> max_calls l \<le> 500"
proof -
  have "\<not> isl (policy_snapshot (\<lambda>_. False) policy_job (replicate 64 97) (u ''openai'') (u ''m1'') None (u ''flex'') None)"
    by code_simp
  then obtain p where p: "policy_snapshot (\<lambda>_. False) policy_job (replicate 64 97) (u ''openai'') (u ''m1'') None (u ''flex'') None = Inr p"
    by (auto simp: isl_def) (metis sum.exhaust)
  have "budget_ok (budget policy_job)" by (simp add: policy_job_def budget_ok_def)
  from snapshot_policy_bounded [OF p this] p show ?thesis by (auto simp: policy_job_def)
qed

end
