(* ===== verification/BundleReport.thy ===== *)
theory BundleReport
  imports ReviewPatch WorkerPolicy WorkerProtocol JobStorage
begin

text \<open>
  The evaluation in \<open>ReviewBundleStore.collect\<close> (\<open>night_shifts/review_bundle.py\<close>): which evidence of a
  job is acceptable, which reasons speak against a review, the report, and when a job is ready.
\<close>

section \<open>Evidence\<close>

record observed_operation =
  oo_name :: pystr
  oo_argv :: "pystr list"
  oo_exit_code :: "int option"
  oo_output :: pystr
  oo_timed_out :: bool
  oo_output_truncated :: bool

record replay_evidence =
  re_sandbox_id :: pystr
  re_base_sha256 :: pystr
  re_patch_sha256 :: pystr
  re_final_sha256 :: pystr
  re_matches_final :: bool
  re_cleanup :: cleanup_status

record bundle_request =
  br_policy :: execution_policy
  br_task :: worker_task
  br_base :: snapshot
  br_final :: "snapshot_file list option"
  br_result :: "worker_result option"
  br_sandbox :: "pystr option"
  br_configured :: "pystr list"
  br_checks :: "observed_operation list"
  br_commands :: "observed_operation list"
  br_cleanup :: cleanup_status
  br_replay :: "replay_evidence option"
  br_diagnostics :: "pystr list"

text \<open>\<open>ReviewBundleError\<close>, the \<open>SnapshotError\<close> of the base, or a \<open>UnicodeEncodeError\<close>.\<close>

datatype bundle_error = BundleError pystr | BundleSnapshot snapshot_error | BundleUnicode

definition REPORT_LIMIT :: nat where "REPORT_LIMIT = 256 * 1024"
definition META_LIMIT :: nat where "META_LIMIT = 4096"
definition LOG_LIMIT :: nat where "LOG_LIMIT = 16 * 1024"

definition bundle_json :: "json \<Rightarrow> nat \<Rightarrow> bundle_error + bytes" where
  "bundle_json j limit =
     (if \<not> all_finite j then Inl (BundleError (u ''review metadata is not bounded JSON''))
      else if limit < length (canonical_bytes j) then Inl (BundleError (u ''review metadata exceeds byte limit''))
      else Inr (canonical_bytes j))"

definition bundle_text :: "pystr \<Rightarrow> nat \<Rightarrow> bundle_error + unit" where
  "bundle_text s limit = (case utf8_encode s of None \<Rightarrow> Inl BundleUnicode
     | Some e \<Rightarrow> require (length e \<le> limit) (BundleError (u ''review text is invalid or exceeds byte limit'')))"

definition manifest_digest :: "(bytes \<Rightarrow> nat) \<Rightarrow> snapshot_file list \<Rightarrow> bundle_error + pystr" where
  "manifest_digest sha files =
     rbind (bundle_json (JArr (map (\<lambda>f. JObj [(u ''path'', JStr (sf_path f)), (u ''mode'', JStr (sf_mode f)),
       (u ''sha256'', JStr (hexdigest sha (sf_content f)))]) files)) REPORT_LIMIT) (\<lambda>b. Inr (hexdigest sha b))"

section \<open>Operations\<close>

fun argv_check :: "pystr list \<Rightarrow> bundle_error + unit" where
  "argv_check [] = Inr ()"
| "argv_check (a # as) = (case utf8_encode a of None \<Rightarrow> Inl BundleUnicode
     | Some e \<Rightarrow> if 1024 < length e then Inl (BundleError (u ''operation evidence is invalid'')) else argv_check as)"

text \<open>The longest prefix within a number of UTF-8 bytes: a cut-off tail is ignored by the decoder.\<close>

fun utf8_prefix :: "nat \<Rightarrow> pystr \<Rightarrow> pystr" where
  "utf8_prefix n [] = []"
| "utf8_prefix n (c # s) = (if n < length (utf8_char c) then [] else c # utf8_prefix (n - length (utf8_char c)) s)"

definition operation_data :: "observed_operation \<Rightarrow> bundle_error + observed_operation" where
  "operation_data op =
     (let invalid = BundleError (u ''operation evidence is invalid'') in
      rbind (require (slug (oo_name op) \<and> 0 < length (oo_argv op) \<and> length (oo_argv op) \<le> 16) invalid) (\<lambda>_.
      rbind (argv_check (oo_argv op)) (\<lambda>_.
      rbind (require (case oo_exit_code op of None \<Rightarrow> True | Some c \<Rightarrow> -65535 \<le> c \<and> c \<le> 65535) invalid) (\<lambda>_.
      case utf8_encode (oo_output op) of
        None \<Rightarrow> Inl (BundleError (u ''operation output is invalid UTF-8''))
      | Some e \<Rightarrow> Inr (if LOG_LIMIT < length e
          then op\<lparr>oo_output := utf8_prefix LOG_LIMIT (oo_output op), oo_output_truncated := True\<rparr> else op)))))"

definition operation_json :: "observed_operation \<Rightarrow> json" where
  "operation_json op = JObj [(u ''name'', JStr (oo_name op)), (u ''argv'', JArr (map JStr (oo_argv op))),
     (u ''exit_code'', case oo_exit_code op of None \<Rightarrow> JNull | Some c \<Rightarrow> JInt c), (u ''output'', JStr (oo_output op)),
     (u ''timed_out'', JBool (oo_timed_out op)), (u ''output_truncated'', JBool (oo_output_truncated op)),
     (u ''source'', JStr (u ''host-request/guest-response''))]"

section \<open>Judgements\<close>

definition unfinished :: "observed_operation \<Rightarrow> bool" where
  "unfinished op \<longleftrightarrow> oo_timed_out op \<or> oo_output_truncated op \<or> oo_exit_code op = None"

text \<open>The status of the configured checks, and whether their evidence is missing, duplicate or unexpected.\<close>

definition judge_checks :: "pystr list \<Rightarrow> observed_operation list \<Rightarrow> check_status \<times> bool" where
  "judge_checks configured data =
     (if \<not> distinct (map oo_name data) \<or> set (map oo_name data) \<noteq> set configured
      then (if configured \<noteq> [] \<or> data \<noteq> [] then (CK_INCOMPLETE, True) else (CK_NOT_RUN, False))
      else if configured = [] then (CK_NOT_RUN, False)
      else if list_ex unfinished data then (CK_INCOMPLETE, False)
      else if list_ex (\<lambda>op. oo_exit_code op \<noteq> Some 0) data then (CK_FAILED, False)
      else (CK_PASSED, False))"

definition unknown_usage :: json where
  "unknown_usage = JObj [(u ''unknown'', JBool True)]"

definition text_fits :: "pystr \<Rightarrow> nat \<Rightarrow> bool" where
  "text_fits s limit \<longleftrightarrow> bundle_text s limit = Inr ()"

record worker_view =
  wv_outcome :: worker_outcome
  wv_summary :: pystr
  wv_error :: "pystr option"
  wv_metrics :: "(pystr \<times> json) list"
  wv_reasons :: "pystr list"

definition has_usage :: "(pystr \<times> json) list \<Rightarrow> bool" where
  "has_usage m \<longleftrightarrow> (case map_of m (u ''usage'') of Some (JObj _) \<Rightarrow> True | _ \<Rightarrow> False)"

definition metrics_bounded :: "(pystr \<times> json) list \<Rightarrow> bool" where
  "metrics_bounded m \<longleftrightarrow> \<not> isl (bundle_json (JObj m) (32 * 1024))"

definition reason_if :: "bool \<Rightarrow> string \<Rightarrow> pystr list" where
  "reason_if b t = (if b then [u t] else [])"

definition judge_worker :: "pystr \<Rightarrow> worker_result option \<Rightarrow> worker_view" where
  "judge_worker job r = (case r of
     Some res \<Rightarrow>
       if wr_job_id res = job then
         \<lparr>wv_outcome = wr_outcome res,
          wv_summary = (if text_fits (wr_summary res) (16 * 1024) then wr_summary res
            else u ''Worker summary omitted: invalid or oversized.''),
          wv_error = (case wr_error res of None \<Rightarrow> None
            | Some e \<Rightarrow> Some (if text_fits e 4096 then e else u ''Worker error omitted: invalid or oversized.'')),
          wv_metrics = (if \<not> metrics_bounded (wr_metrics res) then [(u ''usage'', unknown_usage)]
            else if has_usage (wr_metrics res) then wr_metrics res else dput (u ''usage'') unknown_usage (wr_metrics res)),
          wv_reasons =
            reason_if (\<not> text_fits (wr_summary res) (16 * 1024)) ''worker summary was invalid or oversized'' @
            reason_if (case wr_error res of None \<Rightarrow> False | Some e \<Rightarrow> \<not> text_fits e 4096) ''worker error was invalid or oversized'' @
            (if \<not> metrics_bounded (wr_metrics res) then [u ''worker metrics were invalid or oversized'']
             else reason_if (\<not> has_usage (wr_metrics res)) ''provider usage is unavailable'')\<rparr>
       else \<lparr>wv_outcome = WO_FAILED, wv_summary = u ''Worker result unavailable.'', wv_error = None,
          wv_metrics = [(u ''usage'', unknown_usage)], wv_reasons = [u ''worker result is missing or has the wrong job ID'']\<rparr>
   | None \<Rightarrow> \<lparr>wv_outcome = WO_FAILED, wv_summary = u ''Worker result unavailable.'', wv_error = None,
          wv_metrics = [(u ''usage'', unknown_usage)], wv_reasons = [u ''worker result is missing or has the wrong job ID'']\<rparr>)"

record patch_view =
  pv_patch :: "bytes option"
  pv_final_sha256 :: "pystr option"
  pv_changes :: "changed_file list"
  pv_reasons :: "pystr list"

definition judge_patch :: "(bytes \<Rightarrow> nat) \<Rightarrow> snapshot \<Rightarrow> snapshot_file list option \<Rightarrow> bundle_error + patch_view" where
  "judge_patch sha base final = (case final of
     None \<Rightarrow> Inr \<lparr>pv_patch = None, pv_final_sha256 = None, pv_changes = [], pv_reasons = [u ''complete final workspace export is missing'']\<rparr>
   | Some files \<Rightarrow> (case build_review_patch sha base files (int MAX_PATCH_BYTES) of
         Inl e \<Rightarrow> Inr \<lparr>pv_patch = None, pv_final_sha256 = None, pv_changes = [],
             pv_reasons = [u ''final workspace is unsafe, incomplete or unrepresentable'']\<rparr>
       | Inr rp \<Rightarrow> rbind (manifest_digest sha files) (\<lambda>d.
           Inr \<lparr>pv_patch = Some (rp_patch rp), pv_final_sha256 = Some d, pv_changes = rp_changes rp, pv_reasons = []\<rparr>)))"

definition replay_ok :: "(bytes \<Rightarrow> nat) \<Rightarrow> pystr \<Rightarrow> pystr option \<Rightarrow> patch_view \<Rightarrow> replay_evidence option \<Rightarrow> bool" where
  "replay_ok sha base_digest sandbox pv rep = (case (pv_patch pv, rep) of
     (Some patch, Some e) \<Rightarrow> hex_exactly 32 (re_sandbox_id e) \<and> Some (re_sandbox_id e) \<noteq> sandbox \<and>
       re_base_sha256 e = base_digest \<and> re_patch_sha256 e = hexdigest sha patch \<and>
       Some (re_final_sha256 e) = pv_final_sha256 pv \<and> re_matches_final e \<and> re_cleanup e = CL_CLEAN
   | _ \<Rightarrow> False)"

section \<open>The report\<close>

definition sandbox_json :: "sandbox_spec \<Rightarrow> json" where
  "sandbox_json s = JObj [(u ''cpu_count'', JInt (cpu_count s)), (u ''memory_mb'', JInt (memory_mb s)),
     (u ''disk_gb'', JInt (disk_gb s)), (u ''network_enabled'', JBool (network_enabled s))]"

definition policy_json :: "execution_policy \<Rightarrow> json" where
  "policy_json p = JObj [(u ''job_id'', JStr (ep_job_id p)), (u ''repository_id'', JStr (ep_repository_id p)),
     (u ''base_revision'', JStr (ep_base_revision p)), (u ''image_sha256'', JStr (ep_image_sha256 p)),
     (u ''provider_id'', JStr (ep_provider_id p)), (u ''model_id'', JStr (ep_model_id p)),
     (u ''worker_profile'', JStr (ep_worker_profile p)), (u ''plan'', JStr (agent_plan_value (ep_plan p))),
     (u ''reasoning_effort'', opt_str (ep_reasoning_effort p)), (u ''service_tier'', JStr (ep_service_tier p)),
     (u ''sandbox'', sandbox_json (ep_sandbox p)), (u ''budget'', budget_json (ep_budget p))]"

definition change_json :: "changed_file \<Rightarrow> json" where
  "change_json c = JObj [(u ''path'', JStr (cf_path c)), (u ''change'', JStr (change_value (cf_change c))),
     (u ''before_sha256'', opt_str (cf_before_sha256 c)), (u ''after_sha256'', opt_str (cf_after_sha256 c)),
     (u ''before_mode'', opt_str (cf_before_mode c)), (u ''after_mode'', opt_str (cf_after_mode c))]"

definition replay_json :: "replay_evidence option \<Rightarrow> json" where
  "replay_json r = (case r of None \<Rightarrow> JNull
   | Some e \<Rightarrow> JObj [(u ''sandbox_id'', JStr (re_sandbox_id e)), (u ''base_snapshot_sha256'', JStr (re_base_sha256 e)),
       (u ''patch_sha256'', JStr (re_patch_sha256 e)), (u ''final_manifest_sha256'', JStr (re_final_sha256 e)),
       (u ''matches_final'', JBool (re_matches_final e)), (u ''cleanup_status'', JStr (cleanup_status_value (re_cleanup e)))])"

record bundle_plan =
  bp_state :: pystr
  bp_reasons :: "pystr list"
  bp_report :: json
  bp_patch :: "bytes option"

definition report_json :: "bundle_request \<Rightarrow> pystr \<Rightarrow> observed_operation list \<Rightarrow> observed_operation list \<Rightarrow> check_status \<Rightarrow>
    worker_view \<Rightarrow> patch_view \<Rightarrow> pystr \<Rightarrow> pystr list \<Rightarrow> json" where
  "report_json req base_digest checks commands ck wv pv state reasons = JObj
     [(u ''version'', JInt 1), (u ''job_id'', JStr (ep_job_id (br_policy req))), (u ''state'', JStr state),
      (u ''reasons'', JArr (map JStr reasons)), (u ''configuration'', policy_json (br_policy req)),
      (u ''task'', JObj [(u ''objective'', JStr (tk_objective (br_task req))),
         (u ''acceptance_criteria'', JArr (map JStr (tk_acceptance_criteria (br_task req))))]),
      (u ''base_snapshot_sha256'', JStr base_digest), (u ''final_manifest_sha256'', opt_str (pv_final_sha256 pv)),
      (u ''image_sha256'', JStr (ss_image_sha256 (br_base req))), (u ''execution_sandbox_id'', opt_str (br_sandbox req)),
      (u ''changes'', JArr (map change_json (pv_changes pv))), (u ''check_status'', JStr (check_status_value ck)),
      (u ''review_status'', JStr (u ''not_reviewed'')), (u ''cleanup_status'', JStr (cleanup_status_value (br_cleanup req))),
      (u ''checks'', JArr (map operation_json checks)), (u ''commands'', JArr (map operation_json commands)),
      (u ''replay'', replay_json (br_replay req)),
      (u ''worker'', JObj [(u ''outcome'', JStr (worker_outcome_value (wv_outcome wv))), (u ''summary'', JStr (wv_summary wv)),
         (u ''error'', opt_str (wv_error wv)), (u ''metrics'', JObj (wv_metrics wv)), (u ''checks_are_untrusted'', JBool True)]),
      (u ''missing_guest_evidence'', JBool (br_final req = None))]"

section \<open>The evaluation\<close>

definition identities_match :: "bundle_request \<Rightarrow> bool" where
  "identities_match req \<longleftrightarrow> (let p = br_policy req; t = br_task req; b = br_base req in
     tk_job_id t = ep_job_id p \<and> tk_repository_id t = Some (ep_repository_id p) \<and> tk_starting_revision t = Some (ep_base_revision p) \<and>
     tk_worker_profile t = ep_worker_profile p \<and> tk_plan t = ep_plan p \<and>
     ss_job_id b = ep_job_id p \<and> ss_repository_id b = ep_repository_id p \<and> ss_revision b = ep_base_revision p \<and>
     ss_image_sha256 b = ep_image_sha256 p)"

definition coding :: "bundle_request \<Rightarrow> bool" where
  "coding req \<longleftrightarrow> ep_worker_profile (br_policy req) = u ''coding-worker''"

definition all_reasons :: "bundle_request \<Rightarrow> check_status \<times> bool \<Rightarrow> worker_view \<Rightarrow> patch_view \<Rightarrow> bool \<Rightarrow> pystr list" where
  "all_reasons req ck wv pv replayed =
     br_diagnostics req @
     reason_if (snd ck) ''configured checks have missing, duplicate or unexpected evidence'' @
     wv_reasons wv @ pv_reasons pv @
     reason_if (br_sandbox req = None) ''execution sandbox identity is missing'' @
     reason_if (br_cleanup req \<noteq> CL_CLEAN) ''execution sandbox cleanup is not confirmed clean'' @
     reason_if (wv_outcome wv \<noteq> WO_SUBMITTED) ''worker did not submit a reviewable result'' @
     reason_if (max_cost_usd (ep_budget (br_policy req)) \<noteq> JNull) ''strict USD ceiling has no trusted pre-call enforcement'' @
     reason_if (coding req \<and> pv_changes pv = []) ''coding task has no reviewable changes'' @
     reason_if (coding req \<and> br_configured req = []) ''coding task has no configured checks'' @
     reason_if (fst ck \<noteq> CK_PASSED \<and> br_configured req \<noteq> []) ''configured checks did not all pass'' @
     reason_if (\<not> replayed) ''patch replay in a separate clean disposable sandbox is unverified''"

definition ready_state :: pystr where "ready_state = u ''ready_for_review''"

definition evaluate_bundle :: "(bytes \<Rightarrow> nat) \<Rightarrow> bundle_request \<Rightarrow> bundle_error + bundle_plan" where
  "evaluate_bundle sha req =
     rbind (require (identities_match req) (BundleError (u ''review task, policy or base identity mismatch''))) (\<lambda>_.
     rbind (case encode_snapshot sha (br_base req) of Inl e \<Rightarrow> Inl (BundleSnapshot e) | Inr b \<Rightarrow> Inr (hexdigest sha b)) (\<lambda>base_digest.
     rbind (bundle_text (tk_objective (br_task req)) (32 * 1024)) (\<lambda>_.
     rbind (require (length (tk_acceptance_criteria (br_task req)) \<le> 32) (BundleError (u ''too many review acceptance criteria''))) (\<lambda>_.
     rbind (map_res (\<lambda>c. bundle_text c 4096) (tk_acceptance_criteria (br_task req))) (\<lambda>_.
     rbind (require (length (br_configured req) \<le> 16 \<and> distinct (br_configured req)) (BundleError (u ''configured check list is invalid''))) (\<lambda>_.
     rbind (require (list_all slug (br_configured req)) (BundleError (u ''configured check name is invalid''))) (\<lambda>_.
     rbind (require (length (br_checks req) \<le> 16 \<and> length (br_commands req) \<le> 64 \<and> length (br_diagnostics req) \<le> 16)
       (BundleError (u ''review operation or diagnostic count exceeds limit''))) (\<lambda>_.
     rbind (map_res operation_data (br_checks req)) (\<lambda>checks.
     rbind (map_res operation_data (br_commands req)) (\<lambda>commands.
     rbind (map_res (\<lambda>d. bundle_text d 2048) (br_diagnostics req)) (\<lambda>_.
     rbind (judge_patch sha (br_base req) (br_final req)) (\<lambda>pv.
     let ck = judge_checks (br_configured req) checks;
         wv = judge_worker (ep_job_id (br_policy req)) (br_result req);
         reasons = all_reasons req ck wv pv (replay_ok sha base_digest (br_sandbox req) pv (br_replay req));
         state = (if reasons = [] \<and> fst ck = CK_PASSED then ready_state
                  else if pv_patch pv = None then u ''incomplete'' else u ''evidence_only'')
     in Inr \<lparr>bp_state = state, bp_reasons = reasons,
          bp_report = report_json req base_digest checks commands (fst ck) wv pv state reasons, bp_patch = pv_patch pv\<rparr>))))))))))))"

section \<open>What readiness means\<close>

text \<open>The evidence a reviewer may rely on, stated over the request alone.\<close>

definition check_passed :: "observed_operation \<Rightarrow> bool" where
  "check_passed op \<longleftrightarrow> oo_exit_code op = Some 0 \<and> \<not> oo_timed_out op \<and> \<not> oo_output_truncated op \<and>
     (\<exists>e. utf8_encode (oo_output op) = Some e \<and> length e \<le> LOG_LIMIT)"

definition checks_passed :: "bundle_request \<Rightarrow> bool" where
  "checks_passed req \<longleftrightarrow> br_configured req \<noteq> [] \<and> distinct (map oo_name (br_checks req)) \<and>
     set (map oo_name (br_checks req)) = set (br_configured req) \<and> list_all check_passed (br_checks req)"

definition result_submitted :: "bundle_request \<Rightarrow> bool" where
  "result_submitted req \<longleftrightarrow> (case br_result req of None \<Rightarrow> False
     | Some res \<Rightarrow> wr_job_id res = ep_job_id (br_policy req) \<and> wr_outcome res = WO_SUBMITTED \<and>
         text_fits (wr_summary res) (16 * 1024) \<and> (case wr_error res of None \<Rightarrow> True | Some e \<Rightarrow> text_fits e 4096) \<and>
         metrics_bounded (wr_metrics res) \<and> has_usage (wr_metrics res))"

definition patch_replayed :: "(bytes \<Rightarrow> nat) \<Rightarrow> bundle_request \<Rightarrow> bool" where
  "patch_replayed sha req \<longleftrightarrow> (\<exists>files rp d base e.
     br_final req = Some files \<and> build_review_patch sha (br_base req) files (int MAX_PATCH_BYTES) = Inr rp \<and>
     manifest_digest sha files = Inr d \<and> encode_snapshot sha (br_base req) = Inr base \<and> br_replay req = Some e \<and>
     hex_exactly 32 (re_sandbox_id e) \<and> Some (re_sandbox_id e) \<noteq> br_sandbox req \<and>
     re_base_sha256 e = hexdigest sha base \<and> re_patch_sha256 e = hexdigest sha (rp_patch rp) \<and> re_final_sha256 e = d \<and>
     re_matches_final e \<and> re_cleanup e = CL_CLEAN \<and> (coding req \<longrightarrow> files \<noteq> ss_files (br_base req)))"

definition review_ready :: "(bytes \<Rightarrow> nat) \<Rightarrow> bundle_request \<Rightarrow> bool" where
  "review_ready sha req \<longleftrightarrow> br_diagnostics req = [] \<and> checks_passed req \<and> result_submitted req \<and> patch_replayed sha req \<and>
     br_sandbox req \<noteq> None \<and> br_cleanup req = CL_CLEAN \<and> max_cost_usd (ep_budget (br_policy req)) = JNull"

lemma reason_if_Nil [simp]: "reason_if b t = [] \<longleftrightarrow> \<not> b"
  by (simp add: reason_if_def)

lemma operation_data_passed:
  assumes "operation_data op = Inr op'"
  shows "oo_name op' = oo_name op"
    and "\<not> unfinished op' \<and> oo_exit_code op' = Some 0 \<longleftrightarrow> check_passed op"
  using assms by (auto simp: operation_data_def rbind_Inr_iff unfinished_def check_passed_def Let_def not_less
      split: option.splits if_splits)

lemma map_operation_data:
  assumes "map_res operation_data ops = Inr data"
  shows "map oo_name data = map oo_name ops"
    and "\<not> list_ex unfinished data \<and> \<not> list_ex (\<lambda>op. oo_exit_code op \<noteq> Some 0) data \<longleftrightarrow> list_all check_passed ops"
proof -
  from assms have l: "list_all2 (\<lambda>x y. operation_data x = Inr y) ops data" by (simp add: map_res_Inr_iff)
  then show "map oo_name data = map oo_name ops"
    by (induction rule: list_all2_induct) (simp_all add: operation_data_passed)
  from l show "\<not> list_ex unfinished data \<and> \<not> list_ex (\<lambda>op. oo_exit_code op \<noteq> Some 0) data \<longleftrightarrow> list_all check_passed ops"
    by (induction rule: list_all2_induct) (auto simp: operation_data_passed(2) [symmetric])
qed

lemma judge_checks_passed:
  assumes "map_res operation_data (br_checks req) = Inr data"
  shows "fst (judge_checks (br_configured req) data) = CK_PASSED \<and> \<not> snd (judge_checks (br_configured req) data) \<longleftrightarrow>
    checks_passed req"
    and "fst (judge_checks (br_configured req) data) = CK_PASSED \<Longrightarrow> br_configured req \<noteq> []"
  using map_operation_data [OF assms] by (auto simp: judge_checks_def checks_passed_def split: if_splits)

lemma judge_worker_submitted:
  "wv_reasons (judge_worker (ep_job_id (br_policy req)) (br_result req)) = [] \<and>
   wv_outcome (judge_worker (ep_job_id (br_policy req)) (br_result req)) = WO_SUBMITTED \<longleftrightarrow> result_submitted req"
  by (auto simp: judge_worker_def result_submitted_def split: option.splits)

lemma judge_patch_replayed:
  assumes "judge_patch sha (br_base req) (br_final req) = Inr pv" "encode_snapshot sha (br_base req) = Inr base"
  shows "pv_reasons pv = [] \<and> \<not> (coding req \<and> pv_changes pv = []) \<and>
      replay_ok sha (hexdigest sha base) (br_sandbox req) pv (br_replay req) \<longleftrightarrow> patch_replayed sha req"
proof (cases "br_final req")
  case None
  with assms show ?thesis by (auto simp: judge_patch_def patch_replayed_def)
next
  case (Some files)
  show ?thesis
  proof (cases "build_review_patch sha (br_base req) files (int MAX_PATCH_BYTES)")
    case (Inl e)
    with assms Some show ?thesis by (auto simp: judge_patch_def patch_replayed_def)
  next
    case (Inr rp)
    with assms(1) Some obtain d where "manifest_digest sha files = Inr d"
      "pv = \<lparr>pv_patch = Some (rp_patch rp), pv_final_sha256 = Some d, pv_changes = rp_changes rp, pv_reasons = []\<rparr>"
      by (auto simp: judge_patch_def rbind_Inr_iff)
    with Inr Some assms(2) build_review_patch_Inr(3) [OF Inr] show ?thesis
      by (auto simp: patch_replayed_def replay_ok_def split: option.splits)
  qed
qed

lemma evaluate_bundle_Inr:
  assumes "evaluate_bundle sha req = Inr pl"
  obtains base checks commands pv where "identities_match req" "encode_snapshot sha (br_base req) = Inr base"
    "map_res operation_data (br_checks req) = Inr checks" "map_res operation_data (br_commands req) = Inr commands"
    "judge_patch sha (br_base req) (br_final req) = Inr pv"
    "bp_reasons pl = all_reasons req (judge_checks (br_configured req) checks) (judge_worker (ep_job_id (br_policy req)) (br_result req)) pv
       (replay_ok sha (hexdigest sha base) (br_sandbox req) pv (br_replay req))"
    "bp_state pl = (if bp_reasons pl = [] \<and> fst (judge_checks (br_configured req) checks) = CK_PASSED then ready_state
       else if pv_patch pv = None then u ''incomplete'' else u ''evidence_only'')"
    "bp_patch pl = pv_patch pv"
    "bp_report pl = report_json req (hexdigest sha base) checks commands (fst (judge_checks (br_configured req) checks))
       (judge_worker (ep_job_id (br_policy req)) (br_result req)) pv (bp_state pl) (bp_reasons pl)"
  using assms unfolding evaluate_bundle_def Let_def by (auto simp: rbind_Inr_iff split: sum.splits)

lemma bundle_ready_iff:
  assumes "evaluate_bundle sha req = Inr pl"
  shows "bp_state pl = ready_state \<longleftrightarrow> review_ready sha req"
proof -
  from assms show ?thesis
  proof (rule evaluate_bundle_Inr)
    fix base checks commands pv
    let ?ck = "judge_checks (br_configured req) checks" and ?wv = "judge_worker (ep_job_id (br_policy req)) (br_result req)"
    assume e: "encode_snapshot sha (br_base req) = Inr base" "map_res operation_data (br_checks req) = Inr checks"
      "judge_patch sha (br_base req) (br_final req) = Inr pv"
      and r: "bp_reasons pl = all_reasons req ?ck ?wv pv (replay_ok sha (hexdigest sha base) (br_sandbox req) pv (br_replay req))"
      and s: "bp_state pl = (if bp_reasons pl = [] \<and> fst ?ck = CK_PASSED then ready_state
       else if pv_patch pv = None then u ''incomplete'' else u ''evidence_only'')"
    have "bp_state pl = ready_state \<longleftrightarrow> bp_reasons pl = [] \<and> fst ?ck = CK_PASSED" by (simp add: s ready_state_def)
    then show ?thesis
      unfolding r all_reasons_def review_ready_def judge_checks_passed(1) [OF e(2), symmetric] judge_worker_submitted [symmetric]
        judge_patch_replayed [OF e(3,1), symmetric]
      using judge_checks_passed(2) [OF e(2)] by auto
  qed
qed

text \<open>
  C10: A bundle is marked ready for review exactly if all the evidence is there: every configured
  check ran once, in full, with exit code 0; the worker submitted a result for this job; the final
  workspace is complete and its patch was replayed, to the same final files, in a different sandbox
  that was cleaned up; the execution sandbox is known and was cleaned up; a coding job changed
  something; no cost ceiling is left unenforced; and nothing else was reported.
\<close>

theorem ready_exactly_with_full_evidence:
  "case evaluate_bundle sha req of Inl e \<Rightarrow> True | Inr pl \<Rightarrow> bp_state pl = ready_state \<longleftrightarrow> review_ready sha req"
  using bundle_ready_iff by (auto split: sum.split)

end
