(* ===== verification/ReviewBundle.thy ===== *)
theory ReviewBundle
  imports BundleReport
begin

text \<open>
  The store of \<open>night_shifts/review_bundle.py\<close>: writing a bundle file by file, and reading it back
  with its hashes checked.  The directory of a job is a dictionary from file names to bytes; links,
  failing system calls and text encodings other than UTF-8 are parameters.
\<close>

section \<open>Files\<close>

type_synonym bundle_dir = "(pystr, bytes) dict"
type_synonym bundle_files = "(pystr, bundle_dir) dict"

text \<open>
  \<open>be_link job name\<close>: the path is a link (the empty name is the directory).  \<open>be_write\<close> is \<open>None\<close> when
  the write succeeds, else what it left of the file, if anything.  \<open>be_other\<close> reads JSON bytes in an
  encoding other than plain UTF-8.
\<close>

record bundle_env =
  be_sha :: "bytes \<Rightarrow> nat"
  be_link :: "pystr \<Rightarrow> pystr \<Rightarrow> bool"
  be_mkdir_fails :: "pystr \<Rightarrow> bool"
  be_write :: "pystr \<Rightarrow> pystr \<Rightarrow> bytes \<Rightarrow> bytes option option"
  be_other :: "bytes \<Rightarrow> json option"

record saved_bundle =
  sv_job_id :: pystr
  sv_state :: pystr
  sv_reasons :: "json list"

definition of_result :: "'e + 'a \<Rightarrow> ('s, 'e, 'a) act" where
  "of_result r = (\<lambda>s. (s, r))"

definition no_link :: "bundle_env \<Rightarrow> pystr \<Rightarrow> pystr \<Rightarrow> bundle_error + unit" where
  "no_link env job name = require (\<not> be_link env job name) (BundleError (u ''review storage path is a link or reparse point''))"

definition file_names :: "pystr list" where
  "file_names = [u ''incomplete.json'', u ''patch.diff'', u ''report.json'', u ''manifest.json'', u ''complete.json'']"

definition write_error :: bundle_error where
  "write_error = BundleError (u ''review bundle write failed; inspect incomplete marker'')"

definition write_file :: "bundle_env \<Rightarrow> pystr \<Rightarrow> pystr \<Rightarrow> bytes \<Rightarrow> (bundle_files, bundle_error, unit) act" where
  "write_file env job name data = (\<lambda>st.
     if name \<notin> set file_names then (st, Inl (BundleError (u ''unapproved bundle file name'')))
     else (case map_of st job of
       None \<Rightarrow> (st, Inl write_error)
     | Some d \<Rightarrow>
         if name \<in> fst ` set d then (st, Inl write_error)
         else (case be_write env job name data of
             None \<Rightarrow> (dput job (dput name data d) st, Inr ())
           | Some None \<Rightarrow> (st, Inl write_error)
           | Some (Some rest) \<Rightarrow> (dput job (dput name rest d) st, Inl write_error))))"

definition make_directory :: "bundle_env \<Rightarrow> pystr \<Rightarrow> (bundle_files, bundle_error, unit) act" where
  "make_directory env job = (\<lambda>st.
     if job \<in> fst ` set st \<or> be_mkdir_fails env job
     then (st, Inl (BundleError (u ''review job directory already exists or cannot be created'')))
     else (dput job [] st, Inr ()))"

fun write_files :: "bundle_env \<Rightarrow> pystr \<Rightarrow> (pystr \<times> bytes) list \<Rightarrow> (bundle_files, bundle_error, unit) act" where
  "write_files env job [] = ret ()"
| "write_files env job ((name, data) # fs) = abind (write_file env job name data) (\<lambda>_. write_files env job fs)"

section \<open>Collecting\<close>

definition marker_json :: "pystr \<Rightarrow> json" where
  "marker_json job = JObj [(u ''version'', JInt 1), (u ''job_id'', JStr job), (u ''state'', JStr (u ''incomplete''))]"

definition manifest_json :: "(bytes \<Rightarrow> nat) \<Rightarrow> pystr \<Rightarrow> (pystr \<times> bytes) list \<Rightarrow> json" where
  "manifest_json sha job files = JObj [(u ''version'', JInt 1), (u ''job_id'', JStr job),
     (u ''files'', JObj (map (\<lambda>(name, data). (name, JObj [(u ''size'', JInt (int (length data))), (u ''sha256'', JStr (hexdigest sha data))])) files))]"

definition complete_json :: "(bytes \<Rightarrow> nat) \<Rightarrow> pystr \<Rightarrow> bytes \<Rightarrow> json" where
  "complete_json sha job manifest = JObj [(u ''version'', JInt 1), (u ''job_id'', JStr job),
     (u ''manifest_sha256'', JStr (hexdigest sha manifest))]"

definition bundle_contents :: "bytes \<Rightarrow> bytes option \<Rightarrow> (pystr \<times> bytes) list" where
  "bundle_contents report patch = (u ''report.json'', report) # (case patch of None \<Rightarrow> [] | Some p \<Rightarrow> [(u ''patch.diff'', p)])"

definition store_bundle :: "bundle_env \<Rightarrow> pystr \<Rightarrow> bundle_plan \<Rightarrow> (bundle_files, bundle_error, saved_bundle) act" where
  "store_bundle env job pl =
     abind (of_result (bundle_json (bp_report pl) REPORT_LIMIT)) (\<lambda>report.
     abind (write_files env job (bundle_contents report (bp_patch pl))) (\<lambda>_.
     abind (of_result (bundle_json (manifest_json (be_sha env) job (bundle_contents report (bp_patch pl))) META_LIMIT)) (\<lambda>manifest.
     abind (write_file env job (u ''manifest.json'') manifest) (\<lambda>_.
     abind (of_result (bundle_json (complete_json (be_sha env) job manifest) META_LIMIT)) (\<lambda>done0.
     abind (write_file env job (u ''complete.json'') done0) (\<lambda>_.
     ret \<lparr>sv_job_id = job, sv_state = bp_state pl, sv_reasons = map JStr (bp_reasons pl)\<rparr>))))))"

text \<open>After \<open>mkdir\<close>: the marker, then the evaluation, then the bundle.\<close>

definition collect_into :: "bundle_env \<Rightarrow> bundle_request \<Rightarrow> pystr \<Rightarrow> (bundle_files, bundle_error, saved_bundle) act" where
  "collect_into env req job =
     abind (of_result (bundle_json (marker_json job) META_LIMIT)) (\<lambda>marker.
     abind (write_file env job (u ''incomplete.json'') marker) (\<lambda>_.
     abind (of_result (evaluate_bundle (be_sha env) req)) (\<lambda>pl.
     store_bundle env job pl)))"

definition collect_bundle :: "bundle_env \<Rightarrow> bundle_request \<Rightarrow> (bundle_files, bundle_error, saved_bundle) act" where
  "collect_bundle env req =
     (let job = ep_job_id (br_policy req) in
      abind (guard (hex_exactly 32 job \<and> (case br_sandbox req of None \<Rightarrow> True | Some s \<Rightarrow> hex_exactly 32 s))
        (BundleError (u ''unbound review identity or cleanup status''))) (\<lambda>_.
      abind (of_result (no_link env job [])) (\<lambda>_.
      abind (make_directory env job) (\<lambda>_.
      collect_into env req job))))"

section \<open>Reading\<close>

text \<open>\<open>ReviewBundleError\<close>, the \<open>ValueError\<close> of unreadable JSON, or a \<open>TypeError\<close>.\<close>

datatype read_error = ReadError pystr | ReadJson | ReadType

definition read_file :: "bundle_env \<Rightarrow> pystr \<Rightarrow> bundle_dir \<Rightarrow> pystr \<Rightarrow> nat \<Rightarrow> read_error + bytes" where
  "read_file env job d name limit =
     (if be_link env job name then Inl (ReadError (u ''review storage path is a link or reparse point''))
      else (case map_of d name of
          None \<Rightarrow> Inl (ReadError (u ''review bundle file is missing or unsafe''))
        | Some data \<Rightarrow> if limit < length data then Inl (ReadError (u ''review bundle file is unsafe or oversized'')) else Inr data))"

text \<open>\<open>json.loads\<close> of bytes looks at the first bytes for another encoding before it takes UTF-8.\<close>

definition plain_utf8 :: "bytes \<Rightarrow> bool" where
  "plain_utf8 b \<longleftrightarrow> 0 \<notin> set (take 4 b) \<and> take 3 b \<noteq> [0xEF, 0xBB, 0xBF] \<and> take 2 b \<noteq> [0xFE, 0xFF] \<and> take 2 b \<noteq> [0xFF, 0xFE] \<and>
     utf8_decode b \<noteq> None"

definition loads_bytes :: "bundle_env \<Rightarrow> bytes \<Rightarrow> read_error + json" where
  "loads_bytes env b = (case (if plain_utf8 b then json_loads (the (utf8_decode b)) else be_other env b) of
     None \<Rightarrow> Inl ReadJson | Some j \<Rightarrow> Inr j)"

definition names_job :: "(pystr \<times> json) list \<Rightarrow> pystr \<Rightarrow> bool" where
  "names_job d job \<longleftrightarrow> map_of d (u ''job_id'') = Some (JStr job) \<and>
     (case map_of d (u ''version'') of None \<Rightarrow> False | Some v \<Rightarrow> json_eq_int v 1)"

definition check_marker :: "bundle_env \<Rightarrow> pystr \<Rightarrow> json \<Rightarrow> bytes \<Rightarrow> read_error + unit" where
  "check_marker env job marker manifest = require
     (case marker of JObj d \<Rightarrow> names_job d job \<and> map_of d (u ''manifest_sha256'') = Some (JStr (hexdigest (be_sha env) manifest))
      | _ \<Rightarrow> False) (ReadError (u ''review completion marker is invalid''))"

definition manifest_files :: "pystr \<Rightarrow> json \<Rightarrow> read_error + (pystr \<times> json) list" where
  "manifest_files job manifest =
     (let invalid = Inl (ReadError (u ''review manifest is invalid'')) in
      case manifest of JObj d \<Rightarrow>
        (case map_of d (u ''files'') of Some (JObj fs) \<Rightarrow>
           if names_job d job \<and> u ''report.json'' \<in> fst ` set fs \<and> fst ` set fs \<subseteq> {u ''report.json'', u ''patch.diff''}
           then Inr fs else invalid
         | _ \<Rightarrow> invalid)
      | _ \<Rightarrow> invalid)"

definition entry_matches :: "bundle_env \<Rightarrow> json \<Rightarrow> bytes \<Rightarrow> bool" where
  "entry_matches env entry data \<longleftrightarrow> (case entry of
     JObj e \<Rightarrow> fst ` set e = {u ''size'', u ''sha256''} \<and> map_of e (u ''size'') = Some (JInt (int (length data))) \<and>
       map_of e (u ''sha256'') = Some (JStr (hexdigest (be_sha env) data))
   | _ \<Rightarrow> False)"

definition read_listed :: "bundle_env \<Rightarrow> pystr \<Rightarrow> bundle_dir \<Rightarrow> (pystr \<times> json) list \<Rightarrow> pystr \<Rightarrow> nat \<Rightarrow> read_error + bytes option" where
  "read_listed env job d fs name limit = (case map_of fs name of
     None \<Rightarrow> Inr None
   | Some entry \<Rightarrow> rbind (read_file env job d name limit) (\<lambda>data.
       if entry_matches env entry data then Inr (Some data) else Inl (ReadError (u ''review file hash or size mismatch''))))"

definition bundle_states :: "pystr list" where
  "bundle_states = [ready_state, u ''incomplete'', u ''evidence_only'']"

text \<open>\<open>tuple(report.get("reasons", ()))\<close>: the characters of a string, the keys of an object.\<close>

definition reasons_tuple :: "json option \<Rightarrow> read_error + json list" where
  "reasons_tuple v = (case v of
     None \<Rightarrow> Inr [] | Some (JArr js) \<Rightarrow> Inr js | Some (JStr s) \<Rightarrow> Inr (map (\<lambda>c. JStr [c]) s) | Some (JObj d) \<Rightarrow> Inr (map (JStr \<circ> fst) d)
   | Some _ \<Rightarrow> Inl ReadType)"

definition saved_of_report :: "pystr \<Rightarrow> json \<Rightarrow> read_error + saved_bundle" where
  "saved_of_report job report =
     (let invalid = Inl (ReadError (u ''review report identity or state is invalid'')) in
      case report of JObj d \<Rightarrow>
        if map_of d (u ''job_id'') \<noteq> Some (JStr job) then invalid
        else (case map_of d (u ''state'') of
            Some (JStr s) \<Rightarrow> if s \<in> set bundle_states
              then rbind (reasons_tuple (map_of d (u ''reasons''))) (\<lambda>rs. Inr \<lparr>sv_job_id = job, sv_state = s, sv_reasons = rs\<rparr>)
              else invalid
          | Some (JArr _) \<Rightarrow> Inl ReadType
          | Some (JObj _) \<Rightarrow> Inl ReadType
          | _ \<Rightarrow> invalid)
      | _ \<Rightarrow> invalid)"

definition read_complete :: "bundle_env \<Rightarrow> pystr \<Rightarrow> bundle_dir \<Rightarrow> read_error + saved_bundle \<times> bytes option" where
  "read_complete env job d =
     rbind (rbind (read_file env job d (u ''complete.json'') META_LIMIT) (loads_bytes env)) (\<lambda>marker.
     rbind (read_file env job d (u ''manifest.json'') META_LIMIT) (\<lambda>manifest.
     rbind (check_marker env job marker manifest) (\<lambda>_.
     rbind (rbind (loads_bytes env manifest) (manifest_files job)) (\<lambda>fs.
     rbind (read_listed env job d fs (u ''report.json'') REPORT_LIMIT) (\<lambda>report.
     rbind (read_listed env job d fs (u ''patch.diff'') MAX_PATCH_BYTES) (\<lambda>patch.
     rbind (rbind (loads_bytes env (the report)) (saved_of_report job)) (\<lambda>saved.
     Inr (saved, patch))))))))"

definition read_bundle :: "bundle_env \<Rightarrow> pystr \<Rightarrow> bundle_files \<Rightarrow> read_error + saved_bundle \<times> bytes option" where
  "read_bundle env job st =
     (if \<not> hex_exactly 32 job then Inl (ReadError (u ''review job ID is invalid''))
      else if be_link env job [] then Inl (ReadError (u ''review storage path is a link or reparse point''))
      else (case map_of st job of
          None \<Rightarrow> Inl (ReadError (u ''review bundle is unavailable''))
        | Some d \<Rightarrow>
            rbind (read_file env job d (u ''incomplete.json'') META_LIMIT) (\<lambda>_.
            if u ''complete.json'' \<notin> fst ` set d
            then Inr (\<lparr>sv_job_id = job, sv_state = u ''incomplete'', sv_reasons = [JStr (u ''write interrupted'')]\<rparr>, None)
            else read_complete env job d)))"

lemma abind_of_result [simp]: "abind (of_result r) f st = (case r of Inl e \<Rightarrow> (st, Inl e) | Inr x \<Rightarrow> f x st)"
  by (simp add: abind_def of_result_def)

lemma case_result_Inr:
  "(case r of Inl e \<Rightarrow> (st, Inl e) | Inr x \<Rightarrow> g x) = (st', Inr y) \<longleftrightarrow> (\<exists>x. r = Inr x \<and> g x = (st', Inr y))"
  by (simp split: sum.split)

lemma abind_make_directory [simp]: "abind (make_directory env job) f st =
    (if job \<in> fst ` set st \<or> be_mkdir_fails env job
     then (st, Inl (BundleError (u ''review job directory already exists or cannot be created'')))
     else f () (dput job [] st))"
  by (simp add: abind_def make_directory_def)

section \<open>Every write appends one file\<close>

text \<open>
  Whatever happens, \<open>m\<close> leaves the other jobs alone and adds to the job's directory files with the
  given names, in this order; it adds all of them when it returns.
\<close>

definition appends :: "pystr \<Rightarrow> pystr list \<Rightarrow> (bundle_files, 'e, 'a) act \<Rightarrow> bool" where
  "appends job names m \<longleftrightarrow> (\<forall>st d. map_of st job = Some d \<longrightarrow> (case m st of (st', r) \<Rightarrow>
     (\<forall>j. j \<noteq> job \<longrightarrow> map_of st' j = map_of st j) \<and>
     (\<exists>ns fs. map_of st' job = Some (d @ fs) \<and> map fst fs = ns \<and> prefix ns names \<and> (isl r \<or> ns = names))))"

lemma appendsD:
  assumes "appends job names m" "map_of st job = Some d" "m st = (st', r)"
  shows "\<exists>fs. map_of st' job = Some (d @ fs) \<and> prefix (map fst fs) names \<and> (isl r \<or> map fst fs = names)"
    and "j \<noteq> job \<Longrightarrow> map_of st' j = map_of st j"
  using assms unfolding appends_def by fastforce+

lemma appends_abind:
  assumes "appends job xs m" "\<And>x. appends job ys (f x)"
  shows "appends job (xs @ ys) (abind m f)"
  unfolding appends_def
proof (intro allI impI)
  fix st :: bundle_files and d assume d: "map_of st job = Some d"
  obtain s1 q where m: "m st = (s1, q)" by fastforce
  from appendsD(1) [OF assms(1) d m] obtain fs where fs: "map_of s1 job = Some (d @ fs)" "prefix (map fst fs) xs" "isl q \<or> map fst fs = xs"
    by blast
  note o = appendsD(2) [OF assms(1) d m]
  show "case abind m f st of (st', r) \<Rightarrow> (\<forall>j. j \<noteq> job \<longrightarrow> map_of st' j = map_of st j) \<and>
     (\<exists>ns fs. map_of st' job = Some (d @ fs) \<and> map fst fs = ns \<and> prefix ns (xs @ ys) \<and> (isl r \<or> ns = xs @ ys))"
  proof (cases q)
    case (Inl e)
    with fs m o show ?thesis by (auto simp: abind_def intro!: exI [of _ fs] prefix_prefix)
  next
    case (Inr x)
    obtain s2 r where f: "f x s1 = (s2, r)" by fastforce
    from appendsD(1) [OF assms(2) fs(1) f] obtain gs where gs: "map_of s2 job = Some ((d @ fs) @ gs)" "prefix (map fst gs) ys"
      "isl r \<or> map fst gs = ys" by blast
    from fs(3) Inr have "map fst fs = xs" by simp
    with gs have "map fst (fs @ gs) = xs @ map fst gs" "prefix (xs @ map fst gs) (xs @ ys)" "isl r \<or> xs @ map fst gs = xs @ ys" by simp_all
    with gs(1) appendsD(2) [OF assms(2) fs(1) f] o show ?thesis
      by (simp add: abind_def m Inr f)
  qed
qed

lemma appends_pure: "appends job [] (of_result r)" "appends job [] (ret x)"
  by (auto simp: appends_def of_result_def)

lemma appends_of_result: "(\<And>x. appends job ys (f x)) \<Longrightarrow> appends job ys (abind (of_result r) f)"
  using appends_abind [OF appends_pure(1)] by fastforce

lemma appends_write_file: "appends job [name] (write_file env job name data)"
  unfolding appends_def
proof (intro allI impI)
  fix st :: bundle_files and d assume d: "map_of st job = Some d"
  show "case write_file env job name data st of (st', r) \<Rightarrow> (\<forall>j. j \<noteq> job \<longrightarrow> map_of st' j = map_of st j) \<and>
     (\<exists>ns fs. map_of st' job = Some (d @ fs) \<and> map fst fs = ns \<and> prefix ns [name] \<and> (isl r \<or> ns = [name]))"
    using d by (auto simp: write_file_def keys_dput_fresh intro: exI [of _ "[]"] split: option.splits)
qed

lemma appends_write_files: "appends job (map fst fs) (write_files env job fs)"
proof (induction fs)
  case (Cons f fs)
  obtain name data where "f = (name, data)" by fastforce
  have "appends job ([name] @ map fst fs) (abind (write_file env job name data) (\<lambda>_. write_files env job fs))"
    by (intro appends_abind appends_write_file Cons.IH)
  with \<open>f = (name, data)\<close> show ?case by simp
qed (simp only: write_files.simps list.map appends_pure)

definition bundle_order :: "bool \<Rightarrow> pystr list" where
  "bundle_order has_patch = u ''incomplete.json'' # u ''report.json'' # (if has_patch then [u ''patch.diff''] else []) @
     [u ''manifest.json'', u ''complete.json'']"

lemma appends_store_bundle:
  "appends job (tl (bundle_order (bp_patch pl \<noteq> None))) (store_bundle env job pl)"
proof -
  have n: "map fst (bundle_contents report (bp_patch pl)) = u ''report.json'' # (if bp_patch pl \<noteq> None then [u ''patch.diff''] else [])" for report
    by (simp add: bundle_contents_def split: option.split)
  have w: "appends job (u ''report.json'' # (if bp_patch pl \<noteq> None then [u ''patch.diff''] else []))
      (write_files env job (bundle_contents report (bp_patch pl)))" for report
    using appends_write_files [of job "bundle_contents report (bp_patch pl)" env] unfolding n .
  have "appends job ((u ''report.json'' # (if bp_patch pl \<noteq> None then [u ''patch.diff''] else [])) @ [u ''manifest.json''] @ [u ''complete.json''] @ [])
      (store_bundle env job pl)"
    unfolding store_bundle_def
    by (intro appends_of_result appends_abind appends_write_file appends_pure w)
  then show ?thesis by (simp add: bundle_order_def)
qed

lemma appends_collect_into: "\<exists>b. appends job (bundle_order b) (collect_into env req job)"
proof (cases "evaluate_bundle (be_sha env) req")
  case (Inl e)
  have "appends job ([u ''incomplete.json''] @ tl (bundle_order True)) (collect_into env req job)"
  proof -
    have i: "appends job (tl (bundle_order True)) (abind (of_result (Inl e)) (store_bundle env job))" by (auto simp: appends_def)
    show ?thesis unfolding collect_into_def Inl by (rule appends_of_result, rule appends_abind [OF appends_write_file i])
  qed
  then show ?thesis by (intro exI [of _ True]) (simp add: bundle_order_def)
next
  case (Inr pl)
  have "appends job ([u ''incomplete.json''] @ tl (bundle_order (bp_patch pl \<noteq> None))) (collect_into env req job)"
  proof -
    have "abind (of_result (Inr pl)) (store_bundle env job) = store_bundle env job pl"
      by (simp add: fun_eq_iff)
    then show ?thesis unfolding collect_into_def Inr
      by (simp only:) (intro appends_of_result appends_abind appends_write_file appends_store_bundle)
  qed
  then show ?thesis by (intro exI [of _ "bp_patch pl \<noteq> None"]) (simp add: bundle_order_def)
qed

lemma collect_bundle_cases:
  assumes "collect_bundle env req st = (st', r)"
  obtains (refused) e where "st' = st" "r = Inl e"
  | (started) "map_of st (ep_job_id (br_policy req)) = None" "hex_exactly 32 (ep_job_id (br_policy req))"
      "\<not> be_link env (ep_job_id (br_policy req)) []"
      "collect_into env req (ep_job_id (br_policy req)) (dput (ep_job_id (br_policy req)) [] st) = (st', r)"
proof -
  let ?job = "ep_job_id (br_policy req)"
  have "st' = st \<and> isl r \<or> map_of st ?job = None \<and> hex_exactly 32 ?job \<and> \<not> be_link env ?job [] \<and>
      collect_into env req ?job (dput ?job [] st) = (st', r)"
    using assms by (auto simp: collect_bundle_def Let_def no_link_def map_of_eq_None_iff split: if_splits sum.splits)
  then show thesis using refused started by (cases r) auto
qed

lemma collect_bundle_in_order:
  assumes "collect_bundle env req st = (st', r)"
  defines "job \<equiv> ep_job_id (br_policy req)"
  shows "(map_of st')(job := None) = (map_of st)(job := None) \<and>
     (case map_of st job of Some d \<Rightarrow> st' = st \<and> isl r
      | None \<Rightarrow> \<exists>b. prefix (map fst (case map_of st' job of None \<Rightarrow> [] | Some d \<Rightarrow> d)) (bundle_order b) \<and>
          (isl r \<or> map fst (case map_of st' job of None \<Rightarrow> [] | Some d \<Rightarrow> d) = bundle_order b))"
  using assms(1)
proof (cases rule: collect_bundle_cases)
  case (refused e)
  then show ?thesis by (auto split: option.split)
next
  case started
  obtain b where a: "appends job (bundle_order b) (collect_into env req job)" using appends_collect_into by blast
  have d: "map_of (dput job [] st) job = Some []" by simp
  note c = started(4) [folded job_def]
  from appendsD(1) [OF a d c] obtain fs where fs: "map_of st' job = Some fs" "prefix (map fst fs) (bundle_order b)" "isl r \<or> map fst fs = bundle_order b"
    by auto
  from appendsD(2) [OF a d c] have "(map_of st')(job := None) = (map_of st)(job := None)" by (auto simp: fun_eq_iff)
  with fs started(1) [folded job_def] show ?thesis by auto
qed

section \<open>Reading back\<close>

lemma write_file_Inr:
  assumes "write_file env job name data st = (st', Inr x)" "map_of st job = Some d"
  shows "map_of st' job = Some (d @ [(name, data)])"
  using assms by (auto simp: write_file_def keys_dput_fresh split: if_splits option.splits)

lemma write_files_Inr:
  "write_files env job fs st = (st', Inr x) \<Longrightarrow> map_of st job = Some d \<Longrightarrow> map_of st' job = Some (d @ fs)"
proof (induction fs arbitrary: st d)
  case (Cons f fs)
  obtain name data where f: "f = (name, data)" by fastforce
  with Cons.prems(1) obtain s1 y where w: "write_file env job name data st = (s1, Inr y)" "write_files env job fs s1 = (st', Inr x)"
    by (auto simp: abind_Inr_iff)
  from Cons.IH [OF w(2) write_file_Inr [OF w(1) Cons.prems(2)]] f show ?case by simp
qed simp

lemma collect_bundle_Inr:
  assumes "collect_bundle env req st = (st', Inr saved)"
  defines "job \<equiv> ep_job_id (br_policy req)"
  obtains marker pl report manifest done0 where "hex_exactly 32 job" "\<not> be_link env job []"
    "bundle_json (marker_json job) META_LIMIT = Inr marker" "evaluate_bundle (be_sha env) req = Inr pl"
    "bundle_json (bp_report pl) REPORT_LIMIT = Inr report"
    "bundle_json (manifest_json (be_sha env) job (bundle_contents report (bp_patch pl))) META_LIMIT = Inr manifest"
    "bundle_json (complete_json (be_sha env) job manifest) META_LIMIT = Inr done0"
    "map_of st' job = Some ((u ''incomplete.json'', marker) # bundle_contents report (bp_patch pl) @
       [(u ''manifest.json'', manifest), (u ''complete.json'', done0)])"
    "saved = \<lparr>sv_job_id = job, sv_state = bp_state pl, sv_reasons = map JStr (bp_reasons pl)\<rparr>"
  using assms(1)
proof (cases rule: collect_bundle_cases)
  case started
  note c = started [folded job_def]
  from c(4) obtain marker s1 pl where m: "bundle_json (marker_json job) META_LIMIT = Inr marker"
    "write_file env job (u ''incomplete.json'') marker (dput job [] st) = (s1, Inr ())"
    "evaluate_bundle (be_sha env) req = Inr pl" "store_bundle env job pl s1 = (st', Inr saved)"
    by (auto simp: collect_into_def abind_Inr_iff case_result_Inr)
  from m(4) obtain report s2 manifest s3 done0 where r: "bundle_json (bp_report pl) REPORT_LIMIT = Inr report"
    "write_files env job (bundle_contents report (bp_patch pl)) s1 = (s2, Inr ())"
    "bundle_json (manifest_json (be_sha env) job (bundle_contents report (bp_patch pl))) META_LIMIT = Inr manifest"
    "write_file env job (u ''manifest.json'') manifest s2 = (s3, Inr ())"
    "bundle_json (complete_json (be_sha env) job manifest) META_LIMIT = Inr done0"
    "write_file env job (u ''complete.json'') done0 s3 = (st', Inr ())"
    "saved = \<lparr>sv_job_id = job, sv_state = bp_state pl, sv_reasons = map JStr (bp_reasons pl)\<rparr>"
    by (auto simp: store_bundle_def abind_Inr_iff case_result_Inr)
  have "map_of (dput job [] st) job = Some []" by simp
  from write_file_Inr [OF r(6) write_file_Inr [OF r(4) write_files_Inr [OF r(2) write_file_Inr [OF m(2) this]]]]
  have "map_of st' job = Some ((u ''incomplete.json'', marker) # bundle_contents report (bp_patch pl) @
       [(u ''manifest.json'', manifest), (u ''complete.json'', done0)])" by simp
  with m(1,3) r c(2,3) show thesis by (intro that) auto
qed auto

lemma bundle_json_Inr: "bundle_json j limit = Inr b \<longleftrightarrow> all_finite j \<and> length b \<le> limit \<and> b = canonical_bytes j"
  by (auto simp: bundle_json_def)

lemma loads_canonical:
  assumes "printable True j" "dicts_ok j"
  shows "loads_bytes env (canonical_bytes j) = Inr (sort_keys j)"
proof -
  note d = decode_canonical [OF assms]
  have n: "b \<notin> set (canonical_bytes j)" if "128 \<le> b" for b using d(5) that by (auto simp: not_le)
  have "take k (canonical_bytes j) \<noteq> b # bs" if "128 \<le> b" for k b bs
    using n [OF that] by (metis in_set_takeD list.set_intros(1))
  with d(4) have "plain_utf8 (canonical_bytes j)" by (simp add: plain_utf8_def d(1)) (meson in_set_takeD)
  then show ?thesis by (simp add: loads_bytes_def d(1,2))
qed

lemma sort_keys_obj:
  assumes "distinct (map fst ms)"
  obtains d where "sort_keys (JObj ms) = JObj d" "\<And>k. map_of d k = map_option sort_keys (map_of ms k)" "fst ` set d = fst ` set ms"
proof
  let ?ms = "map (\<lambda>(k, j). (k, sort_keys j)) ms"
  show "sort_keys (JObj ms) = JObj (sort_key fst ?ms)" by simp
  have f: "map fst ?ms = map fst ms" by auto
  have "map_of (sort_key fst ?ms) = map_of ?ms" by (intro map_of_sort_key) (simp only: f assms)
  then show "map_of (sort_key fst ?ms) k = map_option sort_keys (map_of ms k)" for k by (simp add: map_of_map)
  show "fst ` set (sort_key fst ?ms) = fst ` set ms" by force
qed

lemma sort_keys_idem_str: "sort_keys (JArr (map JStr xs)) = JArr (map JStr xs)"
  by simp

lemma ascii_u_scalar: "c \<in> set (u s) \<Longrightarrow> c < 256"
  by (auto simp: u_def)

lemma u_scalar [simp]: "\<forall>c \<in> set (u s). c < 55296 \<or> 57343 < c \<and> c < 1114112"
  by (fastforce dest: ascii_u_scalar)

lemma hex_scalar: "hex_exactly n s \<Longrightarrow> \<forall>c \<in> set s. c < 55296 \<or> 57343 < c \<and> c < 1114112"
  by (fastforce dest: hex_exactly_ascii)

lemma bookkeeping_json_ok:
  assumes "hex_exactly 32 job"
  shows "printable True (complete_json sha job manifest)" "dicts_ok (complete_json sha job manifest)"
    "printable True (manifest_json sha job (bundle_contents report patch))" "dicts_ok (manifest_json sha job (bundle_contents report patch))"
  by (simp_all add: complete_json_def manifest_json_def bundle_contents_def dict_ok_def hex_scalar [OF assms]
      hex_scalar [OF hexdigest_hex] split: option.split)

lemma saved_of_report_json:
  assumes "bp_report pl = report_json req base checks commands ck wv pv (bp_state pl) (bp_reasons pl)"
    "bp_state pl \<in> set bundle_states"
  shows "saved_of_report (ep_job_id (br_policy req)) (sort_keys (bp_report pl)) =
    Inr \<lparr>sv_job_id = ep_job_id (br_policy req), sv_state = bp_state pl, sv_reasons = map JStr (bp_reasons pl)\<rparr>"
proof -
  obtain ms where j: "report_json req base checks commands ck wv pv (bp_state pl) (bp_reasons pl) = JObj ms" by (simp add: report_json_def)
  note m = j [unfolded report_json_def, simplified, symmetric]
  have ms: "bp_report pl = JObj ms" "map_of ms (u ''job_id'') = Some (JStr (ep_job_id (br_policy req)))"
    "map_of ms (u ''state'') = Some (JStr (bp_state pl))" "map_of ms (u ''reasons'') = Some (JArr (map JStr (bp_reasons pl)))"
    "distinct (map fst ms)"
    using assms(1) j by (simp_all add: m)
  obtain d where d: "sort_keys (JObj ms) = JObj d" "\<And>k. map_of d k = map_option sort_keys (map_of ms k)"
    by (rule sort_keys_obj [OF ms(5)]) (rule that)
  show ?thesis unfolding ms(1) d(1) using assms(2)
    by (simp add: saved_of_report_def d(2) ms(2-4) reasons_tuple_def o_def)
qed

lemma marker_accepted:
  "check_marker env job (sort_keys (complete_json (be_sha env) job manifest)) manifest = Inr ()"
proof -
  have k: "distinct (map fst [(u ''version'', JInt 1), (u ''job_id'', JStr job), (u ''manifest_sha256'', JStr (hexdigest (be_sha env) manifest))])"
    by simp
  obtain d where d: "sort_keys (complete_json (be_sha env) job manifest) = JObj d"
    "\<And>k. map_of d k = map_option sort_keys (map_of [(u ''version'', JInt 1), (u ''job_id'', JStr job),
       (u ''manifest_sha256'', JStr (hexdigest (be_sha env) manifest))] k)"
    by (rule sort_keys_obj [OF k]) (rule that, unfold complete_json_def)
  show ?thesis by (simp add: check_marker_def d names_job_def)
qed

lemma manifest_accepted:
  obtains fs where "manifest_files job (sort_keys (manifest_json sha job (bundle_contents report patch))) = Inr fs"
    "\<And>n. map_of fs n = map_option sort_keys (map_of (map (\<lambda>(name, data). (name, JObj [(u ''size'', JInt (int (length data))),
       (u ''sha256'', JStr (hexdigest sha data))])) (bundle_contents report patch)) n)"
proof -
  let ?fs = "map (\<lambda>(name, data). (name, JObj [(u ''size'', JInt (int (length data))), (u ''sha256'', JStr (hexdigest sha data))]))
    (bundle_contents report patch)"
  have k: "fst ` set ?fs = {u ''report.json''} \<union> (if patch = None then {} else {u ''patch.diff''})" "distinct (map fst ?fs)"
    by (auto simp: bundle_contents_def split: option.split)
  have k0: "distinct (map fst [(u ''version'', JInt 1), (u ''job_id'', JStr job), (u ''files'', JObj ?fs)])" by simp
  obtain d where d: "sort_keys (manifest_json sha job (bundle_contents report patch)) = JObj d"
    "\<And>n. map_of d n = map_option sort_keys (map_of [(u ''version'', JInt 1), (u ''job_id'', JStr job), (u ''files'', JObj ?fs)] n)"
    by (rule sort_keys_obj [OF k0]) (rule that, unfold manifest_json_def)
  obtain fs where fs: "sort_keys (JObj ?fs) = JObj fs" "\<And>n. map_of fs n = map_option sort_keys (map_of ?fs n)" "fst ` set fs = fst ` set ?fs"
    by (rule sort_keys_obj [OF k(2)]) (rule that)
  have "map_of d (u ''files'') = Some (JObj fs)" unfolding d(2) using fs(1) by (simp del: sort_keys.simps)
  moreover have fk: "fst ` set fs = {u ''report.json''} \<union> (if patch = None then {} else {u ''patch.diff''})"
    unfolding fs(3) by (rule k(1))
  moreover have "map_of d (u ''job_id'') = Some (JStr job)" "map_of d (u ''version'') = Some (JInt 1)" by (simp_all add: d(2))
  ultimately have "manifest_files job (JObj d) = Inr fs"
    by (simp add: manifest_files_def names_job_def)
  then show thesis using fs(2) d(1) by (intro that) simp_all
qed

lemma entry_accepted:
  "entry_matches env (sort_keys (JObj [(u ''size'', JInt (int (length data))), (u ''sha256'', JStr (hexdigest (be_sha env) data))])) data"
proof -
  have k: "distinct (map fst [(u ''size'', JInt (int (length data))), (u ''sha256'', JStr (hexdigest (be_sha env) data))])" by simp
  obtain e where e: "sort_keys (JObj [(u ''size'', JInt (int (length data))), (u ''sha256'', JStr (hexdigest (be_sha env) data))]) = JObj e"
    "\<And>k. map_of e k = map_option sort_keys (map_of [(u ''size'', JInt (int (length data))), (u ''sha256'', JStr (hexdigest (be_sha env) data))] k)"
    "fst ` set e = fst ` set [(u ''size'', JInt (int (length data))), (u ''sha256'', JStr (hexdigest (be_sha env) data))]"
    by (rule sort_keys_obj [OF k]) (rule that)
  show ?thesis unfolding e(1) entry_matches_def json.case e(3) by (simp add: e(2))
qed

lemma patch_bounded: "evaluate_bundle sha req = Inr pl \<Longrightarrow> bp_patch pl = Some patch \<Longrightarrow> length patch \<le> MAX_PATCH_BYTES"
  by (rule evaluate_bundle_Inr, assumption)
    (auto simp: judge_patch_def rbind_Inr_iff dest: build_review_patch_Inr(4) split: option.splits sum.splits)

lemma read_complete_collected:
  assumes "hex_exactly 32 job" "job = ep_job_id (br_policy req)" "evaluate_bundle (be_sha env) req = Inr pl"
    "printable True (bp_report pl)" "dicts_ok (bp_report pl)"
    "bundle_json (bp_report pl) REPORT_LIMIT = Inr report"
    "bundle_json (manifest_json (be_sha env) job (bundle_contents report (bp_patch pl))) META_LIMIT = Inr manifest"
    "bundle_json (complete_json (be_sha env) job manifest) META_LIMIT = Inr done0"
    "\<And>name. \<not> be_link env job name"
  shows "read_complete env job ((u ''incomplete.json'', marker) # bundle_contents report (bp_patch pl) @
       [(u ''manifest.json'', manifest), (u ''complete.json'', done0)]) =
     Inr (\<lparr>sv_job_id = job, sv_state = bp_state pl, sv_reasons = map JStr (bp_reasons pl)\<rparr>, bp_patch pl)"
proof -
  let ?d = "(u ''incomplete.json'', marker) # bundle_contents report (bp_patch pl) @ [(u ''manifest.json'', manifest), (u ''complete.json'', done0)]"
  note ok = bookkeeping_json_ok [OF assms(1)]
  from assms(6-8) have b: "report = canonical_bytes (bp_report pl)" "length report \<le> REPORT_LIMIT"
    "manifest = canonical_bytes (manifest_json (be_sha env) job (bundle_contents report (bp_patch pl)))" "length manifest \<le> META_LIMIT"
    "done0 = canonical_bytes (complete_json (be_sha env) job manifest)" "length done0 \<le> META_LIMIT"
    by (auto simp: bundle_json_Inr)
  have l: "loads_bytes env done0 = Inr (sort_keys (complete_json (be_sha env) job manifest))"
    "loads_bytes env manifest = Inr (sort_keys (manifest_json (be_sha env) job (bundle_contents report (bp_patch pl))))"
    "loads_bytes env report = Inr (sort_keys (bp_report pl))"
    using loads_canonical ok assms(4,5) b(1,3,5) by metis+
  have f: "read_file env job ?d (u ''complete.json'') META_LIMIT = Inr done0" "read_file env job ?d (u ''manifest.json'') META_LIMIT = Inr manifest"
    "read_file env job ?d (u ''report.json'') REPORT_LIMIT = Inr report"
    using b(2,4,6) assms(9) by (auto simp: read_file_def bundle_contents_def split: option.split)
  obtain fs where fs: "manifest_files job (sort_keys (manifest_json (be_sha env) job (bundle_contents report (bp_patch pl)))) = Inr fs"
    "\<And>n. map_of fs n = map_option sort_keys (map_of (map (\<lambda>(name, data). (name, JObj [(u ''size'', JInt (int (length data))),
       (u ''sha256'', JStr (hexdigest (be_sha env) data))])) (bundle_contents report (bp_patch pl))) n)"
    by (rule manifest_accepted) (rule that)
  have r: "read_listed env job ?d fs (u ''report.json'') REPORT_LIMIT = Inr (Some report)"
    unfolding read_listed_def fs(2) using f(3) entry_accepted [of env report] by (simp add: bundle_contents_def del: sort_keys.simps)
  have p: "read_listed env job ?d fs (u ''patch.diff'') MAX_PATCH_BYTES = Inr (bp_patch pl)"
  proof (cases "bp_patch pl")
    case None
    then show ?thesis unfolding read_listed_def fs(2) by (simp add: bundle_contents_def)
  next
    case (Some patch)
    then have "length patch \<le> MAX_PATCH_BYTES" using patch_bounded [OF assms(3)] by simp
    then have "read_file env job ?d (u ''patch.diff'') MAX_PATCH_BYTES = Inr patch"
      using assms(9) Some by (simp add: read_file_def bundle_contents_def)
    with Some show ?thesis
      unfolding read_listed_def fs(2) using entry_accepted [of env patch] by (simp add: bundle_contents_def del: sort_keys.simps)
  qed
  obtain base checks commands ck wv pv where
    "bp_report pl = report_json req base checks commands ck wv pv (bp_state pl) (bp_reasons pl)" "bp_state pl \<in> set bundle_states"
    using assms(3) by (rule evaluate_bundle_Inr) (auto simp: bundle_states_def)
  from saved_of_report_json [OF this] have "saved_of_report job (sort_keys (bp_report pl)) =
      Inr \<lparr>sv_job_id = job, sv_state = bp_state pl, sv_reasons = map JStr (bp_reasons pl)\<rparr>" unfolding assms(2) .
  then show ?thesis unfolding read_complete_def by (simp add: f l fs(1) r p marker_accepted)
qed

section \<open>Properties\<close>

text \<open>
  A bundle is written once, in a fixed order: a job whose directory exists is refused without a
  change, other jobs are never touched, and whatever fails, the files present are an initial part of
  marker, report, patch, manifest, completion marker; all of them are there when the call returns.
\<close>

theorem bundle_written_in_order:
  "case collect_bundle env req st of (st', r) \<Rightarrow>
     (map_of st')(ep_job_id (br_policy req) := None) = (map_of st)(ep_job_id (br_policy req) := None) \<and>
     (case map_of st (ep_job_id (br_policy req)) of Some d \<Rightarrow> st' = st \<and> isl r
      | None \<Rightarrow> \<exists>b. prefix (map fst (case map_of st' (ep_job_id (br_policy req)) of None \<Rightarrow> [] | Some d \<Rightarrow> d)) (bundle_order b) \<and>
          (isl r \<or> map fst (case map_of st' (ep_job_id (br_policy req)) of None \<Rightarrow> [] | Some d \<Rightarrow> d) = bundle_order b))"
proof -
  obtain st' r where c: "collect_bundle env req st = (st', r)" by fastforce
  from collect_bundle_in_order [OF c] show ?thesis unfolding c prod.case .
qed

text \<open>
  C27: A bundle that was collected is read back with its state, its reasons and its patch unchanged,
  every hash, size, identity and state check passing, provided the report is JSON that survives its
  encoding (finite numbers, text without surrogates, objects without repeated keys).
\<close>

theorem bundle_roundtrip:
  assumes "collect_bundle env req st = (st', Inr saved)" "evaluate_bundle (be_sha env) req = Inr pl"
    "printable True (bp_report pl)" "dicts_ok (bp_report pl)" "be_link env = (\<lambda>_ _. False)"
  shows "read_bundle env (ep_job_id (br_policy req)) st' = Inr (saved, bp_patch pl)"
  using assms(1)
proof (rule collect_bundle_Inr)
  let ?job = "ep_job_id (br_policy req)"
  fix marker pl' report manifest done0
  assume a: "hex_exactly 32 ?job" "bundle_json (marker_json ?job) META_LIMIT = Inr marker" "evaluate_bundle (be_sha env) req = Inr pl'"
    "bundle_json (bp_report pl') REPORT_LIMIT = Inr report"
    "bundle_json (manifest_json (be_sha env) ?job (bundle_contents report (bp_patch pl'))) META_LIMIT = Inr manifest"
    "bundle_json (complete_json (be_sha env) ?job manifest) META_LIMIT = Inr done0"
    "map_of st' ?job = Some ((u ''incomplete.json'', marker) # bundle_contents report (bp_patch pl') @
       [(u ''manifest.json'', manifest), (u ''complete.json'', done0)])"
    "saved = \<lparr>sv_job_id = ?job, sv_state = bp_state pl', sv_reasons = map JStr (bp_reasons pl')\<rparr>"
  have e: "pl' = pl" using a(3) assms(2) by simp
  from assms(5) have n: "\<not> be_link env ?job name" for name by simp
  from a(2) have "length marker \<le> META_LIMIT" unfolding bundle_json_Inr by blast
  with read_complete_collected [OF a(1) refl a(3) _ _ a(4-6) n] assms(3,4) a(1,7,8) n show ?thesis
    unfolding e by (simp add: read_bundle_def read_file_def)
qed

definition demo_policy :: execution_policy where
  "demo_policy = \<lparr>ep_job_id = replicate 32 49, ep_repository_id = u ''r'', ep_base_revision = replicate 40 97,
     ep_image_sha256 = replicate 64 50, ep_provider_id = u ''p'', ep_model_id = u ''m'', ep_worker_profile = u ''coding-worker'',
     ep_plan = FLEX, ep_reasoning_effort = None, ep_service_tier = u ''default'', ep_sandbox = default_sandbox,
     ep_budget = \<lparr>timeout_seconds = 60, max_tool_calls = 1, max_cost_usd = JNull, max_model_requests = 1, max_input_bytes = 1,
       max_output_bytes = 1, max_output_tokens = 1, max_command_seconds = 1\<rparr>\<rparr>"

definition demo_request :: bundle_request where
  "demo_request = \<lparr>br_policy = demo_policy,
     br_task = \<lparr>tk_job_id = replicate 32 49, tk_objective = u ''o'', tk_worker_profile = u ''coding-worker'', tk_acceptance_criteria = [],
       tk_repository_id = Some (u ''r''), tk_starting_revision = Some (replicate 40 97), tk_plan = FLEX\<rparr>,
     br_base = \<lparr>ss_job_id = replicate 32 49, ss_repository_id = u ''r'', ss_revision = replicate 40 97, ss_image_sha256 = replicate 64 50,
       ss_files = [\<lparr>sf_path = u ''a'', sf_mode = u ''100644'', sf_content = [97]\<rparr>]\<rparr>,
     br_final = None, br_result = None, br_sandbox = None, br_configured = [], br_checks = [], br_commands = [],
     br_cleanup = CL_UNKNOWN, br_replay = None, br_diagnostics = []\<rparr>"

definition demo_env :: bundle_env where
  "demo_env = \<lparr>be_sha = (\<lambda>_. 0), be_link = (\<lambda>_ _. False), be_mkdir_fails = (\<lambda>_. False), be_write = (\<lambda>_ _ _. None), be_other = (\<lambda>_. None)\<rparr>"

theorem bundle_roundtrip_witness:
  "read_bundle demo_env (replicate 32 49) (fst (collect_bundle demo_env demo_request [])) =
     Inr (projr (snd (collect_bundle demo_env demo_request [])), None)"
proof -
  let ?c = "collect_bundle demo_env demo_request []" and ?pl = "projr (evaluate_bundle (\<lambda>_. 0) demo_request)"
  have "\<not> isl (snd ?c)" by code_simp
  then have c: "?c = (fst ?c, Inr (projr (snd ?c)))" by (cases ?c; cases "snd ?c") simp_all
  have "case evaluate_bundle (\<lambda>_. 0) demo_request of Inl e \<Rightarrow> False
      | Inr pl \<Rightarrow> printable True (bp_report pl) \<and> dicts_ok (bp_report pl) \<and> bp_patch pl = None" by code_simp
  then have e: "evaluate_bundle (be_sha demo_env) demo_request = Inr ?pl"
    and p: "printable True (bp_report ?pl)" "dicts_ok (bp_report ?pl)" "bp_patch ?pl = None"
    by (cases "evaluate_bundle (\<lambda>_. 0) demo_request"; simp add: demo_env_def)+
  have j: "ep_job_id (br_policy demo_request) = replicate 32 49" by (simp add: demo_request_def demo_policy_def)
  from bundle_roundtrip [OF c e p(1,2)] show ?thesis unfolding p(3) j by (simp add: demo_env_def)
qed

end
