(* ===== verification/ToolSession.thy ===== *)
theory ToolSession
  imports WorkerExecutor Base64 RepoPath
begin

text \<open>
  \<open>night_shifts/tool_session.py\<close>: the host side of one sandbox tool session.  The transport and
  the monotonic clock are parameters acting on a world \<open>'w\<close>; after each transport call the flag
  tells whether another thread called \<open>cancel\<close> meanwhile, the only operation that does not take
  the operation lock.  Whether the lock is held by another operation is the argument \<open>busy\<close>.
  Times count microseconds.
\<close>

section \<open>Paths a tool may name\<close>

definition repo_path_check :: "json \<Rightarrow> bool \<Rightarrow> pystr + unit" where
  "repo_path_check v root =
     (if root \<and> v = JStr (u ''.'') then Inr ()
      else case v of
        JStr s \<Rightarrow>
          if s = [] \<or> 240 < length s \<or> starts_with s (u ''/'') \<or> 92 \<in> set s
          then Inl (u ''repository path must be a bounded relative POSIX path'')
          else if 8 < length (split_on 47 s) \<or> list_ex part_refused (split_on 47 s)
          then Inl (u ''repository path is not portable or escapes the workspace'')
          else Inr ()
      | _ \<Rightarrow> Inl (u ''repository path must be a bounded relative POSIX path''))"

definition artifact_kinds :: "pystr list" where
  "artifact_kinds = [u ''test-log'', u ''analysis'', u ''report'', u ''metadata'']"

definition error_codes :: "pystr list" where
  "error_codes = [u ''invalid_request'', u ''policy_denied'', u ''operation_failed'', u ''tool_error'']"

text \<open>\<open>[a-z0-9][a-z0-9._-]{0,127}\Z\<close>\<close>

definition artifact_name :: "pystr \<Rightarrow> bool" where
  "artifact_name s \<longleftrightarrow> (case s of [] \<Rightarrow> False
     | c # r \<Rightarrow> (is_lower_letter c \<or> is_digit c) \<and> length r \<le> 127 \<and>
         list_all (\<lambda>d. is_lower_letter d \<or> is_digit d \<or> d \<in> set (u ''._-'')) r)"

section \<open>The session\<close>

datatype phase = PNew | PLoading | PReady | PExporting | PDone

text \<open>\<open>ToolSessionError\<close>, its subclass for a typed guest error, and any other exception by its text.\<close>

datatype session_exn = SessionError pystr | RemoteError pystr pystr | OtherError pystr

fun exn_text :: "session_exn \<Rightarrow> pystr" where
  "exn_text (SessionError t) = t"
| "exn_text (RemoteError c m) = c @ u '': '' @ m"
| "exn_text (OtherError t) = t"

fun is_session_error :: "session_exn \<Rightarrow> bool" where
  "is_session_error (OtherError t) = False"
| "is_session_error e = True"

record 'w transport =
  tp_send :: "bytes \<Rightarrow> int \<Rightarrow> 'w \<Rightarrow> 'w \<times> bool \<times> (pystr + unit)"
  tp_receive :: "nat \<Rightarrow> int \<Rightarrow> 'w \<Rightarrow> 'w \<times> bool \<times> (pystr + bytes option)"
  tp_close :: "'w \<Rightarrow> 'w \<times> (pystr + unit)"
  tp_monotonic :: "'w \<Rightarrow> 'w \<times> int"

record 'w session =
  se_job_id :: pystr
  se_sandbox_id :: pystr
  se_session_id :: pystr
  se_profile :: pystr
  se_tools :: "worker_tool_spec list"
  se_deadline :: int
  se_timeout :: int
  se_max_command :: int
  se_max_frame :: nat
  se_max_chunk :: nat
  se_max_transfer :: nat
  se_next_id :: nat
  se_load_offset :: nat
  se_export_offset :: nat
  se_phase :: phase
  se_closed :: bool
  se_world :: 'w

type_synonym ('w, 'a) session_act = "('w session, session_exn, 'a) act"

definition micros :: int where
  "micros = 1000000"

text \<open>
  The constructor, on a clock reading \<open>now\<close> and the drawn session identifier.  A deadline or
  timeout is \<open>None\<close> when it is not a finite number.
\<close>

definition session_init ::
  "(pychar \<Rightarrow> bool) \<Rightarrow> sandbox_record \<Rightarrow> pystr \<Rightarrow> worker_tool_spec list \<Rightarrow> int option \<Rightarrow> int option \<Rightarrow> int \<Rightarrow> int \<Rightarrow> int \<Rightarrow> int \<Rightarrow>
   int \<Rightarrow> pystr \<Rightarrow> 'w \<Rightarrow> pystr + 'w session" where
  "session_init uni sandbox profile tools deadline timeout max_command max_frame max_chunk max_transfer now token w =
     (if sb_backend sandbox \<noteq> u ''hyperv'' \<or> \<not> hex_exactly 32 (sb_sandbox_id sandbox)
         \<or> sb_external_id sandbox \<noteq> Some (u ''night-shift-'' @ sb_sandbox_id sandbox) \<or> sb_job_id sandbox = []
      then Inl (u ''session needs a persisted, correctly identified Hyper-V sandbox'')
      else case worker_tool_names uni profile of
        Inl (PolicyError t) \<Rightarrow> Inl t
      | Inl _ \<Rightarrow> Inl []
      | Inr names \<Rightarrow>
          if map ts_name tools \<noteq> names then Inl (u ''tool schemas do not match the approved worker profile'')
          else case (deadline, timeout) of
            (Some d, Some t) \<Rightarrow>
              if d \<le> now \<or> t \<le> 0 \<or> 120 * micros < t
              then Inl (u ''session deadline or operation timeout is invalid'')
              else if max_command < 1 \<or> 300 < max_command then Inl (u ''command timeout must be a bounded integer'')
              else if max_frame < 4096 \<or> 1024 * 1024 < max_frame \<or> max_chunk < 1 \<or> max_frame div 4 < max_chunk
                  \<or> max_transfer < max_chunk \<or> 64 * 1024 * 1024 < max_transfer
              then Inl (u ''session frame or transfer limits are invalid'')
              else Inr \<lparr>se_job_id = sb_job_id sandbox, se_sandbox_id = sb_sandbox_id sandbox, se_session_id = token,
                     se_profile = profile, se_tools = tools, se_deadline = d, se_timeout = t, se_max_command = max_command,
                     se_max_frame = nat max_frame, se_max_chunk = nat max_chunk, se_max_transfer = nat max_transfer,
                     se_next_id = 1, se_load_offset = 0, se_export_offset = 0, se_phase = PNew, se_closed = False,
                     se_world = w\<rparr>
          | _ \<Rightarrow> Inl (u ''session deadline or operation timeout is invalid''))"

section \<open>Internal operations\<close>

definition identity_fields :: "'w session \<Rightarrow> (pystr \<times> json) list" where
  "identity_fields s = [(u ''job_id'', JStr (se_job_id s)), (u ''sandbox_id'', JStr (se_sandbox_id s)),
     (u ''session_id'', JStr (se_session_id s))]"

definition session_encode :: "(pystr \<times> json) list \<Rightarrow> nat \<Rightarrow> session_exn + bytes" where
  "session_encode message max_frame =
     (let j = JObj ((u ''version'', JInt 1) # message) in
      if \<not> all_finite j then Inl (SessionError (u ''session payload is not finite JSON''))
      else case utf8_encode (dumps False j) of
        None \<Rightarrow> Inl (SessionError (u ''session payload is not finite JSON''))
      | Some raw \<Rightarrow>
          if max_frame < length raw + 1 then Inl (SessionError (u ''outgoing session frame is too large''))
          else Inr (raw @ [10]))"

text \<open>\<open>_remaining\<close>: the time left, capped by the operation timeout; it reads the clock.\<close>

definition remaining :: "'w transport \<Rightarrow> int option \<Rightarrow> ('w, int) session_act" where
  "remaining tp deadline = (\<lambda>s. case tp_monotonic tp (se_world s) of (w, now) \<Rightarrow>
     let s' = s\<lparr>se_world := w\<rparr>;
         left = (case deadline of None \<Rightarrow> se_deadline s | Some d \<Rightarrow> min (se_deadline s) d) - now in
     if left \<le> 0 then (s', Inl (OtherError (u ''sandbox tool session deadline expired'')))
     else (s', Inr (min left (se_timeout s))))"

definition clock_reading :: "'w transport \<Rightarrow> ('w, int) session_act" where
  "clock_reading tp = (\<lambda>s. case tp_monotonic tp (se_world s) of (w, now) \<Rightarrow> (s\<lparr>se_world := w\<rparr>, Inr now))"

definition require_phase :: "'w transport \<Rightarrow> phase \<Rightarrow> ('w, unit) session_act" where
  "require_phase tp p =
     abind (reads (\<lambda>s. se_closed s \<or> se_phase s \<noteq> p)) (\<lambda>bad.
     abind (guard (\<not> bad) (SessionError (u ''session is closed or in the wrong phase''))) (\<lambda>_.
     abind (remaining tp None) (\<lambda>_. ret ())))"

text \<open>A transport call: its world, a concurrent \<open>cancel\<close>, and its outcome.\<close>

definition transport_call :: "('w \<Rightarrow> 'w \<times> bool \<times> (pystr + 'a)) \<Rightarrow> ('w, 'a) session_act" where
  "transport_call f = (\<lambda>s. case f (se_world s) of (w, cancelled, r) \<Rightarrow>
     (s\<lparr>se_world := w, se_closed := se_closed s \<or> cancelled\<rparr>, case r of Inl t \<Rightarrow> Inl (OtherError t) | Inr x \<Rightarrow> Inr x))"

definition send_frame :: "'w transport \<Rightarrow> (pystr \<times> json) list \<Rightarrow> int \<Rightarrow> ('w, unit) session_act" where
  "send_frame tp message deadline =
     abind (reads (\<lambda>s. session_encode message (se_max_frame s))) (\<lambda>enc.
     case enc of Inl e \<Rightarrow> throw e
     | Inr frame \<Rightarrow> abind (remaining tp (Some deadline)) (\<lambda>t. transport_call (tp_send tp frame t)))"

definition reply_object :: "'w session \<Rightarrow> pystr \<Rightarrow> pystr list \<Rightarrow> bytes option \<Rightarrow> session_exn + (pystr \<times> json) list" where
  "reply_object s expected keys frame =
     (case frame of
        None \<Rightarrow> Inl (SessionError (u ''truncated, oversized or malformed session frame''))
      | Some raw \<Rightarrow>
          if raw = [] \<or> last raw \<noteq> 10 \<or> se_max_frame s < length raw \<or> 10 \<in> set (butlast raw)
          then Inl (SessionError (u ''truncated, oversized or malformed session frame''))
          else case utf8_decode (butlast raw) of
            None \<Rightarrow> Inl (SessionError (u ''invalid session JSON''))
          | Some text \<Rightarrow>
              (case json_loads_strict text of
                 None \<Rightarrow> Inl (SessionError (u ''invalid session JSON''))
               | Some (JObj message) \<Rightarrow>
                   if \<not> list_all (\<lambda>(k, v). k \<in> set keys) message \<or> map_of message (u ''version'') \<noteq> Some (JInt 1)
                       \<or> map_of message (u ''type'') \<noteq> Some (JStr expected)
                   then Inl (SessionError (u ''unexpected session message type, version or fields''))
                   else if list_ex (\<lambda>(k, v). map_of message k \<noteq> Some v) (identity_fields s)
                   then Inl (SessionError (u ''session job, sandbox or nonce mismatch''))
                   else Inr message
               | Some _ \<Rightarrow> Inl (SessionError (u ''unexpected session message type, version or fields''))))"

definition receive_message :: "'w transport \<Rightarrow> pystr \<Rightarrow> pystr list \<Rightarrow> int \<Rightarrow> ('w, (pystr \<times> json) list) session_act" where
  "receive_message tp expected keys deadline =
     abind (remaining tp (Some deadline)) (\<lambda>t.
     abind (reads se_max_frame) (\<lambda>max_frame.
     abind (transport_call (tp_receive tp max_frame t)) (\<lambda>frame.
     abind (remaining tp (Some deadline)) (\<lambda>_.
     abind (reads (\<lambda>s. reply_object s expected keys frame)) (\<lambda>r.
     case r of Inl e \<Rightarrow> throw e | Inr message \<Rightarrow> ret message)))))"

text \<open>\<open>cancel\<close>: the flag first, then the transport, whose \<open>close\<close> may raise.\<close>

definition session_cancel :: "'w transport \<Rightarrow> 'w session \<Rightarrow> 'w session \<times> (pystr + unit)" where
  "session_cancel tp s =
     (if se_closed s then (s, Inr ())
      else case tp_close tp (se_world s) of (w, r) \<Rightarrow> (s\<lparr>se_closed := True, se_world := w\<rparr>, r))"

text \<open>\<open>_abort\<close> always raises.\<close>

definition session_abort :: "'w transport \<Rightarrow> session_exn \<Rightarrow> ('w, 'a) session_act" where
  "session_abort tp e = (\<lambda>s. case session_cancel tp s of
     (s', Inl cleanup) \<Rightarrow> (s', Inl (SessionError (exn_text e @ u ''; session transport close failed: '' @ cleanup)))
   | (s', Inr _) \<Rightarrow> (s', Inl (if is_session_error e then e
       else SessionError (u ''session operation failed: '' @ exn_text e))))"

definition or_abort :: "'w transport \<Rightarrow> ('w, 'a) session_act \<Rightarrow> ('w, 'a) session_act" where
  "or_abort tp m = (\<lambda>s. case m s of (s', Inr x) \<Rightarrow> (s', Inr x) | (s', Inl e) \<Rightarrow> session_abort tp e s')"

section \<open>Operations\<close>

definition in_progress :: session_exn where
  "in_progress = SessionError (u ''another session operation is in progress'')"

text \<open>The exchange of identities, up to the second look at the phase.\<close>

definition handshake :: "'w transport \<Rightarrow> ('w, unit) session_act" where
  "handshake tp =
     abind (require_phase tp PNew) (\<lambda>_.
     abind (clock_reading tp) (\<lambda>now.
     abind (reads (\<lambda>s. (now + se_timeout s, identity_fields s))) (\<lambda>(deadline, ident).
     abind (send_frame tp ((u ''type'', JStr (u ''hello'')) # ident) deadline) (\<lambda>_.
     abind (receive_message tp (u ''hello_ack'') (u ''version'' # u ''type'' # map fst ident) deadline) (\<lambda>reply.
     abind (guard (list_all (\<lambda>(k, v). map_of reply k = Some v)
              ((u ''version'', JInt 1) # (u ''type'', JStr (u ''hello_ack'')) # ident))
            (SessionError (u ''handshake identity or shape mismatch''))) (\<lambda>_.
     require_phase tp PNew))))))"

definition session_start :: "'w transport \<Rightarrow> bool \<Rightarrow> ('w, unit) session_act" where
  "session_start tp busy =
     abind (guard (\<not> busy) in_progress) (\<lambda>_.
     or_abort tp (abind (handshake tp) (\<lambda>_. writes (\<lambda>s. s\<lparr>se_phase := PLoading\<rparr>))))"

definition guest_error :: "json \<Rightarrow> session_exn" where
  "guest_error v = (case v of
     JObj d \<Rightarrow>
       (case (map_of d (u ''code''), map_of d (u ''message'')) of
          (Some (JStr code), Some (JStr msg)) \<Rightarrow>
            if fst ` set d \<noteq> {u ''code'', u ''message''} \<or> code \<notin> set error_codes
            then SessionError (u ''invalid guest error'')
            else (case utf8_encode msg of
                None \<Rightarrow> OtherError (u ''surrogates not allowed'')
              | Some raw \<Rightarrow> if 1024 < length raw then SessionError (u ''invalid guest error'') else RemoteError code msg)
        | _ \<Rightarrow> SessionError (u ''invalid guest error''))
   | _ \<Rightarrow> SessionError (u ''invalid guest error''))"

text \<open>The checks on a received response: its payload, or the exception to abort with.\<close>

definition response_payload :: "'w session \<Rightarrow> nat \<Rightarrow> (pystr \<times> json) list \<Rightarrow> session_exn + (pystr \<times> json) list" where
  "response_payload s request_id reply =
     (let base = {u ''version'', u ''type'', u ''request_id'', u ''ok''} \<union> fst ` set (identity_fields s) in
      if map_of reply (u ''request_id'') \<noteq> Some (JInt (int request_id))
      then Inl (SessionError (u ''response request ID or status mismatch''))
      else case map_of reply (u ''ok'') of
        Some (JBool True) \<Rightarrow>
          (case map_of reply (u ''payload'') of
             Some (JObj payload) \<Rightarrow>
               if fst ` set reply \<noteq> insert (u ''payload'') base then Inl (SessionError (u ''invalid success response''))
               else Inr payload
           | _ \<Rightarrow> Inl (SessionError (u ''invalid success response'')))
      | Some (JBool False) \<Rightarrow>
          if fst ` set reply \<noteq> insert (u ''error'') base then Inl (SessionError (u ''invalid error response''))
          else Inl (guest_error (the (map_of reply (u ''error''))))
      | _ \<Rightarrow> Inl (SessionError (u ''response request ID or status mismatch'')))"

text \<open>Sending the request and receiving its reply, both before the operation's own deadline.\<close>

definition round_trip ::
  "'w transport \<Rightarrow> nat \<Rightarrow> pystr \<Rightarrow> (pystr \<times> json) list \<Rightarrow> ('w, (pystr \<times> json) list) session_act" where
  "round_trip tp request_id operation payload =
     abind (clock_reading tp) (\<lambda>now.
     abind (reads (\<lambda>s. (now + se_timeout s, identity_fields s))) (\<lambda>(deadline, ident).
     abind (send_frame tp ([(u ''type'', JStr (u ''request'')), (u ''request_id'', JInt (int request_id)),
              (u ''operation'', JStr operation), (u ''payload'', JObj payload)] @ ident) deadline) (\<lambda>_.
     receive_message tp (u ''response'')
       ([u ''version'', u ''type''] @ map fst ident @ [u ''request_id'', u ''ok'', u ''payload'', u ''error'']) deadline)))"

definition session_exchange ::
  "'w transport \<Rightarrow> bool \<Rightarrow> phase \<Rightarrow> pystr \<Rightarrow> (pystr \<times> json) list \<Rightarrow> ('w, (pystr \<times> json) list) session_act" where
  "session_exchange tp busy p operation payload =
     abind (guard (\<not> busy) in_progress) (\<lambda>_.
     or_abort tp (
       abind (require_phase tp p) (\<lambda>_.
       abind (reads se_next_id) (\<lambda>request_id.
       abind (writes (\<lambda>s. s\<lparr>se_next_id := Suc request_id\<rparr>)) (\<lambda>_.
       abind (round_trip tp request_id operation payload) (\<lambda>reply.
       abind (reads (\<lambda>s. response_payload s request_id reply)) (\<lambda>r.
       case r of
         Inl e \<Rightarrow> throw e
       | Inr result \<Rightarrow> abind (require_phase tp p) (\<lambda>_. ret result))))))))"

text \<open>\<open>ValueError\<close> before the exchange, and what may follow it.\<close>

definition load_chunk :: "'w transport \<Rightarrow> bool \<Rightarrow> bytes \<Rightarrow> int \<Rightarrow> bool \<Rightarrow> ('w, unit) session_act" where
  "load_chunk tp busy chunk offset final =
     abind (reads (\<lambda>s. s)) (\<lambda>s0.
     abind (guard (\<not> (se_max_chunk s0 < length chunk \<or> chunk = [] \<and> \<not> final))
              (OtherError (u ''workspace chunk is invalid or too large''))) (\<lambda>_.
     abind (guard (offset = int (se_load_offset s0))
              (OtherError (u ''workspace chunk offset or final flag is invalid''))) (\<lambda>_.
     abind (guard (offset + int (length chunk) \<le> int (se_max_transfer s0))
              (OtherError (u ''workspace transfer exceeds the session limit''))) (\<lambda>_.
     abind (session_exchange tp busy PLoading (u ''load_chunk'')
              [(u ''offset'', JInt offset), (u ''data'', JStr (b64_encode chunk)), (u ''final'', JBool final)]) (\<lambda>result.
     if result \<noteq> [] then session_abort tp (SessionError (u ''invalid load acknowledgement''))
     else writes (\<lambda>s. let s1 = s\<lparr>se_load_offset := se_load_offset s + length chunk\<rparr> in
                      if final then s1\<lparr>se_phase := PReady\<rparr> else s1))))))"

definition session_finalize :: "'w transport \<Rightarrow> bool \<Rightarrow> ('w, unit) session_act" where
  "session_finalize tp busy =
     abind (session_exchange tp busy PReady (u ''finalize'') []) (\<lambda>result.
     if result \<noteq> [] then session_abort tp (SessionError (u ''invalid finalize acknowledgement''))
     else writes (\<lambda>s. s\<lparr>se_phase := PExporting\<rparr>))"

definition take_export :: "'w transport \<Rightarrow> int \<Rightarrow> (pystr \<times> json) list \<Rightarrow> ('w, bytes \<times> bool) session_act" where
  "take_export tp limit result =
     (case (map_of result (u ''data''), map_of result (u ''eof'')) of
       (Some (JStr enc), Some (JBool eof)) \<Rightarrow>
         if fst ` set result \<noteq> {u ''data'', u ''eof''} then session_abort tp (SessionError (u ''invalid export response''))
         else (case b64_decode enc of
             None \<Rightarrow> session_abort tp (SessionError (u ''invalid export encoding''))
           | Some chunk \<Rightarrow>
               if limit < int (length chunk) \<or> chunk = [] \<and> \<not> eof
               then session_abort tp (SessionError (u ''invalid export chunk length''))
               else
                 abind (writes (\<lambda>s. let s1 = s\<lparr>se_export_offset := se_export_offset s + length chunk\<rparr> in
                                    if eof then s1\<lparr>se_phase := PDone\<rparr> else s1)) (\<lambda>_.
                 ret (chunk, eof)))
     | _ \<Rightarrow> session_abort tp (SessionError (u ''invalid export response'')))"

definition export_chunk :: "'w transport \<Rightarrow> bool \<Rightarrow> int \<Rightarrow> int \<Rightarrow> ('w, bytes \<times> bool) session_act" where
  "export_chunk tp busy offset limit =
     abind (reads (\<lambda>s. s)) (\<lambda>s0.
     abind (guard (offset = int (se_export_offset s0) \<and> 1 \<le> limit \<and> limit \<le> int (se_max_chunk s0) \<and>
                   offset + limit \<le> int (se_max_transfer s0))
              (OtherError (u ''export offset or chunk limit is invalid''))) (\<lambda>_.
     abind (session_exchange tp busy PExporting (u ''export_chunk'')
              [(u ''offset'', JInt offset), (u ''limit_bytes'', JInt limit)]) (take_export tp limit)))"

section \<open>Model tools\<close>

text \<open>
  The texts of exceptions the session puts into a tool result: \<open>repr\<close>'s Unicode printability, and
  the text of the \<open>UnicodeEncodeError\<close> for a string.
\<close>

record text_env =
  te_printable :: "pychar \<Rightarrow> bool"
  te_encode_error :: "pystr \<Rightarrow> pystr"

text \<open>A refused call is answered with its text; any other exception leaves \<open>_invoke\<close>.\<close>

datatype refusal = Refused pystr | Raised session_exn

definition lift_text :: "pystr + 'a \<Rightarrow> refusal + 'a" where
  "lift_text r = (case r of Inl t \<Rightarrow> Inl (Refused t) | Inr x \<Rightarrow> Inr x)"

definition policy_text :: "text_env \<Rightarrow> policy_error \<Rightarrow> pystr" where
  "policy_text te e = (case e of PolicyError t \<Rightarrow> t | PolicyUnicode a \<Rightarrow> te_encode_error te a | PolicyBlocked t \<Rightarrow> t)"

definition lift_policy :: "text_env \<Rightarrow> policy_error + 'a \<Rightarrow> refusal + 'a" where
  "lift_policy te r = (case r of Inl e \<Rightarrow> Inl (Refused (policy_text te e)) | Inr x \<Rightarrow> Inr x)"

definition utf8_size :: "text_env \<Rightarrow> pystr \<Rightarrow> refusal + nat" where
  "utf8_size te s = (case utf8_encode s of None \<Rightarrow> Inl (Refused (te_encode_error te s)) | Some raw \<Rightarrow> Inr (length raw))"

definition refuse :: "bool \<Rightarrow> pystr \<Rightarrow> refusal + unit" where
  "refuse b t = require (\<not> b) (Refused t)"

definition str_items :: "json \<Rightarrow> pystr list option" where
  "str_items v = (case v of
     JArr xs \<Rightarrow> if list_all is_JStr xs then Some (map (\<lambda>x. case x of JStr t \<Rightarrow> t | _ \<Rightarrow> []) xs) else None
   | _ \<Rightarrow> None)"

definition keys_in :: "(pystr \<times> json) list \<Rightarrow> pystr list \<Rightarrow> bool" where
  "keys_in d ks \<longleftrightarrow> fst ` set d \<subseteq> set ks"

definition check_command :: "text_env \<Rightarrow> 'w session \<Rightarrow> (pystr \<times> json) list \<Rightarrow> refusal + unit" where
  "check_command te s args =
     rbind (refuse (\<not> keys_in args [u ''argv'', u ''timeout_seconds'', u ''max_output_bytes'']) (u ''unexpected command arguments'')) (\<lambda>_.
     case str_items (field_or args (u ''argv'') JNull) of
       None \<Rightarrow> Inl (Refused (u ''command argv must be an array of strings''))
     | Some argv \<Rightarrow>
         (case (field_or args (u ''timeout_seconds'') (JInt 300), field_or args (u ''max_output_bytes'') (JInt (16 * 1024))) of
            (JInt t, JInt m) \<Rightarrow>
              rbind (refuse (m < 1 \<or> 16 * 1024 < m) (u ''command limits must be bounded integers'')) (\<lambda>_.
              rbind (refuse (se_max_command s < t) (u ''command exceeds job timeout policy'')) (\<lambda>_.
              rbind (lift_policy te (approve_worker_command (te_printable te) (se_profile s) argv t m)) (\<lambda>_. Inr ())))
          | _ \<Rightarrow> Inl (Refused (u ''command limits must be bounded integers''))))"

definition check_artifact :: "(pystr \<times> json) list \<Rightarrow> refusal + unit" where
  "check_artifact args =
     (case (map_of args (u ''name''), map_of args (u ''kind''), map_of args (u ''content'')) of
        (Some (JStr name), Some (JStr kind), Some (JStr content)) \<Rightarrow>
          rbind (refuse (\<not> keys_in args [u ''name'', u ''kind'', u ''content''])
                   (u ''artifact arguments must contain name, kind and text content'')) (\<lambda>_.
          refuse (\<not> artifact_name name \<or> kind \<notin> set artifact_kinds) (u ''artifact name or kind is not approved''))
      | _ \<Rightarrow> Inl (Refused (u ''artifact arguments must contain name, kind and text content'')))"

definition check_search :: "text_env \<Rightarrow> (pystr \<times> json) list \<Rightarrow> refusal + unit" where
  "check_search te args =
     (case map_of args (u ''query'') of
        Some (JStr query) \<Rightarrow>
          rbind (refuse (\<not> keys_in args [u ''query'']) (u ''search_text needs a literal query'')) (\<lambda>_.
          rbind (refuse (query = []) (u ''search query is invalid or too large'')) (\<lambda>_.
          rbind (utf8_size te query) (\<lambda>n.
          refuse (256 < n \<or> 10 \<in> set query \<or> 13 \<in> set query) (u ''search query is invalid or too large''))))
      | _ \<Rightarrow> Inl (Refused (u ''search_text needs a literal query'')))"

definition check_patch :: "text_env \<Rightarrow> (pystr \<times> json) list \<Rightarrow> refusal + unit" where
  "check_patch te args =
     (if fst ` set args \<noteq> {u ''path'', u ''expected_sha256'', u ''find'', u ''replace''}
      then Inl (Refused (u ''apply_patch needs path, digest, find and replace''))
      else
        let digest = the (map_of args (u ''expected_sha256'')) in
        rbind (lift_text (repo_path_check (the (map_of args (u ''path''))) False)) (\<lambda>_.
        rbind (refuse (digest \<noteq> JNull \<and> (case digest of JStr d \<Rightarrow> \<not> hex_exactly 64 d | _ \<Rightarrow> True)) (u ''patch digest is invalid'')) (\<lambda>_.
        case (the (map_of args (u ''find'')), the (map_of args (u ''replace''))) of
          (JStr needle, JStr replacement) \<Rightarrow>
            rbind (utf8_size te needle) (\<lambda>n.
            rbind (refuse (16 * 1024 < n) (u ''patch text or creation context is invalid'')) (\<lambda>_.
            rbind (utf8_size te replacement) (\<lambda>m.
            refuse (16 * 1024 < m \<or> digest = JNull \<and> needle \<noteq> [] \<or> digest \<noteq> JNull \<and> needle = [])
              (u ''patch text or creation context is invalid''))))
        | _ \<Rightarrow> Inl (Refused (u ''patch text or creation context is invalid'')))))"

definition check_arguments :: "text_env \<Rightarrow> 'w session \<Rightarrow> worker_tool_call \<Rightarrow> refusal + unit" where
  "check_arguments te s call =
     (let name = tcl_name call; args = tcl_arguments call in
      if name = RUN_COMMAND_TOOL then check_command te s args
      else if name = WRITE_ARTIFACT_TOOL then check_artifact args
      else if name = LIST_FILES_TOOL then
        rbind (refuse (\<not> keys_in args [u ''path'']) (u ''unexpected list arguments'')) (\<lambda>_.
        lift_text (repo_path_check (field_or args (u ''path'') (JStr (u ''.''))) True))
      else if name = READ_FILE_TOOL then
        rbind (refuse (fst ` set args \<noteq> {u ''path''}) (u ''read_file needs a path'')) (\<lambda>_.
        lift_text (repo_path_check (the (map_of args (u ''path''))) False))
      else if name = SEARCH_TEXT_TOOL then check_search te args
      else if name = APPLY_PATCH_TOOL then check_patch te args
      else Inl (Refused (u ''approved tool has no host-side validator'')))"

definition validate_call :: "text_env \<Rightarrow> 'w session \<Rightarrow> worker_tool_call \<Rightarrow> refusal + unit" where
  "validate_call te s call =
     rbind (refuse (tcl_name call \<notin> ts_name ` set (se_tools s)) (u ''tool is not approved for this worker profile'')) (\<lambda>_.
     rbind (check_arguments te s call) (\<lambda>_.
     case session_encode ([(u ''type'', JStr (u ''request'')), (u ''operation'', JStr (u ''tool'')),
            (u ''payload'', JObj (tcl_arguments call))] @ identity_fields s @
            [(u ''request_id'', JInt (int (se_next_id s)))]) (se_max_frame s) of
       Inl e \<Rightarrow> Inl (Raised e) | Inr _ \<Rightarrow> Inr ()))"

definition with_timeout :: "'w session \<Rightarrow> worker_tool_call \<Rightarrow> worker_tool_call" where
  "with_timeout s call =
     (if tcl_name call = RUN_COMMAND_TOOL \<and> se_max_command s < 300 \<and>
         map_of (tcl_arguments call) (u ''timeout_seconds'') = None
      then call\<lparr>tcl_arguments := dput (u ''timeout_seconds'') (JInt (se_max_command s)) (tcl_arguments call)\<rparr>
      else call)"

definition take_tool_result ::
  "'w transport \<Rightarrow> text_env \<Rightarrow> nat \<Rightarrow> pystr \<Rightarrow> (pystr \<times> json) list \<Rightarrow> ('w, worker_tool_result) session_act" where
  "take_tool_result tp te limit name result =
     (case (map_of result (u ''output''), map_of result (u ''is_error'')) of
       (Some (JStr output), Some (JBool is_error)) \<Rightarrow>
         if fst ` set result \<noteq> {u ''output'', u ''is_error''} then session_abort tp (SessionError (u ''invalid tool response''))
         else (case utf8_encode output of
             None \<Rightarrow> throw (OtherError (te_encode_error te output))
           | Some raw \<Rightarrow>
               if limit < length raw then session_abort tp (SessionError (u ''invalid tool response''))
               else ret \<lparr>tr_tool_name = name, tr_output = output, tr_is_error = is_error\<rparr>)
     | _ \<Rightarrow> session_abort tp (SessionError (u ''invalid tool response'')))"

definition session_invoke :: "'w transport \<Rightarrow> text_env \<Rightarrow> bool \<Rightarrow> worker_tool_call \<Rightarrow> ('w, worker_tool_result) session_act" where
  "session_invoke tp te busy call0 =
     abind (reads (\<lambda>s. s)) (\<lambda>s0.
     let call = with_timeout s0 call0 in
     case validate_call te s0 call of
       Inl (Refused t) \<Rightarrow> ret \<lparr>tr_tool_name = tcl_name call, tr_output = take 4000 t, tr_is_error = True\<rparr>
     | Inl (Raised e) \<Rightarrow> throw e
     | Inr _ \<Rightarrow>
         abind (session_exchange tp busy PReady (u ''tool'')
                  [(u ''name'', JStr (tcl_name call)), (u ''arguments'', JObj (tcl_arguments call))])
           (take_tool_result tp te (se_max_frame s0 div 2) (tcl_name call)))"

section \<open>What every step keeps\<close>

definition same_config :: "'w session \<Rightarrow> 'w session \<Rightarrow> bool" where
  "same_config s s' \<longleftrightarrow> se_job_id s' = se_job_id s \<and> se_sandbox_id s' = se_sandbox_id s \<and> se_session_id s' = se_session_id s \<and>
     se_profile s' = se_profile s \<and> se_tools s' = se_tools s \<and> se_deadline s' = se_deadline s \<and> se_timeout s' = se_timeout s \<and>
     se_max_command s' = se_max_command s \<and> se_max_frame s' = se_max_frame s \<and> se_max_chunk s' = se_max_chunk s \<and>
     se_max_transfer s' = se_max_transfer s"

text \<open>An internal step keeps configuration, phase and offsets; it may close the session and use up request identifiers.\<close>

definition internal_step :: "'w session \<Rightarrow> 'w session \<Rightarrow> bool" where
  "internal_step s s' \<longleftrightarrow> same_config s s' \<and> se_phase s' = se_phase s \<and> se_load_offset s' = se_load_offset s \<and>
     se_export_offset s' = se_export_offset s \<and> se_next_id s \<le> se_next_id s' \<and> (se_closed s \<longrightarrow> se_closed s')"

lemma internal_reflp [simp]: "reflp internal_step"
  by (auto simp: reflp_def internal_step_def same_config_def)

lemma internal_transp [simp]: "transp internal_step"
  by (rule transpI) (auto simp: internal_step_def same_config_def)

lemma keeps_remaining [inv_intros]: "keeps internal_step (remaining tp d)"
  by (auto simp: keeps_def remaining_def internal_step_def same_config_def Let_def split: prod.splits)

lemma keeps_clock [inv_intros]: "keeps internal_step (clock_reading tp)"
  by (auto simp: keeps_def clock_reading_def internal_step_def same_config_def split: prod.splits)

lemma keeps_transport [inv_intros]: "keeps internal_step (transport_call f)"
  by (auto simp: keeps_def transport_call_def internal_step_def same_config_def split: prod.splits)

lemma keeps_require_phase [inv_intros]: "keeps internal_step (require_phase tp p)"
  unfolding require_phase_def by (intro inv_intros internal_reflp internal_transp)

lemma keeps_send [inv_intros]: "keeps internal_step (send_frame tp m d)"
  unfolding send_frame_def
  by (intro keeps_abind internal_transp) (auto intro!: inv_intros split: sum.splits)

lemma keeps_receive [inv_intros]: "keeps internal_step (receive_message tp e ks d)"
  unfolding receive_message_def
  by (intro inv_intros internal_reflp internal_transp) (auto intro!: inv_intros split: sum.splits)

lemma cancel_step: "internal_step s (fst (session_cancel tp s)) \<and> se_closed (fst (session_cancel tp s))"
  by (auto simp: session_cancel_def internal_step_def same_config_def split: prod.splits)

lemma abort_step:
  "session_abort tp e s = (s', r) \<Longrightarrow> internal_step s s' \<and> se_closed s' \<and> (\<exists>x. r = Inl x \<and> is_session_error x)"
  using cancel_step [of s tp] by (auto simp: session_abort_def split: prod.splits sum.splits)

lemma keeps_or_abort [inv_intros]: "keeps internal_step m \<Longrightarrow> keeps internal_step (or_abort tp m)"
proof (rule keepsI)
  fix s s' r assume m: "keeps internal_step m" and e: "or_abort tp m s = (s', r)"
  obtain s1 q where q: "m s = (s1, q)" by (cases "m s")
  with m have k: "internal_step s s1" by (rule keepsD)
  show "internal_step s s'"
  proof (cases q)
    case (Inl x)
    with e q have "session_abort tp x s1 = (s', r)" by (simp add: or_abort_def)
    with abort_step k show ?thesis using internal_transp transpD by metis
  next
    case (Inr x)
    with e q k show ?thesis by (simp add: or_abort_def)
  qed
qed

lemma keeps_abort [inv_intros]: "keeps internal_step (session_abort tp e)"
  by (rule keepsI) (simp add: abort_step)

lemma keeps_next_id [inv_intros]: "keeps internal_step (abind (reads se_next_id) (\<lambda>i. abind (writes (\<lambda>s. s\<lparr>se_next_id := Suc i\<rparr>)) (f i)))"
  if "\<And>i x. keeps internal_step (f i x)"
proof (rule keepsI)
  fix s s' r
  assume "abind (reads se_next_id) (\<lambda>i. abind (writes (\<lambda>s. s\<lparr>se_next_id := Suc i\<rparr>)) (f i)) s = (s', r)"
  then have "f (se_next_id s) () (s\<lparr>se_next_id := Suc (se_next_id s)\<rparr>) = (s', r)" by simp
  with that have "internal_step (s\<lparr>se_next_id := Suc (se_next_id s)\<rparr>) s'" by (rule keepsD)
  then show "internal_step s s'" by (auto simp: internal_step_def same_config_def)
qed

lemma keeps_case_prod [inv_intros]: "(\<And>a b. keeps R (f a b)) \<Longrightarrow> keeps R (case p of (a, b) \<Rightarrow> f a b)"
  by (cases p) simp

lemma keeps_case_sum [inv_intros]: "(\<And>a. keeps R (f a)) \<Longrightarrow> (\<And>b. keeps R (g b)) \<Longrightarrow> keeps R (case x of Inl a \<Rightarrow> f a | Inr b \<Rightarrow> g b)"
  by (cases x) simp_all

lemma keeps_round_trip [inv_intros]: "keeps internal_step (round_trip tp i op payload)"
  unfolding round_trip_def by (intro keeps_abind internal_transp keeps_case_prod inv_intros internal_reflp)

lemma keeps_exchange [inv_intros]: "keeps internal_step (session_exchange tp busy p op payload)"
  unfolding session_exchange_def
  by (intro keeps_abind internal_transp keeps_or_abort keeps_next_id keeps_case_prod keeps_case_sum inv_intros internal_reflp)

text \<open>What the result of an exchange says about the session.\<close>

lemma require_phase_Inr: "require_phase tp p s = (s', Inr x) \<Longrightarrow> \<not> se_closed s \<and> se_phase s = p \<and> se_closed s' = se_closed s"
  by (auto simp: require_phase_def remaining_def abind_Inr_iff Let_def split: prod.splits if_splits)

lemma or_abort_Inr [simp]: "or_abort tp m s = (s', Inr x) \<longleftrightarrow> m s = (s', Inr x)"
  by (auto simp: or_abort_def session_abort_def split: prod.splits sum.splits)

lemma or_abort_Inl: "or_abort tp m s = (s', Inl e) \<Longrightarrow> se_closed s' \<and> is_session_error e"
  unfolding or_abort_def by (auto split: prod.splits sum.splits dest: abort_step)

lemma exchange_Inl:
  "session_exchange tp busy p op payload s = (s', Inl e) \<Longrightarrow> is_session_error e \<and> (busy \<and> s' = s \<or> \<not> busy \<and> se_closed s')"
  by (cases busy) (auto simp: session_exchange_def in_progress_def dest: or_abort_Inl)

lemma case_throw_Inr:
  "(case r of Inl e \<Rightarrow> throw e | Inr y \<Rightarrow> m y) s = (s', Inr x) \<longleftrightarrow> (\<exists>y. r = Inr y \<and> m y s = (s', Inr x))"
  by (cases r) auto

lemma exchange_Inr_steps:
  assumes "session_exchange tp busy p op payload s = (s', Inr x)"
  shows "\<not> busy \<and> (\<exists>s1 s2 reply. require_phase tp p s = (s1, Inr ()) \<and>
    round_trip tp (se_next_id s1) op payload (s1\<lparr>se_next_id := Suc (se_next_id s1)\<rparr>) = (s2, Inr reply) \<and>
    response_payload s2 (se_next_id s1) reply = Inr x \<and> require_phase tp p s2 = (s', Inr ()))"
  using assms by (cases busy) (auto simp: session_exchange_def abind_Inr_iff case_throw_Inr)

lemma exchange_Inr:
  assumes "session_exchange tp busy p op payload s = (s', Inr x)"
  shows "internal_step s s' \<and> \<not> busy \<and> \<not> se_closed s' \<and> \<not> se_closed s \<and> se_phase s = p \<and> se_phase s' = p \<and>
    se_next_id s < se_next_id s'"
proof -
  obtain s1 s2 reply where b: "\<not> busy" and r1: "require_phase tp p s = (s1, Inr ())"
    and rt: "round_trip tp (se_next_id s1) op payload (s1\<lparr>se_next_id := Suc (se_next_id s1)\<rparr>) = (s2, Inr reply)"
    and r2: "require_phase tp p s2 = (s', Inr ())"
    using exchange_Inr_steps [OF assms] by blast
  have i: "internal_step s s1" "internal_step (s1\<lparr>se_next_id := Suc (se_next_id s1)\<rparr>) s2" "internal_step s2 s'"
    using keepsD [OF keeps_require_phase r1] keepsD [OF keeps_round_trip rt] keepsD [OF keeps_require_phase r2] by auto
  show ?thesis
    using b i require_phase_Inr [OF r1] require_phase_Inr [OF r2] keepsD [OF keeps_exchange assms]
    by (auto simp: internal_step_def)
qed

section \<open>Sequences of operations\<close>

datatype session_call =
    CStart | CLoad bytes int bool | CFinalize | CExport int int | CInvoke worker_tool_call | CCancel

definition step_of :: "('s, 'e, 'a) act \<Rightarrow> 's \<Rightarrow> 's" where
  "step_of m s = fst (m s)"

fun session_run :: "'w transport \<Rightarrow> text_env \<Rightarrow> bool \<Rightarrow> session_call \<Rightarrow> 'w session \<Rightarrow> 'w session" where
  "session_run tp te busy CStart s = step_of (session_start tp busy) s"
| "session_run tp te busy (CLoad d i f) s = step_of (load_chunk tp busy d i f) s"
| "session_run tp te busy CFinalize s = step_of (session_finalize tp busy) s"
| "session_run tp te busy (CExport i n) s = step_of (export_chunk tp busy i n) s"
| "session_run tp te busy (CInvoke c) s = step_of (session_invoke tp te busy c) s"
| "session_run tp te busy CCancel s = fst (session_cancel tp s)"

fun phase_rank :: "phase \<Rightarrow> nat" where
  "phase_rank PNew = 0" | "phase_rank PLoading = 1" | "phase_rank PReady = 2" | "phase_rank PExporting = 3"
| "phase_rank PDone = 4"

text \<open>What a whole operation may do to the session.\<close>

definition session_advances :: "'w session \<Rightarrow> 'w session \<Rightarrow> bool" where
  "session_advances s s' \<longleftrightarrow> same_config s s' \<and> phase_rank (se_phase s) \<le> phase_rank (se_phase s') \<and>
     se_next_id s \<le> se_next_id s' \<and> (se_closed s \<longrightarrow> se_closed s' \<and> se_phase s' = se_phase s) \<and>
     se_load_offset s \<le> se_load_offset s' \<and> se_export_offset s \<le> se_export_offset s' \<and>
     (se_load_offset s' \<noteq> se_load_offset s \<longrightarrow> se_phase s = PLoading \<and> se_load_offset s' \<le> se_max_transfer s) \<and>
     (se_export_offset s' \<noteq> se_export_offset s \<longrightarrow> se_phase s = PExporting \<and> se_export_offset s' \<le> se_max_transfer s)"

lemma internal_advances: "internal_step s s' \<Longrightarrow> session_advances s s'"
  by (auto simp: internal_step_def session_advances_def)

lemma advances_refl [simp]: "session_advances s s"
  by (auto simp: session_advances_def same_config_def)

text \<open>An operation that goes on after an exchange.\<close>

lemma exchange_then:
  assumes "abind (session_exchange tp busy p op payload) f s = (s', r)"
  obtains (failed) e where "r = Inl e" and "internal_step s s'" and "busy \<and> s' = s \<or> \<not> busy \<and> se_closed s'"
      and "is_session_error e"
    | (answered) s1 x where "internal_step s s1" and "\<not> busy" and "\<not> se_closed s1" and "\<not> se_closed s" and "se_phase s = p"
      and "se_phase s1 = p" and "se_next_id s < se_next_id s1" and "f x s1 = (s', r)"
proof -
  obtain s1 q where q: "session_exchange tp busy p op payload s = (s1, q)"
    by (cases "session_exchange tp busy p op payload s")
  show thesis
  proof (cases q)
    case (Inl e)
    with assms q have "s' = s1" "r = Inl e" by (simp_all add: abind_def)
    with q Inl exchange_Inl [of tp busy p op payload s s1 e] keepsD [OF keeps_exchange q] show thesis
      by (intro failed [of e]) auto
  next
    case (Inr x)
    with assms q have "f x s1 = (s', r)" by (simp add: abind_def)
    with exchange_Inr [OF q [unfolded Inr]] show thesis by (intro answered [of s1 x]) auto
  qed
qed

text \<open>An error leaves the session closed, or nothing has been done at all.\<close>

definition fails_closed :: "'w session \<Rightarrow> 'w session \<Rightarrow> (session_exn + 'a) \<Rightarrow> bool" where
  "fails_closed s s' r \<longleftrightarrow> (case r of Inl e \<Rightarrow> se_closed s' \<or> s' = s | Inr _ \<Rightarrow> True)"

lemma fails_closed_simps [simp]:
  "fails_closed s s' (Inr x)" "fails_closed s s r" "se_closed s' \<Longrightarrow> fails_closed s s' r"
  by (simp_all add: fails_closed_def split: sum.split)

lemma abort_advances:
  "session_abort tp e s1 = (s', r) \<Longrightarrow> internal_step s s1 \<Longrightarrow> session_advances s s' \<and> fails_closed s s' r"
  using abort_step [of tp e s1 s' r] internal_transp transpD internal_advances by (metis fails_closed_simps(3))

lemma load_chunk_step:
  assumes "load_chunk tp busy d i f s = (s', r)"
  shows "session_advances s s' \<and> fails_closed s s' r \<and> (r = Inr x \<longrightarrow> se_load_offset s' = se_load_offset s + length d)"
proof -
  let ?ex = "session_exchange tp busy PLoading (u ''load_chunk'')
    [(u ''offset'', JInt i), (u ''data'', JStr (b64_encode d)), (u ''final'', JBool f)]"
  let ?k = "\<lambda>result. if result \<noteq> [] then session_abort tp (SessionError (u ''invalid load acknowledgement''))
     else writes (\<lambda>s. let s1 = s\<lparr>se_load_offset := se_load_offset s + length d\<rparr> in
                      if f then s1\<lparr>se_phase := PReady\<rparr> else s1)"
  consider "s' = s" "\<exists>e. r = Inl e" | "abind ?ex ?k s = (s', r)" "i = int (se_load_offset s)"
      "i + int (length d) \<le> int (se_max_transfer s)"
    using assms by (auto simp: load_chunk_def split: if_splits)
  then show ?thesis
  proof cases
    case 2
    from 2(1) show ?thesis
    proof (cases rule: exchange_then)
      case (failed e)
      then show ?thesis by (auto simp: internal_advances)
    next
      case (answered s1 y)
      show ?thesis
      proof (cases "y = []")
        case False
        with answered have a: "session_abort tp (SessionError (u ''invalid load acknowledgement'')) s1 = (s', r)" by simp
        from abort_advances [OF a answered(1)] abort_step [OF a] show ?thesis by auto
      next
        case True
        with answered 2(2,3) show ?thesis
          by (auto simp: session_advances_def internal_step_def same_config_def Let_def split: if_splits)
      qed
    qed
  qed auto
qed

lemma finalize_step:
  assumes "session_finalize tp busy s = (s', r)"
  shows "session_advances s s' \<and> fails_closed s s' r"
  using assms [unfolded session_finalize_def]
proof (cases rule: exchange_then)
  case (failed e)
  then show ?thesis by (auto simp: internal_advances)
next
  case (answered s1 y)
  show ?thesis
  proof (cases "y = []")
    case False
    with answered abort_advances show ?thesis by fastforce
  next
    case True
    with answered show ?thesis by (auto simp: session_advances_def internal_step_def same_config_def)
  qed
qed

lemma take_export_cases:
  assumes "take_export tp n result s1 = (s', r)"
  obtains (aborted) e where "session_abort tp e s1 = (s', r)"
    | (taken) chunk eof where "int (length chunk) \<le> n" and "r = Inr (chunk, eof)" and "chunk \<noteq> [] \<or> eof"
        and "s' = (let s2 = s1\<lparr>se_export_offset := se_export_offset s1 + length chunk\<rparr> in if eof then s2\<lparr>se_phase := PDone\<rparr> else s2)"
proof (cases "\<exists>enc eof chunk. map_of result (u ''data'') = Some (JStr enc) \<and> map_of result (u ''eof'') = Some (JBool eof) \<and>
    fst ` set result = {u ''data'', u ''eof''} \<and> b64_decode enc = Some chunk \<and> \<not> (n < int (length chunk) \<or> chunk = [] \<and> \<not> eof)")
  case True
  then obtain enc eof chunk where c: "map_of result (u ''data'') = Some (JStr enc)" "map_of result (u ''eof'') = Some (JBool eof)"
    "fst ` set result = {u ''data'', u ''eof''}" "b64_decode enc = Some chunk" "\<not> (n < int (length chunk) \<or> chunk = [] \<and> \<not> eof)"
    by blast
  with assms show thesis by (intro taken [of chunk eof]) (simp_all add: take_export_def)
next
  case False
  then have "\<exists>e. take_export tp n result = session_abort tp e"
    by (auto simp: take_export_def split: option.splits json.splits)
  with assms aborted show thesis by metis
qed

lemma export_step:
  assumes "export_chunk tp busy i n s = (s', r)"
  shows "session_advances s s' \<and> fails_closed s s' r \<and>
    (\<forall>chunk eof. r = Inr (chunk, eof) \<longrightarrow> int (length chunk) \<le> n \<and> se_export_offset s' = se_export_offset s + length chunk \<and>
       (chunk \<noteq> [] \<or> eof))"
proof -
  let ?g = "i = int (se_export_offset s) \<and> 1 \<le> n \<and> n \<le> int (se_max_chunk s) \<and> i + n \<le> int (se_max_transfer s)"
  show ?thesis
  proof (cases ?g)
    case False
    with assms show ?thesis by (auto simp: export_chunk_def)
  next
    case True
    with assms [unfolded export_chunk_def] have "abind (session_exchange tp busy PExporting (u ''export_chunk'')
              [(u ''offset'', JInt i), (u ''limit_bytes'', JInt n)]) (take_export tp n) s = (s', r)"
      by simp
    then show ?thesis
    proof (cases rule: exchange_then)
      case (failed e)
      then show ?thesis by (auto simp: internal_advances)
    next
      case (answered s1 y)
      from answered(8) show ?thesis
      proof (cases rule: take_export_cases)
        case (aborted e)
        then show ?thesis using abort_advances [OF aborted answered(1)] abort_step [OF aborted] by auto
      next
        case (taken chunk eof)
        with answered(1-7) True show ?thesis
          by (auto simp: session_advances_def internal_step_def same_config_def Let_def split: if_splits)
      qed
    qed
  qed
qed

lemma take_tool_result_step:
  assumes "take_tool_result tp te n name result s1 = (s', r)"
  obtains (aborted) e where "session_abort tp e s1 = (s', r)"
    | (unencodable) out where "map_of result (u ''output'') = Some (JStr out)" and "utf8_encode out = None"
        and "s' = s1" and "r = Inl (OtherError (te_encode_error te out))"
    | (taken) v raw where "r = Inr v" and "s' = s1" and "tr_tool_name v = name" and "utf8_encode (tr_output v) = Some raw"
        and "length raw \<le> n"
proof (cases "\<exists>out is_error. map_of result (u ''output'') = Some (JStr out) \<and>
    map_of result (u ''is_error'') = Some (JBool is_error) \<and> fst ` set result = {u ''output'', u ''is_error''}")
  case True
  then obtain out is_error where c: "map_of result (u ''output'') = Some (JStr out)"
    "map_of result (u ''is_error'') = Some (JBool is_error)" "fst ` set result = {u ''output'', u ''is_error''}" by blast
  show thesis
  proof (cases "utf8_encode out")
    case None
    with c assms show thesis by (intro unencodable [of out]) (simp_all add: take_tool_result_def)
  next
    case (Some raw)
    show thesis
    proof (cases "n < length raw")
      case True
      with c assms Some show thesis by (intro aborted) (simp add: take_tool_result_def)
    next
      case False
      with c assms Some show thesis
        by (intro taken [of "\<lparr>tr_tool_name = name, tr_output = out, tr_is_error = is_error\<rparr>" raw])
          (simp_all add: take_tool_result_def)
    qed
  qed
next
  case False
  then have "\<exists>e. take_tool_result tp te n name result = session_abort tp e"
    by (auto simp: take_tool_result_def split: option.splits json.splits)
  with assms aborted show thesis by metis
qed

text \<open>A guest text that cannot be encoded is the one error that leaves the session open.\<close>

lemma invoke_step:
  assumes "session_invoke tp te busy call s = (s', r)"
  shows "session_advances s s' \<and> internal_step s s' \<and>
    (fails_closed s s' r \<or> (\<exists>out. utf8_encode out = None \<and> r = Inl (OtherError (te_encode_error te out)))) \<and>
    (s' \<noteq> s \<longrightarrow> validate_call te s (with_timeout s call) = Inr ()) \<and>
    (\<forall>v. r = Inr v \<longrightarrow> tr_tool_name v = tcl_name call)"
proof -
  have name: "tcl_name (with_timeout s call) = tcl_name call" by (simp add: with_timeout_def)
  show ?thesis
  proof (cases "validate_call te s (with_timeout s call)")
    case (Inl x)
    with assms name show ?thesis
      by (cases x) (auto simp: session_invoke_def Let_def internal_reflp [THEN reflpD])
  next
    case (Inr _)
    let ?c = "with_timeout s call"
    from Inr assms have "abind (session_exchange tp busy PReady (u ''tool'')
        [(u ''name'', JStr (tcl_name ?c)), (u ''arguments'', JObj (tcl_arguments ?c))])
        (take_tool_result tp te (se_max_frame s div 2) (tcl_name ?c)) s = (s', r)"
      by (simp add: session_invoke_def Let_def)
    then show ?thesis
    proof (cases rule: exchange_then)
      case (failed e)
      with Inr show ?thesis by (auto simp: internal_advances)
    next
      case (answered s1 y)
      from answered(8) show ?thesis
      proof (cases rule: take_tool_result_step)
        case (aborted e)
        have "internal_step s s'" using abort_step [OF aborted] answered(1) internal_transp transpD by metis
        with abort_step [OF aborted] Inr show ?thesis by (auto simp: internal_advances)
      next
        case (unencodable out)
        with answered Inr show ?thesis by (auto simp: internal_advances)
      next
        case (taken v raw)
        with answered Inr name show ?thesis by (auto simp: internal_advances)
      qed
    qed
  qed
qed

lemma keeps_handshake [inv_intros]: "keeps internal_step (handshake tp)"
  unfolding handshake_def by (intro keeps_abind internal_transp keeps_case_prod inv_intros internal_reflp)

lemma start_step:
  assumes "session_start tp busy s = (s', r)"
  shows "session_advances s s' \<and> fails_closed s s' r"
proof (cases busy)
  case True
  with assms show ?thesis by (auto simp: session_start_def)
next
  case False
  with assms have run: "or_abort tp (abind (handshake tp) (\<lambda>_. writes (\<lambda>s. s\<lparr>se_phase := PLoading\<rparr>))) s = (s', r)"
    by (simp add: session_start_def)
  obtain s1 q where q: "handshake tp s = (s1, q)" by (cases "handshake tp s")
  have i: "internal_step s s1" using keepsD [OF keeps_handshake q] .
  show ?thesis
  proof (cases q)
    case (Inl e)
    with run q have "session_abort tp e s1 = (s', r)" by (simp add: or_abort_def abind_def)
    from abort_advances [OF this i] show ?thesis .
  next
    case (Inr x)
    then have "se_phase s = PNew \<and> \<not> se_closed s"
      using q by (auto simp: handshake_def abind_Inr_iff dest: require_phase_Inr)
    moreover from run q Inr have "s' = s1\<lparr>se_phase := PLoading\<rparr>" "r = Inr ()" by (auto simp: or_abort_def abind_def)
    ultimately show ?thesis using i by (auto simp: session_advances_def internal_step_def same_config_def)
  qed
qed

lemma session_run_advances: "session_advances s (session_run tp te busy c s)"
proof (cases c)
  case CStart
  then show ?thesis using start_step [of tp busy s] by (cases "session_start tp busy s") (auto simp: step_of_def)
next
  case (CLoad d i f)
  then show ?thesis using load_chunk_step [of tp busy d i f s] by (cases "load_chunk tp busy d i f s") (auto simp: step_of_def)
next
  case CFinalize
  then show ?thesis using finalize_step [of tp busy s] by (cases "session_finalize tp busy s") (auto simp: step_of_def)
next
  case (CExport i n)
  then show ?thesis using export_step [of tp busy i n s] by (cases "export_chunk tp busy i n s") (auto simp: step_of_def)
next
  case (CInvoke call)
  then show ?thesis using invoke_step [of tp te busy call s] by (cases "session_invoke tp te busy call s") (auto simp: step_of_def)
next
  case CCancel
  then show ?thesis using cancel_step [of s tp] by (simp add: internal_advances)
qed

text \<open>A closed session: every exchange fails before it touches anything.\<close>

lemma exchange_closed: "se_closed s \<Longrightarrow> \<exists>e. session_exchange tp busy p op payload s = (s, Inl e) \<and> is_session_error e"
  by (cases busy)
    (auto simp: session_exchange_def in_progress_def or_abort_def require_phase_def session_abort_def session_cancel_def)

lemma exchange_closed_bind: "se_closed s \<Longrightarrow> \<exists>e. abind (session_exchange tp busy p op payload) f s = (s, Inl e)"
  using exchange_closed [of s tp busy p op payload] by (auto simp: abind_def)

lemma closed_ops:
  assumes "se_closed s"
  shows "\<exists>e. session_start tp busy s = (s, Inl e)" "\<exists>e. load_chunk tp busy d i f s = (s, Inl e)"
    "\<exists>e. session_finalize tp busy s = (s, Inl e)" "\<exists>e. export_chunk tp busy i n s = (s, Inl e)"
    "\<exists>r. session_invoke tp te busy call s = (s, r) \<and> (\<forall>v. r = Inr v \<longrightarrow> tr_is_error v)"
proof -
  show "\<exists>e. session_start tp busy s = (s, Inl e)"
    using assms by (cases busy)
      (auto simp: session_start_def in_progress_def or_abort_def handshake_def require_phase_def session_abort_def session_cancel_def)
  show "\<exists>e. load_chunk tp busy d i f s = (s, Inl e)"
    using exchange_closed_bind [OF assms] unfolding load_chunk_def by auto
  show "\<exists>e. session_finalize tp busy s = (s, Inl e)"
    using exchange_closed_bind [OF assms] unfolding session_finalize_def by blast
  show "\<exists>e. export_chunk tp busy i n s = (s, Inl e)"
    using exchange_closed_bind [OF assms] unfolding export_chunk_def by auto
  show "\<exists>r. session_invoke tp te busy call s = (s, r) \<and> (\<forall>v. r = Inr v \<longrightarrow> tr_is_error v)"
  proof (cases "validate_call te s (with_timeout s call)")
    case (Inl x)
    then show ?thesis by (cases x) (auto simp: session_invoke_def Let_def)
  next
    case (Inr y)
    then show ?thesis
      using exchange_closed_bind [OF assms, of tp busy PReady "u ''tool''"
          "[(u ''name'', JStr (tcl_name (with_timeout s call))), (u ''arguments'', JObj (tcl_arguments (with_timeout s call)))]"
          "take_tool_result tp te (se_max_frame s div 2) (tcl_name (with_timeout s call))"]
      by (auto simp: session_invoke_def Let_def)
  qed
qed

lemma session_run_closed: "se_closed s \<Longrightarrow> session_run tp te busy c s = s"
proof (cases c)
  case (CLoad d i f)
  then show "se_closed s \<Longrightarrow> ?thesis" using closed_ops(2) [of s tp busy d i f] by (auto simp: step_of_def)
next
  case (CExport i n)
  then show "se_closed s \<Longrightarrow> ?thesis" using closed_ops(4) [of s tp busy i n] by (auto simp: step_of_def)
next
  case (CInvoke call)
  then show "se_closed s \<Longrightarrow> ?thesis" using closed_ops(5) [of s tp te busy call] by (auto simp: step_of_def)
next
  case CStart
  then show "se_closed s \<Longrightarrow> ?thesis" using closed_ops(1) [of s tp busy] by (auto simp: step_of_def)
next
  case CFinalize
  then show "se_closed s \<Longrightarrow> ?thesis" using closed_ops(3) [of s tp busy] by (auto simp: step_of_def)
qed (simp add: session_cancel_def)

fun session_runs :: "'w transport \<Rightarrow> text_env \<Rightarrow> (bool \<times> session_call) list \<Rightarrow> 'w session \<Rightarrow> 'w session" where
  "session_runs tp te [] s = s"
| "session_runs tp te ((busy, c) # cs) s = session_runs tp te cs (session_run tp te busy c s)"

definition session_later :: "'w session \<Rightarrow> 'w session \<Rightarrow> bool" where
  "session_later s s' \<longleftrightarrow> same_config s s' \<and> phase_rank (se_phase s) \<le> phase_rank (se_phase s') \<and>
     se_next_id s \<le> se_next_id s' \<and> (se_closed s \<longrightarrow> s' = s) \<and>
     se_load_offset s \<le> se_load_offset s' \<and> se_export_offset s \<le> se_export_offset s' \<and>
     (se_load_offset s \<le> se_max_transfer s \<longrightarrow> se_load_offset s' \<le> se_max_transfer s') \<and>
     (se_export_offset s \<le> se_max_transfer s \<longrightarrow> se_export_offset s' \<le> se_max_transfer s') \<and>
     (2 \<le> phase_rank (se_phase s) \<longrightarrow> se_load_offset s' = se_load_offset s) \<and>
     (phase_rank (se_phase s') \<le> 2 \<longrightarrow> se_export_offset s' = se_export_offset s)"

lemma session_run_later: "session_later s (session_run tp te busy c s)"
proof (cases "se_closed s")
  case True
  then show ?thesis by (simp add: session_run_closed session_later_def same_config_def)
next
  case False
  with session_run_advances [of s tp te busy c] show ?thesis
    by (auto simp: session_advances_def session_later_def same_config_def)
qed

lemma session_later_trans:
  assumes "session_later s1 s2" and "session_later s2 s3"
  shows "session_later s1 s3"
proof -
  note a = assms(1) [unfolded session_later_def] and b = assms(2) [unfolded session_later_def]
  have "same_config s1 s3" using a b unfolding same_config_def by simp
  moreover have "se_max_transfer s2 = se_max_transfer s1" using a by (simp add: same_config_def)
  moreover have "se_closed s1 \<longrightarrow> s3 = s1" using a b by blast
  moreover have "2 \<le> phase_rank (se_phase s1) \<longrightarrow> se_load_offset s3 = se_load_offset s1" using a b by linarith
  moreover have "phase_rank (se_phase s3) \<le> 2 \<longrightarrow> se_export_offset s3 = se_export_offset s1" using a b by linarith
  moreover have "se_load_offset s1 \<le> se_max_transfer s1 \<longrightarrow> se_load_offset s3 \<le> se_max_transfer s3"
    "se_export_offset s1 \<le> se_max_transfer s1 \<longrightarrow> se_export_offset s3 \<le> se_max_transfer s3" using a b by blast+
  moreover have "phase_rank (se_phase s1) \<le> phase_rank (se_phase s3)" "se_next_id s1 \<le> se_next_id s3"
    "se_load_offset s1 \<le> se_load_offset s3" "se_export_offset s1 \<le> se_export_offset s3" using a b by linarith+
  ultimately show ?thesis unfolding session_later_def by blast
qed

section \<open>Validated calls\<close>

lemma rbind_refuse [simp]: "rbind (refuse b t) f = Inr x \<longleftrightarrow> \<not> b \<and> f () = Inr x"
  by (simp add: refuse_def)

lemma refuse_Inr [simp]: "refuse b t = Inr x \<longleftrightarrow> \<not> b"
  by (simp add: refuse_def)

lemma lift_text_Inr [simp]: "lift_text r = Inr x \<longleftrightarrow> r = Inr x"
  by (simp add: lift_text_def split: sum.split)

lemma lift_policy_Inr [simp]: "lift_policy te r = Inr x \<longleftrightarrow> r = Inr x"
  by (simp add: lift_policy_def split: sum.split)

text \<open>A portable path below the workspace root, outside any \<open>.git\<close> directory.\<close>

definition confined_path :: "pystr \<Rightarrow> bool" where
  "confined_path p \<longleftrightarrow> inside_workspace p \<and> length (split_on 47 p) \<le> 8 \<and>
     (\<forall>w \<in> set (split_on 47 p). w \<noteq> [] \<and> lower w \<noteq> u ''.git'' \<and> w \<noteq> u ''..'' \<and>
        (\<forall>c \<in> set w. is_alnum c \<or> c \<in> set (u ''._-'')))"

lemma repo_path_confined:
  assumes "repo_path_check (JStr p) root = Inr ()" and "\<not> (root \<and> p = u ''.'')"
  shows "confined_path p"
proof -
  from assms have h: "p \<noteq> []" "\<not> starts_with p (u ''/'')" "length (split_on 47 p) \<le> 8"
      "\<And>w. w \<in> set (split_on 47 p) \<Longrightarrow> \<not> part_refused w"
    by (auto simp: repo_path_check_def list_ex_iff split: if_splits)
  have w: "w \<noteq> [] \<and> lower w \<noteq> u ''.git'' \<and> w \<noteq> u ''..'' \<and> (\<forall>c \<in> set w. is_alnum c \<or> c \<in> set (u ''._-''))"
    if "w \<in> set (split_on 47 p)" for w
    using h(4) [OF that] by (auto simp: part_refused_def repo_part_def list_all_iff u_def ends_with_def)
  then have dd: "u ''..'' \<notin> set (split_on 47 p)" by blast
  have "0 \<notin> set p"
  proof
    assume "0 \<in> set p"
    moreover have "set p \<subseteq> insert 47 (\<Union> (set ` set (split_on 47 p)))"
    proof -
      have "set (join [47] ws) \<subseteq> insert 47 (\<Union> (set ` set ws))" for ws
        by (induction "[47 :: nat]" ws rule: join.induct) auto
      then show ?thesis using join_split_on [of 47 p] by metis
    qed
    ultimately obtain v where "v \<in> set (split_on 47 p)" "0 \<in> set v" by auto
    with w show False by (force simp: is_alnum_def is_digit_def is_lower_letter_def is_upper_letter_def u_def)
  qed
  with h walk_no_dotdot [OF dd] w show ?thesis
    by (auto simp: confined_path_def inside_workspace_def posix_absolute_def)
qed

text \<open>What may reach the guest.\<close>

definition safe_call :: "'w session \<Rightarrow> worker_tool_call \<Rightarrow> bool" where
  "safe_call s c \<longleftrightarrow> tcl_name c \<in> ts_name ` set (se_tools s) \<and>
     (tcl_name c \<in> {READ_FILE_TOOL, APPLY_PATCH_TOOL} \<longrightarrow>
        (\<exists>p. map_of (tcl_arguments c) (u ''path'') = Some (JStr p) \<and> confined_path p)) \<and>
     (tcl_name c = LIST_FILES_TOOL \<longrightarrow>
        (\<forall>v. map_of (tcl_arguments c) (u ''path'') = Some v \<longrightarrow> (\<exists>p. v = JStr p \<and> (p = u ''.'' \<or> confined_path p)))) \<and>
     (tcl_name c = RUN_COMMAND_TOOL \<longrightarrow>
        (\<exists>uni argv t m a. map_of (tcl_arguments c) (u ''argv'') = Some (JArr (map JStr argv)) \<and>
           approve_worker_command uni (se_profile s) argv t m = Inr a \<and> t \<le> se_max_command s \<and> m \<le> 16384))"

lemma str_items_Some: "str_items v = Some ss \<longleftrightarrow> v = JArr (map JStr ss)"
proof (cases v)
  case (JArr xs)
  have "list_all is_JStr xs \<Longrightarrow> map JStr (map (\<lambda>x. case x of JStr t \<Rightarrow> t | _ \<Rightarrow> []) xs) = xs"
    by (induction xs) (auto split: json.splits)
  moreover have "map (\<lambda>x. case x of JStr t \<Rightarrow> t | _ \<Rightarrow> []) (map JStr ss) = ss" by (induction ss) auto
  moreover have "list_all is_JStr (map JStr ss)" by (induction ss) auto
  ultimately show ?thesis using JArr by (auto simp: str_items_def)
qed (simp_all add: str_items_def)

lemma repo_path_str: "repo_path_check v root = Inr () \<Longrightarrow> \<exists>p. v = JStr p"
  by (cases v) (auto simp: repo_path_check_def split: if_splits)

lemma check_command_safe:
  "check_command te s args = Inr () \<Longrightarrow>
     \<exists>argv t m a. map_of args (u ''argv'') = Some (JArr (map JStr argv)) \<and>
       approve_worker_command (te_printable te) (se_profile s) argv t m = Inr a \<and> t \<le> se_max_command s \<and> m \<le> 16384"
  by (auto simp: check_command_def field_or_def str_items_Some rbind_Inr_iff not_less
      split: option.splits json.splits)

lemma validate_call_safe:
  assumes "validate_call te s c = Inr ()"
  shows "safe_call s c"
proof -
  from assms have n: "tcl_name c \<in> ts_name ` set (se_tools s)" and a: "check_arguments te s c = Inr ()"
    by (auto simp: validate_call_def rbind_Inr_iff)
  have path: "\<exists>p. map_of (tcl_arguments c) (u ''path'') = Some (JStr p) \<and> confined_path p"
    if pc: "repo_path_check (the (map_of (tcl_arguments c) (u ''path''))) False = Inr ()" and pk: "u ''path'' \<in> fst ` set (tcl_arguments c)"
  proof -
    obtain v where v: "map_of (tcl_arguments c) (u ''path'') = Some v" using pk by (metis map_of_eq_None_iff not_None_eq)
    with pc repo_path_str [of v False] repo_path_confined [of _ False] show ?thesis by auto
  qed
  have "tcl_name c = LIST_FILES_TOOL \<longrightarrow>
      (\<forall>v. map_of (tcl_arguments c) (u ''path'') = Some v \<longrightarrow> (\<exists>p. v = JStr p \<and> (p = u ''.'' \<or> confined_path p)))"
    using a repo_path_str [of _ True] repo_path_confined [of _ True]
    by (fastforce simp: check_arguments_def Let_def tool_name_defs field_or_def)
  moreover have "tcl_name c \<in> {READ_FILE_TOOL, APPLY_PATCH_TOOL} \<longrightarrow>
      (\<exists>p. map_of (tcl_arguments c) (u ''path'') = Some (JStr p) \<and> confined_path p)"
    using a path by (auto simp: check_arguments_def check_patch_def Let_def tool_name_defs rbind_Inr_iff split: if_splits)
  moreover have "tcl_name c = RUN_COMMAND_TOOL \<longrightarrow>
        (\<exists>uni argv t m a. map_of (tcl_arguments c) (u ''argv'') = Some (JArr (map JStr argv)) \<and>
           approve_worker_command uni (se_profile s) argv t m = Inr a \<and> t \<le> se_max_command s \<and> m \<le> 16384)"
    using a check_command_safe by (fastforce simp: check_arguments_def Let_def)
  ultimately show ?thesis using n unfolding safe_call_def by blast
qed

section \<open>Properties\<close>

text \<open>A concrete session and a guest that answers every request with the same reply.\<close>

definition demo_spec :: worker_tool_spec where
  "demo_spec = \<lparr>ts_name = u ''read_file'', ts_description = [], ts_input_schema = []\<rparr>"

definition demo_session :: "phase \<Rightarrow> bool \<Rightarrow> unit session" where
  "demo_session p c = \<lparr>se_job_id = u ''j'', se_sandbox_id = u ''b'', se_session_id = u ''n'', se_profile = u ''read-only-worker'',
     se_tools = [demo_spec], se_deadline = 100, se_timeout = 10, se_max_command = 300, se_max_frame = 4096,
     se_max_chunk = 1024, se_max_transfer = 2048, se_next_id = 1, se_load_offset = 0, se_export_offset = 0,
     se_phase = p, se_closed = c, se_world = ()\<rparr>"

definition demo_reply :: bytes where
  "demo_reply = (case session_encode [(u ''type'', JStr (u ''response'')), (u ''job_id'', JStr (u ''j'')),
       (u ''sandbox_id'', JStr (u ''b'')), (u ''session_id'', JStr (u ''n'')), (u ''request_id'', JInt 1),
       (u ''ok'', JBool True), (u ''payload'', JObj [(u ''output'', JStr (u ''text'')), (u ''is_error'', JBool False)])] 4096 of
     Inl e \<Rightarrow> [] | Inr raw \<Rightarrow> raw)"

definition demo_guest :: "unit transport" where
  "demo_guest = \<lparr>tp_send = (\<lambda>f t w. (w, False, Inr ())), tp_receive = (\<lambda>n t w. (w, False, Inr (Some demo_reply))),
     tp_close = (\<lambda>w. (w, Inr ())), tp_monotonic = (\<lambda>w. (w, 5))\<rparr>"

definition demo_texts :: text_env where
  "demo_texts = \<lparr>te_printable = (\<lambda>_. False), te_encode_error = (\<lambda>s. u ''surrogates not allowed'')\<rparr>"

definition demo_call :: "pystr \<Rightarrow> worker_tool_call" where
  "demo_call p = \<lparr>tcl_name = u ''read_file'', tcl_arguments = [(u ''path'', JStr p)]\<rparr>"



text \<open>
  Once a session is closed, by a cancellation or after an error, every later operation leaves
  it as it is, touches the transport no more and returns no success.
\<close>

theorem closed_session_is_inert:
  assumes "se_closed s"
  shows "session_runs tp te calls s = s \<and> isl (snd (session_start tp busy s)) \<and> isl (snd (load_chunk tp busy d i f s)) \<and>
    isl (snd (session_finalize tp busy s)) \<and> isl (snd (export_chunk tp busy i n s)) \<and>
    (\<forall>v. snd (session_invoke tp te busy call s) = Inr v \<longrightarrow> tr_is_error v)"
proof -
  have "session_runs tp te calls s = s"
    by (induction calls) (auto simp: session_run_closed assms)
  then show ?thesis
    using closed_ops(1) [OF assms, of tp busy] closed_ops(2) [OF assms, of tp busy d i f] closed_ops(3) [OF assms, of tp busy]
      closed_ops(4) [OF assms, of tp busy i n] closed_ops(5) [OF assms, of tp te busy call] by auto
qed

theorem closed_session_is_inert_witness:
  "session_runs demo_guest demo_texts [(False, CFinalize), (False, CCancel)] (demo_session PReady True) = demo_session PReady True \<and>
   isl (snd (session_finalize demo_guest False (demo_session PReady True)))"
proof -
  have "se_closed (demo_session PReady True)" by (simp add: demo_session_def)
  from closed_session_is_inert [OF this, of demo_guest demo_texts "[(False, CFinalize), (False, CCancel)]" False]
  show ?thesis by blast
qed

text \<open>
  C34: an operation that fails has either done nothing or closed the session, so it is never
  replayed; the one exception is a tool answer whose text is not encodable.
\<close>

theorem failed_operation_closes:
  assumes "c = fst (load_chunk tp busy d i f s) \<and> isl (snd (load_chunk tp busy d i f s)) \<or>
      c = fst (session_finalize tp busy s) \<and> isl (snd (session_finalize tp busy s)) \<or>
      c = fst (export_chunk tp busy i n s) \<and> isl (snd (export_chunk tp busy i n s)) \<or>
      c = fst (session_start tp busy s) \<and> isl (snd (session_start tp busy s)) \<or>
      c = fst (session_invoke tp te busy call s) \<and>
        (\<exists>e. snd (session_invoke tp te busy call s) = Inl e \<and> (\<forall>t. e = OtherError (te_encode_error te t) \<longrightarrow> utf8_encode t \<noteq> None))"
  shows "se_closed c \<or> c = s"
proof -
  have fc: "fails_closed s s' r \<Longrightarrow> isl r \<Longrightarrow> se_closed s' \<or> s' = s" for s s' :: "'a session" and r :: "session_exn + 'b"
    by (auto simp: fails_closed_def isl_def)
  from assms show ?thesis
  proof (elim disjE conjE exE)
    assume "c = fst (load_chunk tp busy d i f s)" "isl (snd (load_chunk tp busy d i f s))"
    then show ?thesis using load_chunk_step [of tp busy d i f s c] fc by (metis prod.collapse)
  next
    assume "c = fst (session_finalize tp busy s)" "isl (snd (session_finalize tp busy s))"
    then show ?thesis using finalize_step [of tp busy s c] fc by (metis prod.collapse)
  next
    assume "c = fst (export_chunk tp busy i n s)" "isl (snd (export_chunk tp busy i n s))"
    then show ?thesis using export_step [of tp busy i n s c] fc by (metis prod.collapse)
  next
    assume "c = fst (session_start tp busy s)" "isl (snd (session_start tp busy s))"
    then show ?thesis using start_step [of tp busy s c] fc by (metis prod.collapse)
  next
    fix e assume c: "c = fst (session_invoke tp te busy call s)" and e: "snd (session_invoke tp te busy call s) = Inl e"
      and ne: "\<forall>t. e = OtherError (te_encode_error te t) \<longrightarrow> utf8_encode t \<noteq> None"
    then have "session_invoke tp te busy call s = (c, Inl e)" by (metis prod.collapse)
    from invoke_step [OF this] ne show ?thesis by (auto simp: fails_closed_def)
  qed
qed

theorem failed_operation_closes_witness:
  "\<exists>c. c = fst (session_finalize demo_guest False (demo_session PReady False)) \<and> se_closed c"
proof -
  let ?s = "demo_session PReady False" and ?c = "fst (session_finalize demo_guest False (demo_session PReady False))"
  have f: "isl (snd (session_finalize demo_guest False ?s)) \<and> se_next_id ?c = 2" by code_simp
  then have "?c \<noteq> ?s" by (auto simp: demo_session_def)
  moreover have "se_closed ?c \<or> ?c = ?s"
    by (rule failed_operation_closes [where tp = demo_guest and busy = False and te = demo_texts and d = "[]" and i = 0
          and f = True and n = 1 and call = "demo_call []"]) (use f in blast)
  ultimately show ?thesis by blast
qed

text \<open>
  Over any sequence of operations the session's identity and limits are fixed, its phase only
  moves forward (new, loading, ready, exporting, done), request identifiers only grow, both
  transfer offsets stay within the transfer limit, nothing is loaded after the session became
  ready and nothing exported before it was finalized.
\<close>

theorem session_lifecycle:
  shows "session_later s (session_runs tp te calls s)"
proof (induction calls arbitrary: s)
  case Nil
  then show ?case by (simp add: session_later_def same_config_def)
next
  case (Cons x calls)
  obtain busy c where "x = (busy, c)" by (cases x)
  with Cons session_run_later show ?case using session_later_trans by fastforce
qed

lemma require_phase_world: "require_phase tp p s = (s', Inr x) \<Longrightarrow> \<exists>w. s' = s\<lparr>se_world := w\<rparr>"
  by (auto simp: require_phase_def remaining_def abind_Inr_iff Let_def split: prod.splits if_splits)

lemma reply_object_Inr:
  "reply_object s e ks (Some raw) = Inr m \<Longrightarrow> length raw \<le> se_max_frame s \<and>
     (\<exists>text. utf8_decode (butlast raw) = Some text \<and> json_loads_strict text = Some (JObj m)) \<and>
     list_all (\<lambda>(k, v). map_of m k = Some v) (identity_fields s)"
  by (auto simp: reply_object_def identity_fields_def split: if_splits option.splits json.splits)

lemma reply_object_None: "reply_object s e ks None = Inl (SessionError (u ''truncated, oversized or malformed session frame''))"
  by (simp add: reply_object_def)

lemma receive_Inr:
  assumes "receive_message tp e ks d s = (s', Inr m)"
  shows "\<exists>w w' t cancelled raw. tp_receive tp (se_max_frame s) t w = (w', cancelled, Inr (Some raw)) \<and>
     length raw \<le> se_max_frame s \<and>
     (\<exists>text. utf8_decode (butlast raw) = Some text \<and> json_loads_strict text = Some (JObj m)) \<and>
     list_all (\<lambda>(k, v). map_of m k = Some v) (identity_fields s)"
proof -
  from assms obtain s1 t s2 frame s3 t2 where r1: "remaining tp (Some d) s = (s1, Inr t)"
    and tc: "transport_call (tp_receive tp (se_max_frame s1) t) s1 = (s2, Inr frame)"
    and r2: "remaining tp (Some d) s2 = (s3, Inr t2)" and ro: "reply_object s3 e ks frame = Inr m"
    by (auto simp: receive_message_def abind_Inr_iff case_throw_Inr)
  have i: "internal_step s s1" "internal_step s1 s2" "internal_step s2 s3"
    using keepsD [OF keeps_remaining r1] keepsD [OF keeps_transport tc] keepsD [OF keeps_remaining r2] by auto
  have same: "se_max_frame s1 = se_max_frame s" "se_max_frame s3 = se_max_frame s" "identity_fields s3 = identity_fields s"
    using i by (auto simp: internal_step_def same_config_def identity_fields_def)
  obtain raw where f: "frame = Some raw" using ro reply_object_None [of s3 e ks] by (cases frame) auto
  with tc obtain w' cancelled where "tp_receive tp (se_max_frame s) t (se_world s1) = (w', cancelled, Inr (Some raw))"
    using same by (auto simp: transport_call_def split: prod.splits sum.splits)
  with reply_object_Inr [OF ro [unfolded f]] same show ?thesis by metis
qed

text \<open>
  A payload is accepted only from a frame of bounded size, received from the transport
  after the request was sent, that parses as a JSON object naming this session's job, sandbox and
  nonce, the identifier of this very request, and success; no identifier is used twice.
\<close>

theorem accepted_reply_is_bound:
  assumes "session_exchange tp busy p op payload s = (s', Inr x)"
  shows "\<exists>w w' t cancelled raw text m. tp_receive tp (se_max_frame s) t w = (w', cancelled, Inr (Some raw)) \<and>
     length raw \<le> se_max_frame s \<and> utf8_decode (butlast raw) = Some text \<and> json_loads_strict text = Some (JObj m) \<and>
     list_all (\<lambda>(k, v). map_of m k = Some v) (identity_fields s) \<and>
     map_of m (u ''request_id'') = Some (JInt (int (se_next_id s))) \<and> map_of m (u ''ok'') = Some (JBool True) \<and>
     map_of m (u ''payload'') = Some (JObj x) \<and> se_next_id s < se_next_id s'"
proof -
  obtain s1 s2 m where r1: "require_phase tp p s = (s1, Inr ())"
    and rt: "round_trip tp (se_next_id s1) op payload (s1\<lparr>se_next_id := Suc (se_next_id s1)\<rparr>) = (s2, Inr m)"
    and rp: "response_payload s2 (se_next_id s1) m = Inr x"
    using exchange_Inr_steps [OF assms] by blast
  obtain w0 where s1: "s1 = s\<lparr>se_world := w0\<rparr>" using require_phase_world [OF r1] by blast
  let ?s = "s1\<lparr>se_next_id := Suc (se_next_id s1)\<rparr>"
  from rt have "\<exists>s3 now s4 d ks. clock_reading tp ?s = (s3, Inr now) \<and>
      (\<exists>msg. send_frame tp msg d s3 = (s4, Inr ())) \<and> receive_message tp (u ''response'') ks d s4 = (s2, Inr m)"
    by (simp add: round_trip_def abind_Inr_iff) blast
  then obtain s3 now s4 d ks where ck: "clock_reading tp ?s = (s3, Inr now)"
    and sd: "\<exists>msg. send_frame tp msg d s3 = (s4, Inr ())"
    and rc: "receive_message tp (u ''response'') ks d s4 = (s2, Inr m)" by blast
  have "internal_step ?s s3" using keepsD [OF keeps_clock ck] .
  moreover have "internal_step s3 s4" using sd keepsD [OF keeps_send] by blast
  ultimately have "se_max_frame s4 = se_max_frame s" "identity_fields s4 = identity_fields s"
    by (auto simp: internal_step_def same_config_def identity_fields_def s1)
  with receive_Inr [OF rc] obtain w w' t cancelled raw body where
    "tp_receive tp (se_max_frame s) t w = (w', cancelled, Inr (Some raw))" "length raw \<le> se_max_frame s"
    "utf8_decode (butlast raw) = Some body" "json_loads_strict body = Some (JObj m)"
    "list_all (\<lambda>(k, v). map_of m k = Some v) (identity_fields s)" by auto
  moreover have "map_of m (u ''request_id'') = Some (JInt (int (se_next_id s)))" "map_of m (u ''ok'') = Some (JBool True)"
    "map_of m (u ''payload'') = Some (JObj x)"
    using rp by (auto simp: response_payload_def s1 Let_def split: if_splits option.splits json.splits bool.splits)
  moreover have "se_next_id s < se_next_id s'" using exchange_Inr [OF assms] by blast
  ultimately show ?thesis by blast
qed

theorem accepted_reply_is_bound_witness:
  "\<exists>s' x m. session_exchange demo_guest False PReady (u ''tool'') [] (demo_session PReady False) = (s', Inr x) \<and>
     map_of m (u ''session_id'') = Some (JStr (u ''n'')) \<and> map_of m (u ''request_id'') = Some (JInt 1) \<and>
     map_of m (u ''payload'') = Some (JObj x)"
proof -
  let ?s = "demo_session PReady False"
  have "\<not> isl (snd (session_exchange demo_guest False PReady (u ''tool'') [] ?s))" by code_simp
  then obtain s' x where e: "session_exchange demo_guest False PReady (u ''tool'') [] ?s = (s', Inr x)"
    by (cases "session_exchange demo_guest False PReady (u ''tool'') [] ?s"; cases "snd (session_exchange demo_guest False PReady (u ''tool'') [] ?s)") auto
  from accepted_reply_is_bound [OF e] e show ?thesis by (auto simp: demo_session_def identity_fields_def)
qed

end
