(* ===== verification/FinalWorkspace.thy ===== *)
theory FinalWorkspace
  imports Snapshot ToolSession
begin

text \<open>
  \<open>night_shifts/final_workspace.py\<close> and \<open>review_retrieval.py\<close>: the canonical envelope of a final
  workspace, bound to its base snapshot, sandbox and session, and its retrieval over the tool session.
\<close>

section \<open>The envelope\<close>

record final_workspace =
  fw_base :: snapshot
  fw_sandbox_id :: pystr
  fw_session_id :: pystr
  fw_files :: "snapshot_file list"

text \<open>\<open>FinalWorkspaceError\<close> with its text, or the \<open>SnapshotError\<close> of a check that is shared.\<close>

datatype final_error = FinalError pystr | FinalSnapshot snapshot_error

definition final_check :: "bool \<Rightarrow> pystr \<Rightarrow> final_error + unit" where
  "final_check b t = require b (FinalError t)"

fun of_snapshot :: "snapshot_error + 'a \<Rightarrow> final_error + 'a" where
  "of_snapshot (Inl e) = Inl (FinalSnapshot e)"
| "of_snapshot (Inr x) = Inr x"

definition final_json :: "(bytes \<Rightarrow> nat) \<Rightarrow> final_workspace \<Rightarrow> json" where
  "final_json sha f = JObj [(u ''version'', JInt 1), (u ''kind'', JStr (u ''final-workspace'')),
     (u ''job_id'', JStr (ss_job_id (fw_base f))), (u ''sandbox_id'', JStr (fw_sandbox_id f)),
     (u ''session_id'', JStr (fw_session_id f)), (u ''repository_id'', JStr (ss_repository_id (fw_base f))),
     (u ''revision'', JStr (ss_revision (fw_base f))), (u ''image_sha256'', JStr (ss_image_sha256 (fw_base f))),
     (u ''files'', JArr (map (file_json sha) (fw_files f)))]"

definition encode_final_workspace :: "(bytes \<Rightarrow> nat) \<Rightarrow> final_workspace \<Rightarrow> final_error + bytes" where
  "encode_final_workspace sha f =
     rbind (of_snapshot (encode_snapshot sha (fw_base f))) (\<lambda>_.
     rbind (final_check (hex_exactly 32 (fw_sandbox_id f) \<and> hex_exactly 32 (fw_session_id f))
       (u ''final workspace identity or file list is invalid'')) (\<lambda>_.
     rbind (of_snapshot (validate_workspace_files (fw_files f))) (\<lambda>_.
     let data = canonical_bytes (final_json sha f) in
     rbind (final_check (length data \<le> MAX_SNAPSHOT_BYTES) (u ''final workspace exceeds transfer limit'')) (\<lambda>_.
     Inr data))))"

definition final_keys :: "pystr set" where
  "final_keys = {u ''version'', u ''kind'', u ''job_id'', u ''sandbox_id'', u ''session_id'', u ''repository_id'', u ''revision'',
     u ''image_sha256'', u ''files''}"

definition final_bound :: "(pystr \<times> json) list \<Rightarrow> snapshot \<Rightarrow> pystr \<Rightarrow> pystr \<Rightarrow> bool" where
  "final_bound d base sandbox_id session_id \<longleftrightarrow>
     fst ` set d = final_keys \<and> map_of d (u ''version'') = Some (JInt 1) \<and>
     map_of d (u ''kind'') = Some (JStr (u ''final-workspace'')) \<and> map_of d (u ''job_id'') = Some (JStr (ss_job_id base)) \<and>
     map_of d (u ''sandbox_id'') = Some (JStr sandbox_id) \<and> map_of d (u ''session_id'') = Some (JStr session_id) \<and>
     map_of d (u ''repository_id'') = Some (JStr (ss_repository_id base)) \<and>
     map_of d (u ''revision'') = Some (JStr (ss_revision base)) \<and>
     map_of d (u ''image_sha256'') = Some (JStr (ss_image_sha256 base))"

definition decode_final_workspace ::
  "(bytes \<Rightarrow> nat) \<Rightarrow> bytes \<Rightarrow> snapshot \<Rightarrow> pystr \<Rightarrow> pystr \<Rightarrow> final_error + final_workspace" where
  "decode_final_workspace sha data base sandbox_id session_id =
     rbind (final_check (length data \<le> MAX_SNAPSHOT_BYTES) (u ''final workspace frame exceeds limit'')) (\<lambda>_.
     rbind (final_check (hex_exactly 32 sandbox_id \<and> hex_exactly 32 session_id) (u ''expected sandbox/session ID is invalid'')) (\<lambda>_.
     rbind (of_snapshot (encode_snapshot sha base)) (\<lambda>_.
     case read_object data of
       None \<Rightarrow> Inl (FinalError (u ''final workspace is not valid UTF-8 JSON''))
     | Some payload \<Rightarrow> (case payload of None \<Rightarrow> Inl (FinalError (u ''final workspace envelope or binding is invalid''))
         | Some d \<Rightarrow>
             rbind (final_check (final_bound d base sandbox_id session_id) (u ''final workspace envelope or binding is invalid'')) (\<lambda>_.
             case map_of d (u ''files'') of
               Some (JArr js) \<Rightarrow>
                 rbind (final_check (length js \<le> MAX_FILES) (u ''final workspace envelope or binding is invalid'')) (\<lambda>_.
                 rbind (map_res (decode_file sha FinalError (u ''final file record is invalid'',
                   u ''final file encoding is invalid'', u ''final file digest differs'')) js) (\<lambda>files.
                 let f = \<lparr>fw_base = base, fw_sandbox_id = sandbox_id, fw_session_id = session_id, fw_files = files\<rparr> in
                 rbind (encode_final_workspace sha f) (\<lambda>again.
                 rbind (final_check (again = data) (u ''final workspace is not canonical'')) (\<lambda>_. Inr f))))
             | _ \<Rightarrow> Inl (FinalError (u ''final workspace envelope or binding is invalid'')))))))"

lemma rbind_final_check [simp]: "rbind (final_check b t) f = Inr y \<longleftrightarrow> b \<and> f () = Inr y" "final_check b t = Inr x \<longleftrightarrow> b"
  by (simp_all add: final_check_def)

lemma of_snapshot_Inr [simp]: "of_snapshot r = Inr x \<longleftrightarrow> r = Inr x"
  by (cases r) simp_all

lemma encode_final_Inr:
  "encode_final_workspace sha f = Inr d \<longleftrightarrow> (\<exists>b. encode_snapshot sha (fw_base f) = Inr b) \<and>
     hex_exactly 32 (fw_sandbox_id f) \<and> hex_exactly 32 (fw_session_id f) \<and> validate_workspace_files (fw_files f) = Inr () \<and>
     length (canonical_bytes (final_json sha f)) \<le> MAX_SNAPSHOT_BYTES \<and> canonical_bytes (final_json sha f) = d"
  by (auto simp: encode_final_workspace_def Let_def rbind_Inr_iff)

lemma final_keys_ascii [simp]: "\<forall>c \<in> set (u ''kind''). c < 128" "\<forall>c \<in> set (u ''final-workspace''). c < 128"
  "\<forall>c \<in> set (u ''sandbox_id''). c < 128" "\<forall>c \<in> set (u ''session_id''). c < 128"
  by code_simp+

lemma final_json_ascii:
  assumes "identity_ok (fw_base f)" "hex_exactly 32 (fw_sandbox_id f)" "hex_exactly 32 (fw_session_id f)"
    "\<forall>g \<in> set (fw_files f). file_ok g"
  shows "ascii_json (final_json sha f) \<and> dicts_ok (final_json sha f)"
  using assms file_json_ascii
  by (auto simp: final_json_def identity_ok_def commit_id_def dict_ok_def list_all_iff dest: hex_exactly_ascii slug_ascii)

lemma decode_encode_final:
  assumes enc: "encode_final_workspace sha f = Inr d"
  shows "decode_final_workspace sha d (fw_base f) (fw_sandbox_id f) (fw_session_id f) = Inr f"
proof -
  from enc [unfolded encode_final_Inr] obtain b where e: "encode_snapshot sha (fw_base f) = Inr b" "hex_exactly 32 (fw_sandbox_id f)"
    "hex_exactly 32 (fw_session_id f)" "validate_workspace_files (fw_files f) = Inr ()" "length d \<le> MAX_SNAPSHOT_BYTES"
    "canonical_bytes (final_json sha f) = d" by blast
  from e(4) have v: "files_valid (fw_files f) True = Inr ()" by (auto simp: validate_workspace_files_def rbind_Inr_iff)
  from files_valid_ok [OF v] have fs: "\<forall>g \<in> set (fw_files f). file_ok g" "length (fw_files f) \<le> MAX_FILES" by blast+
  have i: "identity_ok (fw_base f)" using e(1) by (simp add: encode_snapshot_Inr)
  obtain ms0 where j: "final_json sha f = JObj ms0" by (simp add: final_json_def)
  from final_json_ascii [OF i e(2,3) fs(1), of sha] have "ascii_json (JObj ms0)" "dicts_ok (JObj ms0)" unfolding j by blast+
  from read_canonical [OF this] obtain ms where r: "read_object d = Some (Some ms)" "fst ` set ms = fst ` set ms0"
    "\<forall>k. map_of ms k = map_option sort_keys (map_of ms0 k)"
    unfolding j [symmetric] e(6) by (elim exE conjE) (rule that)
  note m = j [unfolded final_json_def, simplified, symmetric]
  have k: "fst ` set ms = final_keys" unfolding r(2) m final_keys_def by auto
  have b: "final_bound ms (fw_base f) (fw_sandbox_id f) (fw_session_id f)"
    unfolding final_bound_def k by (simp add: r(3) m)
  have l: "map_of ms (u ''files'') = Some (JArr (map sort_keys (map (file_json sha) (fw_files f))))"
    by (simp add: r(3) m)
  have c: "\<lparr>fw_base = fw_base f, fw_sandbox_id = fw_sandbox_id f, fw_session_id = fw_session_id f, fw_files = fw_files f\<rparr> = f"
    by simp
  from b show ?thesis
    unfolding decode_final_workspace_def using e fs(2) enc
    by (simp add: Let_def c l r(1) decode_files_json [OF fs(1), simplified o_def] o_def final_check_def)
qed

lemma decode_final_Inr:
  assumes "decode_final_workspace sha d base sb ss = Inr f"
  shows "fw_base f = base \<and> fw_sandbox_id f = sb \<and> fw_session_id f = ss \<and> encode_final_workspace sha f = Inr d \<and>
    (\<exists>ms. read_object d = Some (Some ms) \<and> final_bound ms base sb ss)"
  using assms unfolding decode_final_workspace_def
  by (auto simp: rbind_Inr_iff Let_def split: option.splits json.splits)

text \<open>For a fixed base, sandbox and session, file lists and envelopes correspond.\<close>

definition encode_files_for :: "(bytes \<Rightarrow> nat) \<Rightarrow> snapshot \<Rightarrow> pystr \<Rightarrow> pystr \<Rightarrow> snapshot_file list \<Rightarrow> final_error + bytes" where
  "encode_files_for sha base sb ss files =
     encode_final_workspace sha \<lparr>fw_base = base, fw_sandbox_id = sb, fw_session_id = ss, fw_files = files\<rparr>"

definition decode_files_for :: "(bytes \<Rightarrow> nat) \<Rightarrow> snapshot \<Rightarrow> pystr \<Rightarrow> pystr \<Rightarrow> bytes \<Rightarrow> final_error + snapshot_file list" where
  "decode_files_for sha base sb ss d = rbind (decode_final_workspace sha d base sb ss) (\<lambda>f. Inr (fw_files f))"

interpretation final_codec: canonical_codec "encode_files_for sha base sb ss" "decode_files_for sha base sb ss"
proof (unfold_locales, goal_cases)
  case (1 files d)
  then show ?case unfolding encode_files_for_def decode_files_for_def by (auto dest!: decode_encode_final)
next
  case (2 d files)
  then obtain f where f: "decode_final_workspace sha d base sb ss = Inr f" "files = fw_files f"
    by (auto simp: decode_files_for_def rbind_Inr_iff)
  with decode_final_Inr [OF f(1)] have "f = \<lparr>fw_base = base, fw_sandbox_id = sb, fw_session_id = ss, fw_files = files\<rparr>" by simp
  with decode_final_Inr [OF f(1)] show ?case by (simp add: encode_files_for_def)
qed

section \<open>Retrieval\<close>

definition CHUNK_BYTES :: nat where "CHUNK_BYTES = 16 * 1024"

datatype retrieve_error = InSession session_exn | InFinal final_error | InRetrieval pystr

fun of_session :: "session_exn + 'a \<Rightarrow> retrieve_error + 'a" where
  "of_session (Inl e) = Inl (InSession e)"
| "of_session (Inr x) = Inr x"

fun of_final :: "final_error + 'a \<Rightarrow> retrieve_error + 'a" where
  "of_final (Inl e) = Inl (InFinal e)"
| "of_final (Inr x) = Inr x"

lemma export_chunk_progress:
  "export_chunk tp busy i n s = (s', Inr (chunk, eof)) \<Longrightarrow> chunk \<noteq> [] \<or> eof"
  using export_step by blast

text \<open>The loop; \<open>busy n\<close> tells whether another operation holds the session's lock at its \<open>n\<close>-th call.\<close>

function retrieve_chunks ::
  "'w transport \<Rightarrow> (nat \<Rightarrow> bool) \<Rightarrow> nat \<Rightarrow> bytes \<Rightarrow> 'w session \<Rightarrow> 'w session \<times> (retrieve_error + bytes)" where
  "retrieve_chunks tp busy n data s =
     (if MAX_SNAPSHOT_BYTES \<le> length data then (s, Inl (InRetrieval (u ''final workspace export exceeds transfer limit'')))
      else (case export_chunk tp (busy n) (int (length data)) (int (min CHUNK_BYTES (MAX_SNAPSHOT_BYTES - length data))) s of
          (s1, Inl e) \<Rightarrow> (s1, Inl (InSession e))
        | (s1, Inr (chunk, eof)) \<Rightarrow> if eof then (s1, Inr (data @ chunk)) else retrieve_chunks tp busy (Suc n) (data @ chunk) s1))"
  by pat_completeness auto
termination
  by (relation "measure (\<lambda>(tp, busy, n, data, s). MAX_SNAPSHOT_BYTES - length data)")
    (auto dest!: sym [of _ "export_chunk _ _ _ _ _"] export_chunk_progress intro!: diff_less_mono2)

declare retrieve_chunks.simps [simp del]

definition retrieve_body ::
  "(bytes \<Rightarrow> nat) \<Rightarrow> 'w transport \<Rightarrow> (nat \<Rightarrow> bool) \<Rightarrow> snapshot \<Rightarrow> 'w session \<Rightarrow> 'w session \<times> (retrieve_error + final_workspace)" where
  "retrieve_body sha tp busy base s =
     (if ss_job_id base \<noteq> se_job_id s then (s, Inl (InRetrieval (u ''final workspace job does not match the tool session'')))
      else (case session_finalize tp (busy 0) s of
          (s1, Inl e) \<Rightarrow> (s1, Inl (InSession e))
        | (s1, Inr _) \<Rightarrow> (case retrieve_chunks tp busy 1 [] s1 of
            (s2, Inl e) \<Rightarrow> (s2, Inl e)
          | (s2, Inr data) \<Rightarrow> (s2, of_final (decode_final_workspace sha data base (se_sandbox_id s2) (se_session_id s2))))))"

text \<open>The \<open>finally\<close> closes the session; an exception of the transport's \<open>close\<close> replaces the outcome.\<close>

definition retrieve_final_workspace ::
  "(bytes \<Rightarrow> nat) \<Rightarrow> 'w transport \<Rightarrow> (nat \<Rightarrow> bool) \<Rightarrow> snapshot \<Rightarrow> 'w session \<Rightarrow> 'w session \<times> (retrieve_error + final_workspace)" where
  "retrieve_final_workspace sha tp busy base s =
     (case retrieve_body sha tp busy base s of (s1, r) \<Rightarrow>
       (case session_cancel tp s1 of
         (s2, Inl t) \<Rightarrow> (s2, Inl (InSession (OtherError t)))
       | (s2, Inr _) \<Rightarrow> (s2, r)))"

lemma retrieve_chunks_Inr:
  assumes "retrieve_chunks tp busy n data s = (s', Inr out)"
  shows "same_config s s' \<and> se_export_offset s' + length data = se_export_offset s + length out \<and> length out \<le> MAX_SNAPSHOT_BYTES"
  using assms
proof (induction tp busy n data s rule: retrieve_chunks.induct)
  case (1 tp busy n data s)
  let ?m = "int (min CHUNK_BYTES (MAX_SNAPSHOT_BYTES - length data))"
  from 1(2) obtain s1 chunk eof where c: "\<not> MAX_SNAPSHOT_BYTES \<le> length data"
    "export_chunk tp (busy n) (int (length data)) ?m s = (s1, Inr (chunk, eof))"
    and k: "if eof then (s1, Inr (data @ chunk)) = (s', Inr out :: retrieve_error + bytes)
            else retrieve_chunks tp busy (Suc n) (data @ chunk) s1 = (s', Inr out)"
    by (subst (asm) retrieve_chunks.simps) (auto split: if_splits prod.splits sum.splits)
  from export_step [OF c(2)] have e: "same_config s s1" "se_export_offset s1 = se_export_offset s + length chunk"
    "int (length chunk) \<le> ?m" by (auto simp: session_advances_def)
  show ?case
  proof (cases eof)
    case True
    with k c(1) e show ?thesis by auto
  next
    case False
    with k have "retrieve_chunks tp busy (Suc n) (data @ chunk) s1 = (s', Inr out)" by simp
    from 1(1) [OF c(1) c(2) [symmetric] refl refl False this] e show ?thesis by (auto simp: same_config_def)
  qed
qed

lemma retrieve_body_Inr:
  assumes "retrieve_body sha tp busy base s = (s', Inr f)"
  shows "ss_job_id base = se_job_id s \<and> same_config s s' \<and>
    (\<exists>d. decode_final_workspace sha d base (se_sandbox_id s) (se_session_id s) = Inr f)"
proof -
  from assms obtain s1 data where j: "ss_job_id base = se_job_id s" "session_finalize tp (busy 0) s = (s1, Inr ())"
    and c: "retrieve_chunks tp busy 1 [] s1 = (s', Inr data)"
    and d: "of_final (decode_final_workspace sha data base (se_sandbox_id s') (se_session_id s')) = Inr f"
    by (auto simp: retrieve_body_def split: if_splits prod.splits sum.splits)
  have "same_config s s'" using finalize_step [OF j(2)] retrieve_chunks_Inr [OF c] by (auto simp: session_advances_def same_config_def)
  moreover from d have "decode_final_workspace sha data base (se_sandbox_id s') (se_session_id s') = Inr f"
    by (cases "decode_final_workspace sha data base (se_sandbox_id s') (se_session_id s')") simp_all
  ultimately show ?thesis using j by (auto simp: same_config_def)
qed

section \<open>Properties\<close>

text \<open>
  An envelope is accepted exactly if it is the canonical encoding of a final workspace whose
  base snapshot, sandbox and session are the expected ones: an export of another session, sandbox
  or job, a partial one and a re-spelled one are all refused.
\<close>

theorem final_workspace_codec_exact:
  "decode_final_workspace sha d base sb ss = Inr f \<longleftrightarrow>
     encode_final_workspace sha f = Inr d \<and> fw_base f = base \<and> fw_sandbox_id f = sb \<and> fw_session_id f = ss"
  using decode_final_Inr decode_encode_final by blast

text \<open>
  The retrieval always comes to an end with the session closed, whatever the guest sends, and a
  workspace it returns is bound to the job, sandbox and session of the session it came from and was
  read completely from one canonical envelope.
\<close>

theorem retrieval_closes_and_binds:
  "case retrieve_final_workspace sha tp busy base s of (s', r) \<Rightarrow>
     se_closed s' \<and>
     (case r of Inl e \<Rightarrow> True
      | Inr f \<Rightarrow> fw_base f = base \<and> ss_job_id base = se_job_id s \<and> fw_sandbox_id f = se_sandbox_id s \<and>
          fw_session_id f = se_session_id s \<and> (\<exists>d. encode_final_workspace sha f = Inr d))"
proof -
  obtain s1 r where b: "retrieve_body sha tp busy base s = (s1, r)" by fastforce
  have "case r of Inl e \<Rightarrow> True
      | Inr f \<Rightarrow> fw_base f = base \<and> ss_job_id base = se_job_id s \<and> fw_sandbox_id f = se_sandbox_id s \<and>
          fw_session_id f = se_session_id s \<and> (\<exists>d. encode_final_workspace sha f = Inr d)"
    using retrieve_body_Inr [of sha tp busy base s s1] decode_final_Inr b by (fastforce split: sum.split)
  then show ?thesis
    by (auto simp: retrieve_final_workspace_def b session_cancel_def split: prod.splits sum.splits)
qed

end
