(* ===== verification/ReviewCollection.thy ===== *)
theory ReviewCollection
  imports ReviewBundle FinalWorkspace
begin

text \<open>
  \<open>night_shifts/review_collection.py\<close>: the end of a job.  The final workspace is exported through the
  tool session if the identities match, the session is closed and the owned sandbox destroyed, and the
  evidence is stored.  The sandbox provider is a parameter acting on a world \<open>'p\<close>; its \<open>destroy\<close> tells
  whether it raised.
\<close>

definition owned_sandbox :: "execution_policy \<Rightarrow> sandbox_record option \<Rightarrow> bool" where
  "owned_sandbox p sandbox \<longleftrightarrow> (case sandbox of None \<Rightarrow> False
     | Some s \<Rightarrow> sb_backend s = u ''hyperv'' \<and> sb_job_id s = ep_job_id p \<and> hex_exactly 32 (sb_sandbox_id s) \<and>
         sb_external_id s = Some (u ''night-shift-'' @ sb_sandbox_id s))"

text \<open>\<open>type(exc).__name__\<close>; the class of a foreign exception is a parameter.\<close>

fun exception_name :: "(pystr \<Rightarrow> pystr) \<Rightarrow> retrieve_error \<Rightarrow> pystr" where
  "exception_name other (InSession (SessionError t)) = u ''ToolSessionError''"
| "exception_name other (InSession (RemoteError c m)) = u ''ToolSessionRemoteError''"
| "exception_name other (InSession (OtherError t)) = other t"
| "exception_name other (InFinal (FinalError t)) = u ''FinalWorkspaceError''"
| "exception_name other (InFinal (FinalSnapshot e)) = u ''SnapshotError''"
| "exception_name other (InRetrieval t) = u ''ValueError''"

record 'w collection_env =
  ce_bundle :: bundle_env
  ce_transport :: "'w transport"
  ce_busy :: "nat \<Rightarrow> bool"
  ce_class :: "pystr \<Rightarrow> pystr"

text \<open>The body of the \<open>try\<close>: the session after it, the final files, and the diagnostics.\<close>

definition export_final_files ::
  "'w collection_env \<Rightarrow> bundle_request \<Rightarrow> sandbox_record option \<Rightarrow> 'w session option \<Rightarrow>
   'w session option \<times> snapshot_file list option \<times> pystr list" where
  "export_final_files env req sandbox session =
     (if \<not> owned_sandbox (br_policy req) sandbox
      then (session, None, [u ''persisted execution sandbox identity is unavailable or unsafe''])
      else if sb_spec (the sandbox) \<noteq> ep_sandbox (br_policy req)
      then (session, None, [u ''execution sandbox resource or network policy does not match the approved job''])
      else (case session of
          None \<Rightarrow> (None, None, [u ''sandbox tool session was unavailable at finalization''])
        | Some s \<Rightarrow>
            if se_job_id s \<noteq> ep_job_id (br_policy req) \<or> se_sandbox_id s \<noteq> sb_sandbox_id (the sandbox)
               \<or> se_profile s \<noteq> ep_worker_profile (br_policy req)
            then (session, None, [u ''sandbox tool session identity or profile does not match the approved job''])
            else (case retrieve_final_workspace (be_sha (ce_bundle env)) (ce_transport env) (ce_busy env) (br_base req) s of
                (s', Inr f) \<Rightarrow> (Some s', Some (fw_files f), [])
              | (s', Inl e) \<Rightarrow> (Some s', None, [u ''guest export failed: '' @ exception_name (ce_class env) e]))))"

definition close_session :: "'w transport \<Rightarrow> 'w session option \<Rightarrow> 'w session option \<times> pystr list" where
  "close_session tp session = (case session of None \<Rightarrow> (None, [])
     | Some s \<Rightarrow> (case session_cancel tp s of
         (s', Inr _) \<Rightarrow> (Some s', [])
       | (s', Inl _) \<Rightarrow> (Some s', [u ''sandbox tool session close failed''])))"

definition destroy_owned ::
  "(sandbox_record \<Rightarrow> 'p \<Rightarrow> 'p \<times> bool) \<Rightarrow> execution_policy \<Rightarrow> sandbox_record option \<Rightarrow> 'p \<Rightarrow> 'p \<times> cleanup_status \<times> pystr list" where
  "destroy_owned destroy p sandbox w =
     (if \<not> owned_sandbox p sandbox then (w, CL_UNKNOWN, [])
      else (case destroy (the sandbox) w of
          (w', True) \<Rightarrow> (w', CL_FAILED, [u ''owned sandbox destruction failed; operator reconciliation required''])
        | (w', False) \<Rightarrow> (w', CL_CLEAN, [])))"

text \<open>
  The request holds what the caller passed on; its final files, sandbox, cleanup, replay and
  diagnostics are set here.
\<close>

definition collect_after_worker ::
  "'w collection_env \<Rightarrow> (sandbox_record \<Rightarrow> 'p \<Rightarrow> 'p \<times> bool) \<Rightarrow> bundle_request \<Rightarrow> sandbox_record option \<Rightarrow> 'w session option \<Rightarrow> 'p \<Rightarrow>
   bundle_files \<Rightarrow> 'w session option \<times> 'p \<times> bundle_files \<times> (bundle_error + saved_bundle)" where
  "collect_after_worker env destroy req sandbox session w st =
     (case export_final_files env req sandbox session of (session1, files, diag1) \<Rightarrow>
      (case close_session (ce_transport env) session1 of (session2, diag2) \<Rightarrow>
      (case destroy_owned destroy (br_policy req) sandbox w of (w', cleanup, diag3) \<Rightarrow>
      (case collect_bundle (ce_bundle env) (req\<lparr>br_final := files,
           br_sandbox := if owned_sandbox (br_policy req) sandbox then map_option sb_sandbox_id sandbox else None,
           br_cleanup := cleanup, br_replay := None, br_diagnostics := diag1 @ diag2 @ diag3\<rparr>) st of
        (st', r) \<Rightarrow> (session2, w', st', r)))))"

lemma close_session_closes: "close_session tp session = (session', d) \<Longrightarrow>
    (case session' of None \<Rightarrow> session = None | Some s \<Rightarrow> se_closed s)"
  by (auto simp: close_session_def session_cancel_def split: option.splits prod.splits sum.splits if_splits)

lemma export_final_files_session: "export_final_files env req sandbox session = (session', files, d) \<Longrightarrow> session' = None \<longleftrightarrow> session = None"
  by (auto simp: export_final_files_def split: option.splits prod.splits sum.splits if_splits)

lemma export_final_files_bound:
  assumes "export_final_files env req sandbox session = (session', Some files, d)"
  shows "\<exists>s sb f data. session = Some s \<and> sandbox = Some sb \<and> owned_sandbox (br_policy req) sandbox \<and> sb_spec sb = ep_sandbox (br_policy req) \<and>
    encode_final_workspace (be_sha (ce_bundle env)) f = Inr data \<and> fw_files f = files \<and> fw_base f = br_base req \<and>
    fw_sandbox_id f = sb_sandbox_id sb \<and> fw_session_id f = se_session_id s"
proof -
  from assms obtain s sb s' f where e: "session = Some s" "sandbox = Some sb" "owned_sandbox (br_policy req) sandbox"
    "sb_spec sb = ep_sandbox (br_policy req)" "se_sandbox_id s = sb_sandbox_id sb" "fw_files f = files"
    "retrieve_final_workspace (be_sha (ce_bundle env)) (ce_transport env) (ce_busy env) (br_base req) s = (s', Inr f)"
    by (cases sandbox) (auto simp: export_final_files_def owned_sandbox_def split: option.splits prod.splits sum.splits if_splits)
  from e(7) obtain s1 where "retrieve_body (be_sha (ce_bundle env)) (ce_transport env) (ce_busy env) (br_base req) s = (s1, Inr f)"
    by (auto simp: retrieve_final_workspace_def split: prod.splits sum.splits)
  from retrieve_body_Inr [OF this] decode_final_Inr e show ?thesis by metis
qed

lemma not_ready_without_replay:
  assumes "collect_bundle env req st = (st', Inr saved)" "br_replay req = None"
  shows "sv_state saved \<noteq> ready_state"
  using assms(1)
proof (rule collect_bundle_Inr)
  fix pl
  assume p: "evaluate_bundle (be_sha env) req = Inr pl"
    "saved = \<lparr>sv_job_id = ep_job_id (br_policy req), sv_state = bp_state pl, sv_reasons = map JStr (bp_reasons pl)\<rparr>"
  from bundle_ready_iff [OF p(1)] assms(2) p(2) show ?thesis by (auto simp: review_ready_def patch_replayed_def)
qed

text \<open>
  C26: The end of a job always closes the tool session and destroys exactly the sandbox the job owns,
  also when the export failed or the identities do not match; and
  since no replay took place yet, what it stores is never marked ready for review.
\<close>

theorem collection_cleans_up:
  "case collect_after_worker env destroy req sandbox session w st of (session', w', st', r) \<Rightarrow>
     (case session' of None \<Rightarrow> session = None | Some s \<Rightarrow> se_closed s) \<and>
     w' = (if owned_sandbox (br_policy req) sandbox then fst (destroy (the sandbox) w) else w) \<and>
     (case r of Inl e \<Rightarrow> True | Inr saved \<Rightarrow> sv_state saved \<noteq> ready_state)"
proof -
  obtain session1 files d1 where e: "export_final_files env req sandbox session = (session1, files, d1)" using prod_cases3 by blast
  obtain session2 d2 where c: "close_session (ce_transport env) session1 = (session2, d2)" by fastforce
  obtain w' cleanup d3 where d: "destroy_owned destroy (br_policy req) sandbox w = (w', cleanup, d3)" using prod_cases3 by blast
  let ?req = "req\<lparr>br_final := files, br_sandbox := if owned_sandbox (br_policy req) sandbox then map_option sb_sandbox_id sandbox else None,
      br_cleanup := cleanup, br_replay := None, br_diagnostics := d1 @ d2 @ d3\<rparr>"
  obtain st' r where s: "collect_bundle (ce_bundle env) ?req st = (st', r)" by fastforce
  have "case session2 of None \<Rightarrow> session = None | Some s \<Rightarrow> se_closed s"
    using close_session_closes [OF c] export_final_files_session [OF e] by (auto split: option.splits)
  moreover have "w' = (if owned_sandbox (br_policy req) sandbox then fst (destroy (the sandbox) w) else w)"
    using d by (auto simp: destroy_owned_def split: prod.splits bool.splits)
  moreover have "case r of Inl e \<Rightarrow> True | Inr saved \<Rightarrow> sv_state saved \<noteq> ready_state"
    using not_ready_without_replay [of "ce_bundle env" ?req st st'] s by (auto split: sum.split)
  ultimately show ?thesis by (simp add: collect_after_worker_def e c d s)
qed

end
