(* ===== verification/Gateway.thy ===== *)
theory Gateway
  imports WorkerExecutor "HOL-Library.Multiset"
begin

text \<open>
  \<open>night_shifts/inference.py\<close>: the host-side gateway that mediates a worker's model inference.  A
  session belongs to one job, profile and model; the model objects act on a world \<open>'w\<close> and are
  known by a handle \<open>'m\<close>.  \<open>infer\<close> runs under its session's lock, and a concurrent \<open>close_client\<close>
  or \<open>cancel_client\<close> only takes the session out of the table, which \<open>infer\<close> has read before: each
  method is one step.  Times are microseconds.
\<close>

section \<open>State\<close>

datatype gateway_error =
    Boundary pystr            \<comment> \<open>\<open>InferenceBoundaryError\<close>\<close>
  | GatewayValue pystr
  | GatewayPolicy policy_error
  | GatewayUnicode pystr      \<comment> \<open>a string with a lone surrogate\<close>
  | ModelRaised pystr

record 'm inference_session =
  in_job_id :: pystr
  in_worker_profile :: pystr
  in_model_id :: pystr
  in_model :: 'm
  in_limits :: inference_limits
  in_expires_at :: int
  in_requests :: int

record ('w, 'm) gateway =
  gw_models :: "(pystr, ('w, pystr, 'm) act) dict"
  gw_sessions :: "(pystr, 'm inference_session) dict"
  gw_world :: 'w

text \<open>A model is used through \<open>infer\<close> and, where it has them, \<open>close\<close> and \<open>cancel\<close>.\<close>

record ('w, 'm) model_ops =
  mo_infer :: "'m \<Rightarrow> inference_message list \<Rightarrow> worker_tool_spec list \<Rightarrow> ('w, pystr, inference_response option) act"
  mo_close :: "'m \<Rightarrow> ('w, pystr, unit) act option"
  mo_cancel :: "'m \<Rightarrow> ('w, pystr, unit) act option"

type_synonym ('w, 'm, 'a) gateway_act = "(('w, 'm) gateway, gateway_error, 'a) act"

definition on_world :: "('w, pystr, 'a) act \<Rightarrow> ('w, 'm, 'a) gateway_act" where
  "on_world m = (\<lambda>g. case m (gw_world g) of (w, r) \<Rightarrow> (g\<lparr>gw_world := w\<rparr>, map_sum ModelRaised id r))"

definition deny :: "bool \<Rightarrow> pystr \<Rightarrow> gateway_error + unit" where
  "deny b t = require (\<not> b) (Boundary t)"

definition lift_check :: "gateway_error + 'a \<Rightarrow> ('w, 'm, 'a) gateway_act" where
  "lift_check r = (case r of Inl e \<Rightarrow> throw e | Inr x \<Rightarrow> ret x)"

section \<open>Clients\<close>

text \<open>A client is bound to the gateway that made it (here by a number) and to a token.\<close>

record bound_client =
  bc_gateway :: nat
  bc_token :: pystr

text \<open>The constructor checks every model ID; \<open>bad\<close> is the first that is no stable ID.\<close>

definition gateway_init :: "(pychar \<Rightarrow> bool) \<Rightarrow> (pystr, ('w, pystr, 'm) act) dict \<Rightarrow> 'w \<Rightarrow> gateway_error + ('w, 'm) gateway" where
  "gateway_init uni models w =
     (if models = [] then Inl (GatewayValue (u ''at least one trusted inference model is required''))
      else case List.find (\<lambda>(k, f). \<not> stable_id k) models of
        Some (bad, f) \<Rightarrow> Inl (GatewayValue (u ''invalid trusted model ID: '' @ py_repr uni bad))
      | None \<Rightarrow> Inr \<lparr>gw_models = models, gw_sessions = [], gw_world = w\<rparr>)"

definition create_client ::
  "nat \<Rightarrow> (pychar \<Rightarrow> bool) \<Rightarrow> pystr \<Rightarrow> int \<Rightarrow> pystr \<Rightarrow> pystr \<Rightarrow> pystr \<Rightarrow> inference_limits option \<Rightarrow> ('w, 'm, bound_client) gateway_act" where
  "create_client self uni token now job profile model limits =
     abind (guard (job \<noteq> []) (GatewayValue (u ''job_id must not be empty''))) (\<lambda>_.
     abind (lift_check (map_sum GatewayPolicy id (worker_tool_names uni profile))) (\<lambda>_.
     abind (reads (\<lambda>g. map_of (gw_models g) model)) (\<lambda>f. case f of
       None \<Rightarrow> throw (Boundary (u ''unknown trusted model ID: '' @ py_repr uni model))
     | Some factory \<Rightarrow>
         let l = (case limits of None \<Rightarrow> default_inference_limits | Some l \<Rightarrow> l) in
         abind (on_world factory) (\<lambda>m.
         abind (writes (\<lambda>g. g\<lparr>gw_sessions := dput token \<lparr>in_job_id = job, in_worker_profile = profile,
             in_model_id = model, in_model = m, in_limits = l, in_expires_at = now + il_ttl_seconds l * 1000000,
             in_requests = 0\<rparr> (gw_sessions g)\<rparr>)) (\<lambda>_.
         ret \<lparr>bc_gateway = self, bc_token = token\<rparr>)))))"

definition owned :: "nat \<Rightarrow> bound_client option \<Rightarrow> gateway_error + bound_client" where
  "owned self client = (case client of
     Some c \<Rightarrow> if bc_gateway c = self then Inr c else Inl (Boundary (u ''inference client is not owned by this gateway''))
   | None \<Rightarrow> Inl (Boundary (u ''inference client is not owned by this gateway'')))"

definition authorize_client ::
  "nat \<Rightarrow> bound_client option \<Rightarrow> pystr \<Rightarrow> pystr \<Rightarrow> pystr \<Rightarrow> ('w, 'm, unit) gateway_act" where
  "authorize_client self client job profile model =
     abind (lift_check (owned self client)) (\<lambda>c.
     abind (reads (\<lambda>g. map_of (gw_sessions g) (bc_token c))) (\<lambda>s.
     guard (case s of None \<Rightarrow> False
         | Some x \<Rightarrow> in_job_id x = job \<and> in_worker_profile x = profile \<and> in_model_id x = model)
       (Boundary (u ''inference client does not match approved job policy''))))"

definition pop_session :: "pystr \<Rightarrow> ('w, 'm, 'm inference_session option) gateway_act" where
  "pop_session token = (\<lambda>g. (g\<lparr>gw_sessions := filter (\<lambda>(k, s). k \<noteq> token) (gw_sessions g)\<rparr>,
     Inr (map_of (gw_sessions g) token)))"

definition close_client :: "('w, 'm) model_ops \<Rightarrow> nat \<Rightarrow> bound_client option \<Rightarrow> ('w, 'm, unit) gateway_act" where
  "close_client ops self client =
     abind (lift_check (owned self client)) (\<lambda>c.
     abind (pop_session (bc_token c)) (\<lambda>s. case s of
       None \<Rightarrow> ret ()
     | Some x \<Rightarrow> (case mo_close ops (in_model x) of None \<Rightarrow> ret () | Some close \<Rightarrow> on_world close)))"

definition cancel_client :: "('w, 'm) model_ops \<Rightarrow> nat \<Rightarrow> bound_client option \<Rightarrow> ('w, 'm, unit) gateway_act" where
  "cancel_client ops self client =
     abind (lift_check (owned self client)) (\<lambda>c.
     abind (pop_session (bc_token c)) (\<lambda>s. case s of
       None \<Rightarrow> ret ()
     | Some x \<Rightarrow> (case mo_cancel ops (in_model x) of
           None \<Rightarrow> throw (Boundary (u ''inference model has no hard cancellation capability''))
         | Some cancel \<Rightarrow> on_world cancel)))"

section \<open>Requests and responses\<close>

definition session_authorizes :: "int \<Rightarrow> 'm inference_session \<Rightarrow> inference_request \<Rightarrow> gateway_error + unit" where
  "session_authorizes now s req =
     rbind (deny (in_expires_at s \<le> now) (u ''inference session has expired'')) (\<lambda>_.
     rbind (deny (ir_job_id req \<noteq> in_job_id s) (u ''inference request job does not match the session'')) (\<lambda>_.
     rbind (deny (ir_worker_profile req \<noteq> in_worker_profile s) (u ''inference request profile does not match the session'')) (\<lambda>_.
     deny (il_max_requests (in_limits s) \<le> in_requests s) (u ''inference request limit exceeded''))))"

definition encoded_size :: "pystr \<Rightarrow> gateway_error + nat" where
  "encoded_size s = (case utf8_encode s of None \<Rightarrow> Inl (GatewayUnicode s) | Some b \<Rightarrow> Inr (length b))"

text \<open>\<open>json.dumps(value, sort_keys=True)\<close> is ASCII: its size in bytes is its length.\<close>

definition sorted_dumps :: "json \<Rightarrow> pystr" where
  "sorted_dumps j = dumps_spaced (sort_keys j)"

definition tool_call_size :: "inference_tool_call \<Rightarrow> gateway_error + nat" where
  "tool_call_size call =
     rbind (encoded_size (ic_call_id call)) (\<lambda>a.
     rbind (encoded_size (ic_name call)) (\<lambda>b.
     Inr (a + b + length (sorted_dumps (JObj (ic_arguments call))))))"

definition validate_tool_call :: "(pychar \<Rightarrow> bool) \<Rightarrow> pystr list \<Rightarrow> inference_tool_call \<Rightarrow> gateway_error + unit" where
  "validate_tool_call uni allowed call =
     rbind (deny (\<not> call_id_match (ic_call_id call)) (u ''inference tool call ID is invalid'')) (\<lambda>_.
     rbind (deny (ic_name call \<notin> set allowed) (u ''model requested an unauthorized tool: '' @ py_repr uni (ic_name call))) (\<lambda>_.
     deny (256 * 1024 < length (sorted_dumps (JObj (ic_arguments call)))) (u ''inference tool arguments exceed the limit'')))"

text \<open>
  The loop over calls: \<open>known\<close> are the identifiers so far, \<open>n\<close> the bytes so far, \<open>dup\<close> the text for a
  repeated identifier.
\<close>

fun validate_calls ::
  "(pychar \<Rightarrow> bool) \<Rightarrow> pystr list \<Rightarrow> pystr \<Rightarrow> pystr list \<Rightarrow> nat \<Rightarrow> inference_tool_call list \<Rightarrow> gateway_error + (pystr list \<times> nat)" where
  "validate_calls uni allowed dup known n [] = Inr (known, n)"
| "validate_calls uni allowed dup known n (call # calls) =
     rbind (validate_tool_call uni allowed call) (\<lambda>_.
     rbind (deny (ic_call_id call \<in> set known) dup) (\<lambda>_.
     rbind (tool_call_size call) (\<lambda>k.
     validate_calls uni allowed dup (ic_call_id call # known) (n + k) calls)))"

fun validate_messages ::
  "(pychar \<Rightarrow> bool) \<Rightarrow> inference_limits \<Rightarrow> pystr list \<Rightarrow> pystr list \<Rightarrow> nat \<Rightarrow> inference_message list \<Rightarrow> gateway_error + nat" where
  "validate_messages uni l allowed known n [] = Inr n"
| "validate_messages uni l allowed known n (m # ms) =
     rbind (encoded_size (im_content m)) (\<lambda>k.
     rbind (if im_role m = RAssistant then
              rbind (deny (il_max_tool_calls l < int (length (im_tool_calls m)))
                (u ''transcript tool call count exceeds the session limit'')) (\<lambda>_.
              validate_calls uni allowed (u ''duplicate inference tool call ID'') known (n + k) (im_tool_calls m))
            else rbind (deny (im_tool_calls m \<noteq> []) (u ''only assistant messages may contain tool calls'')) (\<lambda>_.
              Inr (known, n + k))) (\<lambda>(known', n').
     rbind (if im_role m = RTool
            then deny (case im_tool_call_id m of None \<Rightarrow> True | Some i \<Rightarrow> i \<notin> set known')
                   (u ''tool result does not match an earlier call'')
            else deny (im_tool_call_id m \<noteq> None) (u ''only tool messages may identify a tool call'')) (\<lambda>_.
     validate_messages uni l allowed known' n' ms)))"

definition schema_json :: "worker_tool_spec list \<Rightarrow> json" where
  "schema_json tools = JArr (map (\<lambda>t. JObj [(u ''name'', JStr (ts_name t)), (u ''description'', JStr (ts_description t)),
     (u ''input_schema'', JObj (ts_input_schema t))]) tools)"

definition validate_request :: "(pychar \<Rightarrow> bool) \<Rightarrow> 'm inference_session \<Rightarrow> inference_request \<Rightarrow> gateway_error + unit" where
  "validate_request uni s req =
     (let l = in_limits s; names = map ts_name (ir_tools req) in
      rbind (deny (ir_messages req = [] \<or> il_max_messages l < int (length (ir_messages req)))
        (u ''inference message count is invalid'')) (\<lambda>_.
      rbind (map_sum GatewayPolicy id (worker_tool_names uni (in_worker_profile s))) (\<lambda>expected.
      rbind (deny (names \<noteq> expected \<or> \<not> distinct names) (u ''inference tools do not match the worker profile'')) (\<lambda>_.
      rbind (deny (il_max_schema_bytes l < int (length (sorted_dumps (schema_json (ir_tools req)))))
        (u ''worker tool schemas exceed the session limit'')) (\<lambda>_.
      rbind (validate_messages uni l expected [] 0 (ir_messages req)) (\<lambda>total.
      deny (il_max_input_bytes l < int total) (u ''inference input exceeds the session limit'')))))))"

definition validate_response ::
  "(pychar \<Rightarrow> bool) \<Rightarrow> 'm inference_session \<Rightarrow> inference_response option \<Rightarrow> gateway_error + inference_response" where
  "validate_response uni s reply = (case reply of
     None \<Rightarrow> Inl (Boundary (u ''inference model returned an invalid response''))
   | Some r \<Rightarrow>
       rbind (encoded_size (rs_content r)) (\<lambda>n.
       rbind (deny (il_max_tool_calls (in_limits s) < int (length (rs_tool_calls r)))
         (u ''inference tool call count exceeds the session limit'')) (\<lambda>_.
       rbind (map_sum GatewayPolicy id (worker_tool_names uni (in_worker_profile s))) (\<lambda>allowed.
       rbind (validate_calls uni allowed (u ''duplicate response tool call ID'') [] n (rs_tool_calls r)) (\<lambda>(known, total).
       rbind (deny (il_max_output_bytes (in_limits s) < int total) (u ''inference output exceeds the session limit'')) (\<lambda>_.
       rbind (deny (strip (rs_content r) = [] \<and> rs_tool_calls r = []) (u ''inference model returned an empty response'')) (\<lambda>_.
       Inr r)))))))"

definition admit :: "(pychar \<Rightarrow> bool) \<Rightarrow> int \<Rightarrow> pystr \<Rightarrow> inference_request \<Rightarrow> ('w, 'm, 'm inference_session) gateway_act" where
  "admit uni now token req =
     abind (reads (\<lambda>g. map_of (gw_sessions g) token)) (\<lambda>s. case s of
       None \<Rightarrow> throw (Boundary (u ''inference session is unavailable or revoked''))
     | Some x \<Rightarrow>
         abind (lift_check (session_authorizes now x req)) (\<lambda>_.
         abind (lift_check (validate_request uni x req)) (\<lambda>_.
         abind (writes (\<lambda>g. g\<lparr>gw_sessions := dput token (x\<lparr>in_requests := in_requests x + 1\<rparr>) (gw_sessions g)\<rparr>)) (\<lambda>_.
         ret x))))"

definition gw_infer ::
  "('w, 'm) model_ops \<Rightarrow> (pychar \<Rightarrow> bool) \<Rightarrow> int \<Rightarrow> pystr \<Rightarrow> inference_request \<Rightarrow> ('w, 'm, inference_response) gateway_act" where
  "gw_infer ops uni now token req =
     abind (admit uni now token req) (\<lambda>x.
     abind (on_world (mo_infer ops (in_model x) (ir_messages req) (ir_tools req))) (\<lambda>reply.
     lift_check (validate_response uni x reply)))"

section \<open>Usage\<close>

text \<open>\<open>_field\<close> on a decoded object; any other value has no such attribute.\<close>

definition usage_field :: "json \<Rightarrow> pystr \<Rightarrow> json" where
  "usage_field v name = (case v of JObj d \<Rightarrow> field_or d name JNull | _ \<Rightarrow> JNull)"

definition usage_token :: "json \<Rightarrow> gateway_error + int option" where
  "usage_token v = (case v of
     JNull \<Rightarrow> Inr None
   | JInt n \<Rightarrow> if n < 0 then Inl (Boundary (u ''provider reported invalid token usage'')) else Inr (Some n)
   | _ \<Rightarrow> Inl (Boundary (u ''provider reported invalid token usage'')))"

definition or_field :: "json \<Rightarrow> json \<Rightarrow> json" where
  "or_field a b = (if a = JNull then b else a)"

definition openai_usage :: "json \<Rightarrow> gateway_error + inference_usage option" where
  "openai_usage v =
     (if v = JNull then Inr None
      else
        let input0 = usage_field v (u ''input_tokens''); output0 = usage_field v (u ''output_tokens'');
            input = or_field input0 (usage_field v (u ''prompt_tokens''));
            output = or_field output0 (usage_field v (u ''completion_tokens''));
            input_details = usage_field v (if input0 = JNull then u ''prompt_tokens_details'' else u ''input_tokens_details'');
            output_details = usage_field v (if output0 = JNull then u ''completion_tokens_details'' else u ''output_tokens_details'');
            cached = usage_field input_details (u ''cached_tokens'');
            reasoning = usage_field output_details (u ''reasoning_tokens'')
        in if input = JNull \<and> output = JNull \<and> cached = JNull \<and> reasoning = JNull then Inr None
           else
             rbind (usage_token input) (\<lambda>i.
             rbind (usage_token output) (\<lambda>ou.
             rbind (usage_token cached) (\<lambda>c.
             rbind (usage_token reasoning) (\<lambda>r.
             let x = \<lparr>us_input = i, us_output = ou, us_cached = c, us_reasoning = r\<rparr> in
             case usage_error x of
               Some t \<Rightarrow> Inl (Boundary (u ''provider reported inconsistent token usage''))
             | None \<Rightarrow> Inr (Some x))))))"

section \<open>The adapter to a chat client\<close>

datatype api_type = ChatCompletions | Responses

record native_call =
  nc_id :: pystr
  nc_name :: pystr
  nc_arguments :: "(pystr \<times> json) list option"

datatype llm_reply = ReplyText pystr | ReplyObject "pystr option" "native_call list option" | ReplyOther

record 'w llm_client =
  lc_chat :: "json list \<Rightarrow> json list \<Rightarrow> ('w, pystr, llm_reply) act"
  lc_submit :: "(pystr \<times> pystr) list \<Rightarrow> ('w, pystr, llm_reply) act"
  lc_last_usage :: "'w \<Rightarrow> json"

definition adapter_init :: "bool \<Rightarrow> pystr \<Rightarrow> (pychar \<Rightarrow> bool) \<Rightarrow> gateway_error + api_type" where
  "adapter_init native api uni =
     (if \<not> native then Inl (GatewayValue (u ''worker inference requires native tool support''))
      else if api = u ''chat_completions'' then Inr ChatCompletions
      else if api = u ''responses'' then Inr Responses
      else Inl (GatewayValue (u ''unsupported worker inference API type: '' @ py_repr uni api)))"

definition tool_schema :: "api_type \<Rightarrow> worker_tool_spec \<Rightarrow> json" where
  "tool_schema api t =
     (let function = [(u ''name'', JStr (ts_name t)), (u ''description'', JStr (ts_description t)),
            (u ''parameters'', JObj (ts_input_schema t))]
      in if api = Responses then JObj ((u ''type'', JStr (u ''function'')) # function)
         else JObj [(u ''type'', JStr (u ''function'')), (u ''function'', JObj function)])"

fun role_value :: "inference_role \<Rightarrow> pystr" where
  "role_value RSystem = u ''system''"
| "role_value RUser = u ''user''"
| "role_value RAssistant = u ''assistant''"
| "role_value RTool = u ''tool''"

definition message_json :: "inference_message \<Rightarrow> json" where
  "message_json m = JObj
     ([(u ''role'', JStr (role_value (im_role m))), (u ''content'', JStr (im_content m))] @
      (if im_tool_calls m = [] then []
       else [(u ''tool_calls'', JArr (map (\<lambda>c. JObj [(u ''id'', JStr (ic_call_id c)), (u ''type'', JStr (u ''function'')),
              (u ''function'', JObj [(u ''name'', JStr (ic_name c)),
                 (u ''arguments'', JStr (sorted_dumps (JObj (ic_arguments c))))])]) (im_tool_calls m)))]) @
      (case im_tool_call_id m of None \<Rightarrow> [] | Some i \<Rightarrow> [(u ''tool_call_id'', JStr i)]))"

text \<open>The tool results at the end of the transcript, in order.\<close>

definition trailing_results :: "inference_message list \<Rightarrow> (pystr \<times> pystr) list" where
  "trailing_results ms = map (\<lambda>m. (case im_tool_call_id m of None \<Rightarrow> [] | Some i \<Rightarrow> i, im_content m))
     (rev (takeWhile (\<lambda>m. im_role m = RTool) (rev ms)))"

definition reply_response :: "llm_reply \<Rightarrow> inference_usage option \<Rightarrow> gateway_error + inference_response" where
  "reply_response reply x = (case reply of
     ReplyText t \<Rightarrow> Inr \<lparr>rs_content = t, rs_tool_calls = [], rs_usage = x\<rparr>
   | ReplyObject content calls \<Rightarrow> Inr \<lparr>rs_content = (case content of None \<Rightarrow> [] | Some t \<Rightarrow> t),
       rs_tool_calls = map (\<lambda>c. \<lparr>ic_call_id = nc_id c, ic_name = nc_name c,
          ic_arguments = (case nc_arguments c of None \<Rightarrow> [] | Some a \<Rightarrow> a)\<rparr>) (case calls of None \<Rightarrow> [] | Some cs \<Rightarrow> cs),
       rs_usage = x\<rparr>
   | ReplyOther \<Rightarrow> Inl (Boundary (u ''LLM client returned an unsupported response'')))"

definition adapter_infer ::
  "'w llm_client \<Rightarrow> api_type \<Rightarrow> inference_message list \<Rightarrow> worker_tool_spec list \<Rightarrow> ('w, gateway_error, inference_response) act" where
  "adapter_infer client api ms tools = (\<lambda>w.
     case (if api = Responses \<and> ms \<noteq> [] \<and> im_role (last ms) = RTool then lc_submit client (trailing_results ms)
           else lc_chat client (map message_json ms) (map (tool_schema api) tools)) w of
       (w', Inl e) \<Rightarrow> (w', Inl (ModelRaised e))
     | (w', Inr reply) \<Rightarrow> (w', rbind (openai_usage (lc_last_usage client w')) (reply_response reply)))"

section \<open>Inversion of the checks\<close>

lemma deny_Inr [simp]: "deny b t = Inr x \<longleftrightarrow> \<not> b"
  by (simp add: deny_def)

lemma rbind_deny [simp]: "rbind (deny b t) f = Inr y \<longleftrightarrow> \<not> b \<and> f () = Inr y"
  by (simp add: deny_def)

lemma lift_check_Inr: "lift_check r g = (g', Inr x) \<longleftrightarrow> g' = g \<and> r = Inr x"
  by (auto simp: lift_check_def split: sum.splits)

lemma lift_check_state [simp]: "fst (lift_check r g) = g"
  by (simp add: lift_check_def split: sum.splits)

lemma session_authorizes_Inr:
  "session_authorizes now s req = Inr y \<longleftrightarrow> now < in_expires_at s \<and> ir_job_id req = in_job_id s \<and>
     ir_worker_profile req = in_worker_profile s \<and> in_requests s < il_max_requests (in_limits s)"
  by (auto simp: session_authorizes_def)

lemma encoded_size_Inr: "encoded_size s = Inr n \<Longrightarrow> n = utf8_len s"
  by (auto simp: encoded_size_def split: option.splits dest: length_utf8_encode)

lemma map_sum_Inr: "map_sum f id r = Inr x \<longleftrightarrow> r = Inr x"
  by (cases r) simp_all

lemma validate_calls_count: "validate_calls uni allowed dup known n calls = Inr (known', amount) \<Longrightarrow> n \<le> amount"
  by (induction calls arbitrary: known n) (fastforce simp: rbind_Inr_iff)+

lemma validate_messages_size:
  "validate_messages uni l allowed known n ms = Inr amount \<Longrightarrow> n + sum_list (map (utf8_len \<circ> im_content) ms) \<le> amount"
proof (induction ms arbitrary: known n)
  case (Cons m ms)
  from Cons.prems obtain k known' n' where k: "encoded_size (im_content m) = Inr k" and n': "n + k \<le> n'"
    and r: "validate_messages uni l allowed known' n' ms = Inr amount"
    by (auto simp: rbind_Inr_iff split: if_splits dest: validate_calls_count)
  from Cons.IH [OF r] n' encoded_size_Inr [OF k] show ?case by simp
qed simp

lemma admit_Inr:
  "admit uni now token req g = (g', Inr x) \<longleftrightarrow>
     map_of (gw_sessions g) token = Some x \<and> session_authorizes now x req = Inr () \<and> validate_request uni x req = Inr () \<and>
     g' = g\<lparr>gw_sessions := dput token (x\<lparr>in_requests := in_requests x + 1\<rparr>) (gw_sessions g)\<rparr>"
  by (auto simp: admit_def abind_Inr_iff lift_check_Inr split: option.splits)

lemma admit_Inl: "admit uni now token req g = (g', Inl e) \<Longrightarrow> g' = g"
  by (auto simp: admit_def abind_def lift_check_def split: option.splits sum.splits)

lemma infer_cases:
  assumes "gw_infer ops uni now token req g = (g', r)"
  obtains (refused) e where "admit uni now token req g = (g, Inl e)" "g' = g" "r = Inl e"
  | (asked) g1 x w reply where "admit uni now token req g = (g1, Inr x)"
      "mo_infer ops (in_model x) (ir_messages req) (ir_tools req) (gw_world g) = (w, reply)"
      "g' = g1\<lparr>gw_world := w\<rparr>" "r = (case reply of Inl t \<Rightarrow> Inl (ModelRaised t) | Inr y \<Rightarrow> validate_response uni x y)"
proof -
  obtain g1 q where a: "admit uni now token req g = (g1, q)" by (cases "admit uni now token req g")
  show thesis
  proof (cases q)
    case (Inl e)
    with a admit_Inl have "g1 = g" by blast
    with a Inl assms show ?thesis by (intro refused) (auto simp: gw_infer_def abind_eq)
  next
    case (Inr x)
    with a have w: "gw_world g1 = gw_world g" by (auto simp: admit_Inr)
    obtain w reply where m: "mo_infer ops (in_model x) (ir_messages req) (ir_tools req) (gw_world g) = (w, reply)"
      by (cases "mo_infer ops (in_model x) (ir_messages req) (ir_tools req) (gw_world g)")
    with a Inr assms w show ?thesis
      by (intro asked [OF a [unfolded Inr] m])
        (auto simp: gw_infer_def abind_def on_world_def lift_check_def split: sum.splits)
  qed
qed

section \<open>Sizes of sorted objects\<close>

lemma length_members: "length (dumps_spaced_members ms) =
    sum_list (map (\<lambda>(k, j). length (print_str True k) + 2 + length (dumps_spaced j)) ms) + 2 * (length ms - 1)"
  by (induction ms rule: induct_list012) auto

lemma length_elements: "length (dumps_spaced_list js) = sum_list (map (length \<circ> dumps_spaced) js) + 2 * (length js - 1)"
  by (induction js rule: induct_list012) auto

lemma sum_list_sort_key: "sum_list (map f (sort_key k xs)) = (sum_list (map f xs) :: nat)"
  by (metis mset_map mset_sort sum_mset_sum_list)

lemma length_sorted_dumps [simp]: "length (sorted_dumps j) = length (dumps_spaced j)"
  unfolding sorted_dumps_def
proof (induction j rule: sort_keys.induct)
  case (1 js)
  then have "sum_list (map (length \<circ> dumps_spaced \<circ> sort_keys) js) = sum_list (map (length \<circ> dumps_spaced) js)"
    by (intro arg_cong [where f = sum_list] map_cong) auto
  then show ?case by (simp add: length_elements comp_assoc)
next
  case (2 ms)
  let ?f = "\<lambda>(k, j). length (print_str True k) + 2 + length (dumps_spaced j)"
  have "sum_list (map (?f \<circ> (\<lambda>(k, j). (k, sort_keys j))) ms) = sum_list (map ?f ms)"
    using 2 by (intro arg_cong [where f = sum_list] map_cong) auto
  then show ?case by (simp add: length_members sum_list_sort_key)
qed simp_all

text \<open>Calls the gateway accepts are calls the executor accepts, if their numbers are finite.\<close>

lemma validate_calls_acceptable:
  assumes "validate_calls uni allowed dup known n calls = Inr z"
    and "\<forall>c \<in> set calls. all_finite (JObj (ic_arguments c))"
  shows "valid_calls allowed [] known calls"
  using assms
proof (induction calls arbitrary: known n)
  case (Cons call calls)
  from Cons.prems(1) obtain k where "validate_tool_call uni allowed call = Inr ()" and "ic_call_id call \<notin> set known"
    and r: "validate_calls uni allowed dup (ic_call_id call # known) (n + k) calls = Inr z"
    by (auto simp: rbind_Inr_iff)
  with Cons.prems(2) have "call_acceptable allowed known call"
    by (auto simp: validate_tool_call_def call_acceptable_def max_call_argument_bytes_def)
  with Cons.IH [OF r] Cons.prems(2) show ?case by simp
qed simp

lemma validate_response_Inr:
  assumes "validate_response uni s reply = Inr r"
  obtains allowed known amount where "reply = Some r" "worker_tool_names uni (in_worker_profile s) = Inr allowed"
    "validate_calls uni allowed (u ''duplicate response tool call ID'') [] (utf8_len (rs_content r)) (rs_tool_calls r) = Inr (known, amount)"
    "int (length (rs_tool_calls r)) \<le> il_max_tool_calls (in_limits s)" "int amount \<le> il_max_output_bytes (in_limits s)"
    "strip (rs_content r) \<noteq> [] \<or> rs_tool_calls r \<noteq> []"
proof (cases reply)
  case (Some y)
  with assms obtain n allowed z where n: "encoded_size (rs_content y) = Inr n"
    and w: "worker_tool_names uni (in_worker_profile s) = Inr allowed"
    and z: "validate_calls uni allowed (u ''duplicate response tool call ID'') [] n (rs_tool_calls y) = Inr z"
    and lim: "\<not> il_max_tool_calls (in_limits s) < int (length (rs_tool_calls y))"
    and rest: "(case z of (known, amount) \<Rightarrow>
       rbind (deny (il_max_output_bytes (in_limits s) < int amount) (u ''inference output exceeds the session limit'')) (\<lambda>_.
       rbind (deny (strip (rs_content y) = [] \<and> rs_tool_calls y = []) (u ''inference model returned an empty response'')) (\<lambda>_.
       Inr y))) = Inr r"
    unfolding validate_response_def Some option.case by (auto simp: rbind_Inr_iff [of "encoded_size (rs_content y)"]
      rbind_Inr_iff [of "map_sum GatewayPolicy id (worker_tool_names uni (in_worker_profile s))"] map_sum_Inr
      rbind_Inr_iff [of "validate_calls uni a dup [] n (rs_tool_calls y)" for a dup n] simp del: rbind_Inr_iff)
  obtain known amount where k: "z = (known, amount)" by (cases z)
  from rest k have "y = r" "\<not> il_max_output_bytes (in_limits s) < int amount" "strip (rs_content y) \<noteq> [] \<or> rs_tool_calls y \<noteq> []"
    by auto
  with that [of allowed known amount] Some w z k lim encoded_size_Inr [OF n] show ?thesis by simp
qed (use assms in \<open>simp add: validate_response_def\<close>)

section \<open>Sequences of calls\<close>

datatype gateway_call =
    GCreate pystr int pystr pystr pystr "inference_limits option"
  | GAuthorize "bound_client option" pystr pystr pystr
  | GInfer int pystr inference_request
  | GClose "bound_client option"
  | GCancel "bound_client option"

fun gateway_step ::
  "('w, 'm) model_ops \<Rightarrow> (pychar \<Rightarrow> bool) \<Rightarrow> nat \<Rightarrow> gateway_call \<Rightarrow> ('w, 'm) gateway \<Rightarrow> ('w, 'm) gateway" where
  "gateway_step ops uni self (GCreate token now job profile model l) g = fst (create_client self uni token now job profile model l g)"
| "gateway_step ops uni self (GAuthorize c job profile model) g = fst (authorize_client self c job profile model g)"
| "gateway_step ops uni self (GInfer now token req) g = fst (gw_infer ops uni now token req g)"
| "gateway_step ops uni self (GClose c) g = fst (close_client ops self c g)"
| "gateway_step ops uni self (GCancel c) g = fst (cancel_client ops self c g)"

text \<open>Whether a call asks the model of the session \<open>token\<close>.\<close>

fun asks_model :: "(pychar \<Rightarrow> bool) \<Rightarrow> pystr \<Rightarrow> gateway_call \<Rightarrow> ('w, 'm) gateway \<Rightarrow> bool" where
  "asks_model uni token (GInfer now t req) g = (t = token \<and> \<not> isl (snd (admit uni now t req g)))"
| "asks_model uni token c g = False"

fun model_calls ::
  "('w, 'm) model_ops \<Rightarrow> (pychar \<Rightarrow> bool) \<Rightarrow> nat \<Rightarrow> pystr \<Rightarrow> gateway_call list \<Rightarrow> ('w, 'm) gateway \<Rightarrow> nat" where
  "model_calls ops uni self token [] g = 0"
| "model_calls ops uni self token (c # cs) g =
     (if asks_model uni token c g then 1 else 0) + model_calls ops uni self token cs (gateway_step ops uni self c g)"

fun creates :: "pystr \<Rightarrow> gateway_call \<Rightarrow> bool" where
  "creates token (GCreate t now job profile model l) = (t = token)"
| "creates token c = False"

text \<open>What is left of a session's requests.\<close>

definition request_budget :: "pystr \<Rightarrow> ('w, 'm) gateway \<Rightarrow> int" where
  "request_budget token g = (case map_of (gw_sessions g) token of None \<Rightarrow> 0
     | Some x \<Rightarrow> il_max_requests (in_limits x) - in_requests x)"

lemma map_of_drop: "map_of (filter (\<lambda>(k, v). k \<noteq> t) d) i = (if i = t then None else map_of d i)"
  by (induction d) auto

lemma pop_then:
  "gw_sessions (fst (abind (pop_session t) (\<lambda>s. case s of None \<Rightarrow> ret () | Some x \<Rightarrow> f x) g)) = filter (\<lambda>(k, s). k \<noteq> t) (gw_sessions g)"
  if "\<And>x g. gw_sessions (fst (f x g)) = gw_sessions g"
  using that by (auto simp: abind_def pop_session_def ret_def split: option.splits)

lemma sessions_on_world [simp]: "gw_sessions (fst (on_world m g)) = gw_sessions g"
  by (simp add: on_world_def split: prod.splits)

lemma close_sessions:
  "gw_sessions (fst (close_client ops self client g)) =
     (case owned self client of Inl e \<Rightarrow> gw_sessions g | Inr c \<Rightarrow> filter (\<lambda>(k, s). k \<noteq> bc_token c) (gw_sessions g))"
proof (cases "owned self client")
  case (Inr c)
  have "close_client ops self client g = abind (pop_session (bc_token c)) (\<lambda>s. case s of None \<Rightarrow> ret ()
      | Some x \<Rightarrow> (case mo_close ops (in_model x) of None \<Rightarrow> ret () | Some close \<Rightarrow> on_world close)) g"
    using Inr by (simp add: close_client_def lift_check_def)
  then show ?thesis using Inr by (simp only:) (subst pop_then, auto split: option.split)
qed (simp add: close_client_def lift_check_def)

lemma cancel_sessions:
  "gw_sessions (fst (cancel_client ops self client g)) =
     (case owned self client of Inl e \<Rightarrow> gw_sessions g | Inr c \<Rightarrow> filter (\<lambda>(k, s). k \<noteq> bc_token c) (gw_sessions g))"
proof (cases "owned self client")
  case (Inr c)
  have "cancel_client ops self client g = abind (pop_session (bc_token c)) (\<lambda>s. case s of None \<Rightarrow> ret ()
      | Some x \<Rightarrow> (case mo_cancel ops (in_model x) of
          None \<Rightarrow> throw (Boundary (u ''inference model has no hard cancellation capability'')) | Some cancel \<Rightarrow> on_world cancel)) g"
    using Inr by (simp add: cancel_client_def lift_check_def)
  then show ?thesis using Inr by (simp only:) (subst pop_then, auto split: option.split)
qed (simp add: cancel_client_def lift_check_def)

lemma create_sessions:
  "t \<noteq> token \<Longrightarrow> map_of (gw_sessions (fst (create_client self uni t now job profile model l g))) token = map_of (gw_sessions g) token"
  by (auto simp: create_client_def abind_def guard_def lift_check_def on_world_def Let_def
      split: option.splits sum.splits prod.splits)

lemma infer_budget:
  "request_budget token (fst (gw_infer ops uni now t req g)) =
     request_budget token g - (if t = token \<and> \<not> isl (snd (admit uni now t req g)) then 1 else 0)"
proof -
  obtain g' r where i: "gw_infer ops uni now t req g = (g', r)" by (cases "gw_infer ops uni now t req g")
  from i show ?thesis
  proof (cases rule: infer_cases)
    case (refused e)
    then show ?thesis by (simp add: i)
  next
    case (asked g1 x w reply)
    from asked(1) have "map_of (gw_sessions g) t = Some x"
      "gw_sessions g' = dput t (x\<lparr>in_requests := in_requests x + 1\<rparr>) (gw_sessions g)"
      using asked(3) by (auto simp: admit_Inr)
    with i asked(1) show ?thesis by (auto simp: request_budget_def)
  qed
qed

lemma step_budget:
  assumes "\<not> creates token c"
  shows "request_budget token (gateway_step ops uni self c g) \<le> max 0 (request_budget token g) \<and>
     (asks_model uni token c g \<longrightarrow> 0 < request_budget token g \<and>
        request_budget token (gateway_step ops uni self c g) = request_budget token g - 1)"
proof (cases c)
  case (GCreate t now job profile model l)
  with assms create_sessions [of t token self uni now job profile model l g] show ?thesis
    by (simp add: request_budget_def max_def)
next
  case (GAuthorize client job profile model)
  have "fst (authorize_client self client job profile model g) = g"
    by (auto simp: authorize_client_def abind_def lift_check_def guard_def split: sum.splits)
  with GAuthorize show ?thesis by simp
next
  case (GInfer now t req)
  have "0 < request_budget t g" if "\<not> isl (snd (admit uni now t req g))"
  proof -
    obtain g1 q where a: "admit uni now t req g = (g1, q)" by (cases "admit uni now t req g")
    with that obtain x where "q = Inr x" by (cases q) auto
    with a have "admit uni now t req g = (g1, Inr x)" by simp
    then show ?thesis by (auto simp: admit_Inr session_authorizes_Inr request_budget_def)
  qed
  with GInfer infer_budget [of token ops uni now t req g] show ?thesis by auto
next
  case (GClose client)
  then show ?thesis by (auto simp: request_budget_def close_sessions map_of_drop split: sum.split option.split)
next
  case (GCancel client)
  then show ?thesis by (auto simp: request_budget_def cancel_sessions map_of_drop split: sum.split option.split)
qed

lemma model_calls_budget:
  "\<forall>c \<in> set cs. \<not> creates token c \<Longrightarrow> int (model_calls ops uni self token cs g) \<le> max 0 (request_budget token g)"
proof (induction cs arbitrary: g)
  case (Cons c cs)
  then have "int (model_calls ops uni self token cs (gateway_step ops uni self c g)) \<le>
      max 0 (request_budget token (gateway_step ops uni self c g))" by simp
  with step_budget [of token c ops uni self g] Cons.prems show ?case by auto
qed simp

section \<open>Properties\<close>


text \<open>
  Between the creation of a session and the end of its life its model is asked at most
  \<open>max_requests\<close> times, whatever calls are made in between; once its client was closed or cancelled
  (even if closing raised), it is never asked again.
\<close>

theorem session_request_limit:
  assumes "\<forall>c \<in> set cs. \<not> creates token c"
  shows "int (model_calls ops uni self token cs g) \<le> max 0 (request_budget token g) \<and>
    (end_call \<in> {GClose (Some \<lparr>bc_gateway = self, bc_token = token\<rparr>), GCancel (Some \<lparr>bc_gateway = self, bc_token = token\<rparr>)} \<longrightarrow>
       model_calls ops uni self token cs (gateway_step ops uni self end_call g) = 0)"
proof
  show "int (model_calls ops uni self token cs g) \<le> max 0 (request_budget token g)" using assms by (rule model_calls_budget)
  have "request_budget token (gateway_step ops uni self end_call g) = 0"
    if "end_call \<in> {GClose (Some \<lparr>bc_gateway = self, bc_token = token\<rparr>), GCancel (Some \<lparr>bc_gateway = self, bc_token = token\<rparr>)}"
    using that by (auto simp: request_budget_def close_sessions cancel_sessions owned_def map_of_drop)
  with model_calls_budget [OF assms, of ops uni self "gateway_step ops uni self end_call g"]
  show "end_call \<in> {GClose (Some \<lparr>bc_gateway = self, bc_token = token\<rparr>), GCancel (Some \<lparr>bc_gateway = self, bc_token = token\<rparr>)} \<longrightarrow>
       model_calls ops uni self token cs (gateway_step ops uni self end_call g) = 0" by auto
qed

text \<open>
  C36: the two checks of a model's answer agree: a response the gateway lets through has only tools
  of the session's profile, distinct well-formed call identifiers and bounded arguments, so the
  executor's own check accepts it on a fresh conversation, provided its numbers are finite (the
  gateway accepts \<open>NaN\<close>, the executor does not).
\<close>

theorem gateway_response_passes_executor:
  assumes "gw_infer ops uni now token req g = (g', Inr y)" and "\<forall>c \<in> set (rs_tool_calls y). all_finite (JObj (ic_arguments c))"
  shows "valid_calls (map ts_name (ir_tools req)) [] [] (rs_tool_calls y)"
  using assms(1)
proof (cases rule: infer_cases)
  case (asked g1 x w reply)
  then have v: "validate_request uni x req = Inr ()" by (simp add: admit_Inr)
  from asked(4) obtain z where "validate_response uni x z = Inr y" by (cases reply) auto
  then show ?thesis
  proof (cases rule: validate_response_Inr)
    case (1 allowed known amount)
    from v 1(2) have "allowed = map ts_name (ir_tools req)"
      by (auto simp: validate_request_def Let_def rbind_Inr_iff map_sum_Inr)
    with validate_calls_acceptable [OF 1(3) assms(2)] show ?thesis by simp
  qed
qed simp

section \<open>A concrete session\<close>

definition gw_limits :: inference_limits where
  "gw_limits = default_inference_limits\<lparr>il_max_requests := 2\<rparr>"

definition gw_session :: "unit inference_session" where
  "gw_session = \<lparr>in_job_id = u ''j1'', in_worker_profile = u ''read-only-worker'', in_model_id = u ''m'', in_model = (),
     in_limits = gw_limits, in_expires_at = 100, in_requests = 1\<rparr>"

definition gw_state :: "(nat, unit) gateway" where
  "gw_state = \<lparr>gw_models = [], gw_sessions = [(u ''tok'', gw_session)], gw_world = 0\<rparr>"

definition gw_answer :: inference_response where
  "gw_answer = \<lparr>rs_content = u ''look'', rs_tool_calls = [\<lparr>ic_call_id = u ''c1'', ic_name = LIST_FILES_TOOL, ic_arguments = []\<rparr>], rs_usage = None\<rparr>"

definition gw_ops :: "(nat, unit) model_ops" where
  "gw_ops = \<lparr>mo_infer = (\<lambda>m ms ts w. (w + 1, Inr (Some gw_answer))), mo_close = (\<lambda>m. None), mo_cancel = (\<lambda>m. None)\<rparr>"

definition gw_request :: inference_request where
  "gw_request = \<lparr>ir_job_id = u ''j1'', ir_worker_profile = u ''read-only-worker'', ir_messages = [plain_message RUser (u ''go'')],
     ir_tools = map (\<lambda>n. \<lparr>ts_name = n, ts_description = [], ts_input_schema = []\<rparr>)
       (case worker_tool_names (\<lambda>c. True) (u ''read-only-worker'') of Inr ns \<Rightarrow> ns | Inl e \<Rightarrow> [])\<rparr>"

lemma gw_demo: "\<exists>g'. gw_infer gw_ops (\<lambda>c. True) 5 (u ''tok'') gw_request gw_state = (g', Inr gw_answer)"
proof -
  have "snd (gw_infer gw_ops (\<lambda>c. True) 5 (u ''tok'') gw_request gw_state) = Inr gw_answer" by code_simp
  then show ?thesis by (metis prod.collapse)
qed


lemma session_request_limit_witness:
  "int (model_calls gw_ops (\<lambda>c. True) 0 (u ''tok'') [GInfer 5 (u ''tok'') gw_request, GInfer 6 (u ''tok'') gw_request] gw_state) \<le> 1"
proof -
  have "request_budget (u ''tok'') gw_state = 1" by code_simp
  then show ?thesis
    using session_request_limit [of "[GInfer 5 (u ''tok'') gw_request, GInfer 6 (u ''tok'') gw_request]" "u ''tok''" gw_ops "\<lambda>c. True" 0 gw_state]
    by simp
qed

lemma gateway_response_passes_executor_witness:
  "valid_calls (map ts_name (ir_tools gw_request)) [] [] (rs_tool_calls gw_answer)"
proof -
  obtain g' where "gw_infer gw_ops (\<lambda>c. True) 5 (u ''tok'') gw_request gw_state = (g', Inr gw_answer)" using gw_demo by blast
  then show ?thesis by (rule gateway_response_passes_executor) (simp add: gw_answer_def)
qed

end
