(* ===== verification/JobExecution.thy ===== *)
theory JobExecution
  imports Gateway ToolSession
begin

text \<open>
  \<open>night_shifts/job_execution.py\<close>: the executor's loop over a gateway client and a tool session, in one
  state: the gateway, the session and the rest of the host (clocks, cancellation, the event sink).  The
  loop's calls run \<open>gw_infer\<close> and \<open>session_invoke\<close> of their own components.
\<close>

section \<open>State\<close>

record ('g, 'm, 't, 'x) host_job =
  hj_gateway :: "('g, 'm) gateway"
  hj_tools :: "'t session"
  hj_world :: 'x

text \<open>What the host supplies; \<open>jh_error\<close> is \<open>str\<close> of a gateway error, \<open>jh_now\<close> the wall clock it reads.\<close>

record ('g, 'm, 't, 'x) job_host =
  jh_ops :: "('g, 'm) model_ops"
  jh_transport :: "'t transport"
  jh_texts :: text_env
  jh_error :: "gateway_error \<Rightarrow> pystr"
  jh_self :: nat
  jh_now :: "'x \<Rightarrow> 'x \<times> int"
  jh_monotonic :: "'x \<Rightarrow> 'x \<times> int"
  jh_cancelled :: "('x, pystr, bool) act"
  jh_emit :: "pystr \<Rightarrow> (pystr \<times> json) list \<Rightarrow> ('x, pystr, unit) act"

type_synonym ('g, 'm, 't, 'x, 'a) job_act = "(('g, 'm, 't, 'x) host_job, pystr, 'a) act"

definition on_host :: "('x, pystr, 'a) act \<Rightarrow> ('g, 'm, 't, 'x, 'a) job_act" where
  "on_host m = (\<lambda>j. case m (hj_world j) of (x, r) \<Rightarrow> (j\<lparr>hj_world := x\<rparr>, r))"

definition on_gateway :: "('g, 'm, 't, 'x) job_host \<Rightarrow> ('g, 'm, 'a) gateway_act \<Rightarrow> ('g, 'm, 't, 'x, 'a) job_act" where
  "on_gateway host m = (\<lambda>j. case m (hj_gateway j) of (g, r) \<Rightarrow> (j\<lparr>hj_gateway := g\<rparr>, map_sum (jh_error host) id r))"

definition host_clock :: "('x \<Rightarrow> 'x \<times> int) \<Rightarrow> ('x, pystr, int) act" where
  "host_clock f = (\<lambda>x. case f x of (x', t) \<Rightarrow> (x', Inr t))"

text \<open>\<open>BoundInferenceClient.infer\<close> and \<open>_ModelTools.invoke\<close>.\<close>

definition client_infer ::
  "('g, 'm, 't, 'x) job_host \<Rightarrow> pystr \<Rightarrow> inference_request \<Rightarrow> ('g, 'm, 't, 'x, inference_response option) job_act" where
  "client_infer host token req =
     abind (on_host (host_clock (jh_now host))) (\<lambda>now.
     abind (on_gateway host (gw_infer (jh_ops host) (te_printable (jh_texts host)) now token req)) (\<lambda>r. ret (Some r)))"

definition tools_invoke ::
  "('g, 'm, 't, 'x) job_host \<Rightarrow> worker_tool_call \<Rightarrow> ('g, 'm, 't, 'x, worker_tool_result option) job_act" where
  "tools_invoke host call = (\<lambda>j. case session_invoke (jh_transport host) (jh_texts host) False call (hj_tools j) of
     (s, r) \<Rightarrow> (j\<lparr>hj_tools := s\<rparr>, map_sum exn_text Some r))"

definition job_env ::
  "('g, 'm, 't, 'x) job_host \<Rightarrow> pystr \<Rightarrow> worker_tool_spec list \<Rightarrow> executor_limits \<Rightarrow> int \<Rightarrow> ('g, 'm, 't, 'x) host_job exec_env" where
  "job_env host token tools limits deadline = \<lparr>
     env_infer = client_infer host token,
     env_invoke = tools_invoke host,
     env_emit = (\<lambda>k p. on_host (jh_emit host k p)),
     env_tools = tools,
     env_control = Some \<lparr>ctl_deadline = deadline, ctl_cancelled = on_host (jh_cancelled host),
       ctl_monotonic = on_host (host_clock (jh_monotonic host))\<rparr>,
     env_limits = limits\<rparr>"

section \<open>A run\<close>

definition identities_agree :: "execution_policy \<Rightarrow> 't session \<Rightarrow> worker_task \<Rightarrow> bool" where
  "identities_agree p s task \<longleftrightarrow>
     ep_job_id p = se_job_id s \<and> ep_worker_profile p = se_profile s \<and> tk_job_id task = ep_job_id p \<and>
     tk_worker_profile task = ep_worker_profile p \<and> tk_repository_id task = Some (ep_repository_id p) \<and>
     tk_starting_revision task = Some (ep_base_revision p)"

definition authorized_execution ::
  "('g, 'm, 't, 'x) job_host \<Rightarrow> execution_policy \<Rightarrow> bound_client option \<Rightarrow> int \<Rightarrow> worker_task \<Rightarrow> ('g, 'm, 't, 'x, worker_result) job_act" where
  "authorized_execution host p client deadline task =
     abind (on_gateway host (authorize_client (jh_self host) client (ep_job_id p) (ep_worker_profile p) (ep_model_id p))) (\<lambda>_.
     case executor_limits_of p of
       Inl e \<Rightarrow> throw (policy_text (jh_texts host) e)
     | Inr limits \<Rightarrow>
         abind (reads (\<lambda>j. se_tools (hj_tools j))) (\<lambda>tools.
         execute (job_env host (case client of None \<Rightarrow> [] | Some c \<Rightarrow> bc_token c) tools limits deadline) task))"

text \<open>The body of the \<open>try\<close>; the deadline is \<open>None\<close> when it is no finite number.\<close>

definition job_body ::
  "('g, 'm, 't, 'x) job_host \<Rightarrow> execution_policy \<Rightarrow> bound_client option \<Rightarrow> int option \<Rightarrow> worker_task \<Rightarrow> ('g, 'm, 't, 'x, worker_result) job_act" where
  "job_body host p client deadline task = (case deadline of
     None \<Rightarrow> ret (plain_result (ep_job_id p) WO_FAILED (u ''Worker deadline is invalid.'') (Some (u ''invalid monotonic job deadline'')))
   | Some d \<Rightarrow>
       abind (reads hj_tools) (\<lambda>s.
       if \<not> identities_agree p s task then
         ret (plain_result (ep_job_id p) WO_FAILED (u ''Worker task did not match its approved job policy.'')
           (Some (u ''task or sandbox identity does not match frozen worker policy'')))
       else if d < se_deadline s \<or> max_command_seconds (ep_budget p) < se_max_command s then
         ret (plain_result (ep_job_id p) WO_FAILED (u ''Sandbox tool session exceeds the approved job policy.'')
           (Some (u ''sandbox tool deadline or command limit exceeds job policy'')))
       else authorized_execution host p client d task))"

text \<open>\<open>try: cancelled = self._cancel() except Exception: cancelled = False\<close>\<close>

definition cancel_wanted :: "('g, 'm, 't, 'x) job_host \<Rightarrow> ('g, 'm, 't, 'x) host_job \<Rightarrow> ('g, 'm, 't, 'x) host_job \<times> bool" where
  "cancel_wanted host j = (case on_host (jh_cancelled host) j of (j', Inr b) \<Rightarrow> (j', b) | (j', Inl e) \<Rightarrow> (j', False))"

definition after_exception ::
  "('g, 'm, 't, 'x) job_host \<Rightarrow> execution_policy \<Rightarrow> int option \<Rightarrow> ('g, 'm, 't, 'x) host_job \<Rightarrow> ('g, 'm, 't, 'x) host_job \<times> worker_result" where
  "after_exception host p deadline j = (case cancel_wanted host j of (j1, cancelled) \<Rightarrow>
     let answer = (\<lambda>oc. plain_result (ep_job_id p) oc (u ''Worker stopped without a verified submission.'')
           (Some (u ''Worker execution or event reporting failed'')))
     in if cancelled then (j1, answer WO_CANCELLED)
        else (case jh_monotonic host (hj_world j1) of (x, now) \<Rightarrow>
          (j1\<lparr>hj_world := x\<rparr>, answer (if (case deadline of None \<Rightarrow> False | Some d \<Rightarrow> d \<le> now) then WO_TIMED_OUT else WO_FAILED))))"

text \<open>Both cleanups are attempted, in this order.\<close>

definition release ::
  "('g, 'm, 't, 'x) job_host \<Rightarrow> bound_client option \<Rightarrow> ('g, 'm, 't, 'x) host_job \<Rightarrow> ('g, 'm, 't, 'x) host_job \<times> pystr list" where
  "release host client j =
     (case session_cancel (jh_transport host) (hj_tools j) of (s, r1) \<Rightarrow>
      case close_client (jh_ops host) (jh_self host) client (hj_gateway j) of (g, r2) \<Rightarrow>
        (j\<lparr>hj_tools := s, hj_gateway := g\<rparr>,
         (if isl r1 then [u ''tool session cleanup failed''] else []) @
         (if isl r2 then [u ''inference child cleanup failed''] else [])))"

definition with_usage :: "worker_result \<Rightarrow> worker_result" where
  "with_usage r =
     (if wr_outcome r \<notin> {WO_SUBMITTED, WO_BLOCKED} \<and> u ''usage'' \<notin> fst ` set (wr_metrics r)
      then r\<lparr>wr_metrics := wr_metrics r @ [(u ''usage'', JObj [(u ''unknown'', JBool True)])]\<rparr> else r)"

definition settle ::
  "('g, 'm, 't, 'x) job_host \<Rightarrow> pystr list \<Rightarrow> worker_result \<Rightarrow> ('g, 'm, 't, 'x) host_job \<Rightarrow> ('g, 'm, 't, 'x) host_job \<times> worker_result" where
  "settle host errors r j =
     (if errors \<noteq> [] then
        (j, r\<lparr>wr_outcome := WO_FAILED, wr_error := Some (join (u ''; '') errors), wr_cleanup_status := CL_FAILED\<rparr>)
      else if wr_outcome r = WO_SUBMITTED then
        (case cancel_wanted host j of (j', cancelled) \<Rightarrow> (j', if cancelled then r\<lparr>wr_outcome := WO_CANCELLED\<rparr> else r))
      else (j, r))"

definition host_job_run ::
  "('g, 'm, 't, 'x) job_host \<Rightarrow> execution_policy \<Rightarrow> bound_client option \<Rightarrow> int option \<Rightarrow> worker_task \<Rightarrow>
   ('g, 'm, 't, 'x) host_job \<Rightarrow> ('g, 'm, 't, 'x) host_job \<times> worker_result" where
  "host_job_run host p client deadline task j =
     (case (case job_body host p client deadline task j of
             (j1, Inr r) \<Rightarrow> (j1, r)
           | (j1, Inl e) \<Rightarrow> after_exception host p deadline j1) of (j2, r) \<Rightarrow>
      case release host client j2 of (j3, errors) \<Rightarrow>
      case settle host errors r j3 of (j4, r') \<Rightarrow> (j4, with_usage r'))"

section \<open>What the loop may change\<close>

text \<open>An invariant of the loop's foreign calls is one of the loop.\<close>

lemma keeps_go: "transp R \<Longrightarrow> reflp R \<Longrightarrow> keeps R m \<Longrightarrow> (\<And>x. keeps R (f x)) \<Longrightarrow> keeps R (go m f)"
  unfolding go_def by (rule keeps_abind) (auto intro: keeps_pure split: sum.split)

lemma keeps_effect: "transp R \<Longrightarrow> reflp R \<Longrightarrow> keeps R m \<Longrightarrow> keeps R (effect m)"
  unfolding effect_def by (rule keeps_abind) (auto intro: keeps_pure)

locale loop_invariant =
  fixes R :: "'w \<Rightarrow> 'w \<Rightarrow> bool" and env :: "'w exec_env"
  assumes order: "transp R" "reflp R"
    and infer: "keeps R (env_infer env req)"
    and invoke: "keeps R (env_invoke env call)"
    and emit: "keeps R (env_emit env k p)"
    and control: "env_control env = Some c \<Longrightarrow> keeps R (ctl_cancelled c) \<and> keeps R (ctl_monotonic c)"
begin

lemma abort: "keeps R (exec_abort env task)"
  using order control
  by (cases "env_control env")
     (auto simp: exec_abort_def stop_outcome_def intro!: keeps_abind keeps_if keeps_pure)

lemma call: "keeps R (run_call env task c st)"
proof -
  have "keeps R (invoke_tool env c)"
    using invoke unfolding keeps_def invoke_tool_def by (auto split: prod.splits sum.splits) (metis fst_conv)+
  moreover have "keeps R (take_result env task c st' r)" for st' r
    using order unfolding take_result_def Let_def
    by (cases r) (auto intro!: keeps_go keeps_effect keeps_if keeps_pure abort emit split: option.split)
  ultimately show ?thesis
    unfolding run_call_def using order by (intro keeps_go keeps_effect abort) auto
qed

lemma calls: "keeps R (run_calls env task cs st)"
  using order by (induction cs arbitrary: st) (auto intro!: keeps_go keeps_pure call)

lemma final: "keeps R (final_result env task n c st)"
  using order by (auto simp: final_result_def Let_def intro!: keeps_if keeps_pure split: option.split)

lemma turn: "keeps R (run_turn env task n st)"
proof -
  have "keeps R (use_response env task n response st')" for response st'
    unfolding use_response_def using order by (intro keeps_go keeps_effect keeps_if keeps_abind keeps_pure emit calls final) auto
  then have "keeps R (take_reply env task n st' reply)" for st' reply
    unfolding take_reply_def using order by (auto intro!: keeps_if keeps_pure split: option.split)
  then show ?thesis
    unfolding run_turn_def using order by (intro keeps_go keeps_effect abort emit infer) auto
qed

lemma run: "keeps R (execute env task)"
proof -
  have "keeps R (run_turns env task turns st)" for turns st
    using order by (induction turns arbitrary: st) (auto intro!: keeps_abind keeps_pure turn split: sum.split)
  then show ?thesis by (simp add: execute_def)
qed

end

text \<open>What the loop of one client may do to the host's state: other sessions stay, its own only counts requests, within its limit.\<close>

definition session_counts :: "'m inference_session option \<Rightarrow> 'm inference_session option \<Rightarrow> bool" where
  "session_counts a b \<longleftrightarrow> (case (a, b) of
     (None, None) \<Rightarrow> True
   | (Some x, Some y) \<Rightarrow> (\<exists>n. y = x\<lparr>in_requests := n\<rparr> \<and> in_requests x \<le> n \<and>
       n \<le> max (in_requests x) (il_max_requests (in_limits x)))
   | _ \<Rightarrow> False)"

definition job_frame :: "pystr \<Rightarrow> ('g, 'm, 't, 'x) host_job \<Rightarrow> ('g, 'm, 't, 'x) host_job \<Rightarrow> bool" where
  "job_frame token j j' \<longleftrightarrow>
     same_config (hj_tools j) (hj_tools j') \<and> (se_closed (hj_tools j) \<longrightarrow> se_closed (hj_tools j')) \<and>
     gw_models (hj_gateway j') = gw_models (hj_gateway j) \<and>
     (\<forall>k. if k = token then session_counts (map_of (gw_sessions (hj_gateway j)) k) (map_of (gw_sessions (hj_gateway j')) k)
          else map_of (gw_sessions (hj_gateway j')) k = map_of (gw_sessions (hj_gateway j)) k)"

lemma session_counts_refl [simp]: "session_counts a a"
  by (cases a) (auto simp: session_counts_def intro: exI [of _ "in_requests (the a)"])

lemma session_counts_trans: "session_counts a b \<Longrightarrow> session_counts b c \<Longrightarrow> session_counts a c"
  by (cases a; cases b; cases c) (force simp: session_counts_def)+

lemma same_config_order [simp]: "same_config s s" "same_config a b \<Longrightarrow> same_config b c \<Longrightarrow> same_config a c"
  by (simp_all add: same_config_def)

lemma job_frame_order [simp]: "transp (job_frame t)" "reflp (job_frame t)"
proof -
  show "transp (job_frame t)"
    by (rule transpI) (auto simp: job_frame_def intro: session_counts_trans same_config_order(2) split: if_splits)
  show "reflp (job_frame t)"
    by (rule reflpI) (simp add: job_frame_def)
qed

lemma frame_session:
  "job_frame t j j' \<Longrightarrow> map_of (gw_sessions (hj_gateway j)) t = Some x \<Longrightarrow>
     \<exists>n. map_of (gw_sessions (hj_gateway j')) t = Some (x\<lparr>in_requests := n\<rparr>)"
  unfolding job_frame_def by (elim conjE allE [of _ t]) (auto simp: session_counts_def split: option.splits)

lemma frame_host: "keeps (job_frame t) (on_host m)"
  by (rule keepsI) (auto simp: on_host_def job_frame_def split: prod.splits)

lemma frame_infer: "keeps (job_frame token) (client_infer host token req)"
proof -
  have "keeps (job_frame token) (on_gateway host (gw_infer ops uni now token req))" for ops uni now
  proof (rule keepsI)
    fix j j' :: "('a, 'b, 'c, 'd) host_job" and r
    assume e: "on_gateway host (gw_infer ops uni now token req) j = (j', r)"
    obtain g q where i: "gw_infer ops uni now token req (hj_gateway j) = (g, q)" by fastforce
    with e have j': "j' = j\<lparr>hj_gateway := g\<rparr>" by (simp add: on_gateway_def)
    from i show "job_frame token j j'"
    proof (cases rule: infer_cases)
      case (asked g1 x w reply)
      then have x: "map_of (gw_sessions (hj_gateway j)) token = Some x" "in_requests x < il_max_requests (in_limits x)"
        "g1 = (hj_gateway j)\<lparr>gw_sessions := dput token (x\<lparr>in_requests := in_requests x + 1\<rparr>) (gw_sessions (hj_gateway j))\<rparr>"
        by (auto simp: admit_Inr session_authorizes_Inr)
      with asked show ?thesis
        by (auto simp: job_frame_def j' map_of_dput session_counts_def intro!: exI [of _ "in_requests x + 1"])
    qed (simp add: job_frame_def j')
  qed
  then show ?thesis
    unfolding client_infer_def by (auto intro!: keeps_abind frame_host keeps_pure)
qed

lemma frame_invoke: "keeps (job_frame token) (tools_invoke host call)"
proof (rule keepsI)
  fix j j' :: "('a, 'b, 'c, 'd) host_job" and r
  assume "tools_invoke host call j = (j', r)"
  then have "j' = j\<lparr>hj_tools := session_run (jh_transport host) (jh_texts host) False (CInvoke call) (hj_tools j)\<rparr>"
    by (auto simp: tools_invoke_def step_of_def split: prod.splits)
  with session_run_advances [of "hj_tools j" "jh_transport host" "jh_texts host" False "CInvoke call"]
  show "job_frame token j j'" by (simp add: job_frame_def session_advances_def)
qed

interpretation job_loop: loop_invariant "job_frame token" "job_env host token tools limits deadline"
  for token host tools limits deadline
  by unfold_locales (auto simp: job_env_def intro: frame_host frame_infer frame_invoke)

section \<open>Every way a run ends\<close>

lemma cancel_wanted_frame: "job_frame t j (fst (cancel_wanted host j)) \<and> hj_gateway (fst (cancel_wanted host j)) = hj_gateway j \<and>
    hj_tools (fst (cancel_wanted host j)) = hj_tools j"
  by (auto simp: cancel_wanted_def on_host_def job_frame_def split: prod.splits sum.splits)

lemma authorize_state: "fst (authorize_client self client job profile model g) = g"
  by (simp add: authorize_client_def abind_def guard_def lift_check_def split: sum.split option.split)

lemma authorize_Inr:
  "authorize_client self client job profile model g = (g', Inr ()) \<longleftrightarrow> g' = g \<and> (\<exists>c x. owned self client = Inr c \<and>
     map_of (gw_sessions g) (bc_token c) = Some x \<and> in_job_id x = job \<and> in_worker_profile x = profile \<and> in_model_id x = model)"
  by (auto simp: authorize_client_def abind_def guard_def lift_check_def split: sum.splits option.splits if_splits)

lemma close_models: "gw_models (fst (close_client ops self client g)) = gw_models g"
  by (auto simp: close_client_def abind_def lift_check_def pop_session_def on_world_def ret_def split: sum.splits option.splits prod.splits)

text \<open>The body of the \<open>try\<close>: without a client of this gateway nothing changes at all.\<close>

lemma job_body_frame:
  assumes "job_body host p client deadline task j = (j1, r)"
  shows "case owned (jh_self host) client of Inl e \<Rightarrow> j1 = j | Inr c \<Rightarrow> job_frame (bc_token c) j j1"
proof (cases "job_body host p client deadline task j = (j, r)")
  case True
  with assms show ?thesis by (auto simp: reflpD [OF job_frame_order(2)] split: sum.split)
next
  case False
  then obtain d where "authorized_execution host p client d task j = (j1, r)"
    using assms by (auto simp: job_body_def split: option.splits if_splits)
  moreover obtain g q where a: "authorize_client (jh_self host) client (ep_job_id p) (ep_worker_profile p) (ep_model_id p) (hj_gateway j) = (g, q)"
    by fastforce
  moreover have [simp]: "g = hj_gateway j" using authorize_state [of "jh_self host" client] a by (metis fst_conv)
  ultimately have e: "abind (\<lambda>j. (j, map_sum (jh_error host) id q)) (\<lambda>_. case executor_limits_of p of
       Inl e \<Rightarrow> throw (policy_text (jh_texts host) e)
     | Inr limits \<Rightarrow> abind (reads (\<lambda>j. se_tools (hj_tools j))) (\<lambda>tools.
         execute (job_env host (case client of None \<Rightarrow> [] | Some c \<Rightarrow> bc_token c) tools limits d) task)) j = (j1, r)"
    by (simp add: authorized_execution_def on_gateway_def abind_def)
  show ?thesis
  proof (cases q)
    case (Inl x)
    with e have "j1 = j" by (simp add: abind_def)
    then show ?thesis by (auto simp: reflpD [OF job_frame_order(2)] split: sum.split)
  next
    case (Inr x)
    with a obtain c where c: "owned (jh_self host) client = Inr c" by (auto simp: authorize_Inr)
    then have client: "client = Some c" by (auto simp: owned_def split: option.splits if_splits)
    have "job_frame (bc_token c) j j1"
    proof (cases "executor_limits_of p")
      case (Inl y)
      with e Inr have "j1 = j" by (simp add: abind_def)
      then show ?thesis by (simp add: reflpD [OF job_frame_order(2)])
    next
      case (Inr limits)
      with e \<open>q = Inr x\<close> client have "execute (job_env host (bc_token c) (se_tools (hj_tools j)) limits d) task j = (j1, r)"
        by (simp add: abind_def)
      then show ?thesis by (rule keepsD [OF job_loop.run])
    qed
    with c show ?thesis by simp
  qed
qed

lemma after_exception_frame:
  "hj_gateway (fst (after_exception host p deadline j)) = hj_gateway j \<and> hj_tools (fst (after_exception host p deadline j)) = hj_tools j"
  using cancel_wanted_frame [of _ j host] by (auto simp: after_exception_def Let_def split: prod.splits)

lemma after_exception_outcome: "wr_outcome (snd (after_exception host p deadline j)) \<noteq> WO_SUBMITTED"
  by (simp add: after_exception_def Let_def plain_result_def split: prod.split)

lemma settle_state: "hj_gateway (fst (settle host errors r j)) = hj_gateway j \<and> hj_tools (fst (settle host errors r j)) = hj_tools j"
  using cancel_wanted_frame [of _ j host] by (auto simp: settle_def split: prod.splits)

lemma host_job_run_parts:
  assumes "host_job_run host p client deadline task j = (j', r)"
  obtains j1 q j2 r1 j3 errors j4 r2 where "job_body host p client deadline task j = (j1, q)"
    and "(j2, r1) = (case q of Inr x \<Rightarrow> (j1, x) | Inl e \<Rightarrow> after_exception host p deadline j1)"
    and "release host client j2 = (j3, errors)" and "settle host errors r1 j3 = (j', r2)" and "r = with_usage r2"
  using assms by (auto simp: host_job_run_def split: prod.splits sum.splits)

text \<open>
  C21: However a job ends on the host, with a result, a refusal, an exception of the model, the tools or the
  event sink, its two capabilities are gone: the sandbox tool session is closed and the client's session
  is removed from the gateway.  The job touched no other session, no model table and no setting of the
  tool session.
\<close>

theorem host_job_releases_capabilities:
  assumes "host_job_run host p client deadline task j = (j', r)"
  shows "se_closed (hj_tools j') \<and> same_config (hj_tools j) (hj_tools j') \<and> gw_models (hj_gateway j') = gw_models (hj_gateway j) \<and>
    (\<forall>k. map_of (gw_sessions (hj_gateway j')) k =
       (if owned (jh_self host) client = Inr \<lparr>bc_gateway = jh_self host, bc_token = k\<rparr> then None else map_of (gw_sessions (hj_gateway j)) k))"
proof -
  from assms obtain j1 q j2 r1 j3 errors j4 r2 where 1: "job_body host p client deadline task j = (j1, q)"
    and 2: "(j2, r1) = (case q of Inr x \<Rightarrow> (j1, x) | Inl e \<Rightarrow> after_exception host p deadline j1)"
    and 3: "release host client j2 = (j3, errors)" and 4: "settle host errors r1 j3 = (j', r2)"
    by (rule host_job_run_parts)
  have j2: "hj_gateway j2 = hj_gateway j1" "hj_tools j2 = hj_tools j1"
    using 2 after_exception_frame [of host p deadline j1] by (auto split: sum.splits) (metis fst_conv)+
  have j': "hj_gateway j' = hj_gateway j3" "hj_tools j' = hj_tools j3"
    using settle_state [of host errors r1 j3] 4 by auto
  obtain s e1 where s: "session_cancel (jh_transport host) (hj_tools j1) = (s, e1)" by fastforce
  obtain g e2 where g: "close_client (jh_ops host) (jh_self host) client (hj_gateway j1) = (g, e2)" by fastforce
  have j3: "hj_tools j3 = s" "hj_gateway j3 = g" using 3 s g j2 by (auto simp: release_def)
  have tools: "se_closed s \<and> same_config (hj_tools j1) s"
    using cancel_step [of "hj_tools j1" "jh_transport host"] s by (auto simp: internal_step_def)
  have body: "same_config (hj_tools j) (hj_tools j1) \<and> gw_models (hj_gateway j1) = gw_models (hj_gateway j)"
    using job_body_frame [OF 1] by (auto simp: job_frame_def split: sum.splits)
  have models: "gw_models g = gw_models (hj_gateway j1)" using close_models g by (metis fst_conv)
  have "map_of (gw_sessions g) k = (if owned (jh_self host) client = Inr \<lparr>bc_gateway = jh_self host, bc_token = k\<rparr> then None
      else map_of (gw_sessions (hj_gateway j)) k)" for k
    using close_sessions [of "jh_ops host" "jh_self host" client "hj_gateway j1"] g job_body_frame [OF 1]
    by (cases client) (auto simp: owned_def map_of_drop job_frame_def split: if_splits)
  then show ?thesis
    using tools body models j' j3 by (auto intro: same_config_order(2))
qed

lemma submitted_body:
  assumes 1: "job_body host p client deadline task j = (j1, q)"
    and 2: "(j2, r1) = (case q of Inr x \<Rightarrow> (j1, x) | Inl e \<Rightarrow> after_exception host p deadline j1)" and "wr_outcome r1 = WO_SUBMITTED"
  shows "identities_agree p (hj_tools j) task \<and>
      (\<exists>d. deadline = Some d \<and> se_deadline (hj_tools j) \<le> d \<and> se_max_command (hj_tools j) \<le> max_command_seconds (ep_budget p)) \<and>
      (\<exists>c x. owned (jh_self host) client = Inr c \<and> map_of (gw_sessions (hj_gateway j)) (bc_token c) = Some x \<and>
         in_job_id x = ep_job_id p \<and> in_worker_profile x = ep_worker_profile p \<and> in_model_id x = ep_model_id p)"
proof -
  have "q = Inr r1" using assms(2,3) after_exception_outcome [of host p deadline j1] by (auto split: sum.splits) (metis snd_conv)
  with 1 assms(3) obtain d where d: "deadline = Some d" "identities_agree p (hj_tools j) task" "se_deadline (hj_tools j) \<le> d"
      "se_max_command (hj_tools j) \<le> max_command_seconds (ep_budget p)"
    and x: "authorized_execution host p client d task j = (j1, Inr r1)"
    by (auto simp: job_body_def plain_result_def split: option.splits if_splits)
  from x obtain j5 where "on_gateway host (authorize_client (jh_self host) client (ep_job_id p) (ep_worker_profile p) (ep_model_id p)) j = (j5, Inr ())"
    by (auto simp: authorized_execution_def abind_Inr_iff)
  then obtain g where "authorize_client (jh_self host) client (ep_job_id p) (ep_worker_profile p) (ep_model_id p) (hj_gateway j) = (g, Inr ())"
    by (auto simp: on_gateway_def map_sum_Inr split: prod.splits)
  with d show ?thesis by (auto simp: authorize_Inr)
qed


section \<open>A job\<close>

text \<open>A model that answers at once, a guest never called, a host that is never cancelled; its clock stands still.\<close>

definition demo_host :: "(nat, unit, unit, nat) job_host" where
  "demo_host = \<lparr>jh_ops = \<lparr>mo_infer = (\<lambda>m ms ts w. (w, Inr (Some \<lparr>rs_content = u ''ok'', rs_tool_calls = [], rs_usage = None\<rparr>))),
       mo_close = (\<lambda>m. None), mo_cancel = (\<lambda>m. None)\<rparr>,
     jh_transport = demo_guest, jh_texts = demo_texts, jh_error = (\<lambda>e. []), jh_self = 0, jh_now = (\<lambda>x. (x, 5)),
     jh_monotonic = (\<lambda>x. (x, 5)), jh_cancelled = (\<lambda>x. (x, Inr False)), jh_emit = (\<lambda>k p x. (x, Inr ()))\<rparr>"

definition demo_job :: "(nat, unit, unit, nat) host_job" where
  "demo_job = \<lparr>hj_gateway = gw_state,
     hj_tools = (demo_session PReady False)\<lparr>se_job_id := u ''j1'', se_tools := ir_tools gw_request\<rparr>, hj_world = 0\<rparr>"

definition demo_execution :: execution_policy where
  "demo_execution = \<lparr>ep_job_id = u ''j1'', ep_repository_id = u ''r'', ep_base_revision = u ''v'', ep_image_sha256 = [],
     ep_provider_id = u ''p'', ep_model_id = u ''m'', ep_worker_profile = u ''read-only-worker'', ep_plan = NORMAL,
     ep_reasoning_effort = None, ep_service_tier = u ''default'',
     ep_sandbox = \<lparr>cpu_count = 1, memory_mb = 1, disk_gb = 1, network_enabled = False\<rparr>,
     ep_budget = \<lparr>timeout_seconds = 60, max_tool_calls = 3, max_cost_usd = JNull, max_model_requests = 2, max_input_bytes = 9000,
       max_output_bytes = 9000, max_output_tokens = 9, max_command_seconds = 300\<rparr>\<rparr>"

definition demo_work :: worker_task where
  "demo_work = \<lparr>tk_job_id = u ''j1'', tk_objective = u ''o'', tk_worker_profile = u ''read-only-worker'', tk_acceptance_criteria = [],
     tk_repository_id = Some (u ''r''), tk_starting_revision = Some (u ''v''), tk_plan = NORMAL\<rparr>"

lemma demo_job_submits:
  "wr_outcome (snd (host_job_run demo_host demo_execution (Some \<lparr>bc_gateway = 0, bc_token = u ''tok''\<rparr>) (Some 100) demo_work demo_job)) = WO_SUBMITTED"
  by code_simp

theorem host_job_releases_capabilities_witness:
  "\<exists>j' r. host_job_run demo_host demo_execution (Some \<lparr>bc_gateway = 0, bc_token = u ''tok''\<rparr>) (Some 100) demo_work demo_job = (j', r) \<and>
     se_closed (hj_tools j') \<and> map_of (gw_sessions (hj_gateway j')) (u ''tok'') = None"
proof -
  obtain j' r where run: "host_job_run demo_host demo_execution (Some \<lparr>bc_gateway = 0, bc_token = u ''tok''\<rparr>) (Some 100) demo_work demo_job = (j', r)"
    by fastforce
  with host_job_releases_capabilities [OF run] show ?thesis
    by (auto simp: owned_def demo_host_def)
qed


end
