(* ===== verification/Workspaces.thy ===== *)
theory Workspaces
  imports FileSystem Snapshot
begin

text \<open>
  \<open>night_shifts/workspaces.py\<close> and \<open>contracts/workspace.py\<close>: trusted repositories and the detached copy
  prepared for one job.  The state is the files and a world \<open>'w\<close>; the Git process is a parameter acting on
  both, as documented by Git: what it prints, how it exits, or that it could not be run.
\<close>

section \<open>State\<close>

datatype workspace_error = WsError pystr | WsOs os_error | WsValue pystr

record prepared_workspace =
  pw_job_id :: pystr
  pw_repository_id :: pystr
  pw_revision :: pystr
  pw_path :: path

type_synonym ('w, 'a) ws_act = "(fs \<times> 'w, workspace_error, 'a) act"

type_synonym 'w git_process = "pystr list \<Rightarrow> path option \<Rightarrow> fs \<times> 'w \<Rightarrow> (fs \<times> 'w) \<times> (pystr + int \<times> pystr \<times> pystr)"

definition on_files :: "'a fs_act \<Rightarrow> ('w, 'a) ws_act" where
  "on_files m = (\<lambda>(fs, w). case m fs of (fs', r) \<Rightarrow> ((fs', w), map_sum WsOs id r))"

text \<open>\<open>SubprocessGitRunner.run\<close>\<close>

definition git_run :: "'w git_process \<Rightarrow> pystr list \<Rightarrow> path option \<Rightarrow> ('w, pystr) ws_act" where
  "git_run proc argv cwd = (\<lambda>s. case proc argv cwd s of
     (s', Inl e) \<Rightarrow> (s', Inl (WsError (u ''Git operation failed: '' @ e)))
   | (s', Inr (code, out, err)) \<Rightarrow>
       if code \<noteq> 0 then
         (s', Inl (WsError (let d = take 2000 (strip err) in if d = [] then u ''Git returned a non-zero status'' else d)))
       else (s', Inr (strip out)))"

section \<open>The registry\<close>

definition repository_id_ok :: "pystr \<Rightarrow> bool" where
  "repository_id_ok s \<longleftrightarrow> slug s"

fun registry_init :: "(pychar \<Rightarrow> bool) \<Rightarrow> (pystr \<times> path) list \<Rightarrow> (pystr, path) dict \<Rightarrow> workspace_error + (pystr, path) dict" where
  "registry_init uni [] registered = Inr registered"
| "registry_init uni ((rid, source) # rest) registered =
     (if \<not> repository_id_ok rid then Inl (WsValue (u ''invalid repository ID: '' @ py_repr uni rid))
      else if rid \<in> fst ` set registered then Inl (WsValue (u ''duplicate repository ID: '' @ py_repr uni rid))
      else registry_init uni rest (dput rid source registered))"

definition require_repository :: "(pychar \<Rightarrow> bool) \<Rightarrow> (pystr, path) dict \<Rightarrow> pystr \<Rightarrow> workspace_error + path" where
  "require_repository uni repos rid = (case registry_require repos rid of
     Inr source \<Rightarrow> Inr source
   | Inl _ \<Rightarrow> Inl (WsError (u ''repository ID is not approved: '' @ py_repr uni rid)))"

section \<open>Preparing and destroying\<close>

text \<open>\<open>[^\x00\r\n]{1,200}\<close> and \<open>[0-9a-f]{40,64}\<close>\<close>

definition revision_ok :: "pystr \<Rightarrow> bool" where
  "revision_ok s \<longleftrightarrow> 0 < length s \<and> length s \<le> 200 \<and> list_all (\<lambda>c. c \<notin> {0, 13, 10}) s \<and> \<not> starts_with s (u ''-'')"

definition commit_ok :: "pystr \<Rightarrow> bool" where
  "commit_ok s \<longleftrightarrow> 40 \<le> length s \<and> length s \<le> 64 \<and> list_all is_hex s"

text \<open>\<open>mkdir(parents=True, exist_ok=False)\<close>\<close>

definition mkdir_new :: "path \<Rightarrow> unit fs_act" where
  "mkdir_new p = (\<lambda>fs. if exists_path fs p then (fs, Inl (FileExists p)) else mkdir_parents p fs)"

definition mkdir_one :: "path \<Rightarrow> unit fs_act" where
  "mkdir_one p = (\<lambda>fs. if exists_path fs p then (fs, Inl (FileExists p))
     else if \<not> is_dir fs (butlast p) then (fs, Inl (missing fs p))
     else (fs(p \<mapsto> Dir), Inr ()))"

definition remove_workspace_tree :: "path \<Rightarrow> unit fs_act" where
  "remove_workspace_tree p = (\<lambda>fs. case fs p of
     None \<Rightarrow> (fs, Inr ())
   | Some (File b) \<Rightarrow> (fs, Inl (NotADirectory p))
   | Some Dir \<Rightarrow> (remove_tree p fs, Inr ()))"

definition workspace_manifest :: "pystr \<Rightarrow> pystr \<Rightarrow> pystr \<Rightarrow> pystr \<Rightarrow> pystr" where
  "workspace_manifest job rid revision commit = dumps True (sort_keys (JObj [(u ''job_id'', JStr job),
     (u ''repository_id'', JStr rid), (u ''starting_revision'', JStr revision), (u ''revision'', JStr commit)]))"

definition WORKSPACE_MANIFEST :: pystr where
  "WORKSPACE_MANIFEST = u ''workspace.json''"

definition WORKSPACE_ARTIFACTS :: pystr where
  "WORKSPACE_ARTIFACTS = u ''artifacts''"

definition job_dir :: "path \<Rightarrow> pystr \<Rightarrow> path" where
  "job_dir root job = root @ [job]"

definition workspace_dir :: "path \<Rightarrow> pystr \<Rightarrow> path" where
  "workspace_dir root job = root @ [job, u ''repository'']"

text \<open>The body of the \<open>try\<close>, the job's directory just created.\<close>

definition populate :: "pystr \<Rightarrow> path \<Rightarrow> 'w git_process \<Rightarrow> path \<Rightarrow> pystr \<Rightarrow> pystr \<Rightarrow> pystr \<Rightarrow> pystr \<Rightarrow> ('w, unit) ws_act" where
  "populate sep root proc source job rid revision commit =
     (let destination = workspace_dir root job in
      abind (git_run proc [u ''clone'', u ''--no-checkout'', u ''--no-hardlinks'', u ''--'', path_str source, path_str destination] None) (\<lambda>_.
      abind (git_run proc [u ''checkout'', u ''--detach'', commit] (Some destination)) (\<lambda>_.
      abind (git_run proc [u ''remote'', u ''remove'', u ''origin''] (Some destination)) (\<lambda>_.
      abind (git_run proc [u ''rev-parse'', u ''HEAD''] (Some destination)) (\<lambda>actual.
      abind (guard (actual = commit) (WsError (u ''prepared workspace revision does not match the requested commit''))) (\<lambda>_.
      abind (on_files (mkdir_one (job_dir root job @ [WORKSPACE_ARTIFACTS]))) (\<lambda>_.
      on_files (write_text sep (job_dir root job @ [WORKSPACE_MANIFEST]) (workspace_manifest job rid revision commit)))))))))"

definition cleaned_up :: "path \<Rightarrow> ('w, 'a) ws_act \<Rightarrow> ('w, 'a) ws_act" where
  "cleaned_up p m = (\<lambda>s. case m s of
     (s1, Inr x) \<Rightarrow> (s1, Inr x)
   | (s1, Inl e) \<Rightarrow> abind (on_files (remove_workspace_tree p)) (\<lambda>_. throw e) s1)"

definition prepare_workspace ::
  "(pychar \<Rightarrow> bool) \<Rightarrow> pystr \<Rightarrow> path \<Rightarrow> (pystr, path) dict \<Rightarrow> 'w git_process \<Rightarrow> pystr \<Rightarrow> pystr \<Rightarrow> pystr \<Rightarrow> ('w, prepared_workspace) ws_act" where
  "prepare_workspace uni sep root repos proc job rid revision =
     abind (guard (hex_exactly 32 job) (WsError (u ''job ID must be 32 lowercase hexadecimal characters''))) (\<lambda>_.
     abind (guard (revision_ok revision) (WsError (u ''starting revision is malformed''))) (\<lambda>_.
     case require_repository uni repos rid of
       Inl e \<Rightarrow> throw e
     | Inr source \<Rightarrow>
         abind (reads fst) (\<lambda>fs.
         abind (guard (is_dir fs source) (WsError (u ''trusted repository source is unavailable: '' @ py_repr uni rid))) (\<lambda>_.
         abind (guard (\<not> exists_path fs (workspace_dir root job)) (WsError (u ''workspace already exists for job '' @ job))) (\<lambda>_.
         abind (git_run proc [u ''rev-parse'', u ''--verify'', revision @ u ''^{commit}''] (Some source)) (\<lambda>commit.
         abind (guard (commit_ok commit) (WsError (u ''trusted repository returned an invalid commit identity''))) (\<lambda>_.
         abind (on_files (mkdir_new (job_dir root job))) (\<lambda>_.
         abind (cleaned_up (job_dir root job) (populate sep root proc source job rid revision commit)) (\<lambda>_.
         ret \<lparr>pw_job_id = job, pw_repository_id = rid, pw_revision = commit, pw_path = workspace_dir root job\<rparr>))))))))) "

definition destroy_workspace :: "path \<Rightarrow> prepared_workspace \<Rightarrow> ('w, unit) ws_act" where
  "destroy_workspace root ws =
     (let expected = workspace_dir root (pw_job_id ws) in
      abind (guard (pw_path ws = expected \<and> hex_exactly 32 (pw_job_id ws))
        (WsError (u ''refusing to destroy a workspace with an untrusted path''))) (\<lambda>_.
      on_files (remove_workspace_tree (butlast expected))))"

section \<open>What Git may touch\<close>

text \<open>
  Git's documented effect for the commands issued here: cloning writes below the directory it clones into,
  a command run in a directory writes below it, and \<open>rev-parse\<close> writes nothing.
\<close>

definition git_behaves :: "'w git_process \<Rightarrow> path \<Rightarrow> bool" where
  "git_behaves proc dst \<longleftrightarrow>
     (\<forall>argv cwd s. (cwd = Some dst \<or> cwd = None \<and> last argv = path_str dst) \<longrightarrow>
        confined (prefix dst) (\<lambda>q. False) (fst s) (fst (fst (proc argv cwd s)))) \<and>
     (\<forall>argv cwd s. hd argv = u ''rev-parse'' \<longrightarrow> fst (fst (proc argv cwd s)) = fst s)"

definition files_only :: "(path \<Rightarrow> bool) \<Rightarrow> (path \<Rightarrow> bool) \<Rightarrow> fs \<times> 'w \<Rightarrow> fs \<times> 'w \<Rightarrow> bool" where
  "files_only A D s s' \<longleftrightarrow> confined A D (fst s) (fst s')"

lemma files_only_order [simp]: "transp (files_only A D)" "reflp (files_only A D)"
  unfolding files_only_def
  by (rule transpI, erule (1) transpD [OF transp_confined]) (rule reflpI, simp)

lemma files_on_files [inv_intros]: "keeps (confined A D) m \<Longrightarrow> keeps (files_only A D) (on_files m)"
  by (auto simp: keeps_def on_files_def files_only_def split: prod.splits) (metis fst_conv)

lemma files_git: "(\<And>s. confined A D (fst s) (fst (fst (proc argv cwd s)))) \<Longrightarrow> keeps (files_only A D) (git_run proc argv cwd)"
  by (rule keepsI) (auto simp: git_run_def files_only_def split: prod.splits sum.splits if_splits, (metis fst_conv)+)

section \<open>Preparation and removal\<close>

lemma confined_mono: "confined A D fs fs' \<Longrightarrow> (\<And>q. A q \<Longrightarrow> B q) \<Longrightarrow> confined B D fs fs'"
  by (auto simp: confined_def)

abbreviation parents_of :: "path \<Rightarrow> path \<Rightarrow> bool" where
  "parents_of p q \<equiv> strict_prefix q p"

lemma missing_below: "fs_ok fs \<Longrightarrow> fs p = None \<Longrightarrow> prefix p q \<Longrightarrow> fs q = None"
proof (induction q rule: rev_induct)
  case (snoc c q)
  show ?case
  proof (cases "p = q @ [c]")
    case False
    with snoc.prems have "fs q = None" by (intro snoc.IH) simp_all
    with snoc.prems(1) show ?thesis by (metis fs_ok_def option.distinct(1))
  qed (use snoc.prems in simp)
qed simp

lemma mkdir_new_Inr: "mkdir_new p fs = (fs', Inr x) \<Longrightarrow> fs p = None \<and> fs' p = Some Dir \<and> confined (\<lambda>q. False) (\<lambda>q. prefix q p) fs fs'"
proof -
  assume a: "mkdir_new p fs = (fs', Inr x)"
  then have m: "mkdir_parents p fs = (fs', Inr x)" "fs p = None" by (auto simp: mkdir_new_def exists_path_def split: if_splits)
  then have "fs' p = Some Dir"
    unfolding mkdir_parents_def using m(2)
    by (cases "rev p") (auto simp: is_dir_def Let_def abind_Inr_iff split: os_error.splits if_splits)
  moreover have "confined (\<lambda>q. False) (\<lambda>q. prefix q p) fs fs'"
    using keepsD [OF confined_mkdir [of p "\<lambda>q. prefix q p" "\<lambda>q. False"] m(1)] by simp
  ultimately show ?thesis using m by simp
qed

lemma mkdir_new_Inl:
  assumes "mkdir_new p fs = (fs', Inl e)"
  shows "confined (\<lambda>q. False) (\<lambda>q. strict_prefix q p) fs fs'"
proof (cases "fs p")
  case None
  then have m: "mkdir_rev (rev p) fs = (fs', Inl e)" using assms by (simp add: mkdir_new_def exists_path_def mkdir_parents_def)
  show ?thesis
  proof (cases "rev p")
    case Nil
    with m show ?thesis by simp
  next
    case (Cons c r)
    then have p: "p = rev r @ [c]" by (metis rev.simps(2) rev_rev_ident)
    obtain fs1 x where r: "mkdir_rev r fs = (fs1, x)" by fastforce
    have below: "strict_prefix q p" if "prefix q (rev r)" for q
      using that prefix_length_le [OF that] p by (auto simp: strict_prefix_def)
    have "confined (\<lambda>q. False) (\<lambda>q. strict_prefix q p) fs fs1"
      using confined_mkdir_rev [of r "\<lambda>q. strict_prefix q p" "\<lambda>q. False" fs] r p below by simp
    moreover have "fs' = fs \<or> fs' = fs1"
      using m Cons p None r by (cases x) (auto simp: Let_def abind_def writes_def split: os_error.splits)
    ultimately show ?thesis by auto
  qed
qed (use assms in \<open>auto simp: mkdir_new_def exists_path_def\<close>)

lemma populate_below:
  assumes "git_behaves proc (workspace_dir root job)"
  shows "keeps (files_only (strict_prefix (job_dir root job)) (\<lambda>q. False)) (populate sep root proc source job rid revision commit)"
proof -
  have below: "strict_prefix (job_dir root job) (workspace_dir root job)" "prefix (workspace_dir root job) q \<Longrightarrow> strict_prefix (job_dir root job) q" for q
    by (auto simp: job_dir_def workspace_dir_def strict_prefix_def prefix_def)
  have git: "keeps (files_only (strict_prefix (job_dir root job)) (\<lambda>q. False)) (git_run proc argv cwd)"
    if "cwd = Some (workspace_dir root job) \<or> cwd = None \<and> last argv = path_str (workspace_dir root job)" for argv cwd
    by (rule files_git, rule confined_mono [of "prefix (workspace_dir root job)", OF _ below(2)])
       (use assms that in \<open>auto simp: git_behaves_def\<close>)
  have one: "keeps (confined (strict_prefix (job_dir root job)) (\<lambda>q. False)) (mkdir_one (job_dir root job @ [n]))" for n
    by (rule keepsI) (auto simp: mkdir_one_def confined_def strict_prefix_def split: if_splits)
  show ?thesis
    unfolding populate_def Let_def by (intro inv_intros git files_on_files one) (simp_all add: strict_prefix_def)
qed

lemma prepare_cases:
  assumes "prepare_workspace uni sep root repos proc job rid revision (fs, w) = ((fs', w'), r)"
    and git: "git_behaves proc (workspace_dir root job)"
  obtains (early) e where "r = Inl e" and "confined (\<lambda>q. False) (parents_of (job_dir root job)) fs fs'"
  | (filled) source commit fs1 w1 where "require_repository uni repos rid = Inr source" and "hex_exactly 32 job" and "commit_ok commit"
      and "mkdir_new (job_dir root job) fs = (fs1, Inr ())"
      and "abind (cleaned_up (job_dir root job) (populate sep root proc source job rid revision commit)) (\<lambda>_.
         ret \<lparr>pw_job_id = job, pw_repository_id = rid, pw_revision = commit, pw_path = workspace_dir root job\<rparr>) (fs1, w1) = ((fs', w'), r)"
proof -
  let ?tail = "\<lambda>source commit. abind (cleaned_up (job_dir root job) (populate sep root proc source job rid revision commit)) (\<lambda>_.
         ret \<lparr>pw_job_id = job, pw_repository_id = rid, pw_revision = commit, pw_path = workspace_dir root job\<rparr>)"
  let ?step = "\<lambda>source commit. abind (on_files (mkdir_new (job_dir root job))) (\<lambda>_. ?tail source commit)"
  consider (bad) e where "r = Inl e" "fs' = fs" |
    (asked) source where "hex_exactly 32 job" "require_repository uni repos rid = Inr source"
      "abind (git_run proc [u ''rev-parse'', u ''--verify'', revision @ u ''^{commit}''] (Some source)) (\<lambda>commit.
         abind (guard (commit_ok commit) (WsError (u ''trusted repository returned an invalid commit identity''))) (\<lambda>_.
         ?step source commit)) (fs, w) = ((fs', w'), r)"
    using assms(1) by (auto simp: prepare_workspace_def split: if_splits sum.splits)
  then show thesis
  proof cases
    case bad
    then show thesis by (intro early) (simp_all add: confined_def)
  next
    case asked
    obtain s1 q where g: "git_run proc [u ''rev-parse'', u ''--verify'', revision @ u ''^{commit}''] (Some source) (fs, w) = (s1, q)" by fastforce
    have "fst s1 = fs"
      using g git by (auto simp: git_run_def git_behaves_def split: prod.splits sum.splits if_splits) (metis fst_conv list.sel(1))+
    then obtain w1 where s1: "s1 = (fs, w1)" by (cases s1) simp
    consider (stop) e where "r = Inl e" "fs' = fs" | (go) commit where "commit_ok commit" "?step source commit (fs, w1) = ((fs', w'), r)"
      using asked(3) g s1 by (cases q) (auto simp: abind_eq split: if_splits)
    then show thesis
    proof cases
      case stop
      then show thesis by (intro early) (simp_all add: confined_def)
    next
      case go
      obtain fs1 x where m: "mkdir_new (job_dir root job) fs = (fs1, x)" by fastforce
      show thesis
      proof (cases x)
        case (Inr y)
        with m go(2) show thesis by (intro filled [OF asked(2) asked(1) go(1)]) (auto simp: abind_def on_files_def)
      next
        case (Inl y)
        have "confined (\<lambda>q. False) (parents_of (job_dir root job)) fs fs1"
          using m Inl mkdir_new_Inl by metis
        with m go(2) Inl show thesis by (intro early) (auto simp: abind_def on_files_def)
      qed
    qed
  qed
qed

text \<open>Clearing a directory that nothing but its own content changed in gives the files back.\<close>

lemma cleared_again:
  assumes "fs_ok fs" and "mkdir_new p fs = (fs1, Inr x)" and "confined (strict_prefix p) (\<lambda>q. False) fs1 fs2"
  shows "remove_workspace_tree p fs2 = (remove_tree p fs2, Inr ())" and "confined (\<lambda>q. False) (parents_of p) fs (remove_tree p fs2)"
proof -
  note new = mkdir_new_Inr [OF assms(2)]
  have "fs2 p = Some Dir" using assms(3) new by (metis confined_def prefix_order.less_irrefl)
  then show "remove_workspace_tree p fs2 = (remove_tree p fs2, Inr ())" by (simp add: remove_workspace_tree_def)
  have "remove_tree p fs2 q = fs q \<or> strict_prefix q p \<and> fs q = None \<and> remove_tree p fs2 q = Some Dir" for q
  proof (cases "prefix p q")
    case True
    with missing_below [OF assms(1) conjunct1 [OF new]] show ?thesis by (simp add: remove_tree_def)
  next
    case False
    then have "fs2 q = fs1 q" using assms(3) by (auto simp: confined_def strict_prefix_def)
    with False new show ?thesis by (auto simp: confined_def remove_tree_def strict_prefix_def)
  qed
  then show "confined (\<lambda>q. False) (parents_of p) fs (remove_tree p fs2)" by (simp add: confined_def)
qed

text \<open>
  A workspace that could not be prepared leaves nothing behind: whichever step failed, the files are as
  before, except that missing directories above the job's own may have been made.  In particular a
  directory of the job that was already there is untouched.
\<close>

theorem failed_preparation_leaves_nothing:
  assumes "prepare_workspace uni sep root repos proc job rid revision (fs, w) = ((fs', w'), Inl e)"
    and "git_behaves proc (workspace_dir root job)" and "fs_ok fs"
  shows "\<forall>q. fs' q = fs q \<or> strict_prefix q (job_dir root job) \<and> fs q = None \<and> fs' q = Some Dir"
  using assms(1,2)
proof (cases rule: prepare_cases)
  case (filled source commit fs1 w1)
  obtain s2 r where p: "populate sep root proc source job rid revision commit (fs1, w1) = (s2, r)" by fastforce
  from filled(5) p obtain x where r: "r = Inl x" by (cases r) (auto simp: cleaned_up_def abind_def)
  have "confined (strict_prefix (job_dir root job)) (\<lambda>q. False) fs1 (fst s2)"
    using keepsD [OF populate_below [OF assms(2)] p] by (simp add: files_only_def)
  note clear = cleared_again [OF assms(3) filled(4) this]
  from filled(5) p r clear(1) have "fs' = remove_tree (job_dir root job) (fst s2)"
    by (cases s2) (auto simp: cleaned_up_def abind_def on_files_def)
  with clear(2) show ?thesis by (simp add: confined_def)
qed (auto simp: confined_def)


section \<open>A workspace\<close>

text \<open>A Git that always names the same commit and whose clone makes the directory it is given.\<close>

definition demo_commit :: pystr where
  "demo_commit = replicate 40 97"

definition demo_jobid :: pystr where
  "demo_jobid = replicate 32 49"

definition demo_git :: "bool \<Rightarrow> unit git_process" where
  "demo_git broken argv cwd s = (if hd argv = u ''clone'' \<and> last argv = path_str (workspace_dir [] demo_jobid)
     then (((fst s)(workspace_dir [] demo_jobid \<mapsto> Dir), snd s), Inr (0, [], []))
     else (s, Inr (if broken \<and> hd argv = u ''checkout'' then 1 else 0, demo_commit, [])))"

definition demo_files :: fs where
  "demo_files = [[] \<mapsto> Dir, [u ''src''] \<mapsto> Dir]"

lemma demo_files_ok: "fs_ok demo_files"
  by (auto simp: fs_ok_def demo_files_def split: if_splits)

lemma demo_git_behaves: "git_behaves (demo_git broken) (workspace_dir [] demo_jobid)"
  by (auto simp: git_behaves_def demo_git_def confined_def u_eq_iff)

lemma demo_ids:
  "hex_exactly 32 demo_jobid" "commit_ok demo_commit" "strip demo_commit = demo_commit" "revision_ok (u ''main'')"
  "utf8_encode (to_linesep [10] (workspace_manifest demo_jobid (u ''r'') (u ''main'') demo_commit)) \<noteq> None"
  "demo_jobid \<noteq> u ''src''"
  by code_simp+

lemma returned: "\<not> isl (snd x) \<Longrightarrow> \<exists>fs r. x = ((fs :: fs, ()), Inr r)" "isl (snd x) \<Longrightarrow> \<exists>fs e. x = ((fs :: fs, ()), Inl e)"
  by (cases x; cases "snd x"; auto)+

lemmas prepare_evaluation = prepare_workspace_def populate_def cleaned_up_def git_run_def abind_def on_files_def
  require_repository_def registry_require_def mkdir_new_def mkdir_one_def mkdir_parents_def job_dir_def workspace_dir_def
  write_text_def open_w_def is_dir_def exists_path_def demo_files_def WORKSPACE_ARTIFACTS_def WORKSPACE_MANIFEST_def
  missing_def is_file_def remove_workspace_tree_def

lemma demo_prepared:
  "\<not> isl (snd (prepare_workspace (\<lambda>c. True) [10] [] [(u ''r'', [u ''src''])] (demo_git False) demo_jobid (u ''r'') (u ''main'') (demo_files, ())))"
  using demo_ids by (auto simp: prepare_evaluation demo_git_def u_eq_iff guard_def)

lemma demo_failed:
  "isl (snd (prepare_workspace (\<lambda>c. True) [10] [] [(u ''r'', [u ''src''])] (demo_git True) demo_jobid (u ''r'') (u ''main'') (demo_files, ())))"
  using demo_ids by (auto simp: prepare_evaluation demo_git_def u_eq_iff guard_def)


theorem failed_preparation_leaves_nothing_witness:
  "\<exists>fs' e. prepare_workspace (\<lambda>c. True) [10] [] [(u ''r'', [u ''src''])] (demo_git True) demo_jobid (u ''r'') (u ''main'') (demo_files, ()) = ((fs', ()), Inl e) \<and>
     fs' [u ''src''] = Some Dir"
proof -
  obtain fs' e where run: "prepare_workspace (\<lambda>c. True) [10] [] [(u ''r'', [u ''src''])] (demo_git True) demo_jobid (u ''r'') (u ''main'') (demo_files, ()) = ((fs', ()), Inl e)"
    using returned(2) [OF demo_failed] by blast
  from failed_preparation_leaves_nothing [OF run demo_git_behaves demo_files_ok] have "fs' [u ''src''] = Some Dir"
    by (auto simp: demo_files_def dest!: spec [of _ "[u ''src'']"])
  with run show ?thesis by blast
qed

end
