(* ===== verification/Artifacts.thy ===== *)
theory Artifacts
  imports Workspaces OpsStorage ToolSession
begin

text \<open>
  \<open>night_shifts/artifacts.py\<close>: guest artifacts are validated in a staging directory, copied into the job's
  trusted directory and recorded in the artifact index of \<open>OpsStorage\<close>.  The files are those of
  \<open>FileSystem\<close>, which has no links; identifiers and creation times are drawn from a given sequence, and
  SHA-256 is a parameter.
\<close>

section \<open>State\<close>

datatype artifact_error = ArtError pystr | ArtOs os_error | ArtStore storage_error | ArtValue pystr

record artifact_limits =
  al_max_files :: int
  al_max_file_bytes :: int
  al_max_total_bytes :: int

record artifact_host =
  ah_files :: fs
  ah_rows :: "artifact_record list"
  ah_drawn :: nat

record artifact_env =
  ae_limits :: artifact_limits
  ae_root :: path
  ae_draw :: "nat \<Rightarrow> pystr \<times> time"
  ae_sha :: "bytes \<Rightarrow> nat"
  ae_printable :: "pychar \<Rightarrow> bool"

type_synonym 'a artifact_act = "(artifact_host, artifact_error, 'a) act"

definition collector_init :: "artifact_limits \<Rightarrow> path \<Rightarrow> fs \<Rightarrow> fs \<times> (artifact_error + unit)" where
  "collector_init l root fs = (case mkdir_parents root fs of
     (fs', Inl e) \<Rightarrow> (fs', Inl (ArtOs e))
   | (fs', Inr _) \<Rightarrow> (fs', if al_max_files l \<le> 0 \<or> al_max_file_bytes l \<le> 0 \<or> al_max_total_bytes l < al_max_file_bytes l
        then Inl (ArtValue (u ''artifact retrieval limits are invalid'')) else Inr ()))"

section \<open>Validation\<close>

definition reference_name :: "pystr \<Rightarrow> pystr option" where
  "reference_name r = (let name = drop 15 r in if starts_with r (u ''guest-artifact/'') \<and> artifact_name name then Some name else None)"

definition read_artifact :: "artifact_limits \<Rightarrow> fs \<Rightarrow> path \<Rightarrow> artifact_error + bytes" where
  "read_artifact l fs p = (case fs p of
     None \<Rightarrow> Inl (ArtError (u ''referenced artifact is unavailable''))
   | Some Dir \<Rightarrow> Inl (ArtError (u ''referenced artifact must be a regular file''))
   | Some (File b) \<Rightarrow>
       if al_max_file_bytes l < int (length b) then Inl (ArtError (u ''artifact file size limit exceeded'')) else Inr b)"

fun validate_artifacts :: "artifact_env \<Rightarrow> fs \<Rightarrow> path \<Rightarrow> pystr list \<Rightarrow> int \<Rightarrow> artifact_error + (pystr \<times> bytes) list" where
  "validate_artifacts env fs staging [] used = Inr []"
| "validate_artifacts env fs staging (r # rest) used = (case reference_name r of
     None \<Rightarrow> Inl (ArtError (u ''artifact reference is invalid: '' @ py_repr (ae_printable env) r))
   | Some name \<Rightarrow>
       rbind (read_artifact (ae_limits env) fs (staging @ [name])) (\<lambda>b.
       let used' = used + int (length b) in
       if al_max_total_bytes (ae_limits env) < used' then Inl (ArtError (u ''artifact total size limit exceeded''))
       else if utf8_decode b = None then Inl (ArtError (u ''guest text artifact is not valid UTF-8''))
       else rbind (validate_artifacts env fs staging rest used') (\<lambda>vs. Inr ((name, b) # vs))))"

section \<open>Copying and recording\<close>

definition on_store :: "(fs \<Rightarrow> fs \<times> (artifact_error + 'a)) \<Rightarrow> 'a artifact_act" where
  "on_store m = (\<lambda>h. case m (ah_files h) of (fs, r) \<Rightarrow> (h\<lparr>ah_files := fs\<rparr>, r))"

text \<open>\<open>O_CREAT | O_EXCL\<close>\<close>

definition write_exclusive :: "path \<Rightarrow> bytes \<Rightarrow> fs \<Rightarrow> fs \<times> (artifact_error + unit)" where
  "write_exclusive p b fs =
     (if exists_path fs p \<or> \<not> is_dir fs (butlast p) then (fs, Inl (ArtError (u ''trusted artifact copy could not be created'')))
      else (fs(p \<mapsto> File b), Inr ()))"

definition draw :: "artifact_env \<Rightarrow> (pystr \<times> time) artifact_act" where
  "draw env = (\<lambda>h. (h\<lparr>ah_drawn := Suc (ah_drawn h)\<rparr>, Inr (ae_draw env (ah_drawn h))))"

definition artifact_of :: "artifact_env \<Rightarrow> pystr \<Rightarrow> pystr \<times> time \<Rightarrow> pystr \<Rightarrow> bytes \<Rightarrow> artifact_record" where
  "artifact_of env job drawn name b =
     \<lparr>af_id = fst drawn, af_job_id = job, af_kind = u ''guest-output'',
      af_path = path_str (ae_root env @ [job, fst drawn @ u ''-'' @ name]),
      af_content_type = Some (u ''text/plain; charset=utf-8''), af_size_bytes = Some (int (length b)),
      af_sha256 = Some (hexdigest (ae_sha env) b), af_created_at = snd drawn\<rparr>"

definition add_record :: "path \<Rightarrow> artifact_record \<Rightarrow> unit artifact_act" where
  "add_record copied a = (\<lambda>h. case artifacts_add (ah_rows h) a of
     Inr rows \<Rightarrow> (h\<lparr>ah_rows := rows\<rparr>, Inr ())
   | Inl e \<Rightarrow> (h\<lparr>ah_files := (ah_files h)(copied := None)\<rparr>, Inl (ArtStore e)))"

fun store_artifacts :: "artifact_env \<Rightarrow> pystr \<Rightarrow> (pystr \<times> bytes) list \<Rightarrow> artifact_record list artifact_act" where
  "store_artifacts env job [] = ret []"
| "store_artifacts env job ((name, b) # rest) =
     abind (draw env) (\<lambda>d.
     let copied = ae_root env @ [job, fst d @ u ''-'' @ name] in
     abind (on_store (write_exclusive copied b)) (\<lambda>_.
     abind (add_record copied (artifact_of env job d name b)) (\<lambda>_.
     abind (store_artifacts env job rest) (\<lambda>rs. ret (artifact_of env job d name b # rs)))))"

text \<open>\<open>destination.mkdir(mode=0o700, exist_ok=True)\<close>\<close>

definition mkdir_ok :: "path \<Rightarrow> fs \<Rightarrow> fs \<times> (artifact_error + unit)" where
  "mkdir_ok p fs = (if is_dir fs p then (fs, Inr ()) else (case mkdir_one p fs of (fs', r) \<Rightarrow> (fs', map_sum ArtOs id r)))"

definition collect_artifacts :: "artifact_env \<Rightarrow> pystr \<Rightarrow> path \<Rightarrow> pystr list \<Rightarrow> artifact_record list artifact_act" where
  "collect_artifacts env job staging references =
     abind (guard (hex_exactly 32 job) (ArtError (u ''artifact job ID is invalid''))) (\<lambda>_.
     abind (guard (int (length references) \<le> al_max_files (ae_limits env) \<and> distinct references)
       (ArtError (u ''artifact references exceed count or uniqueness limits''))) (\<lambda>_.
     abind (reads ah_files) (\<lambda>fs.
     abind (guard (is_dir fs staging) (ArtError (u ''artifact staging root is unavailable''))) (\<lambda>_.
     case validate_artifacts env fs staging references 0 of
       Inl e \<Rightarrow> throw e
     | Inr validated \<Rightarrow>
         abind (on_store (mkdir_ok (ae_root env @ [job]))) (\<lambda>_.
         store_artifacts env job validated)))))"

section \<open>What collecting does\<close>

definition artifact_path :: "artifact_env \<Rightarrow> pystr \<Rightarrow> pystr \<Rightarrow> pystr \<Rightarrow> path" where
  "artifact_path env job aid name = ae_root env @ [job, aid @ u ''-'' @ name]"

text \<open>A copy and its record belong together.\<close>

definition recorded :: "artifact_env \<Rightarrow> pystr \<Rightarrow> fs \<Rightarrow> pystr \<times> bytes \<Rightarrow> artifact_record \<Rightarrow> bool" where
  "recorded env job fs v a \<longleftrightarrow> (\<exists>d. a = artifact_of env job d (fst v) (snd v) \<and> fs (artifact_path env job (af_id a) (fst v)) = Some (File (snd v)))"

lemma validate_Inr:
  "validate_artifacts env fs staging refs used = Inr vs \<Longrightarrow>
     list_all2 (\<lambda>r v. reference_name r = Some (fst v) \<and> fs (staging @ [fst v]) = Some (File (snd v)) \<and>
       int (length (snd v)) \<le> al_max_file_bytes (ae_limits env) \<and> utf8_decode (snd v) \<noteq> None) refs vs \<and>
     (refs \<noteq> [] \<longrightarrow> used + int (sum_list (map (length \<circ> snd) vs)) \<le> al_max_total_bytes (ae_limits env))"
proof (induction refs arbitrary: used vs)
  case (Cons r refs)
  then obtain name b vs' where v: "reference_name r = Some name" "read_artifact (ae_limits env) fs (staging @ [name]) = Inr b"
    "used + int (length b) \<le> al_max_total_bytes (ae_limits env)" "utf8_decode b \<noteq> None"
    "validate_artifacts env fs staging refs (used + int (length b)) = Inr vs'" "vs = (name, b) # vs'"
    by (auto simp: Let_def rbind_Inr_iff split: option.splits if_splits)
  from v(2) have "fs (staging @ [name]) = Some (File b)" "int (length b) \<le> al_max_file_bytes (ae_limits env)"
    by (auto simp: read_artifact_def split: option.splits node.splits if_splits)
  with Cons.IH [OF v(5)] v show ?case
    by (cases refs) (auto simp: algebra_simps)
qed simp

definition copies :: "artifact_env \<Rightarrow> pystr \<Rightarrow> fs \<Rightarrow> artifact_record list \<Rightarrow> path \<Rightarrow> bool" where
  "copies env job fs new q \<longleftrightarrow> (\<exists>a \<in> set new. \<exists>name b. recorded env job fs (name, b) a \<and> q = artifact_path env job (af_id a) name)"

text \<open>Each step of storing keeps the files already there and leaves no copy without a record.\<close>

definition grows :: "artifact_env \<Rightarrow> pystr \<Rightarrow> artifact_host \<Rightarrow> artifact_host \<Rightarrow> bool" where
  "grows env job h h' \<longleftrightarrow>
     (\<exists>new. ah_rows h' = ah_rows h @ new \<and>
       (\<forall>q. ah_files h' q = ah_files h q \<or> ah_files h q = None \<and> copies env job (ah_files h') new q))"

lemma artifact_path_eq: "ae_root env @ [job, aid @ u ''-'' @ name] = artifact_path env job aid name"
  by (simp add: artifact_path_def)

lemma recorded_grows:
  assumes "grows env job h h'" and "recorded env job (ah_files h) v a"
  shows "recorded env job (ah_files h') v a"
proof -
  from assms(2) obtain d where "a = artifact_of env job d (fst v) (snd v)" "ah_files h (artifact_path env job (af_id a) (fst v)) = Some (File (snd v))"
    by (auto simp: recorded_def)
  moreover from this assms(1) have "ah_files h' (artifact_path env job (af_id a) (fst v)) = Some (File (snd v))"
    unfolding grows_def by (metis option.distinct(1))
  ultimately show ?thesis unfolding recorded_def by blast
qed

lemma copies_grows: "grows env job h h' \<Longrightarrow> copies env job (ah_files h) new q \<Longrightarrow> copies env job (ah_files h') new q"
  unfolding copies_def using recorded_grows by blast

lemma copies_append: "copies env job fs (n1 @ n2) q \<longleftrightarrow> copies env job fs n1 q \<or> copies env job fs n2 q"
  unfolding copies_def by auto

lemma grows_refl [simp]: "grows env job h h"
  by (auto simp: grows_def)

lemma grows_trans: "grows env job x y \<Longrightarrow> grows env job y z \<Longrightarrow> grows env job x z"
proof -
  assume xy: "grows env job x y" and yz: "grows env job y z"
  then obtain n1 n2 where rows: "ah_rows y = ah_rows x @ n1" "ah_rows z = ah_rows y @ n2"
    and 1: "\<And>q. ah_files y q = ah_files x q \<or> ah_files x q = None \<and> copies env job (ah_files y) n1 q"
    and 2: "\<And>q. ah_files z q = ah_files y q \<or> ah_files y q = None \<and> copies env job (ah_files z) n2 q"
    unfolding grows_def by blast
  have "ah_files z q = ah_files x q \<or> ah_files x q = None \<and> copies env job (ah_files z) (n1 @ n2) q" for q
    using 1 [of q] 2 [of q] copies_grows [OF yz] unfolding copies_append by metis
  with rows show ?thesis unfolding grows_def by (intro exI [of _ "n1 @ n2"]) simp
qed

lemma store_step_grows:
  assumes "abind (on_store (write_exclusive (artifact_path env job (fst d) name) b)) (\<lambda>_.
     add_record (artifact_path env job (fst d) name) (artifact_of env job d name b)) h = (h', r)"
  shows "grows env job h h' \<and> (r = Inr x \<longrightarrow> recorded env job (ah_files h') (name, b) (artifact_of env job d name b) \<and>
     ah_rows h' = ah_rows h @ [artifact_of env job d name b])"
proof -
  let ?p = "artifact_path env job (fst d) name"
  let ?a = "artifact_of env job d name b"
  have id: "af_id ?a = fst d" by (simp add: artifact_of_def)
  show ?thesis
  proof (cases "exists_path (ah_files h) ?p \<or> \<not> is_dir (ah_files h) (butlast ?p)")
    case True
    with assms have "h' = h \<and> isl r" by (auto simp: on_store_def write_exclusive_def abind_def)
    then show ?thesis by auto
  next
    case False
    then have none: "ah_files h ?p = None" by (simp add: exists_path_def)
    have run: "add_record ?p ?a (h\<lparr>ah_files := (ah_files h)(?p \<mapsto> File b)\<rparr>) = (h', r)"
      using assms False by (simp add: on_store_def write_exclusive_def abind_def)
    show ?thesis
    proof (cases "artifacts_add (ah_rows h) ?a")
      case (Inl e)
      with run have "h' = h\<lparr>ah_files := (ah_files h)(?p := None)\<rparr>" "isl r" by (auto simp: add_record_def)
      moreover have "(ah_files h)(?p := None) = ah_files h" using none by (auto simp: fun_upd_idem)
      ultimately show ?thesis by auto
    next
      case (Inr rows)
      then have rows: "rows = ah_rows h @ [?a]" by (simp add: artifacts_add_def split: if_splits)
      with run Inr have h': "h' = h\<lparr>ah_files := (ah_files h)(?p \<mapsto> File b), ah_rows := ah_rows h @ [?a]\<rparr>"
        by (auto simp: add_record_def)
      have rec: "recorded env job (ah_files h') (name, b) ?a"
        unfolding recorded_def by (rule exI [of _ d]) (simp add: h' id)
      then have "copies env job (ah_files h') [?a] ?p" unfolding copies_def using id by auto
      then have "grows env job h h'"
        unfolding grows_def using none by (intro exI [of _ "[?a]"]) (simp add: h')
      with rec show ?thesis by (simp add: h')
    qed
  qed
qed

lemma store_artifacts_grows:
  "store_artifacts env job vs h = (h', r) \<Longrightarrow> grows env job h h' \<and>
     (\<forall>as. r = Inr as \<longrightarrow> list_all2 (recorded env job (ah_files h')) vs as \<and> ah_rows h' = ah_rows h @ as)"
proof (induction vs arbitrary: h h' r)
  case (Cons v vs)
  obtain name b where v: "v = (name, b)" by (cases v)
  let ?d = "ae_draw env (ah_drawn h)"
  let ?h0 = "h\<lparr>ah_drawn := Suc (ah_drawn h)\<rparr>"
  let ?one = "abind (on_store (write_exclusive (artifact_path env job (fst ?d) name) b)) (\<lambda>_.
     add_record (artifact_path env job (fst ?d) name) (artifact_of env job ?d name b))"
  obtain h1 q where one: "?one ?h0 = (h1, q)" by fastforce
  have run: "store_artifacts env job (v # vs) h = (case q of Inl e \<Rightarrow> (h1, Inl e)
     | Inr _ \<Rightarrow> abind (store_artifacts env job vs) (\<lambda>rs. ret (artifact_of env job ?d name b # rs)) h1)"
    using one by (auto simp: v draw_def Let_def artifact_path_eq abind_def split: prod.splits sum.splits)
  have start: "grows env job h ?h0" by (simp add: grows_def)
  note step = store_step_grows [OF one]
  show ?case
  proof (cases q)
    case (Inl e)
    with run Cons.prems step start show ?thesis by (auto intro: grows_trans)
  next
    case (Inr x)
    obtain h2 p where rest: "store_artifacts env job vs h1 = (h2, p)" by fastforce
    have h': "h' = h2" and r: "r = (case p of Inl e \<Rightarrow> Inl e | Inr rs \<Rightarrow> Inr (artifact_of env job ?d name b # rs))"
      using run Cons.prems Inr rest by (auto simp: abind_def split: sum.splits)
    note IH = Cons.IH [OF rest]
    have "grows env job h h'" using IH step start h' by (auto intro: grows_trans)
    moreover have "recorded env job (ah_files h2) (name, b) (artifact_of env job ?d name b)"
      using step Inr IH recorded_grows by blast
    ultimately show ?thesis using IH step Inr h' r v by (auto split: sum.splits)
  qed
qed simp

lemma mkdir_ok_files:
  "mkdir_ok p fs = (fs', r) \<Longrightarrow> fs' = fs \<or> fs p = None \<and> fs' = fs(p \<mapsto> Dir)"
  by (auto simp: mkdir_ok_def mkdir_one_def exists_path_def split: if_splits prod.splits)

lemma mkdir_ok_failed: "mkdir_ok p fs = (fs', Inl e) \<Longrightarrow> fs' = fs"
  by (auto simp: mkdir_ok_def mkdir_one_def exists_path_def split: if_splits prod.splits)

lemma collect_cases:
  assumes "collect_artifacts env job staging references h = (h', r)"
  obtains (refused) e where "h' = h" and "r = Inl e"
  | (stored) vs fs where "hex_exactly 32 job" and "distinct references" and "int (length references) \<le> al_max_files (ae_limits env)"
      and "validate_artifacts env (ah_files h) staging references 0 = Inr vs"
      and "fs = ah_files h \<or> ah_files h (ae_root env @ [job]) = None \<and> fs = (ah_files h)(ae_root env @ [job] \<mapsto> Dir)"
      and "store_artifacts env job vs (h\<lparr>ah_files := fs\<rparr>) = (h', r)"
proof (cases "hex_exactly 32 job \<and> int (length references) \<le> al_max_files (ae_limits env) \<and> distinct references \<and> is_dir (ah_files h) staging")
  case True
  show thesis
  proof (cases "validate_artifacts env (ah_files h) staging references 0")
    case (Inl e)
    with True assms show thesis by (intro refused) (auto simp: collect_artifacts_def)
  next
    case (Inr vs)
    obtain fs q where m: "mkdir_ok (ae_root env @ [job]) (ah_files h) = (fs, q)" by fastforce
    have run: "abind (\<lambda>h. (h\<lparr>ah_files := fs\<rparr>, q)) (\<lambda>_. store_artifacts env job vs) h = (h', r)"
      using assms True Inr m by (simp add: collect_artifacts_def on_store_def abind_def)
    show thesis
    proof (cases q)
      case (Inl e)
      with m have "fs = ah_files h" using mkdir_ok_failed by blast
      with run Inl show thesis by (intro refused) (auto simp: abind_def)
    next
      case (Inr x)
      with run mkdir_ok_files [OF m] True \<open>validate_artifacts env (ah_files h) staging references 0 = Inr vs\<close>
      show thesis by (intro stored [of vs fs]) (auto simp: abind_def)
    qed
  qed
qed (use assms in \<open>auto simp: collect_artifacts_def intro: refused split: if_splits\<close>)

lemma recorded_fields:
  "recorded env job fs (name, b) a \<Longrightarrow> fs (artifact_path env job (af_id a) name) = Some (File b) \<and> af_job_id a = job \<and>
     af_path a = path_str (artifact_path env job (af_id a) name) \<and>
     af_size_bytes a = Some (int (length b)) \<and> af_sha256 a = Some (hexdigest (ae_sha env) b)"
  by (auto simp: recorded_def artifact_of_def artifact_path_def)

lemma sizes_recorded: "list_all2 (recorded env job fs) vs as \<Longrightarrow> sum_list (map (\<lambda>a. the (af_size_bytes a)) as) = int (sum_list (map (length \<circ> snd) vs))"
  by (induction rule: list_all2_induct) (auto dest: recorded_fields)


section \<open>A collection\<close>

definition demo_collector :: artifact_env where
  "demo_collector = \<lparr>ae_limits = \<lparr>al_max_files = 16, al_max_file_bytes = 8, al_max_total_bytes = 8\<rparr>, ae_root = [u ''art''],
     ae_draw = (\<lambda>n. (u ''id'', int n)), ae_sha = (\<lambda>b. 7), ae_printable = (\<lambda>c. True)\<rparr>"

definition demo_store :: artifact_host where
  "demo_store = \<lparr>ah_files = [[] \<mapsto> Dir, [u ''art''] \<mapsto> Dir, [u ''stage''] \<mapsto> Dir, [u ''stage'', u ''log''] \<mapsto> File [104, 105]],
     ah_rows = [], ah_drawn = 0\<rparr>"

lemma demo_names: "reference_name (u ''guest-artifact/log'') = Some (u ''log'')" "utf8_decode [104, 105] \<noteq> None"
  "artifact_binds (artifact_of demo_collector demo_jobid (u ''id'', 0) (u ''log'') [104, 105])"
  by code_simp+

lemma demo_collects:
  "\<not> isl (snd (collect_artifacts demo_collector demo_jobid [u ''stage''] [u ''guest-artifact/log''] demo_store))"
  using demo_names demo_ids(1)
  by (auto simp: collect_artifacts_def demo_store_def demo_collector_def abind_def guard_def is_dir_def read_artifact_def
      on_store_def mkdir_ok_def mkdir_one_def exists_path_def draw_def write_exclusive_def add_record_def artifacts_add_def
      Let_def u_eq_iff)


end
