(* ===== verification/SandboxBackend.thy ===== *)
theory SandboxBackend
  imports WorkerProtocol Workspaces
begin

text \<open>
  \<open>night_shifts/backends/sandbox_worker.py\<close>: one task in one disposable sandbox.  Every foreign call
  (sandbox provider, channel, workspace provider, artifact retriever, event sinks, clock) is a
  parameter acting on a world \<open>'w\<close> and may raise; the model keeps a trace of the calls made and
  whether they raised, for the statements only.  The pump thread and its queue are one parameter: what
  the next \<open>get\<close> finds, if anything.  Times count microseconds.
\<close>

section \<open>State\<close>

datatype stream_item = StreamEvent | StreamError pystr | StreamDone

datatype sandbox_call =
    SPrepare | SCreate | SInject bool | SStart | SStatus | SSend | SNext | SResult | SClose | SJoin
  | SRetrieve | SCollect | SUnstage | SDestroy | SDropWorkspace | SRecord pystr | SClock | SSleep | SCancelled

record 'w sandbox_env =
  sx_create :: "pystr \<Rightarrow> 'w \<Rightarrow> 'w \<times> (pystr + sandbox_record)"
  sx_start :: "sandbox_record \<Rightarrow> 'w \<Rightarrow> 'w \<times> (pystr + unit)"
  sx_status :: "sandbox_record \<Rightarrow> 'w \<Rightarrow> 'w \<times> (pystr + sandbox_status)"
  sx_destroy :: "sandbox_record \<Rightarrow> 'w \<Rightarrow> 'w \<times> (pystr + unit)"
  sx_send :: "sandbox_record \<Rightarrow> worker_task \<Rightarrow> 'w \<Rightarrow> 'w \<times> (pystr + unit)"
  sx_next :: "int \<Rightarrow> 'w \<Rightarrow> 'w \<times> (pystr + stream_item option)"
  sx_result :: "sandbox_record \<Rightarrow> 'w \<Rightarrow> 'w \<times> (pystr + worker_result)"
  sx_close :: "sandbox_record \<Rightarrow> 'w \<Rightarrow> 'w \<times> (pystr + unit)"
  sx_join :: "'w \<Rightarrow> 'w"
  sx_prepare :: "(pystr \<Rightarrow> pystr \<Rightarrow> pystr \<Rightarrow> 'w \<Rightarrow> 'w \<times> (pystr + prepared_workspace)) option"
  sx_drop :: "prepared_workspace \<Rightarrow> 'w \<Rightarrow> 'w \<times> (pystr + unit)"
  sx_inject :: "sandbox_record \<Rightarrow> prepared_workspace \<Rightarrow> bool \<Rightarrow> 'w \<Rightarrow> 'w \<times> (pystr + unit)"
  sx_artifacts :: bool
  sx_retrieve :: "sandbox_record \<Rightarrow> pystr list \<Rightarrow> 'w \<Rightarrow> 'w \<times> (pystr + pystr list)"
  sx_collect :: "pystr list \<Rightarrow> 'w \<Rightarrow> 'w \<times> (pystr + nat)"
  sx_unstage :: "'w \<Rightarrow> 'w \<times> (pystr + unit)"
  sx_record :: "pystr \<Rightarrow> (pystr \<times> json) list \<Rightarrow> 'w \<Rightarrow> 'w \<times> (pystr + unit)"
  sx_record_stream :: "'w \<Rightarrow> 'w \<times> (pystr + unit)"
  sx_cancelled :: "('w \<Rightarrow> 'w \<times> (pystr + bool)) option"
  sx_now :: "'w \<Rightarrow> 'w \<times> int"
  sx_sleep :: "int \<Rightarrow> 'w \<Rightarrow> 'w \<times> (pystr + unit)"
  sx_poll :: int
  sx_timeout_text :: pystr
  sx_timeout_json :: json

text \<open>The locals of \<open>run\<close> that its \<open>finally\<close> reads, the world, the trace, and whether a loop ran out of fuel.\<close>

record 'w backend_state =
  bk_sandbox :: "sandbox_record option"
  bk_workspace :: "prepared_workspace option"
  bk_result :: "worker_result option"
  bk_reader :: bool
  bk_world :: 'w
  bk_trace :: "(sandbox_call \<times> bool) list"
  bk_stuck :: bool

type_synonym ('w, 'a) backend_act = "('w backend_state, pystr, 'a) act"

definition foreign :: "sandbox_call \<Rightarrow> ('w \<Rightarrow> 'w \<times> (pystr + 'a)) \<Rightarrow> ('w, 'a) backend_act" where
  "foreign c f = (\<lambda>s. case f (bk_world s) of (w, r) \<Rightarrow>
     (s\<lparr>bk_world := w, bk_trace := bk_trace s @ [(c, \<not> isl r)]\<rparr>, r))"

definition clock :: "'w sandbox_env \<Rightarrow> ('w, int) backend_act" where
  "clock env = foreign SClock (\<lambda>w. case sx_now env w of (w', t) \<Rightarrow> (w', Inr t))"

definition host_event :: "'w sandbox_env \<Rightarrow> string \<Rightarrow> (pystr \<times> json) list \<Rightarrow> ('w, unit) backend_act" where
  "host_event env kind payload = foreign (SRecord (u kind)) (sx_record env (u kind) payload)"

definition sandbox_fields :: "sandbox_record \<Rightarrow> (pystr \<times> json) list" where
  "sandbox_fields sb = [(u ''sandbox_id'', JStr (sb_sandbox_id sb))]"

section \<open>The parts of a run\<close>

definition failure :: "'w sandbox_env \<Rightarrow> worker_task \<Rightarrow> string \<Rightarrow> pystr \<Rightarrow> ('w, worker_result) backend_act" where
  "failure env task kind err =
     abind (host_event env kind [(u ''error'', JStr err)]) (\<lambda>_.
     ret (plain_result (tk_job_id task) WO_FAILED (u ''Sandbox worker failed.'') (Some err)))"

definition abort_result :: "'w sandbox_env \<Rightarrow> worker_task \<Rightarrow> int \<Rightarrow> ('w, worker_result option) backend_act" where
  "abort_result env task deadline =
     abind (case sx_cancelled env of None \<Rightarrow> ret False | Some f \<Rightarrow> foreign SCancelled f) (\<lambda>cancelled.
     if cancelled then
       abind (host_event env ''worker_cancelled'' []) (\<lambda>_.
       ret (Some (plain_result (tk_job_id task) WO_CANCELLED (u ''Sandbox worker was cancelled.'') None)))
     else
       abind (clock env) (\<lambda>now.
       if deadline \<le> now then
         abind (host_event env ''worker_timed_out'' [(u ''timeout_seconds'', sx_timeout_json env)]) (\<lambda>_.
         ret (Some (plain_result (tk_job_id task) WO_TIMED_OUT
           (u ''Sandbox worker exceeded its '' @ sx_timeout_text env @ u ''-second timeout.'') None)))
       else ret None))"

definition host_prepare :: "'w sandbox_env \<Rightarrow> worker_task \<Rightarrow> ('w, prepared_workspace option) backend_act" where
  "host_prepare env task = (case sx_prepare env of
     None \<Rightarrow> ret None
   | Some prepare \<Rightarrow> (case (tk_repository_id task, tk_starting_revision task) of
         (Some rid, Some rev0) \<Rightarrow>
           abind (foreign SPrepare (prepare (tk_job_id task) rid rev0)) (\<lambda>ws.
           abind (host_event env ''workspace_prepared''
             [(u ''repository_id'', JStr (pw_repository_id ws)), (u ''revision'', JStr (pw_revision ws))]) (\<lambda>_.
           ret (Some ws)))
       | _ \<Rightarrow> throw (u ''Workspace execution requires a repository ID and revision'')))"

definition inject_workspace :: "'w sandbox_env \<Rightarrow> sandbox_record \<Rightarrow> prepared_workspace option \<Rightarrow> worker_task \<Rightarrow> ('w, unit) backend_act" where
  "inject_workspace env sb ws task = (case ws of
     None \<Rightarrow> ret ()
   | Some w \<Rightarrow>
       (let read_only = tk_worker_profile task \<noteq> u ''coding-worker'' in
        abind (foreign (SInject read_only) (sx_inject env sb w read_only)) (\<lambda>_.
        host_event env ''workspace_injected'' (sandbox_fields sb @ [(u ''read_only'', JBool read_only)]))))"

definition sleep_until_poll :: "'w sandbox_env \<Rightarrow> int \<Rightarrow> ('w, unit) backend_act" where
  "sleep_until_poll env deadline =
     abind (clock env) (\<lambda>now.
     if 0 < deadline - now then foreign SSleep (sx_sleep env (min (sx_poll env) (deadline - now))) else ret ())"

definition out_of_fuel :: "('w, 'a) backend_act" where
  "out_of_fuel = abind (writes (\<lambda>s. s\<lparr>bk_stuck := True\<rparr>)) (\<lambda>_. throw [])"

text \<open>The two loops, one unit of fuel a round; the first returns a result when the run ends before the sandbox runs.\<close>

fun await_running :: "'w sandbox_env \<Rightarrow> worker_task \<Rightarrow> sandbox_record \<Rightarrow> int \<Rightarrow> nat \<Rightarrow> ('w, worker_result option) backend_act" where
  "await_running env task sb deadline 0 = out_of_fuel"
| "await_running env task sb deadline (Suc n) =
     abind (abort_result env task deadline) (\<lambda>a. case a of
       Some r \<Rightarrow> ret (Some r)
     | None \<Rightarrow>
         abind (foreign SStatus (sx_status env sb)) (\<lambda>st.
         if st = SB_RUNNING then ret None
         else if st \<in> {SB_ERROR, SB_STOPPED, SB_DESTROYED} then
           abind (failure env task ''sandbox_start_failed''
             (u ''Sandbox entered unexpected state '' @ [39] @ sandbox_status_value st @ [39] @ u '' during startup'')) (\<lambda>r.
           ret (Some r))
         else abind (sleep_until_poll env deadline) (\<lambda>_. await_running env task sb deadline n)))"

fun await_result :: "'w sandbox_env \<Rightarrow> worker_task \<Rightarrow> sandbox_record \<Rightarrow> int \<Rightarrow> nat \<Rightarrow> ('w, worker_result) backend_act" where
  "await_result env task sb deadline 0 = out_of_fuel"
| "await_result env task sb deadline (Suc n) =
     abind (abort_result env task deadline) (\<lambda>a. case a of
       Some r \<Rightarrow> ret r
     | None \<Rightarrow>
         abind (clock env) (\<lambda>now.
         abind (foreign SNext (sx_next env (min (sx_poll env) (max 0 (deadline - now))))) (\<lambda>item. case item of
           None \<Rightarrow> await_result env task sb deadline n
         | Some StreamEvent \<Rightarrow>
             abind (foreign (SRecord (u ''worker event'')) (sx_record_stream env)) (\<lambda>_. await_result env task sb deadline n)
         | Some (StreamError t) \<Rightarrow> failure env task ''sandbox_protocol_error'' t
         | Some StreamDone \<Rightarrow>
             abind (foreign SResult (sx_result env sb)) (\<lambda>r.
             abind (host_event env ''worker_result_received'' [(u ''outcome'', JStr (worker_outcome_value (wr_outcome r)))]) (\<lambda>_.
             ret r)))))"

text \<open>The pair it returns: the reader is set exactly when the second loop was entered and returned.\<close>

definition run_started :: "'w sandbox_env \<Rightarrow> worker_task \<Rightarrow> sandbox_record \<Rightarrow> int \<Rightarrow> nat \<Rightarrow> ('w, worker_result \<times> bool) backend_act" where
  "run_started env task sb deadline fuel =
     abind (await_running env task sb deadline fuel) (\<lambda>early. case early of
       Some r \<Rightarrow> ret (r, False)
     | None \<Rightarrow>
         abind (host_event env ''sandbox_running'' (sandbox_fields sb)) (\<lambda>_.
         abind (foreign SSend (sx_send env sb task)) (\<lambda>_.
         abind (host_event env ''sandbox_task_sent'' (sandbox_fields sb)) (\<lambda>_.
         abind (await_result env task sb deadline fuel) (\<lambda>r. ret (r, True))))))"

text \<open>The body of the inner \<open>try\<close>, before and after the sandbox exists.\<close>

definition run_in_sandbox :: "'w sandbox_env \<Rightarrow> worker_task \<Rightarrow> sandbox_record \<Rightarrow> prepared_workspace option \<Rightarrow> int \<Rightarrow> nat \<Rightarrow> ('w, unit) backend_act" where
  "run_in_sandbox env task sb ws deadline fuel =
     abind (host_event env ''sandbox_created'' (sandbox_fields sb @ [(u ''backend'', JStr (sb_backend sb))])) (\<lambda>_.
     abind (inject_workspace env sb ws task) (\<lambda>_.
     abind (abort_result env task deadline) (\<lambda>a. case a of
       Some r \<Rightarrow> writes (\<lambda>s. s\<lparr>bk_result := Some r\<rparr>)
     | None \<Rightarrow>
         abind (foreign SStart (sx_start env sb)) (\<lambda>_.
         abind (host_event env ''sandbox_started'' (sandbox_fields sb)) (\<lambda>_.
         abind (run_started env task sb deadline fuel) (\<lambda>(r, reader).
         writes (\<lambda>s. s\<lparr>bk_result := Some r, bk_reader := reader\<rparr>)))))))"

definition run_body :: "'w sandbox_env \<Rightarrow> worker_task \<Rightarrow> int \<Rightarrow> nat \<Rightarrow> ('w, unit) backend_act" where
  "run_body env task deadline fuel =
     abind (host_prepare env task) (\<lambda>ws.
     abind (writes (\<lambda>s. s\<lparr>bk_workspace := ws\<rparr>)) (\<lambda>_.
     abind (foreign SCreate (sx_create env (tk_job_id task))) (\<lambda>sb.
     abind (writes (\<lambda>s. s\<lparr>bk_sandbox := Some sb\<rparr>)) (\<lambda>_.
     run_in_sandbox env task sb ws deadline fuel))))"

text \<open>\<open>except Exception\<close>: the failure becomes the result.\<close>

definition guarded_body :: "'w sandbox_env \<Rightarrow> worker_task \<Rightarrow> int \<Rightarrow> nat \<Rightarrow> ('w, unit) backend_act" where
  "guarded_body env task deadline fuel = (\<lambda>s. case run_body env task deadline fuel s of
     (s1, Inr _) \<Rightarrow> (s1, Inr ())
   | (s1, Inl e) \<Rightarrow> abind (failure env task ''sandbox_worker_failed'' e) (\<lambda>r. writes (\<lambda>s. s\<lparr>bk_result := Some r\<rparr>)) s1)"

section \<open>Cleaning up\<close>

text \<open>\<open>attempt label m\<close> is \<open>try: m except Exception as exc: errors.append(label + str(exc))\<close>.\<close>

definition attempt :: "string \<Rightarrow> ('w, unit) backend_act \<Rightarrow> ('w, pystr list) backend_act" where
  "attempt label m = (\<lambda>s. case m s of (s', Inr _) \<Rightarrow> (s', Inr []) | (s', Inl e) \<Rightarrow> (s', Inr [u label @ e]))"

definition collect_retrieved :: "'w sandbox_env \<Rightarrow> pystr list \<Rightarrow> pystr list \<Rightarrow> ('w, unit) backend_act" where
  "collect_retrieved env references retrieved =
     abind (guard (retrieved = references) (u ''Artifact retriever changed the requested references'')) (\<lambda>_.
     abind (foreign SCollect (sx_collect env retrieved)) (\<lambda>count.
     host_event env ''worker_artifacts_collected'' [(u ''count'', JInt (int count))]))"

definition retrieve_artifacts :: "'w sandbox_env \<Rightarrow> sandbox_record \<Rightarrow> pystr list \<Rightarrow> ('w, pystr list) backend_act" where
  "retrieve_artifacts env sb references =
     (if \<not> sx_artifacts env then ret [u ''worker returned artifacts but no artifact retriever is configured'']
      else (\<lambda>s. case foreign SRetrieve (sx_retrieve env sb references) s of
         (s1, Inl e) \<Rightarrow> (s1, Inr [u ''artifact retrieval failed: '' @ e])
       | (s1, Inr retrieved) \<Rightarrow>
           abind (attempt ''artifact retrieval failed: '' (collect_retrieved env references retrieved)) (\<lambda>err.
           abind (attempt ''artifact staging cleanup failed: '' (foreign SUnstage (sx_unstage env))) (\<lambda>unstage.
           ret (if err @ unstage = [] then [] else [join (u ''; '') (err @ unstage)]))) s1))"

text \<open>The event after a successful destruction is recorded outside any handler.\<close>

definition destroy_sandbox :: "'w sandbox_env \<Rightarrow> sandbox_record \<Rightarrow> ('w, pystr list) backend_act" where
  "destroy_sandbox env sb = (\<lambda>s. case foreign SDestroy (sx_destroy env sb) s of
     (s1, Inl e) \<Rightarrow> (s1, Inr [u ''sandbox destroy failed: '' @ e])
   | (s1, Inr _) \<Rightarrow> abind (host_event env ''sandbox_destroyed'' (sandbox_fields sb)) (\<lambda>_. ret []) s1)"

definition quiesce :: "'w sandbox_env \<Rightarrow> sandbox_record \<Rightarrow> bool \<Rightarrow> worker_result option \<Rightarrow> ('w, pystr list) backend_act" where
  "quiesce env sb reader result =
     abind (attempt ''channel close failed: '' (foreign SClose (sx_close env sb))) (\<lambda>e1.
     abind (if reader then foreign SJoin (\<lambda>w. (sx_join env w, Inr ())) else ret ()) (\<lambda>_.
     abind (case result of None \<Rightarrow> ret []
        | Some r \<Rightarrow> if wr_artifacts r = [] then ret [] else retrieve_artifacts env sb (wr_artifacts r)) (\<lambda>e2.
     ret (e1 @ e2))))"

definition cleanup_sandbox :: "'w sandbox_env \<Rightarrow> sandbox_record option \<Rightarrow> bool \<Rightarrow> worker_result option \<Rightarrow> ('w, pystr list) backend_act" where
  "cleanup_sandbox env sandbox reader result = (case sandbox of
     None \<Rightarrow> ret []
   | Some sb \<Rightarrow> abind (quiesce env sb reader result) (\<lambda>e. abind (destroy_sandbox env sb) (\<lambda>e3. ret (e @ e3))))"

definition cleanup_workspace :: "'w sandbox_env \<Rightarrow> prepared_workspace option \<Rightarrow> ('w, pystr list) backend_act" where
  "cleanup_workspace env workspace = (case workspace of
     None \<Rightarrow> ret []
   | Some w \<Rightarrow> attempt ''workspace cleanup failed: '' (foreign SDropWorkspace (sx_drop env w)))"

definition report_errors :: "'w sandbox_env \<Rightarrow> sandbox_record option \<Rightarrow> pystr list \<Rightarrow> ('w, pystr option) backend_act" where
  "report_errors env sandbox errors =
     (if errors = [] then ret None
      else
        abind (host_event env ''sandbox_cleanup_failed''
          [(u ''sandbox_id'', case sandbox of None \<Rightarrow> JNull | Some sb \<Rightarrow> JStr (sb_sandbox_id sb)), (u ''error'', JStr (join (u ''; '') errors))]) (\<lambda>_.
        ret (Some (join (u ''; '') errors))))"

definition cleanup :: "'w sandbox_env \<Rightarrow> sandbox_record option \<Rightarrow> prepared_workspace option \<Rightarrow> worker_result option \<Rightarrow> bool \<Rightarrow> ('w, pystr option) backend_act" where
  "cleanup env sandbox workspace result reader =
     abind (cleanup_sandbox env sandbox reader result) (\<lambda>e1.
     abind (cleanup_workspace env workspace) (\<lambda>e2.
     report_errors env sandbox (e1 @ e2)))"

text \<open>\<open>run\<close>: \<open>None\<close> when it did not return within the fuel.  An exception of the handlers passes through the \<open>finally\<close>.\<close>

definition backend_start :: "'w \<Rightarrow> 'w backend_state" where
  "backend_start w = \<lparr>bk_sandbox = None, bk_workspace = None, bk_result = None, bk_reader = False, bk_world = w, bk_trace = [], bk_stuck = False\<rparr>"

definition run_all :: "'w sandbox_env \<Rightarrow> worker_task \<Rightarrow> int \<Rightarrow> nat \<Rightarrow> ('w, worker_result) backend_act" where
  "run_all env task timeout fuel =
     abind (clock env) (\<lambda>now s. case guarded_body env task (now + timeout) fuel s of (s1, r1) \<Rightarrow>
       (case cleanup env (bk_sandbox s1) (bk_workspace s1) (bk_result s1) (bk_reader s1) s1 of
         (s2, Inl e) \<Rightarrow> (s2, Inl e)
       | (s2, Inr (Some err)) \<Rightarrow> (s2, case r1 of Inl e \<Rightarrow> Inl e
           | Inr _ \<Rightarrow> Inr (plain_result (tk_job_id task) WO_FAILED (u ''Sandbox cleanup failed.'') (Some err)))
       | (s2, Inr None) \<Rightarrow> (s2, case r1 of Inl e \<Rightarrow> Inl e
           | Inr _ \<Rightarrow> (case bk_result s1 of Some r \<Rightarrow> Inr r | None \<Rightarrow> Inl []))))"

definition run_backend :: "'w sandbox_env \<Rightarrow> worker_task \<Rightarrow> int \<Rightarrow> nat \<Rightarrow> 'w \<Rightarrow> ('w backend_state \<times> (pystr + worker_result)) option" where
  "run_backend env task timeout fuel w =
     (if timeout \<le> 0 then Some (backend_start w, Inl (u ''timeout_seconds must be positive''))
      else (let (s, r) = run_all env task timeout fuel (backend_start w) in if bk_stuck s then None else Some (s, r)))"

section \<open>What each part may call\<close>

text \<open>\<open>calls A\<close>: only calls of \<open>A\<close> are added to the trace, and the sandbox and the workspace of the run stay.\<close>

definition calls :: "sandbox_call set \<Rightarrow> 'w backend_state \<Rightarrow> 'w backend_state \<Rightarrow> bool" where
  "calls A s s' \<longleftrightarrow> (\<exists>tr. bk_trace s' = bk_trace s @ tr \<and> set tr \<subseteq> A \<times> UNIV) \<and>
     bk_sandbox s' = bk_sandbox s \<and> bk_workspace s' = bk_workspace s"

lemma reflp_calls [simp]: "calls A s s" "reflp (calls A)"
  by (auto simp: calls_def intro: reflpI)

lemma transp_calls [simp]: "transp (calls A)"
  unfolding calls_def by (rule transpI) force

lemma keeps_foreign [inv_intros]: "c \<in> A \<Longrightarrow> keeps (calls A) (foreign c f)"
  by (rule keepsI) (auto simp: foreign_def calls_def split: prod.splits)

lemma keeps_attempt [inv_intros]: "keeps R m \<Longrightarrow> keeps R (attempt l m)"
  by (auto simp: keeps_def attempt_def split: prod.splits sum.splits) (metis fst_conv)+

lemma keeps_calls_misc [inv_intros]:
  "keeps (calls A) (ret x)" "keeps (calls A) (throw e)" "keeps (calls A) (reads g)"
  "(\<And>s. calls A s (h s)) \<Longrightarrow> keeps (calls A) (writes h)"
  by (auto simp: keeps_def)

lemma keeps_case [inv_intros]:
  "\<lbrakk>keeps R m; \<And>x. keeps R (f x)\<rbrakk> \<Longrightarrow> keeps R (case v of None \<Rightarrow> m | Some x \<Rightarrow> f x)"
  "(\<And>x y. keeps R (g x y)) \<Longrightarrow> keeps R (case p of (x, y) \<Rightarrow> g x y)"
  by (auto split: option.splits prod.splits)

definition working :: "sandbox_call set" where
  "working = {SInject True, SInject False, SStart, SStatus, SSend, SNext, SResult, SClock, SSleep, SCancelled} \<union> range SRecord"

lemma in_working [simp]:
  "SInject b \<in> working" "SStart \<in> working" "SStatus \<in> working" "SSend \<in> working" "SNext \<in> working" "SResult \<in> working"
  "SClock \<in> working" "SSleep \<in> working" "SCancelled \<in> working" "SRecord e \<in> working"
  by (cases b; simp add: working_def) (simp_all add: working_def)

lemma not_working:
  "c \<in> working \<Longrightarrow> c \<notin> {SPrepare, SCreate, SClose, SJoin, SRetrieve, SCollect, SUnstage, SDestroy, SDropWorkspace}"
  by (auto simp: working_def)

lemma keeps_host_event [inv_intros]: "range SRecord \<subseteq> A \<Longrightarrow> keeps (calls A) (host_event env k p)"
  unfolding host_event_def by (auto intro!: inv_intros)

lemma records_working [simp]: "range SRecord \<subseteq> working"
  by (auto simp: working_def)

lemma keeps_failure [inv_intros]: "range SRecord \<subseteq> A \<Longrightarrow> keeps (calls A) (failure env task k e)"
  unfolding failure_def by (intro inv_intros transp_calls) auto

lemma keeps_abort_result [inv_intros]: "keeps (calls working) (abort_result env task d)"
  unfolding abort_result_def clock_def by (intro inv_intros transp_calls) auto

lemma keeps_out_of_fuel [inv_intros]: "keeps (calls A) out_of_fuel"
  unfolding out_of_fuel_def by (intro inv_intros transp_calls) (auto simp: calls_def)

lemma keeps_sleep [inv_intros]: "keeps (calls working) (sleep_until_poll env d)"
  unfolding sleep_until_poll_def clock_def by (intro inv_intros transp_calls) auto

lemma keeps_await_running [inv_intros]: "keeps (calls working) (await_running env task sb d n)"
  by (induction n) (auto intro!: inv_intros)

lemma keeps_await_result [inv_intros]: "keeps (calls working) (await_result env task sb d n)"
  by (induction n) (auto intro!: inv_intros simp: clock_def split: stream_item.split)

lemma keeps_run_started [inv_intros]: "keeps (calls working) (run_started env task sb d n)"
  unfolding run_started_def by (intro inv_intros transp_calls) auto

lemma keeps_inject [inv_intros]: "keeps (calls working) (inject_workspace env sb ws task)"
  unfolding inject_workspace_def Let_def by (intro inv_intros transp_calls) auto

lemma keeps_run_in_sandbox [inv_intros]: "keeps (calls working) (run_in_sandbox env task sb ws d n)"
  unfolding run_in_sandbox_def by (intro inv_intros transp_calls) (auto simp: calls_def)

section \<open>The shape of a run's trace\<close>

definition records :: "sandbox_call set" where
  "records = range SRecord"

lemma keeps_prepare: "keeps (calls (insert SPrepare records)) (host_prepare env task)"
  unfolding host_prepare_def records_def by (intro inv_intros transp_calls) (auto intro!: inv_intros)

lemma callsE:
  assumes "keeps (calls A) m" and "m s = (s', r)"
  obtains tr where "bk_trace s' = bk_trace s @ tr" and "set tr \<subseteq> A \<times> UNIV"
    and "bk_sandbox s' = bk_sandbox s" and "bk_workspace s' = bk_workspace s"
  using keepsD [OF assms] that by (auto simp: calls_def)

text \<open>\<open>lived tr\<close>: how far a run got with its sandbox before the cleanup.\<close>

definition unborn :: "(sandbox_call \<times> bool) list \<Rightarrow> bool" where
  "unborn tr \<longleftrightarrow> set tr \<subseteq> insert (SCreate, False) (({SClock, SPrepare} \<union> records) \<times> UNIV)"

definition alive :: "(sandbox_call \<times> bool) list \<Rightarrow> bool" where
  "alive tr \<longleftrightarrow> (\<exists>pre mid. tr = pre @ (SCreate, True) # mid \<and> set pre \<subseteq> ({SClock, SPrepare} \<union> records) \<times> UNIV \<and> set mid \<subseteq> working \<times> UNIV)"

lemma unborn_records: "unborn tr \<Longrightarrow> set tr' \<subseteq> records \<times> UNIV \<Longrightarrow> unborn (tr @ tr')"
  by (auto simp: unborn_def records_def)

lemma alive_working: "alive tr \<Longrightarrow> set tr' \<subseteq> working \<times> UNIV \<Longrightarrow> alive (tr @ tr')"
  unfolding alive_def by (elim exE conjE) (rule_tac x = pre in exI, rule_tac x = "mid @ tr'" in exI, auto)

lemma run_body_shape:
  assumes "run_body env task d n s = (s', r)" and "bk_sandbox s = None" and "bk_trace s = [(SClock, c)]"
  shows "if bk_sandbox s' = None then unborn (bk_trace s') else alive (bk_trace s')"
proof -
  obtain s1 q where p: "host_prepare env task s = (s1, q)" by fastforce
  then obtain tr where tr: "bk_trace s1 = bk_trace s @ tr" "set tr \<subseteq> (insert SPrepare records) \<times> UNIV" "bk_sandbox s1 = None"
    by (rule callsE [OF keeps_prepare]) (use assms(2) in auto)
  show ?thesis
  proof (cases q)
    case (Inl e)
    with assms p tr show ?thesis by (auto simp: run_body_def abind_eq unborn_def records_def)
  next
    case (Inr ws)
    obtain w' v where v: "sx_create env (tk_job_id task) (bk_world s1) = (w', v)" by fastforce
    show ?thesis
    proof (cases v)
      case (Inl e)
      with assms p tr Inr v show ?thesis by (auto simp: run_body_def abind_eq foreign_def unborn_def records_def)
    next
      case (Inr sb)
      let ?s2 = "s1\<lparr>bk_workspace := ws, bk_world := w', bk_trace := bk_trace s1 @ [(SCreate, True)], bk_sandbox := Some sb\<rparr>"
      have "run_in_sandbox env task sb ws d n ?s2 = (s', r)"
        using assms(1) p \<open>q = Inr ws\<close> v Inr by (simp add: run_body_def abind_eq foreign_def)
      then obtain mid where "bk_trace s' = bk_trace ?s2 @ mid" "set mid \<subseteq> working \<times> UNIV" "bk_sandbox s' = Some sb"
        by (rule callsE [OF keeps_run_in_sandbox]) simp
      moreover have "set ((SClock, c) # tr) \<subseteq> ({SClock, SPrepare} \<union> records) \<times> UNIV" using tr by auto
      ultimately show ?thesis
        using assms(3) tr unfolding alive_def
        by (simp, intro exI [of _ "(SClock, c) # tr"] exI [of _ mid]) auto
    qed
  qed
qed

text \<open>The cleanup destroys the sandbox once, and only the workspace and the event sinks are called after that.\<close>

definition collecting :: "sandbox_call set" where
  "collecting = {SClose, SJoin, SRetrieve, SCollect, SUnstage} \<union> records"

lemma in_collecting [simp]:
  "SClose \<in> collecting" "SJoin \<in> collecting" "SRetrieve \<in> collecting" "SCollect \<in> collecting" "SUnstage \<in> collecting"
  "range SRecord \<subseteq> collecting" "SDestroy \<notin> collecting" "SCreate \<notin> collecting"
  by (auto simp: collecting_def records_def)

definition never_raises :: "('w, 'a) backend_act \<Rightarrow> bool" where
  "never_raises m \<longleftrightarrow> (\<forall>s. \<exists>s' x. m s = (s', Inr x))"

lemma never_raises_intros [inv_intros]:
  "never_raises (ret x)" "never_raises (reads g)" "never_raises (attempt l m)" "never_raises (foreign c (\<lambda>w. (h w, Inr y)))"
  by (auto simp: never_raises_def attempt_def foreign_def split: prod.splits sum.splits)

lemma never_raises_abind [inv_intros]: "never_raises m \<Longrightarrow> (\<And>x. never_raises (f x)) \<Longrightarrow> never_raises (abind m f)"
  unfolding never_raises_def abind_def by (metis (no_types, lifting) case_prod_conv sum.simps(6))

lemma never_raises_case [inv_intros]:
  "\<lbrakk>never_raises m; \<And>x. never_raises (f x)\<rbrakk> \<Longrightarrow> never_raises (case v of None \<Rightarrow> m | Some x \<Rightarrow> f x)"
  "\<lbrakk>never_raises m1; never_raises m2\<rbrakk> \<Longrightarrow> never_raises (if c then m1 else m2)"
  by (auto split: option.split)

lemma never_raises_retrieve [inv_intros]: "never_raises (retrieve_artifacts env sb refs)"
  by (auto simp: retrieve_artifacts_def never_raises_def attempt_def abind_def split: prod.splits sum.splits)

lemma keeps_collect_retrieved [inv_intros]: "keeps (calls collecting) (collect_retrieved env refs got)"
  unfolding collect_retrieved_def by (intro inv_intros transp_calls) auto

lemma keeps_retrieve [inv_intros]: "keeps (calls collecting) (retrieve_artifacts env sb refs)"
proof (cases "sx_artifacts env")
  case True
  have rest: "keeps (calls collecting) (abind (attempt l (collect_retrieved env refs got)) (\<lambda>e.
      abind (attempt l' (foreign SUnstage h)) (\<lambda>e'. ret (g e e'))))" for l l' h g got
    by (intro inv_intros transp_calls) auto
  show ?thesis
  proof (rule keepsI)
    fix s s' :: "'a backend_state" and r assume e: "retrieve_artifacts env sb refs s = (s', r)"
    obtain s1 q where f: "foreign SRetrieve (sx_retrieve env sb refs) s = (s1, q)" by fastforce
    then have "calls collecting s s1" by (rule keepsD [OF keeps_foreign, rotated]) simp
    with e f True show "calls collecting s s'"
      by (cases q) (auto simp: retrieve_artifacts_def dest!: keepsD [OF rest] elim: transpD [OF transp_calls])
  qed
qed (auto simp: retrieve_artifacts_def intro: inv_intros)

lemma destroy_sandbox_trace:
  "destroy_sandbox env sb s = (s', r) \<Longrightarrow>
     \<exists>b post. bk_trace s' = bk_trace s @ (SDestroy, b) # post \<and> set post \<subseteq> records \<times> UNIV \<and> (r = Inr [] \<longrightarrow> b)"
  by (auto simp: destroy_sandbox_def foreign_def host_event_def records_def abind_def split: prod.splits sum.splits)

lemma keeps_after_destroy [inv_intros]:
  "keeps (calls (insert SDropWorkspace records))
     (abind (cleanup_workspace env ws) (\<lambda>e2. report_errors env sandbox (e1 @ e2)))"
  unfolding cleanup_workspace_def report_errors_def records_def by (intro inv_intros transp_calls) auto

lemma keeps_quiesce: "keeps (calls collecting) (quiesce env sb reader result)"
  unfolding quiesce_def by (intro inv_intros transp_calls) auto

lemma never_raises_quiesce: "never_raises (quiesce env sb reader result)"
  unfolding quiesce_def by (intro inv_intros)

lemma cleanup_trace:
  assumes "cleanup env (Some sb) ws result reader s = (s', r)"
  shows "\<exists>mid b post. bk_trace s' = bk_trace s @ mid @ (SDestroy, b) # post \<and>
           set mid \<subseteq> collecting \<times> UNIV \<and> set post \<subseteq> insert SDropWorkspace records \<times> UNIV"
proof -
  obtain s1 e where q: "quiesce env sb reader result s = (s1, Inr e)"
    using never_raises_quiesce by (metis never_raises_def)
  then obtain mid where mid: "bk_trace s1 = bk_trace s @ mid" "set mid \<subseteq> collecting \<times> UNIV"
    by (rule callsE [OF keeps_quiesce])
  obtain s2 q2 where d: "destroy_sandbox env sb s1 = (s2, q2)" by fastforce
  from destroy_sandbox_trace [OF this] obtain b post where
    post: "bk_trace s2 = bk_trace s1 @ (SDestroy, b) # post" "set post \<subseteq> records \<times> UNIV" by auto
  have "calls (insert SDropWorkspace records) s2 s'"
  proof (cases q2)
    case (Inl x)
    with assms q d have "s' = s2" by (simp add: cleanup_def cleanup_sandbox_def abind_eq)
    then show ?thesis by simp
  next
    case (Inr e3)
    with assms q d have "abind (cleanup_workspace env ws) (\<lambda>e2. report_errors env (Some sb) ((e @ e3) @ e2)) s2 = (s', r)"
      by (simp add: cleanup_def cleanup_sandbox_def abind_eq)
    then show ?thesis by (rule keepsD [OF keeps_after_destroy])
  qed
  then obtain last where "bk_trace s' = bk_trace s2 @ last" "set last \<subseteq> insert SDropWorkspace records \<times> UNIV"
    by (auto simp: calls_def)
  with mid post show ?thesis
    by (intro exI [of _ mid] exI [of _ b] exI [of _ "post @ last"]) auto
qed

lemma cleanup_trace_none:
  assumes "cleanup env None ws result reader s = (s', r)"
  shows "calls (insert SDropWorkspace records) s s'"
proof -
  have "abind (cleanup_workspace env ws) (\<lambda>e2. report_errors env None ([] @ e2)) s = (s', r)"
    using assms by (simp add: cleanup_def cleanup_sandbox_def)
  then show ?thesis by (rule keepsD [OF keeps_after_destroy])
qed

lemma guarded_body_shape:
  assumes "guarded_body env task d n s = (s', r)" and "bk_sandbox s = None" and "bk_trace s = [(SClock, c)]"
  shows "if bk_sandbox s' = None then unborn (bk_trace s') else alive (bk_trace s')"
proof -
  obtain s1 q where b: "run_body env task d n s = (s1, q)" by fastforce
  note shape = run_body_shape [OF b assms(2,3)]
  have fail: "keeps (calls records) (abind (failure env task k e) (\<lambda>r. writes (\<lambda>s. s\<lparr>bk_result := Some r\<rparr>)))" for k e
    by (intro inv_intros transp_calls) (auto simp: calls_def records_def)
  show ?thesis
  proof (cases q)
    case (Inr x)
    with assms b shape show ?thesis by (auto simp: guarded_body_def)
  next
    case (Inl e)
    with assms b have "calls records s1 s'" by (auto simp: guarded_body_def dest: keepsD [OF fail])
    then obtain tr where "bk_trace s' = bk_trace s1 @ tr" "set tr \<subseteq> records \<times> UNIV" "bk_sandbox s' = bk_sandbox s1"
      by (auto simp: calls_def)
    moreover have "records \<subseteq> working" by (simp add: records_def)
    ultimately show ?thesis
      using shape by (auto simp: unborn_records intro!: alive_working)
  qed
qed

lemma run_backend_parts:
  assumes "run_backend env task timeout fuel w = Some (s, r)" and "\<not> timeout \<le> 0" and "sx_now env w = (w', now)"
    and "guarded_body env task (now + timeout) fuel ((backend_start w)\<lparr>bk_world := w', bk_trace := [(SClock, True)]\<rparr>) = (s1, r1)"
  shows "\<exists>r2. cleanup env (bk_sandbox s1) (bk_workspace s1) (bk_result s1) (bk_reader s1) s1 = (s, r2) \<and>
    (r = Inr res \<longrightarrow> (r2 = Inr None \<and> bk_result s1 = Some res) \<or>
       (\<exists>err. r2 = Inr (Some err) \<and> res = plain_result (tk_job_id task) WO_FAILED (u ''Sandbox cleanup failed.'') (Some err)))"
  using assms
  by (cases "cleanup env (bk_sandbox s1) (bk_workspace s1) (bk_result s1) (bk_reader s1) s1")
     (auto simp: run_backend_def run_all_def clock_def foreign_def abind_def backend_start_def Let_def
        split: sum.splits option.splits if_splits)

text \<open>
  C20: Every sandbox the backend creates is destroyed, exactly once, by the same run, whatever the run
  meets: errors of the provider, the channel, the workspace or the event sinks, cancellation, a deadline,
  failing artifacts.  Nothing but bookkeeping happens before it is created, no cleanup call while the
  worker runs, and after the destruction only the workspace and the event sinks are called.  When no
  sandbox was created, no sandbox call is made at all.
\<close>

theorem created_sandbox_destroyed_once:
  assumes "run_backend env task timeout fuel w = Some (s, r)"
  shows "(\<exists>pre mid late b post. bk_trace s = pre @ (SCreate, True) # mid @ late @ (SDestroy, b) # post \<and>
            fst ` set pre \<subseteq> {SClock, SPrepare} \<union> records \<and> fst ` set mid \<subseteq> working \<and>
            fst ` set late \<subseteq> collecting \<and> fst ` set post \<subseteq> {SDropWorkspace} \<union> records) \<or>
         fst ` set (bk_trace s) \<subseteq> {SClock, SPrepare, SCreate, SDropWorkspace} \<union> records \<and> (SCreate, True) \<notin> set (bk_trace s)"
proof (cases "timeout \<le> 0")
  case True
  with assms show ?thesis by (auto simp: run_backend_def backend_start_def)
next
  case False
  obtain w' now where now: "sx_now env w = (w', now)" by fastforce
  let ?s0 = "(backend_start w)\<lparr>bk_world := w', bk_trace := [(SClock, True)]\<rparr>"
  obtain s1 r1 where g: "guarded_body env task (now + timeout) fuel ?s0 = (s1, r1)" by fastforce
  obtain r2 where c: "cleanup env (bk_sandbox s1) (bk_workspace s1) (bk_result s1) (bk_reader s1) s1 = (s, r2)"
    using run_backend_parts [OF assms False now g] by blast
  have shape: "if bk_sandbox s1 = None then unborn (bk_trace s1) else alive (bk_trace s1)"
    using guarded_body_shape [OF g] by (simp add: backend_start_def)
  show ?thesis
  proof (cases "bk_sandbox s1")
    case None
    with cleanup_trace_none [OF c [unfolded None]] shape show ?thesis
      by (auto simp: calls_def unborn_def records_def)
  next
    case (Some sb)
    from cleanup_trace [OF c [unfolded this]] obtain late b post where
      late: "bk_trace s = bk_trace s1 @ late @ (SDestroy, b) # post" "set late \<subseteq> collecting \<times> UNIV"
        "set post \<subseteq> insert SDropWorkspace records \<times> UNIV" by auto
    from shape Some obtain pre mid where
      "bk_trace s1 = pre @ (SCreate, True) # mid" "set pre \<subseteq> ({SClock, SPrepare} \<union> records) \<times> UNIV" "set mid \<subseteq> working \<times> UNIV"
      by (auto simp: alive_def)
    with late show ?thesis
      by (intro disjI1 exI [of _ pre] exI [of _ mid] exI [of _ late] exI [of _ b] exI [of _ post]) auto
  qed
qed

section \<open>What a returned result means\<close>

text \<open>\<open>passed m\<close>: when \<open>m\<close> returns a value \<open>P\<close> accepts, every call it made succeeded and \<open>must\<close> were among them.\<close>

definition passed :: "('a \<Rightarrow> bool) \<Rightarrow> sandbox_call set \<Rightarrow> ('w, 'a) backend_act \<Rightarrow> bool" where
  "passed P must m \<longleftrightarrow> (\<forall>s s' x. m s = (s', Inr x) \<and> P x \<longrightarrow>
     (\<exists>tr. bk_trace s' = bk_trace s @ tr \<and> set tr \<subseteq> UNIV \<times> {True} \<and> must \<times> {True} \<subseteq> set tr) \<and>
     bk_sandbox s' = bk_sandbox s \<and> bk_workspace s' = bk_workspace s \<and> bk_result s' = bk_result s \<and> bk_reader s' = bk_reader s)"

lemma passedD:
  assumes "passed P must m" and "m s = (s', Inr x)" and "P x"
  shows "\<exists>tr. bk_trace s' = bk_trace s @ tr \<and> set tr \<subseteq> UNIV \<times> {True} \<and> must \<times> {True} \<subseteq> set tr"
    and "bk_sandbox s' = bk_sandbox s" and "bk_workspace s' = bk_workspace s" and "bk_result s' = bk_result s" and "bk_reader s' = bk_reader s"
  using assms unfolding passed_def by blast+

definition refuses :: "('a \<Rightarrow> bool) \<Rightarrow> ('w, 'a) backend_act \<Rightarrow> bool" where
  "refuses P m \<longleftrightarrow> (\<forall>s s' x. m s = (s', Inr x) \<longrightarrow> \<not> P x)"

lemma refuses_abind [inv_intros]: "(\<And>x. refuses P (f x)) \<Longrightarrow> refuses P (abind m f)"
  by (auto simp: refuses_def abind_Inr_iff)

lemma refuses_ret [inv_intros]: "\<not> P x \<Longrightarrow> refuses P (ret x)"
  by (simp add: refuses_def)

lemma passed_abind:
  assumes m: "passed P A m" and f: "\<And>x. P x \<Longrightarrow> passed Q B (f x)" and no: "\<And>x. \<not> P x \<Longrightarrow> refuses Q (f x)"
  shows "passed Q (A \<union> B) (abind m f)"
  unfolding passed_def
proof (intro allI impI, elim conjE)
  fix s s' y assume e: "abind m f s = (s', Inr y)" and y: "Q y"
  then obtain s1 x where ms: "m s = (s1, Inr x)" and fs: "f x s1 = (s', Inr y)" by (auto simp: abind_Inr_iff)
  with no y have x: "P x" by (auto simp: refuses_def)
  from passedD [OF m ms x] passedD [OF f [OF x] fs y]
  show "(\<exists>tr. bk_trace s' = bk_trace s @ tr \<and> set tr \<subseteq> UNIV \<times> {True} \<and> (A \<union> B) \<times> {True} \<subseteq> set tr) \<and>
     bk_sandbox s' = bk_sandbox s \<and> bk_workspace s' = bk_workspace s \<and> bk_result s' = bk_result s \<and> bk_reader s' = bk_reader s"
    by (elim exE conjE, intro conjI) (rule_tac x = "tr @ tra" in exI, auto)
qed

lemma passed_then:
  "\<lbrakk>passed (\<lambda>_. True) A m; \<And>x. passed Q B (f x)\<rbrakk> \<Longrightarrow> passed Q (A \<union> B) (abind m f)"
  by (rule passed_abind) auto

lemma passed_basic:
  "passed P1 {c} (foreign c f)" "passed P2 {} (host_event env k p)" "passed P3 {} (ret x)" "passed P4 {} (guard b e)"
  by (auto simp: passed_def foreign_def host_event_def guard_def split: prod.splits if_splits)

lemma passed_attempt: "passed (\<lambda>_. True) A m \<Longrightarrow> passed (\<lambda>e. e = []) A (attempt l m)"
  by (force simp: passed_def attempt_def split: prod.splits sum.splits)

lemma passed_mono: "passed P A m \<Longrightarrow> B \<subseteq> A \<Longrightarrow> passed P B m"
  unfolding passed_def by (elim all_forward imp_forward conj_forward ex_forward) auto

lemma passed_cong:
  "passed P A m \<Longrightarrow> (\<And>s s' x. m' s = (s', Inr x) \<Longrightarrow> P x \<Longrightarrow> m s = (s', Inr x)) \<Longrightarrow> passed P A m'"
  unfolding passed_def by blast

lemma passed_collect: "passed (\<lambda>_. True) {SCollect} (collect_retrieved env refs got)"
proof -
  have "passed (\<lambda>_. True) ({} \<union> ({SCollect} \<union> {})) (collect_retrieved env refs got)"
    unfolding collect_retrieved_def by (intro passed_then passed_basic)
  then show ?thesis by simp
qed

lemma passed_clean_up:
  "passed (\<lambda>e. e = []) {SCollect, SUnstage} (abind (attempt l (collect_retrieved env refs got)) (\<lambda>e.
     abind (attempt l' (foreign SUnstage h)) (\<lambda>e'. ret (if e @ e' = [] then [] else [t e e']))))"
proof -
  have "passed (\<lambda>e. e = []) ({SUnstage} \<union> {}) (abind (attempt l' (foreign SUnstage h)) (\<lambda>e'. ret (if [] @ e' = [] then [] else [t [] e'])))"
    by (rule passed_abind [OF passed_attempt [OF passed_basic(1)] passed_basic(3)]) (simp add: refuses_def)
  then have "passed (\<lambda>e. e = []) ({SCollect} \<union> ({SUnstage} \<union> {})) (abind (attempt l (collect_retrieved env refs got)) (\<lambda>e.
     abind (attempt l' (foreign SUnstage h)) (\<lambda>e'. ret (if e @ e' = [] then [] else [t e e']))))"
    by (intro passed_abind [OF passed_attempt [OF passed_collect]] refuses_abind) (auto simp: refuses_def)
  then show ?thesis by (simp add: insert_commute)
qed

lemma passed_retrieve: "passed (\<lambda>e. e = []) {SRetrieve, SCollect, SUnstage} (retrieve_artifacts env sb refs)"
proof (cases "sx_artifacts env")
  case False
  then show ?thesis by (simp add: retrieve_artifacts_def passed_def)
next
  case True
  let ?tail = "\<lambda>got. abind (attempt ''artifact retrieval failed: '' (collect_retrieved env refs got)) (\<lambda>e.
      abind (attempt ''artifact staging cleanup failed: '' (foreign SUnstage (sx_unstage env))) (\<lambda>e'.
      ret (if e @ e' = [] then [] else [join (u ''; '') (e @ e')])))"
  have all: "passed (\<lambda>e. e = []) ({SRetrieve} \<union> {SCollect, SUnstage}) (abind (foreign SRetrieve (sx_retrieve env sb refs)) ?tail)"
    by (intro passed_then passed_basic passed_clean_up)
  have "passed (\<lambda>e. e = []) ({SRetrieve} \<union> {SCollect, SUnstage}) (retrieve_artifacts env sb refs)"
    by (rule passed_cong [OF all])
       (use True in \<open>auto simp: retrieve_artifacts_def abind_def split: prod.splits sum.splits\<close>)
  then show ?thesis by (rule passed_mono) auto
qed

lemma passed_quiesce:
  "passed (\<lambda>e. e = []) ({SClose} \<union> (case result of None \<Rightarrow> {} | Some r \<Rightarrow> if wr_artifacts r = [] then {} else {SRetrieve, SCollect, SUnstage}))
     (quiesce env sb reader result)"
proof -
  let ?join = "if reader then foreign SJoin (\<lambda>w. (sx_join env w, Inr ())) else ret ()"
  let ?arts = "case result of None \<Rightarrow> ret [] | Some r \<Rightarrow> if wr_artifacts r = [] then ret [] else retrieve_artifacts env sb (wr_artifacts r)"
  let ?must = "case result of None \<Rightarrow> {} | Some r \<Rightarrow> if wr_artifacts r = [] then {} else {SRetrieve, SCollect, SUnstage}"
  have join: "passed (\<lambda>_. True) {} ?join" by (auto intro!: passed_basic passed_mono [OF passed_basic(1)])
  have arts: "passed (\<lambda>e. e = []) ?must ?arts" by (auto intro: passed_basic passed_retrieve split: option.split)
  have "passed (\<lambda>e. e = []) ({SClose} \<union> ({} \<union> (?must \<union> {})))
    (abind (attempt ''channel close failed: '' (foreign SClose (sx_close env sb))) (\<lambda>e1.
     abind ?join (\<lambda>_. abind ?arts (\<lambda>e2. ret (e1 @ e2)))))"
    by (intro passed_abind [OF passed_attempt [OF passed_basic(1)]] passed_then [OF join] passed_abind [OF arts] passed_basic refuses_abind refuses_ret)
       auto
  then show ?thesis by (simp add: quiesce_def)
qed

lemma passed_destroy: "passed (\<lambda>e. e = []) {SDestroy} (destroy_sandbox env sb)"
proof -
  have all: "passed (\<lambda>e. e = []) ({SDestroy} \<union> ({} \<union> {})) (abind (foreign SDestroy (sx_destroy env sb)) (\<lambda>_.
      abind (host_event env ''sandbox_destroyed'' (sandbox_fields sb)) (\<lambda>_. ret [])))"
    by (intro passed_then passed_basic)
  have "passed (\<lambda>e. e = []) ({SDestroy} \<union> ({} \<union> {})) (destroy_sandbox env sb)"
    by (rule passed_cong [OF all]) (auto simp: destroy_sandbox_def abind_def split: prod.splits sum.splits)
  then show ?thesis by simp
qed

definition artifact_calls :: "worker_result option \<Rightarrow> sandbox_call set" where
  "artifact_calls result = (case result of None \<Rightarrow> {} | Some r \<Rightarrow> if wr_artifacts r = [] then {} else {SRetrieve, SCollect, SUnstage})"

lemma passed_cleanup_sandbox:
  "passed (\<lambda>e. e = []) (if sandbox = None then {} else {SClose, SDestroy} \<union> artifact_calls result) (cleanup_sandbox env sandbox reader result)"
proof (cases sandbox)
  case (Some sb)
  have "passed (\<lambda>e. e = []) (({SClose} \<union> artifact_calls result) \<union> ({SDestroy} \<union> {}))
      (abind (quiesce env sb reader result) (\<lambda>e. abind (destroy_sandbox env sb) (\<lambda>e3. ret (e @ e3))))"
    unfolding artifact_calls_def
    by (intro passed_abind [OF passed_quiesce] passed_abind [OF passed_destroy] passed_basic refuses_abind refuses_ret) auto
  with Some show ?thesis by (simp add: cleanup_sandbox_def insert_commute)
qed (simp add: cleanup_sandbox_def passed_basic)

lemma passed_cleanup_workspace:
  "passed (\<lambda>e. e = []) (if ws = None then {} else {SDropWorkspace}) (cleanup_workspace env ws)"
  by (cases ws) (simp_all add: cleanup_workspace_def passed_basic passed_attempt)

lemma passed_report: "passed (\<lambda>x. x = None) {} (report_errors env sandbox [])"
  by (simp add: report_errors_def passed_basic)

lemma refuses_report: "e \<noteq> [] \<or> e' \<noteq> [] \<Longrightarrow> refuses (\<lambda>x. x = None) (report_errors env sandbox (e @ e'))"
  by (auto simp: report_errors_def refuses_def abind_Inr_iff)

lemma passed_cleanup:
  "passed (\<lambda>x. x = None) ((if sandbox = None then {} else {SClose, SDestroy} \<union> artifact_calls result) \<union>
     ((if ws = None then {} else {SDropWorkspace}) \<union> {})) (cleanup env sandbox ws result reader)"
  unfolding cleanup_def
  by (intro passed_abind [OF passed_cleanup_sandbox] passed_abind [OF passed_cleanup_workspace] refuses_abind refuses_report)
     (simp_all add: passed_report)

definition owed :: "sandbox_call set" where
  "owed = {SClose, SRetrieve, SCollect, SUnstage, SDestroy, SDropWorkspace}"

lemma not_owed: "c \<in> insert SClock (insert SPrepare (insert SCreate (records \<union> working))) \<Longrightarrow> c \<notin> owed"
  by (auto simp: owed_def records_def working_def)

lemma unborn_owed: "unborn tr \<Longrightarrow> (c, b) \<in> set tr \<Longrightarrow> c \<notin> owed"
  unfolding unborn_def by (rule not_owed) blast

lemma alive_owed: "alive tr \<Longrightarrow> (c, b) \<in> set tr \<Longrightarrow> c \<notin> owed"
  by (rule not_owed) (auto simp: alive_def)

text \<open>
  A result of the backend that does not say "Sandbox cleanup failed." is the one the run itself
  arrived at, and everything owed for it was done without an error: the channel closed, the sandbox and
  the workspace destroyed, and artifacts the worker claims retrieved, collected and their staging removed.
\<close>

theorem returned_result_is_clean:
  assumes "run_backend env task timeout fuel w = Some (s, Inr r)"
  shows "wr_outcome r = WO_FAILED \<and> wr_summary r = u ''Sandbox cleanup failed.'' \<and> wr_error r \<noteq> None \<and> wr_artifacts r = [] \<or>
    (\<forall>c. (c, False) \<in> set (bk_trace s) \<longrightarrow> c \<notin> {SClose, SRetrieve, SCollect, SUnstage, SDestroy, SDropWorkspace}) \<and>
    bk_result s = Some r \<and>
    (bk_workspace s \<noteq> None \<longrightarrow> (SDropWorkspace, True) \<in> set (bk_trace s)) \<and>
    (bk_sandbox s \<noteq> None \<longrightarrow> {SClose, SDestroy} \<times> {True} \<subseteq> set (bk_trace s) \<and>
       (wr_artifacts r \<noteq> [] \<longrightarrow> {SRetrieve, SCollect, SUnstage} \<times> {True} \<subseteq> set (bk_trace s)))"
proof -
  have pos: "\<not> timeout \<le> 0" using assms by (auto simp: run_backend_def)
  obtain w' now where now: "sx_now env w = (w', now)" by fastforce
  let ?s0 = "(backend_start w)\<lparr>bk_world := w', bk_trace := [(SClock, True)]\<rparr>"
  obtain s1 r1 where g: "guarded_body env task (now + timeout) fuel ?s0 = (s1, r1)" by fastforce
  from run_backend_parts [OF assms pos now g] obtain r2 where
    c: "cleanup env (bk_sandbox s1) (bk_workspace s1) (bk_result s1) (bk_reader s1) s1 = (s, r2)" and
    r: "(r2 = Inr None \<and> bk_result s1 = Some r) \<or>
       (\<exists>err. r2 = Inr (Some err) \<and> r = plain_result (tk_job_id task) WO_FAILED (u ''Sandbox cleanup failed.'') (Some err))"
    by blast
  show ?thesis
  proof (cases "r2 = Inr None")
    case True
    from passedD(1) [OF passed_cleanup c [unfolded True] refl] obtain tr where
      tr: "bk_trace s = bk_trace s1 @ tr" "set tr \<subseteq> UNIV \<times> {True}"
        "((if bk_sandbox s1 = None then {} else {SClose, SDestroy} \<union> artifact_calls (bk_result s1)) \<union>
          ((if bk_workspace s1 = None then {} else {SDropWorkspace}) \<union> {})) \<times> {True} \<subseteq> set tr"
      by blast
    note same = passedD(2-4) [OF passed_cleanup c [unfolded True] refl]
    have "if bk_sandbox s1 = None then unborn (bk_trace s1) else alive (bk_trace s1)"
      using guarded_body_shape [OF g] by (simp add: backend_start_def)
    then have "\<forall>c. (c, False) \<in> set (bk_trace s1) \<longrightarrow> c \<notin> owed"
      using unborn_owed alive_owed by (metis (full_types))
    with tr(1,2) have "\<forall>c. (c, False) \<in> set (bk_trace s) \<longrightarrow> c \<notin> {SClose, SRetrieve, SCollect, SUnstage, SDestroy, SDropWorkspace}"
      by (auto simp: owed_def)
    moreover have result: "bk_result s1 = Some r" using r True by auto
    moreover have "bk_result s = Some r" using result same by simp
    moreover have "bk_workspace s \<noteq> None \<longrightarrow> (SDropWorkspace, True) \<in> set (bk_trace s)" using tr same by (cases "bk_workspace s") auto
    moreover have "bk_sandbox s \<noteq> None \<longrightarrow> {SClose, SDestroy} \<times> {True} \<subseteq> set (bk_trace s) \<and>
       (wr_artifacts r \<noteq> [] \<longrightarrow> {SRetrieve, SCollect, SUnstage} \<times> {True} \<subseteq> set (bk_trace s))"
      using tr same result by (cases "bk_sandbox s1") (auto simp: artifact_calls_def)
    ultimately show ?thesis by blast
  qed (use r in \<open>auto simp: plain_result_def\<close>)
qed

section \<open>A workspace nobody destroys\<close>

text \<open>
  When the sink refuses the event \<open>workspace_prepared\<close>, the workspace just prepared is never
  destroyed: the exception leaves \<open>_prepare_workspace\<close> before \<open>run\<close> holds the workspace, so its cleanup
  does not know it.
\<close>

theorem unrecorded_workspace_is_leaked:
  assumes "run_backend env task timeout fuel w = Some (s, r)" and "\<not> timeout \<le> 0"
    and "sx_prepare env = Some prepare" and "tk_repository_id task = Some rid" and "tk_starting_revision task = Some rev0"
    and "\<forall>w. \<not> isl (snd (prepare (tk_job_id task) rid rev0 w))" and "\<forall>p w. isl (snd (sx_record env (u ''workspace_prepared'') p w))"
  shows "(SPrepare, True) \<in> set (bk_trace s) \<and> (\<forall>b. (SDropWorkspace, b) \<notin> set (bk_trace s))"
proof -
  obtain w' now where now: "sx_now env w = (w', now)" by fastforce
  let ?s0 = "(backend_start w)\<lparr>bk_world := w', bk_trace := [(SClock, True)]\<rparr>"
  obtain s1 r1 where g: "guarded_body env task (now + timeout) fuel ?s0 = (s1, r1)" by fastforce
  obtain w1 ws where 1: "prepare (tk_job_id task) rid rev0 w' = (w1, Inr ws)"
    using assms(6) by (metis isl_def prod.collapse sum.exhaust_sel)
  obtain w2 e where 2: "sx_record env (u ''workspace_prepared'')
      [(u ''repository_id'', JStr (pw_repository_id ws)), (u ''revision'', JStr (pw_revision ws))] w1 = (w2, Inl e)"
    using assms(7) by (metis isl_def prod.collapse)
  let ?s2 = "?s0\<lparr>bk_world := w2, bk_trace := [(SClock, True), (SPrepare, True), (SRecord (u ''workspace_prepared''), False)]\<rparr>"
  have body: "run_body env task (now + timeout) fuel ?s0 = (?s2, Inl e)"
    using assms(3-5) 1 2
    by (simp add: run_body_def host_prepare_def abind_def foreign_def host_event_def backend_start_def)
  have fail: "keeps (calls records) (abind (failure env task k e) (\<lambda>r. writes (\<lambda>s. s\<lparr>bk_result := Some r\<rparr>)))" for k e
    by (intro inv_intros transp_calls) (auto simp: calls_def records_def)
  have "calls records ?s2 s1"
    using g body by (auto simp: guarded_body_def dest: keepsD [OF fail])
  then obtain tr where tr: "bk_trace s1 = bk_trace ?s2 @ tr" "set tr \<subseteq> records \<times> UNIV" "bk_sandbox s1 = None" "bk_workspace s1 = None"
    by (auto simp: calls_def backend_start_def)
  obtain r2 where c: "cleanup env None None (bk_result s1) (bk_reader s1) s1 = (s, r2)"
    using run_backend_parts [OF assms(1,2) now g] tr by auto
  then have "s = s1" by (auto simp: cleanup_def cleanup_sandbox_def cleanup_workspace_def report_errors_def)
  with tr show ?thesis by (auto simp: records_def)
qed

section \<open>Returning in time\<close>

text \<open>\<open>timed env tm\<close>: \<open>tm\<close> reads the world's clock, no call sets it back, and reading it takes time.\<close>

definition timed :: "'w sandbox_env \<Rightarrow> ('w \<Rightarrow> int) \<Rightarrow> bool" where
  "timed env tm \<longleftrightarrow>
     (\<forall>w. snd (sx_now env w) = tm w \<and> tm w < tm (fst (sx_now env w))) \<and>
     (\<forall>j w. tm w \<le> tm (fst (sx_create env j w))) \<and>
     (\<forall>sb w. tm w \<le> tm (fst (sx_start env sb w)) \<and> tm w \<le> tm (fst (sx_status env sb w)) \<and> tm w \<le> tm (fst (sx_destroy env sb w)) \<and>
        tm w \<le> tm (fst (sx_result env sb w)) \<and> tm w \<le> tm (fst (sx_close env sb w))) \<and>
     (\<forall>sb t w. tm w \<le> tm (fst (sx_send env sb t w))) \<and> (\<forall>d w. tm w \<le> tm (fst (sx_next env d w)) \<and> tm w \<le> tm (fst (sx_sleep env d w))) \<and>
     (\<forall>p j a b w. sx_prepare env = Some p \<longrightarrow> tm w \<le> tm (fst (p j a b w))) \<and>
     (\<forall>sb ws b w. tm w \<le> tm (fst (sx_inject env sb ws b w))) \<and>
     (\<forall>k p w. tm w \<le> tm (fst (sx_record env k p w)) \<and> tm w \<le> tm (fst (sx_record_stream env w))) \<and>
     (\<forall>f w. sx_cancelled env = Some f \<longrightarrow> tm w \<le> tm (fst (f w)))"

definition later :: "('w \<Rightarrow> int) \<Rightarrow> 'w backend_state \<Rightarrow> 'w backend_state \<Rightarrow> bool" where
  "later tm s s' \<longleftrightarrow> tm (bk_world s) \<le> tm (bk_world s') \<and> bk_stuck s' = bk_stuck s"

lemma later_order [simp]: "transp (later tm)" "reflp (later tm)" "later tm s s"
  by (auto simp: later_def intro: transpI reflpI)

lemma later_foreign [inv_intros]: "(\<And>w. tm w \<le> tm (fst (f w))) \<Longrightarrow> keeps (later tm) (foreign c f)"
  by (rule keepsI) (auto simp: foreign_def later_def split: prod.splits, metis fst_conv)

lemma later_clock: "timed env tm \<Longrightarrow> keeps (later tm) (clock env)"
  unfolding clock_def by (rule later_foreign) (auto simp: timed_def less_imp_le split: prod.split, metis fst_conv less_imp_le)

lemma later_event: "timed env tm \<Longrightarrow> keeps (later tm) (host_event env k p)"
  unfolding host_event_def by (rule later_foreign) (simp add: timed_def)

lemma later_failure: "timed env tm \<Longrightarrow> keeps (later tm) (failure env task k e)"
  unfolding failure_def by (intro inv_intros later_event) simp_all

lemma later_cancelled:
  "timed env tm \<Longrightarrow> keeps (later tm) (case sx_cancelled env of None \<Rightarrow> ret False | Some f \<Rightarrow> foreign SCancelled f)"
  by (cases "sx_cancelled env") (auto intro!: inv_intros simp: timed_def)

lemma later_abort: "timed env tm \<Longrightarrow> keeps (later tm) (abort_result env task d)"
  unfolding abort_result_def by (rule keeps_abind [OF _ later_cancelled]) (auto intro!: inv_intros later_event later_clock)

lemma later_sleep: "timed env tm \<Longrightarrow> keeps (later tm) (sleep_until_poll env d)"
  unfolding sleep_until_poll_def by (intro inv_intros later_clock) (simp_all add: timed_def)

lemma abort_passes_time:
  assumes "timed env tm" and "abort_result env task d s = (s', Inr None)"
  shows "tm (bk_world s) < tm (bk_world s') \<and> tm (bk_world s) < d \<and> bk_stuck s' = bk_stuck s"
proof -
  let ?c = "case sx_cancelled env of None \<Rightarrow> ret False | Some f \<Rightarrow> foreign SCancelled f"
  from assms(2) obtain s1 where 1: "?c s = (s1, Inr False)"
    and 2: "abind (clock env) (\<lambda>now. if d \<le> now
         then abind (host_event env ''worker_timed_out'' [(u ''timeout_seconds'', sx_timeout_json env)]) (\<lambda>_.
           ret (Some (plain_result (tk_job_id task) WO_TIMED_OUT (u ''Sandbox worker exceeded its '' @ sx_timeout_text env @ u ''-second timeout.'') None)))
         else ret None) s1 = (s', Inr None)"
    unfolding abort_result_def abind_Inr_iff [of "?c"] by (auto simp: abind_Inr_iff split: if_splits)
  from keepsD [OF later_cancelled [OF assms(1)] 1] have "later tm s s1" .
  moreover have "tm (bk_world s1) < tm (bk_world s') \<and> tm (bk_world s1) < d \<and> bk_stuck s' = bk_stuck s1"
  proof -
    obtain w now where w: "sx_now env (bk_world s1) = (w, now)" by fastforce
    with assms(1) have "now = tm (bk_world s1)" "tm (bk_world s1) < tm w" by (simp_all add: timed_def) (metis fst_conv snd_conv)+
    with 2 w show ?thesis by (auto simp: clock_def foreign_def abind_def split: if_splits prod.splits sum.splits)
  qed
  ultimately show ?thesis by (auto simp: later_def)
qed

lemma later_calls:
  assumes "timed env tm"
  shows "keeps (later tm) (foreign SStatus (sx_status env sb))" and "keeps (later tm) (foreign SNext (sx_next env v))"
    and "keeps (later tm) (foreign (SRecord e) (sx_record_stream env))" and "keeps (later tm) (foreign SStart (sx_start env sb))"
    and "keeps (later tm) (foreign SSend (sx_send env sb task))" and "keeps (later tm) (foreign SResult (sx_result env sb))"
    and "keeps (later tm) (foreign SCreate (sx_create env j))"
  using assms by (auto intro!: later_foreign simp: timed_def)

text \<open>\<open>timely tm d n m\<close>: with \<open>n\<close> rounds of fuel before the deadline \<open>d\<close>, \<open>m\<close> does not run out of it.\<close>

definition timely :: "('w \<Rightarrow> int) \<Rightarrow> int \<Rightarrow> nat \<Rightarrow> ('w, 'a) backend_act \<Rightarrow> bool" where
  "timely tm d n m \<longleftrightarrow> (\<forall>s. nat (d - tm (bk_world s)) < n \<longrightarrow> later tm s (fst (m s)))"

lemma timely_keeps: "keeps (later tm) m \<Longrightarrow> timely tm d n m"
  by (simp add: timely_def keeps_def)

lemma timely_abind:
  assumes "timely tm d n m" and "\<And>x. timely tm d n (f x)"
  shows "timely tm d n (abind m f)"
  unfolding timely_def
proof (intro allI impI)
  fix s :: "'a backend_state" assume n: "nat (d - tm (bk_world s)) < n"
  obtain s1 q where m: "m s = (s1, q)" by fastforce
  with assms(1) n have l: "later tm s s1" by (auto simp: timely_def)
  then have "nat (d - tm (bk_world s1)) < n" using n by (auto simp: later_def)
  with assms(2) m l show "later tm s (fst (abind m f s))"
    by (cases q) (auto simp: abind_eq timely_def elim: transpD [OF later_order(1)])
qed

lemmas timely_step = timely_abind [OF timely_keeps]

lemma timely_abort:
  assumes t: "timed env tm" and "timely tm d n (f None)" and "\<And>r. keeps (later tm) (f (Some r))"
  shows "timely tm d (Suc n) (abind (abort_result env task d) f)"
  unfolding timely_def
proof (intro allI impI)
  fix s :: "'a backend_state" assume n: "nat (d - tm (bk_world s)) < Suc n"
  obtain s1 q where m: "abort_result env task d s = (s1, q)" by fastforce
  then have l: "later tm s s1" by (rule keepsD [OF later_abort [OF t]])
  have "later tm s1 (fst (f x s1))" if "q = Inr x" for x
  proof (cases x)
    case None
    with that m have "abort_result env task d s = (s1, Inr None)" by simp
    with abort_passes_time [OF t this] have "nat (d - tm (bk_world s1)) < nat (d - tm (bk_world s))" by (simp add: nat_mono_iff)
    with n have "nat (d - tm (bk_world s1)) < n" by (metis less_Suc_eq_le order_less_le_trans)
    with None assms(2) show ?thesis by (simp add: timely_def)
  qed (use assms(3) in \<open>simp add: keeps_def\<close>)
  with m l show "later tm s (fst (abind (abort_result env task d) f s))"
    by (cases q) (auto simp: abind_eq elim: transpD [OF later_order(1)])
qed

lemma timely_case:
  "\<lbrakk>timely tm d n m; \<And>x. timely tm d n (f x)\<rbrakk> \<Longrightarrow> timely tm d n (case v of None \<Rightarrow> m | Some x \<Rightarrow> f x)"
  "\<lbrakk>timely tm d n m1; timely tm d n m2\<rbrakk> \<Longrightarrow> timely tm d n (if c then m1 else m2)"
  by (auto split: option.split)

lemma timely_none: "timely tm d 0 m"
  by (simp add: timely_def)

lemma await_running_timely: "timed env tm \<Longrightarrow> timely tm d n (await_running env task sb d n)"
proof (induction n)
  case (Suc n)
  show ?case
    unfolding await_running.simps
    by (rule timely_abort [OF Suc.prems])
       (simp_all add: timely_step [OF later_calls(1)] timely_step [OF later_sleep] timely_keeps inv_intros later_failure Suc)
qed (rule timely_none)

lemma await_result_timely: "timed env tm \<Longrightarrow> timely tm d n (await_result env task sb d n)"
proof (induction n)
  case (Suc n)
  have item: "timely tm d n (case item of StreamEvent \<Rightarrow> abind (foreign (SRecord (u ''worker event'')) (sx_record_stream env)) (\<lambda>_. await_result env task sb d n)
         | StreamError t \<Rightarrow> failure env task ''sandbox_protocol_error'' t
         | StreamDone \<Rightarrow>
             abind (foreign SResult (sx_result env sb)) (\<lambda>r.
             abind (host_event env ''worker_result_received'' [(u ''outcome'', JStr (worker_outcome_value (wr_outcome r)))]) (\<lambda>_.
             ret r)))" for item
    using Suc by (cases item) (auto intro!: timely_step [OF later_calls(3)] timely_keeps [OF later_failure] timely_keeps [OF keeps_abind [OF later_order(1) later_calls(6)]] inv_intros later_event)
  show ?case
    unfolding await_result.simps
    by (rule timely_abort [OF Suc.prems])
       (auto intro!: timely_step [OF later_clock] timely_step [OF later_calls(2)] timely_case item inv_intros Suc)
qed (rule timely_none)

lemma later_writes [inv_intros]: "(\<And>s. later tm s (h s)) \<Longrightarrow> keeps (later tm) (writes h)"
  by (simp add: keeps_def)

lemma later_prepare: "timed env tm \<Longrightarrow> keeps (later tm) (host_prepare env task)"
  unfolding host_prepare_def
  by (cases "sx_prepare env"; cases "tk_repository_id task"; cases "tk_starting_revision task")
     (auto intro!: inv_intros later_event simp: timed_def)

lemma later_inject: "timed env tm \<Longrightarrow> keeps (later tm) (inject_workspace env sb ws task)"
  unfolding inject_workspace_def Let_def by (cases ws) (auto intro!: inv_intros later_event simp: timed_def)

lemma run_started_timely: "timed env tm \<Longrightarrow> timely tm d n (run_started env task sb d n)"
  unfolding run_started_def
  by (intro timely_abind timely_case await_running_timely timely_step [OF later_event] timely_step [OF later_calls(5)]
        await_result_timely timely_keeps inv_intros) simp_all

lemma run_body_timely: "timed env tm \<Longrightarrow> timely tm d n (run_body env task d n)"
  unfolding run_body_def run_in_sandbox_def
  by (auto intro!: timely_step [OF later_prepare] timely_step [OF later_writes] timely_step [OF later_calls(7)]
        timely_step [OF later_event] timely_step [OF later_inject] timely_step [OF later_abort] timely_step [OF later_calls(4)]
        timely_case timely_keeps [OF later_writes] inv_intros timely_abind [OF run_started_timely]
      simp: later_def split: prod.split)

definition unstuck :: "'w backend_state \<Rightarrow> 'w backend_state \<Rightarrow> bool" where
  "unstuck s s' \<longleftrightarrow> bk_stuck s' = bk_stuck s"

lemma unstuck_order [simp]: "transp unstuck" "reflp unstuck" "unstuck s s"
  by (auto simp: unstuck_def intro: transpI reflpI)

lemma unstuck_foreign [inv_intros]: "keeps unstuck (foreign c f)"
  by (rule keepsI) (auto simp: foreign_def unstuck_def split: prod.splits)

lemma unstuck_event [inv_intros]: "keeps unstuck (host_event env k p)"
  unfolding host_event_def by (rule unstuck_foreign)

lemma unstuck_retrieve: "keeps unstuck (retrieve_artifacts env sb refs)"
proof -
  have rest: "keeps unstuck (abind (attempt l (collect_retrieved env refs got)) (\<lambda>e.
      abind (attempt l' (foreign SUnstage h)) (\<lambda>e'. ret (g e e'))))" for l l' h g got
    unfolding collect_retrieved_def by (intro inv_intros) simp_all
  have "unstuck s s'" if e: "retrieve_artifacts env sb refs s = (s', r)" for s s' r
  proof -
    obtain s1 q where f: "foreign SRetrieve (sx_retrieve env sb refs) s = (s1, q)" by fastforce
    then have "unstuck s s1" by (rule keepsD [OF unstuck_foreign])
    with e f show ?thesis
      by (cases q) (auto simp: retrieve_artifacts_def dest!: keepsD [OF rest] elim: transpD [OF unstuck_order(1)] split: if_splits)
  qed
  then show ?thesis by (rule keepsI)
qed

lemma unstuck_destroy: "keeps unstuck (destroy_sandbox env sb)"
  by (rule keepsI) (auto simp: destroy_sandbox_def unstuck_def foreign_def host_event_def abind_def split: prod.splits sum.splits)

lemma unstuck_cleanup: "keeps unstuck (cleanup env sandbox ws result reader)"
  unfolding cleanup_def cleanup_sandbox_def cleanup_workspace_def report_errors_def quiesce_def
  by (intro inv_intros unstuck_retrieve unstuck_destroy) simp_all


section \<open>A run\<close>

definition demo_sandbox :: sandbox_record where
  "demo_sandbox = \<lparr>sb_job_id = u ''j1'', sb_backend = u ''vm'', sb_spec = \<lparr>cpu_count = 2, memory_mb = 4096, disk_gb = 20, network_enabled = False\<rparr>, sb_sandbox_id = u ''s1'',
     sb_external_id = None, sb_status = SB_CREATED, sb_created_at = 0, sb_updated_at = 0, sb_last_error = None\<rparr>"

definition demo_task :: worker_task where
  "demo_task = \<lparr>tk_job_id = u ''j1'', tk_objective = u ''fix'', tk_worker_profile = u ''coding-worker'',
     tk_acceptance_criteria = [], tk_repository_id = Some (u ''r''), tk_starting_revision = Some (u ''v''), tk_plan = NORMAL\<rparr>"

text \<open>A world that is its clock: the sandbox runs at once, the worker sends one event and its result; \<open>quiet\<close> says whether the sink accepts events.\<close>

definition demo_backend :: "bool \<Rightarrow> int sandbox_env" where
  "demo_backend quiet = \<lparr>
     sx_create = (\<lambda>j w. (w + 1, Inr demo_sandbox)), sx_start = (\<lambda>sb w. (w + 1, Inr ())),
     sx_status = (\<lambda>sb w. (w + 1, Inr SB_RUNNING)), sx_destroy = (\<lambda>sb w. (w + 1, Inr ())),
     sx_send = (\<lambda>sb t w. (w + 1, Inr ())), sx_next = (\<lambda>d w. (w + 1, Inr (if w < 14 then Some StreamEvent else Some StreamDone))),
     sx_result = (\<lambda>sb w. (w + 1, Inr (plain_result (u ''j1'') WO_SUBMITTED (u ''done'') None \<lparr>wr_artifacts := [u ''a'']\<rparr>))),
     sx_close = (\<lambda>sb w. (w + 1, Inr ())), sx_join = (\<lambda>w. w + 1),
     sx_prepare = Some (\<lambda>j a b w. (w + 1, Inr \<lparr>pw_job_id = j, pw_repository_id = a, pw_revision = b, pw_path = []\<rparr>)),
     sx_drop = (\<lambda>ws w. (w + 1, Inr ())), sx_inject = (\<lambda>sb ws b w. (w + 1, Inr ())), sx_artifacts = True,
     sx_retrieve = (\<lambda>sb refs w. (w + 1, Inr refs)), sx_collect = (\<lambda>refs w. (w + 1, Inr (length refs))), sx_unstage = (\<lambda>w. (w + 1, Inr ())),
     sx_record = (\<lambda>k p w. (w, if quiet then Inl (u ''disk full'') else Inr ())), sx_record_stream = (\<lambda>w. (w, Inr ())), sx_cancelled = None,
     sx_now = (\<lambda>w. (w + 1, w)), sx_sleep = (\<lambda>d w. (w + max 0 d, Inr ())), sx_poll = 5,
     sx_timeout_text = u ''1'', sx_timeout_json = JInt 1\<rparr>"


lemma demo_timed: "timed (demo_backend quiet) id"
  by (auto simp: timed_def demo_backend_def) 

lemmas run_evaluation = run_backend_def run_all_def guarded_body_def run_body_def run_in_sandbox_def run_started_def abind_def
  host_prepare_def inject_workspace_def abort_result_def failure_def clock_def host_event_def foreign_def attempt_def
  cleanup_def cleanup_sandbox_def cleanup_workspace_def quiesce_def retrieve_artifacts_def collect_retrieved_def destroy_sandbox_def
  report_errors_def backend_start_def demo_backend_def demo_task_def plain_result_def

lemma demo_backend_run:
  "\<exists>s r. run_backend (demo_backend False) demo_task 40 (Suc (Suc (Suc 0))) 0 = Some (s, Inr r) \<and> wr_outcome r = WO_SUBMITTED \<and> bk_workspace s \<noteq> None \<and> (SCreate, True) \<in> set (bk_trace s)"
  by (simp add: run_evaluation)

theorem created_sandbox_destroyed_once_witness:
  "\<exists>s r pre mid late b post. run_backend (demo_backend False) demo_task 40 (Suc (Suc (Suc 0))) 0 = Some (s, Inr r) \<and>
     bk_trace s = pre @ (SCreate, True) # mid @ late @ (SDestroy, b) # post"
proof -
  from demo_backend_run obtain s r where run: "run_backend (demo_backend False) demo_task 40 (Suc (Suc (Suc 0))) 0 = Some (s, Inr r)" and "(SCreate, True) \<in> set (bk_trace s)"
    by auto
  with created_sandbox_destroyed_once [OF run] show ?thesis by (elim disjE exE conjE) blast+
qed

theorem returned_result_is_clean_witness:
  "\<exists>s r. run_backend (demo_backend False) demo_task 40 (Suc (Suc (Suc 0))) 0 = Some (s, Inr r) \<and> (SDropWorkspace, True) \<in> set (bk_trace s)"
proof -
  from demo_backend_run obtain s r where run: "run_backend (demo_backend False) demo_task 40 (Suc (Suc (Suc 0))) 0 = Some (s, Inr r)"
    and "wr_outcome r = WO_SUBMITTED" and "bk_workspace s \<noteq> None" by auto
  with returned_result_is_clean [OF run] show ?thesis by auto
qed

theorem unrecorded_workspace_is_leaked_witness:
  "\<exists>s r. run_backend (demo_backend True) demo_task 40 (Suc (Suc (Suc 0))) 0 = Some (s, r) \<and> (SPrepare, True) \<in> set (bk_trace s) \<and>
     (\<forall>b. (SDropWorkspace, b) \<notin> set (bk_trace s))"
proof -
  have "run_backend (demo_backend True) demo_task 40 (Suc (Suc (Suc 0))) 0 \<noteq> None"
    by (simp add: run_evaluation)
  then obtain s r where run: "run_backend (demo_backend True) demo_task 40 (Suc (Suc (Suc 0))) 0 = Some (s, r)" by auto
  have "(SPrepare, True) \<in> set (bk_trace s) \<and> (\<forall>b. (SDropWorkspace, b) \<notin> set (bk_trace s))"
    by (rule unrecorded_workspace_is_leaked [OF run,
          where prepare = "\<lambda>j a b w. (w + 1, Inr \<lparr>pw_job_id = j, pw_repository_id = a, pw_revision = b, pw_path = []\<rparr>)"])
       (simp_all add: demo_backend_def demo_task_def)
  with run show ?thesis by blast
qed


end
