(* ===== verification/Composition.thy ===== *)
theory Composition
  imports SandboxBackend
begin

text \<open>
  \<open>night_shifts/composition.py\<close>: administrator-approved components under stable identifiers, and the one
  backend composed of a selection of them.  Components are opaque values of a type each.
\<close>

section \<open>Registries\<close>

datatype composition_error = CompositionError pystr | BackendValue pystr

text \<open>\<open>^[a-z][a-z0-9-]{0,63}$\<close> as a full match: \<open>$\<close> also matches before a final newline, which \<open>fullmatch\<close> does not leave over.\<close>

definition component_id :: "pystr \<Rightarrow> bool" where
  "component_id s \<longleftrightarrow> (case s of [] \<Rightarrow> False
     | c # r \<Rightarrow> is_lower_letter c \<and> length r \<le> 63 \<and> list_all (\<lambda>d. is_lower_letter d \<or> is_digit d \<or> d = 45) r)"

definition validated :: "(pychar \<Rightarrow> bool) \<Rightarrow> (pystr, 'c) dict \<Rightarrow> composition_error + (pystr, 'c) dict" where
  "validated uni d = (case sort_key id (filter (\<lambda>k. \<not> component_id k) (map fst d)) of
     [] \<Rightarrow> Inr d
   | k # ks \<Rightarrow> Inl (CompositionError (u ''Invalid trusted component ID: '' @ py_repr uni k)))"

record selection =
  sel_provider :: pystr
  sel_channel :: pystr
  sel_workspace :: "pystr option"
  sel_injector :: "pystr option"
  sel_retriever :: "pystr option"
  sel_collector :: "pystr option"

record ('p, 'h, 'w, 'i, 'r, 'c) execution_registry =
  er_providers :: "(pystr, 'p) dict"
  er_channels :: "(pystr, 'h) dict"
  er_workspaces :: "(pystr, 'w) dict"
  er_injectors :: "(pystr, 'i) dict"
  er_retrievers :: "(pystr, 'r) dict"
  er_collectors :: "(pystr, 'c) dict"

definition registry_init ::
  "(pychar \<Rightarrow> bool) \<Rightarrow> ('p, 'h, 'w, 'i, 'r, 'c) execution_registry \<Rightarrow> composition_error + ('p, 'h, 'w, 'i, 'r, 'c) execution_registry" where
  "registry_init uni g =
     rbind (validated uni (er_providers g)) (\<lambda>_. rbind (validated uni (er_channels g)) (\<lambda>_.
     rbind (validated uni (er_workspaces g)) (\<lambda>_. rbind (validated uni (er_injectors g)) (\<lambda>_.
     rbind (validated uni (er_retrievers g)) (\<lambda>_. rbind (validated uni (er_collectors g)) (\<lambda>_. Inr g))))))"

definition require_component :: "(pychar \<Rightarrow> bool) \<Rightarrow> (pystr, 'c) dict \<Rightarrow> pystr \<Rightarrow> pystr \<Rightarrow> composition_error + 'c" where
  "require_component uni d cid kind =
     (if \<not> component_id cid then Inl (CompositionError (u ''Invalid '' @ kind @ u '' ID''))
      else case map_of d cid of
        Some c \<Rightarrow> Inr c
      | None \<Rightarrow> Inl (CompositionError (u ''Unknown approved '' @ kind @ u '' ID: '' @ py_repr uni cid)))"

text \<open>\<open>kind.title()\<close> of the two kinds used here.\<close>

definition title_word :: "pystr \<Rightarrow> pystr" where
  "title_word s = (case s of [] \<Rightarrow> [] | c # r \<Rightarrow> (if is_lower_letter c then c - 32 else c) # r)"

definition optional_pair ::
  "(pychar \<Rightarrow> bool) \<Rightarrow> pystr option \<Rightarrow> pystr option \<Rightarrow> (pystr, 'a) dict \<Rightarrow> (pystr, 'b) dict \<Rightarrow> pystr \<Rightarrow> composition_error + ('a \<times> 'b) option" where
  "optional_pair uni a b da db kind = (case (a, b) of
     (None, None) \<Rightarrow> Inr None
   | (Some i, Some j) \<Rightarrow>
       rbind (require_component uni da i (kind @ u '' provider'')) (\<lambda>x.
       rbind (require_component uni db j (kind @ u '' adapter'')) (\<lambda>y. Inr (Some (x, y))))
   | _ \<Rightarrow> Inl (CompositionError (title_word kind @ u '' components must be selected together'')))"

section \<open>The backend\<close>

text \<open>What \<open>SandboxWorkerBackend.__init__\<close> keeps of the components; times in microseconds.\<close>

record ('p, 'h, 'w, 'i, 'r, 'c) backend_parts =
  bp_provider :: 'p
  bp_channel :: 'h
  bp_workspace :: "'w option"
  bp_injector :: "'i option"
  bp_retriever :: "'r option"
  bp_collector :: "'c option"
  bp_poll :: int
  bp_join :: int

definition backend_init ::
  "'p \<Rightarrow> 'h \<Rightarrow> 'w option \<Rightarrow> 'i option \<Rightarrow> 'r option \<Rightarrow> 'c option \<Rightarrow> int \<Rightarrow> int \<Rightarrow>
   composition_error + ('p, 'h, 'w, 'i, 'r, 'c) backend_parts" where
  "backend_init p h w i r c poll join_s =
     rbind (require (0 < poll) (BackendValue (u ''Sandbox poll interval must be positive''))) (\<lambda>_.
     rbind (require (0 \<le> join_s) (BackendValue (u ''Sandbox reader join timeout must not be negative''))) (\<lambda>_.
     rbind (require ((w = None) = (i = None)) (BackendValue (u ''Workspace provider and injector must be configured together''))) (\<lambda>_.
     rbind (require ((r = None) = (c = None)) (BackendValue (u ''Artifact retriever and collector must be configured together''))) (\<lambda>_.
     Inr \<lparr>bp_provider = p, bp_channel = h, bp_workspace = w, bp_injector = i, bp_retriever = r, bp_collector = c,
       bp_poll = poll, bp_join = join_s\<rparr>))))"

definition build_backend ::
  "(pychar \<Rightarrow> bool) \<Rightarrow> ('p, 'h, 'w, 'i, 'r, 'c) execution_registry \<Rightarrow> selection \<Rightarrow> int \<Rightarrow> int \<Rightarrow>
   composition_error + ('p, 'h, 'w, 'i, 'r, 'c) backend_parts" where
  "build_backend uni g sel poll join_s =
     rbind (optional_pair uni (sel_workspace sel) (sel_injector sel) (er_workspaces g) (er_injectors g) (u ''workspace'')) (\<lambda>ws.
     rbind (optional_pair uni (sel_retriever sel) (sel_collector sel) (er_retrievers g) (er_collectors g) (u ''artifact'')) (\<lambda>art.
     rbind (require_component uni (er_providers g) (sel_provider sel) (u ''sandbox provider'')) (\<lambda>p.
     rbind (require_component uni (er_channels g) (sel_channel sel) (u ''worker channel'')) (\<lambda>h.
     backend_init p h (map_option fst ws) (map_option snd ws) (map_option fst art) (map_option snd art) poll join_s))))"

section \<open>Only approved components are composed\<close>

lemma require_component_Inr: "require_component uni d cid kind = Inr c \<longleftrightarrow> component_id cid \<and> map_of d cid = Some c"
  by (auto simp: require_component_def split: option.splits)

lemma optional_pair_Inr:
  "optional_pair uni a b da db kind = Inr x \<longleftrightarrow>
     (a = None \<and> b = None \<and> x = None) \<or>
     (\<exists>i j y z. a = Some i \<and> b = Some j \<and> component_id i \<and> component_id j \<and> map_of da i = Some y \<and> map_of db j = Some z \<and> x = Some (y, z))"
  by (auto simp: optional_pair_def rbind_Inr_iff require_component_Inr split: option.splits)

text \<open>
  A composed backend consists of exactly the selected, registered components, each under a
  valid identifier, with workspaces and artifacts both complete or both absent.
\<close>

theorem composed_backend_is_the_selection:
  "build_backend uni g sel poll join_s = Inr parts \<longleftrightarrow>
     0 < poll \<and> 0 \<le> join_s \<and> component_id (sel_provider sel) \<and> component_id (sel_channel sel) \<and>
     map_of (er_providers g) (sel_provider sel) = Some (bp_provider parts) \<and>
     map_of (er_channels g) (sel_channel sel) = Some (bp_channel parts) \<and>
     (\<exists>ws art. optional_pair uni (sel_workspace sel) (sel_injector sel) (er_workspaces g) (er_injectors g) (u ''workspace'') = Inr ws \<and>
       optional_pair uni (sel_retriever sel) (sel_collector sel) (er_retrievers g) (er_collectors g) (u ''artifact'') = Inr art \<and>
       parts = \<lparr>bp_provider = bp_provider parts, bp_channel = bp_channel parts, bp_workspace = map_option fst ws,
         bp_injector = map_option snd ws, bp_retriever = map_option fst art, bp_collector = map_option snd art,
         bp_poll = poll, bp_join = join_s\<rparr>)"
  by (auto simp: build_backend_def rbind_Inr_iff require_component_Inr backend_init_def)

end
