(* ===== verification/GuestRepository.thy ===== *)
theory GuestRepository
  imports Snapshot Difflib "HOL-Library.Multiset"
begin

text \<open>
  \<open>night_shifts/guest/repository.py\<close>: the bounded text repository the worker's tools see inside the guest.
  The workspace is a tree of directories; an entry is a regular file with its content and execute bit, a
  directory, or a link (or any other special file).  \<open>posix\<close> tells the two branches of the source apart: the
  descriptor-based traversal of the Linux guest and the path-based one of the offline tests.  The name of the
  staging file and SHA-256 are arguments; system calls fail only for the reasons visible in the tree.
\<close>

section \<open>The workspace\<close>

datatype gnode = GFile bytes bool | GLink | GDir "(pystr \<times> gnode) list"

type_synonym entries = "(pystr \<times> gnode) list"

text \<open>\<open>RepositoryToolError\<close>, \<open>SnapshotError\<close> and \<open>UnicodeEncodeError\<close>: all three are \<open>ValueError\<close>s.\<close>

datatype repo_error = RepoError pystr | RepoSnapshot snapshot_error | RepoUnicode pystr

definition repo_check :: "bool \<Rightarrow> pystr \<Rightarrow> repo_error + unit" where
  "repo_check b t = (if b then Inr () else Inl (RepoError t))"

definition repo_encode :: "pystr \<Rightarrow> repo_error + bytes" where
  "repo_encode s = (case utf8_encode s of Some b \<Rightarrow> Inr b | None \<Rightarrow> Inl (RepoUnicode s))"

definition GUEST_MAX_DEPTH :: nat where "GUEST_MAX_DEPTH = 8"
definition GUEST_MAX_ENTRIES :: nat where "GUEST_MAX_ENTRIES = 128"
definition GUEST_MAX_FILE :: nat where "GUEST_MAX_FILE = 256 * 1024"
definition GUEST_MAX_READ :: nat where "GUEST_MAX_READ = 16 * 1024"
definition GUEST_MAX_MATCHES :: nat where "GUEST_MAX_MATCHES = 50"
definition GUEST_MAX_SEARCH_BYTES :: nat where "GUEST_MAX_SEARCH_BYTES = 16 * 1024"

section \<open>Paths\<close>

definition guest_parts :: "pystr \<Rightarrow> bool \<Rightarrow> repo_error + pystr list" where
  "guest_parts value root =
     (if root \<and> value = u ''.'' then Inr []
      else if value = [] \<or> 240 < length value \<or> starts_with value (u ''/'') \<or> 92 \<in> set value
      then Inl (RepoError (u ''path must be a bounded relative POSIX path''))
      else let parts = split_on 47 value in
        if GUEST_MAX_DEPTH < length parts \<or> list_ex part_refused parts
        then Inl (RepoError (u ''path is not portable or escapes the workspace''))
        else Inr parts)"

section \<open>Reading the tree\<close>

text \<open>\<open>_parent\<close>: each component is opened without following links.\<close>

fun open_dir :: "bool \<Rightarrow> entries \<Rightarrow> pystr list \<Rightarrow> repo_error + entries" where
  "open_dir posix es [] = Inr es"
| "open_dir posix es (p # ps) = (case map_of es p of
     Some (GDir sub) \<Rightarrow> open_dir posix sub ps
   | Some _ \<Rightarrow> Inl (RepoError (if posix then u ''workspace directory is unavailable or linked''
                                else u ''workspace directory is linked or not a directory''))
   | None \<Rightarrow> Inl (RepoError (if posix then u ''workspace directory is unavailable or linked''
                             else u ''workspace directory is unavailable'')))"

text \<open>
  \<open>_read\<close>.  On Linux an error of \<open>os.open\<close> passes through the context manager, which renames it; opening a
  directory fails there as well, when the descriptor is turned into a stream.
\<close>

definition read_content :: "bool \<Rightarrow> entries \<Rightarrow> pystr \<Rightarrow> repo_error + bytes" where
  "read_content posix es name = (case map_of es name of
     Some (GFile b x) \<Rightarrow> rbind (repo_check (length b \<le> GUEST_MAX_FILE) (u ''file is not a bounded regular file'')) (\<lambda>_. Inr b)
   | Some _ \<Rightarrow> Inl (RepoError (if posix then u ''workspace directory is unavailable or linked''
                                else u ''file is not a bounded regular file''))
   | None \<Rightarrow> Inl (RepoError (if posix then u ''workspace directory is unavailable or linked''
                             else u ''file is unavailable or linked'')))"

definition guest_read :: "bool \<Rightarrow> entries \<Rightarrow> pystr list \<Rightarrow> repo_error + bytes" where
  "guest_read posix t parts =
     rbind (open_dir posix t (butlast parts)) (\<lambda>es.
     rbind (read_content posix es (last parts)) (\<lambda>b.
     rbind (repo_check (\<not> (GUEST_MAX_FILE < length b \<or> 0 \<in> set b)) (u ''oversized or binary file is unsupported'')) (\<lambda>_.
     rbind (repo_check (utf8_decode b \<noteq> None) (u ''non-UTF-8 file is unsupported'')) (\<lambda>_. Inr b))))"

text \<open>The mode of a file that was just read.\<close>

definition exec_bit :: "bool \<Rightarrow> entries \<Rightarrow> pystr list \<Rightarrow> pystr \<Rightarrow> repo_error + bool" where
  "exec_bit posix t parts special =
     rbind (open_dir posix t (butlast parts)) (\<lambda>es. case map_of es (last parts) of
       Some (GFile b x) \<Rightarrow> Inr x
     | Some _ \<Rightarrow> Inl (RepoError special)
     | None \<Rightarrow> Inl (RepoError (u ''workspace directory is unavailable or linked'')))"

section \<open>Traversal\<close>

lemma size_list_sort_key [simp]: "size_list f (sort_key k xs) = size_list f xs"
  by (simp add: size_list_conv_sum_list) (metis mset_map mset_sort sum_mset_sum_list)

text \<open>
  \<open>visit\<close>: the entries of a directory are counted while it is scanned (a running count over the whole
  traversal), then visited in the order of their names.
\<close>

function visit :: "pystr list \<Rightarrow> entries \<Rightarrow> nat \<times> pystr list \<Rightarrow> repo_error + nat \<times> pystr list" where
  "visit dir [] acc = Inr acc"
| "visit dir ((name, node) # rest) acc =
     rbind (guest_parts (join [47] (dir @ [name])) False) (\<lambda>_.
     rbind (case node of
         GFile b x \<Rightarrow> Inr (fst acc, snd acc @ [join [47] (dir @ [name])])
       | GLink \<Rightarrow> Inl (RepoError (u ''links and special files are unsupported''))
       | GDir sub \<Rightarrow>
           if GUEST_MAX_DEPTH \<le> length dir + 1 then Inl (RepoError (u ''repository recursion limit exceeded''))
           else if GUEST_MAX_ENTRIES < fst acc + length sub then Inl (RepoError (u ''repository entry limit exceeded''))
           else visit (dir @ [name]) (sort_key fst sub) (fst acc + length sub, snd acc))
       (\<lambda>acc'. visit dir rest acc'))"
  by pat_completeness auto
termination
  by (relation "measure (\<lambda>(d, es, a). size_list (size_prod (\<lambda>x. 0) size) es)") auto

definition walk :: "bool \<Rightarrow> entries \<Rightarrow> pystr list \<Rightarrow> repo_error + pystr list" where
  "walk posix t dir =
     rbind (open_dir posix t dir) (\<lambda>es.
     rbind (repo_check (length es \<le> GUEST_MAX_ENTRIES) (u ''repository entry limit exceeded'')) (\<lambda>_.
     rbind (visit dir (sort_key fst es) (length es, [])) (\<lambda>(_, results). Inr (sort results))))"

section \<open>Export\<close>

fun export_loop :: "bool \<Rightarrow> entries \<Rightarrow> pystr list \<Rightarrow> nat \<Rightarrow> repo_error + snapshot_file list" where
  "export_loop posix t [] used = Inr []"
| "export_loop posix t (path # rest) used =
     rbind (guest_parts path False) (\<lambda>parts.
     rbind (guest_read posix t parts) (\<lambda>content.
     let used' = used + length content in
     rbind (repo_check (used' \<le> MAX_CONTENT_BYTES) (u ''final workspace content exceeds export limit'')) (\<lambda>_.
     rbind (exec_bit posix t parts (u ''final workspace contains a link or special file'')) (\<lambda>x.
     rbind (export_loop posix t rest used') (\<lambda>files.
     Inr (\<lparr>sf_path = path, sf_mode = if x then u ''100755'' else u ''100644'', sf_content = content\<rparr> # files))))))"

definition export_workspace :: "bool \<Rightarrow> entries \<Rightarrow> repo_error + snapshot_file list" where
  "export_workspace posix t =
     rbind (walk posix t []) (\<lambda>paths.
     rbind (repo_check (length paths \<le> MAX_FILES) (u ''final workspace file count exceeds export limit'')) (\<lambda>_.
     rbind (export_loop posix t paths 0) (\<lambda>files.
     rbind (map_sum RepoSnapshot id (validate_workspace_files files)) (\<lambda>_. Inr files))))"

section \<open>Listing, reading, searching\<close>

definition list_files :: "bool \<Rightarrow> entries \<Rightarrow> pystr \<Rightarrow> repo_error + json" where
  "list_files posix t path =
     rbind (guest_parts path True) (\<lambda>dir. rbind (walk posix t dir) (\<lambda>paths.
     Inr (JObj [(u ''files'', JArr (map JStr paths)), (u ''count'', JInt (int (length paths)))])))"

definition read_file :: "(bytes \<Rightarrow> nat) \<Rightarrow> bool \<Rightarrow> entries \<Rightarrow> pystr \<Rightarrow> repo_error + json" where
  "read_file sha posix t path =
     rbind (guest_parts path False) (\<lambda>parts. rbind (guest_read posix t parts) (\<lambda>b.
     rbind (repo_check (length b \<le> GUEST_MAX_READ) (u ''file exceeds 16 KiB read limit; use search_text'')) (\<lambda>_.
     Inr (JObj [(u ''path'', JStr path), (u ''content'', JStr (the (utf8_decode b))), (u ''sha256'', JStr (hexdigest sha b))]))))"

record search_match =
  sm_path :: pystr
  sm_line :: nat
  sm_text :: pystr

text \<open>Paths and decoded text contain no surrogates: their encoded size is \<open>utf8_len\<close>.\<close>

fun search_lines :: "pystr \<Rightarrow> pystr \<Rightarrow> nat \<Rightarrow> pystr list \<Rightarrow> search_match list \<times> nat \<Rightarrow> repo_error + search_match list \<times> nat" where
  "search_lines query path number [] acc = Inr acc"
| "search_lines query path number (l # ls) (found, used) =
     (if \<not> contains l query then search_lines query path (Suc number) ls (found, used)
      else let preview = take 240 l; used' = used + utf8_len path + utf8_len preview + 100 in
        if GUEST_MAX_MATCHES \<le> length found \<or> GUEST_MAX_SEARCH_BYTES < used'
        then Inl (RepoError (u ''search results exceed limit; narrow the query''))
        else search_lines query path (Suc number) ls (found @ [\<lparr>sm_path = path, sm_line = number, sm_text = preview\<rparr>], used'))"

fun search_files :: "bool \<Rightarrow> entries \<Rightarrow> pystr \<Rightarrow> pystr list \<Rightarrow> search_match list \<times> nat \<Rightarrow> repo_error + search_match list" where
  "search_files posix t query [] acc = Inr (fst acc)"
| "search_files posix t query (path # rest) acc =
     rbind (guest_parts path False) (\<lambda>parts. rbind (guest_read posix t parts) (\<lambda>b.
     rbind (search_lines query path 1 (splitlines (the (utf8_decode b))) acc) (search_files posix t query rest)))"

definition match_json :: "search_match \<Rightarrow> json" where
  "match_json m = JObj [(u ''path'', JStr (sm_path m)), (u ''line'', JInt (int (sm_line m))), (u ''text'', JStr (sm_text m))]"

definition search_text :: "bool \<Rightarrow> entries \<Rightarrow> pystr \<Rightarrow> repo_error + json" where
  "search_text posix t query =
     rbind (if query = [] then Inr [] else repo_encode query) (\<lambda>q.
     rbind (repo_check (query \<noteq> [] \<and> length q \<le> 256 \<and> 10 \<notin> set query \<and> 13 \<notin> set query)
       (u ''search query must be a bounded single line'')) (\<lambda>_.
     rbind (walk posix t []) (\<lambda>paths.
     rbind (search_files posix t query paths ([], 0)) (\<lambda>found.
     Inr (JObj [(u ''matches'', JArr (map match_json found))])))))"

section \<open>Patching\<close>

fun with_dir :: "pystr list \<Rightarrow> (entries \<Rightarrow> entries) \<Rightarrow> entries \<Rightarrow> entries" where
  "with_dir [] f es = f es"
| "with_dir (p # ps) f es = map (\<lambda>(n, c). (n, if n = p then (case c of GDir sub \<Rightarrow> GDir (with_dir ps f sub) | _ \<Rightarrow> c) else c)) es"

definition replace_entry :: "pystr \<Rightarrow> pystr \<Rightarrow> gnode \<Rightarrow> entries \<Rightarrow> entries" where
  "replace_entry tmp name node es = map (\<lambda>(n, c). (n, if n = name then node else c)) (filter (\<lambda>(n, c). n \<noteq> tmp) es)"

definition write_failed :: repo_error where
  "write_failed = RepoError (u ''patch write failed or new file already exists'')"

definition cleanup_failed :: repo_error where
  "cleanup_failed = RepoError (u ''patch staging cleanup failed; mutation status is unknown'')"

text \<open>
  The body of the \<open>try\<close> block: the content is staged in a fresh file, then linked under a new name or, after
  the digest was checked again, moved over the old file.
\<close>

definition install_patch ::
  "(bytes \<Rightarrow> nat) \<Rightarrow> bool \<Rightarrow> pystr list \<Rightarrow> pystr \<Rightarrow> bytes \<Rightarrow> bool \<Rightarrow> pystr option \<Rightarrow> entries \<Rightarrow> entries \<times> (repo_error + unit)" where
  "install_patch sha posix parts tmp content x expected t =
     (let dir = butlast parts; name = last parts; es = (case open_dir posix t dir of Inr es \<Rightarrow> es | Inl e \<Rightarrow> []) in
      if tmp \<in> fst ` set es then (t, Inl write_failed)
      else let t1 = with_dir dir (\<lambda>es. es @ [(tmp, GFile content x)]) t in
        case expected of
          None \<Rightarrow>
            if name \<in> insert tmp (fst ` set es) then (t1, Inl write_failed)
            else (with_dir dir (\<lambda>es. es @ [(name, GFile content x)]) t1, Inr ())
        | Some digest \<Rightarrow> (case guest_read posix t1 parts of
            Inl e \<Rightarrow> (t1, Inl e)
          | Inr now \<Rightarrow>
              if hexdigest sha now \<noteq> digest then (t1, Inl (RepoError (u ''file changed during patch'')))
              else (with_dir dir (replace_entry tmp name (GFile content x)) t1, Inr ())))"

text \<open>
  The \<open>finally\<close> block: only the path-based branch passes \<open>missing_ok\<close>, so on Linux the staging file must
  still be there.
\<close>

definition unlink_staging :: "bool \<Rightarrow> pystr list \<Rightarrow> pystr \<Rightarrow> entries \<Rightarrow> entries \<times> (repo_error + unit)" where
  "unlink_staging posix dir tmp t =
     (case map_of (case open_dir posix t dir of Inr es \<Rightarrow> es | Inl e \<Rightarrow> []) tmp of
        None \<Rightarrow> (t, if posix then Inl cleanup_failed else Inr ())
      | Some (GDir sub) \<Rightarrow> (t, Inl cleanup_failed)
      | Some _ \<Rightarrow> (with_dir dir (filter (\<lambda>(n, c). n \<noteq> tmp)) t, Inr ()))"

definition write_patch ::
  "(bytes \<Rightarrow> nat) \<Rightarrow> bool \<Rightarrow> pystr list \<Rightarrow> pystr \<Rightarrow> bytes \<Rightarrow> bool \<Rightarrow> pystr option \<Rightarrow> entries \<Rightarrow> entries \<times> (repo_error + unit)" where
  "write_patch sha posix parts tmp content x expected t = (case open_dir posix t (butlast parts) of
     Inl e \<Rightarrow> (t, Inl e)
   | Inr _ \<Rightarrow> (case install_patch sha posix parts tmp content x expected t of
       (t1, r) \<Rightarrow> (case unlink_staging posix (butlast parts) tmp t1 of
         (t2, Inl e) \<Rightarrow> (t2, Inl e)
       | (t2, Inr _) \<Rightarrow> (t2, r))))"

text \<open>The new content of the file and its execute bit, or the reason the patch is refused.\<close>

definition patched_content ::
  "(bytes \<Rightarrow> nat) \<Rightarrow> bool \<Rightarrow> entries \<Rightarrow> pystr list \<Rightarrow> pystr option \<Rightarrow> pystr \<Rightarrow> pystr \<Rightarrow> repo_error + bytes \<times> bool" where
  "patched_content sha posix t parts expected find_text replacement = (case expected of
     None \<Rightarrow>
       rbind (repo_check (find_text = []) (u ''new files require an empty find string'')) (\<lambda>_.
       rbind (repo_encode replacement) (\<lambda>c. Inr (c, False)))
   | Some digest \<Rightarrow>
       rbind (repo_check (find_text \<noteq> []) (u ''existing files require a nonempty unique find string'')) (\<lambda>_.
       rbind (guest_read posix t parts) (\<lambda>before.
       rbind (repo_check (hexdigest sha before = digest) (u ''stale file digest; patch not applied'')) (\<lambda>_.
       rbind (repo_encode find_text) (\<lambda>needle.
       rbind (repo_check (str_count before needle = 1) (u ''patch context is missing or ambiguous'')) (\<lambda>_.
       rbind (repo_encode replacement) (\<lambda>new.
       rbind (exec_bit posix t parts (u ''patch target is not a regular file'')) (\<lambda>x.
       Inr (replace_first before needle new, x)))))))))"

definition patch_digest :: "json \<Rightarrow> repo_error + pystr option" where
  "patch_digest v = (case v of
     JNull \<Rightarrow> Inr None
   | JStr d \<Rightarrow> if hex_exactly 64 d then Inr (Some d) else Inl (RepoError (u ''expected_sha256 must be a digest or null for creation''))
   | _ \<Rightarrow> Inl (RepoError (u ''expected_sha256 must be a digest or null for creation'')))"

text \<open>Every check before the first write.\<close>

definition checked_patch ::
  "(bytes \<Rightarrow> nat) \<Rightarrow> bool \<Rightarrow> pystr \<Rightarrow> json \<Rightarrow> pystr \<Rightarrow> pystr \<Rightarrow> entries \<Rightarrow> repo_error + pystr list \<times> pystr option \<times> bytes \<times> bool" where
  "checked_patch sha posix path expected find_text replacement t =
     rbind (guest_parts path False) (\<lambda>parts.
     rbind (patch_digest expected) (\<lambda>digest.
     rbind (repo_encode find_text) (\<lambda>f.
     rbind (if GUEST_MAX_READ < length f then Inr [] else repo_encode replacement) (\<lambda>r.
     rbind (repo_check (\<not> (GUEST_MAX_READ < length f \<or> GUEST_MAX_READ < length r)) (u ''patch exceeds 16 KiB limit'')) (\<lambda>_.
     rbind (patched_content sha posix t parts digest find_text replacement) (\<lambda>cx.
     rbind (repo_check (\<not> (GUEST_MAX_FILE < length (fst cx) \<or> 0 \<in> set (fst cx))) (u ''patched file is oversized or binary'')) (\<lambda>_.
     Inr (parts, digest, cx))))))))"

definition apply_patch ::
  "(bytes \<Rightarrow> nat) \<Rightarrow> bool \<Rightarrow> pystr \<Rightarrow> pystr \<Rightarrow> json \<Rightarrow> pystr \<Rightarrow> pystr \<Rightarrow> entries \<Rightarrow> entries \<times> (repo_error + json)" where
  "apply_patch sha posix tmp path expected find_text replacement t =
     (case checked_patch sha posix path expected find_text replacement t of
       Inl e \<Rightarrow> (t, Inl e)
     | Inr (parts, digest, content, x) \<Rightarrow> (case write_patch sha posix parts tmp content x digest t of
         (t', Inl e) \<Rightarrow> (t', Inl e)
       | (t', Inr _) \<Rightarrow> (t', Inr (JObj [(u ''path'', JStr path), (u ''sha256'', JStr (hexdigest sha content)),
           (u ''size_bytes'', JInt (int (length content))), (u ''created'', JBool (digest = None))]))))"

section \<open>Laws of the tree\<close>

fun gnode_at :: "entries \<Rightarrow> pystr list \<Rightarrow> gnode option" where
  "gnode_at es [] = Some (GDir es)"
| "gnode_at es (p # ps) = (case map_of es p of
     Some (GDir sub) \<Rightarrow> gnode_at sub ps
   | Some n \<Rightarrow> if ps = [] then Some n else None
   | None \<Rightarrow> None)"

text \<open>The names in a directory are distinct and contain no slash.\<close>

fun node_ok :: "gnode \<Rightarrow> bool" where
  "node_ok (GDir es) \<longleftrightarrow> distinct (map fst es) \<and> (\<forall>(n, c) \<in> set es. 47 \<notin> set n \<and> node_ok c)"
| "node_ok n = True"

lemma open_dir_iff: "open_dir posix t d = Inr es \<longleftrightarrow> gnode_at t d = Some (GDir es)"
  by (induction posix t d rule: open_dir.induct) (auto split: option.splits gnode.splits)

lemma gnode_at_snoc:
  "gnode_at t (d @ [n]) = (case gnode_at t d of Some (GDir es) \<Rightarrow> map_of es n | _ \<Rightarrow> None)"
  by (induction t d rule: gnode_at.induct) (auto split: option.splits gnode.splits)

lemma gnode_at_append:
  "gnode_at t (d @ ps) = (case gnode_at t d of Some (GDir es) \<Rightarrow> gnode_at es ps | Some n \<Rightarrow> if ps = [] then Some n else None | None \<Rightarrow> None)"
  by (induction t d rule: gnode_at.induct) (auto split: option.splits gnode.splits)

lemma gnode_at_cong: "map_of es = map_of es' \<Longrightarrow> ps \<noteq> [] \<Longrightarrow> gnode_at es ps = gnode_at es' ps"
  by (cases ps) simp_all

lemma node_ok_at: "gnode_at t ps = Some n \<Longrightarrow> node_ok (GDir t) \<Longrightarrow> node_ok n"
proof (induction t ps arbitrary: n rule: gnode_at.induct)
  case (2 es p ps)
  have ok: "node_ok c" if "map_of es p = Some c" for c
    using 2(3) map_of_SomeD [OF that] by (auto split: prod.splits)
  show ?case using 2(1, 2) ok by (auto split: option.splits gnode.splits if_splits)
qed simp

lemma guest_read_Inr:
  assumes "guest_read posix t parts = Inr b" and "parts \<noteq> []"
  shows "\<exists>x. gnode_at t parts = Some (GFile b x) \<and> (\<forall>m. exec_bit posix t parts m = Inr x)"
proof -
  from assms(1) obtain es where es: "open_dir posix t (butlast parts) = Inr es" and
    r: "read_content posix es (last parts) = Inr b" by (auto simp: guest_read_def rbind_Inr_iff repo_check_def)
  from r obtain x where x: "map_of es (last parts) = Some (GFile b x)"
    by (auto simp: read_content_def rbind_Inr_iff split: option.splits gnode.splits)
  have "gnode_at t (butlast parts @ [last parts]) = Some (GFile b x)"
    unfolding gnode_at_snoc using es x by (simp add: open_dir_iff)
  with es x assms(2) show ?thesis by (simp add: exec_bit_def)
qed

text \<open>The files below a directory, with the components of their paths.\<close>

definition file_paths :: "entries \<Rightarrow> pystr list set" where
  "file_paths t = {ps. \<exists>b x. gnode_at t ps = Some (GFile b x)}"

definition no_links :: "entries \<Rightarrow> bool" where
  "no_links t \<longleftrightarrow> (\<forall>ps. gnode_at t ps \<noteq> Some GLink)"

text \<open>What a successful visit of a list of entries found.\<close>

definition visited :: "pystr list \<Rightarrow> entries \<Rightarrow> pystr list \<Rightarrow> bool" where
  "visited dir es found \<longleftrightarrow> (\<exists>pss. found = map (\<lambda>ps. join [47] (dir @ ps)) pss \<and> distinct pss \<and>
     set pss = file_paths es \<and> (\<forall>ps \<in> set pss. list_all (\<lambda>p. \<not> part_refused p) ps)) \<and> no_links es"

lemma file_paths_Nil [simp]: "[] \<notin> file_paths t"
  by (simp add: file_paths_def)

lemma gnode_at_Cons_entry:
  "gnode_at ((n, c) # rest) (p # ps) =
     (if p = n then (case c of GDir sub \<Rightarrow> gnode_at sub ps | _ \<Rightarrow> if ps = [] then Some c else None) else gnode_at rest (p # ps))"
  by (simp split: gnode.splits)

lemma gnode_at_fresh: "n \<notin> fst ` set rest \<Longrightarrow> gnode_at rest (n # ps) = None"
  by (simp add: map_of_eq_None_iff [THEN iffD2])

lemma file_paths_Cons:
  assumes "n \<notin> fst ` set rest"
  shows "file_paths ((n, c) # rest) =
     (case c of GFile b x \<Rightarrow> {[n]} | GLink \<Rightarrow> {} | GDir sub \<Rightarrow> (#) n ` file_paths sub) \<union> file_paths rest" (is "_ = ?R")
proof (rule set_eqI)
  fix ps
  show "ps \<in> file_paths ((n, c) # rest) \<longleftrightarrow> ps \<in> ?R"
  proof (cases ps)
    case Nil
    then show ?thesis by (cases c) (auto simp: file_paths_def)
  next
    case (Cons p qs)
    have "n # qs \<notin> file_paths rest" by (simp add: file_paths_def gnode_at_fresh [OF assms] del: gnode_at.simps(2))
    then show ?thesis
      unfolding Cons file_paths_def mem_Collect_eq gnode_at_Cons_entry
      by (cases c) (auto simp: file_paths_def)
  qed
qed

lemma no_links_Cons:
  assumes "n \<notin> fst ` set rest"
  shows "no_links ((n, c) # rest) \<longleftrightarrow> (case c of GFile b x \<Rightarrow> True | GLink \<Rightarrow> False | GDir sub \<Rightarrow> no_links sub) \<and> no_links rest"
proof -
  have all: "no_links t \<longleftrightarrow> (\<forall>p ps. gnode_at t (p # ps) \<noteq> Some GLink)" for t
    unfolding no_links_def by (metis gnode.distinct(5) gnode_at.simps(1) list.exhaust option.inject)
  let ?in = "\<lambda>ps. case c of GDir sub \<Rightarrow> gnode_at sub ps | _ \<Rightarrow> if ps = [] then Some c else None"
  have "no_links ((n, c) # rest) \<longleftrightarrow> (\<forall>ps. ?in ps \<noteq> Some GLink) \<and> (\<forall>p ps. p \<noteq> n \<longrightarrow> gnode_at rest (p # ps) \<noteq> Some GLink)"
    unfolding all [of "(n, c) # rest"] gnode_at_Cons_entry by (auto split: if_split_asm)
  moreover have "(\<forall>p ps. p \<noteq> n \<longrightarrow> gnode_at rest (p # ps) \<noteq> Some GLink) \<longleftrightarrow> no_links rest"
    unfolding all [of rest] by (metis gnode_at_fresh [OF assms] option.distinct(1))
  moreover have "(\<forall>ps. ?in ps \<noteq> Some GLink) \<longleftrightarrow> (case c of GFile b x \<Rightarrow> True | GLink \<Rightarrow> False | GDir sub \<Rightarrow> no_links sub)"
    by (cases c) (auto simp: no_links_def)
  ultimately show ?thesis by blast
qed

lemma file_paths_cong: "map_of es = map_of es' \<Longrightarrow> file_paths es = file_paths es'"
proof -
  assume m: "map_of es = map_of es'"
  have "ps \<in> file_paths es \<longleftrightarrow> ps \<in> file_paths es'" for ps
    using gnode_at_cong [OF m, of ps] by (cases ps) (auto simp: file_paths_def)
  then show ?thesis by blast
qed

lemma no_links_cong: "map_of es = map_of es' \<Longrightarrow> no_links es \<longleftrightarrow> no_links es'"
  using gnode_at_cong [of es es'] by (auto simp: no_links_def) (metis gnode.distinct(5) gnode_at.simps(1) option.inject)+

lemma visited_cong: "map_of es = map_of es' \<Longrightarrow> visited dir es found \<longleftrightarrow> visited dir es' found"
  by (simp add: visited_def file_paths_cong [of es es'] no_links_cong [of es es'])

lemma visited_Nil [simp]: "visited dir [] []"
proof -
  have "gnode_at [] ps = (if ps = [] then Some (GDir []) else None)" for ps by (cases ps) simp_all
  then show ?thesis by (simp add: visited_def file_paths_def no_links_def)
qed

lemma guest_parts_Inr:
  "guest_parts v False = Inr ps \<longleftrightarrow> ps = split_on 47 v \<and> v \<noteq> [] \<and> length v \<le> 240 \<and> \<not> starts_with v (u ''/'') \<and> 92 \<notin> set v \<and>
     length ps \<le> GUEST_MAX_DEPTH \<and> list_all (\<lambda>p. \<not> part_refused p) ps"
  by (auto simp: guest_parts_def Let_def list_ex_iff list_all_iff)

lemma join_parts:
  "list_all (\<lambda>p. 47 \<notin> set p) ps \<Longrightarrow> ps \<noteq> [] \<Longrightarrow> guest_parts (join [47] ps) False = Inr qs \<Longrightarrow> qs = ps \<and> list_all (\<lambda>p. \<not> part_refused p) ps"
  by (auto simp: guest_parts_Inr split_on_join list_all_iff)

lemma visited_Cons:
  assumes "n \<notin> fst ` set rest" and "visited dir rest found" and "\<not> part_refused n"
    and "case c of GFile b x \<Rightarrow> new = [join [47] (dir @ [n])] | GLink \<Rightarrow> False | GDir sub \<Rightarrow> visited (dir @ [n]) sub new"
  shows "visited dir ((n, c) # rest) (new @ found)"
proof -
  from assms(2) obtain pss where pss: "found = map (\<lambda>ps. join [47] (dir @ ps)) pss" "distinct pss" "set pss = file_paths rest"
    "\<forall>ps \<in> set pss. list_all (\<lambda>p. \<not> part_refused p) ps" "no_links rest" by (auto simp: visited_def)
  have fresh: "n # ps \<notin> file_paths rest" for ps
    by (simp add: file_paths_def gnode_at_fresh [OF assms(1)] del: gnode_at.simps(2))
  obtain qss where qss: "new = map (\<lambda>ps. join [47] (dir @ ps)) qss" "distinct qss" "\<forall>ps \<in> set qss. list_all (\<lambda>p. \<not> part_refused p) ps"
    "set qss = (case c of GFile b x \<Rightarrow> {[n]} | GLink \<Rightarrow> {} | GDir sub \<Rightarrow> (#) n ` file_paths sub)"
    "case c of GFile b x \<Rightarrow> True | GLink \<Rightarrow> False | GDir sub \<Rightarrow> no_links sub"
  proof (cases c)
    case (GFile b x)
    with assms(3, 4) show ?thesis by (intro that [of "[[n]]"]) simp_all
  next
    case GLink
    with assms(4) show ?thesis by simp
  next
    case (GDir sub)
    with assms(4) obtain rss where rss: "new = map (\<lambda>ps. join [47] ((dir @ [n]) @ ps)) rss" "distinct rss" "set rss = file_paths sub"
      "\<forall>ps \<in> set rss. list_all (\<lambda>p. \<not> part_refused p) ps" "no_links sub" by (auto simp: visited_def)
    with assms(3) GDir show ?thesis by (intro that [of "map ((#) n) rss"]) (simp_all add: distinct_map)
  qed
  have disjoint: "set qss \<inter> set pss = {}"
    using fresh qss(4) pss(3) by (cases c) auto
  have set: "set (qss @ pss) = file_paths ((n, c) # rest)"
    using qss(4) pss(3) by (simp add: file_paths_Cons [OF assms(1)])
  have nl: "no_links ((n, c) # rest)" using qss(5) pss(5) by (simp add: no_links_Cons [OF assms(1)])
  show ?thesis
    unfolding visited_def
  proof (intro conjI exI [of _ "qss @ pss"])
    show "new @ found = map (\<lambda>ps. join [47] (dir @ ps)) (qss @ pss)" using qss(1) pss(1) by simp
    show "distinct (qss @ pss)" using qss(2) pss(2) disjoint by simp
    show "set (qss @ pss) = file_paths ((n, c) # rest)" by (rule set)
    show "\<forall>ps \<in> set (qss @ pss). list_all (\<lambda>p. \<not> part_refused p) ps" using qss(3) pss(4) by auto
    show "no_links ((n, c) # rest)" by (rule nl)
  qed
qed

lemma visit_visited:
  "visit dir es acc = Inr acc' \<Longrightarrow> node_ok (GDir es) \<Longrightarrow> list_all (\<lambda>p. 47 \<notin> set p) dir \<Longrightarrow>
     \<exists>found. snd acc' = snd acc @ found \<and> visited dir es found"
proof (induction dir es acc arbitrary: acc' rule: visit.induct)
  case (1 dir acc)
  then show ?case by simp
next
  case (2 dir name node rest acc)
  let ?p = "join [47] (dir @ [name])"
  from "2.prems"(2) have ok: "name \<notin> fst ` set rest" "47 \<notin> set name" "node_ok node" "node_ok (GDir rest)" by auto
  obtain parts where parts: "guest_parts ?p False = Inr parts"
    using "2.prems"(1) by (auto simp: rbind_Inr_iff)
  have all: "list_all (\<lambda>p. 47 \<notin> set p) (dir @ [name])" using "2.prems"(3) ok(2) by simp
  from join_parts [OF all _ parts] have fine: "\<not> part_refused name" by simp
  obtain acc1 where one: "(case node of
         GFile b x \<Rightarrow> Inr (fst acc, snd acc @ [?p])
       | GLink \<Rightarrow> Inl (RepoError (u ''links and special files are unsupported''))
       | GDir sub \<Rightarrow>
           if GUEST_MAX_DEPTH \<le> length dir + 1 then Inl (RepoError (u ''repository recursion limit exceeded''))
           else if GUEST_MAX_ENTRIES < fst acc + length sub then Inl (RepoError (u ''repository entry limit exceeded''))
           else visit (dir @ [name]) (sort_key fst sub) (fst acc + length sub, snd acc)) = Inr acc1"
    and two: "visit dir rest acc1 = Inr acc'"
    using "2.prems"(1) parts by (auto simp: rbind_Inr_iff)
  have "\<exists>new. snd acc1 = snd acc @ new \<and>
     (case node of GFile b x \<Rightarrow> new = [?p] | GLink \<Rightarrow> False | GDir sub \<Rightarrow> visited (dir @ [name]) sub new)"
  proof (cases node)
    case (GDir sub)
    from one GDir have v: "visit (dir @ [name]) (sort_key fst sub) (fst acc + length sub, snd acc) = Inr acc1"
      and lim: "\<not> GUEST_MAX_DEPTH \<le> length dir + 1" "\<not> GUEST_MAX_ENTRIES < fst acc + length sub"
      by (auto split: if_splits)
    from ok(3) GDir have sub: "node_ok (GDir (sort_key fst sub))" "distinct (map fst sub)" by (auto simp: distinct_sort_key_fst)
    from "2.IH"(1) [OF parts GDir lim v sub(1) all] show ?thesis
      using visited_cong [OF map_of_sort_key [OF sub(2)]] GDir by auto
  qed (use one in auto)
  then obtain new where new: "snd acc1 = snd acc @ new"
     "case node of GFile b x \<Rightarrow> new = [?p] | GLink \<Rightarrow> False | GDir sub \<Rightarrow> visited (dir @ [name]) sub new" by blast
  from "2.IH"(2) [OF parts one two ok(4) "2.prems"(3)] obtain found where
    found: "snd acc' = snd acc1 @ found" "visited dir rest found" by blast
  from visited_Cons [OF ok(1) found(2) fine new(2)] new(1) found(1) show ?case by auto
qed

lemma walk_root:
  assumes "walk posix t [] = Inr paths" and "node_ok (GDir t)"
  shows "\<exists>pss. set paths = join [47] ` set pss \<and> distinct paths \<and> sorted paths \<and> set pss = file_paths t \<and>
     (\<forall>ps \<in> set pss. list_all (\<lambda>p. \<not> part_refused p) ps)" and "no_links t"
proof -
  from assms(1) obtain k results where v: "visit [] (sort_key fst t) (length t, []) = Inr (k, results)" and p: "paths = sort results"
    by (auto simp: walk_def rbind_Inr_iff)
  have ok: "node_ok (GDir (sort_key fst t))" "map_of (sort_key fst t) = map_of t"
    using assms(2) by (auto simp: distinct_sort_key_fst map_of_sort_key)
  from visit_visited [OF v ok(1)] have "visited [] t results" by (simp add: visited_cong [OF ok(2)])
  then obtain pss where pss: "results = map (join [47]) pss" "distinct pss" "set pss = file_paths t"
    "\<forall>ps \<in> set pss. list_all (\<lambda>p. \<not> part_refused p) ps" and nl: "no_links t" by (auto simp: visited_def)
  show "no_links t" by (rule nl)
  have "inj_on (join [47]) (set pss)"
  proof (rule inj_onI)
    fix a b assume ab: "a \<in> set pss" "b \<in> set pss" "join [47] a = join [47] b"
    have "split_on 47 (join [47] c) = c" if "c \<in> set pss" for c
      using that pss(3, 4) by (intro split_on_join) (auto simp: list_all_iff dest: part_ok_not_dots)
    with ab show "a = b" by metis
  qed
  then have "distinct results" using pss(1, 2) by (simp add: distinct_map)
  with pss p show "\<exists>pss. set paths = join [47] ` set pss \<and> distinct paths \<and> sorted paths \<and> set pss = file_paths t \<and>
     (\<forall>ps \<in> set pss. list_all (\<lambda>p. \<not> part_refused p) ps)" by auto
qed

definition file_mode :: "bool \<Rightarrow> pystr" where
  "file_mode x = (if x then u ''100755'' else u ''100644'')"

lemma export_loop_Inr:
  "export_loop posix t paths used = Inr fs \<Longrightarrow> map sf_path fs = paths \<and>
     (\<forall>f \<in> set fs. \<exists>x. gnode_at t (split_on 47 (sf_path f)) = Some (GFile (sf_content f) x) \<and> sf_mode f = file_mode x)"
proof (induction paths arbitrary: used fs)
  case (Cons path rest)
  from Cons.prems obtain parts content x fs' where
    g: "guest_parts path False = Inr parts" "guest_read posix t parts = Inr content"
    "exec_bit posix t parts (u ''final workspace contains a link or special file'') = Inr x"
    "export_loop posix t rest (used + length content) = Inr fs'"
    "fs = \<lparr>sf_path = path, sf_mode = file_mode x, sf_content = content\<rparr> # fs'"
    by (auto simp: rbind_Inr_iff Let_def repo_check_def file_mode_def split: if_splits)
  have parts: "parts = split_on 47 path" "parts \<noteq> []" using g(1) by (auto simp: guest_parts_Inr)
  from guest_read_Inr [OF g(2) parts(2)] g(3) have "gnode_at t parts = Some (GFile content x)" by auto
  with Cons.IH [OF g(4)] g(5) parts show ?case by auto
qed simp

text \<open>
  C15: The final workspace exported by the guest is complete and exact: for every workspace whose names are
  those a file system allows, a successful export holds exactly the regular files of the tree with their
  contents and modes, sorted and without duplicates; a workspace with a link anywhere is not exported, and
  what is exported passes the validation of the host.
\<close>

theorem exported_workspace_is_exact:
  assumes "export_workspace posix t = Inr fs" and "node_ok (GDir t)"
  shows "{(split_on 47 (sf_path f), sf_content f, sf_mode f) | f. f \<in> set fs} =
           {(ps, b, file_mode x) | ps b x. gnode_at t ps = Some (GFile b x)} \<and>
         sorted (map sf_path fs) \<and> distinct (map sf_path fs) \<and> (\<forall>ps. gnode_at t ps \<noteq> Some GLink) \<and>
         validate_workspace_files fs = Inr ()" (is "?L = ?R \<and> _")
proof -
  from assms(1) obtain paths where w: "walk posix t [] = Inr paths" "export_loop posix t paths 0 = Inr fs"
    and "map_sum RepoSnapshot id (validate_workspace_files fs) = Inr ()"
    by (auto simp: export_workspace_def rbind_Inr_iff split: if_splits)
  then have v: "validate_workspace_files fs = Inr ()" by (cases "validate_workspace_files fs") simp_all
  from walk_root [OF w(1) assms(2)] obtain pss where pss: "set paths = join [47] ` set pss" "distinct paths" "sorted paths"
    "set pss = file_paths t" "\<forall>ps \<in> set pss. list_all (\<lambda>p. \<not> part_refused p) ps" and nl: "no_links t" by blast
  from export_loop_Inr [OF w(2)] have l: "map sf_path fs = paths"
    and at: "f \<in> set fs \<Longrightarrow> \<exists>x. gnode_at t (split_on 47 (sf_path f)) = Some (GFile (sf_content f) x) \<and> sf_mode f = file_mode x" for f
    by auto
  have inv: "split_on 47 (join [47] ps) = ps" if "ps \<in> set pss" for ps
    using that pss(4, 5) by (intro split_on_join) (auto simp: list_all_iff dest: part_ok_not_dots)
  have found: "(ps, b, file_mode x) \<in> {(split_on 47 (sf_path f), sf_content f, sf_mode f) | f. f \<in> set fs}"
    if n: "gnode_at t ps = Some (GFile b x)" for ps b x
  proof -
    from n have m: "ps \<in> set pss" by (auto simp: pss(4) file_paths_def)
    then have "join [47] ps \<in> sf_path ` set fs" using pss(1) l by (metis image_eqI list.set_map)
    then obtain f where f: "f \<in> set fs" "sf_path f = join [47] ps" by force
    with at [OF f(1)] n inv [OF m] show ?thesis by force
  qed
  have "?R \<subseteq> ?L"
  proof
    fix e assume "e \<in> ?R"
    then obtain ps b x where "e = (ps, b, file_mode x)" "gnode_at t ps = Some (GFile b x)" by blast
    with found [of ps b x] show "e \<in> ?L" by (simp only:)
  qed
  moreover have "?L \<subseteq> ?R"
  proof clarify
    fix f assume "f \<in> set fs"
    from at [OF this] show "\<exists>ps b x. (split_on 47 (sf_path f), sf_content f, sf_mode f) = (ps, b, file_mode x) \<and> gnode_at t ps = Some (GFile b x)"
      by auto
  qed
  ultimately have "?L = ?R" by (rule equalityI [rotated])
  with l pss(2, 3) nl v show ?thesis by (simp add: no_links_def)
qed

section \<open>Patches\<close>

text \<open>What is at a path, the content of directories aside.\<close>

definition shape_at :: "entries \<Rightarrow> pystr list \<Rightarrow> gnode option" where
  "shape_at t ps = map_option (\<lambda>n. case n of GDir _ \<Rightarrow> GDir [] | _ \<Rightarrow> n) (gnode_at t ps)"

lemma map_of_map_entries: "map_of (map (\<lambda>(n, c). (n, g n c)) es) p = map_option (g p) (map_of es p)"
  by (induction es) auto

lemma map_of_filter_name: "map_of (filter (\<lambda>(n, c). n \<noteq> tmp) es) p = (if p = tmp then None else map_of es p)"
  by (induction es) auto

lemma map_of_replace_entry:
  "map_of (replace_entry tmp name node es) p = (if p = tmp then None else if p = name then map_option (\<lambda>_. node) (map_of es p) else map_of es p)"
  unfolding replace_entry_def map_of_map_entries map_of_filter_name by (cases "map_of es p") auto

lemma gnode_at_with_dir: "gnode_at t d = Some (GDir es) \<Longrightarrow> gnode_at (with_dir d f t) (d @ ps) = gnode_at (f es) ps"
  by (induction d arbitrary: t) (auto simp: map_of_map_entries [where g = "\<lambda>n c. if n = p then h c else c" for p h] split: option.splits gnode.splits if_splits)

lemma shape_at_with_dir: "\<not> prefix d ps \<Longrightarrow> shape_at (with_dir d f t) ps = shape_at t ps"
proof (induction d arbitrary: t ps)
  case (Cons p d)
  show ?case
  proof (cases ps)
    case (Cons q qs)
    with Cons.prems Cons.IH [of qs] show ?thesis
      by (auto simp: shape_at_def map_of_map_entries [where g = "\<lambda>n c. if n = p then h c else c" for p h] split: option.splits gnode.splits)
  qed (simp add: shape_at_def)
qed simp

lemma with_dir_comp: "with_dir d f (with_dir d g t) = with_dir d (f \<circ> g) t"
  by (induction d arbitrary: t) (auto split: gnode.splits)

lemma with_dir_same:
  "gnode_at t d = Some (GDir es) \<Longrightarrow> f es = es \<Longrightarrow> node_ok (GDir t) \<Longrightarrow> with_dir d f t = t"
proof (induction d arbitrary: t)
  case (Cons p d)
  from Cons.prems(1) obtain sub where sub: "map_of t p = Some (GDir sub)" "gnode_at sub d = Some (GDir es)"
    by (auto split: option.splits gnode.splits if_splits)
  have ok: "node_ok (GDir sub)" using node_ok_at [of t "[p]" "GDir sub"] sub(1) Cons.prems(3) by simp
  have "c = GDir sub" if "(p, c) \<in> set t" for c
    using that sub(1) Cons.prems(3) by (metis map_of_eq_Some_iff node_ok.simps(1) option.inject)
  with Cons.IH [OF sub(2) Cons.prems(2) ok] show ?case
    by (auto intro!: map_idI split: gnode.splits) (metis gnode.inject(2))
qed simp

definition only_changed :: "entries \<Rightarrow> pystr list \<Rightarrow> gnode \<Rightarrow> entries \<Rightarrow> bool" where
  "only_changed t parts node t' \<longleftrightarrow> gnode_at t' parts = Some node \<and> (\<forall>ps. ps \<noteq> parts \<longrightarrow> shape_at t' ps = shape_at t ps)"

lemma only_changed_entry:
  assumes es: "gnode_at t d = Some (GDir es)" and "\<And>p. map_of (f es) p = (if p = name then Some (GFile b x) else map_of es p)"
    and old: "case map_of es name of None \<Rightarrow> True | Some n \<Rightarrow> \<exists>b x. n = GFile b x"
  shows "only_changed t (d @ [name]) (GFile b x) (with_dir d f t)"
  unfolding only_changed_def
proof (intro conjI allI impI)
  show "gnode_at (with_dir d f t) (d @ [name]) = Some (GFile b x)"
    using assms(2) by (simp add: gnode_at_with_dir [OF es])
  fix ps assume other: "ps \<noteq> d @ [name]"
  show "shape_at (with_dir d f t) ps = shape_at t ps"
  proof (cases "prefix d ps")
    case True
    then obtain qs where qs: "ps = d @ qs" by (auto elim: prefixE)
    then have "gnode_at t ps = gnode_at es qs" "gnode_at (with_dir d f t) ps = gnode_at (f es) qs"
      using es gnode_at_with_dir [OF es, of f qs] by (simp_all add: gnode_at_append [of t])
    moreover have "shape_at (f es) qs = shape_at es qs"
      using other old qs assms(2) by (cases qs) (auto simp: shape_at_def split: option.splits gnode.splits)
    ultimately show ?thesis by (simp add: shape_at_def)
  qed (simp add: shape_at_with_dir)
qed

text \<open>What \<open>write_patch\<close> leaves when the staging name is fresh.\<close>

lemma write_patch_create:
  assumes "gnode_at t d = Some (GDir es)" and "tmp \<notin> fst ` set es" and "node_ok (GDir t)"
    and w: "write_patch sha posix (d @ [name]) tmp b x None t = (t', r)"
  shows "t' = t \<and> r = Inl write_failed \<or>
    r = Inr () \<and> gnode_at t (d @ [name]) = None \<and> only_changed t (d @ [name]) (GFile b x) t'"
proof -
  let ?add = "\<lambda>n es. es @ [(n, GFile b x)]"
  let ?drop = "filter (\<lambda>(n, c). n \<noteq> tmp)"
  have od: "open_dir posix t d = Inr es" using assms(1) by (simp add: open_dir_iff)
  have at: "open_dir posix (with_dir d f t) d = Inr (f es)" for f
    using gnode_at_with_dir [OF assms(1), of f "[]"] by (simp add: open_dir_iff)
  have none: "map_of es tmp = None" using assms(2) by (simp add: map_of_eq_None_iff)
  have drop: "?drop es = es" using assms(2) by (force intro!: filter_True)
  show ?thesis
  proof (cases "name \<in> insert tmp (fst ` set es)")
    case True
    have "t' = with_dir d (?drop \<circ> ?add tmp) t" "r = Inl write_failed"
      using w True assms(2) od at [of "?add tmp"] none
      by (auto simp: write_patch_def install_patch_def unlink_staging_def with_dir_comp Let_def map_add_def)
    moreover have "with_dir d (?drop \<circ> ?add tmp) t = t"
      by (rule with_dir_same [OF assms(1) _ assms(3)]) (simp add: drop)
    ultimately show ?thesis by simp
  next
    case False
    then have new: "map_of es name = None" "name \<noteq> tmp" by (auto simp: map_of_eq_None_iff)
    have "t' = with_dir d (?drop \<circ> (?add name \<circ> ?add tmp)) t \<and> r = Inr ()"
      using w False assms(2) od at [of "?add name \<circ> ?add tmp"] none
      by (auto simp: write_patch_def install_patch_def unlink_staging_def with_dir_comp Let_def map_add_def comp_def)
    moreover have "only_changed t (d @ [name]) (GFile b x) (with_dir d (?drop \<circ> (?add name \<circ> ?add tmp)) t)"
    proof (rule only_changed_entry [OF assms(1)])
      show "map_of ((?drop \<circ> (?add name \<circ> ?add tmp)) es) p = (if p = name then Some (GFile b x) else map_of es p)" for p
        using new none by (simp add: drop map_add_def split: option.splits)
    qed (simp add: new)
    ultimately show ?thesis using new(1) by (simp add: gnode_at_snoc assms(1))
  qed
qed

lemma write_patch_edit:
  assumes "gnode_at t d = Some (GDir es)" and "tmp \<notin> fst ` set es"
    and before: "guest_read posix t (d @ [name]) = Inr before" "hexdigest sha before = digest"
  shows "write_patch sha posix (d @ [name]) tmp b x (Some digest) t =
      (with_dir d (replace_entry tmp name (GFile b x) \<circ> (\<lambda>es. es @ [(tmp, GFile b x)])) t, if posix then Inl cleanup_failed else Inr ())"
    and "only_changed t (d @ [name]) (GFile b x)
      (with_dir d (replace_entry tmp name (GFile b x) \<circ> (\<lambda>es. es @ [(tmp, GFile b x)])) t)"
proof -
  let ?add = "\<lambda>es. es @ [(tmp, GFile b x)]"
  let ?f = "replace_entry tmp name (GFile b x) \<circ> ?add"
  have od: "open_dir posix t d = Inr es" using assms(1) by (simp add: open_dir_iff)
  have at: "open_dir posix (with_dir d f t) d = Inr (f es)" for f
    using gnode_at_with_dir [OF assms(1), of f "[]"] by (simp add: open_dir_iff)
  have none: "map_of es tmp = None" using assms(2) by (simp add: map_of_eq_None_iff)
  obtain y where y: "map_of es name = Some (GFile before y)"
    using guest_read_Inr [OF before(1)] assms(1) by (auto simp: gnode_at_snoc)
  then have n: "name \<noteq> tmp" using none by auto
  have "guest_read posix (with_dir d ?add t) (d @ [name]) = Inr before"
    using before(1) y by (simp add: guest_read_def at od read_content_def map_add_def)
  then show "write_patch sha posix (d @ [name]) tmp b x (Some digest) t = (with_dir d ?f t, if posix then Inl cleanup_failed else Inr ())"
    using assms(2) before(2) at [of ?f]
    by (simp add: write_patch_def install_patch_def unlink_staging_def od Let_def with_dir_comp map_of_replace_entry)
  show "only_changed t (d @ [name]) (GFile b x) (with_dir d ?f t)"
    by (rule only_changed_entry [OF assms(1)]) (use y n none in \<open>auto simp: map_of_replace_entry map_add_def split: option.splits\<close>)
qed

text \<open>A patch is refused before anything is written, or its checked content is handed to \<open>write_patch\<close>.\<close>

lemma apply_patch_cases:
  assumes "apply_patch sha posix tmp path expected find_text replacement t = (t', r)"
  obtains (refused) e where "t' = t" "r = Inl e"
  | (written) parts digest content x w j where
      "checked_patch sha posix path expected find_text replacement t = Inr (parts, digest, content, x)"
      "guest_parts path False = Inr parts" "patch_digest expected = Inr digest"
      "patched_content sha posix t parts digest find_text replacement = Inr (content, x)"
      "write_patch sha posix parts tmp content x digest t = (t', w)" "r = map_sum id (\<lambda>_. j) w"
proof (cases "checked_patch sha posix path expected find_text replacement t")
  case (Inl e)
  with assms show ?thesis by (intro refused [of e]) (simp_all add: apply_patch_def)
next
  case (Inr a)
  obtain parts digest content x where a: "a = (parts, digest, content, x)" by (cases a) auto
  obtain w where w: "write_patch sha posix parts tmp content x digest t = (t', w)"
    using assms Inr by (auto simp: apply_patch_def a split: prod.splits sum.splits)
  show ?thesis
  proof (rule written [OF Inr [unfolded a] _ _ _ w])
    show "guest_parts path False = Inr parts" "patch_digest expected = Inr digest"
        "patched_content sha posix t parts digest find_text replacement = Inr (content, x)"
      using Inr by (auto simp: checked_patch_def a rbind_Inr_iff)
    show "r = map_sum id (\<lambda>_. JObj [(u ''path'', JStr path), (u ''sha256'', JStr (hexdigest sha content)),
           (u ''size_bytes'', JInt (int (length content))), (u ''created'', JBool (digest = None))]) w"
      using assms Inr w by (cases w) (simp_all add: apply_patch_def a)
  qed
qed

lemma patch_digest_Inr: "patch_digest e = Inr d \<Longrightarrow> (case d of None \<Rightarrow> e = JNull | Some h \<Rightarrow> e = JStr h)"
  by (cases e) (auto simp: patch_digest_def split: if_splits)

lemma write_patch_no_dir:
  "write_patch sha posix parts tmp content x digest t = (t', w) \<Longrightarrow> (\<exists>es. gnode_at t (butlast parts) = Some (GDir es)) \<or> t' = t \<and> (\<exists>e. w = Inl e)"
  by (auto simp: write_patch_def simp flip: open_dir_iff [of posix] split: sum.splits)

lemma replace_first_splits: "p \<noteq> [] \<Longrightarrow> contains s p \<Longrightarrow> \<exists>a b. s = a @ p @ b \<and> replace_first s p r = a @ r @ b"
proof (induction s)
  case (Cons c s)
  show ?case
  proof (cases "starts_with (c # s) p")
    case True
    then have "replace_first (c # s) p r = [] @ r @ drop (length p) (c # s)" "c # s = [] @ p @ drop (length p) (c # s)"
      by (simp, metis append_Nil starts_with_drop)
    then show ?thesis by blast
  next
    case False
    with Cons obtain a b where "s = a @ p @ b" "replace_first s p r = a @ r @ b" by auto
    with False show ?thesis by (intro exI [of _ "c # a"] exI [of _ b]) simp
  qed
qed simp

lemma patched_content_edit:
  assumes "patched_content sha posix t parts (Some h) find_text replacement = Inr (content, x)" and "parts \<noteq> []"
  shows "\<exists>before needle new a b. guest_read posix t parts = Inr before \<and> gnode_at t parts = Some (GFile before x) \<and>
    hexdigest sha before = h \<and> utf8_encode find_text = Some needle \<and> utf8_encode replacement = Some new \<and>
    str_count before needle = 1 \<and> before = a @ needle @ b \<and> content = a @ new @ b"
proof -
  from assms(1) obtain before needle new where p: "find_text \<noteq> []" "guest_read posix t parts = Inr before" "hexdigest sha before = h"
    "utf8_encode find_text = Some needle" "str_count before needle = 1" "utf8_encode replacement = Some new"
    "exec_bit posix t parts (u ''patch target is not a regular file'') = Inr x" "content = replace_first before needle new"
    by (auto simp: patched_content_def rbind_Inr_iff repo_check_def repo_encode_def split: if_splits option.splits)
  have ne: "needle \<noteq> []"
    using utf8_roundtrip [OF p(4)] p(1) by (auto simp: utf8_decode_def)
  then have "contains before needle" using p(5) count_from_zero [OF ne, of before] by (simp add: str_count_def)
  from replace_first_splits [OF ne this, of new] p(8) obtain a b where "before = a @ needle @ b" "content = a @ new @ b" by auto
  moreover have "gnode_at t parts = Some (GFile before x)" using guest_read_Inr [OF p(2) assms(2)] p(7) by auto
  ultimately show ?thesis using p by blast
qed

text \<open>The effect of a patch.\<close>

lemma apply_patch_effect:
  assumes "apply_patch sha posix tmp path expected find_text replacement t = (t', r)" and "node_ok (GDir t)"
    and "gnode_at t (butlast (split_on 47 path) @ [tmp]) = None"
  shows "t' = t \<and> (\<exists>e. r = Inl e) \<or>
    expected = JNull \<and> gnode_at t (split_on 47 path) = None \<and>
      (\<exists>new. utf8_encode replacement = Some new \<and> only_changed t (split_on 47 path) (GFile new False) t') \<or>
    (\<exists>needle new a b x. expected = JStr (hexdigest sha (a @ needle @ b)) \<and>
      gnode_at t (split_on 47 path) = Some (GFile (a @ needle @ b) x) \<and> str_count (a @ needle @ b) needle = 1 \<and>
      utf8_encode find_text = Some needle \<and> utf8_encode replacement = Some new \<and>
      only_changed t (split_on 47 path) (GFile (a @ new @ b) x) t')"
  using assms(1)
proof (cases rule: apply_patch_cases)
  case (written parts digest content x w j)
  then have parts: "parts = split_on 47 path" by (simp add: guest_parts_Inr)
  then obtain d name where dn: "split_on 47 path = d @ [name]" by (metis rev_exhaust split_on_not_Nil)
  from write_patch_no_dir [OF written(5)] show ?thesis
  proof (elim disjE exE conjE)
    fix es assume "gnode_at t (butlast parts) = Some (GDir es)"
    then have es: "gnode_at t d = Some (GDir es)" by (simp add: parts dn)
    have tmp: "tmp \<notin> fst ` set es" using assms(3) by (simp add: dn gnode_at_snoc es map_of_eq_None_iff)
    show ?thesis
    proof (cases digest)
      case None
      with written(4) have c: "utf8_encode replacement = Some content" "x = False"
        by (auto simp: patched_content_def rbind_Inr_iff repo_encode_def split: option.splits)
      have "expected = JNull" using patch_digest_Inr [OF written(3)] None by simp
      moreover have "t' = t \<and> w = Inl write_failed \<or>
          w = Inr () \<and> gnode_at t (d @ [name]) = None \<and> only_changed t (d @ [name]) (GFile content False) t'"
        by (rule write_patch_create [OF es tmp assms(2)]) (use written(5) parts dn None c in simp)
      ultimately show ?thesis using c written(6) by (auto simp: dn)
    next
      case (Some h)
      from patched_content_edit [OF written(4) [unfolded Some]] obtain before needle new a b where
        e: "guest_read posix t parts = Inr before" "gnode_at t parts = Some (GFile before x)" "hexdigest sha before = h"
          "utf8_encode find_text = Some needle" "utf8_encode replacement = Some new" "str_count before needle = 1"
          "before = a @ needle @ b" "content = a @ new @ b" by (auto simp: parts)
      have "expected = JStr h" using patch_digest_Inr [OF written(3)] Some by simp
      moreover have "only_changed t (d @ [name]) (GFile content x) t'"
        using write_patch_edit [OF es tmp e(1) [unfolded parts dn] e(3), of content x] written(5) by (simp add: parts dn Some)
      ultimately show ?thesis using e by (auto simp: parts dn)
    qed
  qed (use written(6) in auto)
qed auto


text \<open>
  C17: On Linux no edit of an existing file is ever acknowledged: whenever the path-based branch of
  \<open>apply_patch()\<close> (the one the offline tests run) edits a file and reports success, the branch the guest
  runs makes the same change and then raises "patch staging cleanup failed; mutation status is unknown",
  because the staging file it tries to unlink was moved over the target.
\<close>

theorem linux_edit_is_reported_as_failed:
  assumes "apply_patch sha False tmp path (JStr h) find_text replacement t = (t', Inr j)" and "node_ok (GDir t)"
    and "gnode_at t (butlast (split_on 47 path) @ [tmp]) = None"
  shows "apply_patch sha True tmp path (JStr h) find_text replacement t = (t', Inl cleanup_failed)"
  using assms(1)
proof (cases rule: apply_patch_cases)
  case (written parts digest content x w j')
  have parts: "parts = split_on 47 path" using written(2) by (simp add: guest_parts_Inr)
  then obtain d name where dn: "parts = d @ [name]" by (metis rev_exhaust split_on_not_Nil)
  have digest: "digest = Some h" using patch_digest_Inr [OF written(3)] by (cases digest) auto
  from patched_content_edit [OF written(4) [unfolded digest]] obtain before where
    e: "guest_read False t parts = Inr before" "gnode_at t parts = Some (GFile before x)" "hexdigest sha before = h"
    by (auto simp: parts)
  obtain es where es: "gnode_at t d = Some (GDir es)"
    using e(2) by (auto simp: dn gnode_at_snoc split: option.splits gnode.splits)
  have tmp: "tmp \<notin> fst ` set es" using assms(3) by (simp add: dn gnode_at_snoc es map_of_eq_None_iff flip: parts)
  have r: "guest_read True t parts = guest_read False t parts" 
    "exec_bit True t parts m = exec_bit False t parts m" for m
    using e(1, 2) es by (auto simp: guest_read_def exec_bit_def dn gnode_at_snoc read_content_def open_dir_iff [of _ t d es, THEN iffD2])
  have "patched_content sha True t parts digest find_text replacement = patched_content sha False t parts digest find_text replacement"
    by (simp add: patched_content_def digest r)
  then have c: "checked_patch sha True path (JStr h) find_text replacement t = checked_patch sha False path (JStr h) find_text replacement t"
    by (simp add: checked_patch_def written(2, 3))
  have w: "write_patch sha True parts tmp content x digest t = (t', Inl cleanup_failed)"
    using write_patch_edit(1) [OF es tmp, of False name before sha h content x]
      write_patch_edit(1) [OF es tmp, of True name before sha h content x] e r(1) written(5)
    by (simp add: dn digest)
  show ?thesis
    by (simp add: apply_patch_def c written(1) w)
qed simp

section \<open>Witnesses\<close>

text \<open>A small workspace; the digest of a content is its length.\<close>

definition small_tree :: entries where
  "small_tree = [(u ''src'', GDir [(u ''a.py'', GFile (ascii_bytes (u ''x = 1'')) False)]), (u ''README'', GFile (ascii_bytes (u ''hi'')) True)]"

lemma small_tree_ok: "node_ok (GDir small_tree)"
  by code_simp

lemma small_export: "export_workspace True small_tree = Inr [
    \<lparr>sf_path = u ''README'', sf_mode = u ''100755'', sf_content = ascii_bytes (u ''hi'')\<rparr>,
    \<lparr>sf_path = u ''src/a.py'', sf_mode = u ''100644'', sf_content = ascii_bytes (u ''x = 1'')\<rparr>]"
  by code_simp

theorem exported_workspace_is_exact_witness:
  "(\<exists>fs. export_workspace True small_tree = Inr fs \<and> length fs = 2 \<and> distinct (map sf_path fs) \<and>
     validate_workspace_files fs = Inr ()) \<and> node_ok (GDir small_tree)"
  using exported_workspace_is_exact [OF small_export small_tree_ok] small_export small_tree_ok by simp

abbreviation small_digest :: pystr where
  "small_digest \<equiv> hexdigest length (ascii_bytes (u ''x = 1''))"

lemma small_facts:
  "guest_parts (u ''src/a.py'') False = Inr [u ''src'', u ''a.py'']"
  "repo_encode (u ''1'') = Inr (ascii_bytes (u ''1''))"
  "repo_encode (u ''2'') = Inr (ascii_bytes (u ''2''))"
  "guest_read posix small_tree [u ''src'', u ''a.py''] = Inr (ascii_bytes (u ''x = 1''))"
  "exec_bit posix small_tree [u ''src'', u ''a.py''] m = Inr False"
  "replace_first (ascii_bytes (u ''x = 1'')) (ascii_bytes (u ''1'')) (ascii_bytes (u ''2'')) = ascii_bytes (u ''x = 2'')"
  by (code_simp | (simp add: guest_read_def, code_simp))+

lemma small_count: "str_count (ascii_bytes (u ''x = 1'')) (ascii_bytes (u ''1'')) = 1"
  by (simp add: str_count_def count_from.simps ascii_bytes_def u_def)

lemma small_checked: "checked_patch length posix (u ''src/a.py'') (JStr small_digest) (u ''1'') (u ''2'') small_tree =
    Inr ([u ''src'', u ''a.py''], Some small_digest, ascii_bytes (u ''x = 2''), False)"
  by (simp add: checked_patch_def patched_content_def small_facts small_count repo_check_def patch_digest_def GUEST_MAX_READ_def GUEST_MAX_FILE_def)
     (simp add: ascii_bytes_def u_def)

lemma small_patch:
  "\<exists>t' j. apply_patch length posix (u ''tmp'') (u ''src/a.py'') (JStr small_digest) (u ''1'') (u ''2'') small_tree =
     (t', if posix then Inl cleanup_failed else Inr j) \<and>
   only_changed small_tree [u ''src'', u ''a.py''] (GFile (ascii_bytes (u ''x = 2'')) False) t'"
proof -
  have es: "gnode_at small_tree [u ''src''] = Some (GDir [(u ''a.py'', GFile (ascii_bytes (u ''x = 1'')) False)])"
    and tmp: "u ''tmp'' \<notin> fst ` set [(u ''a.py'', GFile (ascii_bytes (u ''x = 1'')) False)]" by code_simp+
  show ?thesis
    using write_patch_edit [OF es tmp, of posix "u ''a.py''" _ length, OF _ refl, of "ascii_bytes (u ''x = 1'')" "ascii_bytes (u ''x = 2'')" False]
    by (auto simp: apply_patch_def small_checked small_facts)
qed

lemma small_parts: "split_on 47 (u ''src/a.py'') = [u ''src'', u ''a.py'']"
  using small_facts(1) by (simp add: guest_parts_Inr)

lemma small_fresh: "gnode_at small_tree (butlast (split_on 47 (u ''src/a.py'')) @ [u ''tmp'']) = None"
  unfolding small_parts by code_simp


theorem linux_edit_is_reported_as_failed_witness:
  "\<exists>t'. apply_patch length True (u ''tmp'') (u ''src/a.py'') (JStr small_digest) (u ''1'') (u ''2'') small_tree = (t', Inl cleanup_failed) \<and>
     only_changed small_tree [u ''src'', u ''a.py''] (GFile (ascii_bytes (u ''x = 2'')) False) t'"
proof -
  obtain t' j where p: "apply_patch length False (u ''tmp'') (u ''src/a.py'') (JStr small_digest) (u ''1'') (u ''2'') small_tree = (t', Inr j)"
    "only_changed small_tree [u ''src'', u ''a.py''] (GFile (ascii_bytes (u ''x = 2'')) False) t'"
    using small_patch [of False] by auto
  from linux_edit_is_reported_as_failed [OF p(1) small_tree_ok small_fresh] p(2) show ?thesis by blast
qed

end
