(* ===== verification/GuestTools.thy ===== *)
theory GuestTools
  imports GuestRepository ToolSession
begin

text \<open>
  \<open>night_shifts/guest/commands.py\<close>, \<open>guest/artifacts.py\<close> and \<open>guest/tools.py\<close>: the tools a worker may call
  inside the guest.  The state is the workspace, the staging directory of the artifacts and a world \<open>'w\<close>; the
  program a command starts is a parameter acting on workspace and world, described by what it prints and by
  what the supervising loop observes of it at each of its polls.
\<close>

section \<open>Commands\<close>

text \<open>
  \<open>bytes.decode("utf-8", errors="replace")\<close>: a maximal prefix of a well-formed sequence that is not completed
  is replaced by one replacement character.
\<close>

definition lead_range :: "nat \<Rightarrow> nat \<Rightarrow> bool" where
  "lead_range a b \<longleftrightarrow> (if a = 224 then 160 \<le> b \<and> b < 192 else if a = 237 then 128 \<le> b \<and> b < 160
     else if a = 240 then 144 \<le> b \<and> b < 192 else if a = 244 then 128 \<le> b \<and> b < 144 else is_cont b)"

definition next_char :: "nat list \<Rightarrow> pychar \<times> nat" where
  "next_char bs = (case bs of
     [] \<Rightarrow> (65533, 1)
   | a # r \<Rightarrow>
      if a < 128 then (a, 1)
      else if 194 \<le> a \<and> a < 224 then
        (case r of b # _ \<Rightarrow> if is_cont b then ((a - 192) * 64 + (b - 128), 2) else (65533, 1) | [] \<Rightarrow> (65533, 1))
      else if 224 \<le> a \<and> a < 240 then (case r of
          b # r2 \<Rightarrow> if \<not> lead_range a b then (65533, 1) else (case r2 of
            c # _ \<Rightarrow> if is_cont c then ((a - 224) * 4096 + (b - 128) * 64 + (c - 128), 3) else (65533, 2)
          | [] \<Rightarrow> (65533, 2))
        | [] \<Rightarrow> (65533, 1))
      else if 240 \<le> a \<and> a < 245 then (case r of
          b # r2 \<Rightarrow> if \<not> lead_range a b then (65533, 1) else (case r2 of
            c # r3 \<Rightarrow> if \<not> is_cont c then (65533, 2) else (case r3 of
              d # _ \<Rightarrow> if is_cont d then ((a - 240) * 262144 + (b - 128) * 4096 + (c - 128) * 64 + (d - 128), 4) else (65533, 3)
            | [] \<Rightarrow> (65533, 3))
          | [] \<Rightarrow> (65533, 2))
        | [] \<Rightarrow> (65533, 1))
      else (65533, 1))"

function decode_replace :: "nat list \<Rightarrow> pystr" where
  "decode_replace [] = []"
| "decode_replace (a # bs) = fst (next_char (a # bs)) # decode_replace (drop (snd (next_char (a # bs)) - 1) bs)"
  by pat_completeness auto
termination
  by (relation "measure length") auto

text \<open>One poll of the supervising loop: what it sees before it sleeps.\<close>

record poll =
  po_exited :: bool
  po_cancelled :: bool
  po_exceeded :: bool
  po_now :: int

datatype ending = Exited | Cancelled | Exceeded | TimedOut

text \<open>The loop over \<open>process.poll()\<close>; the process has ended where the observations end.\<close>

fun supervise :: "int \<Rightarrow> poll list \<Rightarrow> ending" where
  "supervise deadline [] = Exited"
| "supervise deadline (p # ps) =
     (if po_exited p then Exited
      else if po_cancelled p then Cancelled
      else if po_exceeded p then Exceeded
      else if deadline \<le> po_now p then TimedOut
      else supervise deadline ps)"

text \<open>\<open>_read_bounded_output\<close> over the chunks the pipe yields: what is kept, and whether more came.\<close>

fun read_bounded_output :: "nat \<Rightarrow> bytes list \<Rightarrow> bytes \<Rightarrow> bytes \<times> bool" where
  "read_bounded_output limit [] kept = (kept, False)"
| "read_bounded_output limit (chunk # chunks) kept =
     (if chunk = [] then (kept, False)
      else let remaining = limit - length kept; kept' = kept @ take remaining chunk in
        if remaining < length chunk then (kept', True) else read_bounded_output limit chunks kept')"

record process_run =
  pr_started :: int
  pr_ended :: int
  pr_polls :: "poll list"
  pr_chunks :: "bytes list"
  pr_stdout_held :: bool
  pr_return_code :: int

record command_result =
  cr_argv :: "pystr list"
  cr_return_code :: int
  cr_output :: pystr
  cr_duration :: int
  cr_timed_out :: bool
  cr_truncated :: bool

datatype tool_exn = ToolError pystr | ToolUnicode pystr

type_synonym 'w guest_process = "approved_command \<Rightarrow> entries \<times> 'w \<Rightarrow> (entries \<times> 'w) \<times> (pystr + process_run)"

fun policy_exn :: "policy_error \<Rightarrow> tool_exn" where
  "policy_exn (PolicyError t) = ToolError t"
| "policy_exn (PolicyUnicode s) = ToolUnicode s"
| "policy_exn (PolicyBlocked t) = ToolError t"

definition run_outcome :: "approved_command \<Rightarrow> process_run \<Rightarrow> tool_exn + command_result" where
  "run_outcome ac run =
     (let e = supervise (pr_started run + ac_timeout_seconds ac * 1000000) (pr_polls run);
          (kept, exceeded) = read_bounded_output (nat (ac_max_output_bytes ac)) (pr_chunks run) [] in
      if pr_stdout_held run then Inl (ToolError (u ''command descendants did not release stdout''))
      else if e = Cancelled then Inl (ToolError (u ''command cancelled''))
      else Inr \<lparr>cr_argv = ac_argv ac, cr_return_code = pr_return_code run, cr_output = decode_replace (map unat kept),
        cr_duration = pr_ended run - pr_started run, cr_timed_out = (e = TimedOut), cr_truncated = exceeded\<rparr>)"

definition command_run ::
  "(pychar \<Rightarrow> bool) \<Rightarrow> 'w guest_process \<Rightarrow> pystr \<Rightarrow> pystr list \<Rightarrow> int \<Rightarrow> int \<Rightarrow> bool \<Rightarrow> (entries \<times> 'w, tool_exn, command_result) act" where
  "command_run uni proc profile argv timeout max_output cancelled s =
     (if cancelled then (s, Inl (ToolError (u ''command cancelled before launch'')))
      else case approve_worker_command uni profile argv timeout max_output of
        Inl e \<Rightarrow> (s, Inl (policy_exn e))
      | Inr ac \<Rightarrow> (case proc ac s of
          (s', Inl e) \<Rightarrow> (s', Inl (ToolError (u ''approved command could not start: '' @ e)))
        | (s', Inr run) \<Rightarrow> (s', run_outcome ac run)))"

section \<open>Artifacts\<close>

record staged_artifact =
  sa_name :: pystr
  sa_kind :: pystr
  sa_size_bytes :: nat
  sa_sha256 :: pystr

record writer_limits =
  wl_max_files :: int
  wl_max_file_bytes :: int
  wl_max_total_bytes :: int

definition writer_init :: "bool \<Rightarrow> writer_limits \<Rightarrow> tool_exn + unit" where
  "writer_init available l =
     rbind (require available (ToolError (u ''artifact staging directory is unavailable''))) (\<lambda>_.
     rbind (require (0 < wl_max_files l \<and> wl_max_files l \<le> 128) (ToolError (u ''artifact file limit must be between 1 and 128''))) (\<lambda>_.
     require (0 < wl_max_file_bytes l \<and> wl_max_file_bytes l \<le> wl_max_total_bytes l) (ToolError (u ''artifact byte limits are invalid''))))"

definition default_writer_limits :: writer_limits where
  "default_writer_limits = \<lparr>wl_max_files = 16, wl_max_file_bytes = 1024 * 1024, wl_max_total_bytes = 4 * 1024 * 1024\<rparr>"

record staging =
  st_files :: "(pystr, bytes) dict"
  st_artifacts :: "staged_artifact list"
  st_total :: nat

definition write_text ::
  "(pychar \<Rightarrow> bool) \<Rightarrow> (bytes \<Rightarrow> nat) \<Rightarrow> writer_limits \<Rightarrow> pystr \<Rightarrow> pystr \<Rightarrow> pystr \<Rightarrow> (staging, tool_exn, staged_artifact) act" where
  "write_text uni sha l name kind content st = (case
     rbind (require (artifact_name name) (ToolError (u ''artifact name is invalid''))) (\<lambda>_.
     rbind (require (kind \<in> set artifact_kinds) (ToolError (u ''artifact kind is not allowed: '' @ py_repr uni kind))) (\<lambda>_.
     rbind (require (int (length (st_artifacts st)) < wl_max_files l) (ToolError (u ''artifact file count limit exceeded''))) (\<lambda>_.
     rbind (case utf8_encode content of Some b \<Rightarrow> Inr b | None \<Rightarrow> Inl (ToolUnicode content)) (\<lambda>encoded.
     rbind (require (int (length encoded) \<le> wl_max_file_bytes l) (ToolError (u ''artifact file size limit exceeded''))) (\<lambda>_.
     rbind (require (int (st_total st + length encoded) \<le> wl_max_total_bytes l) (ToolError (u ''artifact total size limit exceeded''))) (\<lambda>_.
     rbind (require (name \<notin> fst ` set (st_files st)) (ToolError (u ''artifact names must be unique''))) (\<lambda>_. Inr encoded))))))) of
       Inl e \<Rightarrow> (st, Inl e)
     | Inr encoded \<Rightarrow>
         let a = \<lparr>sa_name = name, sa_kind = kind, sa_size_bytes = length encoded, sa_sha256 = hexdigest sha encoded\<rparr> in
         (\<lparr>st_files = st_files st @ [(name, encoded)], st_artifacts = st_artifacts st @ [a], st_total = st_total st + length encoded\<rparr>, Inr a))"

definition artifact_reference :: "staged_artifact \<Rightarrow> pystr" where
  "artifact_reference a = u ''guest-artifact/'' @ sa_name a"

section \<open>Tools\<close>

definition text_schema :: "(pystr \<times> json) list" where
  "text_schema = [(u ''type'', JStr (u ''string''))]"

definition bounded_text :: "int \<Rightarrow> json" where
  "bounded_text n = JObj (text_schema @ [(u ''maxLength'', JInt n)])"

definition bounded_integer :: "int \<Rightarrow> json" where
  "bounded_integer n = JObj [(u ''type'', JStr (u ''integer'')), (u ''minimum'', JInt 1), (u ''maximum'', JInt n)]"

definition object_schema :: "(pystr \<times> json) list \<Rightarrow> pystr list \<Rightarrow> (pystr \<times> json) list" where
  "object_schema properties needed = [(u ''type'', JStr (u ''object'')), (u ''properties'', JObj properties)] @
     (if needed = [] then [] else [(u ''required'', JArr (map JStr needed))]) @ [(u ''additionalProperties'', JBool False)]"

definition tool_spec :: "pystr \<Rightarrow> pystr \<Rightarrow> (pystr \<times> json) list \<Rightarrow> pystr list \<Rightarrow> worker_tool_spec" where
  "tool_spec name description properties needed =
     \<lparr>ts_name = name, ts_description = description, ts_input_schema = object_schema properties needed\<rparr>"

definition tool_specs :: "worker_tool_spec list" where
  "tool_specs =
    [tool_spec RUN_COMMAND_TOOL (u ''Run one policy-approved argv vector in the isolated repository.'')
       [(u ''argv'', JObj [(u ''type'', JStr (u ''array'')), (u ''items'', JObj text_schema), (u ''minItems'', JInt 1)]),
        (u ''timeout_seconds'', bounded_integer 1800), (u ''max_output_bytes'', bounded_integer (16 * 1024))] [u ''argv''],
     tool_spec WRITE_ARTIFACT_TOOL (u ''Stage one bounded UTF-8 text artifact outside the repository.'')
       [(u ''name'', JObj text_schema), (u ''kind'', JObj (text_schema @ [(u ''enum'', JArr (map JStr artifact_kinds))])),
        (u ''content'', JObj text_schema)] [u ''name'', u ''kind'', u ''content''],
     tool_spec LIST_FILES_TOOL (u ''List bounded workspace files (no links).'') [(u ''path'', bounded_text 240)] [],
     tool_spec READ_FILE_TOOL (u ''Read one bounded UTF-8 workspace file with its SHA-256.'')
       [(u ''path'', bounded_text 240)] [u ''path''],
     tool_spec SEARCH_TEXT_TOOL (u ''Search bounded UTF-8 workspace files for a literal line fragment.'')
       [(u ''query'', bounded_text 256)] [u ''query''],
     tool_spec APPLY_PATCH_TOOL (u ''Create or replace one exact text span with a stale-content guard.'')
       [(u ''path'', bounded_text 240),
        (u ''expected_sha256'', JObj [(u ''type'', JArr [JStr (u ''string''), JStr (u ''null'')])]),
        (u ''find'', bounded_text 16384), (u ''replace'', bounded_text 16384)]
       [u ''path'', u ''expected_sha256'', u ''find'', u ''replace'']]"

text \<open>The fixed parts of one \<open>GuestWorkerTools\<close>: its allowlist and the primitives it wraps.\<close>

record 'w guest_env =
  ge_profile :: pystr
  ge_allowed :: "pystr list"
  ge_process :: "'w guest_process"
  ge_limits :: writer_limits
  ge_repository :: bool
  ge_posix :: bool
  ge_sha :: "bytes \<Rightarrow> nat"
  ge_uni :: "pychar \<Rightarrow> bool"
  ge_encode_text :: "pystr \<Rightarrow> pystr"
  ge_seconds :: "int \<Rightarrow> pystr"

record 'w guest_state =
  gs_tree :: entries
  gs_staging :: staging
  gs_world :: 'w

text \<open>\<open>GuestWorkerTools.__init__\<close>\<close>

definition guest_tools_init :: "'w guest_env \<Rightarrow> policy_error + 'w guest_env" where
  "guest_tools_init env = rbind (worker_tool_names (ge_uni env) (ge_profile env)) (\<lambda>names. Inr (env\<lparr>ge_allowed := names\<rparr>))"

definition available_tools :: "'w guest_env \<Rightarrow> worker_tool_spec list" where
  "available_tools env = map (\<lambda>n. the (map_of (map (\<lambda>s. (ts_name s, s)) tool_specs) n)) (ge_allowed env)"

definition comma_list :: "pystr list \<Rightarrow> pystr" where
  "comma_list ks = join (u '', '') (sort ks)"

definition require_keys :: "(pystr \<times> json) list \<Rightarrow> pystr list \<Rightarrow> pystr list \<Rightarrow> tool_exn + unit" where
  "require_keys args needed extra =
     (let missing = filter (\<lambda>k. k \<notin> fst ` set args) needed;
          unknown = remdups (filter (\<lambda>k. k \<notin> set (needed @ extra)) (map fst args)) in
      rbind (require (missing = []) (ToolError (u ''missing tool argument(s): '' @ comma_list missing))) (\<lambda>_.
      require (unknown = []) (ToolError (u ''unknown tool argument(s): '' @ comma_list unknown))))"

definition integer_arg :: "json \<Rightarrow> pystr \<Rightarrow> tool_exn + int" where
  "integer_arg v label = (case v of JInt i \<Rightarrow> Inr i | _ \<Rightarrow> Inl (ToolError (label @ u '' must be an integer'')))"

definition text_arg :: "json \<Rightarrow> pystr \<Rightarrow> tool_exn + pystr" where
  "text_arg v label = (case v of
     JStr s \<Rightarrow> if s = [] then Inl (ToolError (label @ u '' must be a non-empty string'')) else Inr s
   | _ \<Rightarrow> Inl (ToolError (label @ u '' must be a non-empty string'')))"

definition argument :: "(pystr \<times> json) list \<Rightarrow> pystr \<Rightarrow> json \<Rightarrow> json" where
  "argument args k fallback = (case map_of args k of Some v \<Rightarrow> v | None \<Rightarrow> fallback)"

fun repo_exn :: "repo_error \<Rightarrow> tool_exn" where
  "repo_exn (RepoError t) = ToolError t"
| "repo_exn (RepoSnapshot e) = ToolError (case e of SnapshotError t \<Rightarrow> t | _ \<Rightarrow> [])"
| "repo_exn (RepoUnicode s) = ToolUnicode s"

definition argv_arg :: "json \<Rightarrow> tool_exn + pystr list" where
  "argv_arg v = (case v of
     JArr js \<Rightarrow> if list_all is_JStr js then Inr (map (\<lambda>j. case j of JStr s \<Rightarrow> s | _ \<Rightarrow> []) js)
       else Inl (ToolError (u ''argv must be an array of strings''))
   | _ \<Rightarrow> Inl (ToolError (u ''argv must be an array of strings'')))"

text \<open>\<open>_run_command\<close>: the arguments it accepts, and the call.\<close>

definition command_arguments :: "(pystr \<times> json) list \<Rightarrow> tool_exn + pystr list \<times> int \<times> int" where
  "command_arguments args =
     rbind (require_keys args [u ''argv''] [u ''timeout_seconds'', u ''max_output_bytes'']) (\<lambda>_.
     rbind (argv_arg (argument args (u ''argv'') JNull)) (\<lambda>argv.
     rbind (integer_arg (argument args (u ''timeout_seconds'') (JInt 300)) (u ''timeout_seconds'')) (\<lambda>timeout.
     rbind (integer_arg (argument args (u ''max_output_bytes'') (JInt (16 * 1024))) (u ''max_output_bytes'')) (\<lambda>limit.
     rbind (require (0 < limit \<and> limit \<le> 16 * 1024) (ToolError (u ''tool output must be between 1 byte and 16 KiB''))) (\<lambda>_.
     Inr (argv, timeout, limit))))))"

definition result_json :: "'w guest_env \<Rightarrow> command_result \<Rightarrow> json" where
  "result_json env r = JObj [(u ''argv'', JArr (map JStr (cr_argv r))), (u ''return_code'', JInt (cr_return_code r)),
     (u ''output'', JStr (cr_output r)), (u ''duration_seconds'', JFloat (ge_seconds env (cr_duration r))),
     (u ''timed_out'', JBool (cr_timed_out r)), (u ''output_truncated'', JBool (cr_truncated r))]"

definition run_command :: "'w guest_env \<Rightarrow> (pystr \<times> json) list \<Rightarrow> ('w guest_state, tool_exn, json) act" where
  "run_command env args s = (case command_arguments args of
     Inl e \<Rightarrow> (s, Inl e)
   | Inr (argv, timeout, limit) \<Rightarrow>
       (case command_run (ge_uni env) (ge_process env) (ge_profile env) argv timeout limit False (gs_tree s, gs_world s) of
          ((t, w), r) \<Rightarrow> (s\<lparr>gs_tree := t, gs_world := w\<rparr>, map_sum id (result_json env) r)))"

definition write_artifact :: "'w guest_env \<Rightarrow> (pystr \<times> json) list \<Rightarrow> ('w guest_state, tool_exn, json) act" where
  "write_artifact env args s = (case
     rbind (require_keys args [u ''name'', u ''kind'', u ''content''] []) (\<lambda>_.
     rbind (text_arg (argument args (u ''name'') JNull) (u ''name'')) (\<lambda>name.
     rbind (text_arg (argument args (u ''kind'') JNull) (u ''kind'')) (\<lambda>kind.
     case argument args (u ''content'') JNull of
       JStr content \<Rightarrow> Inr (name, kind, content)
     | _ \<Rightarrow> Inl (ToolError (u ''content must be a string''))))) of
       Inl e \<Rightarrow> (s, Inl e)
     | Inr (name, kind, content) \<Rightarrow>
         (case write_text (ge_uni env) (ge_sha env) (ge_limits env) name kind content (gs_staging s) of
            (st, r) \<Rightarrow> (s\<lparr>gs_staging := st\<rparr>, map_sum id (\<lambda>a. JObj [(u ''reference'', JStr (artifact_reference a)),
              (u ''kind'', JStr (sa_kind a)), (u ''size_bytes'', JInt (int (sa_size_bytes a))), (u ''sha256'', JStr (sa_sha256 a))]) r)))"

text \<open>The reading tools of \<open>_repository_tool\<close>, and the patch; \<open>tmp\<close> is the name of the staging file.\<close>

definition read_tool :: "'w guest_env \<Rightarrow> pystr \<Rightarrow> (pystr \<times> json) list \<Rightarrow> entries \<Rightarrow> tool_exn + json" where
  "read_tool env name args t =
     (if name = LIST_FILES_TOOL then
        rbind (require_keys args [] [u ''path'']) (\<lambda>_.
        rbind (text_arg (argument args (u ''path'') (JStr (u ''.''))) (u ''path'')) (\<lambda>p.
        map_sum repo_exn id (list_files (ge_posix env) t p)))
      else if name = READ_FILE_TOOL then
        rbind (require_keys args [u ''path''] []) (\<lambda>_.
        rbind (text_arg (argument args (u ''path'') JNull) (u ''path'')) (\<lambda>p.
        map_sum repo_exn id (read_file (ge_sha env) (ge_posix env) t p)))
      else
        rbind (require_keys args [u ''query''] []) (\<lambda>_.
        rbind (text_arg (argument args (u ''query'') JNull) (u ''query'')) (\<lambda>q.
        map_sum repo_exn id (search_text (ge_posix env) t q))))"

definition patch_arguments :: "(pystr \<times> json) list \<Rightarrow> tool_exn + pystr \<times> json \<times> pystr \<times> pystr" where
  "patch_arguments args =
     rbind (require_keys args [u ''path'', u ''expected_sha256'', u ''find'', u ''replace''] []) (\<lambda>_.
     case (argument args (u ''path'') JNull, argument args (u ''find'') JNull, argument args (u ''replace'') JNull) of
       (JStr p, JStr f, JStr r) \<Rightarrow> Inr (p, argument args (u ''expected_sha256'') JNull, f, r)
     | _ \<Rightarrow> Inl (ToolError (u ''patch path and text must be strings'')))"

definition repository_tool :: "'w guest_env \<Rightarrow> pystr \<Rightarrow> pystr \<Rightarrow> (pystr \<times> json) list \<Rightarrow> ('w guest_state, tool_exn, json) act" where
  "repository_tool env tmp name args s =
     (if \<not> ge_repository env then (s, Inl (ToolError (u ''guest repository tools are not configured'')))
      else if name = APPLY_PATCH_TOOL then (case patch_arguments args of
          Inl e \<Rightarrow> (s, Inl e)
        | Inr (p, expected, f, r) \<Rightarrow> (case apply_patch (ge_sha env) (ge_posix env) tmp p expected f r (gs_tree s) of
            (t, q) \<Rightarrow> (s\<lparr>gs_tree := t\<rparr>, map_sum repo_exn id q)))
      else (s, read_tool env name args (gs_tree s)))"

definition tool_error :: "pystr \<Rightarrow> pystr \<Rightarrow> worker_tool_result" where
  "tool_error name message = \<lparr>tr_tool_name = name, tr_output = take 4000 message, tr_is_error = True\<rparr>"

text \<open>\<open>str(exc)\<close>; no exception raised here has an empty text.\<close>

definition tool_exn_text :: "'w guest_env \<Rightarrow> tool_exn \<Rightarrow> pystr" where
  "tool_exn_text env e = (case e of ToolError t \<Rightarrow> t | ToolUnicode s \<Rightarrow> ge_encode_text env s)"

definition dispatch_tool :: "'w guest_env \<Rightarrow> pystr \<Rightarrow> worker_tool_call \<Rightarrow> ('w guest_state, tool_exn, json) act" where
  "dispatch_tool env tmp call =
     (if tcl_name call = RUN_COMMAND_TOOL then run_command env (tcl_arguments call)
      else if tcl_name call = WRITE_ARTIFACT_TOOL then write_artifact env (tcl_arguments call)
      else if tcl_name call \<in> {LIST_FILES_TOOL, READ_FILE_TOOL, SEARCH_TEXT_TOOL, APPLY_PATCH_TOOL}
      then repository_tool env tmp (tcl_name call) (tcl_arguments call)
      else throw (ToolError (u ''approved worker tool has no implementation'')))"

definition guest_invoke :: "'w guest_env \<Rightarrow> pystr \<Rightarrow> worker_tool_call \<Rightarrow> 'w guest_state \<Rightarrow> 'w guest_state \<times> worker_tool_result" where
  "guest_invoke env tmp call s =
     (if tcl_name call \<notin> set (ge_allowed env)
      then (s, tool_error (tcl_name call) (u ''tool is not allowed for this worker: '' @ py_repr (ge_uni env) (tcl_name call)))
      else case dispatch_tool env tmp call s of
        (s', Inl e) \<Rightarrow> (s', tool_error (tcl_name call) (tool_exn_text env e))
      | (s', Inr out) \<Rightarrow>
          let encoded = dumps_spaced (sort_keys out) in
          (s', if 16 * 1024 < length encoded then tool_error (tcl_name call) (u ''tool response exceeds 16 KiB limit'')
               else \<lparr>tr_tool_name = tcl_name call, tr_output = encoded, tr_is_error = False\<rparr>))"

section \<open>What a command returns\<close>

lemma read_bounded_prefix:
  "\<forall>c \<in> set chunks. c \<noteq> [] \<Longrightarrow> length kept \<le> limit \<Longrightarrow> read_bounded_output limit chunks kept =
     (take limit (kept @ concat chunks), limit < length (kept @ concat chunks))"
proof (induction limit chunks kept rule: read_bounded_output.induct)
  case (2 limit chunk chunks kept)
  show ?case
  proof (cases "limit - length kept < length chunk")
    case True
    with 2 show ?thesis by simp
  next
    case False
    with 2 show ?thesis by simp
  qed
qed simp

lemma decoded_char:
  assumes "utf8_decode_nat (a # bs) = Some s"
  shows "\<exists>v n t. s = v # t \<and> next_char (a # bs) = (v, Suc n) \<and> utf8_decode_nat (drop n bs) = Some t"
proof -
  consider "a < 128" | "194 \<le> a \<and> a < 224" | "224 \<le> a \<and> a < 240" | "240 \<le> a \<and> a < 245"
    using assms by (auto split: if_splits)
  then show ?thesis
  proof cases
    case 1
    with assms show ?thesis by (intro exI [of _ a] exI [of _ 0] exI [of _ "tl s"]) (auto simp: next_char_def)
  next
    case 2
    with assms obtain b r t where bs: "bs = b # r" "is_cont b" "utf8_decode_nat r = Some t" "s = ((a - 192) * 64 + (b - 128)) # t"
      by (auto split: list.splits if_splits)
    with 2 show ?thesis by (intro exI [of _ "(a - 192) * 64 + (b - 128)"] exI [of _ 1] exI [of _ t]) (simp add: next_char_def)
  next
    case 3
    let ?v = "\<lambda>b c. (a - 224) * 4096 + (b - 128) * 64 + (c - 128)"
    from 3 assms obtain b c r t where bs: "bs = b # c # r" "is_cont b" "is_cont c" "2048 \<le> ?v b c" "is_scalar (?v b c)"
      "utf8_decode_nat r = Some t" "s = ?v b c # t"
      by (auto simp: Let_def split: list.splits if_splits)
    have "lead_range a b"
      using 3 bs(2 - 5) by (auto simp: lead_range_def is_cont_def is_scalar_def is_surrogate_def)
    with bs 3 show ?thesis by (intro exI [of _ "?v b c"] exI [of _ 2] exI [of _ t]) (simp add: next_char_def)
  next
    case 4
    let ?v = "\<lambda>b c d. (a - 240) * 262144 + (b - 128) * 4096 + (c - 128) * 64 + (d - 128)"
    from 4 assms obtain b c d r t where bs: "bs = b # c # d # r" "is_cont b" "is_cont c" "is_cont d" "65536 \<le> ?v b c d" "is_scalar (?v b c d)"
      "utf8_decode_nat r = Some t" "s = ?v b c d # t"
      by (auto simp: Let_def split: list.splits if_splits)
    have "lead_range a b"
      using 4 bs(2 - 6) by (auto simp: lead_range_def is_cont_def is_scalar_def)
    with bs 4 show ?thesis by (intro exI [of _ "?v b c d"] exI [of _ 3] exI [of _ t]) (simp add: next_char_def)
  qed
qed

lemma decode_replace_valid: "utf8_decode_nat bs = Some s \<Longrightarrow> decode_replace bs = s"
proof (induction bs arbitrary: s rule: length_induct)
  case (1 bs)
  show ?case
  proof (cases bs)
    case Nil
    with 1 show ?thesis by simp
  next
    case (Cons a r)
    with 1(2) obtain v n t where d: "s = v # t" "next_char (a # r) = (v, Suc n)" "utf8_decode_nat (drop n r) = Some t"
      using decoded_char by blast
    have "decode_replace (drop n r) = t" using 1(1) d(3) Cons by simp
    with d Cons show ?thesis by simp
  qed
qed

lemma next_char_width: "1 \<le> snd (next_char bs)"
  by (auto simp: next_char_def split: list.splits)

lemma decode_replace_length: "length (decode_replace bs) \<le> length bs"
proof (induction bs rule: decode_replace.induct)
  case (2 a bs)
  have "length (drop n bs) \<le> length bs" for n by simp
  from le_trans [OF 2 this] show ?case by simp
qed simp

text \<open>
  The output of a command is what it printed, up to the approved limit: the result keeps exactly the first
  bytes of the stream and is marked truncated exactly when there were more; it never has more characters
  than the limit, and output that is valid UTF-8 and fits is returned unchanged.
\<close>

theorem command_output_is_bounded_prefix:
  assumes "run_outcome ac run = Inr r" and "\<forall>c \<in> set (pr_chunks run). c \<noteq> []"
  shows "cr_output r = decode_replace (map unat (take (nat (ac_max_output_bytes ac)) (concat (pr_chunks run)))) \<and>
    (cr_truncated r \<longleftrightarrow> nat (ac_max_output_bytes ac) < length (concat (pr_chunks run))) \<and>
    length (cr_output r) \<le> nat (ac_max_output_bytes ac) \<and>
    (\<forall>s. utf8_encode s = Some (concat (pr_chunks run)) \<and> \<not> cr_truncated r \<longrightarrow> cr_output r = s)"
proof -
  let ?all = "concat (pr_chunks run)"
  let ?n = "nat (ac_max_output_bytes ac)"
  have rb: "read_bounded_output ?n (pr_chunks run) [] = (take ?n ?all, ?n < length ?all)"
    using read_bounded_prefix [OF assms(2), of "[]" ?n] by simp
  have r: "cr_output r = decode_replace (map unat (take ?n ?all))" "cr_truncated r \<longleftrightarrow> ?n < length ?all"
    using assms(1) by (auto simp: run_outcome_def rb Let_def split: if_splits)
  moreover have "length (cr_output r) \<le> ?n"
    using decode_replace_length [of "map unat (take ?n ?all)"] r(1) by simp
  moreover have "cr_output r = s" if "utf8_encode s = Some ?all" "\<not> cr_truncated r" for s
    using utf8_roundtrip [OF that(1)] that(2) r by (simp add: utf8_decode_def decode_replace_valid)
  ultimately show ?thesis by blast
qed

section \<open>What a call may do\<close>

definition staging_ok :: "writer_limits \<Rightarrow> (bytes \<Rightarrow> nat) \<Rightarrow> staging \<Rightarrow> bool" where
  "staging_ok l sha st \<longleftrightarrow> distinct (map fst (st_files st)) \<and> int (length (st_artifacts st)) \<le> wl_max_files l \<and>
     list_all2 (\<lambda>(n, b) a. sa_name a = n \<and> artifact_name n \<and> sa_kind a \<in> set artifact_kinds \<and> sa_size_bytes a = length b \<and>
       sa_sha256 a = hexdigest sha b \<and> int (length b) \<le> wl_max_file_bytes l) (st_files st) (st_artifacts st) \<and>
     st_total st = sum_list (map (length \<circ> snd) (st_files st)) \<and> int (st_total st) \<le> wl_max_total_bytes l"

lemma write_text_cases:
  assumes "write_text uni sha l name kind content st = (st', r)"
  obtains (refused) e where "st' = st" "r = Inl e"
  | (staged) b a where "r = Inr a" "st' = \<lparr>st_files = st_files st @ [(name, b)], st_artifacts = st_artifacts st @ [a], st_total = st_total st + length b\<rparr>"
      "utf8_encode content = Some b" "sa_name a = name" "sa_kind a = kind" "sa_size_bytes a = length b" "sa_sha256 a = hexdigest sha b"
      "artifact_name name" "kind \<in> set artifact_kinds" "int (length (st_artifacts st)) < wl_max_files l"
      "int (length b) \<le> wl_max_file_bytes l" "int (st_total st + length b) \<le> wl_max_total_bytes l" "name \<notin> fst ` set (st_files st)"
proof (cases "write_text uni sha l name kind content st")
  case (Pair t q)
  show ?thesis
  proof (cases q)
    case (Inl e)
    with Pair assms show ?thesis by (intro refused [of e]) (auto simp: write_text_def Let_def split: sum.splits)
  next
    case (Inr a)
    with Pair assms have "write_text uni sha l name kind content st = (st', Inr a)" "r = Inr a" by simp_all
    then show ?thesis
      by (intro staged [of a "the (utf8_encode content)"]) (auto simp: write_text_def Let_def rbind_Inr_iff split: sum.splits option.splits)
  qed
qed

lemma write_text_keeps:
  assumes "write_text uni sha l name kind content st = (st', r)" and "staging_ok l sha st"
  shows "staging_ok l sha st'"
  using assms(1)
proof (cases rule: write_text_cases)
  case (staged b a)
  with assms(2) show ?thesis
    by (auto simp: staging_ok_def list_all2_appendI list_all2_lengthD)
qed (use assms(2) in simp)

text \<open>The four ways a call may leave the state.\<close>

lemma guest_invoke_cases:
  assumes "guest_invoke env tmp call s = (s', r)"
  obtains (same) "s' = s"
  | (command) argv timeout limit ac where "tcl_name call = RUN_COMMAND_TOOL" "RUN_COMMAND_TOOL \<in> set (ge_allowed env)"
      "limit \<le> 16 * 1024" "approve_worker_command (ge_uni env) (ge_profile env) argv timeout limit = Inr ac"
      "(gs_tree s', gs_world s') = fst (ge_process env ac (gs_tree s, gs_world s))" "gs_staging s' = gs_staging s"
  | (artifact) name kind content q where "tcl_name call = WRITE_ARTIFACT_TOOL" "WRITE_ARTIFACT_TOOL \<in> set (ge_allowed env)"
      "write_text (ge_uni env) (ge_sha env) (ge_limits env) name kind content (gs_staging s) = (gs_staging s', q)"
      "gs_tree s' = gs_tree s" "gs_world s' = gs_world s"
  | (patch) p expected f x q where "tcl_name call = APPLY_PATCH_TOOL" "APPLY_PATCH_TOOL \<in> set (ge_allowed env)"
      "apply_patch (ge_sha env) (ge_posix env) tmp p expected f x (gs_tree s) = (gs_tree s', q)"
      "gs_staging s' = gs_staging s" "gs_world s' = gs_world s"
proof (cases "tcl_name call \<in> set (ge_allowed env)")
  case False
  with assms show ?thesis by (intro same) (simp add: guest_invoke_def)
next
  case True
  obtain q where d: "dispatch_tool env tmp call s = (s', q)"
    using assms True by (auto simp: guest_invoke_def Let_def split: prod.splits sum.splits)
  consider "tcl_name call = RUN_COMMAND_TOOL" | "tcl_name call = WRITE_ARTIFACT_TOOL" | "tcl_name call = APPLY_PATCH_TOOL"
    | "tcl_name call \<notin> {RUN_COMMAND_TOOL, WRITE_ARTIFACT_TOOL, APPLY_PATCH_TOOL}" by blast
  then show ?thesis
  proof cases
    case 1
    then have rc: "run_command env (tcl_arguments call) s = (s', q)" using d by (simp add: dispatch_tool_def)
    show ?thesis
    proof (cases "command_arguments (tcl_arguments call)")
      case (Inl e)
      with rc show ?thesis by (intro same) (simp add: run_command_def)
    next
      case (Inr a)
      obtain argv timeout limit where a: "a = (argv, timeout, limit)" by (cases a) auto
      have lim: "limit \<le> 16 * 1024" using Inr by (auto simp: command_arguments_def a rbind_Inr_iff)
      show ?thesis
      proof (cases "approve_worker_command (ge_uni env) (ge_profile env) argv timeout limit")
        case (Inl e)
        with rc Inr a show ?thesis by (intro same) (simp add: run_command_def command_run_def)
      next
        case ok: (Inr ac)
        have "(gs_tree s', gs_world s') = fst (ge_process env ac (gs_tree s, gs_world s))" "gs_staging s' = gs_staging s"
          using rc Inr a ok by (auto simp: run_command_def command_run_def split: prod.splits sum.splits)
        from command [OF 1 _ lim ok this] True 1 show ?thesis by simp
      qed
    qed
  next
    case 2
    then have wa: "write_artifact env (tcl_arguments call) s = (s', q)" using d by (simp add: dispatch_tool_def tool_name_defs)
    show ?thesis
      using wa True 2 same artifact unfolding write_artifact_def by (auto split: sum.splits prod.splits)
  next
    case 3
    then have rt: "repository_tool env tmp APPLY_PATCH_TOOL (tcl_arguments call) s = (s', q)"
      using d by (simp add: dispatch_tool_def tool_name_defs)
    show ?thesis
      using rt True 3 same patch unfolding repository_tool_def by (auto split: sum.splits prod.splits if_splits)
  next
    case 4
    with d show ?thesis by (intro same) (auto simp: dispatch_tool_def repository_tool_def throw_def split: if_splits)
  qed
qed

text \<open>
  C13: A tool call of a worker changes nothing but what its tool is for.  Whatever the model asks, the state is
  unchanged, or the tool is in the allowlist and the call started one command that the worker policy approved
  with an output limit of at most 16 KiB, or staged one artifact outside the repository, or patched one file
  of the repository, leaving every other path as it was.
\<close>

theorem guest_call_confined:
  assumes "guest_invoke env tmp call s = (s', r)" and "node_ok (GDir (gs_tree s))" and "\<forall>d. gnode_at (gs_tree s) (d @ [tmp]) = None"
  shows "s' = s \<or> tcl_name call \<in> set (ge_allowed env) \<and>
    ((tcl_name call = RUN_COMMAND_TOOL \<and> gs_staging s' = gs_staging s \<and>
       (\<exists>argv timeout limit ac. limit \<le> 16 * 1024 \<and> approve_worker_command (ge_uni env) (ge_profile env) argv timeout limit = Inr ac \<and>
         (gs_tree s', gs_world s') = fst (ge_process env ac (gs_tree s, gs_world s)))) \<or>
     (tcl_name call = WRITE_ARTIFACT_TOOL \<and> gs_tree s' = gs_tree s \<and> gs_world s' = gs_world s \<and>
       (\<exists>name b. artifact_name name \<and> name \<notin> fst ` set (st_files (gs_staging s)) \<and>
         st_files (gs_staging s') = st_files (gs_staging s) @ [(name, b)])) \<or>
     (tcl_name call = APPLY_PATCH_TOOL \<and> gs_staging s' = gs_staging s \<and> gs_world s' = gs_world s \<and>
       (\<exists>parts b x. only_changed (gs_tree s) parts (GFile b x) (gs_tree s'))))"
  using assms(1)
proof (cases rule: guest_invoke_cases)
  case (command argv timeout limit ac)
  have "\<exists>argv timeout limit ac. limit \<le> 16 * 1024 \<and> approve_worker_command (ge_uni env) (ge_profile env) argv timeout limit = Inr ac \<and>
         (gs_tree s', gs_world s') = fst (ge_process env ac (gs_tree s, gs_world s))"
    using command(3 - 5) by (intro exI conjI)
  moreover have "tcl_name call \<in> set (ge_allowed env)" using command(1, 2) by simp
  ultimately show ?thesis using command(1, 6) by blast
next
  case (artifact name kind content q)
  from artifact(3) show ?thesis
    by (cases rule: write_text_cases) (use artifact in auto)
next
  case (patch p expected f x q)
  from apply_patch_effect [OF patch(3) assms(2)] assms(3)
  have "gs_tree s' = gs_tree s \<or> (\<exists>parts b x. only_changed (gs_tree s) parts (GFile b x) (gs_tree s'))" by metis
  then show ?thesis using patch by auto
qed simp

text \<open>The calls of one task, each with the name its staging file would get.\<close>

fun guest_calls :: "'w guest_env \<Rightarrow> (pystr \<times> worker_tool_call) list \<Rightarrow> 'w guest_state \<Rightarrow> 'w guest_state \<times> worker_tool_result list" where
  "guest_calls env [] s = (s, [])"
| "guest_calls env ((tmp, call) # rest) s = (case guest_invoke env tmp call s of
     (s1, r) \<Rightarrow> (case guest_calls env rest s1 of (s2, rs) \<Rightarrow> (s2, r # rs)))"

lemma guest_calls_induct:
  assumes "guest_calls env calls s = (s', rs)" and "P s"
    and "\<And>tmp call s1 s2 r. P s1 \<Longrightarrow> guest_invoke env tmp call s1 = (s2, r) \<Longrightarrow> P s2 \<and> Q r"
  shows "P s' \<and> (\<forall>r \<in> set rs. Q r)"
  using assms(1, 2)
proof (induction calls arbitrary: s s' rs)
  case (Cons c rest)
  obtain tmp call where tc: "c = (tmp, call)" by (rule prod.exhaust)
  obtain s1 r where i: "guest_invoke env tmp call s = (s1, r)" by (rule prod.exhaust)
  obtain s2 rs2 where c: "guest_calls env rest s1 = (s2, rs2)" by (rule prod.exhaust)
  have eq: "s' = s2" "rs = r # rs2" using Cons(2) by (simp_all add: tc i c)
  from assms(3) [OF Cons(3) i] have step: "P s1" "Q r" by simp_all
  from Cons(1) [OF c step(1)] step(2) show ?case by (simp add: eq)
qed simp

definition result_bounded :: "worker_tool_result \<Rightarrow> bool" where
  "result_bounded r \<longleftrightarrow> length (tr_output r) \<le> (if tr_is_error r then 4000 else 16 * 1024)"

lemma guest_invoke_bounded: "guest_invoke env tmp call s = (s', r) \<Longrightarrow> result_bounded r \<and> tr_tool_name r = tcl_name call"
  by (auto simp: guest_invoke_def result_bounded_def tool_error_def Let_def split: if_splits prod.splits sum.splits)

lemma guest_invoke_keeps_staging:
  assumes "guest_invoke env tmp call s = (s', r)" and "staging_ok (ge_limits env) (ge_sha env) (gs_staging s)"
  shows "staging_ok (ge_limits env) (ge_sha env) (gs_staging s')"
  using assms(1)
proof (cases rule: guest_invoke_cases)
  case (artifact name kind content q)
  from write_text_keeps [OF artifact(3) assms(2)] show ?thesis .
qed (use assms(2) in auto)

text \<open>
  However many calls a worker makes, what it can accumulate stays bounded: the staged artifacts keep valid
  unique names and kinds, at most the configured number of files and bytes, and sizes and digests that match
  the staged content, and every result returned to the model has at most 16 KiB (4000 characters for errors).
\<close>

theorem guest_calls_stay_bounded:
  assumes "guest_calls env calls s = (s', rs)" and "staging_ok (ge_limits env) (ge_sha env) (gs_staging s)"
  shows "staging_ok (ge_limits env) (ge_sha env) (gs_staging s') \<and> (\<forall>r \<in> set rs. result_bounded r)"
proof (rule guest_calls_induct [where P = "\<lambda>s. staging_ok (ge_limits env) (ge_sha env) (gs_staging s)" and Q = result_bounded, OF assms])
  fix tmp call s1 s2 r
  assume ok: "staging_ok (ge_limits env) (ge_sha env) (gs_staging s1)" and i: "guest_invoke env tmp call s1 = (s2, r)"
  from guest_invoke_keeps_staging [OF i ok] guest_invoke_bounded [OF i]
  show "staging_ok (ge_limits env) (ge_sha env) (gs_staging s2) \<and> result_bounded r" by simp
qed

text \<open>
  C14: A read-only worker cannot change the repository or run anything: after any sequence of tool calls under
  the profile \<open>read-only-worker\<close> the workspace and the world outside are as they were.
\<close>

theorem read_only_worker_never_writes:
  assumes "guest_tools_init env = Inr env'" and "ge_profile env = u ''read-only-worker''"
    and "guest_calls env' calls s = (s', rs)"
  shows "gs_tree s' = gs_tree s \<and> gs_world s' = gs_world s"
proof -
  have allowed: "ge_allowed env' = [LIST_FILES_TOOL, READ_FILE_TOOL, SEARCH_TEXT_TOOL, WRITE_ARTIFACT_TOOL]"
    using assms(1, 2) by (auto simp: guest_tools_init_def rbind_Inr_iff worker_tool_names_def profile_tools_def split: if_splits)
  have not_in: "RUN_COMMAND_TOOL \<notin> set (ge_allowed env')" "APPLY_PATCH_TOOL \<notin> set (ge_allowed env')"
    by (simp_all add: allowed tool_name_defs)
  have step: "gs_tree s2 = gs_tree s1 \<and> gs_world s2 = gs_world s1" if "guest_invoke env' tmp call s1 = (s2, r)" for tmp call s1 s2 r
    using that by (cases rule: guest_invoke_cases) (use not_in in auto)
  have "(gs_tree s' = gs_tree s \<and> gs_world s' = gs_world s) \<and> (\<forall>r \<in> set rs. True)"
    by (rule guest_calls_induct [where P = "\<lambda>t. gs_tree t = gs_tree s \<and> gs_world t = gs_world s", OF assms(3)]) (use step in auto)
  then show ?thesis by simp
qed

section \<open>Witnesses\<close>

definition echo_run :: process_run where
  "echo_run = \<lparr>pr_started = 0, pr_ended = 5, pr_polls = [\<lparr>po_exited = True, po_cancelled = False, po_exceeded = False, po_now = 1\<rparr>],
     pr_chunks = [ascii_bytes (u ''ok''), ascii_bytes (u ''ay'')], pr_stdout_held = False, pr_return_code = 0\<rparr>"

definition small_command :: approved_command where
  "small_command = \<lparr>ac_argv = [u ''git'', u ''status''], ac_timeout_seconds = 5, ac_max_output_bytes = 3\<rparr>"

theorem command_output_is_bounded_prefix_witness:
  "\<exists>r. run_outcome small_command echo_run = Inr r \<and> cr_output r = decode_replace (map unat (ascii_bytes (u ''oka''))) \<and> cr_truncated r"
proof -
  have r: "run_outcome small_command echo_run = Inr \<lparr>cr_argv = [u ''git'', u ''status''], cr_return_code = 0,
      cr_output = decode_replace (map unat (ascii_bytes (u ''oka''))), cr_duration = 5, cr_timed_out = False, cr_truncated = True\<rparr>"
    by (simp add: run_outcome_def echo_run_def small_command_def ascii_bytes_def u_def)
  have "\<forall>c \<in> set (pr_chunks echo_run). c \<noteq> []" by (simp add: echo_run_def ascii_bytes_def u_def)
  from command_output_is_bounded_prefix [OF r this] show ?thesis by (simp add: r)
qed

definition small_env :: "pystr \<Rightarrow> unit guest_env" where
  "small_env profile = \<lparr>ge_profile = profile, ge_allowed = [], ge_process = (\<lambda>ac s. (s, Inr echo_run)), ge_limits = default_writer_limits,
     ge_repository = True, ge_posix = True, ge_sha = length, ge_uni = (\<lambda>_. True), ge_encode_text = id, ge_seconds = show_int\<rparr>"

definition small_state :: "unit guest_state" where
  "small_state = \<lparr>gs_tree = small_tree, gs_staging = \<lparr>st_files = [], st_artifacts = [], st_total = 0\<rparr>, gs_world = ()\<rparr>"

definition small_call :: "pystr \<times> worker_tool_call" where
  "small_call = (u ''tmp'', \<lparr>tcl_name = WRITE_ARTIFACT_TOOL, tcl_arguments = [(u ''name'', JStr (u ''log'')), (u ''kind'', JStr (u ''report'')), (u ''content'', JStr (u ''ok''))]\<rparr>)"

lemma small_init: "\<exists>env. guest_tools_init (small_env (u ''read-only-worker'')) = Inr env \<and> ge_limits env = default_writer_limits \<and> ge_sha env = length"
  by (simp add: guest_tools_init_def small_env_def worker_tool_names_def profile_tools_def u_def)

lemma small_staging: "staging_ok default_writer_limits length (gs_staging small_state)"
  by (simp add: staging_ok_def small_state_def default_writer_limits_def)

theorem guest_calls_stay_bounded_witness:
  "staging_ok default_writer_limits length (gs_staging (fst (guest_calls (small_env (u ''coding-worker'')) [small_call, small_call] small_state)))"
  using guest_calls_stay_bounded [of "small_env (u ''coding-worker'')" "[small_call, small_call]" small_state, OF prod.collapse [symmetric]] small_staging
  by (simp add: small_env_def)

theorem read_only_worker_never_writes_witness:
  "\<exists>env. guest_tools_init (small_env (u ''read-only-worker'')) = Inr env \<and> gs_tree (fst (guest_calls env [small_call] small_state)) = small_tree"
proof -
  from small_init obtain env where env: "guest_tools_init (small_env (u ''read-only-worker'')) = Inr env" by blast
  have "ge_profile (small_env (u ''read-only-worker'')) = u ''read-only-worker''" by (simp add: small_env_def)
  from read_only_worker_never_writes [OF env this prod.collapse [symmetric], of "[small_call]" small_state] env
  show ?thesis by (auto simp: small_state_def)
qed

lemma small_tmp: "gnode_at small_tree (d @ [u ''tmp'']) = None"
proof -
  have "map_of es (u ''tmp'') = None" if "gnode_at small_tree d = Some (GDir es)" for es
  proof -
    have sub: "gnode_at [(u ''a.py'', GFile b x)] ps = Some (GDir es) \<Longrightarrow> map_of es (u ''tmp'') = None" for b x ps
      by (cases ps) (auto simp: u_def split: if_splits)
    show ?thesis
      using that sub by (cases d) (auto simp: small_tree_def u_def split: if_splits)
  qed
  then show ?thesis by (auto simp: gnode_at_snoc split: option.splits gnode.splits)
qed

theorem guest_call_confined_witness:
  "\<exists>s' r. guest_invoke (small_env (u ''coding-worker'')) (u ''tmp'') (snd small_call) small_state = (s', r) \<and>
     (s' = small_state \<or> gs_tree s' = small_tree)"
proof -
  obtain s' r where i: "guest_invoke (small_env (u ''coding-worker'')) (u ''tmp'') (snd small_call) small_state = (s', r)" by (rule prod.exhaust)
  have "node_ok (GDir (gs_tree small_state))" "\<forall>d. gnode_at (gs_tree small_state) (d @ [u ''tmp'']) = None"
    using small_tree_ok small_tmp by (simp_all add: small_state_def)
  from guest_call_confined [OF i this] i show ?thesis
    by (auto simp: small_call_def small_state_def tool_name_defs u_def)
qed

end
