(* ===== verification/GuestRuntime.thy ===== *)
theory GuestRuntime
  imports GuestTools
begin

text \<open>
  \<open>night_shifts/guest/runtime.py\<close>: the loop that serves one task over the serial channel of the guest.  The
  channel holds the bytes still to be read, the bytes written so far, and how many bytes each of the next
  writes accepts (it is closed where this list ends).  The worker executor is a tree of what it does next:
  emit an event, call a tool, or end; both may be answered with anything, including an exception it ignores.
  The status of the files outside the repository is a record; event identifiers and times are drawn by number.
\<close>

section \<open>The channel\<close>

definition MAX_FRAME_BYTES :: nat where "MAX_FRAME_BYTES = 1024 * 1024"
definition MAX_WORKER_EVENTS :: nat where "MAX_WORKER_EVENTS = 500"

datatype guest_exn = GuestRuntimeError pystr | GuestProtocol protocol_error | OtherExn pystr pystr

record channel =
  ch_in :: bytes
  ch_out :: bytes
  ch_accept :: "nat list"

text \<open>\<open>channel.readline(limit)\<close>\<close>

definition readline :: "nat \<Rightarrow> channel \<Rightarrow> channel \<times> bytes" where
  "readline limit c =
     (let line = takeWhile (\<lambda>b. b \<noteq> 10) (ch_in c);
          frame = take limit (if length line < length (ch_in c) then line @ [10] else line) in
      (c\<lparr>ch_in := drop (length frame) (ch_in c)\<rparr>, frame))"

text \<open>The loop \<open>while view\<close>: a write that accepts nothing means that the controller closed the channel.\<close>

fun send_all :: "bytes \<Rightarrow> nat list \<Rightarrow> bytes \<Rightarrow> nat list \<times> bytes \<times> bool" where
  "send_all [] ks out = (ks, out, True)"
| "send_all (b # bs) [] out = ([], out, False)"
| "send_all (b # bs) (k # ks) out =
     (if k = 0 then (ks, out, False) else send_all (drop k (b # bs)) ks (out @ take k (b # bs)))"

definition write_frame :: "(pystr \<Rightarrow> pystr) \<Rightarrow> pystr \<Rightarrow> (channel, guest_exn, unit) act" where
  "write_frame etext frame c = (case utf8_encode frame of
     None \<Rightarrow> (c, Inl (OtherExn (u ''UnicodeEncodeError'') (etext frame)))
   | Some b \<Rightarrow>
       if MAX_FRAME_BYTES < length (b @ [10]) then (c, Inl (GuestRuntimeError (u ''worker frame exceeds the size limit'')))
       else (case send_all (b @ [10]) (ch_accept c) (ch_out c) of
         (ks, out, sent) \<Rightarrow> (c\<lparr>ch_out := out, ch_accept := ks\<rparr>,
           if sent then Inr () else Inl (GuestRuntimeError (u ''controller closed the channel while writing'')))))"

definition read_task :: "(channel, guest_exn, worker_task) act" where
  "read_task c = (case readline (MAX_FRAME_BYTES + 2) c of (c', frame) \<Rightarrow> (c',
     if frame = [] then Inl (GuestRuntimeError (u ''controller closed the channel before sending a task''))
     else if MAX_FRAME_BYTES < length frame \<or> last frame \<noteq> 10
     then Inl (GuestRuntimeError (u ''task frame is unterminated or exceeds the size limit''))
     else case utf8_decode frame of
       None \<Rightarrow> Inl (GuestRuntimeError (u ''task frame is not valid UTF-8''))
     | Some line \<Rightarrow> map_sum GuestProtocol id (decode_task line)))"

section \<open>The workspace of the task\<close>

record manifest_file =
  mf_regular :: bool
  mf_writable :: bool
  mf_uid :: int
  mf_content :: bytes

record guest_files =
  gf_root_writable :: bool
  gf_root_uid :: int
  gf_manifest :: "manifest_file option"
  gf_repository_ok :: bool
  gf_artifacts_ok :: bool
  gf_require_root :: bool
  gf_posix :: bool

record workspace_identity =
  wi_job_id :: pystr
  wi_repository_id :: pystr
  wi_starting_revision :: pystr
  wi_revision :: pystr

definition identity_fields :: "pystr list" where
  "identity_fields = [u ''job_id'', u ''repository_id'', u ''starting_revision'', u ''revision'']"

definition guest_require :: "bool \<Rightarrow> pystr \<Rightarrow> guest_exn + unit" where
  "guest_require b t = require b (GuestRuntimeError t)"

definition identity_text :: "(pystr \<times> json) list \<Rightarrow> pystr \<Rightarrow> pystr" where
  "identity_text d k = (case map_of d k of Some (JStr s) \<Rightarrow> s | _ \<Rightarrow> [])"

definition load_identity :: "(bytes \<Rightarrow> pystr) \<Rightarrow> guest_files \<Rightarrow> guest_exn + workspace_identity" where
  "load_identity dtext gf = (case gf_manifest gf of
     None \<Rightarrow> Inl (GuestRuntimeError (u ''workspace manifest is unavailable or invalid''))
   | Some m \<Rightarrow>
       rbind (guest_require (mf_regular m) (u ''workspace manifest must be a regular file'')) (\<lambda>_.
       rbind (guest_require (\<not> (gf_posix gf \<and> mf_writable m)) (u ''workspace manifest must not be group/world writable'')) (\<lambda>_.
       rbind (guest_require (\<not> (gf_posix gf \<and> gf_root_writable gf)) (u ''workspace root must not be group/world writable'')) (\<lambda>_.
       rbind (guest_require (\<not> (gf_require_root gf \<and> (gf_root_uid gf \<noteq> 0 \<or> mf_uid m \<noteq> 0)))
         (u ''workspace root and manifest must be owned by root'')) (\<lambda>_.
       rbind (case utf8_decode (mf_content m) of
           None \<Rightarrow> Inl (OtherExn (u ''UnicodeDecodeError'') (dtext (mf_content m)))
         | Some t \<Rightarrow> (case json_loads t of
             None \<Rightarrow> Inl (GuestRuntimeError (u ''workspace manifest is unavailable or invalid''))
           | Some v \<Rightarrow> Inr v)) (\<lambda>v.
       case v of
         JObj d \<Rightarrow>
           if set (map fst d) \<noteq> set identity_fields then Inl (GuestRuntimeError (u ''workspace manifest has an invalid shape''))
           else if list_ex (\<lambda>k. identity_text d k = []) identity_fields
           then Inl (GuestRuntimeError (u ''workspace manifest fields must be non-empty strings''))
           else Inr \<lparr>wi_job_id = identity_text d (u ''job_id''), wi_repository_id = identity_text d (u ''repository_id''),
             wi_starting_revision = identity_text d (u ''starting_revision''), wi_revision = identity_text d (u ''revision'')\<rparr>
       | _ \<Rightarrow> Inl (GuestRuntimeError (u ''workspace manifest has an invalid shape''))))))))"

definition validate_task_workspace :: "(pychar \<Rightarrow> bool) \<Rightarrow> (bytes \<Rightarrow> pystr) \<Rightarrow> guest_files \<Rightarrow> worker_task \<Rightarrow> guest_exn + workspace_identity" where
  "validate_task_workspace uni dtext gf task =
     rbind (guest_require (tk_worker_profile task \<in> fst ` set profile_tools)
       (u ''unsupported worker profile: '' @ py_repr uni (tk_worker_profile task))) (\<lambda>_.
     rbind (guest_require (tk_repository_id task \<noteq> None \<and> tk_starting_revision task \<noteq> None)
       (u ''repository ID and starting revision are required'')) (\<lambda>_.
     rbind (load_identity dtext gf) (\<lambda>i.
     rbind (guest_require (wi_job_id i = tk_job_id task) (u ''task job ID does not match the workspace manifest'')) (\<lambda>_.
     rbind (guest_require (Some (wi_repository_id i) = tk_repository_id task) (u ''task repository does not match the workspace manifest'')) (\<lambda>_.
     rbind (guest_require (Some (wi_starting_revision i) = tk_starting_revision task) (u ''task revision does not match the workspace manifest'')) (\<lambda>_.
     rbind (guest_require (gf_repository_ok gf) (u ''repository workspace is unavailable or escapes its root'')) (\<lambda>_. Inr i)))))))"

section \<open>One task\<close>

datatype executor =
    Done "guest_exn + worker_result"
  | Emit pystr "(pystr \<times> json) list" "guest_exn + unit \<Rightarrow> executor"
  | CallTool pystr worker_tool_call "worker_tool_result \<Rightarrow> executor"

record 'w runtime_env =
  re_tools :: "'w guest_env"
  re_files :: guest_files
  re_draw :: "nat \<Rightarrow> pystr \<times> time"
  re_decode_text :: "bytes \<Rightarrow> pystr"
  re_isofmt :: "time \<Rightarrow> pystr"

record 'w runtime_state =
  rt_channel :: channel
  rt_events :: nat
  rt_guest :: "'w guest_state"

definition on_channel :: "(channel, guest_exn, 'a) act \<Rightarrow> ('w runtime_state, guest_exn, 'a) act" where
  "on_channel m s = (case m (rt_channel s) of (c, r) \<Rightarrow> (s\<lparr>rt_channel := c\<rparr>, r))"

definition worker_event :: "'w runtime_env \<Rightarrow> pystr \<Rightarrow> nat \<Rightarrow> pystr \<Rightarrow> (pystr \<times> json) list \<Rightarrow> night_shift_event" where
  "worker_event env job n etype payload = \<lparr>ev_type = etype, ev_actor = u ''worker'', ev_payload = payload, ev_job_id = Some job,
     ev_id = fst (re_draw env n), ev_created_at = snd (re_draw env n)\<rparr>"

definition emit_event :: "'w runtime_env \<Rightarrow> pystr \<Rightarrow> pystr \<Rightarrow> (pystr \<times> json) list \<Rightarrow> ('w runtime_state, guest_exn, unit) act" where
  "emit_event env job etype payload s =
     (let n = Suc (rt_events s); s' = s\<lparr>rt_events := n\<rparr> in
      if MAX_WORKER_EVENTS < n then (s', Inl (GuestRuntimeError (u ''worker event limit exceeded'')))
      else on_channel (write_frame (ge_encode_text (re_tools env)) (encode_event (re_isofmt env) (worker_event env job n etype payload))) s')"

primrec run_executor :: "'w runtime_env \<Rightarrow> 'w guest_env \<Rightarrow> pystr \<Rightarrow> executor \<Rightarrow> ('w runtime_state, guest_exn, worker_result) act" where
  "run_executor env tools job (Done r) = (\<lambda>s. (s, r))"
| "run_executor env tools job (Emit etype payload k) = (\<lambda>s. case emit_event env job etype payload s of
     (s', r) \<Rightarrow> run_executor env tools job (k r) s')"
| "run_executor env tools job (CallTool tmp call k) = (\<lambda>s. case guest_invoke tools tmp call (rt_guest s) of
     (g, r) \<Rightarrow> run_executor env tools job (k r) (s\<lparr>rt_guest := g\<rparr>))"

text \<open>\<open>UnavailableWorkerExecutor.execute\<close>\<close>

definition unavailable_executor :: "worker_task \<Rightarrow> executor" where
  "unavailable_executor task = Emit (u ''worker_executor_unavailable'') [(u ''profile'', JStr (tk_worker_profile task))]
     (\<lambda>r. case r of
        Inl e \<Rightarrow> Done (Inl e)
      | Inr _ \<Rightarrow> Done (Inr (plain_result (tk_job_id task) WO_FAILED (u ''The restricted guest has no configured worker executor.'')
          (Some (u ''A reviewed worker model adapter is required'')))))"

text \<open>The body of the \<open>try\<close> block.\<close>

definition task_body :: "'w runtime_env \<Rightarrow> worker_task \<Rightarrow> (worker_task \<Rightarrow> executor) \<Rightarrow> ('w runtime_state, guest_exn, worker_result) act" where
  "task_body env task exec s = (case validate_task_workspace (ge_uni (re_tools env)) (re_decode_text env) (re_files env) task of
     Inl e \<Rightarrow> (s, Inl e)
   | Inr i \<Rightarrow> abind (emit_event env (tk_job_id task) (u ''worker_started'')
        [(u ''profile'', JStr (tk_worker_profile task)), (u ''repository_id'', JStr (wi_repository_id i)), (u ''revision'', JStr (wi_revision i))]) (\<lambda>_ s.
      case rbind (map_sum (\<lambda>e. OtherExn (u ''ArtifactPolicyError'') (tool_exn_text (re_tools env) e)) id
             (writer_init (gf_artifacts_ok (re_files env)) (ge_limits (re_tools env)))) (\<lambda>_.
           map_sum (\<lambda>e. OtherExn (u ''ValueError'') (tool_exn_text (re_tools env) (policy_exn e))) id
             (guest_tools_init (re_tools env\<lparr>ge_profile := tk_worker_profile task\<rparr>))) of
        Inl e \<Rightarrow> (s, Inl e)
      | Inr tools \<Rightarrow> abind (run_executor env tools (tk_job_id task) (exec task)) (\<lambda>result.
          if wr_job_id result \<noteq> tk_job_id task then throw (GuestRuntimeError (u ''worker executor returned a mismatched job ID''))
          else ret result) s) s)"

fun guest_exn_text :: "guest_exn \<Rightarrow> pystr" where
  "guest_exn_text (GuestRuntimeError t) = t"
| "guest_exn_text (OtherExn cls t) = (if t = [] then cls else t)"
| "guest_exn_text (GuestProtocol e) = u ''ProtocolError''"

definition failed_task :: "pystr \<Rightarrow> guest_exn \<Rightarrow> worker_result" where
  "failed_task job e = plain_result job WO_FAILED (u ''The restricted guest failed the task.'') (Some (take 2000 (guest_exn_text e)))"

definition write_result :: "(pystr \<Rightarrow> pystr) \<Rightarrow> pystr \<Rightarrow> worker_result \<Rightarrow> (channel, guest_exn, unit) act" where
  "write_result etext job result c = (case write_frame etext (encode_result result) c of
     (c', Inl (GuestRuntimeError t)) \<Rightarrow>
       if \<not> contains t (u ''exceeds the size limit'') then (c', Inl (GuestRuntimeError t))
       else write_frame etext (encode_result (plain_result job WO_FAILED (u ''The worker result exceeded the guest output limit.'')
              (Some (u ''worker result frame exceeds the size limit'')))) c'
   | (c', r) \<Rightarrow> (c', r))"

definition run_once :: "'w runtime_env \<Rightarrow> (worker_task \<Rightarrow> executor) option \<Rightarrow> ('w runtime_state, guest_exn, unit) act" where
  "run_once env exec s = (case on_channel read_task s of
     (s1, Inl e) \<Rightarrow> (s1, Inl e)
   | (s1, Inr task) \<Rightarrow> (case task_body env task (case exec of Some x \<Rightarrow> x | None \<Rightarrow> unavailable_executor) (s1\<lparr>rt_events := 0\<rparr>) of
       (s2, r) \<Rightarrow> on_channel (write_result (ge_encode_text (re_tools env)) (tk_job_id task)
          (case r of Inr result \<Rightarrow> result | Inl e \<Rightarrow> failed_task (tk_job_id task) e)) s2))"

definition guest_main :: "'w runtime_env \<Rightarrow> (worker_task \<Rightarrow> executor) option \<Rightarrow> 'w runtime_state \<Rightarrow> int" where
  "guest_main env exec s = (case run_once env exec s of (_, Inl _) \<Rightarrow> 1 | (_, Inr _) \<Rightarrow> 0)"

section \<open>The wire\<close>

definition frame_bytes :: "pystr \<Rightarrow> bytes" where
  "frame_bytes f = the (utf8_encode f) @ [10]"

definition transmissible :: "pystr \<Rightarrow> bool" where
  "transmissible f \<longleftrightarrow> utf8_encode f \<noteq> None \<and> length (frame_bytes f) \<le> MAX_FRAME_BYTES"

definition closed_while_writing :: guest_exn where
  "closed_while_writing = GuestRuntimeError (u ''controller closed the channel while writing'')"

lemma send_all_sent: "send_all b ks out = (ks', out', True) \<Longrightarrow> out' = out @ b"
  by (induction b ks out rule: send_all.induct) (auto split: if_splits)

lemma send_all_closed: "send_all b ks out = (ks', out', False) \<Longrightarrow> 0 \<notin> set ks \<Longrightarrow> ks' = []"
  by (induction b ks out rule: send_all.induct) (auto split: if_splits)

lemma send_all_rest: "send_all b ks out = (ks', out', q) \<Longrightarrow> set ks' \<subseteq> set ks"
  by (induction b ks out rule: send_all.induct) (auto split: if_splits)

lemma write_frame_cases:
  assumes "write_frame etext f c = (c', r)" and "0 \<notin> set (ch_accept c)"
  obtains (sent) "r = Inr ()" "transmissible f" "ch_out c' = ch_out c @ frame_bytes f" "0 \<notin> set (ch_accept c')" "ch_accept c \<noteq> []"
  | (refused) e where "r = Inl e" "\<not> transmissible f" "c' = c"
      "e = (case utf8_encode f of None \<Rightarrow> OtherExn (u ''UnicodeEncodeError'') (etext f)
          | Some b \<Rightarrow> GuestRuntimeError (u ''worker frame exceeds the size limit''))"
  | (closed) "r = Inl closed_while_writing" "ch_accept c' = []"
proof (cases "utf8_encode f")
  case None
  with assms show ?thesis by (intro refused) (auto simp: write_frame_def transmissible_def)
next
  case (Some b)
  show ?thesis
  proof (cases "MAX_FRAME_BYTES < length (b @ [10])")
    case True
    with assms Some show ?thesis by (intro refused) (auto simp: write_frame_def transmissible_def frame_bytes_def)
  next
    case False
    obtain ks out q where s: "send_all (b @ [10]) (ch_accept c) (ch_out c) = (ks, out, q)" by (metis prod_cases3)
    show ?thesis
    proof (cases q)
      case True
      have "out = ch_out c @ b @ [10]" using send_all_sent [of "b @ [10]" "ch_accept c" "ch_out c" ks out] s True by simp
      moreover have "ch_accept c \<noteq> []" using s True by (cases "b @ [10]") auto
      ultimately show ?thesis
        using assms Some False s True send_all_rest [OF s]
        by (intro sent) (auto simp: write_frame_def transmissible_def frame_bytes_def)
    next
      case q: False
      have "ks = []" using send_all_closed [of "b @ [10]" "ch_accept c" "ch_out c" ks out] s q assms(2) by simp
      with assms Some False s q show ?thesis
        by (intro closed) (auto simp: write_frame_def closed_while_writing_def)
    qed
  qed
qed

text \<open>
  What the guest has sent since \<open>out\<close>: nothing but whole event frames of this job, at most as many as it
  counted, unless the channel is closed.
\<close>

definition event_of_job :: "pystr \<Rightarrow> night_shift_event \<Rightarrow> bool" where
  "event_of_job job e \<longleftrightarrow> ev_job_id e = Some job \<and> ev_actor e = u ''worker''"

definition events_sent :: "'w runtime_env \<Rightarrow> pystr \<Rightarrow> bytes \<Rightarrow> night_shift_event list \<Rightarrow> bytes \<Rightarrow> bool" where
  "events_sent env job out events out' \<longleftrightarrow> out' = out @ concat (map (frame_bytes \<circ> encode_event (re_isofmt env)) events) \<and>
     length events \<le> MAX_WORKER_EVENTS \<and> (\<forall>e \<in> set events. event_of_job job e \<and> transmissible (encode_event (re_isofmt env) e))"

definition serving :: "'w runtime_env \<Rightarrow> pystr \<Rightarrow> bytes \<Rightarrow> 'w runtime_state \<Rightarrow> bool" where
  "serving env job out s \<longleftrightarrow> 0 \<notin> set (ch_accept (rt_channel s)) \<and> (ch_accept (rt_channel s) = [] \<or>
     (\<exists>events. events_sent env job out events (ch_out (rt_channel s)) \<and> length events \<le> rt_events s))"

lemma emit_event_serving:
  assumes "emit_event env job etype payload s = (s', r)" and "serving env job out s"
  shows "serving env job out s'"
proof (cases "MAX_WORKER_EVENTS < Suc (rt_events s)")
  case True
  with assms show ?thesis by (auto simp: emit_event_def serving_def Let_def)
next
  case False
  let ?e = "worker_event env job (Suc (rt_events s)) etype payload"
  let ?f = "encode_event (re_isofmt env) ?e"
  obtain c' where w: "write_frame (ge_encode_text (re_tools env)) ?f (rt_channel s) = (c', r)"
    and s': "s' = s\<lparr>rt_events := Suc (rt_events s), rt_channel := c'\<rparr>"
    using assms(1) False by (auto simp: emit_event_def on_channel_def Let_def split: prod.splits)
  from assms(2) have live: "0 \<notin> set (ch_accept (rt_channel s))" by (simp add: serving_def)
  from w live show ?thesis
  proof (cases rule: write_frame_cases)
    case sent
    with assms(2) obtain events where ev: "events_sent env job out events (ch_out (rt_channel s))" "length events \<le> rt_events s"
      by (auto simp: serving_def)
    have "events_sent env job out (events @ [?e]) (ch_out c')"
      using ev sent(2, 3) False by (auto simp: events_sent_def event_of_job_def worker_event_def)
    with ev(2) sent(4) s' show ?thesis by (auto simp: serving_def intro!: exI [of _ "events @ [?e]"])
  next
    case (refused e)
    with assms(2) s' show ?thesis by (auto simp: serving_def intro: le_SucI)
  next
    case closed
    with s' show ?thesis by (simp add: serving_def)
  qed
qed

lemma run_executor_serving:
  "run_executor env tools job ex s = (s', r) \<Longrightarrow> serving env job out s \<Longrightarrow> serving env job out s'"
proof (induction ex arbitrary: s)
  case (Emit etype payload k)
  obtain s1 q where e: "emit_event env job etype payload s = (s1, q)" by (rule prod.exhaust)
  from Emit.IH [OF _ _ emit_event_serving [OF e Emit.prems(2)], of "k q"] Emit.prems(1) e show ?case by simp
next
  case (CallTool tmp call k)
  obtain g q where i: "guest_invoke tools tmp call (rt_guest s) = (g, q)" by (rule prod.exhaust)
  have "serving env job out (s\<lparr>rt_guest := g\<rparr>)" using CallTool.prems(2) by (simp add: serving_def)
  from CallTool.IH [OF _ _ this, of "k q"] CallTool.prems(1) i show ?case by simp
qed simp

lemma task_body_serving:
  assumes "task_body env task exec s = (s', r)" and "serving env (tk_job_id task) out s"
  shows "serving env (tk_job_id task) out s' \<and> (\<forall>result. r = Inr result \<longrightarrow> wr_job_id result = tk_job_id task)"
proof (cases "validate_task_workspace (ge_uni (re_tools env)) (re_decode_text env) (re_files env) task")
  case (Inl e)
  with assms show ?thesis by (auto simp: task_body_def)
next
  case (Inr i)
  obtain s1 q where e: "emit_event env (tk_job_id task) (u ''worker_started'')
     [(u ''profile'', JStr (tk_worker_profile task)), (u ''repository_id'', JStr (wi_repository_id i)), (u ''revision'', JStr (wi_revision i))] s = (s1, q)"
    by (rule prod.exhaust)
  from emit_event_serving [OF e assms(2)] have sv: "serving env (tk_job_id task) out s1" .
  show ?thesis
    using assms(1) sv run_executor_serving [OF _ sv]
    by (auto simp: task_body_def Inr abind_def e throw_def ret_def split: sum.splits prod.splits if_splits)
qed

lemma write_result_cases:
  assumes "write_result etext job result c = (c', r)" and "0 \<notin> set (ch_accept c)" and "wr_job_id result = job"
  obtains (sent) result' where "r = Inr ()" "wr_job_id result' = job" "transmissible (encode_result result')"
      "ch_out c' = ch_out c @ frame_bytes (encode_result result')" "ch_accept c \<noteq> []"
  | (refused) e result' where "r = Inl e" "wr_job_id result' = job" "\<not> transmissible (encode_result result')" "c' = c"
      "utf8_encode (encode_result result) = None \<longrightarrow> e = OtherExn (u ''UnicodeEncodeError'') (etext (encode_result result))"
  | (closed) "r = Inl closed_while_writing"
proof -
  obtain c1 r1 where w: "write_frame etext (encode_result result) c = (c1, r1)" by (rule prod.exhaust)
  from w assms(2) show ?thesis
  proof (cases rule: write_frame_cases)
    case sent
    with assms(1, 3) w show ?thesis by (intro that(1) [of result]) (simp_all add: write_result_def)
  next
    case closed
    have "\<not> contains (u ''controller closed the channel while writing'') (u ''exceeds the size limit'')" by code_simp
    with closed assms(1) w show ?thesis by (intro that(3)) (simp add: write_result_def closed_while_writing_def)
  next
    case (refused e)
    show ?thesis
    proof (cases "utf8_encode (encode_result result)")
      case None
      with refused assms(1, 3) w show ?thesis by (intro that(2) [of e result]) (simp_all add: write_result_def)
    next
      case (Some b)
      let ?fb = "plain_result job WO_FAILED (u ''The worker result exceeded the guest output limit.'')
        (Some (u ''worker result frame exceeds the size limit''))"
      have "contains (u ''worker frame exceeds the size limit'') (u ''exceeds the size limit'')" by code_simp
      with Some refused assms(1) w have f: "write_frame etext (encode_result ?fb) c = (c', r)" by (simp add: write_result_def)
      have job: "wr_job_id ?fb = job" by (simp add: plain_result_def)
      from f assms(2) show ?thesis
      proof (cases rule: write_frame_cases)
        case sent
        with job show ?thesis by (intro that(1) [of ?fb])
      next
        case (refused e)
        with job Some show ?thesis by (intro that(2) [of e ?fb]) simp_all
      next
        case closed
        then show ?thesis by (intro that(3))
      qed
    qed
  qed
qed

lemma run_once_parts:
  assumes "run_once env exec s = (s', r)" and "snd (read_task (rt_channel s)) = Inr task" and "0 \<notin> set (ch_accept (rt_channel s))"
  obtains s2 result where "serving env (tk_job_id task) (ch_out (rt_channel s)) s2" "wr_job_id result = tk_job_id task"
    "write_result (ge_encode_text (re_tools env)) (tk_job_id task) result (rt_channel s2) = (rt_channel s', r)"
proof -
  let ?exec = "case exec of Some x \<Rightarrow> x | None \<Rightarrow> unavailable_executor"
  obtain c1 where c1: "read_task (rt_channel s) = (c1, Inr task)" using assms(2) by (cases "read_task (rt_channel s)") simp
  then have keep: "ch_out c1 = ch_out (rt_channel s)" "ch_accept c1 = ch_accept (rt_channel s)"
    by (auto simp: read_task_def readline_def Let_def)
  obtain s2 q where b: "task_body env task ?exec (s\<lparr>rt_channel := c1, rt_events := 0\<rparr>) = (s2, q)" by (rule prod.exhaust)
  have "serving env (tk_job_id task) (ch_out (rt_channel s)) (s\<lparr>rt_channel := c1, rt_events := 0\<rparr>)"
    using assms(3) keep by (auto simp: serving_def events_sent_def intro!: exI [of _ "[]"])
  from task_body_serving [OF b this] have sv: "serving env (tk_job_id task) (ch_out (rt_channel s)) s2"
    and job: "q = Inr result \<Longrightarrow> wr_job_id result = tk_job_id task" for result by auto
  let ?result = "case q of Inr result \<Rightarrow> result | Inl e \<Rightarrow> failed_task (tk_job_id task) e"
  have "write_result (ge_encode_text (re_tools env)) (tk_job_id task) ?result (rt_channel s2) = (rt_channel s', r)"
    using assms(1) b by (auto simp: run_once_def on_channel_def c1 split: prod.splits)
  moreover have "wr_job_id ?result = tk_job_id task" using job by (cases q) (auto simp: failed_task_def plain_result_def)
  ultimately show ?thesis using that sv by blast
qed

text \<open>
  C18: The guest answers a task with bounded events and exactly one result: whenever \<open>run_once()\<close> returns, what
  it wrote is a sequence of at most 500 whole event frames of this task's job, each from the worker, followed by
  one whole result frame with this job id, and every frame is UTF-8 and at most 1 MiB, whatever the
  executor does and however the channel splits the writes.  A closed channel accepts nothing any more.
\<close>

theorem guest_answers_with_one_result:
  assumes "run_once env exec s = (s', Inr ())" and "0 \<notin> set (ch_accept (rt_channel s))"
  shows "\<exists>task events result. snd (read_task (rt_channel s)) = Inr task \<and> length events \<le> MAX_WORKER_EVENTS \<and>
    (\<forall>e \<in> set events. ev_job_id e = Some (tk_job_id task) \<and> ev_actor e = u ''worker'') \<and> wr_job_id result = tk_job_id task \<and>
    ch_out (rt_channel s') = ch_out (rt_channel s) @
      concat (map frame_bytes (map (encode_event (re_isofmt env)) events @ [encode_result result])) \<and>
    (\<forall>f \<in> set (map (encode_event (re_isofmt env)) events @ [encode_result result]). transmissible f)"
proof -
  obtain task where task: "snd (read_task (rt_channel s)) = Inr task"
    using assms(1) by (auto simp: run_once_def on_channel_def split: prod.splits sum.splits)
  from assms(1) task assms(2) obtain s2 result where p: "serving env (tk_job_id task) (ch_out (rt_channel s)) s2"
    "wr_job_id result = tk_job_id task"
    "write_result (ge_encode_text (re_tools env)) (tk_job_id task) result (rt_channel s2) = (rt_channel s', Inr ())"
    by (rule run_once_parts)
  from p(1) have live: "0 \<notin> set (ch_accept (rt_channel s2))" by (simp add: serving_def)
  from p(3) live p(2) show ?thesis
  proof (cases rule: write_result_cases)
    case (sent result')
    with p(1) obtain events where ev: "events_sent env (tk_job_id task) (ch_out (rt_channel s)) events (ch_out (rt_channel s2))"
      by (auto simp: serving_def)
    with task sent show ?thesis
      by (intro exI [of _ task] exI [of _ events] exI [of _ result']) (auto simp: events_sent_def event_of_job_def comp_def)
  qed simp_all
qed

text \<open>
  The guest raises for three reasons only: the task could not be read, and then nothing was written; the
  controller closed the channel; or the result cannot be sent as a frame of UTF-8 and at most 1 MiB, and then
  the wire ends after whole event frames, with no result.
\<close>

theorem guest_raises_only_without_a_result:
  assumes "run_once env exec s = (s', Inl e)" and "0 \<notin> set (ch_accept (rt_channel s))"
  shows "(snd (read_task (rt_channel s)) = Inl e \<and> ch_out (rt_channel s') = ch_out (rt_channel s)) \<or> e = closed_while_writing \<or>
    (\<exists>task result. snd (read_task (rt_channel s)) = Inr task \<and> wr_job_id result = tk_job_id task \<and>
       \<not> transmissible (encode_result result) \<and>
       (ch_accept (rt_channel s') = [] \<or>
        (\<exists>events. events_sent env (tk_job_id task) (ch_out (rt_channel s)) events (ch_out (rt_channel s')))))"
proof (cases "snd (read_task (rt_channel s))")
  case (Inl e')
  then show ?thesis
    using assms(1) by (auto simp: run_once_def on_channel_def read_task_def readline_def Let_def split: prod.splits)
next
  case (Inr task)
  from assms(1) Inr assms(2) obtain s2 result where p: "serving env (tk_job_id task) (ch_out (rt_channel s)) s2"
    "wr_job_id result = tk_job_id task"
    "write_result (ge_encode_text (re_tools env)) (tk_job_id task) result (rt_channel s2) = (rt_channel s', Inl e)"
    by (rule run_once_parts)
  from p(1) have live: "0 \<notin> set (ch_accept (rt_channel s2))" by (simp add: serving_def)
  from p(3) live p(2) show ?thesis
  proof (cases rule: write_result_cases)
    case (refused e' result')
    with p(1) Inr show ?thesis by (auto simp: serving_def)
  qed simp_all
qed

lemma surrogate_in_result: "c \<in> set (wr_summary r) \<Longrightarrow> is_surrogate c \<Longrightarrow> utf8_encode (encode_result r) = None"
proof -
  assume c: "c \<in> set (wr_summary r)" "is_surrogate c"
  then have "55296 \<le> c" by (simp add: is_surrogate_def)
  then have "escape_char False c = [c]" by (simp add: escape_char_def)
  with c(1) have "c \<in> set (dumps False (JStr (wr_summary r)))" by (force simp: print_str_def)
  then have "c \<in> set (encode_result r)" by (auto simp: encode_result_def encode_line_def)
  with c(2) show ?thesis by (auto simp: utf8_encode_def utf8_ok_def is_scalar_def list_all_iff)
qed

text \<open>
  C19: A result whose summary contains a lone surrogate (which a JSON escape in a model reply can produce) is
  lost: the frame cannot be encoded, \<open>_write_result()\<close> handles only the size limit, and \<open>run_once()\<close> raises
  \<open>UnicodeEncodeError\<close> after the events without writing any result.
\<close>

theorem surrogate_result_is_lost:
  assumes "read_task (rt_channel s) = (c1, Inr task)" and "0 \<notin> set (ch_accept (rt_channel s))"
    and "task_body env task exec (s\<lparr>rt_channel := c1, rt_events := 0\<rparr>) = (s2, Inr result)"
    and "c \<in> set (wr_summary result)" and "is_surrogate c"
  shows "\<exists>s'. run_once env (Some exec) s = (s', Inl (OtherExn (u ''UnicodeEncodeError'') (ge_encode_text (re_tools env) (encode_result result)))) \<and>
    rt_channel s' = rt_channel s2"
  by (simp add: run_once_def on_channel_def assms(1, 3) write_result_def write_frame_def surrogate_in_result [OF assms(4, 5)])

section \<open>Witnesses\<close>

definition served_task :: worker_task where
  "served_task = \<lparr>tk_job_id = u ''j'', tk_objective = u ''o'', tk_worker_profile = u ''read-only-worker'', tk_acceptance_criteria = [],
     tk_repository_id = Some (u ''r''), tk_starting_revision = Some (u ''s''), tk_plan = NORMAL\<rparr>"

definition served_manifest :: manifest_file where
  "served_manifest = \<lparr>mf_regular = True, mf_writable = False, mf_uid = 0, mf_content = ascii_bytes (dumps False (JObj
     [(u ''job_id'', JStr (u ''j'')), (u ''repository_id'', JStr (u ''r'')), (u ''starting_revision'', JStr (u ''s'')), (u ''revision'', JStr (u ''v''))]))\<rparr>"

definition served_env :: "unit runtime_env" where
  "served_env = \<lparr>re_tools = small_env (u ''read-only-worker''), re_files = \<lparr>gf_root_writable = False, gf_root_uid = 0, gf_manifest = Some served_manifest,
     gf_repository_ok = True, gf_artifacts_ok = True, gf_require_root = True, gf_posix = True\<rparr>, re_draw = (\<lambda>n. (show_nat n, 0)),
     re_decode_text = (\<lambda>_. []), re_isofmt = show_int\<rparr>"

definition served_channel :: "nat list \<Rightarrow> channel" where
  "served_channel ks = \<lparr>ch_in = frame_bytes (encode_task served_task), ch_out = [], ch_accept = ks\<rparr>"

definition served_runtime :: "nat list \<Rightarrow> unit runtime_state" where
  "served_runtime ks = \<lparr>rt_channel = served_channel ks, rt_events = 0, rt_guest = small_state\<rparr>"

definition served_result :: worker_result where
  "served_result = plain_result (u ''j'') WO_SUBMITTED [55296] None"

definition served_executor :: "worker_task \<Rightarrow> executor" where
  "served_executor task = Done (Inr served_result)"

definition bare_env :: "unit runtime_env" where
  "bare_env = served_env\<lparr>re_files := (re_files served_env)\<lparr>gf_manifest := None\<rparr>\<rparr>"

lemma served_read: "snd (read_task (served_channel ks)) = Inr served_task"
  by code_simp

lemma served_answer: "snd (run_once bare_env None (served_runtime [1000])) = Inr ()"
  by code_simp

lemma served_body:
  "snd (task_body served_env served_task served_executor
     (served_runtime [1000]\<lparr>rt_channel := fst (read_task (served_channel [1000])), rt_events := 0\<rparr>)) = Inr served_result"
  by code_simp

theorem guest_answers_with_one_result_witness:
  "\<exists>s' task (result :: worker_result). run_once bare_env None (served_runtime [1000]) = (s', Inr ()) \<and> snd (read_task (served_channel [1000])) = Inr task \<and>
     wr_job_id result = tk_job_id task"
proof -
  obtain s' where r: "run_once bare_env None (served_runtime [1000]) = (s', Inr ())"
    using served_answer by (cases "run_once bare_env None (served_runtime [1000])") simp
  have "0 \<notin> set (ch_accept (rt_channel (served_runtime [1000])))" by (simp add: served_runtime_def served_channel_def)
  from guest_answers_with_one_result [OF r this] obtain task and result :: worker_result where
    "snd (read_task (rt_channel (served_runtime [1000]))) = Inr task" "wr_job_id result = tk_job_id task" by blast
  with r show ?thesis by (auto simp: served_runtime_def)
qed

theorem guest_raises_only_without_a_result_witness:
  "\<exists>s' e. run_once bare_env None (served_runtime [1000]\<lparr>rt_channel := \<lparr>ch_in = [], ch_out = [], ch_accept = []\<rparr>\<rparr>) = (s', Inl e) \<and> ch_out (rt_channel s') = []"
proof -
  let ?s = "served_runtime [1000]\<lparr>rt_channel := \<lparr>ch_in = [], ch_out = [], ch_accept = []\<rparr>\<rparr>"
  obtain s' e where r: "run_once bare_env None ?s = (s', Inl e)" and rd: "snd (read_task (rt_channel ?s)) = Inl e"
    and e: "e = GuestRuntimeError (u ''controller closed the channel before sending a task'')"
    by (simp add: run_once_def on_channel_def read_task_def readline_def)
  have "0 \<notin> set (ch_accept (rt_channel ?s))" by simp
  from guest_raises_only_without_a_result [OF r this] rd e r show ?thesis by (auto simp: closed_while_writing_def u_eq_iff)
qed

theorem surrogate_result_is_lost_witness:
  "\<exists>s' t. run_once served_env (Some served_executor) (served_runtime [1000]) = (s', Inl (OtherExn (u ''UnicodeEncodeError'') t))"
proof -
  let ?s = "served_runtime [1000]"
  obtain c1 where c1: "read_task (rt_channel ?s) = (c1, Inr served_task)"
    using served_read [of "[1000]"] by (cases "read_task (served_channel [1000])") (simp add: served_runtime_def)
  obtain s2 where b: "task_body served_env served_task served_executor (?s\<lparr>rt_channel := c1, rt_events := 0\<rparr>) = (s2, Inr served_result)"
    using served_body c1
    by (cases "task_body served_env served_task served_executor (?s\<lparr>rt_channel := c1, rt_events := 0\<rparr>)") (simp add: served_runtime_def)
  have live: "0 \<notin> set (ch_accept (rt_channel ?s))" by (simp add: served_runtime_def served_channel_def)
  have c: "55296 \<in> set (wr_summary served_result)" "is_surrogate 55296"
    by (simp_all add: served_result_def plain_result_def is_surrogate_def)
  from surrogate_result_is_lost [OF c1 live b c] show ?thesis by blast
qed

end
