(* ===== verification/ElevatedCommands.thy ===== *)
theory ElevatedCommands
  imports PrivTurn RepoPath
begin

text \<open>
  \<open>runtime/elevated_commands.py\<close> and \<open>tools/system/elevated.py\<close>: a script the model asks to run as
  Administrator.  The gate is the turn of \<open>PrivTurn\<close>; the protected installation, the files and the elevated
  launcher are parameters acting on a world \<open>'w\<close>: what the installation looks like when it is read, what the
  other threads do to the gate while the approval is awaited, and what the launcher reports.
\<close>

section \<open>Validation\<close>

datatype elev_exn = EValue pystr | EUnicode pystr | EHost pystr | EGate pt_error | EOther pystr

definition MAX_TIMEOUT :: int where "MAX_TIMEOUT = 15 * 60"
definition LEGACY_MAX_TIMEOUT :: int where "LEGACY_MAX_TIMEOUT = 60"
definition MAX_SCRIPT_BYTES :: nat where "MAX_SCRIPT_BYTES = 32768"

definition elev_encode :: "pystr \<Rightarrow> elev_exn + bytes" where
  "elev_encode s = (case utf8_encode s of Some b \<Rightarrow> Inr b | None \<Rightarrow> Inl (EUnicode s))"

definition script_error :: elev_exn where
  "script_error = EValue (u ''Provide a nonempty PowerShell script of at most 32768 UTF-8 bytes'')"

definition script_field :: "json \<Rightarrow> elev_exn + pystr" where
  "script_field v = (case v of
     JStr s \<Rightarrow> if strip s = [] \<or> 0 \<in> set s then Inl script_error
       else rbind (elev_encode s) (\<lambda>b. if MAX_SCRIPT_BYTES < length b then Inl script_error else Inr s)
   | _ \<Rightarrow> Inl script_error)"

definition timeout_field :: "json \<Rightarrow> elev_exn + int" where
  "timeout_field v = (case v of
     JInt t \<Rightarrow> if 1 \<le> t \<and> t \<le> MAX_TIMEOUT then Inr t else Inl (EValue (u ''Timeout must be an integer from 1 to 900 seconds''))
   | _ \<Rightarrow> Inl (EValue (u ''Timeout must be an integer from 1 to 900 seconds'')))"

definition reason_field :: "json \<Rightarrow> elev_exn + pystr" where
  "reason_field v = (case v of
     JStr r \<Rightarrow> if strip r = [] \<or> 2000 < length r \<or> 0 \<in> set r
       then Inl (EValue (u ''Provide a purpose/change explanation of at most 2000 characters'')) else Inr r
   | _ \<Rightarrow> Inl (EValue (u ''Provide a purpose/change explanation of at most 2000 characters'')))"

definition validate_script :: "json \<Rightarrow> json \<Rightarrow> json \<Rightarrow> elev_exn + pystr \<times> int \<times> pystr" where
  "validate_script script timeout reason =
     rbind (script_field script) (\<lambda>s. rbind (timeout_field timeout) (\<lambda>t. rbind (reason_field reason) (\<lambda>r. Inr (s, t, r))))"

text \<open>The text of a path that \<open>local_path\<close> accepts, and what the file system says about it.\<close>

definition local_path_text :: "pystr \<Rightarrow> bool" where
  "local_path_text v \<longleftrightarrow> 3 \<le> length v \<and> (is_lower_letter (hd v) \<or> is_upper_letter (hd v)) \<and> v ! 1 = 58 \<and> v ! 2 = 92 \<and>
     length v \<le> 240 \<and> (\<forall>c \<in> set v. c \<notin> {0, 13, 10, 34}) \<and> 58 \<notin> set (drop 2 v) \<and>
     (\<forall>p \<in> set (tl (split_on 92 v)). p \<noteq> u ''.'' \<and> p \<noteq> u ''..'')"

record path_facts =
  pa_canonical :: bool
  pa_present :: bool
  pa_reparse :: bool

definition local_path :: "(pystr \<Rightarrow> path_facts) \<Rightarrow> pystr \<Rightarrow> elev_exn + unit" where
  "local_path facts v =
     rbind (require (local_path_text v) (EValue (u ''Use an absolute canonical local Windows path''))) (\<lambda>_.
     rbind (require (pa_canonical (facts v) \<and> pa_present (facts v)) (EValue (u ''Path is missing or noncanonical''))) (\<lambda>_.
     require (\<not> pa_reparse (facts v)) (EValue (u ''Reparse paths are refused''))))"

section \<open>The installation\<close>

record launcher_files =
  lf_refused :: "pystr option"
  lf_root :: pystr
  lf_powershell :: pystr
  lf_policy :: "(pystr \<times> json) list"
  lf_user_sid :: pystr
  lf_helper :: bytes
  lf_requests :: path_facts

record elev_policy =
  lp_operator_sid :: pystr
  lp_helper_sha256 :: pystr
  lp_max_timeout :: int

definition read_policy :: "launcher_files \<Rightarrow> elev_exn + elev_policy" where
  "read_policy lf = (let d = lf_policy lf in
     if set (map fst d) \<noteq> {u ''version'', u ''operator_sid'', u ''helper_sha256'', u ''max_timeout''} then Inl (EHost (u ''Unexpected elevated launcher policy''))
     else case (map_of d (u ''version''), map_of d (u ''operator_sid''), map_of d (u ''max_timeout''), map_of d (u ''helper_sha256'')) of
       (Some (JInt v), Some (JStr sid), Some (JInt t), Some (JStr h)) \<Rightarrow>
         if v = 1 \<and> sid = lf_user_sid lf \<and> t \<in> {LEGACY_MAX_TIMEOUT, MAX_TIMEOUT} \<and> hex_exactly 64 h
         then Inr \<lparr>lp_operator_sid = sid, lp_helper_sha256 = h, lp_max_timeout = t\<rparr>
         else Inl (EHost (u ''Unexpected elevated launcher policy''))
     | _ \<Rightarrow> Inl (EHost (u ''Unexpected elevated launcher policy'')))"

definition load_launcher :: "(bytes \<Rightarrow> pystr) \<Rightarrow> launcher_files \<Rightarrow> elev_exn + pystr \<times> pystr \<times> elev_policy" where
  "load_launcher sha lf = (case lf_refused lf of
     Some e \<Rightarrow> Inl (EHost e)
   | None \<Rightarrow>
       rbind (read_policy lf) (\<lambda>p.
       rbind (require (length (lf_helper lf) \<le> 65536 \<and> sha (lf_helper lf) = lp_helper_sha256 p)
         (EHost (u ''Elevated launcher differs from installed policy''))) (\<lambda>_.
       rbind (local_path (\<lambda>_. lf_requests lf) (lf_root lf @ [92] @ u ''requests'')) (\<lambda>_.
       Inr (lf_root lf, lf_powershell lf, p)))))"

section \<open>Receipts\<close>

definition opt_int :: "json option \<Rightarrow> bool" where
  "opt_int v \<longleftrightarrow> (case v of None \<Rightarrow> True | Some JNull \<Rightarrow> True | Some (JInt _) \<Rightarrow> True | _ \<Rightarrow> False)"

definition opt_bool :: "json option \<Rightarrow> bool" where
  "opt_bool v \<longleftrightarrow> (case v of None \<Rightarrow> True | Some JNull \<Rightarrow> True | Some (JBool _) \<Rightarrow> True | _ \<Rightarrow> False)"

definition receipt_statuses :: "pystr list" where
  "receipt_statuses = [u ''completed'', u ''failed'', u ''timeout_outcome_unknown'', u ''outcome_unknown'']"

definition invalid_receipt :: elev_exn where
  "invalid_receipt = EHost (u ''Invalid elevated execution receipt; outcome unknown'')"

text \<open>\<open>receipt["exit_code"]\<close>\<close>

definition exit_code_of :: "(pystr \<times> json) list \<Rightarrow> elev_exn + json" where
  "exit_code_of d = (case map_of d (u ''exit_code'') of None \<Rightarrow> Inl (EOther (u ''KeyError'')) | Some v \<Rightarrow> Inr v)"

definition validate_receipt :: "(pystr \<times> json) list \<Rightarrow> priv_claim \<Rightarrow> pystr \<Rightarrow> pystr \<Rightarrow> elev_exn + unit" where
  "validate_receipt d claim digest helper =
     rbind (require (map_of d (u ''version'') = Some (JInt 1) \<and> map_of d (u ''request_id'') = Some (JStr (pc_request_id claim)) \<and>
        map_of d (u ''request_sha256'') = Some (JStr digest) \<and> map_of d (u ''helper_sha256'') = Some (JStr helper) \<and>
        map_of d (u ''operation'') = Some (JStr (u ''elevated_commands'')) \<and>
        (\<exists>s \<in> set receipt_statuses. map_of d (u ''status'') = Some (JStr s)) \<and> opt_bool (map_of d (u ''executed'')) \<and>
        map_of d (u ''effects_verified'') = Some (JBool False)) invalid_receipt) (\<lambda>_.
     rbind (case (map_of d (u ''stdout''), map_of d (u ''stderr'')) of
         (Some (JStr out), Some (JStr err)) \<Rightarrow>
           rbind (elev_encode out) (\<lambda>a. rbind (elev_encode err) (\<lambda>b. require (length a + length b \<le> 150000) invalid_receipt))
       | _ \<Rightarrow> Inl invalid_receipt) (\<lambda>_.
     rbind (require (map_of d (u ''retry_authorized'') = Some (JBool False) \<and>
        map_of d (u ''output_truncated'') \<in> {Some (JBool True), Some (JBool False)} \<and> opt_int (map_of d (u ''exit_code''))) invalid_receipt) (\<lambda>_.
     let status = map_of d (u ''status''); executed = (map_of d (u ''executed'') = Some (JBool True)) in
     rbind (require (status = Some (JStr (u ''outcome_unknown'')) \<or> executed) (EHost (u ''Missing positive execution observation''))) (\<lambda>_.
     if status = Some (JStr (u ''failed'')) then
       rbind (exit_code_of d) (\<lambda>c. require (c \<noteq> JNull \<and> c \<noteq> JInt 0) (EHost (u ''Inconsistent failure receipt'')))
     else if status = Some (JStr (u ''timeout_outcome_unknown'')) then
       rbind (exit_code_of d) (\<lambda>c. require (c = JInt 124) (EHost (u ''Inconsistent timeout receipt'')))
     else if status = Some (JStr (u ''completed'')) then
       rbind (if executed then exit_code_of d else Inr JNull) (\<lambda>c. require (c = JInt 0) (EHost (u ''Inconsistent completion receipt'')))
     else Inr ()))))"

section \<open>Running an approved script\<close>

record elevation =
  el_program :: pystr
  el_helper :: pystr
  el_request_id :: pystr
  el_deadline_unix :: int
  el_request_sha256 :: pystr

text \<open>
  The environment: \<open>ee_rounds\<close> is what the loop of \<open>gate.wait\<close> sees, the clock and the gate at each of its
  rounds, the last being the state of the gate afterwards; \<open>ee_elevate\<close> is the launch through UAC, from
  \<open>ShellExecuteExW\<close> on, with \<open>"completed"\<close>, \<open>"helper_failed"\<close>, \<open>"uac_cancelled"\<close> or \<open>"deadline_outcome_unknown"\<close>.
\<close>

record 'w elev_env =
  ee_windows :: bool
  ee_ctx :: "pystr option"
  ee_sha :: "bytes \<Rightarrow> pystr"
  ee_path :: "'w \<Rightarrow> pystr \<Rightarrow> path_facts"
  ee_files :: "'w \<Rightarrow> launcher_files"
  ee_monotonic :: "'w \<Rightarrow> int"
  ee_time :: "'w \<Rightarrow> int"
  ee_rounds :: "priv_turn \<Rightarrow> 'w \<Rightarrow> (int \<times> priv_turn) list \<times> 'w"
  ee_write :: "pystr \<Rightarrow> bytes \<Rightarrow> 'w \<Rightarrow> 'w \<times> (elev_exn + unit)"
  ee_elevate :: "elevation \<Rightarrow> 'w \<Rightarrow> 'w \<times> (elev_exn + pystr)"
  ee_receipt :: "'w \<Rightarrow> pystr \<Rightarrow> elev_exn + (pystr \<times> json) list"

type_synonym ('w, 'a) elev_act = "(priv_turn \<times> 'w, elev_exn, 'a) act"

definition lift_gate :: "'a pt_act \<Rightarrow> ('w, 'a) elev_act" where
  "lift_gate m = (\<lambda>(g, w). case m g of (g', r) \<Rightarrow> ((g', w), map_sum EGate id r))"

definition lift_world :: "('w \<Rightarrow> 'w \<times> (elev_exn + 'a)) \<Rightarrow> ('w, 'a) elev_act" where
  "lift_world m = (\<lambda>(g, w). case m w of (w', r) \<Rightarrow> ((g, w'), r))"

definition check_world :: "('w \<Rightarrow> elev_exn + 'a) \<Rightarrow> ('w, 'a) elev_act" where
  "check_world f = (\<lambda>(g, w). ((g, w), f w))"

fun decision_value :: "decision \<Rightarrow> pystr" where
  "decision_value DPending = u ''pending''"
| "decision_value DAccepted = u ''accepted''"
| "decision_value DRejected = u ''rejected''"
| "decision_value DExpired = u ''expired''"
| "decision_value DHandedOff = u ''handed_off''"

text \<open>\<open>gate.wait(request)\<close>; rounds without an answer stand for a wait ended by an exception of the thread.\<close>

definition gate_wait :: "'w elev_env \<Rightarrow> pending_privilege \<Rightarrow> ('w, decision) elev_act" where
  "gate_wait env request = (\<lambda>(g, w). case ee_rounds env g w of (rounds, w') \<Rightarrow>
     (((if rounds = [] then g else snd (last rounds)), w'),
      case pt_wait request rounds of
        None \<Rightarrow> Inl (EOther (u ''interrupted''))
      | Some (Inl e) \<Rightarrow> Inl (EGate e)
      | Some (Inr d) \<Rightarrow> Inr d))"

definition await_approval :: "'w elev_env \<Rightarrow> priv_claim \<Rightarrow> (pystr \<times> json) list \<Rightarrow> ('w, pending_privilege \<times> decision) elev_act" where
  "await_approval env claim details =
     (\<lambda>s. abind (lift_gate (pt_submit (ee_sha env) (ee_ctx env) (ee_monotonic env (snd s)) claim details)) (\<lambda>request.
       abind (gate_wait env request) (\<lambda>d. ret (request, d))) s)"

definition script_payload :: "priv_claim \<Rightarrow> elev_policy \<Rightarrow> pystr \<Rightarrow> int \<Rightarrow> pystr \<Rightarrow> pystr \<Rightarrow> (pystr \<times> json) list" where
  "script_payload claim p script timeout reason cwd =
     [(u ''version'', JInt 1), (u ''request_id'', JStr (pc_request_id claim)), (u ''operation'', JStr (pc_operation claim)),
      (u ''deadline_unix'', JInt (pc_deadline_unix claim div second)), (u ''timeout'', JInt timeout), (u ''script'', JStr script),
      (u ''cwd'', JStr cwd), (u ''reason'', JStr reason), (u ''operator_sid'', JStr (lp_operator_sid p)),
      (u ''helper_sha256'', JStr (lp_helper_sha256 p))]"

text \<open>\<open>_elevate\<close> up to the launch: the identifiers on the command line are checked.\<close>

definition elevate :: "'w elev_env \<Rightarrow> pystr \<Rightarrow> pystr \<Rightarrow> priv_claim \<Rightarrow> pystr \<Rightarrow> ('w, pystr) elev_act" where
  "elevate env powershell helper claim digest =
     (\<lambda>s. abind (guard (hex_exactly 32 (pc_request_id claim) \<and> 0 < pc_deadline_unix claim - ee_time env (snd s) \<and>
          pc_deadline_unix claim - ee_time env (snd s) \<le> 1801 * second) (EHost (u ''Privileged turn deadline expired or invalid''))) (\<lambda>_.
       abind (guard (hex_exactly 64 digest) (EHost (u ''Invalid approved request digest''))) (\<lambda>_.
       lift_world (ee_elevate env \<lparr>el_program = powershell, el_helper = helper, el_request_id = pc_request_id claim,
         el_deadline_unix = pc_deadline_unix claim div second, el_request_sha256 = digest\<rparr>))) s)"

definition base_result :: "priv_claim \<Rightarrow> decision \<Rightarrow> pending_privilege \<Rightarrow> (pystr \<times> json) list" where
  "base_result claim d request = [(u ''request_id'', JStr (pc_request_id claim)), (u ''approval'', JStr (decision_value d)),
     (u ''review_sha256'', JStr (pp_review_sha256 request))]"

definition not_executed :: "pystr \<Rightarrow> (pystr \<times> json) list" where
  "not_executed status = [(u ''status'', JStr status), (u ''executed'', JBool False)]"

text \<open>The part after the launch: what the launcher's state and the receipt allow to say.\<close>

definition elevation_report ::
  "'w elev_env \<Rightarrow> priv_claim \<Rightarrow> elev_policy \<Rightarrow> pystr \<Rightarrow> pending_privilege \<Rightarrow> pystr \<Rightarrow> ('w, (pystr \<times> json) list) elev_act" where
  "elevation_report env claim p root request state =
     (let base = base_result claim DAccepted request; path = root @ [92] @ u ''receipts'' @ [92] @ pc_request_id claim @ u ''.result.json'' in
      if state = u ''uac_cancelled'' then ret (base @ not_executed state)
      else if state \<notin> {u ''completed'', u ''helper_failed''}
      then ret (base @ [(u ''status'', JStr (u ''outcome_unknown'')), (u ''execution_state'', JStr state), (u ''effects_verified'', JBool False)])
      else abind (check_world (\<lambda>w. ee_receipt env w path)) (\<lambda>receipt.
        abind (check_world (\<lambda>_. validate_receipt receipt claim (pp_review_sha256 request) (lp_helper_sha256 p))) (\<lambda>_.
        ret (dput (u ''receipt'') (JStr path) (dput (u ''review_sha256'') (JStr (pp_review_sha256 request))
          (dput (u ''approval'') (JStr (u ''accepted'')) receipt))))))"

text \<open>After an accepted approval: everything is read again, the gate hands the request off, the reviewed bytes are written.\<close>

definition hand_off ::
  "'w elev_env \<Rightarrow> priv_claim \<Rightarrow> pystr \<times> pystr \<times> elev_policy \<Rightarrow> pystr \<Rightarrow> pending_privilege \<Rightarrow> ('w, (pystr \<times> json) list) elev_act" where
  "hand_off env claim installed cwd request = (case installed of (root, powershell, p) \<Rightarrow>
     abind (check_world (\<lambda>w. load_launcher (ee_sha env) (ee_files env w))) (\<lambda>again.
     abind (guard (again = installed) (EHost (u ''Installed launcher changed after review''))) (\<lambda>_.
     abind (check_world (\<lambda>w. Inr (pc_deadline_unix claim \<le> ee_time env w))) (\<lambda>late.
     if late then ret (base_result claim DAccepted request @ not_executed (u ''expired''))
     else
       abind (check_world (\<lambda>w. local_path (ee_path env w) cwd)) (\<lambda>_.
       abind (\<lambda>s. lift_gate (pt_require_accepted (ee_ctx env) (ee_monotonic env (snd s)) request) s) (\<lambda>_.
       abind (lift_world (ee_write env (root @ [92] @ u ''requests'' @ [92] @ pc_request_id claim @ u ''.json'')
         (the (utf8_encode (pp_review_json request))))) (\<lambda>_.
       abind (elevate env powershell (root @ [92] @ u ''helper.ps1'') claim (pp_review_sha256 request)) (\<lambda>state.
       elevation_report env claim p root request state)))))))) "

definition run_approved_script ::
  "'w elev_env \<Rightarrow> priv_claim \<Rightarrow> json \<Rightarrow> json \<Rightarrow> json \<Rightarrow> pystr \<Rightarrow> ('w, (pystr \<times> json) list) elev_act" where
  "run_approved_script env claim script timeout reason cwd =
     abind (guard (ee_windows env \<and> pc_operation claim = ELEVATED_OPERATION) (EHost (u ''Windows elevated-command grant required''))) (\<lambda>_.
     abind (check_world (\<lambda>_. validate_script script timeout reason)) (\<lambda>(s, t, r).
     abind (check_world (\<lambda>w. local_path (ee_path env w) cwd)) (\<lambda>_.
     abind (check_world (\<lambda>w. load_launcher (ee_sha env) (ee_files env w))) (\<lambda>installed.
     abind (guard (t \<le> lp_max_timeout (snd (snd installed)))
       (EHost (u ''Requested timeout exceeds installed launcher policy; reviewed deployment required''))) (\<lambda>_.
     abind (await_approval env claim (script_payload claim (snd (snd installed)) s t r cwd)) (\<lambda>(request, d).
     if d \<noteq> DAccepted then ret (base_result claim d request @ not_executed (decision_value d))
     else hand_off env claim installed cwd request))))))"

section \<open>The tool\<close>

definition elev_exn_text :: "(pystr \<Rightarrow> pystr) \<Rightarrow> elev_exn \<Rightarrow> pystr" where
  "elev_exn_text etext e = (case e of EValue t \<Rightarrow> t | EUnicode s \<Rightarrow> etext s | EHost t \<Rightarrow> t | EOther t \<Rightarrow> t | EGate _ \<Rightarrow> [])"

definition run_elevated_shell_command ::
  "'w elev_env \<Rightarrow> (pystr \<Rightarrow> pystr) \<Rightarrow> bool \<Rightarrow> pystr \<Rightarrow> json \<Rightarrow> json \<Rightarrow> json \<Rightarrow> pystr \<Rightarrow> priv_turn \<times> 'w \<Rightarrow> (priv_turn \<times> 'w) \<times> pystr" where
  "run_elevated_shell_command env etext available identity script reason timeout cwd st =
     (if \<not> available then (st, u ''Error: Elevated commands are unavailable in this runtime.'')
      else case validate_script script timeout reason of
        Inl e \<Rightarrow> (st, u ''Error: '' @ elev_exn_text etext e)
      | Inr _ \<Rightarrow>
          (case lift_gate (pt_claim (ee_ctx env) (ee_monotonic env (snd st)) (ee_time env (snd st)) identity ELEVATED_OPERATION) st of
             (st1, Inl e) \<Rightarrow> (st1, u ''Error: Enable Elevated commands for the next turn; each request needs approval and UAC.'')
           | (st1, Inr claim) \<Rightarrow>
               (case run_approved_script env claim script timeout reason cwd st1 of
                  (st2, r) \<Rightarrow> (st2, dumps_indent 0 (sort_keys (JObj (case r of
                    Inr result \<Rightarrow> result
                  | Inl e \<Rightarrow> [(u ''status'', JStr (u ''blocked_or_outcome_unknown'')), (u ''request_id'', JStr (pc_request_id claim)),
                      (u ''effects_verified'', JBool False), (u ''retry_authorized'', JBool False),
                      (u ''reason'', JStr (u ''Review installation and protected receipts; do not infer rollback or retry.''))])))))))"

section \<open>What an elevation rests on\<close>

lemma abind_run: "abind m f s = (s', r) \<Longrightarrow> \<exists>s1 q. m s = (s1, q) \<and>
    (case q of Inl e \<Rightarrow> s' = s1 \<and> r = Inl e | Inr x \<Rightarrow> f x s1 = (s', r))"
  by (cases "m s") (auto simp: abind_def split: sum.splits)

lemma abind_check_world:
  "abind (check_world f) k (g, w) = (case f w of Inl e \<Rightarrow> ((g, w), Inl e) | Inr x \<Rightarrow> k x (g, w))"
  by (simp add: abind_def check_world_def split: sum.splits)

lemma pt_submit_Inr:
  "pt_submit dg ctx now claim d g = (g', Inr request) \<Longrightarrow> pp_claim request = claim \<and> pp_id request = 69 # pc_request_id claim \<and>
     pp_review_json request = review_of d \<and> (\<exists>b. utf8_encode (review_of d) = Some b \<and> pp_review_sha256 request = dg b)"
  by (auto simp: pt_submit_def Let_def split: if_splits option.splits)

lemma require_accepted_Inr:
  "pt_require_accepted ctx now request g = (g', Inr ()) \<Longrightarrow>
     map_of (pt_decisions g) (pp_id request) = Some DAccepted \<and> map_of (pt_requests g) (pp_id request) = Some request \<and>
     live now (pp_claim request) g \<and> map_of (pt_decisions g') (pp_id request) = Some DHandedOff"
  by (auto simp: pt_require_accepted_def split: if_splits)

lemma accepted_by_user:
  assumes "pt_require_accepted ctx now request g = (g', Inr ())" and "pt_history dg h g"
  shows "\<exists>dn. (Decide dn (pp_id request) True, True) \<in> set (since_enter h)"
proof -
  from require_accepted_Inr [OF assms(1)] obtain i where "pt_turn g = Some i" "map_of (pt_decisions g) (pp_id request) = Some DAccepted"
    by (auto simp: live_def)
  with made_by_history [OF assms(2)] show ?thesis unfolding made_by_def by blast
qed

text \<open>The state of a hand-off that launched: the request was accepted and its reviewed bytes were written.\<close>

definition launched :: "'w elev_env \<Rightarrow> priv_claim \<Rightarrow> pending_privilege \<Rightarrow> pystr \<times> pystr \<times> elev_policy \<Rightarrow> priv_turn \<Rightarrow> priv_turn \<Rightarrow> 'w \<Rightarrow> bool" where
  "launched env claim request installed g g' w' \<longleftrightarrow> (\<exists>now w1 w2 el. pt_require_accepted (ee_ctx env) now request g = (g', Inr ()) \<and>
     ee_write env (fst installed @ [92] @ u ''requests'' @ [92] @ pc_request_id claim @ u ''.json'')
       (the (utf8_encode (pp_review_json request))) w1 = (w2, Inr ()) \<and>
     el_request_id el = pc_request_id claim \<and> el_request_sha256 el = pp_review_sha256 request \<and> w' = fst (ee_elevate env el w2))"

text \<open>\<open>I\<close> is kept by everything the outside does before the launch.\<close>

definition before_launch_keeps :: "'w elev_env \<Rightarrow> ('w \<Rightarrow> bool) \<Rightarrow> bool" where
  "before_launch_keeps env I \<longleftrightarrow> (\<forall>n b w. I w \<longrightarrow> I (fst (ee_write env n b w))) \<and> (\<forall>g w. I w \<longrightarrow> I (snd (ee_rounds env g w)))"

lemma hand_off_launched:
  assumes h: "hand_off env claim installed cwd request (g, w) = ((g', w'), r)" and "I w" and "\<not> I w'"
    and keeps: "before_launch_keeps env I"
  shows "launched env claim request installed g g' w'"
proof -
  obtain root powershell p where inst: "installed = (root, powershell, p)" by (metis prod_cases3)
  let ?name = "root @ [92] @ u ''requests'' @ [92] @ pc_request_id claim @ u ''.json''"
  let ?b = "the (utf8_encode (pp_review_json request))"
  let ?rest = "abind (elevate env powershell (root @ [92] @ u ''helper.ps1'') claim (pp_review_sha256 request))
    (elevation_report env claim p root request)"
  have "abind (\<lambda>s. lift_gate (pt_require_accepted (ee_ctx env) (ee_monotonic env (snd s)) request) s) (\<lambda>_.
      abind (lift_world (ee_write env ?name ?b)) (\<lambda>_. ?rest)) (g, w) = ((g', w'), r)"
    using h assms(2, 3) unfolding hand_off_def inst
    by (auto simp: abind_check_world split: sum.splits if_splits)
  from abind_run [OF this] obtain s1 q1 where 1: "lift_gate (pt_require_accepted (ee_ctx env) (ee_monotonic env w) request) (g, w) = (s1, q1)"
    and 2: "case q1 of Inl e \<Rightarrow> (g', w') = s1 \<and> r = Inl e
      | Inr x \<Rightarrow> abind (lift_world (ee_write env ?name ?b)) (\<lambda>_. ?rest) s1 = ((g', w'), r)"
    by auto
  obtain g1 q0 where req: "pt_require_accepted (ee_ctx env) (ee_monotonic env w) request g = (g1, q0)" by (rule prod.exhaust)
  with 1 have s1: "s1 = (g1, w)" "q1 = map_sum EGate id q0" by (auto simp: lift_gate_def)
  from 2 s1 assms(2, 3) have q0: "q0 = Inr ()" by (cases q0) auto
  obtain w2 q2 where wr: "ee_write env ?name ?b w = (w2, q2)" by (rule prod.exhaust)
  have I2: "I w2" using keeps assms(2) wr by (metis before_launch_keeps_def fst_conv)
  have "abind (lift_world (ee_write env ?name ?b)) (\<lambda>_. ?rest) (g1, w) = ((g', w'), r)" using 2 s1 q0 by simp
  from abind_run [OF this] wr I2 assms(3) have q2: "q2 = Inr ()" and rest: "?rest (g1, w2) = ((g', w'), r)"
    by (auto simp: lift_world_def split: sum.splits)
  have report: "elevation_report env claim p root request state s = (s', r') \<Longrightarrow> s' = s" for state s s' r'
    by (auto simp: elevation_report_def abind_def check_world_def Let_def ret_def split: if_splits sum.splits prod.splits)
  from abind_run [OF rest] obtain s3 q3 where el: "elevate env powershell (root @ [92] @ u ''helper.ps1'') claim (pp_review_sha256 request) (g1, w2) = (s3, q3)"
    and after: "case q3 of Inl e \<Rightarrow> (g', w') = s3 \<and> r = Inl e | Inr x \<Rightarrow> elevation_report env claim p root request x s3 = ((g', w'), r)"
    by auto
  have s3: "s3 = (g', w')" using after by (cases q3) (auto dest: report)
  define l where "l = \<lparr>el_program = powershell, el_helper = root @ [92] @ u ''helper.ps1'', el_request_id = pc_request_id claim,
      el_deadline_unix = pc_deadline_unix claim div second, el_request_sha256 = pp_review_sha256 request\<rparr>"
  have "g' = g1 \<and> (w' = w2 \<or> w' = fst (ee_elevate env l w2))"
    using el s3 by (auto simp: elevate_def lift_world_def l_def split: if_splits prod.splits)
  with I2 assms(3) have "g' = g1" "w' = fst (ee_elevate env l w2)" by auto
  with req q0 wr q2 show ?thesis
    unfolding launched_def inst fst_conv
    by (intro exI [of _ "ee_monotonic env w"] exI [of _ w] exI [of _ w2] exI [of _ l]) (simp add: l_def)
qed

lemma field_Inr:
  "script_field v = Inr s \<Longrightarrow> v = JStr s" "timeout_field v = Inr t \<Longrightarrow> v = JInt t \<and> 1 \<le> t" "reason_field v = Inr r \<Longrightarrow> v = JStr r"
  by (auto simp: script_field_def timeout_field_def reason_field_def rbind_Inr_iff split: json.splits if_splits)

lemma validate_script_Inr:
  assumes "validate_script script timeout reason = Inr (s, t, rs)"
  shows "script = JStr s" "timeout = JInt t" "reason = JStr rs" "1 \<le> t"
  using assms by (auto simp: validate_script_def rbind_Inr_iff dest: field_Inr)

lemma run_approved_launched:
  assumes run: "run_approved_script env claim script timeout reason cwd (g, w) = ((g', w'), r)" and "I w" and "\<not> I w'"
    and keeps: "before_launch_keeps env I"
  shows "\<exists>s t rs installed request g1. validate_script script timeout reason = Inr (s, t, rs) \<and> pc_operation claim = ELEVATED_OPERATION \<and>
    load_launcher (ee_sha env) (ee_files env w) = Inr installed \<and> t \<le> lp_max_timeout (snd (snd installed)) \<and> pp_claim request = claim \<and>
    pp_review_json request = review_of (script_payload claim (snd (snd installed)) s t rs cwd) \<and>
    (\<exists>b. utf8_encode (pp_review_json request) = Some b \<and> pp_review_sha256 request = ee_sha env b) \<and>
    launched env claim request installed g1 g' w'"
proof -
  have ne: "(g', w') \<noteq> (x, w)" for x using assms(2, 3) by auto
  obtain s t rs installed where v: "ee_windows env" "pc_operation claim = ELEVATED_OPERATION" "validate_script script timeout reason = Inr (s, t, rs)"
      "load_launcher (ee_sha env) (ee_files env w) = Inr installed" "t \<le> lp_max_timeout (snd (snd installed))"
    and rest: "abind (await_approval env claim (script_payload claim (snd (snd installed)) s t rs cwd)) (\<lambda>(request, d).
     if d \<noteq> DAccepted then ret (base_result claim d request @ not_executed (decision_value d))
     else hand_off env claim installed cwd request) (g, w) = ((g', w'), r)"
  proof (cases "validate_script script timeout reason")
    case (Inl e)
    with run ne show ?thesis by (auto simp: run_approved_script_def abind_check_world split: if_splits)
  next
    case v: (Inr a)
    obtain s t rs where a: "a = (s, t, rs)" by (metis prod_cases3)
    show ?thesis
    proof (cases "rbind (local_path (ee_path env w) cwd) (\<lambda>_. load_launcher (ee_sha env) (ee_files env w))")
      case (Inl e)
      with run ne v a show ?thesis by (auto simp: run_approved_script_def abind_check_world rbind_def split: if_splits sum.splits)
    next
      case (Inr installed)
      then have l: "local_path (ee_path env w) cwd = Inr ()" "load_launcher (ee_sha env) (ee_files env w) = Inr installed"
        by (auto simp: rbind_Inr_iff)
      have ok: "ee_windows env" "pc_operation claim = ELEVATED_OPERATION" "t \<le> lp_max_timeout (snd (snd installed))"
        using run ne v a l by (auto simp: run_approved_script_def abind_check_world split: if_splits)
      show ?thesis
        by (rule that [OF ok(1, 2) v [unfolded a] l(2) ok(3)]) (use run v a l ok in \<open>simp add: run_approved_script_def abind_check_world\<close>)
    qed
  qed
  from abind_run [OF rest] obtain s1 q where aw1: "await_approval env claim (script_payload claim (snd (snd installed)) s t rs cwd) (g, w) = (s1, q)"
    and cont1: "case q of Inl e \<Rightarrow> (g', w') = s1 \<and> r = Inl e
      | Inr x \<Rightarrow> (\<lambda>(request, d). if d \<noteq> DAccepted then ret (base_result claim d request @ not_executed (decision_value d))
         else hand_off env claim installed cwd request) x s1 = ((g', w'), r)"
    by blast
  obtain g1 w1 where s1: "s1 = (g1, w1)" by (rule prod.exhaust)
  note aw = aw1 [unfolded s1] and cont = cont1 [unfolded s1]
  obtain g0 q0 where sub: "pt_submit (ee_sha env) (ee_ctx env) (ee_monotonic env w) claim (script_payload claim (snd (snd installed)) s t rs cwd) g = (g0, q0)"
    by (rule prod.exhaust)
  have q0: "\<exists>request. q0 = Inr request \<and> (\<forall>d request'. q = Inr (request', d) \<longrightarrow> request' = request) \<and> I w1"
  proof (cases q0)
    case (Inl e)
    with aw sub have "w1 = w" "\<exists>e. q = Inl e" by (auto simp: await_approval_def lift_gate_def abind_def)
    with cont assms(2, 3) show ?thesis by auto
  next
    case (Inr request)
    with aw sub have "abind (gate_wait env request) (\<lambda>d. ret (request, d)) (g0, w) = ((g1, w1), q)"
      by (simp add: await_approval_def lift_gate_def abind_def)
    then show ?thesis
      using Inr assms(2) keeps unfolding before_launch_keeps_def
      by (auto simp: gate_wait_def abind_def ret_def split: prod.splits option.splits sum.splits) (metis snd_conv)+
  qed
  then obtain request where request: "q0 = Inr request" "\<And>d request'. q = Inr (request', d) \<Longrightarrow> request' = request" "I w1" by blast
  from cont request(3) assms(3) obtain d request' where q: "q = Inr (request', d)" by (cases q) auto
  then have q: "q = Inr (request, d)" using request(2) by blast
  have "d = DAccepted" using cont q request(3) assms(3) by (auto split: if_splits)
  then have "hand_off env claim installed cwd request (g1, w1) = ((g', w'), r)" using cont q by simp
  from hand_off_launched [OF this request(3) assms(3) keeps] have "launched env claim request installed g1 g' w'" .
  with v pt_submit_Inr [OF sub [unfolded request(1)]] show ?thesis by metis
qed


section \<open>What a result says\<close>

lemma decision_value_not_completed [simp]: "decision_value d \<noteq> u ''completed''"
  by (cases d) (simp_all add: u_eq_iff)

lemma status_of_base [simp]: "map_of (base_result claim d request) (u ''status'') = None"
  by (simp add: base_result_def)

lemma status_not_executed [simp]: "map_of (not_executed x) (u ''status'') = Some (JStr x)"
  by (simp add: not_executed_def)

lemma validate_receipt_completed:
  assumes "validate_receipt d claim digest helper = Inr ()" and "map_of d (u ''status'') = Some (JStr (u ''completed''))"
  shows "map_of d (u ''executed'') = Some (JBool True) \<and> map_of d (u ''exit_code'') = Some (JInt 0) \<and>
    map_of d (u ''request_id'') = Some (JStr (pc_request_id claim)) \<and> map_of d (u ''request_sha256'') = Some (JStr digest) \<and>
    map_of d (u ''helper_sha256'') = Some (JStr helper) \<and> map_of d (u ''effects_verified'') = Some (JBool False) \<and>
    map_of d (u ''retry_authorized'') = Some (JBool False)"
  using assms unfolding validate_receipt_def
  by (auto simp: Let_def u_eq_iff exit_code_of_def rbind_Inr_iff split: option.splits if_splits)

lemma elevation_report_completed:
  assumes "elevation_report env claim p root request state s = (s', Inr out)" and "map_of out (u ''status'') = Some (JStr (u ''completed''))"
  shows "\<exists>d. validate_receipt d claim (pp_review_sha256 request) (lp_helper_sha256 p) = Inr () \<and>
    map_of d (u ''status'') = Some (JStr (u ''completed'')) \<and> (\<forall>k. k \<notin> {u ''receipt'', u ''review_sha256'', u ''approval''} \<longrightarrow> map_of out k = map_of d k)"
proof -
  obtain d where v: "validate_receipt d claim (pp_review_sha256 request) (lp_helper_sha256 p) = Inr ()"
    and out: "out = dput (u ''receipt'') (JStr (root @ [92] @ u ''receipts'' @ [92] @ pc_request_id claim @ u ''.result.json''))
      (dput (u ''review_sha256'') (JStr (pp_review_sha256 request)) (dput (u ''approval'') (JStr (u ''accepted'')) d))"
    using assms
    by (cases s) (auto simp: elevation_report_def abind_check_world Let_def map_add_def split: if_splits sum.splits)
  have "\<forall>k. k \<notin> {u ''receipt'', u ''review_sha256'', u ''approval''} \<longrightarrow> map_of out k = map_of d k"
    by (simp add: out)
  moreover have "u ''status'' \<notin> {u ''receipt'', u ''review_sha256'', u ''approval''}" by (simp add: u_eq_iff)
  ultimately show ?thesis using v assms(2) by metis
qed

lemma hand_off_completed:
  assumes h: "hand_off env claim (root, powershell, p) cwd request s = (s', Inr out)" and "map_of out (u ''status'') = Some (JStr (u ''completed''))"
  shows "\<exists>state s1. elevation_report env claim p root request state s1 = (s', Inr out)"
proof -
  obtain g w where s: "s = (g, w)" by (rule prod.exhaust)
  have "abind (\<lambda>s. lift_gate (pt_require_accepted (ee_ctx env) (ee_monotonic env (snd s)) request) s) (\<lambda>_.
       abind (lift_world (ee_write env (root @ [92] @ u ''requests'' @ [92] @ pc_request_id claim @ u ''.json'')
         (the (utf8_encode (pp_review_json request))))) (\<lambda>_.
       abind (elevate env powershell (root @ [92] @ u ''helper.ps1'') claim (pp_review_sha256 request)) (\<lambda>state.
       elevation_report env claim p root request state))) (g, w) = (s', Inr out)"
    using h assms(2) unfolding hand_off_def s
    by (auto simp: abind_check_world map_add_def split: sum.splits if_splits)
  then show ?thesis unfolding abind_Inr_iff by blast
qed


section \<open>Witnesses\<close>

text \<open>The world is whether anything was launched; the user accepts; digests are all zeros.\<close>

abbreviation zero_digest :: pystr where
  "zero_digest \<equiv> replicate 64 48"

definition sample_claim :: priv_claim where
  "sample_claim = \<lparr>pc_request_id = replicate 32 49, pc_deadline_unix = 100 * second, pc_operation = ELEVATED_OPERATION\<rparr>"

definition sample_gate :: priv_turn where
  "sample_gate = pt_init\<lparr>pt_turn := Some (u ''t''), pt_deadline := 100 * second, pt_operation := ELEVATED_OPERATION,
     pt_claims := [(replicate 32 49, sample_claim)]\<rparr>"

definition sample_files :: launcher_files where
  "sample_files = \<lparr>lf_refused = None, lf_root = u ''C:'' @ [92] @ u ''h'', lf_powershell = u ''ps'',
     lf_policy = [(u ''version'', JInt 1), (u ''operator_sid'', JStr (u ''S'')), (u ''helper_sha256'', JStr zero_digest), (u ''max_timeout'', JInt 60)],
     lf_user_sid = u ''S'', lf_helper = [], lf_requests = \<lparr>pa_canonical = True, pa_present = True, pa_reparse = False\<rparr>\<rparr>"

definition sample_receipt :: "(pystr \<times> json) list" where
  "sample_receipt = [(u ''version'', JInt 1), (u ''request_id'', JStr (replicate 32 49)), (u ''request_sha256'', JStr zero_digest),
     (u ''helper_sha256'', JStr zero_digest), (u ''operation'', JStr (u ''elevated_commands'')), (u ''status'', JStr (u ''completed'')),
     (u ''executed'', JBool True), (u ''effects_verified'', JBool False), (u ''stdout'', JStr []), (u ''stderr'', JStr []),
     (u ''retry_authorized'', JBool False), (u ''output_truncated'', JBool False), (u ''exit_code'', JInt 0)]"

definition sample_env :: "bool elev_env" where
  "sample_env = \<lparr>ee_windows = True, ee_ctx = Some (u ''t''), ee_sha = (\<lambda>_. zero_digest),
     ee_path = (\<lambda>_ _. \<lparr>pa_canonical = True, pa_present = True, pa_reparse = False\<rparr>), ee_files = (\<lambda>_. sample_files),
     ee_monotonic = (\<lambda>_. 5), ee_time = (\<lambda>_. 5), ee_rounds = (\<lambda>g w. ([(5, fst (pt_decide 5 (69 # replicate 32 49) True g))], w)),
     ee_write = (\<lambda>_ _ w. (w, Inr ())), ee_elevate = (\<lambda>_ w. (True, Inr (u ''completed''))), ee_receipt = (\<lambda>_ _. Inr sample_receipt)\<rparr>"

definition sample_run :: "(priv_turn \<times> bool) \<times> (elev_exn + (pystr \<times> json) list)" where
  "sample_run = run_approved_script sample_env sample_claim (JStr (u ''x'')) (JInt 5) (JStr (u ''y'')) (u ''C:'' @ [92]) (sample_gate, False)"

lemma sample_launches: "snd (fst sample_run)"
  by code_simp

lemma sample_completes: "\<exists>out. snd sample_run = Inr out \<and> map_of out (u ''status'') = Some (JStr (u ''completed''))"
proof -
  have "(case snd sample_run of Inr out \<Rightarrow> map_of out (u ''status'') = Some (JStr (u ''completed'')) | _ \<Rightarrow> False)"
    by code_simp
  then show ?thesis by (auto split: sum.splits)
qed



end
