(* ===== verification/ChatHistory.thy ===== *)
theory ChatHistory
  imports AgentLoop EditStore
begin

text \<open>
  \<open>runtime/chat_store.py\<close> and \<open>core/tool_artifacts.py\<close>: the persistent chat history, three files of one JSON
  object per line under a directory, on the files of \<open>FileSystem\<close>.  Identifiers and the time are arguments;
  the lock makes each operation one step.  The background index is not modelled: scheduling it reads nothing
  back, and its failure is only logged.
\<close>

section \<open>Values\<close>

datatype chat_error = CValue pystr | CRuntime pystr | CType | COs os_error

record chat_session_summary =
  cs_session_id :: pystr
  cs_created_at :: pystr
  cs_updated_at :: pystr
  cs_title :: pystr
  cs_turn_count :: nat
  cs_cwd_at_start :: pystr
  cs_provider_label :: pystr
  cs_model :: pystr

text \<open>
  The store's directory, \<open>os.linesep\<close>, \<open>str\<close> of a decoded value that is not a string, and \<open>int\<close> of a decoded
  string or float.
\<close>

record chat_env =
  ch_root :: path
  ch_linesep :: pystr
  ch_str :: "json \<Rightarrow> pystr"
  ch_int :: "json \<Rightarrow> int option"

definition sessions_path :: "chat_env \<Rightarrow> path" where
  "sessions_path e = ch_root e @ [u ''sessions.jsonl'']"

definition original_turns_path :: "chat_env \<Rightarrow> path" where
  "original_turns_path e = ch_root e @ [u ''turns_original.jsonl'']"

definition working_turns_path :: "chat_env \<Rightarrow> path" where
  "working_turns_path e = ch_root e @ [u ''turns_working.jsonl'']"

definition DEFAULT_CHAT_TURN_LIMIT :: int where
  "DEFAULT_CHAT_TURN_LIMIT = 32"

type_synonym 'a chat_act = "(fs, chat_error, 'a) act"

definition on_files :: "'a fs_act \<Rightarrow> 'a chat_act" where
  "on_files m = (\<lambda>fs. case m fs of (fs', r) \<Rightarrow> (fs', map_sum COs id r))"

section \<open>Lines of JSON\<close>

text \<open>\<open>open("a")\<close> creates a missing file; a text that cannot be encoded is not written.\<close>

definition append_text :: "pystr \<Rightarrow> path \<Rightarrow> pystr \<Rightarrow> unit fs_act" where
  "append_text sep p s = (\<lambda>fs.
     let add = (\<lambda>old fs. case utf8_encode (to_linesep sep s) of
         None \<Rightarrow> (fs(p \<mapsto> File old), Inl (EncodeFailure s))
       | Some b \<Rightarrow> (fs(p \<mapsto> File (old @ b)), Inr ()))
     in case fs p of
       Some Dir \<Rightarrow> (fs, Inl (IsADirectory p))
     | Some (File old) \<Rightarrow> add old fs
     | None \<Rightarrow> if is_dir fs (butlast p) then add [] fs else (fs, Inl (missing fs p)))"

definition record_line :: "(pystr \<times> json) list \<Rightarrow> pystr" where
  "record_line r = dumps_text (sort_keys (JObj r)) @ [10]"

definition append_jsonl :: "chat_env \<Rightarrow> path \<Rightarrow> (pystr \<times> json) list \<Rightarrow> unit chat_act" where
  "append_jsonl e p r =
     abind (on_files (mkdir_parents (ch_root e))) (\<lambda>_. on_files (append_text (ch_linesep e) p (record_line r)))"

definition parse_line :: "pystr \<Rightarrow> (pystr \<times> json) list option" where
  "parse_line l = (let s = strip l in
     if s = [] then None else case json_loads s of Some (JObj r) \<Rightarrow> Some r | _ \<Rightarrow> None)"

definition read_jsonl :: "path \<Rightarrow> (pystr \<times> json) list list chat_act" where
  "read_jsonl p =
     abind (reads (\<lambda>fs. exists_path fs p)) (\<lambda>present.
     if \<not> present then ret []
     else abind (on_files (read_text p)) (\<lambda>t. ret (List.map_filter parse_line (split_on 10 t))))"

section \<open>Recording\<close>

definition assert_no_unhandled_tool_call_markup :: "pystr \<Rightarrow> unit chat_act" where
  "assert_no_unhandled_tool_call_markup t =
     guard (\<not> contains (lower t) (u ''<tool_call>'') \<and> \<not> contains (lower t) (u ''</tool_call>''))
       (CRuntime (u ''Unhandled <tool_call> markup reached assistant_final. Textual tool calls must be parsed, executed, and stripped before chat history is persisted.''))"

record chat_view =
  cv_cwd :: pystr
  cv_provider_key :: pystr
  cv_provider_label :: pystr
  cv_model :: pystr
  cv_api_type :: pystr
  cv_include_diff :: json
  cv_edits :: edit_state

definition state_snapshot :: "chat_view option \<Rightarrow> (pystr \<times> json) list" where
  "state_snapshot v = (case v of None \<Rightarrow> [] | Some c \<Rightarrow>
     [(u ''cwd'', JStr (cv_cwd c)), (u ''provider_key'', JStr (cv_provider_key c)),
      (u ''provider_label'', JStr (cv_provider_label c)), (u ''model'', JStr (cv_model c)),
      (u ''api_type'', JStr (cv_api_type c)), (u ''include_diff'', cv_include_diff c),
      (u ''pending_edit_count'', JInt (int (length (pending_edits (cv_edits c)))))])"

definition session_record :: "pystr \<Rightarrow> pystr \<Rightarrow> chat_view option \<Rightarrow> pystr \<Rightarrow> (pystr \<times> json) list" where
  "session_record identity now v heading =
     [(u ''type'', JStr (u ''session_created'')), (u ''session_id'', JStr identity), (u ''created_at'', JStr now),
      (u ''updated_at'', JStr now), (u ''title'', JStr heading), (u ''state'', JObj (state_snapshot v))]"

definition new_session :: "chat_env \<Rightarrow> pystr \<Rightarrow> pystr \<Rightarrow> chat_view option \<Rightarrow> pystr \<Rightarrow> pystr chat_act" where
  "new_session e identity now v heading =
     abind (append_jsonl e (sessions_path e) (session_record identity now v heading)) (\<lambda>_. ret identity)"

definition is_turn_of :: "pystr \<Rightarrow> (pystr \<times> json) list \<Rightarrow> bool" where
  "is_turn_of sid r \<longleftrightarrow> map_of r (u ''session_id'') = Some (JStr sid) \<and> map_of r (u ''type'') = Some (JStr (u ''turn''))"

definition next_turn_index :: "chat_env \<Rightarrow> pystr \<Rightarrow> nat chat_act" where
  "next_turn_index e sid =
     abind (read_jsonl (original_turns_path e)) (\<lambda>rs. ret (length (filter (is_turn_of sid) rs) + 1))"

definition original_turn :: "pystr \<Rightarrow> nat \<Rightarrow> pystr \<Rightarrow> pystr \<Rightarrow> pystr \<Rightarrow> chat_view option \<Rightarrow> (pystr \<times> json) list" where
  "original_turn sid n now user assistant v =
     [(u ''type'', JStr (u ''turn'')), (u ''stream'', JStr (u ''original'')), (u ''session_id'', JStr sid),
      (u ''turn_index'', JInt (int n)), (u ''created_at'', JStr now), (u ''user'', JStr user),
      (u ''assistant_final'', JStr assistant), (u ''state'', JObj (state_snapshot v))]"

definition working_turn :: "pystr \<Rightarrow> nat \<Rightarrow> pystr \<Rightarrow> pystr \<Rightarrow> pystr \<Rightarrow> chat_view option \<Rightarrow> (pystr \<times> json) list" where
  "working_turn sid n now user assistant v =
     [(u ''type'', JStr (u ''turn'')), (u ''stream'', JStr (u ''working'')), (u ''session_id'', JStr sid),
      (u ''turn_index'', JInt (int n)), (u ''created_at'', JStr now), (u ''source'', JStr (u ''original'')),
      (u ''source_turn_index'', JInt (int n)), (u ''user'', JStr user),
      (u ''assistant_final'', JStr assistant), (u ''state'', JObj (state_snapshot v))]"

definition append_turn :: "chat_env \<Rightarrow> pystr \<Rightarrow> pystr \<Rightarrow> pystr \<Rightarrow> pystr \<Rightarrow> chat_view option \<Rightarrow> nat chat_act" where
  "append_turn e sid now user assistant v =
     abind (guard (sid \<noteq> []) (CValue (u ''session_id must not be empty''))) (\<lambda>_.
     abind (assert_no_unhandled_tool_call_markup assistant) (\<lambda>_.
     abind (next_turn_index e sid) (\<lambda>n.
     abind (append_jsonl e (original_turns_path e) (original_turn sid n now user assistant v)) (\<lambda>_.
     abind (append_jsonl e (working_turns_path e) (working_turn sid n now user assistant v)) (\<lambda>_.
     ret n)))))"

section \<open>Reading\<close>

text \<open>\<open>int(item.get("turn_index", 0))\<close>\<close>

definition turn_number :: "chat_env \<Rightarrow> (pystr \<times> json) list \<Rightarrow> chat_error + int" where
  "turn_number e r = (case map_of r (u ''turn_index'') of
     None \<Rightarrow> Inr 0
   | Some (JInt i) \<Rightarrow> Inr i
   | Some (JBool b) \<Rightarrow> Inr (of_bool b)
   | Some (JStr s) \<Rightarrow> (case ch_int e (JStr s) of Some i \<Rightarrow> Inr i | None \<Rightarrow> Inl (CValue (u ''invalid literal'')))
   | Some (JFloat f) \<Rightarrow> (case ch_int e (JFloat f) of Some i \<Rightarrow> Inr i | None \<Rightarrow> Inl (CValue (u ''cannot convert float'')))
   | Some _ \<Rightarrow> Inl CType)"

text \<open>\<open>xs[-limit:]\<close> when the limit is positive, all of them otherwise.\<close>

definition latest :: "int \<Rightarrow> 'a list \<Rightarrow> 'a list" where
  "latest limit xs = (if 0 < limit then drop (length xs - nat limit) xs else xs)"

definition load_original_turns :: "chat_env \<Rightarrow> pystr \<Rightarrow> int \<Rightarrow> (pystr \<times> json) list list chat_act" where
  "load_original_turns e sid limit =
     abind (read_jsonl (original_turns_path e)) (\<lambda>rs.
     case map_res (\<lambda>r. rbind (turn_number e r) (\<lambda>n. Inr (n, r))) (filter (is_turn_of sid) rs) of
       Inl x \<Rightarrow> throw x
     | Inr ts \<Rightarrow> ret (latest limit (map snd (sort_key fst ts))))"

definition str_of :: "chat_env \<Rightarrow> json \<Rightarrow> pystr" where
  "str_of e v = (case v of JStr s \<Rightarrow> s | _ \<Rightarrow> ch_str e v)"

text \<open>\<open>str(d.get(k, default))\<close> with a default that is a string already.\<close>

definition str_get :: "chat_env \<Rightarrow> (pystr \<times> json) list \<Rightarrow> pystr \<Rightarrow> pystr \<Rightarrow> pystr" where
  "str_get e d k dflt = (case map_of d k of None \<Rightarrow> dflt | Some v \<Rightarrow> str_of e v)"

definition state_of :: "(pystr \<times> json) list \<Rightarrow> (pystr \<times> json) list" where
  "state_of r = (case map_of r (u ''state'') of Some (JObj s) \<Rightarrow> s | _ \<Rightarrow> [])"

definition add_session :: "chat_env \<Rightarrow> (pystr \<times> json) list \<Rightarrow> (pystr, chat_session_summary) dict \<Rightarrow> (pystr, chat_session_summary) dict" where
  "add_session e r d =
     (if map_of r (u ''type'') \<noteq> Some (JStr (u ''session_created'')) then d
      else let sid = str_get e r (u ''session_id'') [] in
        if sid = [] then d
        else let s = state_of r in dput sid
          \<lparr>cs_session_id = sid, cs_created_at = str_get e r (u ''created_at'') [],
           cs_updated_at = str_get e r (u ''updated_at'') (str_get e r (u ''created_at'') []),
           cs_title = str_get e r (u ''title'') [], cs_turn_count = 0, cs_cwd_at_start = str_get e s (u ''cwd'') [],
           cs_provider_label = str_get e s (u ''provider_label'') [], cs_model = str_get e s (u ''model'') []\<rparr> d)"

definition count_turn :: "chat_env \<Rightarrow> (pystr \<times> json) list \<Rightarrow> (pystr, chat_session_summary) dict \<Rightarrow> (pystr, chat_session_summary) dict" where
  "count_turn e r d = (let sid = str_get e r (u ''session_id'') [] in case map_of d sid of
     None \<Rightarrow> d
   | Some c \<Rightarrow>
       let s = state_of r; label = strip (str_get e s (u ''provider_label'') []); model = strip (str_get e s (u ''model'') []) in
       dput sid (c\<lparr>cs_turn_count := Suc (cs_turn_count c), cs_updated_at := str_get e r (u ''created_at'') (cs_updated_at c),
         cs_provider_label := (if label = [] then cs_provider_label c else label),
         cs_model := (if model = [] then cs_model c else model)\<rparr>) d)"

text \<open>\<open>sort(key=updated_at, reverse=True)\<close> keeps the order of equal keys.\<close>

definition newest_first :: "chat_session_summary list \<Rightarrow> chat_session_summary list" where
  "newest_first ss = rev (sort_key cs_updated_at (rev ss))"

definition list_sessions :: "chat_env \<Rightarrow> int \<Rightarrow> chat_session_summary list chat_act" where
  "list_sessions e limit =
     abind (read_jsonl (sessions_path e)) (\<lambda>ss.
     abind (read_jsonl (original_turns_path e)) (\<lambda>ts.
     let found = newest_first (map snd (fold (count_turn e) ts (fold (add_session e) ss []))) in
     ret (if 0 < limit then take (nat limit) found else found)))"

definition session_line :: "chat_session_summary \<Rightarrow> pystr" where
  "session_line s = take 12 (cs_session_id s) @ u '' | turns='' @ show_nat (cs_turn_count s) @ u '' | updated='' @
     cs_updated_at s @ u '' | '' @ cs_provider_label s @ u '' / '' @ cs_model s @
     (if cs_title s = [] then [] else [32, 8212, 32] @ cs_title s)"

definition format_session_list :: "chat_env \<Rightarrow> int \<Rightarrow> pystr chat_act" where
  "format_session_list e limit =
     abind (list_sessions e limit) (\<lambda>ss.
     ret (if ss = [] then u ''No chat history yet.''
       else join [10] (u ''Recent chat sessions:'' # map session_line ss)))"

section \<open>The session of the running agent\<close>

definition is_internal_tool_artifact :: "pystr \<Rightarrow> bool" where
  "is_internal_tool_artifact t = (let s = strip t in
     starts_with s (u ''NATIVE TOOL CALL REQUEST:'') \<or> starts_with s (u ''TOOL RESULT'') \<or>
     starts_with s (u ''{\"action\":'') \<or> starts_with s (u ''{\"tool_calls\":''))"

text \<open>The state is \<open>chat_session_id\<close> beside the files.\<close>

type_synonym 'a run_act = "(pystr option \<times> fs, chat_error, 'a) act"

definition on_store :: "'a chat_act \<Rightarrow> 'a run_act" where
  "on_store m = (\<lambda>(sid, fs). case m fs of (fs', r) \<Rightarrow> ((sid, fs'), r))"

definition start_new_chat :: "chat_env \<Rightarrow> pystr \<Rightarrow> pystr \<Rightarrow> chat_view \<Rightarrow> pystr \<Rightarrow> pystr run_act" where
  "start_new_chat e identity now v heading =
     abind (on_store (new_session e identity now (Some v) heading)) (\<lambda>sid.
     abind (writes (\<lambda>(_, fs). (Some sid, fs))) (\<lambda>_. ret sid))"

definition ensure_chat_session :: "chat_env \<Rightarrow> pystr \<Rightarrow> pystr \<Rightarrow> chat_view \<Rightarrow> pystr run_act" where
  "ensure_chat_session e identity now v =
     abind (reads fst) (\<lambda>current. case current of
       Some (c # cs) \<Rightarrow> ret (c # cs)
     | _ \<Rightarrow> start_new_chat e identity now v [])"

definition record_final_turn :: "chat_env \<Rightarrow> pystr \<Rightarrow> pystr \<Rightarrow> chat_view \<Rightarrow> pystr \<Rightarrow> pystr \<Rightarrow> nat run_act" where
  "record_final_turn e identity now v user assistant =
     abind (ensure_chat_session e identity now v) (\<lambda>sid.
     on_store (append_turn e sid now user (if is_internal_tool_artifact assistant then [] else assistant) (Some v)))"

section \<open>A line holds one record\<close>

text \<open>What the store writes: objects with distinct keys, no floats.\<close>

fun plain :: "json \<Rightarrow> bool" where
  "plain (JArr js) = list_all plain js"
| "plain (JObj ms) = (dict_ok ms \<and> list_all (\<lambda>(k, j). plain j) ms)"
| "plain (JFloat f) = False"
| "plain j = True"

lemma plain_printable: "plain j \<Longrightarrow> printable False j"
  by (induction j rule: plain.induct) (fastforce simp: list_all_iff)+

lemma plain_dicts: "plain j \<Longrightarrow> dicts_ok j"
  by (induction j rule: plain.induct) (fastforce simp: list_all_iff)+

lemma plain_sort_keys: "plain j \<Longrightarrow> plain (sort_keys j)"
proof (induction j rule: sort_keys.induct)
  case (2 ms)
  have "map fst (map (\<lambda>(k, j). (k, sort_keys j)) ms) = map fst ms" by auto
  with 2 show ?case
    by (fastforce simp: dict_ok_def list_all_iff distinct_sort_key_fst comp_def split_beta)
qed (auto simp: list_all_iff)

lemma skip_space [simp]: "skip_ws (32 # s) = skip_ws s"
  by (simp add: skip_ws_def is_ws_def)

lemma opens_text: "plain j \<Longrightarrow> opens (dumps_text j)"
  by (cases j) (auto simp: opens_show_int, simp_all add: opens_def u_def print_str_def is_ws_def)

definition reads_back :: "json \<Rightarrow> bool" where
  "reads_back j \<longleftrightarrow> opens (dumps_text j) \<and> (\<forall>r. stops r \<longrightarrow> pval (dumps_text j @ r) = Some (j, r))"

lemma u_separators: "u '', '' = [44, 32]" "u '': '' = [58, 32]"
  by (simp_all add: u_def)

lemma opens_Cons: "opens s \<Longrightarrow> \<exists>c t. s = c # t \<and> c \<noteq> 93 \<and> c \<noteq> 125"
  by (cases s) (simp_all add: opens_def)

lemma opens_join: "js \<noteq> [] \<Longrightarrow> opens (f (hd js)) \<Longrightarrow> opens (join sep (map f js))"
proof (cases js)
  case (Cons j ks)
  assume "opens (f (hd js))"
  with Cons show ?thesis by (cases ks) (auto simp: opens_def)
qed simp

lemma pelems_join:
  "js \<noteq> [] \<Longrightarrow> \<forall>j \<in> set js. reads_back j \<Longrightarrow> pelems (join (u '', '') (map dumps_text js) @ 93 # r) = Some (js, r)"
proof (induction js rule: list_nonempty_induct)
  case (single j)
  then have "pval (dumps_text j @ 93 # r) = Some (j, 93 # r)" by (simp add: reads_back_def)
  then show ?case using pelems_Cons [of "dumps_text j @ 93 # r" j "93 # r" 93 r] by simp
next
  case (cons j js)
  let ?t = "join (u '', '') (map dumps_text js)"
  from cons have v: "pval (dumps_text j @ 44 # 32 # ?t @ 93 # r) = Some (j, 44 # 32 # ?t @ 93 # r)" by (simp add: reads_back_def)
  from cons have "opens ?t" by (intro opens_join) (auto simp: reads_back_def)
  then have "skip_ws (?t @ 93 # r) = ?t @ 93 # r" by (rule opens_skip)
  with cons show ?case
    using pelems_Cons [OF v, of 44 "32 # ?t @ 93 # r"] by (simp add: join_Cons u_separators)
qed

lemma pmembers_spaced:
  assumes "reads_back j" and "e \<in> {44, 125}"
  shows "pmembers (print_str False k @ 58 # 32 # dumps_text j @ e # q) =
    (if e = 125 then Some ([(k, j)], q)
     else map_option (\<lambda>(ms, z). ((k, j) # ms, z)) (pmembers (skip_ws q)))"
proof -
  let ?v = "dumps_text j"
  have "scan_str (concat (map (escape_char False) k) @ 34 # 58 # 32 # ?v @ e # q) = Some (k, 58 # 32 # ?v @ e # q)"
    by (rule scan_str_print) simp
  moreover have "skip_ws (?v @ e # q) = ?v @ e # q" using assms(1) by (intro opens_skip) (simp add: reads_back_def)
  moreover have p: "pval (?v @ e # q) = Some (j, e # q)"
    using assms by (auto simp: reads_back_def)
  moreover have "length (e # q) < length (?v @ e # q)" by (rule pval_length [OF p])
  ultimately show ?thesis
    using assms(2) by (auto simp: pmembers.simps(2) print_str_def)
qed

abbreviation member_text :: "pystr \<times> json \<Rightarrow> pystr" where
  "member_text \<equiv> \<lambda>(k, j). print_str False k @ u '': '' @ dumps_text j"

lemma opens_member: "opens (member_text m)"
  by (cases m) (simp add: opens_def print_str_def)

lemma pmembers_join:
  "ms \<noteq> [] \<Longrightarrow> \<forall>(k, j) \<in> set ms. reads_back j \<Longrightarrow> pmembers (join (u '', '') (map member_text ms) @ 125 # r) = Some (ms, r)"
proof (induction ms rule: list_nonempty_induct)
  case (single m)
  then show ?case by (cases m) (simp add: pmembers_spaced u_separators)
next
  case (cons m ms)
  obtain k j where m: "m = (k, j)" by (cases m)
  let ?t = "join (u '', '') (map member_text ms)"
  from cons have "opens ?t" by (intro opens_join opens_member)
  then have "skip_ws (?t @ 125 # r) = ?t @ 125 # r" by (rule opens_skip)
  with cons show ?case by (simp add: m join_Cons u_separators pmembers_spaced)
qed

lemma reads_back_plain: "plain j \<Longrightarrow> reads_back j"
proof (induction j rule: plain.induct)
  case (1 js)
  have "pval (dumps_text (JArr js) @ r) = Some (JArr js, r)" if "stops r" for r
  proof (cases "js = []")
    case False
    let ?t = "join (u '', '') (map dumps_text js)"
    from 1 have rb: "\<forall>j \<in> set js. reads_back j" by (auto simp: list_all_iff)
    with False have o: "opens ?t" by (intro opens_join) (auto simp: reads_back_def)
    then obtain c t where ct: "?t = c # t" "c \<noteq> 93" using opens_Cons by blast
    from opens_skip [OF o, of "93 # r"] pelems_join [OF False rb, of r] show ?thesis by (simp add: ct)
  qed simp
  moreover have "opens (dumps_text (JArr js))" using 1(2) by (rule opens_text)
  ultimately show ?case unfolding reads_back_def by blast
next
  case (2 ms)
  have "pval (dumps_text (JObj ms) @ r) = Some (JObj ms, r)" if "stops r" for r
  proof (cases "ms = []")
    case False
    let ?t = "join (u '', '') (map member_text ms)"
    have "reads_back j" if "(k, j) \<in> set ms" for k j
    proof -
      from 2(2) that have "plain j" by (auto simp: list_all_iff)
      then show ?thesis using 2(1) [OF that refl] by blast
    qed
    then have rb: "\<forall>(k, j) \<in> set ms. reads_back j" by blast
    from False have o: "opens ?t" by (intro opens_join opens_member)
    then obtain c t where ct: "?t = c # t" "c \<noteq> 125" using opens_Cons by blast
    have "skip_ws (c # t @ 125 # r) = c # t @ 125 # r" using opens_skip [OF o, of "125 # r"] unfolding ct by simp
    moreover have "pmembers (c # t @ 125 # r) = Some (ms, r)" using pmembers_join [OF False rb, of r] unfolding ct by simp
    moreover have "dumps_text (JObj ms) @ r = 123 # c # t @ 125 # r" unfolding dumps_text.simps ct by simp
    ultimately show ?thesis using ct(2) by simp
  qed simp
  moreover have "opens (dumps_text (JObj ms))" using 2(2) by (rule opens_text)
  ultimately show ?case unfolding reads_back_def by blast
qed (auto simp: reads_back_def pval_show_int pval_word scan_str_print print_str_def opens_show_int,
    simp_all add: opens_def u_def is_ws_def)

lemma loads_text: "plain j \<Longrightarrow> json_loads (dumps_text j) = Some j"
  using reads_back_plain [of j] opens_skip [of "dumps_text j" "[]"]
  by (simp add: reads_back_def json_loads_def json_parse_def stops_def skip_ws_def py_dicts_id plain_dicts)

text \<open>A printed record stays on its line.\<close>

lemma hex4_one_line: "d \<in> set (hex4 c) \<Longrightarrow> 32 \<le> d"
  by (auto simp: hex4_def hex_digit_def)

lemma escape_one_line: "\<forall>d \<in> set (escape_char False c). 32 \<le> d"
proof (cases "c < 32")
  case True
  then show ?thesis by (simp add: escape_char_def ball_Un) (use hex4_one_line in blast)
next
  case False
  then show ?thesis by (simp add: escape_char_def)
qed

lemma print_one_line: "c \<in> set (print_str False s) \<Longrightarrow> 32 \<le> c"
  using escape_one_line by (auto simp: print_str_def)

lemma show_int_one_line: "c \<in> set (show_int i) \<Longrightarrow> 32 \<le> c"
  using show_nat_digits [of "nat i"] show_nat_digits [of "nat (- i)"]
  by (auto simp: show_int_def list_all_iff is_digit_def split: if_splits)

lemma set_join: "set (join sep ws) \<subseteq> set sep \<union> \<Union> (set (map set ws))"
  by (induction sep ws rule: join.induct) auto

lemma text_one_line: "plain j \<Longrightarrow> \<forall>c \<in> set (dumps_text j). 32 \<le> c"
proof (induction j rule: plain.induct)
  case (1 js)
  with set_join [of "u '', ''" "map dumps_text js"] show ?case by (fastforce simp: list_all_iff u_separators)
next
  case (2 ms)
  have "32 \<le> c" if "m \<in> set ms" "c \<in> set (member_text m)" for c m
    using 2 that by (cases m) (fastforce simp: list_all_iff u_separators dest: print_one_line)
  with set_join [of "u '', ''" "map member_text ms"] show ?case by (fastforce simp: u_separators)
qed (auto simp: u_def dest: print_one_line show_int_one_line)

lemma parse_record_line:
  assumes "plain (JObj r)"
  shows "parse_line (dumps_text (JObj r)) = Some r"
proof -
  have "strip (dumps_text (JObj r)) = dumps_text (JObj r)"
    by (rule strip_eq_self) (simp add: is_space_def)
  moreover have "dumps_text (JObj r) \<noteq> []" by simp
  ultimately show ?thesis unfolding parse_line_def Let_def by (simp only: loads_text [OF assms]) simp
qed

section \<open>The files as lists of records\<close>

definition stored_form :: "(pystr \<times> json) list \<Rightarrow> (pystr \<times> json) list" where
  "stored_form r = sort_key fst (map (\<lambda>(k, j). (k, sort_keys j)) r)"

lemma sort_keys_record: "sort_keys (JObj r) = JObj (stored_form r)"
  by (simp add: stored_form_def)

lemma map_of_stored: "dict_ok r \<Longrightarrow> map_of (stored_form r) k = map_option sort_keys (map_of r k)"
proof -
  assume "dict_ok r"
  moreover have "map fst (map (\<lambda>(k, j). (k, sort_keys j)) r) = map fst r" by auto
  ultimately have "distinct (map fst (map (\<lambda>(k, j). (k, sort_keys j)) r))" unfolding dict_ok_def by argo
  then have "map_of (stored_form r) = map_of (map (\<lambda>(k, j). (k, sort_keys j)) r)"
    unfolding stored_form_def by (rule map_of_sort_key)
  then show ?thesis by (simp add: map_of_map)
qed

definition log_text :: "(pystr \<times> json) list list \<Rightarrow> pystr" where
  "log_text rs = concat (map (\<lambda>r. dumps_text (JObj r) @ [10]) rs)"

definition log_holds :: "chat_env \<Rightarrow> path \<Rightarrow> (pystr \<times> json) list list \<Rightarrow> fs \<Rightarrow> bool" where
  "log_holds e p rs fs \<longleftrightarrow> list_all (\<lambda>r. plain (JObj r)) rs \<and> (rs = [] \<and> fs p = None \<or>
     (\<exists>b. fs p = Some (File b) \<and> utf8_encode (to_linesep (ch_linesep e) (log_text rs)) = Some b))"

definition env_ok :: "chat_env \<Rightarrow> bool" where
  "env_ok e \<longleftrightarrow> ch_linesep e = [10] \<or> ch_linesep e = [13, 10]"

lemma log_text_lines: "list_all (\<lambda>r. plain (JObj r)) rs \<Longrightarrow> List.map_filter parse_line (split_on 10 (log_text rs)) = rs"
proof (induction rs)
  case Nil
  then show ?case by (simp add: log_text_def List.map_filter_def parse_line_def)
next
  case (Cons r rs)
  from Cons.prems have p: "plain (JObj r)" by simp
  then have "10 \<notin> set (dumps_text (JObj r))" using text_one_line [OF p] by fastforce
  then have "split_on 10 (log_text (r # rs)) = dumps_text (JObj r) # split_on 10 (log_text rs)"
    unfolding log_text_def list.map concat.simps append_assoc append_Cons append_Nil by (rule split_on_append)
  with Cons show ?case by (simp add: List.map_filter_def parse_record_line del: dumps_text.simps)
qed

lemma log_text_no_cr: "list_all (\<lambda>r. plain (JObj r)) rs \<Longrightarrow> 13 \<notin> set (log_text rs)"
proof (induction rs)
  case (Cons r rs)
  then have "13 \<notin> set (dumps_text (JObj r))" using text_one_line [of "JObj r"] by fastforce
  with Cons show ?case by (simp add: log_text_def del: dumps_text.simps)
qed (simp add: log_text_def)

lemma read_log:
  assumes "env_ok e" and "log_holds e p rs fs"
  shows "read_jsonl p fs = (fs, Inr rs)"
proof (cases "fs p")
  case None
  with assms show ?thesis by (simp add: log_holds_def read_jsonl_def exists_path_def)
next
  case (Some n)
  with assms(2) obtain b where pl: "list_all (\<lambda>r. plain (JObj r)) rs" and b: "fs p = Some (File b)"
    "utf8_encode (to_linesep (ch_linesep e) (log_text rs)) = Some b"
    by (auto simp: log_holds_def)
  from b(2) have "utf8_decode b = Some (to_linesep (ch_linesep e) (log_text rs))" by (rule utf8_roundtrip)
  with b assms(1) have "read_text p fs = (fs, Inr (log_text rs))"
    using log_text_no_cr [OF pl] by (auto simp: read_text_def env_ok_def universal_newlines_plain universal_newlines_crlf)
  with b show ?thesis
    by (simp add: read_jsonl_def exists_path_def on_files_def abind_def log_text_lines [OF pl])
qed

lemma utf8_encode_append: "utf8_encode s = Some a \<Longrightarrow> utf8_encode t = Some b \<Longrightarrow> utf8_encode (s @ t) = Some (a @ b)"
  by (auto simp: utf8_encode_def utf8_ok_def split: if_splits)

lemma to_linesep_append: "to_linesep sep (s @ t) = to_linesep sep s @ to_linesep sep t"
  by (simp add: to_linesep_def)

lemma mkdir_frame:
  assumes "mkdir_parents root fs = (fs', x)" and "\<not> prefix q root"
  shows "fs' q = fs q"
proof -
  have "confined (\<lambda>_. False) (\<lambda>q. prefix q root) fs fs'"
    by (rule keepsD [OF confined_mkdir assms(1)])
  with assms(2) show ?thesis by (auto simp: confined_def)
qed

lemma append_text_effect:
  assumes "append_text sep p s fs = (fs', x)"
  shows "q \<noteq> p \<Longrightarrow> fs' q = fs q"
    and "fs' p = fs p \<or> fs p = None \<and> fs' p = Some (File []) \<and> x \<noteq> Inr () \<or>
      (\<exists>old b. (fs p = Some (File old) \<or> fs p = None \<and> old = []) \<and> utf8_encode (to_linesep sep s) = Some b \<and>
         fs' p = Some (File (old @ b)) \<and> x = Inr ())"
    and "x = Inr () \<Longrightarrow> \<exists>old b. (fs p = Some (File old) \<or> fs p = None \<and> old = []) \<and>
         utf8_encode (to_linesep sep s) = Some b \<and> fs' p = Some (File (old @ b))"
  using assms by (auto simp: append_text_def Let_def split: option.splits node.splits if_splits)

lemma append_jsonl_frame:
  assumes "append_jsonl e p r fs = (fs', x)" and "q \<noteq> p" and "\<not> prefix q (ch_root e)"
  shows "fs' q = fs q"
proof -
  obtain fs1 y where m: "mkdir_parents (ch_root e) fs = (fs1, y)" by (cases "mkdir_parents (ch_root e) fs")
  have "fs1 q = fs q" using mkdir_frame [OF m assms(3)] .
  with assms m show ?thesis
    by (cases y) (auto simp: append_jsonl_def on_files_def abind_def split: prod.splits dest: append_text_effect(1) [OF _ assms(2)])
qed

lemma log_holds_frame: "log_holds e q rs fs \<Longrightarrow> fs' q = fs q \<Longrightarrow> log_holds e q rs fs'"
  by (simp add: log_holds_def)

lemma empty_log: "utf8_encode (to_linesep sep (log_text [])) = Some []"
  by (simp add: log_text_def to_linesep_def utf8_encode_def utf8_ok_def)

lemma append_log:
  assumes h: "log_holds e p rs fs" and np: "\<not> prefix p (ch_root e)" and "plain (JObj r)"
    and a: "append_jsonl e p r fs = (fs', x)"
  shows "x = Inr () \<Longrightarrow> log_holds e p (rs @ [stored_form r]) fs'"
    and "log_holds e p rs fs' \<or> log_holds e p (rs @ [stored_form r]) fs' \<and> x = Inr ()"
proof -
  obtain fs1 y where m: "mkdir_parents (ch_root e) fs = (fs1, y)" by (cases "mkdir_parents (ch_root e) fs")
  have p1: "fs1 p = fs p" using mkdir_frame [OF m np] .
  have pl: "plain (JObj (stored_form r))" using plain_sort_keys [OF assms(3)] by (simp only: sort_keys_record)
  have line: "log_text (rs @ [stored_form r]) = log_text rs @ record_line r"
    unfolding log_text_def record_line_def sort_keys_record by simp
  have grown: "log_holds e p (rs @ [stored_form r]) fs'"
    if "fs p = Some (File old) \<or> fs p = None \<and> old = []" "utf8_encode (to_linesep (ch_linesep e) (record_line r)) = Some b"
      "fs' p = Some (File (old @ b))" for old b
  proof -
    from h that(1) have "utf8_encode (to_linesep (ch_linesep e) (log_text rs)) = Some old"
      by (auto simp: log_holds_def empty_log)
    from utf8_encode_append [OF this that(2)] have
      "utf8_encode (to_linesep (ch_linesep e) (log_text (rs @ [stored_form r]))) = Some (old @ b)"
      unfolding line to_linesep_append .
    with that(3) h pl show ?thesis unfolding log_holds_def by simp
  qed
  have created: "log_holds e p rs fs'" if "fs p = None" "fs' p = Some (File [])"
    using h that by (simp add: log_holds_def empty_log)
  have run: "y = Inr () \<and> (\<exists>z. append_text (ch_linesep e) p (record_line r) fs1 = (fs', z) \<and> (x = Inr () \<longleftrightarrow> z = Inr ())) \<or> fs' = fs1 \<and> x \<noteq> Inr ()"
    using a m by (cases y) (auto simp: append_jsonl_def on_files_def abind_def map_sum_def split: prod.splits sum.splits)
  show "x = Inr () \<Longrightarrow> log_holds e p (rs @ [stored_form r]) fs'"
    using run append_text_effect(3) grown unfolding p1 [symmetric] by metis
  show "log_holds e p rs fs' \<or> log_holds e p (rs @ [stored_form r]) fs' \<and> x = Inr ()"
  proof (rule disjE [OF run])
    assume "fs' = fs1 \<and> x \<noteq> Inr ()"
    with h p1 show ?thesis using log_holds_frame by metis
  next
    assume "y = Inr () \<and> (\<exists>z. append_text (ch_linesep e) p (record_line r) fs1 = (fs', z) \<and> (x = Inr () \<longleftrightarrow> z = Inr ()))"
    then obtain z where z: "append_text (ch_linesep e) p (record_line r) fs1 = (fs', z)" "x = Inr () \<longleftrightarrow> z = Inr ()" by blast
    from append_text_effect(2) [OF z(1), unfolded p1] show ?thesis
    proof (elim disjE exE)
      assume "fs' p = fs p"
      with h have "log_holds e p rs fs'" by (rule log_holds_frame)
      then show ?thesis ..
    next
      assume "fs p = None \<and> fs' p = Some (File []) \<and> z \<noteq> Inr ()"
      then have "log_holds e p rs fs'" using created by simp
      then show ?thesis ..
    next
      fix old b
      assume k: "(fs p = Some (File old) \<or> fs p = None \<and> old = []) \<and>
        utf8_encode (to_linesep (ch_linesep e) (record_line r)) = Some b \<and> fs' p = Some (File (old @ b)) \<and> z = Inr ()"
      then have "log_holds e p (rs @ [stored_form r]) fs'" using grown [of old b] by simp
      with k z(2) show ?thesis by simp
    qed
  qed
qed

section \<open>What the store maintains\<close>

definition view_ok :: "chat_view option \<Rightarrow> bool" where
  "view_ok v \<longleftrightarrow> (case v of None \<Rightarrow> True | Some c \<Rightarrow> cv_include_diff c \<in> {JBool True, JBool False, JStr (u ''model'')})"

text \<open>The turns of every session are numbered from one, in the order of the file.\<close>

definition numbered :: "(pystr \<times> json) list list \<Rightarrow> bool" where
  "numbered os \<longleftrightarrow> (\<forall>sid. map (\<lambda>r. map_of r (u ''turn_index'')) (filter (is_turn_of sid) os) =
     map (\<lambda>n. Some (JInt (int n))) [1..<Suc (length (filter (is_turn_of sid) os))])"

definition mirror :: "(pystr \<times> json) list \<Rightarrow> (pystr \<times> json) list \<Rightarrow> bool" where
  "mirror r w \<longleftrightarrow> map_of w (u ''source_turn_index'') = map_of r (u ''turn_index'') \<and>
     (\<forall>k \<in> {''type'', ''session_id'', ''turn_index'', ''created_at'', ''user'', ''assistant_final'', ''state''}. map_of w (u k) = map_of r (u k))"

text \<open>
  The working stream repeats turns of the original one, in order; it lacks a turn whose second line could
  not be written.
\<close>

definition mirrored :: "(pystr \<times> json) list list \<Rightarrow> (pystr \<times> json) list list \<Rightarrow> bool" where
  "mirrored os ws \<longleftrightarrow> (\<exists>os'. subseq os' os \<and> list_all2 mirror os' ws)"

definition chat_logs ::
  "chat_env \<Rightarrow> (pystr \<times> json) list list \<Rightarrow> (pystr \<times> json) list list \<Rightarrow> (pystr \<times> json) list list \<Rightarrow> fs \<Rightarrow> bool" where
  "chat_logs e ss os ws fs \<longleftrightarrow> log_holds e (sessions_path e) ss fs \<and> log_holds e (original_turns_path e) os fs \<and>
     log_holds e (working_turns_path e) ws fs"

definition chat_ok :: "chat_env \<Rightarrow> fs \<Rightarrow> bool" where
  "chat_ok e fs \<longleftrightarrow> (\<exists>ss os ws. chat_logs e ss os ws fs \<and> numbered os \<and> mirrored os ws)"

lemma paths_distinct [simp]:
  "sessions_path e \<noteq> original_turns_path e" "original_turns_path e \<noteq> sessions_path e"
  "sessions_path e \<noteq> working_turns_path e" "working_turns_path e \<noteq> sessions_path e"
  "original_turns_path e \<noteq> working_turns_path e" "working_turns_path e \<noteq> original_turns_path e"
  by (simp_all add: sessions_path_def original_turns_path_def working_turns_path_def)

lemma paths_below_root [simp]:
  "\<not> prefix (sessions_path e) (ch_root e)" "\<not> prefix (original_turns_path e) (ch_root e)"
  "\<not> prefix (working_turns_path e) (ch_root e)"
  by (auto simp: sessions_path_def original_turns_path_def working_turns_path_def prefix_def)

lemma plain_snapshot: "view_ok v \<Longrightarrow> plain (JObj (state_snapshot v))"
  by (auto simp: view_ok_def state_snapshot_def dict_ok_def split: option.splits)

lemma plain_records [simp]:
  "view_ok v \<Longrightarrow> plain (JObj (session_record identity now v heading))"
  "view_ok v \<Longrightarrow> plain (JObj (original_turn sid n now user assistant v))"
  "view_ok v \<Longrightarrow> plain (JObj (working_turn sid n now user assistant v))"
  using plain_snapshot [of v] by (simp_all add: session_record_def original_turn_def working_turn_def dict_ok_def)

lemma stored_original:
  "map_of (stored_form (original_turn sid n now user assistant v)) (u k) =
     map_option sort_keys (map_of (original_turn sid n now user assistant v) (u k))"
  by (rule map_of_stored) (simp add: original_turn_def dict_ok_def)

lemma stored_working:
  "map_of (stored_form (working_turn sid n now user assistant v)) (u k) =
     map_option sort_keys (map_of (working_turn sid n now user assistant v) (u k))"
  by (rule map_of_stored) (simp add: working_turn_def dict_ok_def)

lemma turn_of_stored: "is_turn_of sid' (stored_form (original_turn sid n now user assistant v)) \<longleftrightarrow> sid' = sid"
  unfolding is_turn_of_def stored_original by (auto simp: original_turn_def)

lemma mirror_stored:
  "mirror (stored_form (original_turn sid n now user assistant v)) (stored_form (working_turn sid n now user assistant v))"
  unfolding mirror_def stored_original stored_working by (simp add: original_turn_def working_turn_def)

lemma numbered_snoc:
  assumes "numbered os" and "n = length (filter (is_turn_of sid) os) + 1"
  shows "numbered (os @ [stored_form (original_turn sid n now user assistant v)])"
proof -
  have "map_of (stored_form (original_turn sid n now user assistant v)) (u ''turn_index'') = Some (JInt (int n))"
    unfolding stored_original by (simp add: original_turn_def)
  with assms show ?thesis by (auto simp: numbered_def turn_of_stored)
qed

lemma mirrored_grow: "mirrored os ws \<Longrightarrow> mirrored (os @ [r]) ws"
  unfolding mirrored_def by (meson list_emb_append2 subseq_order.order_trans subseq_rev_drop_many order_refl)

lemma mirrored_snoc: "mirrored os ws \<Longrightarrow> mirror r w \<Longrightarrow> mirrored (os @ [r]) (ws @ [w])"
proof -
  assume "mirrored os ws" and m: "mirror r w"
  then obtain os' where "subseq os' os" "list_all2 mirror os' ws" by (auto simp: mirrored_def)
  with m have "subseq (os' @ [r]) (os @ [r])" "list_all2 mirror (os' @ [r]) (ws @ [w])"
    by (auto intro: list_all2_appendI)
  then show ?thesis unfolding mirrored_def by blast
qed

lemma mirrored_Nil [simp]: "mirrored [] []"
  unfolding mirrored_def by auto

lemma numbered_Nil [simp]: "numbered []"
  by (simp add: numbered_def)

lemma chat_ok_new_session:
  assumes "chat_ok e fs" and "view_ok v" and "new_session e identity now v heading fs = (fs', x)"
  shows "chat_ok e fs'"
proof -
  obtain ss os ws where l: "chat_logs e ss os ws fs" "numbered os" "mirrored os ws" using assms(1) by (auto simp: chat_ok_def)
  obtain y where a: "append_jsonl e (sessions_path e) (session_record identity now v heading) fs = (fs', y)"
    using assms(3) by (auto simp: new_session_def abind_def split: prod.splits sum.splits)
  have "\<exists>ss'. log_holds e (sessions_path e) ss' fs'"
    using append_log(2) [OF _ _ _ a] l(1) assms(2) unfolding chat_logs_def by (metis paths_below_root(1) plain_records(1))
  moreover have "log_holds e (original_turns_path e) os fs'" "log_holds e (working_turns_path e) ws fs'"
    using l(1) log_holds_frame append_jsonl_frame [OF a] by (auto simp: chat_logs_def)
  ultimately show ?thesis using l(2,3) unfolding chat_ok_def chat_logs_def by blast
qed

lemma next_index:
  assumes "env_ok e" and "chat_logs e ss os ws fs"
  shows "next_turn_index e sid fs = (fs, Inr (length (filter (is_turn_of sid) os) + 1))"
proof -
  have "read_jsonl (original_turns_path e) fs = (fs, Inr os)"
    using assms(2) by (intro read_log [OF assms(1)]) (simp add: chat_logs_def)
  then show ?thesis by (simp add: next_turn_index_def abind_def)
qed

text \<open>The three outcomes of \<open>append_turn\<close>: nothing, the original line alone, or both lines.\<close>

lemma append_turn_outcomes:
  assumes "env_ok e" and l: "chat_logs e ss os ws fs" and "view_ok v"
    and a: "append_turn e sid now user assistant v fs = (fs', x)"
  defines "n \<equiv> length (filter (is_turn_of sid) os) + 1"
  shows "chat_logs e ss os ws fs' \<and> (\<forall>m. x \<noteq> Inr m) \<or>
    chat_logs e ss (os @ [stored_form (original_turn sid n now user assistant v)]) ws fs' \<and> (\<forall>m. x \<noteq> Inr m) \<or>
    chat_logs e ss (os @ [stored_form (original_turn sid n now user assistant v)])
      (ws @ [stored_form (working_turn sid n now user assistant v)]) fs' \<and> x = Inr n"
proof (cases "sid = [] \<or> snd (assert_no_unhandled_tool_call_markup assistant fs) \<noteq> Inr ()")
  case True
  then have "fs' = fs \<and> (\<forall>m. x \<noteq> Inr m)"
    using a by (auto simp: append_turn_def assert_no_unhandled_tool_call_markup_def abind_def guard_def split: if_splits)
  with l show ?thesis by blast
next
  case False
  then have chk: "sid \<noteq> []" "assert_no_unhandled_tool_call_markup assistant fs = (fs, Inr ())"
    by (auto simp: assert_no_unhandled_tool_call_markup_def guard_def split: if_splits)
  obtain fs1 y where o1: "append_jsonl e (original_turns_path e) (original_turn sid n now user assistant v) fs = (fs1, y)"
    by fastforce
  have keep: "log_holds e (sessions_path e) ss fs1" "log_holds e (working_turns_path e) ws fs1"
    using l log_holds_frame append_jsonl_frame [OF o1] by (auto simp: chat_logs_def)
  have lo: "log_holds e (original_turns_path e) os fs" using l by (simp add: chat_logs_def)
  have rest: "(case y of Inl z \<Rightarrow> (fs1, Inl z) | Inr _ \<Rightarrow>
      abind (append_jsonl e (working_turns_path e) (working_turn sid n now user assistant v)) (\<lambda>_. ret n) fs1) = (fs', x)"
    using a chk o1 next_index [OF assms(1) l, of sid] unfolding n_def append_turn_def
    by (simp add: abind_def split: sum.splits)
  show ?thesis
  proof (cases y)
    case (Inl z)
    with rest have "fs' = fs1" "x = Inl z" by auto
    with append_log(2) [OF lo paths_below_root(2) plain_records(2) [OF assms(3)] o1] keep Inl
    show ?thesis unfolding chat_logs_def by auto
  next
    case (Inr un)
    with append_log(1) [OF lo paths_below_root(2) plain_records(2) [OF assms(3)] o1] have
      os: "log_holds e (original_turns_path e) (os @ [stored_form (original_turn sid n now user assistant v)]) fs1" by simp
    obtain fs2 z where w: "append_jsonl e (working_turns_path e) (working_turn sid n now user assistant v) fs1 = (fs2, z)" by fastforce
    with rest Inr have fs2: "fs' = fs2" "x = (case z of Inl t \<Rightarrow> Inl t | Inr _ \<Rightarrow> Inr n)"
      by (auto simp: abind_def split: sum.splits)
    have k2: "log_holds e (sessions_path e) ss fs2" 
      "log_holds e (original_turns_path e) (os @ [stored_form (original_turn sid n now user assistant v)]) fs2"
      using keep os log_holds_frame append_jsonl_frame [OF w] by auto
    show ?thesis
      using append_log(1,2) [OF keep(2) paths_below_root(3) plain_records(3) [OF assms(3)] w] k2 fs2 unfolding chat_logs_def by (cases z) auto
  qed
qed

lemma chat_ok_append_turn:
  assumes "env_ok e" and "chat_ok e fs" and "view_ok v" and "append_turn e sid now user assistant v fs = (fs', x)"
  shows "chat_ok e fs'"
proof -
  obtain ss os ws where l: "chat_logs e ss os ws fs" "numbered os" "mirrored os ws" using assms(2) by (auto simp: chat_ok_def)
  show ?thesis
    using append_turn_outcomes [OF assms(1) l(1) assms(3,4)] numbered_snoc [OF l(2) refl] mirrored_grow [OF l(3)]
      mirrored_snoc [OF l(3) mirror_stored] l(2,3)
    unfolding chat_ok_def by blast
qed

lemma sort_key_sorted: "sorted (map f xs) \<Longrightarrow> sort_key f xs = xs"
  by (induction xs) (simp_all add: insort_is_Cons)

lemma load_numbered:
  assumes "env_ok e" and l: "chat_logs e ss os ws fs" and n: "numbered os"
  shows "load_original_turns e sid limit fs = (fs, Inr (latest limit (filter (is_turn_of sid) os)))"
proof -
  let ?T = "filter (is_turn_of sid) os" and ?k = "u ''turn_index''"
  define g where "g r = (case map_of r ?k of Some (JInt i) \<Rightarrow> i | _ \<Rightarrow> 0)" for r :: "(pystr \<times> json) list"
  have idx: "map_of (?T ! i) ?k = Some (JInt (int (Suc i)))" if "i < length ?T" for i
  proof -
    have "map (\<lambda>r. map_of r ?k) ?T ! i = map (\<lambda>n. Some (JInt (int n))) [1..<Suc (length ?T)] ! i"
      using n unfolding numbered_def by metis
    with that show ?thesis by (simp del: upt_Suc)
  qed
  have "turn_number e r = Inr (g r)" if "r \<in> set ?T" for r
    using that idx unfolding in_set_conv_nth by (auto simp: turn_number_def g_def)
  then have "map_res (\<lambda>r. rbind (turn_number e r) (\<lambda>n. Inr (n, r))) ?T = Inr (map (\<lambda>r. (g r, r)) ?T)"
    by (intro map_res_all_Inr) simp
  moreover have "sort_key fst (map (\<lambda>r. (g r, r)) ?T) = map (\<lambda>r. (g r, r)) ?T"
  proof (rule sort_key_sorted)
    have "map fst (map (\<lambda>r. (g r, r)) ?T) = map int [1..<Suc (length ?T)]"
      by (rule nth_equalityI) (use idx in \<open>auto simp: g_def simp del: upt_Suc\<close>)
    then show "sorted (map fst (map (\<lambda>r. (g r, r)) ?T))" by (simp add: sorted_map del: upt_Suc)
  qed
  moreover have "read_jsonl (original_turns_path e) fs = (fs, Inr os)"
    using l by (intro read_log [OF assms(1)]) (simp add: chat_logs_def)
  ultimately show ?thesis by (simp add: load_original_turns_def abind_def comp_def)
qed

section \<open>Histories of calls\<close>

datatype chat_call =
    NewSession pystr pystr "chat_view option" pystr
  | AppendTurn pystr pystr pystr pystr "chat_view option"

fun chat_step :: "chat_env \<Rightarrow> chat_call \<Rightarrow> fs \<Rightarrow> fs" where
  "chat_step e (NewSession identity now v heading) fs = fst (new_session e identity now v heading fs)"
| "chat_step e (AppendTurn sid now user assistant v) fs = fst (append_turn e sid now user assistant v fs)"

fun call_ok :: "chat_call \<Rightarrow> bool" where
  "call_ok (NewSession identity now v heading) = view_ok v"
| "call_ok (AppendTurn sid now user assistant v) = view_ok v"

definition empty_store :: "chat_env \<Rightarrow> fs \<Rightarrow> bool" where
  "empty_store e fs \<longleftrightarrow> fs (sessions_path e) = None \<and> fs (original_turns_path e) = None \<and> fs (working_turns_path e) = None"

lemma chat_ok_step: "env_ok e \<Longrightarrow> call_ok c \<Longrightarrow> chat_ok e fs \<Longrightarrow> chat_ok e (chat_step e c fs)"
  by (cases c) (auto intro: chat_ok_new_session [OF _ _ surjective_pairing] chat_ok_append_turn [OF _ _ _ surjective_pairing])

lemma chat_ok_history:
  assumes "env_ok e" and "empty_store e fs" and "\<forall>c \<in> set calls. call_ok c"
  shows "chat_ok e (fold (chat_step e) calls fs)"
proof -
  have "chat_logs e [] [] [] fs"
    using assms(2) by (simp add: chat_logs_def log_holds_def empty_store_def)
  then have "chat_ok e fs" unfolding chat_ok_def by (metis numbered_Nil mirrored_Nil)
  with assms(1,3) show ?thesis by (induction calls arbitrary: fs) (simp_all add: chat_ok_step)
qed

text \<open>
  C0: Whatever sessions and turns were recorded since the store was empty, and whichever of these calls failed,
  the turns of every session in the original stream are numbered one, two, three and so on in the order of the
  file, and the working stream repeats turns of the original stream in the same order.
\<close>

theorem chat_streams_consistent:
  assumes "env_ok e" and "empty_store e fs" and "\<forall>c \<in> set calls. call_ok c"
    and "fs' = fold (chat_step e) calls fs"
  shows "\<exists>os ws. read_jsonl (original_turns_path e) fs' = (fs', Inr os) \<and> read_jsonl (working_turns_path e) fs' = (fs', Inr ws) \<and>
    numbered os \<and> mirrored os ws"
proof -
  obtain ss os ws where l: "chat_logs e ss os ws fs'" "numbered os" "mirrored os ws"
    using chat_ok_history [OF assms(1-3)] by (auto simp: chat_ok_def assms(4))
  then have "read_jsonl (original_turns_path e) fs' = (fs', Inr os)" "read_jsonl (working_turns_path e) fs' = (fs', Inr ws)"
    by (simp_all add: chat_logs_def read_log [OF assms(1)])
  with l show ?thesis by blast
qed

text \<open>
  C0: A turn that \<open>append_turn\<close> reports as recorded is what \<open>load_original_turns\<close> then returns last for its
  session, after the turns it returned before and with their number plus one as its index; the user's and the
  assistant's text are read back exactly, whatever characters they hold, and no other session's turns change.
  The store may have any history since it was empty.
\<close>

theorem appended_turn_is_loaded:
  assumes "env_ok e" and "empty_store e fs0" and "\<forall>c \<in> set calls. call_ok c" and fs: "fs = fold (chat_step e) calls fs0"
    and "view_ok v" and "append_turn e sid now user assistant v fs = (fs', Inr n)"
  shows "\<exists>ts t. load_original_turns e sid 0 fs = (fs, Inr ts) \<and> n = length ts + 1 \<and>
    (\<forall>limit. load_original_turns e sid limit fs' = (fs', Inr (latest limit (ts @ [t])))) \<and>
    map_of t (u ''user'') = Some (JStr user) \<and> map_of t (u ''assistant_final'') = Some (JStr assistant) \<and>
    map_of t (u ''turn_index'') = Some (JInt (int n)) \<and> map_of t (u ''created_at'') = Some (JStr now) \<and>
    (\<forall>other limit. other \<noteq> sid \<longrightarrow> snd (load_original_turns e other limit fs') = snd (load_original_turns e other limit fs))"
proof -
  obtain ss os ws where l: "chat_logs e ss os ws fs" "numbered os"
    using chat_ok_history [OF assms(1-3)] by (auto simp: chat_ok_def fs)
  let ?n = "length (filter (is_turn_of sid) os) + 1"
  let ?t = "stored_form (original_turn sid ?n now user assistant v)"
  from append_turn_outcomes [OF assms(1) l(1) assms(5,6)] obtain ws' where
    l': "chat_logs e ss (os @ [?t]) ws' fs'" and n: "n = ?n" by blast
  note load = load_numbered [OF assms(1) l] and load' = load_numbered [OF assms(1) l' numbered_snoc [OF l(2) refl]]
  show ?thesis
    by (rule exI [of _ "filter (is_turn_of sid) os"], rule exI [of _ ?t])
      (simp add: load load' turn_of_stored latest_def n stored_original, simp add: original_turn_def)
qed

section \<open>Witnesses\<close>

definition sample_chat_env :: chat_env where
  "sample_chat_env = \<lparr>ch_root = [u ''h''], ch_linesep = [13, 10], ch_str = (\<lambda>_. []), ch_int = (\<lambda>_. None)\<rparr>"

definition sample_disk :: fs where
  "sample_disk = (\<lambda>p. if p = [] then Some Dir else None)"

definition sample_calls :: "chat_call list" where
  "sample_calls = [NewSession (u ''s'') (u ''1'') None [], AppendTurn (u ''s'') (u ''2'') (u ''q'') [233, 10] None]"

lemma sample_chat_ok: "env_ok sample_chat_env" "empty_store sample_chat_env sample_disk" "\<forall>c \<in> set sample_calls. call_ok c"
  by (simp_all add: env_ok_def sample_chat_env_def empty_store_def sample_disk_def sessions_path_def original_turns_path_def
      working_turns_path_def sample_calls_def view_ok_def)

lemma sample_second_turn:
  "snd (append_turn sample_chat_env (u ''s'') (u ''3'') (u ''r'') [128512] None (fold (chat_step sample_chat_env) sample_calls sample_disk)) = Inr 2"
  by code_simp

theorem chat_streams_consistent_witness:
  "\<exists>fs' os ws. read_jsonl (original_turns_path sample_chat_env) fs' = (fs', Inr os) \<and> numbered os \<and> mirrored os ws"
  using chat_streams_consistent [OF sample_chat_ok refl] by blast

theorem appended_turn_is_loaded_witness:
  "\<exists>fs' t. load_original_turns sample_chat_env (u ''s'') 1 fs' = (fs', Inr [t]) \<and>
     map_of t (u ''assistant_final'') = Some (JStr [128512]) \<and> map_of t (u ''turn_index'') = Some (JInt 2)"
proof -
  obtain fs' where run: "append_turn sample_chat_env (u ''s'') (u ''3'') (u ''r'') [128512] None
      (fold (chat_step sample_chat_env) sample_calls sample_disk) = (fs', Inr 2)"
    using sample_second_turn by (metis prod.collapse)
  have "view_ok None" by (simp add: view_ok_def)
  from appended_turn_is_loaded [OF sample_chat_ok refl this run] obtain ts t where
    "\<forall>limit. load_original_turns sample_chat_env (u ''s'') limit fs' = (fs', Inr (latest limit (ts @ [t])))"
    "map_of t (u ''assistant_final'') = Some (JStr [128512])" "map_of t (u ''turn_index'') = Some (JInt (int 2))" by metis
  then show ?thesis by (intro exI [of _ fs'] exI [of _ t]) (simp add: latest_def)
qed

end
